(* ===== verification/Prelude.thy ===== *)
theory Prelude
  imports Complex_Main "HOL-Library.Sublist" "HOL-Library.Char_ord"
begin

text \<open>
  Shared vocabulary of the development: the named theorem collections, the Python string
  operations the code uses (\<open>str(int)\<close>, \<open>int(str)\<close>, \<open>str.strip\<close>, \<open>str.join\<close>) with
  their round trips, and the fault model of a call to a network service: such a call returns
  a reply, or raises before or after the service has executed it.
\<close>

named_theorems model_defs \<open>definitions of small helpers that proofs unfold\<close>
named_theorems key_facts \<open>distinctness and injectivity of the keys under which state is stored\<close>

section \<open>Lists\<close>

lemma distinct_singleton: "set ys = {x} \<Longrightarrow> distinct ys \<Longrightarrow> ys = [x]"
  using distinct_card [of ys] by (cases ys; cases "tl ys") auto

text \<open>
  A Python dictionary as the list of its entries in insertion order: \<open>d[k] = v\<close> keeps the
  place of an existing key, \<open>d.pop(k, None)\<close> removes it.
\<close>

fun dict_set :: "'k \<Rightarrow> 'v \<Rightarrow> ('k \<times> 'v) list \<Rightarrow> ('k \<times> 'v) list" where
  "dict_set k v [] = [(k, v)]"
| "dict_set k v ((k', v') # d) = (if k' = k then (k, v) # d else (k', v') # dict_set k v d)"

definition dict_pop :: "'k \<Rightarrow> ('k \<times> 'v) list \<Rightarrow> ('k \<times> 'v) list" where
  "dict_pop k d = filter (\<lambda>(k', _). k' \<noteq> k) d"

lemma dict_set_map_of [simp]: "map_of (dict_set k v d) = (map_of d)(k \<mapsto> v)"
  by (induction k v d rule: dict_set.induct) auto

lemma dict_set_keys [simp]: "fst ` set (dict_set k v d) = insert k (fst ` set d)"
  by (induction k v d rule: dict_set.induct) auto

lemma dict_set_distinct: "distinct (map fst d) \<Longrightarrow> distinct (map fst (dict_set k v d))"
proof (induction k v d rule: dict_set.induct)
  case (2 k v k' v' d)
  moreover have "k' \<in> fst ` set (dict_set k v d) \<longleftrightarrow> k' \<in> insert k (fst ` set d)" by simp
  ultimately show ?case by (auto simp: image_iff)
qed simp

lemma dict_pop_keys [simp]: "fst ` set (dict_pop k d) = fst ` set d - {k}"
  by (auto simp: dict_pop_def)

lemma dict_pop_map_of [simp]: "map_of (dict_pop k d) = (map_of d)(k := None)"
  by (induction d) (auto simp: dict_pop_def fun_eq_iff)

text \<open>\<open>sep.join(parts)\<close>\<close>

fun join_with :: "string \<Rightarrow> string list \<Rightarrow> string" where
  "join_with sep [] = []"
| "join_with sep [x] = x"
| "join_with sep (x # y # ys) = x @ sep @ join_with sep (y # ys)"

section \<open>Digits and integers as Python strings\<close>

definition is_digit :: "char \<Rightarrow> bool" where
  "is_digit c \<longleftrightarrow> (48 :: nat) \<le> of_char c \<and> of_char c < (58 :: nat)"

definition digit_val :: "char \<Rightarrow> nat" where
  "digit_val c = of_char c - 48"

definition digit_char :: "nat \<Rightarrow> char" where
  "digit_char n = char_of (48 + n)"

lemma digit_char_props [simp]:
  "n < 10 \<Longrightarrow> is_digit (digit_char n)"
  "n < 10 \<Longrightarrow> digit_val (digit_char n) = n"
  by (simp_all add: is_digit_def digit_val_def digit_char_def)

text \<open>\<open>str(n)\<close> for a non-negative and for any Python integer.\<close>

fun str_of_nat :: "nat \<Rightarrow> string" where
  "str_of_nat n = (if n < 10 then [digit_char n] else str_of_nat (n div 10) @ [digit_char (n mod 10)])"

declare str_of_nat.simps [simp del]

definition str_of_int :: "int \<Rightarrow> string" where
  "str_of_int i = (if i < 0 then CHR ''-'' # str_of_nat (nat (- i)) else str_of_nat (nat i))"

text \<open>
  \<open>int(s)\<close> on ASCII text: surrounding white space is dropped, one sign is allowed, and a
  single underscore may separate two digits. \<open>None\<close> is the ValueError.
\<close>

text \<open>\<open>str.isspace\<close> on a character below 256.\<close>

definition is_space :: "char \<Rightarrow> bool" where
  "is_space c \<longleftrightarrow> (let n = (of_char c :: nat) in (9 \<le> n \<and> n \<le> 13) \<or> (28 \<le> n \<and> n \<le> 32) \<or> n = 133 \<or> n = 160)"

definition lstrip_by :: "(char \<Rightarrow> bool) \<Rightarrow> string \<Rightarrow> string" where
  "lstrip_by p s = dropWhile p s"

definition rstrip_by :: "(char \<Rightarrow> bool) \<Rightarrow> string \<Rightarrow> string" where
  "rstrip_by p s = rev (dropWhile p (rev s))"

definition strip_by :: "(char \<Rightarrow> bool) \<Rightarrow> string \<Rightarrow> string" where
  "strip_by p s = rstrip_by p (lstrip_by p s)"

abbreviation py_strip :: "string \<Rightarrow> string" where
  "py_strip s \<equiv> strip_by is_space s"

fun int_tail :: "nat \<Rightarrow> string \<Rightarrow> nat option" where
  "int_tail acc [] = Some acc"
| "int_tail acc (c # cs) =
     (if is_digit c then int_tail (acc * 10 + digit_val c) cs
      else if c = CHR ''_'' then
        (case cs of
           [] \<Rightarrow> None
         | d # ds \<Rightarrow> if is_digit d then int_tail (acc * 10 + digit_val d) ds else None)
      else None)"

fun int_digits :: "string \<Rightarrow> nat option" where
  "int_digits [] = None"
| "int_digits (c # cs) = (if is_digit c then int_tail (digit_val c) cs else None)"

definition py_int :: "string \<Rightarrow> int option" where
  "py_int s =
     (case py_strip s of
        [] \<Rightarrow> None
      | c # cs \<Rightarrow>
          if c = CHR ''-'' then map_option (\<lambda>n. - int n) (int_digits cs)
          else if c = CHR ''+'' then map_option int (int_digits cs)
          else map_option int (int_digits (c # cs)))"

lemma int_tail_append:
  "\<forall>c \<in> set xs. is_digit c \<Longrightarrow> int_tail acc (xs @ ys) =
     int_tail (fold (\<lambda>c a. a * 10 + digit_val c) xs acc) ys"
  by (induction xs arbitrary: acc) auto

lemma str_of_nat_digits: "\<forall>c \<in> set (str_of_nat n). is_digit c"
proof (induction n rule: str_of_nat.induct)
  case (1 n)
  then show ?case by (cases "n < 10") (auto simp: str_of_nat.simps [of n])
qed

lemma str_of_nat_nonempty [simp]: "str_of_nat n \<noteq> []"
  by (simp add: str_of_nat.simps [of n])

lemma str_of_nat_value: "fold (\<lambda>c a. a * 10 + digit_val c) (str_of_nat n) 0 = n"
proof (induction n rule: str_of_nat.induct)
  case (1 n)
  then show ?case by (cases "n < 10") (auto simp: str_of_nat.simps [of n])
qed

lemma int_digits_str_of_nat: "int_digits (str_of_nat n) = Some n"
proof -
  obtain c cs where s: "str_of_nat n = c # cs"
    by (cases "str_of_nat n") auto
  have dig: "is_digit c" "\<forall>x \<in> set cs. is_digit x"
    using str_of_nat_digits [of n] s by auto
  have "int_tail (digit_val c) (cs @ []) = int_tail (fold (\<lambda>c a. a * 10 + digit_val c) cs (digit_val c)) []"
    by (rule int_tail_append [OF dig(2)])
  moreover have "fold (\<lambda>c a. a * 10 + digit_val c) cs (digit_val c) = n"
    using str_of_nat_value [of n] s by simp
  ultimately show ?thesis using s dig(1) by simp
qed

lemma strip_by_id:
  assumes "s \<noteq> []" "\<not> p (hd s)" "\<not> p (last s)"
  shows "strip_by p s = s"
proof -
  have "dropWhile p s = s" using assms(1,2) by (cases s) auto
  moreover have "dropWhile p (rev s) = rev s"
    using assms(1,3) by (cases "rev s") (auto simp: last_rev hd_rev)
  ultimately show ?thesis by (simp add: strip_by_def lstrip_by_def rstrip_by_def)
qed

lemma digit_not_space: "is_digit c \<Longrightarrow> \<not> is_space c"
  by (auto simp: is_digit_def is_space_def Let_def)

lemma sign_not_space [simp]: "\<not> is_space CHR ''-''" "\<not> is_space CHR ''+''"
  by (simp_all add: is_space_def)

lemma digit_not_sign: "is_digit c \<Longrightarrow> c \<noteq> CHR ''-'' \<and> c \<noteq> CHR ''+''"
  by (auto simp: is_digit_def)

lemma str_of_nat_last: "is_digit (last (str_of_nat n))"
  by (rule bspec [OF str_of_nat_digits last_in_set]) simp

lemma py_int_str_of_int [simp]: "py_int (str_of_int i) = Some i"
proof (cases "i < 0")
  case True
  have "py_strip (CHR ''-'' # str_of_nat (nat (- i))) = CHR ''-'' # str_of_nat (nat (- i))"
    by (rule strip_by_id) (simp_all add: digit_not_space str_of_nat_last sign_not_space)
  with True show ?thesis by (simp add: py_int_def str_of_int_def int_digits_str_of_nat)
next
  case False
  obtain c cs where s: "str_of_nat (nat i) = c # cs"
    by (cases "str_of_nat (nat i)") auto
  have c: "is_digit c" using str_of_nat_digits [of "nat i"] s by simp
  have "py_strip (c # cs) = c # cs"
    by (rule strip_by_id) (use str_of_nat_last [of "nat i"] s c in \<open>simp_all add: digit_not_space\<close>)
  with False s digit_not_sign [OF c] int_digits_str_of_nat [of "nat i"] show ?thesis
    by (simp add: py_int_def str_of_int_def)
qed

lemma str_of_int_inj [simp]: "str_of_int i = str_of_int j \<longleftrightarrow> i = j"
  by (metis py_int_str_of_int option.inject)

text \<open>A line end.\<close>

definition NL :: string where
  "NL = [CHR 0x0A]"

section \<open>Calls to a network service\<close>

text \<open>
  A command of a network service is a function from its state to a reply and a new state. The
  client library raises when the connection fails, and then the service may or may not have
  executed the command. Which of the three happens is the environment's choice, an argument
  \<open>fault\<close>; \<open>None\<close> is the exception the code catches.
\<close>

datatype fault = Fine | FailBefore | FailAfter

fun call :: "fault \<Rightarrow> ('s \<Rightarrow> 'a \<times> 's) \<Rightarrow> 's \<Rightarrow> 'a option \<times> 's" where
  "call Fine cmd s = (let (r, s') = cmd s in (Some r, s'))"
| "call FailBefore cmd s = (None, s)"
| "call FailAfter cmd s = (None, snd (cmd s))"

lemma call_cases:
  "(call f cmd s = (Some (fst (cmd s)), snd (cmd s)) \<and> f = Fine)
   \<or> (call f cmd s = (None, s) \<and> f = FailBefore)
   \<or> (call f cmd s = (None, snd (cmd s)) \<and> f = FailAfter)"
  by (cases f) (auto split: prod.splits)

lemma call_keeps: "P s \<Longrightarrow> P (snd (cmd s)) \<Longrightarrow> P (snd (call f cmd s))"
  by (cases f) (auto split: prod.splits)

end
