(* ===== verification/Interfaces.thy ===== *)
theory Interfaces
  imports Prelude
begin

text \<open>
  The two services the program keeps its shared state in, Redis and Postgres, are not part of
  the repository. The operations the code calls are the fields of a record, an argument of
  every definition that uses them; what the code relies on is stated as the laws of a locale,
  over an observation of the service's state. The in-memory stores at the end of the theory
  satisfy the laws, so the contracts are consistent and witnesses can compute.
\<close>

section \<open>Redis: string keys with a time to live\<close>

text \<open>
  \<open>rd_view s k\<close> is what the server holds at \<open>k\<close>: the value and the seconds left, the time
  to live being \<open>None\<close> for a key that does not expire. \<open>rd_elapse n\<close> is the passing of
  \<open>n\<close> seconds. The commands are the ones the code issues: \<open>SET k v EX t NX\<close>,
  \<open>SET k v EX t IFEQ w\<close>, \<open>DELEX k IFEQ w\<close>, \<open>GET\<close>, \<open>EXISTS\<close>, \<open>EXPIRE\<close>, \<open>DEL\<close>,
  \<open>INCR\<close> and \<open>DECR\<close>.
\<close>

type_synonym entry = "string \<times> nat option"

record 's redis =
  rd_view :: "'s \<Rightarrow> string \<Rightarrow> entry option"
  rd_elapse :: "nat \<Rightarrow> 's \<Rightarrow> 's"
  rd_set_nx :: "string \<Rightarrow> string \<Rightarrow> nat \<Rightarrow> 's \<Rightarrow> bool \<times> 's"
  rd_set_ifeq :: "string \<Rightarrow> string \<Rightarrow> nat \<Rightarrow> string \<Rightarrow> 's \<Rightarrow> bool \<times> 's"
  rd_delex_ifeq :: "string \<Rightarrow> string \<Rightarrow> 's \<Rightarrow> bool \<times> 's"
  rd_get :: "string \<Rightarrow> 's \<Rightarrow> string option \<times> 's"
  rd_exists :: "string \<Rightarrow> 's \<Rightarrow> bool \<times> 's"
  rd_expire :: "string \<Rightarrow> nat \<Rightarrow> 's \<Rightarrow> bool \<times> 's"
  rd_del :: "string \<Rightarrow> 's \<Rightarrow> bool \<times> 's"
  rd_incrby :: "string \<Rightarrow> int \<Rightarrow> 's \<Rightarrow> int \<times> 's"

fun aged :: "nat \<Rightarrow> entry \<Rightarrow> entry option" where
  "aged n (v, None) = Some (v, None)"
| "aged n (v, Some t) = (if t \<le> n then None else Some (v, Some (t - n)))"

definition counter_at :: "entry option \<Rightarrow> int option" where
  "counter_at e = (case e of None \<Rightarrow> Some 0 | Some (v, _) \<Rightarrow> py_int v)"

locale redis_laws =
  fixes R :: "('s, 'x) redis_scheme"
  assumes view_elapse: "rd_view R (rd_elapse R n s) k = Option.bind (rd_view R s k) (aged n)"
    and set_nx_reply: "fst (rd_set_nx R k v t s) \<longleftrightarrow> rd_view R s k = None"
    and set_nx_view: "rd_view R (snd (rd_set_nx R k v t s)) =
      (if rd_view R s k = None then (rd_view R s)(k \<mapsto> (v, Some t)) else rd_view R s)"
    and set_ifeq_reply: "fst (rd_set_ifeq R k v t w s) \<longleftrightarrow> map_option fst (rd_view R s k) = Some w"
    and set_ifeq_view: "rd_view R (snd (rd_set_ifeq R k v t w s)) =
      (if map_option fst (rd_view R s k) = Some w then (rd_view R s)(k \<mapsto> (v, Some t))
       else rd_view R s)"
    and delex_reply: "fst (rd_delex_ifeq R k w s) \<longleftrightarrow> map_option fst (rd_view R s k) = Some w"
    and delex_view: "rd_view R (snd (rd_delex_ifeq R k w s)) =
      (if map_option fst (rd_view R s k) = Some w then (rd_view R s)(k := None) else rd_view R s)"
    and get_reply: "fst (rd_get R k s) = map_option fst (rd_view R s k)"
    and get_view: "rd_view R (snd (rd_get R k s)) = rd_view R s"
    and exists_reply: "fst (rd_exists R k s) \<longleftrightarrow> rd_view R s k \<noteq> None"
    and exists_view: "rd_view R (snd (rd_exists R k s)) = rd_view R s"
    and expire_reply: "fst (rd_expire R k t s) \<longleftrightarrow> rd_view R s k \<noteq> None"
    and expire_view: "rd_view R (snd (rd_expire R k t s)) =
      (rd_view R s)(k := map_option (\<lambda>(v, _). (v, Some t)) (rd_view R s k))"
    and del_reply: "fst (rd_del R k s) \<longleftrightarrow> rd_view R s k \<noteq> None"
    and del_view: "rd_view R (snd (rd_del R k s)) = (rd_view R s)(k := None)"
    and incrby_reply: "counter_at (rd_view R s k) = Some c \<Longrightarrow> fst (rd_incrby R k i s) = c + i"
    and incrby_view: "counter_at (rd_view R s k) = Some c \<Longrightarrow>
      rd_view R (snd (rd_incrby R k i s)) = (rd_view R s)(k \<mapsto>
        (str_of_int (c + i), case rd_view R s k of None \<Rightarrow> None | Some (_, t) \<Rightarrow> t))"
begin

lemmas replies = set_nx_reply set_ifeq_reply delex_reply get_reply exists_reply expire_reply
  del_reply incrby_reply

lemmas views = set_nx_view set_ifeq_view delex_view get_view exists_view expire_view
  del_view incrby_view view_elapse

end

section \<open>Postgres: a table with a primary key and a uniqueness constraint\<close>

text \<open>
  \<open>tb_view d\<close> maps primary keys to rows. \<open>tb_update p f\<close> is \<open>UPDATE .. SET .. WHERE p\<close>
  and returns the number of rows it changed; \<open>tb_insert\<close> is \<open>INSERT\<close> followed by the flush
  that fetches the key the server chose, \<open>None\<close> being the IntegrityError of the table's
  uniqueness constraint; \<open>tb_select p\<close> returns the rows with \<open>p\<close> in an order the server
  chooses. \<open>ok\<close> is the server's own consistency.
\<close>

record ('r, 'd) table =
  tb_view :: "'d \<Rightarrow> int \<Rightarrow> 'r option"
  tb_select :: "('r \<Rightarrow> bool) \<Rightarrow> 'd \<Rightarrow> 'r list"
  tb_update :: "('r \<Rightarrow> bool) \<Rightarrow> ('r \<Rightarrow> 'r) \<Rightarrow> 'd \<Rightarrow> nat \<times> 'd"
  tb_insert :: "(int \<Rightarrow> 'r) \<Rightarrow> 'd \<Rightarrow> ('r \<times> 'd) option"
  tb_delete :: "('r \<Rightarrow> bool) \<Rightarrow> 'd \<Rightarrow> nat \<times> 'd"

definition upd_view :: "('r \<Rightarrow> bool) \<Rightarrow> ('r \<Rightarrow> 'r) \<Rightarrow> (int \<Rightarrow> 'r option) \<Rightarrow> int \<Rightarrow> 'r option" where
  "upd_view p f m = (\<lambda>k. map_option (\<lambda>r. if p r then f r else r) (m k))"

definition del_view :: "('r \<Rightarrow> bool) \<Rightarrow> (int \<Rightarrow> 'r option) \<Rightarrow> int \<Rightarrow> 'r option" where
  "del_view p m = (\<lambda>k. case m k of None \<Rightarrow> None | Some r \<Rightarrow> if p r then None else Some r)"

locale table_laws =
  fixes T :: "('r, 'd, 'x) table_scheme"
    and pk :: "'r \<Rightarrow> int"
    and uniq :: "(int \<Rightarrow> 'r option) \<Rightarrow> bool"
    and ok :: "'d \<Rightarrow> bool"
  assumes pk_view: "ok d \<Longrightarrow> tb_view T d k = Some r \<Longrightarrow> pk r = k"
    and uniq_view: "ok d \<Longrightarrow> uniq (tb_view T d)"
    and select_set: "ok d \<Longrightarrow> set (tb_select T p d) = {r. \<exists>k. tb_view T d k = Some r \<and> p r}"
    and select_distinct: "ok d \<Longrightarrow> distinct (tb_select T p d)"
    and update_ok: "ok d \<Longrightarrow> (\<And>r. pk (f r) = pk r) \<Longrightarrow> uniq (upd_view p f (tb_view T d)) \<Longrightarrow>
      ok (snd (tb_update T p f d))"
    and update_view: "ok d \<Longrightarrow> (\<And>r. pk (f r) = pk r) \<Longrightarrow> uniq (upd_view p f (tb_view T d)) \<Longrightarrow>
      tb_view T (snd (tb_update T p f d)) = upd_view p f (tb_view T d)"
    and update_count: "ok d \<Longrightarrow> (\<And>r. pk (f r) = pk r) \<Longrightarrow> uniq (upd_view p f (tb_view T d)) \<Longrightarrow>
      0 < fst (tb_update T p f d) \<longleftrightarrow> (\<exists>k r. tb_view T d k = Some r \<and> p r)"
    and insert_some: "ok d \<Longrightarrow> (\<And>k. pk (mk k) = k) \<Longrightarrow> tb_insert T mk d = Some (r, d') \<Longrightarrow>
      ok d' \<and> tb_view T d (pk r) = None \<and> r = mk (pk r) \<and>
      tb_view T d' = (tb_view T d)(pk r \<mapsto> r)"
    and insert_none: "ok d \<Longrightarrow> (\<And>k. pk (mk k) = k) \<Longrightarrow> tb_insert T mk d = None \<Longrightarrow>
      \<exists>k. tb_view T d k = None \<and> \<not> uniq ((tb_view T d)(k \<mapsto> mk k))"
    and delete_ok: "ok d \<Longrightarrow> uniq (del_view p (tb_view T d)) \<Longrightarrow> ok (snd (tb_delete T p d))"
    and delete_view: "ok d \<Longrightarrow> uniq (del_view p (tb_view T d)) \<Longrightarrow>
      tb_view T (snd (tb_delete T p d)) = del_view p (tb_view T d)"
    and delete_count: "ok d \<Longrightarrow> uniq (del_view p (tb_view T d)) \<Longrightarrow>
      0 < fst (tb_delete T p d) \<longleftrightarrow> (\<exists>k r. tb_view T d k = Some r \<and> p r)"
begin

text \<open>The compare-and-set statement: an update of the one row with a given key, under a guard.\<close>

lemma keyed_upd:
  assumes "ok d" "\<And>r. pk (f r) = pk r"
  shows "upd_view (\<lambda>r. pk r = i \<and> g r) f (tb_view T d) =
    (case tb_view T d i of
       Some r \<Rightarrow> if g r then (tb_view T d)(i \<mapsto> f r) else tb_view T d
     | None \<Rightarrow> tb_view T d)"
proof
  fix k
  show "upd_view (\<lambda>r. pk r = i \<and> g r) f (tb_view T d) k =
    (case tb_view T d i of
       Some r \<Rightarrow> if g r then (tb_view T d)(i \<mapsto> f r) else tb_view T d
     | None \<Rightarrow> tb_view T d) k"
    using pk_view [OF assms(1), of k]
    by (cases "tb_view T d k"; cases "tb_view T d i") (auto simp: upd_view_def)
qed

lemma keyed_hit:
  assumes "ok d"
  shows "(\<exists>k r. tb_view T d k = Some r \<and> pk r = i \<and> g r) \<longleftrightarrow>
    (case tb_view T d i of Some r \<Rightarrow> g r | None \<Rightarrow> False)"
  using pk_view [OF assms] by (auto split: option.splits)

end

section \<open>In-memory stores with the documented behaviour\<close>

type_synonym mem = "string \<Rightarrow> entry option"

definition mem_redis :: "mem redis" where
  "mem_redis = \<lparr>
     rd_view = (\<lambda>s. s),
     rd_elapse = (\<lambda>n s k. Option.bind (s k) (aged n)),
     rd_set_nx = (\<lambda>k v t s. if s k = None then (True, s(k \<mapsto> (v, Some t))) else (False, s)),
     rd_set_ifeq = (\<lambda>k v t w s. if map_option fst (s k) = Some w
        then (True, s(k \<mapsto> (v, Some t))) else (False, s)),
     rd_delex_ifeq = (\<lambda>k w s. if map_option fst (s k) = Some w
        then (True, s(k := None)) else (False, s)),
     rd_get = (\<lambda>k s. (map_option fst (s k), s)),
     rd_exists = (\<lambda>k s. (s k \<noteq> None, s)),
     rd_expire = (\<lambda>k t s. (s k \<noteq> None, s(k := map_option (\<lambda>(v, _). (v, Some t)) (s k)))),
     rd_del = (\<lambda>k s. (s k \<noteq> None, s(k := None))),
     rd_incrby = (\<lambda>k i s. case counter_at (s k) of
        None \<Rightarrow> (0, s)
      | Some n \<Rightarrow> (n + i, s(k \<mapsto> (str_of_int (n + i),
           case s k of None \<Rightarrow> None | Some (_, t) \<Rightarrow> t))))\<rparr>"

interpretation mem: redis_laws mem_redis
  by unfold_locales (auto simp: mem_redis_def split: option.splits)

text \<open>
  A table in memory: the next key to give out and the rows, in insertion order. The
  constraint is a Boolean function of the list of rows.
\<close>

type_synonym 'r rows = "int \<times> (int \<times> 'r) list"

definition rows_view :: "'r rows \<Rightarrow> int \<Rightarrow> 'r option" where
  "rows_view d = map_of (snd d)"

definition rows_ok :: "('r \<Rightarrow> int) \<Rightarrow> ('r list \<Rightarrow> bool) \<Rightarrow> 'r rows \<Rightarrow> bool" where
  "rows_ok pk u d \<longleftrightarrow> distinct (map fst (snd d)) \<and> (\<forall>(k, r) \<in> set (snd d). pk r = k \<and> k < fst d)
     \<and> u (map snd (snd d))"

definition mem_table :: "('r list \<Rightarrow> bool) \<Rightarrow> ('r, 'r rows) table" where
  "mem_table u = \<lparr>
     tb_view = rows_view,
     tb_select = (\<lambda>p d. filter p (map snd (snd d))),
     tb_update = (\<lambda>p f d. (length (filter p (map snd (snd d))),
        (fst d, map (\<lambda>(k, r). (k, if p r then f r else r)) (snd d)))),
     tb_insert = (\<lambda>mk d. let r = mk (fst d) in
        if u (map snd (snd d) @ [r]) then Some (r, (fst d + 1, snd d @ [(fst d, r)])) else None),
     tb_delete = (\<lambda>p d. (length (filter p (map snd (snd d))),
        (fst d, filter (\<lambda>(k, r). \<not> p r) (snd d))))\<rparr>"

lemma rows_view_mem:
  "rows_ok pk u d \<Longrightarrow> rows_view d k = Some r \<longleftrightarrow> (k, r) \<in> set (snd d)"
  by (simp add: rows_ok_def rows_view_def)

lemma map_of_map_snd: "map_of (map (\<lambda>(k, r). (k, h r)) xs) k = map_option h (map_of xs k)"
  by (induction xs) auto

lemma map_of_filter_snd:
  "distinct (map fst xs) \<Longrightarrow> map_of (filter (\<lambda>(k, r). \<not> p r) xs) k = del_view p (map_of xs) k"
proof (induction xs)
  case Nil
  then show ?case by (simp add: del_view_def)
next
  case (Cons x xs)
  obtain a r where x: "x = (a, r)" by (cases x)
  from Cons.prems x have "map_of xs a = None" by (auto simp: map_of_eq_None_iff)
  then show ?case using Cons x by (auto simp: del_view_def)
qed

lemma map_of_snoc:
  "a \<notin> fst ` set xs \<Longrightarrow> [a \<mapsto> r] ++ map_of xs = (map_of xs)(a \<mapsto> r)"
proof
  fix x
  assume "a \<notin> fst ` set xs"
  then have "map_of xs a = None" by (simp add: map_of_eq_None_iff)
  then show "([a \<mapsto> r] ++ map_of xs) x = ((map_of xs)(a \<mapsto> r)) x"
    by (cases "map_of xs x") (auto simp: map_add_def)
qed

lemma mem_table_laws:
  assumes u: "\<And>xs. distinct (map fst xs) \<Longrightarrow> u (map snd xs) \<longleftrightarrow> uniq (map_of xs)"
  shows "table_laws (mem_table u) pk uniq (rows_ok pk u)"
proof
  fix d :: "'a rows" and k r
  assume "rows_ok pk u d" "tb_view (mem_table u) d k = Some r"
  then show "pk r = k"
    using rows_view_mem [of pk u d k r] by (auto simp: mem_table_def rows_ok_def)
next
  fix d :: "'a rows"
  assume "rows_ok pk u d"
  then show "uniq (tb_view (mem_table u) d)"
    using u by (auto simp: mem_table_def rows_view_def rows_ok_def)
next
  fix d :: "'a rows" and p
  assume ok: "rows_ok pk u d"
  show "set (tb_select (mem_table u) p d) = {r. \<exists>k. tb_view (mem_table u) d k = Some r \<and> p r}"
    using rows_view_mem [OF ok] by (force simp: mem_table_def)
  have "inj_on snd (set (snd d))"
  proof (rule inj_onI)
    fix x y
    assume "x \<in> set (snd d)" "y \<in> set (snd d)" "snd x = snd y"
    moreover from this ok have "fst x = pk (snd x)" "fst y = pk (snd y)"
      by (auto simp: rows_ok_def)
    ultimately show "x = y" by (simp add: prod_eq_iff)
  qed
  then show "distinct (tb_select (mem_table u) p d)"
    using ok by (auto simp: mem_table_def rows_ok_def distinct_map)
next
  fix d :: "'a rows" and p and f :: "'a \<Rightarrow> 'a"
  assume ok: "rows_ok pk u d" and pk: "\<And>r. pk (f r) = pk r"
    and un: "uniq (upd_view p f (tb_view (mem_table u) d))"
  let ?d = "snd (tb_update (mem_table u) p f d)"
  have keys: "map fst (snd ?d) = map fst (snd d)"
    by (auto simp: mem_table_def comp_def split_beta)
  have dist: "distinct (map fst (snd ?d))" using keys ok by (simp only: rows_ok_def)
  show v: "tb_view (mem_table u) ?d = upd_view p f (tb_view (mem_table u) d)"
    by (auto simp: mem_table_def rows_view_def upd_view_def map_of_map_snd)
  have "u (map snd (snd ?d))"
  proof -
    from u [OF dist] v un show ?thesis by (simp add: mem_table_def rows_view_def)
  qed
  moreover have "\<forall>(k, r) \<in> set (snd ?d). pk r = k \<and> k < fst ?d"
    using ok pk by (auto simp: rows_ok_def mem_table_def)
  ultimately show "rows_ok pk u ?d"
    using dist by (simp add: rows_ok_def)
  show "0 < fst (tb_update (mem_table u) p f d) \<longleftrightarrow>
    (\<exists>k r. tb_view (mem_table u) d k = Some r \<and> p r)"
    using rows_view_mem [OF ok] by (force simp: mem_table_def filter_empty_conv)
next
  fix d :: "'a rows" and mk r d'
  assume ok: "rows_ok pk u d" and pk: "\<And>k. pk (mk k) = k"
    and ins: "tb_insert (mem_table u) mk d = Some (r, d')"
  from ins have r: "r = mk (fst d)" and d': "d' = (fst d + 1, snd d @ [(fst d, r)])"
    and un: "u (map snd (snd d) @ [r])"
    by (auto simp: mem_table_def Let_def split: if_splits)
  have fresh: "fst d \<notin> fst ` set (snd d)" using ok by (force simp: rows_ok_def)
  then show "rows_ok pk u d' \<and> tb_view (mem_table u) d (pk r) = None \<and> r = mk (pk r) \<and>
      tb_view (mem_table u) d' = (tb_view (mem_table u) d)(pk r \<mapsto> r)"
    using ok pk r d' un
    by (auto simp: rows_ok_def mem_table_def rows_view_def map_of_snoc map_of_eq_None_iff)
next
  fix d :: "'a rows" and mk
  assume ok: "rows_ok pk u d" and pk: "\<And>k. pk (mk k) = k"
    and ins: "tb_insert (mem_table u) mk d = None"
  have fresh: "fst d \<notin> fst ` set (snd d)" using ok by (force simp: rows_ok_def)
  have "\<not> u (map snd (snd d @ [(fst d, mk (fst d))]))"
    using ins by (auto simp: mem_table_def Let_def split: if_splits)
  then have "\<not> uniq ((rows_view d)(fst d \<mapsto> mk (fst d)))"
    using u [of "snd d @ [(fst d, mk (fst d))]"] ok fresh
    by (simp add: rows_ok_def map_of_snoc rows_view_def)
  then show "\<exists>k. tb_view (mem_table u) d k = None \<and>
      \<not> uniq ((tb_view (mem_table u) d)(k \<mapsto> mk k))"
    using fresh by (auto simp: mem_table_def rows_view_def map_of_eq_None_iff)
next
  fix d :: "'a rows" and p
  assume ok: "rows_ok pk u d" and un: "uniq (del_view p (tb_view (mem_table u) d))"
  let ?d = "snd (tb_delete (mem_table u) p d)"
  show v: "tb_view (mem_table u) ?d = del_view p (tb_view (mem_table u) d)"
    using ok by (auto simp: mem_table_def rows_view_def rows_ok_def map_of_filter_snd fun_eq_iff)
  have dist: "distinct (map fst (snd ?d))"
    using ok by (auto simp: mem_table_def rows_ok_def distinct_map inj_on_def)
  have "u (map snd (snd ?d))"
    using u [OF dist] v un by (simp add: mem_table_def rows_view_def)
  then show "rows_ok pk u ?d"
    using ok dist by (auto simp: rows_ok_def mem_table_def)
  show "0 < fst (tb_delete (mem_table u) p d) \<longleftrightarrow>
    (\<exists>k r. tb_view (mem_table u) d k = Some r \<and> p r)"
    using rows_view_mem [OF ok] by (force simp: mem_table_def filter_empty_conv)
qed

text \<open>A table with no constraint beyond its primary key.\<close>

interpretation plain_rows: table_laws "mem_table (\<lambda>_. True) :: ('r, 'r rows) table" pk
  "\<lambda>_. True" "rows_ok pk (\<lambda>_. True)" for pk
  by (rule mem_table_laws) simp

end
