(* ===== verification/Turn_Model.thy ===== *)
theory Turn_Model
  imports Interfaces
begin

text \<open>
  The data model of a turn: the enumerations of \<open>app/models/enums.py\<close>, the sidecar names of
  \<open>app/services/codex/sidecar.py\<close>, the row of \<open>app/models/turn.py\<close> with its partial
  unique index, and the translation of the sidecar's own status words
  (\<open>app/services/turns/status_map.py\<close>).
\<close>

section \<open>Enumerations\<close>

datatype turn_status = STARTING | RUNNING | COMPLETED | FAILED | CANCELLED

definition terminal_statuses :: "turn_status list" where
  "terminal_statuses = [COMPLETED, FAILED, CANCELLED]"

abbreviation terminal :: "turn_status \<Rightarrow> bool" where
  "terminal s \<equiv> s \<in> set terminal_statuses"

definition active :: "turn_status \<Rightarrow> bool" where
  "active s \<longleftrightarrow> s \<in> {STARTING, RUNNING}"

lemma active_simps [simp]:
  "active STARTING" "active RUNNING" "\<not> active COMPLETED" "\<not> active FAILED" "\<not> active CANCELLED"
  by (simp_all add: active_def)

lemma terminal_iff_not_active: "terminal s \<longleftrightarrow> \<not> active s"
  by (cases s) (simp_all add: terminal_statuses_def)

fun status_value :: "turn_status \<Rightarrow> string" where
  "status_value STARTING = ''STARTING''"
| "status_value RUNNING = ''RUNNING''"
| "status_value COMPLETED = ''COMPLETED''"
| "status_value FAILED = ''FAILED''"
| "status_value CANCELLED = ''CANCELLED''"

datatype sidecar_name = AdminSidecar | GuestSidecar

fun sidecar_value :: "sidecar_name \<Rightarrow> string" where
  "sidecar_value AdminSidecar = ''admin''"
| "sidecar_value GuestSidecar = ''guest''"

text \<open>The constructor \<open>cls(value)\<close> of the enumeration raises ValueError on an unknown value.\<close>

definition sidecar_of_value :: "string \<Rightarrow> sidecar_name option" where
  "sidecar_of_value v =
     (if v = ''admin'' then Some AdminSidecar
      else if v = ''guest'' then Some GuestSidecar else None)"

definition normalize :: "string option \<Rightarrow> sidecar_name" where
  "normalize v =
     (case v of
        None \<Rightarrow> AdminSidecar
      | Some w \<Rightarrow> (case sidecar_of_value w of None \<Rightarrow> AdminSidecar | Some n \<Rightarrow> n))"

lemma normalize_value [simp]: "normalize (Some (sidecar_value n)) = n"
  by (cases n) (simp_all add: normalize_def sidecar_of_value_def)

section \<open>The sidecar's status words\<close>

datatype codex_turn_status = CtsInProgress | CtsCompleted | CtsInterrupted | CtsFailed

fun codex_status_value :: "codex_turn_status \<Rightarrow> string" where
  "codex_status_value CtsInProgress = ''inProgress''"
| "codex_status_value CtsCompleted = ''completed''"
| "codex_status_value CtsInterrupted = ''interrupted''"
| "codex_status_value CtsFailed = ''failed''"

fun turn_status_map :: "codex_turn_status \<Rightarrow> turn_status" where
  "turn_status_map CtsInProgress = RUNNING"
| "turn_status_map CtsCompleted = COMPLETED"
| "turn_status_map CtsInterrupted = CANCELLED"
| "turn_status_map CtsFailed = FAILED"

definition codex_statuses :: "codex_turn_status list" where
  "codex_statuses = [CtsInProgress, CtsCompleted, CtsInterrupted, CtsFailed]"

definition map_codex_turn_status :: "string option \<Rightarrow> turn_status option" where
  "map_codex_turn_status raw =
     (case raw of
        None \<Rightarrow> None
      | Some w \<Rightarrow> map_option turn_status_map (find (\<lambda>c. codex_status_value c = w) codex_statuses))"

datatype codex_thread_status = CthActive | CthIdle | CthNotLoaded

fun codex_thread_value :: "codex_thread_status \<Rightarrow> string" where
  "codex_thread_value CthActive = ''active''"
| "codex_thread_value CthIdle = ''idle''"
| "codex_thread_value CthNotLoaded = ''notLoaded''"

definition map_codex_thread_status :: "string option \<Rightarrow> codex_thread_status option" where
  "map_codex_thread_status raw =
     (case raw of
        None \<Rightarrow> None
      | Some w \<Rightarrow> find (\<lambda>c. codex_thread_value c = w) [CthActive, CthIdle, CthNotLoaded])"

lemma map_codex_turn_status_value [simp]:
  "map_codex_turn_status (Some (codex_status_value c)) = Some (turn_status_map c)"
  by (cases c) (simp_all add: map_codex_turn_status_def codex_statuses_def)

lemma map_codex_turn_status_Some:
  "map_codex_turn_status (Some w) = Some s \<longleftrightarrow> (\<exists>c. w = codex_status_value c \<and> s = turn_status_map c)"
proof
  assume "map_codex_turn_status (Some w) = Some s"
  then obtain c where "find (\<lambda>c. codex_status_value c = w) codex_statuses = Some c"
    and "s = turn_status_map c"
    by (auto simp: map_codex_turn_status_def)
  then show "\<exists>c. w = codex_status_value c \<and> s = turn_status_map c"
    by (auto simp: find_Some_iff)
qed auto

lemma map_codex_thread_status_value [simp]:
  "map_codex_thread_status (Some (codex_thread_value c)) = Some c"
  by (cases c) (simp_all add: map_codex_thread_status_def)

section \<open>Machine-readable error codes\<close>

datatype codex_error_code =
    EMPTY_TEXT | EMPTY_RESPONSE | CODEX_ERROR | TURN_TIMEOUT | TURN_BUSY
  | STALE_ACTIVE_TURN | STREAM_DROPPED | RATE_LIMITED

fun error_code_value :: "codex_error_code \<Rightarrow> string" where
  "error_code_value EMPTY_TEXT = ''empty_text''"
| "error_code_value EMPTY_RESPONSE = ''empty_response''"
| "error_code_value CODEX_ERROR = ''codex_error''"
| "error_code_value TURN_TIMEOUT = ''turn_timeout''"
| "error_code_value TURN_BUSY = ''turn_busy''"
| "error_code_value STALE_ACTIVE_TURN = ''stale_active_turn''"
| "error_code_value STREAM_DROPPED = ''stream_dropped''"
| "error_code_value RATE_LIMITED = ''rate_limited''"

lemma error_code_value_inj: "error_code_value a = error_code_value b \<Longrightarrow> a = b"
  by (cases a; cases b) simp_all

section \<open>The turns table\<close>

text \<open>
  One row of \<open>turns\<close>. Time stamps are microseconds. The columns \<open>created_at\<close> and
  \<open>updated_at\<close> are filled by the server and read by no operation modelled here.
\<close>

record turn_row =
  t_id :: int
  t_chat :: int
  t_user :: int
  t_user_msg :: int
  t_assistant_msg :: "int option"
  t_status :: turn_status
  t_thread :: "string option"
  t_codex_turn :: "string option"
  t_sidecar :: "sidecar_name option"
  t_stream_key :: string
  t_error_code :: "string option"
  t_error_detail :: "string option"
  t_last_event :: "string option"
  t_heartbeat :: int
  t_completed :: "int option"

abbreviation is_active :: "turn_row \<Rightarrow> bool" where
  "is_active r \<equiv> active (t_status r)"

text \<open>
  The index \<open>turns_active_per_chat\<close>: unique on \<open>chat_id\<close> among the rows whose status is
  STARTING or RUNNING; over a table and, for a store that keeps a list, over its rows.
\<close>

definition active_unique :: "(int \<Rightarrow> turn_row option) \<Rightarrow> bool" where
  "active_unique m \<longleftrightarrow>
     (\<forall>i j r q. m i = Some r \<and> m j = Some q \<and> is_active r \<and> is_active q \<and> t_chat r = t_chat q
        \<longrightarrow> i = j)"

definition active_unique_rows :: "turn_row list \<Rightarrow> bool" where
  "active_unique_rows rs \<longleftrightarrow> distinct (map t_chat (filter is_active rs))"

lemma active_uniqueD:
  "active_unique m \<Longrightarrow> m i = Some r \<Longrightarrow> m j = Some q \<Longrightarrow> is_active r \<Longrightarrow> is_active q \<Longrightarrow>
     t_chat r = t_chat q \<Longrightarrow> i = j"
  unfolding active_unique_def by blast

lemma active_unique_insert:
  assumes a: "m a = None"
  shows "active_unique (m(a \<mapsto> r)) \<longleftrightarrow> active_unique m \<and>
    (is_active r \<longrightarrow> (\<forall>j q. m j = Some q \<longrightarrow> is_active q \<longrightarrow> t_chat q \<noteq> t_chat r))"
    (is "?L \<longleftrightarrow> ?U \<and> ?F")
proof (intro iffI conjI)
  assume L: ?L
  show ?U unfolding active_unique_def
  proof (intro allI impI, elim conjE)
    fix i j q q'
    assume "m i = Some q" "m j = Some q'" "is_active q" "is_active q'" "t_chat q = t_chat q'"
    moreover from this a have "i \<noteq> a" "j \<noteq> a" by auto
    ultimately show "i = j" using active_uniqueD [OF L, of i q j q'] by simp
  qed
  show ?F
  proof (intro impI allI notI)
    fix j q
    assume *: "is_active r" "m j = Some q" "is_active q" "t_chat q = t_chat r"
    with a have "j \<noteq> a" by auto
    with * active_uniqueD [OF L, of j q a r] show False by simp
  qed
next
  assume "?U \<and> ?F"
  then have U: ?U and F: ?F by blast+
  show ?L unfolding active_unique_def
  proof (intro allI impI, elim conjE)
    fix i j q q'
    assume "(m(a \<mapsto> r)) i = Some q" "(m(a \<mapsto> r)) j = Some q'" "is_active q" "is_active q'"
      "t_chat q = t_chat q'"
    then show "i = j"
      using F active_uniqueD [OF U, of i q j q'] by (auto split: if_splits)
  qed
qed

lemma active_unique_rows_map_of:
  "distinct (map fst xs) \<Longrightarrow> active_unique_rows (map snd xs) \<longleftrightarrow> active_unique (map_of xs)"
proof (induction xs)
  case Nil
  then show ?case by (simp add: active_unique_rows_def active_unique_def)
next
  case (Cons x xs)
  obtain a r where x: "x = (a, r)" by (cases x)
  from Cons.prems x have a: "map_of xs a = None" and d: "distinct (map fst xs)"
    by (auto simp: map_of_eq_None_iff)
  have m: "map_of (x # xs) = (map_of xs)(a \<mapsto> r)" by (simp add: x fun_eq_iff)
  have "t_chat r \<notin> t_chat ` {q \<in> snd ` set xs. is_active q} \<longleftrightarrow>
    (\<forall>j q. map_of xs j = Some q \<longrightarrow> is_active q \<longrightarrow> t_chat q \<noteq> t_chat r)"
    using d by (fastforce simp: image_iff)
  moreover have "active_unique_rows (map snd (x # xs)) \<longleftrightarrow>
    (is_active r \<longrightarrow> t_chat r \<notin> t_chat ` {q \<in> snd ` set xs. is_active q})
      \<and> active_unique_rows (map snd xs)"
    using x by (auto simp: active_unique_rows_def)
  ultimately show ?case
    unfolding m using Cons.IH [OF d] active_unique_insert [where m = "map_of xs" and r = r] a
    by blast
qed

lemma active_unique_upd:
  assumes u: "active_unique m"
    and "\<And>r. t_chat (f r) = t_chat r" and "\<And>r. p r \<Longrightarrow> is_active (f r) \<Longrightarrow> is_active r"
  shows "active_unique (upd_view p f m)"
  unfolding active_unique_def upd_view_def
proof (intro allI impI, elim conjE)
  fix i j r q
  assume r: "map_option (\<lambda>r. if p r then f r else r) (m i) = Some r"
    and q: "map_option (\<lambda>r. if p r then f r else r) (m j) = Some q"
    and *: "is_active r" "is_active q" "t_chat r = t_chat q"
  from r obtain r' where r': "m i = Some r'" "r = (if p r' then f r' else r')"
    by (cases "m i") auto
  from q obtain q' where q': "m j = Some q'" "q = (if p q' then f q' else q')"
    by (cases "m j") auto
  from r' * assms(2,3) have "is_active r'" "t_chat r' = t_chat r" by (auto split: if_splits)
  moreover from q' * assms(2,3) have "is_active q'" "t_chat q' = t_chat q"
    by (auto split: if_splits)
  ultimately show "i = j" using active_uniqueD [OF u r'(1) q'(1)] * by simp
qed

definition turn_mem :: "(turn_row, turn_row rows) table" where
  "turn_mem = mem_table active_unique_rows"

interpretation turn_mem: table_laws turn_mem t_id active_unique "rows_ok t_id active_unique_rows"
  unfolding turn_mem_def by (rule mem_table_laws) (simp add: active_unique_rows_map_of)

end
