(* ===== verification/Turn_Service.thy ===== *)
theory Turn_Service
  imports Turn_Model
begin

text \<open>
  \<open>app/services/turns/service.py\<close>: the atomic lifecycle transitions of a turn. Every
  operation takes the operations \<open>T\<close> of the turns table and a session: the transaction's
  view of the table, the committed table, and the publishes registered to fire on commit
  (\<open>_publish_after_commit\<close>). The lemmas say what each operation does to the view of the
  table; the runs at the end interleave the operations of any number of workers.
\<close>

section \<open>Sessions and after-commit publishes\<close>

datatype activity = TurnStarted int int int | TurnEnded int int int

record 'd sess =
  s_db :: 'd
  s_committed :: 'd
  s_hooks :: "activity list"

definition open_session :: "'d \<Rightarrow> 'd sess" where
  "open_session d = \<lparr>s_db = d, s_committed = d, s_hooks = []\<rparr>"

lemma open_session_simps [simp]:
  "s_db (open_session d) = d" "s_committed (open_session d) = d" "s_hooks (open_session d) = []"
  by (simp_all add: open_session_def)

definition publish_after_commit :: "activity \<Rightarrow> 'd sess \<Rightarrow> 'd sess" where
  "publish_after_commit a s = s\<lparr>s_hooks := s_hooks s @ [a]\<rparr>"

definition commit :: "'d sess \<Rightarrow> activity list \<times> 'd sess" where
  "commit s = (s_hooks s, s\<lparr>s_committed := s_db s, s_hooks := []\<rparr>)"

definition rollback :: "'d sess \<Rightarrow> 'd sess" where
  "rollback s = s\<lparr>s_db := s_committed s\<rparr>"

definition exec_update :: "('r, 'd) table \<Rightarrow> ('r \<Rightarrow> bool) \<Rightarrow> ('r \<Rightarrow> 'r) \<Rightarrow> 'd sess \<Rightarrow> nat \<times> 'd sess" where
  "exec_update T p f s = (let (n, d) = tb_update T p f (s_db s) in (n, s\<lparr>s_db := d\<rparr>))"

section \<open>The operations\<close>

record turn_create =
  tc_chat :: int
  tc_user :: int
  tc_user_msg :: int
  tc_sidecar :: sidecar_name

datatype svc_error = ValueError string

definition stream_key :: "int \<Rightarrow> string" where
  "stream_key turn_id = ''turn:'' @ str_of_int turn_id @ '':events''"

definition starting_row :: "turn_create \<Rightarrow> int \<Rightarrow> int \<Rightarrow> turn_row" where
  "starting_row p now k = \<lparr>
     t_id = k, t_chat = tc_chat p, t_user = tc_user p, t_user_msg = tc_user_msg p,
     t_assistant_msg = None, t_status = STARTING, t_thread = None, t_codex_turn = None,
     t_sidecar = Some (tc_sidecar p), t_stream_key = '''', t_error_code = None,
     t_error_detail = None, t_last_event = None, t_heartbeat = now, t_completed = None\<rparr>"

text \<open>\<open>None\<close> is the IntegrityError of the partial unique index.\<close>

definition create_starting ::
  "(turn_row, 'd) table \<Rightarrow> turn_create \<Rightarrow> int \<Rightarrow> 'd sess \<Rightarrow> (turn_row \<times> 'd sess) option" where
  "create_starting T p now s =
     (case tb_insert T (starting_row p now) (s_db s) of
        None \<Rightarrow> None
      | Some (turn, d) \<Rightarrow>
          let f = (\<lambda>r. r\<lparr>t_stream_key := stream_key (t_id turn)\<rparr>);
              (_, s') = exec_update T (\<lambda>r. t_id r = t_id turn) f (s\<lparr>s_db := d\<rparr>)
          in Some (f turn, s'))"

definition try_create_starting ::
  "(turn_row, 'd) table \<Rightarrow> turn_create \<Rightarrow> int \<Rightarrow> 'd sess \<Rightarrow> turn_row option \<times> 'd sess" where
  "try_create_starting T p now s =
     (case create_starting T p now s of
        None \<Rightarrow> (None, rollback s)
      | Some (row, s') \<Rightarrow>
          (Some row, publish_after_commit (TurnStarted (t_user row) (t_chat row) (t_id row)) s'))"

definition mark_running ::
  "(turn_row, 'd) table \<Rightarrow> int \<Rightarrow> string \<Rightarrow> string \<Rightarrow> int \<Rightarrow> 'd sess \<Rightarrow> bool \<times> 'd sess" where
  "mark_running T turn_id thread turn now s =
     (let (n, s') = exec_update T (\<lambda>r. t_id r = turn_id \<and> t_status r = STARTING)
        (\<lambda>r. r\<lparr>t_status := RUNNING, t_thread := Some thread, t_codex_turn := Some turn,
               t_heartbeat := now\<rparr>) s
      in (0 < n, s'))"

definition attach_assistant_message ::
  "(turn_row, 'd) table \<Rightarrow> int \<Rightarrow> int \<Rightarrow> 'd sess \<Rightarrow> 'd sess" where
  "attach_assistant_message T turn_id message_id s =
     snd (exec_update T (\<lambda>r. t_id r = turn_id) (\<lambda>r. r\<lparr>t_assistant_msg := Some message_id\<rparr>) s)"

definition update_last_event ::
  "(turn_row, 'd) table \<Rightarrow> int \<Rightarrow> string \<Rightarrow> 'd sess \<Rightarrow> 'd sess" where
  "update_last_event T turn_id event_id s =
     snd (exec_update T (\<lambda>r. t_id r = turn_id) (\<lambda>r. r\<lparr>t_last_event := Some event_id\<rparr>) s)"

definition heartbeat :: "(turn_row, 'd) table \<Rightarrow> int \<Rightarrow> int \<Rightarrow> 'd sess \<Rightarrow> bool \<times> 'd sess" where
  "heartbeat T turn_id now s =
     (let (n, s') = exec_update T (\<lambda>r. t_id r = turn_id \<and> active (t_status r))
        (\<lambda>r. r\<lparr>t_heartbeat := now\<rparr>) s
      in (0 < n, s'))"

text \<open>
  \<open>finalize_once\<close> refuses a status that is not terminal; its update returns the chat and the
  user of the row it changed (\<open>RETURNING\<close>), here read from the row before the update, whose
  chat and user the update keeps.
\<close>

definition finalize_once ::
  "(turn_row, 'd) table \<Rightarrow> int \<Rightarrow> turn_status \<Rightarrow> string option \<Rightarrow> string option \<Rightarrow> int \<Rightarrow>
     'd sess \<Rightarrow> svc_error + (bool \<times> 'd sess)" where
  "finalize_once T turn_id status code detail now s =
     (if \<not> terminal status then
        Inl (ValueError (''finalize_once expects terminal status, got '' @ status_value status))
      else
        let guard = (\<lambda>r. t_id r = turn_id \<and> active (t_status r));
            returning = map (\<lambda>r. (t_chat r, t_user r)) (tb_select T guard (s_db s));
            (_, s') = exec_update T guard
              (\<lambda>r. r\<lparr>t_status := status, t_error_code := code, t_error_detail := detail,
                     t_completed := Some now\<rparr>) s
        in case returning of
             [] \<Rightarrow> Inr (False, s')
           | (chat, user) # _ \<Rightarrow>
               Inr (True, publish_after_commit (TurnEnded user chat turn_id) s'))"

definition get_active_for_chat :: "(turn_row, 'd) table \<Rightarrow> int \<Rightarrow> 'd \<Rightarrow> turn_row option" where
  "get_active_for_chat T chat d =
     (case tb_select T (\<lambda>r. t_chat r = chat \<and> active (t_status r)) d of
        [] \<Rightarrow> None | r # _ \<Rightarrow> Some r)"

definition active_ids_by_chat_for_user ::
  "(turn_row, 'd) table \<Rightarrow> int \<Rightarrow> 'd \<Rightarrow> (int \<Rightarrow> int option)" where
  "active_ids_by_chat_for_user T user d =
     fold (\<lambda>r m. m(t_chat r \<mapsto> t_id r))
       (tb_select T (\<lambda>r. t_user r = user \<and> active (t_status r)) d) Map.empty"

definition get_by_id :: "(turn_row, 'd) table \<Rightarrow> int \<Rightarrow> 'd \<Rightarrow> turn_row option" where
  "get_by_id T turn_id d = tb_view T d turn_id"

definition find_stale_active :: "(turn_row, 'd) table \<Rightarrow> int \<Rightarrow> int \<Rightarrow> 'd \<Rightarrow> turn_row list" where
  "find_stale_active T threshold now d =
     tb_select T (\<lambda>r. active (t_status r) \<and> t_heartbeat r < now - threshold) d"

section \<open>What the operations do to the table\<close>

locale turn_db = table_laws T t_id active_unique ok
  for T :: "(turn_row, 'd) table" and ok :: "'d \<Rightarrow> bool"
begin

text \<open>
  One lemma carries all guarded updates: a statement keyed by the primary key that keeps the
  chat and makes no row active replaces exactly that row, if the guard holds.
\<close>

lemma cas:
  assumes "ok (s_db s)" "\<And>r. t_id (f r) = t_id r" "\<And>r. t_chat (f r) = t_chat r"
    and "\<And>r. g r \<Longrightarrow> is_active (f r) \<Longrightarrow> is_active r"
  shows "ok (s_db (snd (exec_update T (\<lambda>r. t_id r = i \<and> g r) f s)))"
    and "tb_view T (s_db (snd (exec_update T (\<lambda>r. t_id r = i \<and> g r) f s))) =
      (case tb_view T (s_db s) i of
         Some r \<Rightarrow> if g r then (tb_view T (s_db s))(i \<mapsto> f r) else tb_view T (s_db s)
       | None \<Rightarrow> tb_view T (s_db s))"
    and "0 < fst (exec_update T (\<lambda>r. t_id r = i \<and> g r) f s) \<longleftrightarrow>
      (case tb_view T (s_db s) i of Some r \<Rightarrow> g r | None \<Rightarrow> False)"
    and "s_hooks (snd (exec_update T (\<lambda>r. t_id r = i \<and> g r) f s)) = s_hooks s"
proof -
  have u: "active_unique (upd_view (\<lambda>r. t_id r = i \<and> g r) f (tb_view T (s_db s)))"
    by (rule active_unique_upd [OF uniq_view [OF assms(1)]]) (use assms(3,4) in auto)
  note facts = update_ok [OF assms(1,2) u] update_view [OF assms(1,2) u]
    update_count [OF assms(1,2) u]
  show "ok (s_db (snd (exec_update T (\<lambda>r. t_id r = i \<and> g r) f s)))"
    using facts(1) by (simp add: exec_update_def split_beta)
  show "tb_view T (s_db (snd (exec_update T (\<lambda>r. t_id r = i \<and> g r) f s))) =
      (case tb_view T (s_db s) i of
         Some r \<Rightarrow> if g r then (tb_view T (s_db s))(i \<mapsto> f r) else tb_view T (s_db s)
       | None \<Rightarrow> tb_view T (s_db s))"
    using facts(2) keyed_upd [OF assms(1,2), of i g] by (simp add: exec_update_def split_beta)
  show "0 < fst (exec_update T (\<lambda>r. t_id r = i \<and> g r) f s) \<longleftrightarrow>
      (case tb_view T (s_db s) i of Some r \<Rightarrow> g r | None \<Rightarrow> False)"
    using facts(3) keyed_hit [OF assms(1), of i g] by (simp add: exec_update_def split_beta)
  show "s_hooks (snd (exec_update T (\<lambda>r. t_id r = i \<and> g r) f s)) = s_hooks s"
    by (simp add: exec_update_def split_beta)
qed

lemmas cas_unguarded = cas [where g = "\<lambda>_. True", simplified]

end

text \<open>The statement of each operation, read off the lemma above.\<close>

context turn_db
begin

lemma mark_running_spec:
  fixes i now :: int and thr trn :: string
  assumes "ok (s_db s)"
  defines "res \<equiv> mark_running T i thr trn now s"
  shows "ok (s_db (snd res))"
    and "fst res \<longleftrightarrow> (\<exists>r. tb_view T (s_db s) i = Some r \<and> t_status r = STARTING)"
    and "tb_view T (s_db (snd res)) =
      (case tb_view T (s_db s) i of
         Some r \<Rightarrow> if t_status r = STARTING
           then (tb_view T (s_db s))(i \<mapsto> r\<lparr>t_status := RUNNING, t_thread := Some thr,
             t_codex_turn := Some trn, t_heartbeat := now\<rparr>) else tb_view T (s_db s)
       | None \<Rightarrow> tb_view T (s_db s))"
    and "s_hooks (snd res) = s_hooks s"
proof -
  note c = cas [where s = s and i = i and g = "\<lambda>r. t_status r = STARTING" and
    f = "\<lambda>r. r\<lparr>t_status := RUNNING, t_thread := Some thr, t_codex_turn := Some trn,
      t_heartbeat := now\<rparr>", OF assms(1)]
  show "ok (s_db (snd res))" using c(1) by (simp add: res_def mark_running_def split_beta)
  show "fst res \<longleftrightarrow> (\<exists>r. tb_view T (s_db s) i = Some r \<and> t_status r = STARTING)"
    using c(3) by (auto simp: res_def mark_running_def split_beta split: option.splits)
  show "tb_view T (s_db (snd res)) =
      (case tb_view T (s_db s) i of
         Some r \<Rightarrow> if t_status r = STARTING
           then (tb_view T (s_db s))(i \<mapsto> r\<lparr>t_status := RUNNING, t_thread := Some thr,
             t_codex_turn := Some trn, t_heartbeat := now\<rparr>) else tb_view T (s_db s)
       | None \<Rightarrow> tb_view T (s_db s))"
    using c(2) by (simp add: res_def mark_running_def split_beta)
  show "s_hooks (snd res) = s_hooks s"
    using c(4) by (simp add: res_def mark_running_def split_beta)
qed

lemma heartbeat_spec:
  fixes i now :: int
  assumes "ok (s_db s)"
  defines "res \<equiv> heartbeat T i now s"
  shows "ok (s_db (snd res))"
    and "fst res \<longleftrightarrow> (\<exists>r. tb_view T (s_db s) i = Some r \<and> is_active r)"
    and "tb_view T (s_db (snd res)) =
      (case tb_view T (s_db s) i of
         Some r \<Rightarrow> if is_active r then (tb_view T (s_db s))(i \<mapsto> r\<lparr>t_heartbeat := now\<rparr>)
           else tb_view T (s_db s)
       | None \<Rightarrow> tb_view T (s_db s))"
    and "s_hooks (snd res) = s_hooks s"
proof -
  note c = cas [where s = s and i = i and g = is_active and f = "\<lambda>r. r\<lparr>t_heartbeat := now\<rparr>",
    OF assms(1)]
  show "ok (s_db (snd res))" using c(1) by (simp add: res_def heartbeat_def split_beta)
  show "fst res \<longleftrightarrow> (\<exists>r. tb_view T (s_db s) i = Some r \<and> is_active r)"
    using c(3) by (auto simp: res_def heartbeat_def split_beta split: option.splits)
  show "tb_view T (s_db (snd res)) =
      (case tb_view T (s_db s) i of
         Some r \<Rightarrow> if is_active r then (tb_view T (s_db s))(i \<mapsto> r\<lparr>t_heartbeat := now\<rparr>)
           else tb_view T (s_db s)
       | None \<Rightarrow> tb_view T (s_db s))"
    using c(2) by (simp add: res_def heartbeat_def split_beta)
  show "s_hooks (snd res) = s_hooks s"
    using c(4) by (simp add: res_def heartbeat_def split_beta)
qed

lemma attach_spec:
  fixes i m :: int
  assumes "ok (s_db s)"
  defines "res \<equiv> attach_assistant_message T i m s"
  shows "ok (s_db res)"
    and "tb_view T (s_db res) =
      (case tb_view T (s_db s) i of
         Some r \<Rightarrow> (tb_view T (s_db s))(i \<mapsto> r\<lparr>t_assistant_msg := Some m\<rparr>)
       | None \<Rightarrow> tb_view T (s_db s))"
    and "s_hooks res = s_hooks s"
  using cas_unguarded(1,2,4) [where s = s and i = i and f = "\<lambda>r. r\<lparr>t_assistant_msg := Some m\<rparr>"]
    assms(1)
  by (simp_all add: res_def attach_assistant_message_def split: option.splits)

lemma last_event_spec:
  fixes i :: int and e :: string
  assumes "ok (s_db s)"
  defines "res \<equiv> update_last_event T i e s"
  shows "ok (s_db res)"
    and "tb_view T (s_db res) =
      (case tb_view T (s_db s) i of
         Some r \<Rightarrow> (tb_view T (s_db s))(i \<mapsto> r\<lparr>t_last_event := Some e\<rparr>)
       | None \<Rightarrow> tb_view T (s_db s))"
    and "s_hooks res = s_hooks s"
  using cas_unguarded(1,2,4) [where s = s and i = i and f = "\<lambda>r. r\<lparr>t_last_event := Some e\<rparr>"]
    assms(1)
  by (simp_all add: res_def update_last_event_def split: option.splits)

lemma keyed_select:
  assumes "ok d"
  shows "tb_select T (\<lambda>r. t_id r = i \<and> g r) d =
    (case tb_view T d i of Some r \<Rightarrow> if g r then [r] else [] | None \<Rightarrow> [])"
proof -
  let ?xs = "tb_select T (\<lambda>r. t_id r = i \<and> g r) d"
  have set: "set ?xs = {r. tb_view T d i = Some r \<and> g r}"
    using select_set [OF assms, of "\<lambda>r. t_id r = i \<and> g r"] pk_view [OF assms] by auto
  show ?thesis
  proof (cases "tb_view T d i")
    case None
    with set show ?thesis by simp
  next
    case (Some r)
    show ?thesis
    proof (cases "g r")
      case True
      with set Some have "set ?xs = {r}" by auto
      from distinct_singleton [OF this select_distinct [OF assms]] Some True show ?thesis by simp
    next
      case False
      with set Some have "set ?xs = {}" by auto
      with Some False show ?thesis by simp
    qed
  qed
qed

lemma finalize_refuses:
  "\<not> terminal st \<Longrightarrow> \<exists>e. finalize_once T i st code detail now s = Inl e"
  by (simp add: finalize_once_def)

lemma finalize_spec:
  assumes "ok (s_db s)" and st: "terminal st"
  obtains won s' where "finalize_once T i st code detail now s = Inr (won, s')"
    and "ok (s_db s')"
    and "won \<longleftrightarrow> (\<exists>r. tb_view T (s_db s) i = Some r \<and> is_active r)"
    and "tb_view T (s_db s') =
      (case tb_view T (s_db s) i of
         Some r \<Rightarrow> if is_active r
           then (tb_view T (s_db s))(i \<mapsto> r\<lparr>t_status := st, t_error_code := code,
             t_error_detail := detail, t_completed := Some now\<rparr>) else tb_view T (s_db s)
       | None \<Rightarrow> tb_view T (s_db s))"
    and "s_hooks s' = s_hooks s @ (case tb_view T (s_db s) i of
         Some r \<Rightarrow> if is_active r then [TurnEnded (t_user r) (t_chat r) i] else []
       | None \<Rightarrow> [])"
proof -
  note c = cas [where s = s and i = i and g = is_active and
    f = "\<lambda>r. r\<lparr>t_status := st, t_error_code := code, t_error_detail := detail,
      t_completed := Some now\<rparr>", OF assms(1)]
  have na: "\<not> active st" using st by (simp add: terminal_iff_not_active)
  show ?thesis
    using c(1,2,4) na st keyed_select [OF assms(1), of i is_active]
    by (cases "tb_view T (s_db s) i"; cases "is_active (the (tb_view T (s_db s) i))")
      (auto simp: finalize_once_def split_beta publish_after_commit_def intro: that)
qed

lemma create_spec:
  assumes "ok (s_db s)"
  shows "case create_starting T p now s of
     None \<Rightarrow> \<exists>k r. tb_view T (s_db s) k = Some r \<and> is_active r \<and> t_chat r = tc_chat p
   | Some (row, s') \<Rightarrow> ok (s_db s') \<and> s_hooks s' = s_hooks s \<and>
       tb_view T (s_db s) (t_id row) = None \<and>
       tb_view T (s_db s') = (tb_view T (s_db s))(t_id row \<mapsto> row) \<and>
       row = (starting_row p now (t_id row))\<lparr>t_stream_key := stream_key (t_id row)\<rparr> \<and>
       t_status row = STARTING \<and> t_chat row = tc_chat p \<and> t_user row = tc_user p \<and>
       t_stream_key row = stream_key (t_id row) \<and>
       (\<forall>k r. tb_view T (s_db s) k = Some r \<longrightarrow> is_active r \<longrightarrow> t_chat r \<noteq> tc_chat p)"
proof (cases "tb_insert T (starting_row p now) (s_db s)")
  case None
  then obtain k where k: "tb_view T (s_db s) k = None"
    and nu: "\<not> active_unique ((tb_view T (s_db s))(k \<mapsto> starting_row p now k))"
    using insert_none [OF assms, of "starting_row p now"] by (auto simp: starting_row_def)
  from nu uniq_view [OF assms] show ?thesis
    unfolding active_unique_insert [where m = "tb_view T (s_db s)", OF k] using None
    by (auto simp: starting_row_def create_starting_def)
next
  case (Some x)
  obtain turn d where x: "x = (turn, d)" by (cases x)
  note ins = insert_some [OF assms, of "starting_row p now" turn d]
  have d: "ok d" and fresh: "tb_view T (s_db s) (t_id turn) = None"
    and turn: "turn = starting_row p now (t_id turn)"
    and view: "tb_view T d = (tb_view T (s_db s))(t_id turn \<mapsto> turn)"
    using ins Some x by (auto simp: starting_row_def)
  have act: "is_active turn" "t_chat turn = tc_chat p"
    by (subst turn, simp add: starting_row_def)+
  have no: "\<forall>k r. tb_view T (s_db s) k = Some r \<longrightarrow> is_active r \<longrightarrow> t_chat r \<noteq> tc_chat p"
    using uniq_view [OF d] act 
    unfolding view active_unique_insert [where m = "tb_view T (s_db s)", OF fresh] by simp
  let ?f = "\<lambda>r. r\<lparr>t_stream_key := stream_key (t_id turn)\<rparr>"
  define row where "row = ?f turn"
  define s' where "s' = snd (exec_update T (\<lambda>r. t_id r = t_id turn) ?f (s\<lparr>s_db := d\<rparr>))"
  have row: "row = (starting_row p now (t_id row))\<lparr>t_stream_key := stream_key (t_id row)\<rparr>"
    using turn by (simp add: row_def)
  have key: "t_id row = t_id turn" by (simp add: row_def)
  have cols: "t_status row = STARTING" "t_chat row = tc_chat p" "t_user row = tc_user p"
    by (subst row, simp add: starting_row_def)+
  have skey: "t_stream_key row = stream_key (t_id row)" by (simp add: row_def)
  have cs: "create_starting T p now s = Some (row, s')"
    using Some x by (simp add: create_starting_def Let_def split_beta row_def s'_def)
  note c = cas_unguarded [where s = "s\<lparr>s_db := d\<rparr>" and i = "t_id turn" and f = ?f]
  have "ok (s_db s')" "s_hooks s' = s_hooks s"
    using c(1,4) d by (simp_all add: s'_def)
  moreover have "tb_view T (s_db s') = (tb_view T (s_db s))(t_id row \<mapsto> row)"
    using c(2) d view key by (simp add: s'_def row_def [symmetric])
  moreover have "tb_view T (s_db s) (t_id row) = None"
    using fresh key by simp
  ultimately show ?thesis
    unfolding cs option.case prod.case using row cols skey no by blast
qed

end

section \<open>Runs: the operations of any number of workers, one transaction each\<close>

datatype turn_op =
    OpCreate turn_create int
  | OpMarkRunning int string string int
  | OpAttach int int
  | OpLastEvent int string
  | OpHeartbeat int int
  | OpFinalize int turn_status "string option" "string option" int

datatype turn_reply = RRow "turn_row option" | RBool bool | RUnit | RErr svc_error

fun perform :: "(turn_row, 'd) table \<Rightarrow> turn_op \<Rightarrow> 'd sess \<Rightarrow> turn_reply \<times> 'd sess" where
  "perform T (OpCreate p now) s = apfst RRow (try_create_starting T p now s)"
| "perform T (OpMarkRunning i thr trn now) s = apfst RBool (mark_running T i thr trn now s)"
| "perform T (OpAttach i m) s = (RUnit, attach_assistant_message T i m s)"
| "perform T (OpLastEvent i e) s = (RUnit, update_last_event T i e s)"
| "perform T (OpHeartbeat i now) s = apfst RBool (heartbeat T i now s)"
| "perform T (OpFinalize i st code detail now) s =
     (case finalize_once T i st code detail now s of
        Inl e \<Rightarrow> (RErr e, s)
      | Inr (won, s') \<Rightarrow> (RBool won, s'))"

definition turn_step ::
  "(turn_row, 'd) table \<Rightarrow> turn_op \<Rightarrow> 'd \<Rightarrow> turn_reply \<times> activity list \<times> 'd" where
  "turn_step T op d =
     (let (r, s) = perform T op (open_session d); (published, s') = commit s
      in (r, published, s_committed s'))"

type_synonym trace = "(turn_op \<times> turn_reply \<times> activity list) list"

fun turn_run :: "(turn_row, 'd) table \<Rightarrow> turn_op list \<Rightarrow> 'd \<Rightarrow> trace \<times> 'd" where
  "turn_run T [] d = ([], d)"
| "turn_run T (op # ops) d =
     (let (r, pub, d1) = turn_step T op d; (tr, d2) = turn_run T ops d1
      in ((op, r, pub) # tr, d2))"

text \<open>
  The lifecycle promised by \<open>TurnStatus\<close>, as a relation between the statuses a turn has
  before and after a step (\<open>None\<close>: there is no such turn).
\<close>

inductive status_step :: "turn_status option \<Rightarrow> turn_status option \<Rightarrow> bool" where
  stay: "status_step s s"
| created: "status_step None (Some STARTING)"
| started: "status_step (Some STARTING) (Some RUNNING)"
| finished: "active s \<Longrightarrow> terminal t \<Longrightarrow> status_step (Some s) (Some t)"

inductive_cases status_step_terminalE: "status_step (Some t) u"

inductive_simps status_step_Some [simp]: "status_step (Some s) (Some t)"

definition status_of :: "(turn_row, 'd) table \<Rightarrow> int \<Rightarrow> 'd \<Rightarrow> turn_status option" where
  "status_of T i d = map_option t_status (tb_view T d i)"

definition outcome :: "turn_row \<Rightarrow> turn_status \<times> string option \<times> string option \<times> int option" where
  "outcome r = (t_status r, t_error_code r, t_error_detail r, t_completed r)"

fun finalizes :: "int \<Rightarrow> turn_op \<Rightarrow> bool" where
  "finalizes i (OpFinalize j st code detail now) \<longleftrightarrow> j = i \<and> terminal st"
| "finalizes i _ \<longleftrightarrow> False"

definition wins :: "int \<Rightarrow> turn_op \<times> turn_reply \<times> activity list \<Rightarrow> bool" where
  "wins i x \<longleftrightarrow> finalizes i (fst x) \<and> fst (snd x) = RBool True"

fun ended_event :: "int \<Rightarrow> activity \<Rightarrow> bool" where
  "ended_event i (TurnEnded u c j) \<longleftrightarrow> j = i"
| "ended_event i _ \<longleftrightarrow> False"

fun finalized_to :: "turn_op \<Rightarrow> turn_status \<times> string option \<times> string option \<times> int option" where
  "finalized_to (OpFinalize j st code detail now) = (st, code, detail, Some now)"
| "finalized_to _ = (STARTING, None, None, None)"

definition ended_events :: "int \<Rightarrow> trace \<Rightarrow> activity list" where
  "ended_events i tr = filter (ended_event i) (concat (map (snd \<circ> snd) tr))"

context turn_db
begin

text \<open>
  One step, case by case: what it does to the row of turn \<open>i\<close>, whether it wins the
  finalization of \<open>i\<close>, and which end-of-turn events for \<open>i\<close> it publishes.
\<close>

lemma create_step:
  assumes "ok d" "turn_step T (OpCreate p now) d = (r, pub, d')"
  shows "ok d' \<and> filter (ended_event i) pub = [] \<and>
    (tb_view T d' i = tb_view T d i \<or>
      (tb_view T d i = None \<and> (\<exists>row. tb_view T d' i = Some row \<and> t_status row = STARTING)))"
  using create_spec [of "open_session d" p now] assms
  by (auto simp: turn_step_def commit_def try_create_starting_def rollback_def
      publish_after_commit_def split: option.splits prod.splits)

lemma finalize_step:
  assumes "ok d" "turn_step T (OpFinalize j st code detail now) d = (r, pub, d')"
  shows "ok d' \<and> (if terminal st \<and> j = i \<and> (\<exists>row. tb_view T d i = Some row \<and> is_active row)
    then r = RBool True \<and> length (filter (ended_event i) pub) = 1 \<and>
      (\<exists>row. tb_view T d' i = Some row \<and> outcome row = (st, code, detail, Some now))
    else \<not> wins i (OpFinalize j st code detail now, r, pub) \<and>
      filter (ended_event i) pub = [] \<and> tb_view T d' i = tb_view T d i)"
proof (cases "terminal st")
  case False
  with finalize_refuses [OF this, of j code detail now "open_session d"] assms show ?thesis
    by (auto simp: turn_step_def commit_def wins_def)
next
  case True
  have o: "ok (s_db (open_session d))" using assms(1) by simp
  obtain won s' where *: "finalize_once T j st code detail now (open_session d) = Inr (won, s')"
    "ok (s_db s')" "won \<longleftrightarrow> (\<exists>r. tb_view T d j = Some r \<and> is_active r)"
    "tb_view T (s_db s') = (case tb_view T d j of
         Some r \<Rightarrow> if is_active r then (tb_view T d)(j \<mapsto> r\<lparr>t_status := st, t_error_code := code,
             t_error_detail := detail, t_completed := Some now\<rparr>) else tb_view T d
       | None \<Rightarrow> tb_view T d)"
    "s_hooks s' = (case tb_view T d j of
         Some r \<Rightarrow> if is_active r then [TurnEnded (t_user r) (t_chat r) j] else []
       | None \<Rightarrow> [])"
    by (rule finalize_spec [OF o True, of j code detail now, unfolded open_session_simps append_Nil])
  then have "ok d'" "r = RBool won" "pub = s_hooks s'" "d' = s_db s'"
    using assms(2) by (auto simp: turn_step_def commit_def)
  with * True show ?thesis
    by (cases "tb_view T d j") (auto simp: wins_def outcome_def)
qed

lemma guarded_step:
  assumes "ok d" "turn_step T op d = (r, pub, d')"
    and "\<And>p now. op \<noteq> OpCreate p now" "\<And>j st code detail now. op \<noteq> OpFinalize j st code detail now"
  shows "ok d' \<and> filter (ended_event i) pub = [] \<and>
    (case tb_view T d i of
       None \<Rightarrow> tb_view T d' i = None
     | Some row \<Rightarrow> (\<exists>row'. tb_view T d' i = Some row' \<and>
         status_step (Some (t_status row)) (Some (t_status row')) \<and>
         (terminal (t_status row) \<longrightarrow> outcome row' = outcome row) \<and>
         (is_active row \<longrightarrow> is_active row')))"
proof -
  have o: "ok (s_db (open_session d))" using assms(1) by simp
  show ?thesis
  proof (cases op)
    case (OpMarkRunning j thr trn now)
    with mark_running_spec [OF o, of j thr trn now] assms(2) show ?thesis
      by (auto simp: turn_step_def commit_def split_beta outcome_def terminal_iff_not_active
          split: option.splits)
  next
    case (OpAttach j m)
    with attach_spec [OF o, of j m] assms(2) show ?thesis
      by (auto simp: turn_step_def commit_def split_beta outcome_def split: option.splits)
  next
    case (OpLastEvent j e)
    with last_event_spec [OF o, of j e] assms(2) show ?thesis
      by (auto simp: turn_step_def commit_def split_beta outcome_def split: option.splits)
  next
    case (OpHeartbeat j now)
    with heartbeat_spec [OF o, of j now] assms(2) show ?thesis
      by (auto simp: turn_step_def commit_def split_beta outcome_def split: option.splits)
  qed (use assms(3,4) in auto)
qed

end

lemma op_cases [case_names Create Finalize Guarded]:
  obtains (Create) p now where "op = OpCreate p now"
  | (Finalize) j st code detail now where "op = OpFinalize j st code detail now"
  | (Guarded) "\<And>p now. op \<noteq> OpCreate p now"
      "\<And>j st code detail now. op \<noteq> OpFinalize j st code detail now"
  by (cases op) auto

lemma guarded_no_win:
  assumes "\<And>j st code detail now. op \<noteq> OpFinalize j st code detail now"
  shows "\<not> finalizes i op" "\<not> wins i (op, r, pub)"
proof -
  show "\<not> finalizes i op"
  proof (cases op)
    case (OpFinalize j st code detail now)
    with assms show ?thesis by blast
  qed simp_all
  then show "\<not> wins i (op, r, pub)" by (simp add: wins_def)
qed

text \<open>Whole runs, by induction on the operations with the table generalised.\<close>

context turn_db
begin

lemma step_ok: "ok d \<Longrightarrow> turn_step T op d = (r, pub, d') \<Longrightarrow> ok d'"
proof (cases op rule: op_cases)
  case (Create p now)
  with create_step show "ok d \<Longrightarrow> turn_step T op d = (r, pub, d') \<Longrightarrow> ok d'" by blast
next
  case (Finalize j st code detail now)
  with finalize_step show "ok d \<Longrightarrow> turn_step T op d = (r, pub, d') \<Longrightarrow> ok d'" by blast
next
  case Guarded
  show "ok d \<Longrightarrow> turn_step T op d = (r, pub, d') \<Longrightarrow> ok d'"
    using guarded_step [OF _ _ Guarded] by blast
qed

lemma step_status:
  assumes "ok d" "turn_step T op d = (r, pub, d')"
  shows "status_step (status_of T i d) (status_of T i d')"
proof (cases op rule: op_cases)
  case (Create p now)
  with create_step [of d p now r pub d' i] assms show ?thesis
    by (auto simp: status_of_def intro: status_step.intros)
next
  case (Finalize j st code detail now)
  with finalize_step [of d j st code detail now r pub d' i] assms show ?thesis
    by (auto simp: status_of_def outcome_def intro: status_step.intros split: if_splits)
next
  case Guarded
  from guarded_step [OF assms Guarded, of i] show ?thesis
    by (auto simp: status_of_def intro: status_step.intros split: option.splits)
qed

lemma terminal_step:
  assumes "ok d" "turn_step T op d = (r, pub, d')" "tb_view T d i = Some row"
    and "terminal (t_status row)"
  shows "(\<exists>row'. tb_view T d' i = Some row' \<and> outcome row' = outcome row) \<and>
    \<not> wins i (op, r, pub) \<and> filter (ended_event i) pub = []"
proof (cases op rule: op_cases)
  case (Create p now)
  with create_step [of d p now r pub d' i] assms show ?thesis by (auto simp: wins_def)
next
  case (Finalize j st code detail now)
  with finalize_step [of d j st code detail now r pub d' i] assms show ?thesis
    by (auto simp: terminal_iff_not_active split: if_splits)
next
  case Guarded
  have "\<not> wins i (op, r, pub)" using Guarded(2) by (rule guarded_no_win)
  with guarded_step [OF assms(1,2) Guarded, of i] assms(3,4) show ?thesis by auto
qed

lemma active_step:
  assumes "ok d" "turn_step T op d = (r, pub, d')" "tb_view T d i = Some row" "is_active row"
  shows "if finalizes i op
    then wins i (op, r, pub) \<and> length (filter (ended_event i) pub) = 1 \<and>
      (\<exists>row'. tb_view T d' i = Some row' \<and> outcome row' = finalized_to op \<and> terminal (t_status row'))
    else \<not> wins i (op, r, pub) \<and> filter (ended_event i) pub = [] \<and>
      (\<exists>row'. tb_view T d' i = Some row' \<and> is_active row')"
proof (cases op rule: op_cases)
  case (Create p now)
  with create_step [of d p now r pub d' i] assms show ?thesis by (auto simp: wins_def)
next
  case (Finalize j st code detail now)
  note f = finalize_step [of d j st code detail now r pub d' i]
  show ?thesis
  proof (cases "terminal st \<and> j = i")
    case True
    with f assms Finalize obtain row' where "r = RBool True" "length (filter (ended_event i) pub) = 1"
      "tb_view T d' i = Some row'" "outcome row' = (st, code, detail, Some now)" by auto
    with True Finalize show ?thesis by (simp add: wins_def) (simp add: outcome_def)
  next
    case False
    with f assms Finalize show ?thesis by auto
  qed
next
  case Guarded
  have "\<not> wins i (op, r, pub)" "\<not> finalizes i op"
    using Guarded(2) by (rule guarded_no_win)+
  with guarded_step [OF assms(1,2) Guarded, of i] assms(3,4) show ?thesis by auto
qed

lemma run_ok: "ok d \<Longrightarrow> turn_run T ops d = (tr, d') \<Longrightarrow> ok d'"
  by (induction ops arbitrary: d tr) (auto split: prod.splits dest: step_ok)

lemma run_terminal:
  assumes "ok d" "turn_run T ops d = (tr, d')" "tb_view T d i = Some row" "terminal (t_status row)"
  shows "(\<exists>row'. tb_view T d' i = Some row' \<and> outcome row' = outcome row) \<and>
    filter (wins i) tr = [] \<and> ended_events i tr = []"
  using assms
proof (induction ops arbitrary: d tr row)
  case Nil
  then show ?case by (auto simp: ended_events_def)
next
  case (Cons op ops)
  obtain r pub d1 where s: "turn_step T op d = (r, pub, d1)" by (cases "turn_step T op d")
  obtain tr1 where t: "turn_run T ops d1 = (tr1, d')" "tr = (op, r, pub) # tr1"
    using Cons.prems(2) s by (auto split: prod.splits)
  from terminal_step [OF Cons.prems(1) s Cons.prems(3,4)]
  obtain row1 where row1: "tb_view T d1 i = Some row1" "outcome row1 = outcome row"
    "\<not> wins i (op, r, pub)" "filter (ended_event i) pub = []" by blast
  then have "terminal (t_status row1)" using Cons.prems(4) by (simp add: outcome_def)
  from Cons.IH [OF step_ok [OF Cons.prems(1) s] t(1) row1(1) this] row1 t(2)
  show ?case by (auto simp: ended_events_def)
qed

lemma run_active:
  assumes "ok d" "turn_run T ops d = (tr, d')" "tb_view T d i = Some row" "is_active row"
    and "\<exists>op \<in> set ops. finalizes i op"
  shows "length (filter (wins i) tr) = 1 \<and> length (ended_events i tr) = 1 \<and>
    (\<exists>x row'. x \<in> set tr \<and> wins i x \<and> tb_view T d' i = Some row' \<and> outcome row' = finalized_to (fst x))"
  using assms
proof (induction ops arbitrary: d tr row)
  case Nil
  then show ?case by simp
next
  case (Cons op ops)
  obtain r pub d1 where s: "turn_step T op d = (r, pub, d1)" by (cases "turn_step T op d")
  obtain tr1 where t: "turn_run T ops d1 = (tr1, d')" "tr = (op, r, pub) # tr1"
    using Cons.prems(2) s by (auto split: prod.splits)
  note ok1 = step_ok [OF Cons.prems(1) s]
  note act = active_step [OF Cons.prems(1) s Cons.prems(3,4)]
  show ?case
  proof (cases "finalizes i op")
    case True
    with act obtain row1 where row1: "tb_view T d1 i = Some row1" "outcome row1 = finalized_to op"
      "terminal (t_status row1)" "wins i (op, r, pub)" "length (filter (ended_event i) pub) = 1"
      by auto
    from run_terminal [OF ok1 t(1) row1(1,3)] row1 t(2) show ?thesis
      by (auto simp: ended_events_def)
  next
    case False
    with act obtain row1 where row1: "tb_view T d1 i = Some row1" "is_active row1"
      "\<not> wins i (op, r, pub)" "filter (ended_event i) pub = []"
      by auto
    from False Cons.prems(5) have "\<exists>op \<in> set ops. finalizes i op" by simp
    from Cons.IH [OF ok1 t(1) row1(1,2) this] row1 t(2) show ?thesis
      by (auto simp: ended_events_def)
  qed
qed

lemma run_status:
  assumes "ok d" "turn_run T ops d = (tr, d')"
  shows "status_step\<^sup>*\<^sup>* (status_of T i d) (status_of T i d')"
  using assms
proof (induction ops arbitrary: d tr)
  case Nil
  then show ?case by simp
next
  case (Cons op ops)
  obtain r pub d1 where s: "turn_step T op d = (r, pub, d1)" by (cases "turn_step T op d")
  obtain tr1 where t: "turn_run T ops d1 = (tr1, d')"
    using Cons.prems(2) s by (auto split: prod.splits)
  from Cons.IH [OF step_ok [OF Cons.prems(1) s] t] step_status [OF Cons.prems(1) s]
  show ?case by (rule converse_rtranclp_into_rtranclp [rotated])
qed

lemma active_map_lookup:
  assumes "ok d"
  shows "active_ids_by_chat_for_user T u d c = Some i \<longleftrightarrow>
    (\<exists>r. tb_view T d i = Some r \<and> is_active r \<and> t_user r = u \<and> t_chat r = c)"
proof -
  let ?xs = "tb_select T (\<lambda>r. t_user r = u \<and> active (t_status r)) d"
  let ?f = "\<lambda>r m. m(t_chat r \<mapsto> t_id r)"
  have set: "set ?xs = {r. \<exists>k. tb_view T d k = Some r \<and> t_user r = u \<and> is_active r}"
    by (rule select_set [OF assms])
  have fold: "fold ?f xs m c = (if \<exists>r \<in> set xs. t_chat r = c then Some j else m c)"
    if "\<And>r. r \<in> set xs \<Longrightarrow> t_chat r = c \<Longrightarrow> t_id r = j" for xs m j
    using that by (induction xs arbitrary: m) auto
  show ?thesis
  proof (cases "\<exists>r \<in> set ?xs. t_chat r = c")
    case True
    then obtain r where r: "r \<in> set ?xs" "t_chat r = c" by blast
    then obtain k where k: "tb_view T d k = Some r" "t_user r = u" "is_active r"
      unfolding set by blast
    have one: "tb_view T d j = Some q \<and> is_active q \<and> t_chat q = c \<longleftrightarrow> j = k \<and> q = r" for j q
      using active_uniqueD [OF uniq_view [OF assms] k(1), of j q] k r(2) by auto
    have "t_id q = k" if "q \<in> set ?xs" "t_chat q = c" for q
    proof -
      from that(1) obtain l where "tb_view T d l = Some q" "is_active q" unfolding set by blast
      with one [of l q] that(2) pk_view [OF assms k(1)] show ?thesis by simp
    qed
    from fold [OF this] True have "active_ids_by_chat_for_user T u d c = Some k"
      by (simp add: active_ids_by_chat_for_user_def)
    moreover have "(\<exists>q. tb_view T d i = Some q \<and> is_active q \<and> t_user q = u \<and> t_chat q = c) \<longleftrightarrow> i = k"
      using one [of i] k r(2) by blast
    ultimately show ?thesis by auto
  next
    case False
    then have "active_ids_by_chat_for_user T u d c = None"
      using fold [of ?xs 0 Map.empty] by (simp add: active_ids_by_chat_for_user_def)
    with False show ?thesis unfolding set by auto
  qed
qed

end

interpretation turn_mem_db: turn_db turn_mem "rows_ok t_id active_unique_rows"
  by (simp add: turn_db_def turn_mem.table_laws_axioms)

section \<open>Properties\<close>

definition demo_payload :: turn_create where
  "demo_payload = \<lparr>tc_chat = 7, tc_user = 3, tc_user_msg = 11, tc_sidecar = GuestSidecar\<rparr>"

definition demo_db :: "turn_row rows" where
  "demo_db = (6, [(5, starting_row demo_payload 0 5)])"

lemma demo_db_ok: "rows_ok t_id active_unique_rows demo_db"
  by (simp add: rows_ok_def demo_db_def starting_row_def active_unique_rows_def)

lemma demo_db_view: "tb_view turn_mem demo_db 5 = Some (starting_row demo_payload 0 5)"
  by (simp add: turn_mem_def mem_table_def rows_view_def demo_db_def)

text \<open>
  C1: exactly-once finalization. Whatever the workers do to a turn that is active, and in
  whatever order, as soon as one of the operations is a \<open>finalize_once\<close> with a terminal
  status, exactly one such call wins, exactly one end-of-turn event is published for the
  turn, and the row ends with the status, error and completion time of the winning call.
\<close>

theorem finalize_exactly_once:
  assumes "turn_db T ok" "ok d" "tb_view T d i = Some row" "is_active row"
    and "turn_run T ops d = (tr, d')" "op \<in> set ops" "finalizes i op"
  shows "length (filter (wins i) tr) = 1 \<and> length (ended_events i tr) = 1 \<and>
    (\<exists>x row'. x \<in> set tr \<and> wins i x \<and> tb_view T d' i = Some row' \<and>
       outcome row' = finalized_to (fst x))"
  using turn_db.run_active [OF assms(1,2,5,3,4)] assms(6,7) by blast

definition demo_ops :: "turn_op list" where
  "demo_ops = [OpMarkRunning 5 ''th'' ''tu'' 1, OpFinalize 5 COMPLETED None None 2,
     OpFinalize 5 FAILED (Some ''lease_expired'') None 3, OpHeartbeat 5 4]"

theorem finalize_exactly_once_witness:
  "length (filter (wins 5) (fst (turn_run turn_mem demo_ops demo_db))) = 1"
  using finalize_exactly_once [OF turn_mem_db.turn_db_axioms demo_db_ok demo_db_view,
      of demo_ops "fst (turn_run turn_mem demo_ops demo_db)"
        "snd (turn_run turn_mem demo_ops demo_db)" "OpFinalize 5 COMPLETED None None 2"]
  by (simp add: demo_ops_def starting_row_def terminal_statuses_def)

text \<open>
  C2: the lifecycle. Over any run of operations the status of every turn moves only along
  STARTING, RUNNING, one terminal status, and once terminal its status, error code, error
  detail and completion time never change again.
\<close>

theorem turn_lifecycle:
  assumes "turn_db T ok" "ok d" "turn_run T ops d = (tr, d')"
  shows "status_step\<^sup>*\<^sup>* (status_of T i d) (status_of T i d') \<and>
    (\<forall>row. tb_view T d i = Some row \<and> terminal (t_status row) \<longrightarrow>
      (\<exists>row'. tb_view T d' i = Some row' \<and> outcome row' = outcome row) \<and>
      ended_events i tr = [])"
  using turn_db.run_status [OF assms] turn_db.run_terminal [OF assms] by blast

theorem turn_lifecycle_witness:
  "status_step\<^sup>*\<^sup>* (status_of turn_mem 5 demo_db)
     (status_of turn_mem 5 (snd (turn_run turn_mem demo_ops demo_db)))"
  using turn_lifecycle [OF turn_mem_db.turn_db_axioms demo_db_ok, of demo_ops
      "fst (turn_run turn_mem demo_ops demo_db)" "snd (turn_run turn_mem demo_ops demo_db)"]
  by simp

text \<open>
  The one-active-turn fence. \<open>try_create_starting\<close> returns a row exactly when the chat
  has no active turn; then the new row is STARTING with its own stream key and a started
  event waits for the commit; otherwise the transaction is rolled back to the committed table
  and nothing is registered for publication.
\<close>

theorem try_create_fence:
  assumes "turn_db T ok" "ok (s_db s)"
  shows "case try_create_starting T p now s of
      (None, s') \<Rightarrow> (\<exists>k r. tb_view T (s_db s) k = Some r \<and> is_active r \<and> t_chat r = tc_chat p)
        \<and> s_db s' = s_committed s \<and> s_hooks s' = s_hooks s
    | (Some row, s') \<Rightarrow>
        (\<forall>k r. tb_view T (s_db s) k = Some r \<longrightarrow> is_active r \<longrightarrow> t_chat r \<noteq> tc_chat p)
        \<and> t_status row = STARTING \<and> t_stream_key row = stream_key (t_id row)
        \<and> tb_view T (s_db s) (t_id row) = None
        \<and> tb_view T (s_db s') = (tb_view T (s_db s))(t_id row \<mapsto> row)
        \<and> s_hooks s' = s_hooks s @ [TurnStarted (tc_user p) (tc_chat p) (t_id row)]"
proof (cases "create_starting T p now s")
  case None
  with turn_db.create_spec [OF assms, of p now] show ?thesis
    by (simp add: try_create_starting_def rollback_def)
next
  case (Some x)
  obtain row s' where x: "x = (row, s')" by (cases x)
  with turn_db.create_spec [OF assms, of p now] Some x show ?thesis
    by (auto simp: try_create_starting_def publish_after_commit_def)
qed

theorem try_create_fence_witness:
  "fst (try_create_starting turn_mem demo_payload 9 (open_session demo_db)) = None \<and>
   s_hooks (snd (try_create_starting turn_mem demo_payload 9 (open_session demo_db))) = []"
proof -
  have chat: "t_chat (starting_row demo_payload 0 5) = tc_chat demo_payload"
    "is_active (starting_row demo_payload 0 5)" by (simp_all add: starting_row_def)
  obtain o' s' where "try_create_starting turn_mem demo_payload 9 (open_session demo_db) = (o', s')"
    by (cases "try_create_starting turn_mem demo_payload 9 (open_session demo_db)")
  with try_create_fence [OF turn_mem_db.turn_db_axioms, of "open_session demo_db" demo_payload 9]
    chat demo_db_view
  show ?thesis by (cases o') (auto simp: demo_db_ok)
qed

text \<open>
  The sidebar map. \<open>active_ids_by_chat_for_user\<close> maps a chat to a turn exactly when that
  turn is active, belongs to the user and to the chat: no entry is stale, none is missing, and
  no chat hides a second active turn.
\<close>

theorem active_ids_exact:
  assumes "turn_db T ok" "ok d"
  shows "active_ids_by_chat_for_user T u d c = Some i \<longleftrightarrow>
    (\<exists>r. tb_view T d i = Some r \<and> is_active r \<and> t_user r = u \<and> t_chat r = c)"
  by (rule turn_db.active_map_lookup [OF assms])

theorem active_ids_exact_witness:
  "active_ids_by_chat_for_user turn_mem 3 demo_db 7 = Some 5"
  using active_ids_exact [OF turn_mem_db.turn_db_axioms demo_db_ok, of 3 7 5] demo_db_view
  by (simp add: starting_row_def demo_payload_def)

end
