(* ===== verification/Turn_Locks.thy ===== *)
theory Turn_Locks
  imports Turn_Model
begin

text \<open>
  Ownership of a turn in Redis: the per-chat active lock (\<open>app/services/turns/locks.py\<close>),
  the per-turn lease of a worker and the leader lock of singleton loops
  (\<open>app/services/turns/lease.py\<close>). All three are keys with a holder and a time to live that
  only their holder refreshes or releases; that contract is the locale \<open>ttl_lock\<close>, with
  mutual exclusion proved once inside it. Every operation takes the fault of its Redis call.
\<close>

section \<open>The contract: a lock with a holder and a time to live\<close>

datatype 'h lock_op = LAcquire fault 'h | LRefresh fault 'h | LRelease fault 'h | LElapse nat

fun lock_step ::
  "(fault \<Rightarrow> 'h \<Rightarrow> 's \<Rightarrow> bool \<times> 's) \<Rightarrow> (fault \<Rightarrow> 'h \<Rightarrow> 's \<Rightarrow> bool \<times> 's) \<Rightarrow>
   (fault \<Rightarrow> 'h \<Rightarrow> 's \<Rightarrow> bool \<times> 's) \<Rightarrow> (nat \<Rightarrow> 's \<Rightarrow> 's) \<Rightarrow> 'h lock_op \<Rightarrow> 's \<Rightarrow> bool \<times> 's" where
  "lock_step acq ref rel tick (LAcquire f h) s = acq f h s"
| "lock_step acq ref rel tick (LRefresh f h) s = ref f h s"
| "lock_step acq ref rel tick (LRelease f h) s = rel f h s"
| "lock_step acq ref rel tick (LElapse n) s = (True, tick n s)"

fun lock_run ::
  "(fault \<Rightarrow> 'h \<Rightarrow> 's \<Rightarrow> bool \<times> 's) \<Rightarrow> (fault \<Rightarrow> 'h \<Rightarrow> 's \<Rightarrow> bool \<times> 's) \<Rightarrow>
   (fault \<Rightarrow> 'h \<Rightarrow> 's \<Rightarrow> bool \<times> 's) \<Rightarrow> (nat \<Rightarrow> 's \<Rightarrow> 's) \<Rightarrow> 'h lock_op list \<Rightarrow> 's \<Rightarrow>
   ('h lock_op \<times> bool) list \<times> 's" where
  "lock_run acq ref rel tick [] s = ([], s)"
| "lock_run acq ref rel tick (op # ops) s =
     (let (b, s1) = lock_step acq ref rel tick op s;
          (rs, s2) = lock_run acq ref rel tick ops s1
      in ((op, b) # rs, s2))"

fun elapsed :: "'h lock_op \<Rightarrow> nat" where
  "elapsed (LElapse n) = n"
| "elapsed _ = 0"

fun releases :: "'h \<Rightarrow> 'h lock_op \<Rightarrow> bool" where
  "releases h (LRelease f g) \<longleftrightarrow> g = h"
| "releases h _ \<longleftrightarrow> False"

text \<open>The replies that would let someone else in: an acquire granted, or a stranger served.\<close>

fun intrudes :: "'h \<Rightarrow> 'h lock_op \<times> bool \<Rightarrow> bool" where
  "intrudes h (LAcquire f g, b) \<longleftrightarrow> b"
| "intrudes h (LRefresh f g, b) \<longleftrightarrow> g \<noteq> h \<and> b"
| "intrudes h (LRelease f g, b) \<longleftrightarrow> g \<noteq> h \<and> b"
| "intrudes h (LElapse n, b) \<longleftrightarrow> False"

text \<open>
  A holder that beats: in every round other clients act, \<open>n\<close> seconds pass, the holder
  refreshes; it stops at the first refresh that is refused.
\<close>

fun beats ::
  "(fault \<Rightarrow> 'h \<Rightarrow> 's \<Rightarrow> bool \<times> 's) \<Rightarrow> (fault \<Rightarrow> 'h \<Rightarrow> 's \<Rightarrow> bool \<times> 's) \<Rightarrow>
   (fault \<Rightarrow> 'h \<Rightarrow> 's \<Rightarrow> bool \<times> 's) \<Rightarrow> (nat \<Rightarrow> 's \<Rightarrow> 's) \<Rightarrow> 'h \<Rightarrow>
   (nat \<times> 'h lock_op list) list \<Rightarrow> 's \<Rightarrow> bool \<times> 's" where
  "beats acq ref rel tick h [] s = (True, s)"
| "beats acq ref rel tick h ((n, others) # rounds) s =
     (let s1 = tick n (snd (lock_run acq ref rel tick others s)); (b, s2) = ref Fine h s1
      in if b then beats acq ref rel tick h rounds s2 else (False, s2))"

locale ttl_lock =
  fixes acq ref rel :: "fault \<Rightarrow> 'h \<Rightarrow> 's \<Rightarrow> bool \<times> 's"
    and tick :: "nat \<Rightarrow> 's \<Rightarrow> 's"
    and own :: "'s \<Rightarrow> entry option"
    and tok :: "'h \<Rightarrow> string"
    and T :: nat
  assumes tok_inj: "tok g = tok h \<Longrightarrow> g = h"
    and acq_true: "fst (acq f h s) \<Longrightarrow> own s = None \<and> own (snd (acq f h s)) = Some (tok h, Some T)"
    and acq_any: "own s \<noteq> None \<Longrightarrow> own (snd (acq f h s)) = own s"
    and acq_free: "own s = None \<Longrightarrow>
      fst (acq Fine h s) \<and> own (snd (acq f h s)) \<in> {None, Some (tok h, Some T)}"
    and ref_true: "fst (ref f h s) \<Longrightarrow>
      map_option fst (own s) = Some (tok h) \<and> own (snd (ref f h s)) = Some (tok h, Some T)"
    and ref_other: "map_option fst (own s) \<noteq> Some (tok h) \<Longrightarrow> own (snd (ref f h s)) = own s"
    and ref_mine: "map_option fst (own s) = Some (tok h) \<Longrightarrow>
      fst (ref Fine h s) \<and> own (snd (ref f h s)) \<in> {own s, Some (tok h, Some T)}"
    and rel_true: "fst (rel f h s) \<Longrightarrow>
      map_option fst (own s) = Some (tok h) \<and> own (snd (rel f h s)) = None"
    and rel_other: "map_option fst (own s) \<noteq> Some (tok h) \<Longrightarrow> own (snd (rel f h s)) = own s"
    and rel_mine: "map_option fst (own s) = Some (tok h) \<Longrightarrow>
      fst (rel Fine h s) \<and> own (snd (rel f h s)) \<in> {own s, None}"
    and own_tick: "own (tick n s) = Option.bind (own s) (aged n)"
begin

abbreviation run :: "'h lock_op list \<Rightarrow> 's \<Rightarrow> ('h lock_op \<times> bool) list \<times> 's" where
  "run \<equiv> lock_run acq ref rel tick"

text \<open>
  One step by anyone, while \<open>h\<close> holds the lock with \<open>t\<close> seconds left and does not release
  it: nobody else is served, and \<open>h\<close> still holds it with at least the time that remains.
\<close>

lemma step_held:
  assumes "own s = Some (tok h, Some t)" "t \<le> T" "\<not> releases h op" "elapsed op < t"
  shows "\<not> intrudes h (op, fst (lock_step acq ref rel tick op s)) \<and>
    (\<exists>t'. own (snd (lock_step acq ref rel tick op s)) = Some (tok h, Some t') \<and>
       t - elapsed op \<le> t' \<and> t' \<le> T)"
proof (cases op)
  case (LAcquire f g)
  with assms acq_true [of f g s] acq_any [of s f g] show ?thesis by auto
next
  case (LRefresh f g)
  show ?thesis
  proof (cases "g = h")
    case True
    with LRefresh assms ref_mine [of s h f] show ?thesis by auto
  next
    case False
    then have "map_option fst (own s) \<noteq> Some (tok g)" using assms(1) tok_inj by auto
    with LRefresh assms ref_true [of f g s] ref_other [of s g f] show ?thesis by auto
  qed
next
  case (LRelease f g)
  with assms(3) have "g \<noteq> h" by simp
  then have "map_option fst (own s) \<noteq> Some (tok g)" using assms(1) tok_inj by auto
  with LRelease assms rel_true [of f g s] rel_other [of s g f] show ?thesis by auto
next
  case (LElapse n)
  with assms show ?thesis by (auto simp: own_tick)
qed

text \<open>Mutual exclusion over any run shorter than the time left.\<close>

lemma mutual_exclusion:
  assumes "own s = Some (tok h, Some t)" "t \<le> T"
    and "\<forall>op \<in> set ops. \<not> releases h op" "sum_list (map elapsed ops) < t"
  shows "(\<forall>x \<in> set (fst (run ops s)). \<not> intrudes h x) \<and>
    (\<exists>t'. own (snd (run ops s)) = Some (tok h, Some t') \<and>
       t - sum_list (map elapsed ops) \<le> t' \<and> t' \<le> T)"
  using assms
proof (induction ops arbitrary: s t)
  case Nil
  then show ?case by auto
next
  case (Cons op ops)
  let ?s1 = "snd (lock_step acq ref rel tick op s)"
  from Cons.prems have "\<not> releases h op" "elapsed op < t" by auto
  from step_held [OF Cons.prems(1,2) this]
  obtain t1 where t1: "own ?s1 = Some (tok h, Some t1)" "t - elapsed op \<le> t1" "t1 \<le> T"
    and ni: "\<not> intrudes h (op, fst (lock_step acq ref rel tick op s))" by blast
  have "sum_list (map elapsed ops) < t1" using Cons.prems(4) t1(2) by simp
  from Cons.IH [OF t1(1,3) _ this] Cons.prems(3) obtain t' where
    "\<forall>x \<in> set (fst (run ops ?s1)). \<not> intrudes h x" "own (snd (run ops ?s1)) = Some (tok h, Some t')"
    "t1 - sum_list (map elapsed ops) \<le> t'" "t' \<le> T" by auto
  with ni t1(2) show ?case
    by (auto simp: split_beta intro!: exI [where x = t'])
qed

text \<open>
  An abandoned lock comes free: once the holder's time has passed with no refresh, the next
  acquire is granted.
\<close>

lemma expires:
  assumes "own s = Some (tok h, Some t)" "t \<le> n"
  shows "fst (acq Fine g (tick n s))"
  using assms acq_free [of "tick n s" g Fine] by (simp add: own_tick)

text \<open>Beating more often than the time to live keeps the lock for ever.\<close>

lemma heartbeat_keeps:
  assumes "own s = Some (tok h, Some T)"
    and "\<forall>(n, others) \<in> set rounds. n < T \<and> (\<forall>op \<in> set others. \<not> releases h op \<and> elapsed op = 0)"
  shows "fst (beats acq ref rel tick h rounds s) \<and> own (snd (beats acq ref rel tick h rounds s)) = Some (tok h, Some T)"
  using assms
proof (induction rounds arbitrary: s)
  case Nil
  then show ?case by simp
next
  case (Cons x rounds)
  obtain n others where x: "x = (n, others)" by (cases x)
  with Cons.prems have n: "n < T" and others: "\<forall>op \<in> set others. \<not> releases h op \<and> elapsed op = 0"
    by auto
  then have z: "sum_list (map elapsed others) = 0" by simp
  have "own (snd (run others s)) = Some (tok h, Some T)"
    using mutual_exclusion [OF Cons.prems(1) order.refl, of others] others n z by auto
  then have "own (tick n (snd (run others s))) = Some (tok h, Some (T - n))"
    using n by (simp add: own_tick)
  with ref_mine [of "tick n (snd (run others s))" h Fine] ref_true [of Fine h "tick n (snd (run others s))"]
  have "fst (ref Fine h (tick n (snd (run others s))))"
    "own (snd (ref Fine h (tick n (snd (run others s))))) = Some (tok h, Some T)" by auto
  with Cons.IH Cons.prems(2) show ?case by (simp add: x split_beta Let_def)
qed

end

section \<open>The lease of a worker\<close>

text \<open>
  The state a process sees: the server and the process's own registry of the leases it took
  (\<open>_ACTIVE_LEASES\<close>, a set of turn and holder pairs, here a list without duplicates).
\<close>

record 's lease_state =
  l_srv :: 's
  l_active :: "(int \<times> string) list"

definition LEASE_TTL_S :: nat where
  "LEASE_TTL_S = 30"

definition lease_prefix :: string where
  "lease_prefix = ''turn:lease:''"

definition lease_key :: "int \<Rightarrow> string" where
  "lease_key turn_id = lease_prefix @ str_of_int turn_id"

definition turn_id_from_key :: "string \<Rightarrow> int option" where
  "turn_id_from_key key =
     (if \<not> prefix lease_prefix key then None else py_int (drop (length lease_prefix) key))"

text \<open>The two Lua scripts, which Redis runs as one command.\<close>

definition refresh_lua :: "('s, 'x) redis_scheme \<Rightarrow> string \<Rightarrow> string \<Rightarrow> nat \<Rightarrow> 's \<Rightarrow> bool \<times> 's" where
  "refresh_lua R key arg ttl s =
     (let (v, s1) = rd_get R key s
      in if v = Some arg then rd_expire R key ttl s1 else (False, s1))"

definition release_lua :: "('s, 'x) redis_scheme \<Rightarrow> string \<Rightarrow> string \<Rightarrow> 's \<Rightarrow> bool \<times> 's" where
  "release_lua R key arg s =
     (let (v, s1) = rd_get R key s
      in if v = Some arg then rd_del R key s1 else (False, s1))"

definition acquire ::
  "('s, 'x) redis_scheme \<Rightarrow> fault \<Rightarrow> int \<Rightarrow> string \<Rightarrow> nat \<Rightarrow> 's lease_state \<Rightarrow> bool \<times> 's lease_state" where
  "acquire R f turn_id holder ttl st =
     (let (r, s) = call f (rd_set_nx R (lease_key turn_id) holder ttl) (l_srv st)
      in case r of
           None \<Rightarrow> (False, st\<lparr>l_srv := s\<rparr>)
         | Some ok \<Rightarrow>
             (ok, st\<lparr>l_srv := s,
                l_active := if ok then List.insert (turn_id, holder) (l_active st) else l_active st\<rparr>))"

definition refresh ::
  "('s, 'x) redis_scheme \<Rightarrow> fault \<Rightarrow> int \<Rightarrow> string \<Rightarrow> nat \<Rightarrow> 's lease_state \<Rightarrow> bool \<times> 's lease_state" where
  "refresh R f turn_id holder ttl st =
     (let (r, s) = call f (refresh_lua R (lease_key turn_id) holder ttl) (l_srv st)
      in (r = Some True, st\<lparr>l_srv := s\<rparr>))"

definition release ::
  "('s, 'x) redis_scheme \<Rightarrow> fault \<Rightarrow> int \<Rightarrow> string \<Rightarrow> 's lease_state \<Rightarrow> bool \<times> 's lease_state" where
  "release R f turn_id holder st =
     (let active = removeAll (turn_id, holder) (l_active st);
          (r, s) = call f (release_lua R (lease_key turn_id) holder) (l_srv st)
      in (r = Some True, st\<lparr>l_srv := s, l_active := active\<rparr>))"

text \<open>
  \<open>release_all_local\<close> walks a snapshot of the registry; a lease whose command raises stays
  registered. \<open>fs\<close> gives the fault of each iteration.
\<close>

fun release_each ::
  "('s, 'x) redis_scheme \<Rightarrow> (int \<times> string \<Rightarrow> fault) \<Rightarrow> (int \<times> string) list \<Rightarrow> nat \<Rightarrow> 's lease_state \<Rightarrow>
     nat \<times> 's lease_state" where
  "release_each R fs [] released st = (released, st)"
| "release_each R fs ((turn_id, holder) # rest) released st =
     (let (r, s) = call (fs (turn_id, holder)) (release_lua R (lease_key turn_id) holder) (l_srv st)
      in case r of
           None \<Rightarrow> release_each R fs rest released (st\<lparr>l_srv := s\<rparr>)
         | Some deleted \<Rightarrow>
             release_each R fs rest (if deleted then released + 1 else released)
               (st\<lparr>l_srv := s, l_active := removeAll (turn_id, holder) (l_active st)\<rparr>))"

definition release_all_local ::
  "('s, 'x) redis_scheme \<Rightarrow> (int \<times> string \<Rightarrow> fault) \<Rightarrow> 's lease_state \<Rightarrow> nat \<times> 's lease_state" where
  "release_all_local R fs st = release_each R fs (l_active st) 0 st"

definition lease_exists :: "('s, 'x) redis_scheme \<Rightarrow> fault \<Rightarrow> int \<Rightarrow> 's \<Rightarrow> bool \<times> 's" where
  "lease_exists R f turn_id s =
     (let (r, s') = call f (rd_exists R (lease_key turn_id)) s in (r = Some True, s'))"

section \<open>The leader lock\<close>

definition leader_key :: "string \<Rightarrow> string" where
  "leader_key name = ''leader:'' @ name"

definition acquire_leader ::
  "('s, 'x) redis_scheme \<Rightarrow> fault \<Rightarrow> string \<Rightarrow> string \<Rightarrow> nat \<Rightarrow> 's \<Rightarrow> bool \<times> 's" where
  "acquire_leader R f name holder ttl s =
     (let (r, s') = call f (rd_set_nx R (leader_key name) holder ttl) s in (r = Some True, s'))"

definition refresh_leader ::
  "('s, 'x) redis_scheme \<Rightarrow> fault \<Rightarrow> string \<Rightarrow> string \<Rightarrow> nat \<Rightarrow> 's \<Rightarrow> bool \<times> 's" where
  "refresh_leader R f name holder ttl s =
     (let (r, s') = call f (refresh_lua R (leader_key name) holder ttl) s in (r = Some True, s'))"

definition release_leader ::
  "('s, 'x) redis_scheme \<Rightarrow> fault \<Rightarrow> string \<Rightarrow> string \<Rightarrow> 's \<Rightarrow> bool \<times> 's" where
  "release_leader R f name holder s =
     (let (r, s') = call f (release_lua R (leader_key name) holder) s in (r = Some True, s'))"

section \<open>The per-chat active lock\<close>

definition LOCK_TTL_S :: nat where
  "LOCK_TTL_S = 30"

datatype lock_outcome = ACQUIRED | REDELIVERY | ACTIVE_BUSY

definition active_key :: "int \<Rightarrow> string" where
  "active_key chat_id = ''turn:active:'' @ str_of_int chat_id"

definition try_acquire_active ::
  "('s, 'x) redis_scheme \<Rightarrow> fault \<Rightarrow> int \<Rightarrow> int \<Rightarrow> 's \<Rightarrow> bool \<times> 's" where
  "try_acquire_active R f chat_id turn_id s =
     (let (r, s') = call f (rd_set_nx R (active_key chat_id) (str_of_int turn_id) LOCK_TTL_S) s
      in (r = Some True, s'))"

definition active_lock_value ::
  "('s, 'x) redis_scheme \<Rightarrow> fault \<Rightarrow> int \<Rightarrow> 's \<Rightarrow> string option \<times> 's" where
  "active_lock_value R f chat_id s =
     (let (r, s') = call f (rd_get R (active_key chat_id)) s
      in (case r of None \<Rightarrow> None | Some raw \<Rightarrow> raw, s'))"

definition heartbeat_active ::
  "('s, 'x) redis_scheme \<Rightarrow> fault \<Rightarrow> int \<Rightarrow> int \<Rightarrow> 's \<Rightarrow> bool \<times> 's" where
  "heartbeat_active R f chat_id turn_id s =
     (let payload = str_of_int turn_id;
          (r, s') = call f (rd_set_ifeq R (active_key chat_id) payload LOCK_TTL_S payload) s
      in (r = Some True, s'))"

definition release_active ::
  "('s, 'x) redis_scheme \<Rightarrow> fault \<Rightarrow> int \<Rightarrow> int \<Rightarrow> 's \<Rightarrow> bool \<times> 's" where
  "release_active R f chat_id turn_id s =
     (let (r, s') = call f (rd_delex_ifeq R (active_key chat_id) (str_of_int turn_id)) s
      in (r = Some True, s'))"

text \<open>
  \<open>hold_turn_locks\<close> as its two halves: entering the context computes the outcome, leaving it
  releases the lock if it was acquired.
\<close>

definition hold_enter ::
  "('s, 'x) redis_scheme \<Rightarrow> fault \<Rightarrow> fault \<Rightarrow> int \<Rightarrow> int \<Rightarrow> 's \<Rightarrow> lock_outcome \<times> 's" where
  "hold_enter R f_acquire f_read chat_id turn_id s =
     (let (active_acquired, s1) = try_acquire_active R f_acquire chat_id turn_id s
      in if \<not> active_acquired then
           let (v, s2) = active_lock_value R f_read chat_id s1
           in (if v = Some (str_of_int turn_id) then REDELIVERY else ACTIVE_BUSY, s2)
         else (ACQUIRED, s1))"

definition hold_exit ::
  "('s, 'x) redis_scheme \<Rightarrow> fault \<Rightarrow> lock_outcome \<Rightarrow> int \<Rightarrow> int \<Rightarrow> 's \<Rightarrow> 's" where
  "hold_exit R f outcome chat_id turn_id s =
     (case outcome of
        ACQUIRED \<Rightarrow> snd (release_active R f chat_id turn_id s)
      | _ \<Rightarrow> s)"

section \<open>All three locks meet the contract\<close>

lemma keys_inj [key_facts]:
  "lease_key i = lease_key j \<longleftrightarrow> i = j"
  "leader_key a = leader_key b \<longleftrightarrow> a = b"
  "active_key c = active_key e \<longleftrightarrow> c = e"
  by (simp_all add: lease_key_def leader_key_def active_key_def)

lemma keys_apart [key_facts]:
  "lease_key i \<noteq> active_key c" "lease_key i \<noteq> leader_key a" "active_key c \<noteq> leader_key a"
  by (auto simp: lease_key_def lease_prefix_def leader_key_def active_key_def)

lemma lease_key_round_trip: "turn_id_from_key (lease_key i) = Some i"
  by (simp add: turn_id_from_key_def lease_key_def)

context redis_laws
begin

lemma refresh_lua_reply:
  "fst (refresh_lua R k h t s) \<longleftrightarrow> map_option fst (rd_view R s k) = Some h"
  by (auto simp: refresh_lua_def split_beta replies views)

lemma refresh_lua_view:
  "rd_view R (snd (refresh_lua R k h t s)) =
     (if map_option fst (rd_view R s k) = Some h then (rd_view R s)(k \<mapsto> (h, Some t))
      else rd_view R s)"
  by (auto simp: refresh_lua_def split_beta replies views)

lemma release_lua_reply:
  "fst (release_lua R k h s) \<longleftrightarrow> map_option fst (rd_view R s k) = Some h"
  by (auto simp: release_lua_def split_beta replies views)

lemma release_lua_view:
  "rd_view R (snd (release_lua R k h s)) =
     (if map_option fst (rd_view R s k) = Some h then (rd_view R s)(k := None)
      else rd_view R s)"
  by (auto simp: release_lua_def split_beta replies views)

lemmas lua = refresh_lua_reply refresh_lua_view release_lua_reply release_lua_view

lemma call_Some_True: "fst (call f c s) = Some True \<longleftrightarrow> f = Fine \<and> fst (c s)"
  by (cases f) (auto split: prod.splits)

lemma call_view:
  "rd_view R (snd (call f c s)) = (if f = FailBefore then rd_view R s else rd_view R (snd (c s)))"
  by (cases f) (auto split: prod.splits)

lemma acquire_simps:
  "fst (acquire R f i h t st) \<longleftrightarrow> f = Fine \<and> fst (rd_set_nx R (lease_key i) h t (l_srv st))"
  "l_srv (snd (acquire R f i h t st)) = snd (call f (rd_set_nx R (lease_key i) h t) (l_srv st))"
  by (cases f; simp add: acquire_def split_beta)+

lemma refresh_simps:
  "fst (refresh R f i h t st) \<longleftrightarrow> f = Fine \<and> fst (refresh_lua R (lease_key i) h t (l_srv st))"
  "l_srv (snd (refresh R f i h t st)) = snd (call f (refresh_lua R (lease_key i) h t) (l_srv st))"
  by (cases f; simp add: refresh_def split_beta)+

lemma release_simps:
  "fst (release R f i h st) \<longleftrightarrow> f = Fine \<and> fst (release_lua R (lease_key i) h (l_srv st))"
  "l_srv (snd (release R f i h st)) = snd (call f (release_lua R (lease_key i) h) (l_srv st))"
  by (cases f; simp add: release_def split_beta)+

end

text \<open>A chat's active lock, a turn's lease and a named leader lock, on any lawful Redis.\<close>

locale chat_lock = redis_laws R
  for R :: "('s, 'x) redis_scheme" +
  fixes chat_id :: int

sublocale chat_lock \<subseteq> active: ttl_lock
  "\<lambda>f turn s. try_acquire_active R f chat_id turn s" "\<lambda>f turn s. heartbeat_active R f chat_id turn s"
  "\<lambda>f turn s. release_active R f chat_id turn s" "rd_elapse R" "\<lambda>s. rd_view R s (active_key chat_id)"
  str_of_int LOCK_TTL_S
  by unfold_locales
    (auto simp: try_acquire_active_def heartbeat_active_def release_active_def split_beta Let_def
      call_Some_True call_view replies views)

context chat_lock
begin

lemmas active_exclusion = active.mutual_exclusion
lemmas active_granted = active.acq_true
lemmas active_kept = active.heartbeat_keeps

end

definition lease_elapse :: "('s, 'x) redis_scheme \<Rightarrow> nat \<Rightarrow> 's lease_state \<Rightarrow> 's lease_state" where
  "lease_elapse R n st = st\<lparr>l_srv := rd_elapse R n (l_srv st)\<rparr>"

locale turn_lease = redis_laws R
  for R :: "('s, 'x) redis_scheme" +
  fixes turn_id :: int and ttl :: nat

sublocale turn_lease \<subseteq> lease: ttl_lock
  "\<lambda>f h st. acquire R f turn_id h ttl st" "\<lambda>f h st. refresh R f turn_id h ttl st"
  "\<lambda>f h st. release R f turn_id h st" "lease_elapse R"
  "\<lambda>st. rd_view R (l_srv st) (lease_key turn_id)" "\<lambda>h. h" ttl
  by unfold_locales
    (auto simp: acquire_simps refresh_simps release_simps lease_elapse_def call_view lua replies views
      split_beta)

context turn_lease
begin

lemmas lease_exclusion = lease.mutual_exclusion
lemmas lease_granted = lease.acq_true
lemmas lease_kept = lease.heartbeat_keeps
lemmas lease_expires = lease.expires

end

locale leader_lock = redis_laws R
  for R :: "('s, 'x) redis_scheme" +
  fixes loop_name :: string and ttl :: nat

sublocale leader_lock \<subseteq> leader: ttl_lock
  "\<lambda>f h s. acquire_leader R f loop_name h ttl s" "\<lambda>f h s. refresh_leader R f loop_name h ttl s"
  "\<lambda>f h s. release_leader R f loop_name h s" "rd_elapse R"
  "\<lambda>s. rd_view R s (leader_key loop_name)" "\<lambda>h. h" ttl
  by unfold_locales
    (auto simp: acquire_leader_def refresh_leader_def release_leader_def split_beta
      call_Some_True call_view lua replies views)

context leader_lock
begin

lemmas leader_exclusion = leader.mutual_exclusion
lemmas leader_granted = leader.acq_true

end

interpretation mem_chat: chat_lock mem_redis chat_id for chat_id
  by (simp add: chat_lock_def mem.redis_laws_axioms)

interpretation mem_lease: turn_lease mem_redis turn_id ttl for turn_id ttl
  by (simp add: turn_lease_def mem.redis_laws_axioms)

interpretation mem_leader: leader_lock mem_redis loop_name ttl for loop_name ttl
  by (simp add: leader_lock_def mem.redis_laws_axioms)

section \<open>Properties\<close>

definition freed ::
  "('s, 'x) redis_scheme \<Rightarrow> (int \<times> string \<Rightarrow> fault) \<Rightarrow> (int \<times> string) list \<Rightarrow> 's \<Rightarrow> string \<Rightarrow> bool" where
  "freed R fs xs s k \<longleftrightarrow> (\<exists>i h. (i, h) \<in> set xs \<and> fs (i, h) \<noteq> FailBefore \<and> k = lease_key i \<and>
     map_option fst (rd_view R s k) = Some h)"

context redis_laws
begin

lemma release_each_active:
  "set (l_active (snd (release_each R fs xs n st))) =
     set (l_active st) - {x \<in> set xs. fs x = Fine}"
proof (induction xs arbitrary: n st)
  case (Cons x xs)
  obtain i h where x: "x = (i, h)" by (cases x)
  show ?case by (cases "fs (i, h)") (auto simp: x Cons split_beta)
qed simp

lemma release_one_view:
  "rd_view R (snd (call f (release_lua R (lease_key i) h) s)) k =
     (if f \<noteq> FailBefore \<and> k = lease_key i \<and> map_option fst (rd_view R s k) = Some h
      then None else rd_view R s k)"
  by (auto simp: call_view lua)

lemma release_each_view:
  "rd_view R (l_srv (snd (release_each R fs xs n st))) k =
     (if freed R fs xs (l_srv st) k then None else rd_view R (l_srv st) k)"
proof (induction xs arbitrary: n st)
  case Nil
  then show ?case by (simp add: freed_def)
next
  case (Cons x xs)
  obtain i h where x: "x = (i, h)" by (cases x)
  define c where "c = call (fs (i, h)) (release_lua R (lease_key i) h) (l_srv st)"
  have step: "\<exists>n' st'. release_each R fs (x # xs) n st = release_each R fs xs n' st' \<and> l_srv st' = snd c"
    by (cases "fst c") (simp_all add: x c_def split_beta, (intro impI conjI exI refl | simp)+)
  have "freed R fs (x # xs) (l_srv st) k \<longleftrightarrow>
      (fs (i, h) \<noteq> FailBefore \<and> k = lease_key i \<and> map_option fst (rd_view R (l_srv st) k) = Some h)
      \<or> freed R fs xs (l_srv st) k"
    by (auto simp: freed_def x)
  moreover have "freed R fs xs (snd c) k \<longleftrightarrow> freed R fs xs (l_srv st) k \<and> rd_view R (snd c) k \<noteq> None"
    using release_one_view [of "fs (i, h)" i h "l_srv st" k] by (auto simp: freed_def c_def)
  ultimately show ?case
    using step Cons [where n = _] release_one_view [of "fs (i, h)" i h "l_srv st" k]
    by (auto simp: c_def split: if_splits)
qed

end


definition demo_lease_ops :: "string lock_op list" where
  "demo_lease_ops = [LAcquire Fine ''w2'', LElapse 12, LRefresh Fine ''w2'', LRelease FailAfter ''w3'',
     LElapse 17, LAcquire FailAfter ''w3'']"


text \<open>
  The chat lock excludes. While one turn is inside \<open>hold_turn_locks\<close> with outcome
  ACQUIRED, no other turn of the chat acquires, refreshes or releases the lock before the 30
  seconds of its time to live have passed.
\<close>

theorem active_lock_exclusive:
  assumes "redis_laws R" "fst (hold_enter R f g chat turn s) = ACQUIRED"
    and "\<forall>op \<in> set ops. \<not> releases turn op" "sum_list (map elapsed ops) < LOCK_TTL_S"
  defines "res \<equiv> lock_run (\<lambda>f turn s. try_acquire_active R f chat turn s)
    (\<lambda>f turn s. heartbeat_active R f chat turn s) (\<lambda>f turn s. release_active R f chat turn s)
    (rd_elapse R) ops (snd (hold_enter R f g chat turn s))"
  shows "(\<forall>x \<in> set (fst res). \<not> intrudes turn x) \<and>
    map_option fst (rd_view R (snd res) (active_key chat)) = Some (str_of_int turn)"
proof -
  have L: "chat_lock R" using assms(1) by (simp add: chat_lock_def)
  have e: "fst (try_acquire_active R f chat turn s)"
    "snd (hold_enter R f g chat turn s) = snd (try_acquire_active R f chat turn s)"
    using assms(2) by (auto simp: hold_enter_def split_beta Let_def split: if_splits)
  have "rd_view R (snd (hold_enter R f g chat turn s)) (active_key chat) =
      Some (str_of_int turn, Some LOCK_TTL_S)"
    using chat_lock.active_granted [OF L e(1)] e(2) by simp
  from chat_lock.active_exclusion [OF L this order.refl assms(3,4)] show ?thesis
    unfolding res_def by auto
qed

theorem active_lock_exclusive_witness:
  "map_option fst (rd_view mem_redis (snd (lock_run
     (\<lambda>f turn s. try_acquire_active mem_redis f 7 turn s)
     (\<lambda>f turn s. heartbeat_active mem_redis f 7 turn s)
     (\<lambda>f turn s. release_active mem_redis f 7 turn s) (rd_elapse mem_redis)
     [LAcquire Fine 6, LElapse 29, LRelease Fine 6]
     (snd (hold_enter mem_redis Fine Fine 7 5 Map.empty)))) (active_key 7)) = Some (str_of_int 5)"
  using active_lock_exclusive [OF mem.redis_laws_axioms, of Fine Fine 7 5 Map.empty
      "[LAcquire Fine 6, LElapse 29, LRelease Fine 6]"]
  by (simp add: hold_enter_def try_acquire_active_def mem_redis_def LOCK_TTL_S_def)

text \<open>
  What the outcome of \<open>hold_turn_locks\<close> tells. With both Redis calls answered, ACQUIRED
  means the lock was free, REDELIVERY that this very turn held it, ACTIVE_BUSY that another
  holder did. But when Redis executes the SET and the reply is lost, the caller reads its own
  write: the outcome is REDELIVERY although nobody runs the turn, and the lock stays set.
\<close>

theorem hold_enter_outcome:
  assumes "redis_laws R"
  shows "fst (hold_enter R Fine Fine chat turn s) =
      (case rd_view R s (active_key chat) of
         None \<Rightarrow> ACQUIRED
       | Some (v, _) \<Rightarrow> if v = str_of_int turn then REDELIVERY else ACTIVE_BUSY) \<and>
    (rd_view R s (active_key chat) = None \<longrightarrow>
      fst (hold_enter R FailAfter Fine chat turn s) = REDELIVERY \<and>
      rd_view R (hold_exit R Fine REDELIVERY chat turn (snd (hold_enter R FailAfter Fine chat turn s)))
        (active_key chat) = Some (str_of_int turn, Some LOCK_TTL_S))"
  using assms
  by (auto simp: hold_enter_def hold_exit_def try_acquire_active_def active_lock_value_def split_beta
      Let_def redis_laws.replies redis_laws.views split: option.splits)

theorem hold_enter_outcome_witness:
  "fst (hold_enter mem_redis FailAfter Fine 7 5 Map.empty) = REDELIVERY"
  using hold_enter_outcome [OF mem.redis_laws_axioms, of 7 5 Map.empty]
  by (simp add: mem_redis_def)

text \<open>
  Graceful shutdown. \<open>release_all_local\<close> removes from Redis exactly the leases of its own
  registry that this process still holds and whose command reached Redis, touches no other
  key, and keeps registered exactly the leases whose command raised.
\<close>

theorem release_all_local_exact:
  assumes "redis_laws R"
  shows "set (l_active (snd (release_all_local R fs st))) = {x \<in> set (l_active st). fs x \<noteq> Fine} \<and>
    rd_view R (l_srv (snd (release_all_local R fs st))) k =
      (if \<exists>i h. (i, h) \<in> set (l_active st) \<and> fs (i, h) \<noteq> FailBefore \<and> k = lease_key i \<and>
          map_option fst (rd_view R (l_srv st) k) = Some h
       then None else rd_view R (l_srv st) k)"
  using redis_laws.release_each_active [OF assms] redis_laws.release_each_view [OF assms]
  by (auto simp: release_all_local_def freed_def)

theorem release_all_local_exact_witness:
  "set (l_active (snd (release_all_local mem_redis (\<lambda>_. Fine)
     \<lparr>l_srv = [lease_key 4 \<mapsto> (''w1'', Some 30)], l_active = [(4, ''w1'')]\<rparr>))) = {}"
  using release_all_local_exact [OF mem.redis_laws_axioms, of "\<lambda>_. Fine"
      "\<lparr>l_srv = [lease_key 4 \<mapsto> (''w1'', Some 30)], l_active = [(4, ''w1'')]\<rparr>"]
  by simp

text \<open>
  The heartbeat outruns the clock. A worker that refreshes its lease every 10 seconds
  keeps the 30-second lease for any number of rounds, whatever the other workers try in
  between.
\<close>

theorem lease_heartbeat_keeps:
  assumes "redis_laws R" "fst (acquire R f i h LEASE_TTL_S st)"
    and "\<forall>(n, others) \<in> set rounds. n = 10 \<and> (\<forall>op \<in> set others. \<not> releases h op \<and> elapsed op = 0)"
  shows "fst (beats (\<lambda>f h st. acquire R f i h LEASE_TTL_S st) (\<lambda>f h st. refresh R f i h LEASE_TTL_S st)
    (\<lambda>f h st. release R f i h st) (lease_elapse R) h rounds (snd (acquire R f i h LEASE_TTL_S st)))"
proof -
  have L: "turn_lease R" using assms(1) by (simp add: turn_lease_def)
  have "\<forall>(n, others) \<in> set rounds.
      n < LEASE_TTL_S \<and> (\<forall>op \<in> set others. \<not> releases h op \<and> elapsed op = 0)"
    using assms(3) by (auto simp: LEASE_TTL_S_def)
  with turn_lease.lease_kept [OF L, of "snd (acquire R f i h LEASE_TTL_S st)" i h LEASE_TTL_S rounds]
    turn_lease.lease_granted [OF L assms(2)] show ?thesis by blast
qed

theorem lease_heartbeat_keeps_witness:
  "fst (beats (\<lambda>f h st. acquire mem_redis f 4 h LEASE_TTL_S st)
    (\<lambda>f h st. refresh mem_redis f 4 h LEASE_TTL_S st) (\<lambda>f h st. release mem_redis f 4 h st)
    (lease_elapse mem_redis) ''w1'' [(10, [LAcquire Fine ''w2'']), (10, []), (10, []), (10, [])]
    (snd (acquire mem_redis Fine 4 ''w1'' LEASE_TTL_S \<lparr>l_srv = Map.empty, l_active = []\<rparr>)))"
  by (rule lease_heartbeat_keeps [OF mem.redis_laws_axioms])
    (simp_all add: acquire_def mem_redis_def)

end
