(* ===== verification/Json.thy ===== *)
theory Json
  imports Prelude
begin

text \<open>
  JSON values as the Python objects \<open>orjson\<close> turns them into, the dictionary and attribute
  accesses the code makes on them with the exceptions they raise, and the sequencing of
  computations that may raise.
\<close>

section \<open>Computations that may raise\<close>

datatype py_exn =
    KeyError string
  | TypeError string
  | AttributeError string
  | ValidationError string

type_synonym 'a py = "py_exn + 'a"

definition bind_py :: "'a py \<Rightarrow> ('a \<Rightarrow> 'b py) \<Rightarrow> 'b py" where
  "bind_py m k = (case m of Inl e \<Rightarrow> Inl e | Inr a \<Rightarrow> k a)"

lemma bind_py_simps [simp]:
  "bind_py (Inl e) k = Inl e"
  "bind_py (Inr a) k = k a"
  by (simp_all add: bind_py_def)

lemma bind_py_Inr: "bind_py m k = Inr b \<longleftrightarrow> (\<exists>a. m = Inr a \<and> k a = Inr b)"
  by (cases m) simp_all

fun map_py :: "('a \<Rightarrow> 'b py) \<Rightarrow> 'a list \<Rightarrow> 'b list py" where
  "map_py f [] = Inr []"
| "map_py f (x # xs) = bind_py (f x) (\<lambda>y. bind_py (map_py f xs) (\<lambda>ys. Inr (y # ys)))"

lemma map_py_Inr: "(\<And>x. x \<in> set xs \<Longrightarrow> f (g x) = Inr x) \<Longrightarrow> map_py f (map g xs) = Inr xs"
  by (induction xs) auto

section \<open>Values\<close>

datatype json =
    JNull
  | JBool bool
  | JInt int
  | JFloat real
  | JStr string
  | JList "json list"
  | JObj "(string \<times> json) list"

abbreviation jget :: "(string \<times> json) list \<Rightarrow> string \<Rightarrow> json option" where
  "jget kv k \<equiv> map_of kv k"

fun truthy :: "json \<Rightarrow> bool" where
  "truthy JNull = False"
| "truthy (JBool b) = b"
| "truthy (JInt i) = (i \<noteq> 0)"
| "truthy (JFloat r) = (r \<noteq> 0)"
| "truthy (JStr s) = (s \<noteq> [])"
| "truthy (JList xs) = (xs \<noteq> [])"
| "truthy (JObj kv) = (kv \<noteq> [])"

fun is_obj :: "json \<Rightarrow> bool" where
  "is_obj (JObj kv) = True"
| "is_obj _ = False"

fun as_obj :: "json \<Rightarrow> (string \<times> json) list option" where
  "as_obj (JObj kv) = Some kv"
| "as_obj _ = None"

fun as_str :: "json \<Rightarrow> string option" where
  "as_str (JStr s) = Some s"
| "as_str _ = None"

lemma as_str_Some [simp]: "as_str j = Some s \<longleftrightarrow> j = JStr s"
  by (cases j) auto

lemma as_obj_Some [simp]: "as_obj j = Some kv \<longleftrightarrow> j = JObj kv"
  by (cases j) auto

text \<open>\<open>v["k"]\<close>: KeyError on a dictionary without the key, TypeError on anything else.\<close>

fun get_item :: "json \<Rightarrow> string \<Rightarrow> json py" where
  "get_item (JObj kv) k = (case jget kv k of None \<Rightarrow> Inl (KeyError k) | Some v \<Rightarrow> Inr v)"
| "get_item _ k = Inl (TypeError k)"

text \<open>\<open>v.get("k")\<close>, with \<open>None\<close> for an absent key; only dictionaries have the method.\<close>

fun get_opt :: "json \<Rightarrow> string \<Rightarrow> json option py" where
  "get_opt (JObj kv) k = Inr (jget kv k)"
| "get_opt _ k = Inl (AttributeError ''get'')"

definition get_or :: "json \<Rightarrow> string \<Rightarrow> json \<Rightarrow> json py" where
  "get_or v k dflt = bind_py (get_opt v k) (\<lambda>r. Inr (case r of None \<Rightarrow> dflt | Some j \<Rightarrow> j))"

definition get_none :: "json \<Rightarrow> string \<Rightarrow> json py" where
  "get_none v k = get_or v k JNull"

lemma get_or_obj [simp]: "get_or (JObj kv) k dflt = Inr (case jget kv k of None \<Rightarrow> dflt | Some j \<Rightarrow> j)"
  by (simp add: get_or_def)

lemma get_none_obj [simp]: "get_none (JObj kv) k = Inr (case jget kv k of None \<Rightarrow> JNull | Some j \<Rightarrow> j)"
  by (simp add: get_none_def)

text \<open>A field declared \<open>str\<close>, and one declared \<open>str | None\<close>, of a validated model.\<close>

definition str_field :: "json \<Rightarrow> string py" where
  "str_field j = (case as_str j of None \<Rightarrow> Inl (ValidationError ''string_type'') | Some s \<Rightarrow> Inr s)"

definition opt_str_field :: "json \<Rightarrow> string option py" where
  "opt_str_field j =
     (case j of JNull \<Rightarrow> Inr None | _ \<Rightarrow> bind_py (str_field j) (\<lambda>s. Inr (Some s)))"

definition dict_field :: "json \<Rightarrow> json py" where
  "dict_field j = (if is_obj j then Inr j else Inl (ValidationError ''dict_type''))"

definition opt_json :: "string option \<Rightarrow> json" where
  "opt_json v = (case v of None \<Rightarrow> JNull | Some s \<Rightarrow> JStr s)"

lemma field_simps [simp]:
  "str_field (JStr s) = Inr s"
  "opt_str_field JNull = Inr None"
  "opt_str_field (JStr s) = Inr (Some s)"
  "dict_field (JObj kv) = Inr (JObj kv)"
  by (simp_all add: str_field_def opt_str_field_def dict_field_def)

lemma opt_str_field_opt_json [simp]: "opt_str_field (opt_json v) = Inr v"
  by (cases v) (simp_all add: opt_json_def)

text \<open>
  \<open>for x in v\<close>: a list gives its elements, a dictionary its keys, a string its characters;
  nothing else can be iterated. Lists and dictionaries cannot be hashed.
\<close>

fun iter_json :: "json \<Rightarrow> json list py" where
  "iter_json (JList xs) = Inr xs"
| "iter_json (JObj kv) = Inr (map (JStr \<circ> fst) kv)"
| "iter_json (JStr s) = Inr (map (\<lambda>c. JStr [c]) s)"
| "iter_json _ = Inl (TypeError ''iter'')"

fun hashable :: "json \<Rightarrow> bool" where
  "hashable (JList xs) = False"
| "hashable (JObj kv) = False"
| "hashable _ = True"

definition require_hash :: "json \<Rightarrow> unit py" where
  "require_hash j = (if hashable j then Inr () else Inl (TypeError ''unhashable''))"

text \<open>\<open>v or w\<close>\<close>

definition or_else :: "json \<Rightarrow> json \<Rightarrow> json" where
  "or_else v w = (if truthy v then v else w)"

definition of_null :: "json option \<Rightarrow> json" where
  "of_null v = (case v of None \<Rightarrow> JNull | Some j \<Rightarrow> j)"

lemma of_null_simps [simp]: "of_null None = JNull" "of_null (Some j) = j"
  by (simp_all add: of_null_def)

lemma require_hash_JStr [simp]: "require_hash (JStr s) = Inr ()"
  by (simp add: require_hash_def)

text \<open>\<open>extra="forbid"\<close>: a key outside the declared fields is a validation error.\<close>

definition forbid_extra :: "string list \<Rightarrow> (string \<times> json) list \<Rightarrow> unit py" where
  "forbid_extra fields kv =
     (if \<forall>k \<in> set (map fst kv). k \<in> set fields then Inr ()
      else Inl (ValidationError ''extra_forbidden''))"

definition required :: "(string \<times> json) list \<Rightarrow> string \<Rightarrow> json py" where
  "required kv k = (case jget kv k of None \<Rightarrow> Inl (ValidationError ''missing'') | Some v \<Rightarrow> Inr v)"

end
