(* ===== verification/Codex_Events.thy ===== *)
theory Codex_Events
  imports Json Turn_Model
begin

text \<open>
  The typed chat events of \<open>app/services/codex/events/types.py\<close>, their wire frames
  (\<open>event_to_frame\<close>, \<open>frame_to_event\<close>) with the validation the models perform, and the
  round trip between the two.
\<close>

section \<open>Event types\<close>

datatype attachment_kind = IMAGE | AUDIO | FILE

fun kind_value :: "attachment_kind \<Rightarrow> string" where
  "kind_value IMAGE = ''image''"
| "kind_value AUDIO = ''audio''"
| "kind_value FILE = ''file''"

record attachment =
  att_kind :: attachment_kind
  att_source :: string
  att_caption :: string

record tool_error =
  te_message :: string
  te_code :: "string option"

datatype chat_event =
    TokenEvent string
  | ToolCallEvent string json
  | ToolResultEvent string string "attachment list" "tool_error option"
  | DoneEvent string
  | ErrorEvent string "string option"

fun type_tag :: "chat_event \<Rightarrow> string" where
  "type_tag (TokenEvent d) = ''token''"
| "type_tag (ToolCallEvent n a) = ''tool_call''"
| "type_tag (ToolResultEvent n t a e) = ''tool_result''"
| "type_tag (DoneEvent t) = ''done''"
| "type_tag (ErrorEvent c d) = ''error''"

text \<open>The \<open>mode="before"\<close> validator of \<open>ToolResultEvent.error\<close>, then the model itself.\<close>

definition coerce_error :: "json \<Rightarrow> json" where
  "coerce_error raw =
     (case raw of
        JNull \<Rightarrow> JNull
      | JStr s \<Rightarrow> if s = [] then JNull else JObj [(''message'', JStr s)]
      | _ \<Rightarrow> raw)"

definition tool_error_model :: "json \<Rightarrow> tool_error py" where
  "tool_error_model j =
     (case as_obj j of
        None \<Rightarrow> Inl (ValidationError ''model_type'')
      | Some kv \<Rightarrow>
          bind_py (required kv ''message'') (\<lambda>m. bind_py (str_field m) (\<lambda>msg.
          bind_py (opt_str_field (case jget kv ''code'' of None \<Rightarrow> JNull | Some c \<Rightarrow> c)) (\<lambda>code.
          Inr \<lparr>te_message = msg, te_code = code\<rparr>))))"

definition error_field :: "json \<Rightarrow> tool_error option py" where
  "error_field raw =
     (case coerce_error raw of
        JNull \<Rightarrow> Inr None
      | j \<Rightarrow> bind_py (tool_error_model j) (\<lambda>e. Inr (Some e)))"

section \<open>Frames\<close>

definition attachment_dump :: "attachment \<Rightarrow> json" where
  "attachment_dump a = JObj [(''kind'', JStr (kind_value (att_kind a))),
     (''source'', JStr (att_source a)), (''caption'', JStr (att_caption a))]"

definition tool_error_dump :: "tool_error \<Rightarrow> json" where
  "tool_error_dump e = JObj [(''message'', JStr (te_message e)), (''code'', opt_json (te_code e))]"

fun model_dump :: "chat_event \<Rightarrow> (string \<times> json) list" where
  "model_dump (TokenEvent d) = [(''delta'', JStr d)]"
| "model_dump (ToolCallEvent n a) = [(''name'', JStr n), (''args'', a)]"
| "model_dump (ToolResultEvent n t as e) =
     [(''name'', JStr n), (''text'', JStr t), (''attachments'', JList (map attachment_dump as)),
      (''error'', case e of None \<Rightarrow> JNull | Some x \<Rightarrow> tool_error_dump x)]"
| "model_dump (DoneEvent t) = [(''final_text'', JStr t)]"
| "model_dump (ErrorEvent c d) = [(''code'', JStr c), (''detail'', opt_json d)]"

definition event_to_frame :: "chat_event \<Rightarrow> (string \<times> json) list" where
  "event_to_frame ev = (''type'', JStr (type_tag ev)) # model_dump ev"

definition kind_field :: "json \<Rightarrow> attachment_kind py" where
  "kind_field j =
     (if j = JStr ''image'' then Inr IMAGE
      else if j = JStr ''audio'' then Inr AUDIO
      else if j = JStr ''file'' then Inr FILE
      else Inl (ValidationError ''enum''))"

definition attachment_model :: "json \<Rightarrow> attachment py" where
  "attachment_model j =
     (case as_obj j of
        None \<Rightarrow> Inl (ValidationError ''model_type'')
      | Some kv \<Rightarrow>
          bind_py (forbid_extra [''kind'', ''source'', ''caption''] kv) (\<lambda>_.
          bind_py (required kv ''kind'') (\<lambda>k. bind_py (kind_field k) (\<lambda>kind.
          bind_py (required kv ''source'') (\<lambda>s. bind_py (str_field s) (\<lambda>src.
          bind_py (str_field (case jget kv ''caption'' of None \<Rightarrow> JStr '''' | Some c \<Rightarrow> c)) (\<lambda>cap.
          Inr \<lparr>att_kind = kind, att_source = src, att_caption = cap\<rparr>)))))))"

definition attachments_field :: "json \<Rightarrow> attachment list py" where
  "attachments_field j =
     (case j of
        JList xs \<Rightarrow> map_py attachment_model xs
      | _ \<Rightarrow> Inl (ValidationError ''tuple_type''))"

text \<open>\<open>cls.model_validate(payload)\<close> for the class the tag selects.\<close>

definition model_validate :: "string \<Rightarrow> (string \<times> json) list \<Rightarrow> chat_event py" where
  "model_validate tag kv =
     (if tag = ''token'' then
        bind_py (forbid_extra [''delta''] kv) (\<lambda>_. bind_py (required kv ''delta'') (\<lambda>d.
        bind_py (str_field d) (\<lambda>delta. Inr (TokenEvent delta))))
      else if tag = ''tool_call'' then
        bind_py (forbid_extra [''name'', ''args''] kv) (\<lambda>_. bind_py (required kv ''name'') (\<lambda>n.
        bind_py (str_field n) (\<lambda>name. bind_py (required kv ''args'') (\<lambda>a.
        bind_py (dict_field a) (\<lambda>args. Inr (ToolCallEvent name args))))))
      else if tag = ''tool_result'' then
        bind_py (forbid_extra [''name'', ''text'', ''attachments'', ''error''] kv) (\<lambda>_.
        bind_py (required kv ''name'') (\<lambda>n. bind_py (str_field n) (\<lambda>name.
        bind_py (str_field (case jget kv ''text'' of None \<Rightarrow> JStr '''' | Some t \<Rightarrow> t)) (\<lambda>text.
        bind_py (case jget kv ''attachments'' of None \<Rightarrow> Inr [] | Some a \<Rightarrow> attachments_field a) (\<lambda>atts.
        bind_py (case jget kv ''error'' of None \<Rightarrow> Inr None | Some e \<Rightarrow> error_field e) (\<lambda>err.
        Inr (ToolResultEvent name text atts err)))))))
      else if tag = ''done'' then
        bind_py (forbid_extra [''final_text''] kv) (\<lambda>_. bind_py (required kv ''final_text'') (\<lambda>t.
        bind_py (str_field t) (\<lambda>text. Inr (DoneEvent text))))
      else if tag = ''error'' then
        bind_py (forbid_extra [''code'', ''detail''] kv) (\<lambda>_. bind_py (required kv ''code'') (\<lambda>c.
        bind_py (str_field c) (\<lambda>code.
        bind_py (opt_str_field (case jget kv ''detail'' of None \<Rightarrow> JNull | Some d \<Rightarrow> d)) (\<lambda>detail.
        Inr (ErrorEvent code detail)))))
      else Inl (KeyError tag))"

definition frame_to_event :: "(string \<times> json) list \<Rightarrow> chat_event py" where
  "frame_to_event frame =
     bind_py (get_item (JObj frame) ''type'') (\<lambda>t.
       case as_str t of
         None \<Rightarrow> Inl (KeyError ''type'')
       | Some tag \<Rightarrow> model_validate tag (filter (\<lambda>(k, _). k \<noteq> ''type'') frame))"

lemma kind_field_value [simp]: "kind_field (JStr (kind_value k)) = Inr k"
  by (cases k) (simp_all add: kind_field_def)

lemma attachment_round_trip: "attachment_model (attachment_dump a) = Inr a"
  by (simp add: attachment_model_def attachment_dump_def forbid_extra_def required_def)

lemma error_field_round_trip:
  "error_field (case e of None \<Rightarrow> JNull | Some x \<Rightarrow> tool_error_dump x) = Inr e"
  by (cases e) (simp_all add: error_field_def coerce_error_def tool_error_dump_def
      tool_error_model_def required_def)

text \<open>The events whose tool arguments are a dictionary, as the type annotation requires.\<close>

definition well_typed :: "chat_event \<Rightarrow> bool" where
  "well_typed ev = (case ev of ToolCallEvent n a \<Rightarrow> is_obj a | _ \<Rightarrow> True)"

text \<open>
  C14: an event written to the bus as a frame is read back as the same event.
\<close>

theorem frame_round_trip: "well_typed ev \<Longrightarrow> frame_to_event (event_to_frame ev) = Inr ev"
proof (cases ev)
  case (ToolCallEvent n a)
  assume "well_typed ev"
  with ToolCallEvent obtain kv where "a = JObj kv" by (cases a) (auto simp: well_typed_def)
  with ToolCallEvent show ?thesis
    by (simp add: frame_to_event_def event_to_frame_def model_validate_def forbid_extra_def
        required_def)
next
  case (ToolResultEvent n t as e)
  then show ?thesis
    using map_py_Inr [of as attachment_model attachment_dump] attachment_round_trip
      error_field_round_trip [of e]
    by (simp add: frame_to_event_def event_to_frame_def model_validate_def forbid_extra_def
        required_def attachments_field_def)
qed (simp_all add: frame_to_event_def event_to_frame_def model_validate_def forbid_extra_def
    required_def)

lemma frame_round_trip_witness:
  "frame_to_event (event_to_frame (ToolCallEvent ''shell'' (JObj [(''command'', JStr ''ls'')]))) =
     Inr (ToolCallEvent ''shell'' (JObj [(''command'', JStr ''ls'')]))"
  using frame_round_trip [of "ToolCallEvent ''shell'' (JObj [(''command'', JStr ''ls'')])"]
  by (simp add: well_typed_def)

end
