(* ===== verification/Codex_Translate.thy ===== *)
theory Codex_Translate
  imports Codex_Events
begin

text \<open>
  The translation of sidecar notifications into typed chat events
  (\<open>app/services/codex/events/translate.py\<close>) and the per-turn accumulator of
  \<open>app/services/codex/collector.py\<close>. The JSON parser \<open>orjson\<close>, the system's MIME table and
  \<open>str\<close> of a compound JSON value are the parameter \<open>codec\<close>.
\<close>

record codec =
  loads :: "string \<Rightarrow> json option"
  guess_mime :: "string \<Rightarrow> string option"
  py_repr :: "json \<Rightarrow> string"

section \<open>Notifications and items\<close>

datatype codex_notif = TURN_STARTED | TURN_COMPLETED | AGENT_MSG_DELTA | ITEM_STARTED | ITEM_COMPLETED

fun notif_value :: "codex_notif \<Rightarrow> string" where
  "notif_value TURN_STARTED = ''turn/started''"
| "notif_value TURN_COMPLETED = ''turn/completed''"
| "notif_value AGENT_MSG_DELTA = ''item/agentMessage/delta''"
| "notif_value ITEM_STARTED = ''item/started''"
| "notif_value ITEM_COMPLETED = ''item/completed''"

record notification =
  n_method :: string
  n_params :: "(string \<times> json) list"
  n_turn :: "string option"

datatype codex_item =
    AGENT_MESSAGE | USER_MESSAGE | HOOK_PROMPT | PLAN | REASONING | COMMAND_EXECUTION
  | FILE_CHANGE | MCP_TOOL_CALL | DYNAMIC_TOOL_CALL | COLLAB_AGENT_TOOL_CALL | WEB_SEARCH
  | IMAGE_VIEW | IMAGE_GENERATION | ENTERED_REVIEW_MODE | EXITED_REVIEW_MODE | CONTEXT_COMPACTION

fun item_value :: "codex_item \<Rightarrow> string" where
  "item_value AGENT_MESSAGE = ''agentMessage''"
| "item_value USER_MESSAGE = ''userMessage''"
| "item_value HOOK_PROMPT = ''hookPrompt''"
| "item_value PLAN = ''plan''"
| "item_value REASONING = ''reasoning''"
| "item_value COMMAND_EXECUTION = ''commandExecution''"
| "item_value FILE_CHANGE = ''fileChange''"
| "item_value MCP_TOOL_CALL = ''mcpToolCall''"
| "item_value DYNAMIC_TOOL_CALL = ''dynamicToolCall''"
| "item_value COLLAB_AGENT_TOOL_CALL = ''collabAgentToolCall''"
| "item_value WEB_SEARCH = ''webSearch''"
| "item_value IMAGE_VIEW = ''imageView''"
| "item_value IMAGE_GENERATION = ''imageGeneration''"
| "item_value ENTERED_REVIEW_MODE = ''enteredReviewMode''"
| "item_value EXITED_REVIEW_MODE = ''exitedReviewMode''"
| "item_value CONTEXT_COMPACTION = ''contextCompaction''"

definition hidden_items :: "string set" where
  "hidden_items = {item_value USER_MESSAGE, item_value HOOK_PROMPT, item_value PLAN,
     item_value REASONING, item_value COLLAB_AGENT_TOOL_CALL, item_value ENTERED_REVIEW_MODE,
     item_value EXITED_REVIEW_MODE, item_value CONTEXT_COMPACTION}"

section \<open>Extracting arguments, text and attachments from an item\<close>

text \<open>\<open>str(c)\<close> of a JSON value.\<close>

fun py_str :: "codec \<Rightarrow> json \<Rightarrow> string" where
  "py_str C (JStr s) = s"
| "py_str C JNull = ''None''"
| "py_str C (JBool True) = ''True''"
| "py_str C (JBool False) = ''False''"
| "py_str C (JInt i) = str_of_int i"
| "py_str C j = py_repr C j"

definition command_args :: "codec \<Rightarrow> json \<Rightarrow> json py" where
  "command_args C item = bind_py (get_item item ''command'') (\<lambda>cmd.
     Inr (JObj [(''command'', case cmd of
        JList cs \<Rightarrow> JStr (join_with '' '' (map (py_str C) cs))
      | _ \<Rightarrow> cmd)]))"

definition image_attachment :: "json \<Rightarrow> string \<Rightarrow> attachment list py" where
  "image_attachment source caption =
     bind_py (str_field source) (\<lambda>s. Inr [\<lparr>att_kind = IMAGE, att_source = s, att_caption = caption\<rparr>])"

definition attachment_from_dict :: "codec \<Rightarrow> (string \<times> json) list \<Rightarrow> attachment option" where
  "attachment_from_dict C data =
     (case jget data ''path'' of
        Some (JStr path) \<Rightarrow>
          if path = [] then None
          else (case guess_mime C path of
                  None \<Rightarrow> None
                | Some mime \<Rightarrow>
                    if \<not> prefix ''image/'' mime then None
                    else Some \<lparr>att_kind = IMAGE, att_source = path,
                      att_caption = (case jget data ''caption'' of Some (JStr c) \<Rightarrow> c | _ \<Rightarrow> [])\<rparr>)
      | _ \<Rightarrow> None)"

text \<open>The attachment one text block of an MCP result carries, if any.\<close>

definition block_attachment :: "codec \<Rightarrow> json \<Rightarrow> attachment option" where
  "block_attachment C block =
     (case block of
        JObj kv \<Rightarrow>
          if jget kv ''type'' \<noteq> Some (JStr ''text'') then None
          else (case or_else (of_null (jget kv ''text'')) (JStr []) of
                  JStr text \<Rightarrow> (case loads C text of
                      Some (JObj data) \<Rightarrow> attachment_from_dict C data
                    | _ \<Rightarrow> None)
                | _ \<Rightarrow> None)
      | _ \<Rightarrow> None)"

fun first_attachment :: "codec \<Rightarrow> json list \<Rightarrow> attachment list" where
  "first_attachment C [] = []"
| "first_attachment C (b # bs) =
     (case block_attachment C b of None \<Rightarrow> first_attachment C bs | Some a \<Rightarrow> [a])"

definition mcp_attachments :: "codec \<Rightarrow> json \<Rightarrow> attachment list py" where
  "mcp_attachments C item = bind_py (get_none item ''result'') (\<lambda>result.
     case result of
       JObj res \<Rightarrow>
         (case (case jget res ''structuredContent'' of
                  Some (JObj st) \<Rightarrow> attachment_from_dict C st
                | _ \<Rightarrow> None) of
            Some a \<Rightarrow> Inr [a]
          | None \<Rightarrow>
              bind_py (iter_json (or_else (of_null (jget res ''content'')) (JList [])))
                (\<lambda>blocks. Inr (first_attachment C blocks)))
     | _ \<Rightarrow> Inr [])"

section \<open>Builtin items\<close>

text \<open>\<open>_MCP_TOOL_LABELS\<close> is empty in the code: the lookup only requires a hashable key.\<close>

definition mcp_label :: "json \<Rightarrow> json py" where
  "mcp_label item = bind_py (get_none item ''tool'') (\<lambda>t.
     let tool = or_else t (JStr ''mcp'') in bind_py (require_hash tool) (\<lambda>_. Inr tool))"

record builtin_spec =
  bs_label :: "json \<Rightarrow> json py"
  bs_args :: "json \<Rightarrow> json py"
  bs_text :: "json \<Rightarrow> json py"
  bs_atts :: "json \<Rightarrow> attachment list py"

definition plain_spec :: "string \<Rightarrow> builtin_spec" where
  "plain_spec label = \<lparr>bs_label = (\<lambda>_. Inr (JStr label)), bs_args = (\<lambda>_. Inr (JObj [])),
     bs_text = (\<lambda>_. Inr (JStr [])), bs_atts = (\<lambda>_. Inr [])\<rparr>"

definition field_arg :: "string \<Rightarrow> json \<Rightarrow> json py" where
  "field_arg k item = bind_py (get_item item k) (\<lambda>v. Inr (JObj [(k, v)]))"

definition builtins :: "codec \<Rightarrow> string \<Rightarrow> builtin_spec option" where
  "builtins C t =
     (if t = item_value COMMAND_EXECUTION then
        Some ((plain_spec ''shell'')\<lparr>bs_args := command_args C,
          bs_text := (\<lambda>item. bind_py (get_none item ''aggregatedOutput'') (\<lambda>v. Inr (or_else v (JStr []))))\<rparr>)
      else if t = item_value FILE_CHANGE then
        Some ((plain_spec ''file_change'')\<lparr>bs_args := field_arg ''changes''\<rparr>)
      else if t = item_value WEB_SEARCH then
        Some ((plain_spec ''web_search'')\<lparr>bs_args := field_arg ''query''\<rparr>)
      else if t = item_value MCP_TOOL_CALL then
        Some ((plain_spec [])\<lparr>bs_label := mcp_label,
          bs_args := (\<lambda>item. bind_py (get_item item ''server'') (\<lambda>s.
             bind_py (get_item item ''tool'') (\<lambda>t. Inr (JObj [(''server'', s), (''tool'', t)])))),
          bs_atts := mcp_attachments C\<rparr>)
      else if t = item_value IMAGE_GENERATION then
        Some ((plain_spec ''image_generation'')\<lparr>
          bs_args := (\<lambda>item. bind_py (get_or item ''revisedPrompt'' (JStr [])) (\<lambda>p. Inr (JObj [(''prompt'', p)]))),
          bs_text := (\<lambda>item. get_or item ''revisedPrompt'' (JStr [])),
          bs_atts := (\<lambda>item. bind_py (get_none item ''savedPath'') (\<lambda>p.
             if truthy p then image_attachment p [] else Inr []))\<rparr>)
      else if t = item_value IMAGE_VIEW then
        Some ((plain_spec ''image_view'')\<lparr>bs_args := field_arg ''path'',
          bs_atts := (\<lambda>item. bind_py (get_item item ''path'') (\<lambda>p. image_attachment p []))\<rparr>)
      else None)"

text \<open>The constructors of the two tool events with the validation of their fields.\<close>

definition mk_tool_call :: "json \<Rightarrow> json \<Rightarrow> chat_event py" where
  "mk_tool_call name args =
     bind_py (str_field name) (\<lambda>n. bind_py (dict_field args) (\<lambda>a. Inr (ToolCallEvent n a)))"

definition mk_tool_result :: "json \<Rightarrow> json \<Rightarrow> attachment list \<Rightarrow> json \<Rightarrow> chat_event py" where
  "mk_tool_result name text atts error =
     bind_py (str_field name) (\<lambda>n. bind_py (str_field text) (\<lambda>t.
     bind_py (error_field error) (\<lambda>e. Inr (ToolResultEvent n t atts e))))"

definition to_started :: "builtin_spec \<Rightarrow> json \<Rightarrow> chat_event py" where
  "to_started spec item =
     bind_py (bs_label spec item) (\<lambda>name. bind_py (bs_args spec item) (\<lambda>args. mk_tool_call name args))"

definition to_completed :: "builtin_spec \<Rightarrow> json \<Rightarrow> chat_event py" where
  "to_completed spec item =
     bind_py (bs_label spec item) (\<lambda>name. bind_py (bs_text spec item) (\<lambda>text.
     bind_py (bs_atts spec item) (\<lambda>atts. bind_py (get_none item ''error'') (\<lambda>error.
     mk_tool_result name text atts error))))"

section \<open>Generic and dynamic tools, the agent message\<close>

definition generic_tool_call :: "json \<Rightarrow> chat_event option py" where
  "generic_tool_call item = bind_py (get_none item ''toolName'') (\<lambda>tool_name.
     if tool_name = JNull then Inr None
     else bind_py (get_or item ''arguments'' (JObj [])) (\<lambda>args.
          bind_py (mk_tool_call tool_name args) (\<lambda>ev. Inr (Some ev))))"

definition generic_tool_result :: "json \<Rightarrow> chat_event option py" where
  "generic_tool_result item = bind_py (get_none item ''toolName'') (\<lambda>tool_name.
     if tool_name = JNull then Inr None
     else bind_py (get_or item ''output'' (JStr [])) (\<lambda>text.
          bind_py (get_none item ''error'') (\<lambda>error.
          bind_py (mk_tool_result tool_name text [] error) (\<lambda>ev. Inr (Some ev)))))"

text \<open>The loop over \<open>contentItems\<close>: the text parts and the attachments gathered so far.\<close>

fun content_loop :: "json \<Rightarrow> json list \<Rightarrow> json list \<Rightarrow> attachment list \<Rightarrow> (json list \<times> attachment list) py" where
  "content_loop tool [] texts atts = Inr (texts, atts)"
| "content_loop tool (c # cs) texts atts =
     bind_py (get_item c ''type'') (\<lambda>ty.
       if ty = JStr ''inputText'' then
         bind_py (get_item c ''text'') (\<lambda>t. content_loop tool cs (texts @ [t]) atts)
       else if ty = JStr ''inputImage'' then
         bind_py (get_item c ''imageUrl'') (\<lambda>u.
         bind_py (str_field u) (\<lambda>src. bind_py (str_field tool) (\<lambda>cap.
           content_loop tool cs texts (atts @ [\<lparr>att_kind = IMAGE, att_source = src, att_caption = cap\<rparr>]))))
       else content_loop tool cs texts atts)"

definition need_str :: "json \<Rightarrow> string py" where
  "need_str j = (case j of JStr s \<Rightarrow> Inr s | _ \<Rightarrow> Inl (AttributeError ''strip''))"

definition join_parts :: "json list \<Rightarrow> string py" where
  "join_parts texts = bind_py (map_py need_str texts) (\<lambda>ps.
     Inr (join_with (CHR 0x0A # CHR 0x0A # []) (filter (\<lambda>p. py_strip p \<noteq> []) ps)))"

definition dynamic_tool_call_to_event :: "json \<Rightarrow> chat_event py" where
  "dynamic_tool_call_to_event item =
     bind_py (get_item item ''tool'') (\<lambda>tool.
     bind_py (get_item item ''contentItems'') (\<lambda>contents.
     bind_py (iter_json contents) (\<lambda>cs.
     bind_py (content_loop tool cs [] []) (\<lambda>(texts, atts).
     bind_py (join_parts texts) (\<lambda>text.
     bind_py (get_none item ''error'') (\<lambda>error. mk_tool_result tool (JStr text) atts error))))))"

definition agent_message_to_token :: "json \<Rightarrow> string \<Rightarrow> chat_event option py" where
  "agent_message_to_token item accumulated = bind_py (get_item item ''text'') (\<lambda>text.
     if \<not> truthy text then Inr None
     else (case text of
             JStr t \<Rightarrow>
               if suffix t accumulated then Inr None
               else if prefix accumulated t then Inr (Some (TokenEvent (drop (length accumulated) t)))
               else Inr None
           | _ \<Rightarrow> Inl (TypeError ''endswith'')))"

section \<open>The translation\<close>

definition on_item_started :: "codec \<Rightarrow> json \<Rightarrow> chat_event option py" where
  "on_item_started C item = bind_py (get_item item ''type'') (\<lambda>ty.
     if ty = JStr (item_value AGENT_MESSAGE) then Inr None
     else bind_py (require_hash ty) (\<lambda>_.
       if \<exists>t \<in> hidden_items. ty = JStr t then Inr None
       else (case (case ty of JStr t \<Rightarrow> builtins C t | _ \<Rightarrow> None) of
               Some spec \<Rightarrow> bind_py (to_started spec item) (\<lambda>ev. Inr (Some ev))
             | None \<Rightarrow> generic_tool_call item)))"

definition on_item_completed :: "codec \<Rightarrow> json \<Rightarrow> string \<Rightarrow> chat_event option py" where
  "on_item_completed C item accumulated = bind_py (get_item item ''type'') (\<lambda>ty.
     if ty = JStr (item_value AGENT_MESSAGE) then agent_message_to_token item accumulated
     else bind_py (require_hash ty) (\<lambda>_.
       if \<exists>t \<in> hidden_items. ty = JStr t then Inr None
       else if ty = JStr (item_value DYNAMIC_TOOL_CALL) then
         bind_py (dynamic_tool_call_to_event item) (\<lambda>ev. Inr (Some ev))
       else (case (case ty of JStr t \<Rightarrow> builtins C t | _ \<Rightarrow> None) of
               Some spec \<Rightarrow> bind_py (to_completed spec item) (\<lambda>ev. Inr (Some ev))
             | None \<Rightarrow> generic_tool_result item)))"

definition turn_completed_event :: "(string \<times> json) list \<Rightarrow> string \<Rightarrow> chat_event option py" where
  "turn_completed_event params accumulated =
     (let turn = (case jget params ''turn'' of None \<Rightarrow> JObj [] | Some t \<Rightarrow> t) in
      bind_py (get_none turn ''error'') (\<lambda>error.
        if truthy error then
          bind_py (get_none error ''message'') (\<lambda>m. bind_py (opt_str_field m) (\<lambda>detail.
            Inr (Some (ErrorEvent (error_code_value CODEX_ERROR) detail))))
        else bind_py (get_none turn ''status'') (\<lambda>st.
          if st = JStr ''failed'' then
            Inr (Some (ErrorEvent (error_code_value CODEX_ERROR) (Some ''Codex turn failed'')))
          else bind_py (str_field (case jget params ''finalText'' of
                 None \<Rightarrow> JStr accumulated | Some t \<Rightarrow> t)) (\<lambda>ft. Inr (Some (DoneEvent ft))))))"

definition translate_notification :: "codec \<Rightarrow> notification \<Rightarrow> string \<Rightarrow> chat_event option py" where
  "translate_notification C note accumulated =
     (let m = n_method note; params = JObj (n_params note) in
      if m = notif_value TURN_STARTED then Inr None
      else if m = notif_value AGENT_MSG_DELTA then
        bind_py (get_item params ''delta'') (\<lambda>delta.
          if truthy delta then bind_py (str_field delta) (\<lambda>d. Inr (Some (TokenEvent d)))
          else Inr None)
      else if m = notif_value ITEM_STARTED then
        bind_py (get_item params ''item'') (\<lambda>item. on_item_started C item)
      else if m = notif_value ITEM_COMPLETED then
        bind_py (get_item params ''item'') (\<lambda>item. on_item_completed C item accumulated)
      else if m = notif_value TURN_COMPLETED then turn_completed_event (n_params note) accumulated
      else Inr None)"

definition terminal_event :: "chat_event \<Rightarrow> bool" where
  "terminal_event ev = (case ev of DoneEvent t \<Rightarrow> True | ErrorEvent c d \<Rightarrow> True | _ \<Rightarrow> False)"

definition token_text :: "chat_event \<Rightarrow> string" where
  "token_text ev = (case ev of TokenEvent d \<Rightarrow> d | _ \<Rightarrow> [])"

section \<open>The collector\<close>

record stream_collector =
  sc_buffer :: string
  sc_calls :: "(string \<times> json) list"
  sc_atts :: "attachment list"
  sc_final :: string
  sc_done :: bool

definition new_collector :: stream_collector where
  "new_collector = \<lparr>sc_buffer = [], sc_calls = [], sc_atts = [], sc_final = [], sc_done = False\<rparr>"

fun absorb :: "chat_event \<Rightarrow> stream_collector \<Rightarrow> stream_collector" where
  "absorb (TokenEvent delta) c = c\<lparr>sc_buffer := sc_buffer c @ delta\<rparr>"
| "absorb (ToolCallEvent name args) c = c\<lparr>sc_calls := sc_calls c @ [(name, args)]\<rparr>"
| "absorb (ToolResultEvent name text files err) c = c\<lparr>sc_atts := sc_atts c @ files\<rparr>"
| "absorb (DoneEvent ft) c = c\<lparr>sc_final := ft, sc_done := True\<rparr>"
| "absorb (ErrorEvent code detail) c = c"

section \<open>Properties of the translation\<close>

lemma tool_events_not_terminal:
  "mk_tool_call n a = Inr ev \<Longrightarrow> \<not> terminal_event ev"
  "mk_tool_result n t atts e = Inr ev \<Longrightarrow> \<not> terminal_event ev"
  by (auto simp: mk_tool_call_def mk_tool_result_def bind_py_Inr terminal_event_def)

lemma to_event_not_terminal:
  "to_started spec item = Inr ev \<Longrightarrow> \<not> terminal_event ev"
  "to_completed spec item = Inr ev \<Longrightarrow> \<not> terminal_event ev"
  by (auto simp: to_started_def to_completed_def bind_py_Inr tool_events_not_terminal)

lemma generic_not_terminal:
  "generic_tool_call item = Inr (Some ev) \<Longrightarrow> \<not> terminal_event ev"
  "generic_tool_result item = Inr (Some ev) \<Longrightarrow> \<not> terminal_event ev"
  by (auto simp: generic_tool_call_def generic_tool_result_def bind_py_Inr tool_events_not_terminal
      split: if_splits)

lemma dynamic_not_terminal: "dynamic_tool_call_to_event item = Inr ev \<Longrightarrow> \<not> terminal_event ev"
  by (auto simp: dynamic_tool_call_to_event_def bind_py_Inr tool_events_not_terminal)

lemma agent_token_not_terminal: "agent_message_to_token item acc = Inr (Some ev) \<Longrightarrow> \<not> terminal_event ev"
  by (auto simp: agent_message_to_token_def bind_py_Inr terminal_event_def split: if_splits json.splits)

lemma started_not_terminal: "on_item_started C item = Inr (Some ev) \<Longrightarrow> \<not> terminal_event ev"
  by (auto simp: on_item_started_def bind_py_Inr to_event_not_terminal generic_not_terminal
      split: if_split_asm option.split_asm)

lemma completed_not_terminal:
  assumes "on_item_completed C item acc = Inr (Some ev)"
  shows "\<not> terminal_event ev"
proof -
  from assms obtain ty where
    "agent_message_to_token item acc = Inr (Some ev) \<or> (\<exists>e. dynamic_tool_call_to_event item = Inr e \<and> ev = e)
     \<or> (\<exists>spec e. to_completed spec item = Inr e \<and> ev = e) \<or> generic_tool_result item = Inr (Some ev)"
    unfolding on_item_completed_def bind_py_Inr by (auto simp: bind_py_Inr split: if_split_asm option.split_asm)
  then show ?thesis
    using agent_token_not_terminal dynamic_not_terminal to_event_not_terminal(2) generic_not_terminal(2) by blast
qed

lemmas item_events_not_terminal = started_not_terminal completed_not_terminal

text \<open>
  An event ends the turn exactly when it translates \<open>turn/completed\<close>, and then it is
  Done with the text streamed so far unless the sidecar sends a final text or reports a failure.
\<close>

theorem terminal_iff_turn_completed:
  assumes "translate_notification C note acc = Inr (Some ev)"
  shows "(terminal_event ev \<longleftrightarrow> n_method note = ''turn/completed'') \<and>
    (n_method note = ''turn/completed'' \<longrightarrow> jget (n_params note) ''finalText'' = None \<longrightarrow>
       ev = DoneEvent acc \<or> (\<exists>d. ev = ErrorEvent ''codex_error'' d))"
proof -
  have "turn_completed_event ps a = Inr (Some ev) \<Longrightarrow> terminal_event ev" for ps a
    by (auto simp: turn_completed_event_def bind_py_Inr terminal_event_def Let_def split: if_splits)
  with assms show ?thesis
    by (auto simp: translate_notification_def bind_py_Inr item_events_not_terminal Let_def
        turn_completed_event_def split: if_splits)
      (auto simp: terminal_event_def)
qed

lemma terminal_iff_turn_completed_witness:
  "terminal_event (DoneEvent ''hello'') \<longleftrightarrow> ''turn/completed'' = ''turn/completed''"
  using terminal_iff_turn_completed [of "\<lparr>loads = (\<lambda>_. None), guess_mime = (\<lambda>_. None), py_repr = (\<lambda>_. [])\<rparr>"
      "\<lparr>n_method = ''turn/completed'', n_params = [(''turn'', JObj [])], n_turn = None\<rparr>" "''hello''" "DoneEvent ''hello''"]
  by (simp add: translate_notification_def turn_completed_event_def)

text \<open>
  A completed agent message adds to the stream exactly what is missing: a token is
  emitted if and only if the text is new and extends what was streamed, the token is not
  empty, and with it the streamed text is the message. A message that diverges adds nothing.
\<close>

theorem agent_message_reconciled:
  assumes "jget (n_params note) ''item'' = Some (JObj [(''type'', JStr ''agentMessage''), (''text'', JStr t)])"
    and "n_method note = ''item/completed''"
  shows "(case translate_notification C note acc of
           Inr (Some ev) \<Rightarrow> ev = TokenEvent (drop (length acc) t) \<and> acc @ token_text ev = t \<and> token_text ev \<noteq> []
         | Inr None \<Rightarrow> suffix t acc \<or> \<not> prefix acc t
         | Inl e \<Rightarrow> False)"
proof (cases "suffix t acc")
  case True
  then show ?thesis using assms
    by (simp add: translate_notification_def on_item_completed_def agent_message_to_token_def)
next
  case False
  then have "t \<noteq> []" by auto
  then show ?thesis using assms False
    by (auto simp: translate_notification_def on_item_completed_def agent_message_to_token_def token_text_def
        prefix_def)
qed

lemma agent_message_reconciled_witness:
  "translate_notification \<lparr>loads = (\<lambda>_. None), guess_mime = (\<lambda>_. None), py_repr = (\<lambda>_. [])\<rparr>
     \<lparr>n_method = ''item/completed'', n_params = [(''item'', JObj [(''type'', JStr ''agentMessage''), (''text'', JStr ''hello'')])],
       n_turn = None\<rparr> ''hel'' = Inr (Some (TokenEvent ''lo''))
   \<and> ''hel'' @ token_text (TokenEvent ''lo'') = ''hello''"
  using agent_message_reconciled [of "\<lparr>n_method = ''item/completed'', n_params = [(''item'', JObj [(''type'', JStr ''agentMessage''), (''text'', JStr ''hello'')])],
       n_turn = None\<rparr>" "''hello''" "''hel''" "\<lparr>loads = (\<lambda>_. None), guess_mime = (\<lambda>_. None), py_repr = (\<lambda>_. [])\<rparr>"]
  by (simp add: translate_notification_def on_item_completed_def agent_message_to_token_def suffix_def)

text \<open>
  A completed image generation whose \<open>revisedPrompt\<close> is \<open>null\<close> raises: the default of
  \<open>item.get\<close> only replaces an absent key, and the text of the event must be a string.
\<close>

lemma null_revised_prompt_raises:
  "on_item_completed C (JObj [(''type'', JStr ''imageGeneration''), (''revisedPrompt'', JNull)]) acc
     = Inl (ValidationError ''string_type'')"
  by (simp add: on_item_completed_def hidden_items_def builtins_def to_completed_def plain_spec_def
      get_or_def mk_tool_result_def str_field_def)

end
