(* ===== verification/Rpc_Client.thy ===== *)
theory Rpc_Client
  imports Codex_Translate
begin

text \<open>
  The JSON-RPC client of \<open>app/services/codex/transport.py\<close> (\<open>AppServerClient\<close>): requests and
  the futures that wait for their responses, the bounded notification queue with its closing
  sentinel, the dispatch of incoming frames, the answering of server requests, and the two
  ways the connection ends. A web socket is two flags: \<open>rc_ws\<close> is the attribute \<open>_ws\<close>,
  \<open>rc_wire\<close> whether the socket itself is open.
\<close>

section \<open>Errors and futures\<close>

datatype rpc_exn =
    AppServerError json json json
  | RuntimeError string
  | RequestTimeout
  | SendFailed
  | PyError py_exn

datatype future =
    Waiting
  | Result json
  | Failed rpc_exn
  | Cancelled

definition future_done :: "future \<Rightarrow> bool" where
  "future_done f = (f \<noteq> Waiting)"

section \<open>State\<close>

text \<open>
  \<open>rc_futs\<close> holds every future ever created under its request id; \<open>rc_pending\<close> is the
  dictionary \<open>_pending\<close>, whose values are those futures, as the list of its keys.
\<close>

record rpc_client =
  rc_next :: int
  rc_pending :: "int list"
  rc_futs :: "int \<Rightarrow> future option"
  rc_queue :: "notification option list"
  rc_max :: nat
  rc_ws :: bool
  rc_wire :: bool
  rc_reader :: bool
  rc_closed :: bool
  rc_handlers :: "string list"
  rc_tasks :: "(string \<times> json) list list"
  rc_sent :: "json list"

definition new_client :: "nat \<Rightarrow> rpc_client" where
  "new_client queue_max = \<lparr>rc_next = 1, rc_pending = [], rc_futs = (\<lambda>_. None), rc_queue = [],
     rc_max = queue_max, rc_ws = False, rc_wire = False, rc_reader = False, rc_closed = False,
     rc_handlers = [], rc_tasks = [], rc_sent = []\<rparr>"

definition is_connected :: "rpc_client \<Rightarrow> bool" where
  "is_connected c \<longleftrightarrow> rc_ws c \<and> \<not> rc_closed c"

definition register_request_handler :: "string \<Rightarrow> rpc_client \<Rightarrow> rpc_client" where
  "register_request_handler m c =
     c\<lparr>rc_handlers := (if m \<in> set (rc_handlers c) then rc_handlers c else rc_handlers c @ [m])\<rparr>"

section \<open>Connecting\<close>

definition CONNECT_RETRIES :: nat where
  "CONNECT_RETRIES = 3"

text \<open>\<open>outcomes\<close> says which of the attempts succeed; the sleeps between them are in half seconds
(\<open>_CONNECT_BACKOFF_S\<close> is 1.5).\<close>

fun connect_attempts :: "nat \<Rightarrow> bool list \<Rightarrow> nat list \<Rightarrow> bool \<times> nat list" where
  "connect_attempts attempt [] sleeps = (False, sleeps)"
| "connect_attempts attempt (ok # rest) sleeps =
     (if ok then (True, sleeps)
      else if attempt \<ge> CONNECT_RETRIES then (False, sleeps)
      else connect_attempts (attempt + 1) rest (sleeps @ [3 * attempt]))"

definition connect :: "bool list \<Rightarrow> rpc_client \<Rightarrow> (rpc_exn + unit) \<times> rpc_client" where
  "connect outcomes c =
     (if rc_closed c then (Inl (RuntimeError ''AppServerClient was closed''), c)
      else if rc_ws c then (Inr (), c)
      else if fst (connect_attempts 1 outcomes [])
           then (Inr (), c\<lparr>rc_ws := True, rc_wire := True, rc_reader := True\<rparr>)
           else (Inl SendFailed, c))"

definition ensure_open :: "rpc_client \<Rightarrow> rpc_exn option" where
  "ensure_open c =
     (if rc_closed c then Some (RuntimeError ''AppServerClient is closed'')
      else if \<not> rc_ws c then Some (RuntimeError ''AppServerClient is not connected'')
      else None)"

section \<open>Requests\<close>

text \<open>\<open>_send\<close>: \<open>ok\<close> is whether the socket accepts the frame.\<close>

definition send_frame :: "bool \<Rightarrow> json \<Rightarrow> rpc_client \<Rightarrow> rpc_exn option \<times> rpc_client" where
  "send_frame ok payload c =
     (if \<not> rc_ws c then (Some (RuntimeError ''AppServerClient is not connected''), c)
      else if \<not> ok then (Some SendFailed, c)
      else (None, c\<lparr>rc_sent := rc_sent c @ [payload]\<rparr>))"

definition request_payload :: "int \<Rightarrow> string \<Rightarrow> json \<Rightarrow> json" where
  "request_payload i m params = JObj [(''jsonrpc'', JStr ''2.0''), (''id'', JInt i),
     (''method'', JStr m), (''params'', or_else params (JObj []))]"

text \<open>The part of \<open>request\<close> up to the wait for the response: its value is the request id.\<close>

definition start_request :: "bool \<Rightarrow> string \<Rightarrow> json \<Rightarrow> rpc_client \<Rightarrow> (rpc_exn + int) \<times> rpc_client" where
  "start_request ok m params c =
     (case ensure_open c of
        Some e \<Rightarrow> (Inl e, c)
      | None \<Rightarrow>
          let i = rc_next c;
              c1 = c\<lparr>rc_next := i + 1, rc_futs := (rc_futs c)(i \<mapsto> Waiting),
                     rc_pending := rc_pending c @ [i]\<rparr>
          in (case send_frame ok (request_payload i m params) c1 of
                (Some e, c2) \<Rightarrow> (Inl e, c2)
              | (None, c2) \<Rightarrow> (Inr i, c2)))"

definition pop_pending :: "int \<Rightarrow> rpc_client \<Rightarrow> rpc_client" where
  "pop_pending i c = c\<lparr>rc_pending := filter (\<lambda>j. j \<noteq> i) (rc_pending c)\<rparr>"

text \<open>
  The rest of \<open>request\<close>: \<open>None\<close> while the future is waiting and the time limit has not
  passed, else what the caller gets; the entry is removed in either case. A limit that passes
  cancels the future.
\<close>

definition await_response :: "bool \<Rightarrow> int \<Rightarrow> rpc_client \<Rightarrow> (rpc_exn + json) option \<times> rpc_client" where
  "await_response timed_out i c =
     (case rc_futs c i of
        Some (Result j) \<Rightarrow> (Some (Inr j), pop_pending i c)
      | Some (Failed e) \<Rightarrow> (Some (Inl e), pop_pending i c)
      | Some Waiting \<Rightarrow>
          if timed_out
          then (Some (Inl RequestTimeout), pop_pending i (c\<lparr>rc_futs := (rc_futs c)(i \<mapsto> Cancelled)\<rparr>))
          else (None, c)
      | _ \<Rightarrow> (Some (Inl RequestTimeout), pop_pending i c))"

definition notify :: "bool \<Rightarrow> string \<Rightarrow> json \<Rightarrow> rpc_client \<Rightarrow> rpc_exn option \<times> rpc_client" where
  "notify ok m params c =
     (case ensure_open c of
        Some e \<Rightarrow> (Some e, c)
      | None \<Rightarrow> send_frame ok (JObj [(''jsonrpc'', JStr ''2.0''), (''method'', JStr m),
                  (''params'', or_else params (JObj []))]) c)"

section \<open>Incoming frames\<close>

text \<open>Numbers that compare equal are the same dictionary key.\<close>

fun id_key :: "json \<Rightarrow> int option" where
  "id_key (JInt i) = Some i"
| "id_key (JBool b) = Some (if b then 1 else 0)"
| "id_key (JFloat r) = (if r = of_int \<lfloor>r\<rfloor> then Some \<lfloor>r\<rfloor> else None)"
| "id_key _ = None"

definition set_future :: "int \<Rightarrow> future \<Rightarrow> rpc_client \<Rightarrow> rpc_client" where
  "set_future i f c = c\<lparr>rc_futs := (rc_futs c)(i \<mapsto> f)\<rparr>"

definition resolve_response :: "(string \<times> json) list \<Rightarrow> rpc_client \<Rightarrow> rpc_client py" where
  "resolve_response msg c =
     (let rid = of_null (jget msg ''id'') in
      bind_py (require_hash rid) (\<lambda>_.
      case id_key rid of
        None \<Rightarrow> Inr c
      | Some i \<Rightarrow>
          if i \<notin> set (rc_pending c) \<or> (case rc_futs c i of None \<Rightarrow> True | Some f \<Rightarrow> future_done f) then Inr c
          else (case jget msg ''error'' of
                  Some err \<Rightarrow>
                    bind_py (get_or err ''code'' (JInt (- 1))) (\<lambda>code.
                    bind_py (get_or err ''message'' (JStr [])) (\<lambda>m.
                    bind_py (get_none err ''data'') (\<lambda>data.
                    Inr (set_future i (Failed (AppServerError code m data)) c))))
                | None \<Rightarrow> Inr (set_future i (Result (of_null (jget msg ''result''))) c))))"

text \<open>A full queue drops the notification that arrives.\<close>

definition put_note :: "notification \<Rightarrow> rpc_client \<Rightarrow> rpc_client" where
  "put_note n c =
     (if length (rc_queue c) < rc_max c then c\<lparr>rc_queue := rc_queue c @ [Some n]\<rparr> else c)"

definition enqueue_notification :: "(string \<times> json) list \<Rightarrow> rpc_client \<Rightarrow> rpc_client py" where
  "enqueue_notification msg c =
     (let params = (case jget msg ''params'' of Some (JObj kv) \<Rightarrow> kv | _ \<Rightarrow> []);
          turn = (case jget params ''turnId'' of Some (JStr t) \<Rightarrow> Some t | _ \<Rightarrow> None)
      in bind_py (str_field (of_null (jget msg ''method''))) (\<lambda>m.
           Inr (put_note \<lparr>n_method = m, n_params = params, n_turn = turn\<rparr> c)))"

definition spawn_request_handler :: "(string \<times> json) list \<Rightarrow> rpc_client \<Rightarrow> rpc_client" where
  "spawn_request_handler msg c = c\<lparr>rc_tasks := rc_tasks c @ [msg]\<rparr>"

text \<open>
  \<open>_dispatch\<close> of a parsed frame; \<open>None\<close> is a frame \<open>orjson\<close> rejects. On a frame that is not an
  object every path raises: a number fails on \<open>"id" in message\<close>, a string or list on the index,
  on \<open>message.get\<close> or on \<open>message.keys()\<close>.
\<close>

definition dispatch :: "json option \<Rightarrow> rpc_client \<Rightarrow> rpc_client py" where
  "dispatch parsed c =
     (case parsed of
        None \<Rightarrow> Inr c
      | Some (JObj msg) \<Rightarrow>
          let has_id = (case jget msg ''id'' of None \<Rightarrow> False | Some v \<Rightarrow> v \<noteq> JNull);
              has_method = (jget msg ''method'' \<noteq> None)
          in if has_id \<and> has_method then Inr (spawn_request_handler msg c)
             else if has_id then resolve_response msg c
             else if has_method then enqueue_notification msg c
             else Inr c
      | Some _ \<Rightarrow> Inl (TypeError ''message''))"

section \<open>Answering requests of the server\<close>

text \<open>
  \<open>handle\<close> is the registered handlers' behaviour: the result, or the text of the exception.
\<close>

definition send_response :: "bool \<Rightarrow> json \<Rightarrow> string \<times> json \<Rightarrow> rpc_client \<Rightarrow> rpc_client" where
  "send_response ok rid body c =
     snd (send_frame ok (JObj [(''jsonrpc'', JStr ''2.0''), (''id'', rid), body]) c)"

definition rpc_error :: "int \<Rightarrow> string \<Rightarrow> string \<times> json" where
  "rpc_error code m = (''error'', JObj [(''code'', JInt code), (''message'', JStr m)])"

definition handle_request ::
  "codec \<Rightarrow> (string \<Rightarrow> (string \<times> json) list \<Rightarrow> string + json) \<Rightarrow> bool \<Rightarrow> (string \<times> json) list
    \<Rightarrow> rpc_client \<Rightarrow> rpc_client" where
  "handle_request C handle ok msg c =
     (let rid = of_null (jget msg ''id'');
          m = of_null (jget msg ''method'');
          params = (case jget msg ''params'' of Some (JObj kv) \<Rightarrow> kv | _ \<Rightarrow> [])
      in if \<not> hashable m then c
         else (case m of
                 JStr name \<Rightarrow>
                   if name \<in> set (rc_handlers c)
                   then (case handle name params of
                           Inl e \<Rightarrow> send_response ok rid (rpc_error (- 32603) e) c
                         | Inr r \<Rightarrow> send_response ok rid (''result'', r) c)
                   else send_response ok rid (rpc_error (- 32601) (''method not supported: '' @ name)) c
               | _ \<Rightarrow> send_response ok rid (rpc_error (- 32601) (''method not supported: '' @ py_str C m)) c))"

definition run_task ::
  "codec \<Rightarrow> (string \<Rightarrow> (string \<times> json) list \<Rightarrow> string + json) \<Rightarrow> bool \<Rightarrow> rpc_client \<Rightarrow> rpc_client" where
  "run_task C handle ok c =
     (case rc_tasks c of
        [] \<Rightarrow> c
      | msg # rest \<Rightarrow> handle_request C handle ok msg (c\<lparr>rc_tasks := rest\<rparr>))"

section \<open>The end of the connection\<close>

text \<open>
  The sentinel: on a full queue the oldest entry makes room. A \<open>maxsize\<close> of 0 is an unbounded
  queue for \<open>asyncio\<close>; the code's limits are positive.
\<close>

definition wake_notifications :: "rpc_client \<Rightarrow> rpc_client" where
  "wake_notifications c =
     (if length (rc_queue c) < rc_max c then c\<lparr>rc_queue := rc_queue c @ [None]\<rparr>
      else c\<lparr>rc_queue := tl (rc_queue c) @ [None]\<rparr>)"

definition fail_pending :: "rpc_exn \<Rightarrow> rpc_client \<Rightarrow> rpc_client" where
  "fail_pending e c =
     c\<lparr>rc_futs := (\<lambda>i. if i \<in> set (rc_pending c) \<and> rc_futs c i = Some Waiting then Some (Failed e)
                        else rc_futs c i),
       rc_pending := []\<rparr>"

text \<open>The \<open>finally\<close> block of the reader, however the reader ends.\<close>

definition reader_ends :: "rpc_client \<Rightarrow> rpc_client" where
  "reader_ends c =
     fail_pending (RuntimeError ''AppServerClient connection lost'')
       (wake_notifications (c\<lparr>rc_ws := False, rc_reader := False\<rparr>))"

text \<open>The peer closes the connection, or the socket fails.\<close>

definition connection_lost :: "rpc_client \<Rightarrow> rpc_client" where
  "connection_lost c = (if rc_reader c then reader_ends (c\<lparr>rc_wire := False\<rparr>) else c)"

text \<open>One frame: an exception in the dispatch ends the reader, but not the socket.\<close>

definition read_frame :: "json option \<Rightarrow> rpc_client \<Rightarrow> rpc_client" where
  "read_frame parsed c =
     (if \<not> rc_reader c then c
      else (case dispatch parsed c of Inr c' \<Rightarrow> c' | Inl _ \<Rightarrow> reader_ends c))"

text \<open>
  \<open>_teardown_transport\<close>: cancelling a reader that is running executes its \<open>finally\<close> block, which
  clears \<open>_ws\<close>; the socket is closed only when \<open>_ws\<close> is still set.
\<close>

definition teardown_transport :: "rpc_client \<Rightarrow> rpc_client" where
  "teardown_transport c =
     (let c1 = (if rc_reader c then reader_ends c else c);
          c2 = c1\<lparr>rc_tasks := []\<rparr>
      in if rc_ws c2 then c2\<lparr>rc_ws := False, rc_wire := False\<rparr> else c2)"

definition close_client :: "rpc_client \<Rightarrow> rpc_client" where
  "close_client c =
     (if rc_closed c then c
      else fail_pending (RuntimeError ''AppServerClient closed'')
             (wake_notifications (teardown_transport (c\<lparr>rc_closed := True\<rparr>))))"

section \<open>The consumer\<close>

text \<open>
  \<open>notifications()\<close>: the notifications up to the first sentinel, and whether one was reached.
\<close>

fun drain :: "notification option list \<Rightarrow> notification list \<times> bool" where
  "drain [] = ([], False)"
| "drain (None # q) = ([], True)"
| "drain (Some n # q) = (let (ns, stop) = drain q in (n # ns, stop))"

definition next_item :: "rpc_client \<Rightarrow> notification option option \<times> rpc_client" where
  "next_item c = (case rc_queue c of [] \<Rightarrow> (None, c) | x # q \<Rightarrow> (Some x, c\<lparr>rc_queue := q\<rparr>))"

section \<open>Runs\<close>

datatype rpc_op =
    Connect "bool list"
  | Register string
  | Request bool string json
  | Await bool int
  | Notify bool string json
  | Frame "json option"
  | RunTask bool
  | NextItem
  | Lost
  | Close

fun rpc_step ::
  "codec \<Rightarrow> (string \<Rightarrow> (string \<times> json) list \<Rightarrow> string + json) \<Rightarrow> rpc_op \<Rightarrow> rpc_client \<Rightarrow> rpc_client" where
  "rpc_step C h (Connect outcomes) c = snd (connect outcomes c)"
| "rpc_step C h (Register m) c = register_request_handler m c"
| "rpc_step C h (Request ok m ps) c = snd (start_request ok m ps c)"
| "rpc_step C h (Await timed_out i) c = snd (await_response timed_out i c)"
| "rpc_step C h (Notify ok m ps) c = snd (notify ok m ps c)"
| "rpc_step C h (Frame j) c = read_frame j c"
| "rpc_step C h (RunTask ok) c = run_task C h ok c"
| "rpc_step C h NextItem c = snd (next_item c)"
| "rpc_step C h Lost c = connection_lost c"
| "rpc_step C h Close c = close_client c"

definition rpc_run where
  "rpc_run C h ops c = fold (rpc_step C h) ops c"

text \<open>
  The invariant: request ids are fresh, a future that waits is pending and the reader that
  will resolve it is alive, the queue keeps its bound.
\<close>

definition rpc_inv :: "rpc_client \<Rightarrow> bool" where
  "rpc_inv c \<longleftrightarrow>
     (\<forall>i \<ge> rc_next c. rc_futs c i = None) \<and>
     (\<forall>i. rc_futs c i = Some Waiting \<longrightarrow> i \<in> set (rc_pending c)) \<and>
     (rc_pending c \<noteq> [] \<longrightarrow> rc_reader c) \<and>
     rc_ws c = rc_reader c \<and>
     length (rc_queue c) \<le> rc_max c \<and> 0 < rc_max c"

text \<open>
  How one step may change the futures: a done future stays as it is, an id is used once, and a
  result arrives only in a frame with that id.
\<close>

definition answered_by :: "rpc_op \<Rightarrow> int \<Rightarrow> json \<Rightarrow> bool" where
  "answered_by op i j \<longleftrightarrow> (\<exists>msg. op = Frame (Some (JObj msg)) \<and>
     id_key (of_null (jget msg ''id'')) = Some i \<and> jget msg ''error'' = None \<and>
     of_null (jget msg ''result'') = j)"

definition fut_change :: "rpc_op \<Rightarrow> rpc_client \<Rightarrow> rpc_client \<Rightarrow> bool" where
  "fut_change op c c' \<longleftrightarrow> (\<forall>i f. rc_futs c i = Some f \<longrightarrow>
     (\<exists>f'. rc_futs c' i = Some f' \<and> (f' = f \<or> (f = Waiting \<and> (\<forall>j. f' = Result j \<longrightarrow> answered_by op i j)))))"

lemma fut_change_same: "rc_futs c' = rc_futs c \<Longrightarrow> fut_change op c c'"
  by (simp add: fut_change_def)

lemma send_frame_fields [simp]:
  "rc_futs (snd (send_frame ok p c)) = rc_futs c"
  "rc_pending (snd (send_frame ok p c)) = rc_pending c"
  "rc_next (snd (send_frame ok p c)) = rc_next c"
  "rc_reader (snd (send_frame ok p c)) = rc_reader c"
  "rc_ws (snd (send_frame ok p c)) = rc_ws c"
  "rc_closed (snd (send_frame ok p c)) = rc_closed c"
  "rc_wire (snd (send_frame ok p c)) = rc_wire c"
  "rc_queue (snd (send_frame ok p c)) = rc_queue c"
  "rc_max (snd (send_frame ok p c)) = rc_max c"
  by (simp_all add: send_frame_def)

lemma rpc_inv_cong:
  "rc_futs c' = rc_futs c \<Longrightarrow> rc_pending c' = rc_pending c \<Longrightarrow> rc_next c' = rc_next c \<Longrightarrow>
   rc_reader c' = rc_reader c \<Longrightarrow> rc_ws c' = rc_ws c \<Longrightarrow> rc_queue c' = rc_queue c \<Longrightarrow>
   rc_max c' = rc_max c \<Longrightarrow> rpc_inv c' = rpc_inv c"
  by (simp add: rpc_inv_def)

lemma rpc_inv_send [simp]: "rpc_inv (snd (send_frame ok p c)) = rpc_inv c"
  by (rule rpc_inv_cong) simp_all

lemma start_request_state:
  "snd (start_request ok m ps c) =
     (if ensure_open c = None
      then snd (send_frame ok (request_payload (rc_next c) m ps)
             (c\<lparr>rc_next := rc_next c + 1, rc_futs := (rc_futs c)(rc_next c \<mapsto> Waiting),
                rc_pending := rc_pending c @ [rc_next c]\<rparr>))
      else c)"
  by (auto simp: start_request_def Let_def split: option.splits prod.splits)

lemma ensure_open_None [simp]: "ensure_open c = None \<longleftrightarrow> \<not> rc_closed c \<and> rc_ws c"
  by (simp add: ensure_open_def)

lemma fut_change_start: "rpc_inv c \<Longrightarrow> fut_change op c (snd (start_request ok m ps c))"
  by (auto simp: start_request_state fut_change_def rpc_inv_def)

lemma inv_start: "rpc_inv c \<Longrightarrow> rpc_inv (snd (start_request ok m ps c))"
  by (auto simp: start_request_state rpc_inv_def)

lemma pop_pending_fields [simp]:
  "rc_futs (pop_pending i c) = rc_futs c"
  "rc_pending (pop_pending i c) = filter (\<lambda>j. j \<noteq> i) (rc_pending c)"
  "rc_next (pop_pending i c) = rc_next c" "rc_reader (pop_pending i c) = rc_reader c"
  "rc_ws (pop_pending i c) = rc_ws c" "rc_closed (pop_pending i c) = rc_closed c"
  "rc_queue (pop_pending i c) = rc_queue c" "rc_max (pop_pending i c) = rc_max c"
  by (simp_all add: pop_pending_def)

lemma inv_pop: "rpc_inv c \<Longrightarrow> rc_futs c i \<noteq> Some Waiting \<Longrightarrow> rpc_inv (pop_pending i c)"
  unfolding rpc_inv_def by (auto simp: filter_empty_conv)

lemma inv_await: "rpc_inv c \<Longrightarrow> rpc_inv (snd (await_response t i c))"
  by (auto simp: await_response_def split: option.splits future.splits intro!: inv_pop)
     (auto simp: rpc_inv_def)

lemma fut_change_await: "fut_change op c (snd (await_response t i c))"
  by (auto simp: await_response_def fut_change_def split: option.splits future.splits)

lemma resolve_cases:
  assumes "resolve_response msg c = Inr c'"
  shows "c' = c \<or> (\<exists>i f. id_key (of_null (jget msg ''id'')) = Some i \<and> rc_futs c i = Some Waiting \<and>
     c' = set_future i f c \<and> f \<noteq> Waiting \<and>
     (\<forall>j. f = Result j \<longrightarrow> jget msg ''error'' = None \<and> of_null (jget msg ''result'') = j))"
  using assms
  by (auto simp: resolve_response_def Let_def bind_py_Inr future_done_def
      split: option.splits if_splits)

lemma set_future_fields [simp]:
  "rc_futs (set_future i f c) = (rc_futs c)(i \<mapsto> f)"
  "rc_pending (set_future i f c) = rc_pending c" "rc_next (set_future i f c) = rc_next c"
  "rc_reader (set_future i f c) = rc_reader c" "rc_ws (set_future i f c) = rc_ws c"
  "rc_closed (set_future i f c) = rc_closed c" "rc_wire (set_future i f c) = rc_wire c"
  "rc_queue (set_future i f c) = rc_queue c" "rc_max (set_future i f c) = rc_max c"
  by (simp_all add: set_future_def)

lemma inv_set_future:
  "rpc_inv c \<Longrightarrow> rc_futs c i = Some Waiting \<Longrightarrow> f \<noteq> Waiting \<Longrightarrow> rpc_inv (set_future i f c)"
  unfolding rpc_inv_def by (auto simp: not_le)

lemma inv_put_note: "rpc_inv c \<Longrightarrow> rpc_inv (put_note n c)"
  by (auto simp: rpc_inv_def put_note_def)

lemma put_note_fields [simp]:
  "rc_futs (put_note n c) = rc_futs c" "rc_closed (put_note n c) = rc_closed c"
  "rc_reader (put_note n c) = rc_reader c" "rc_wire (put_note n c) = rc_wire c"
  by (simp_all add: put_note_def)

lemma reader_ends_fields [simp]:
  "rc_pending (reader_ends c) = []" "\<not> rc_reader (reader_ends c)" "\<not> rc_ws (reader_ends c)"
  "rc_next (reader_ends c) = rc_next c" "rc_closed (reader_ends c) = rc_closed c"
  "rc_wire (reader_ends c) = rc_wire c" "rc_max (reader_ends c) = rc_max c"
  "rc_futs (reader_ends c) = (\<lambda>i. if i \<in> set (rc_pending c) \<and> rc_futs c i = Some Waiting
     then Some (Failed (RuntimeError ''AppServerClient connection lost'')) else rc_futs c i)"
  by (auto simp: reader_ends_def fail_pending_def wake_notifications_def fun_eq_iff)

lemma reader_ends_queue:
  "length (rc_queue c) \<le> rc_max c \<Longrightarrow> 0 < rc_max c \<Longrightarrow> length (rc_queue (reader_ends c)) \<le> rc_max c"
  by (auto simp: reader_ends_def fail_pending_def wake_notifications_def)

lemma fut_change_reader_ends: "rpc_inv c \<Longrightarrow> fut_change op c (reader_ends c)"
  by (auto simp: fut_change_def rpc_inv_def)

lemma inv_reader_ends: "rpc_inv c \<Longrightarrow> rpc_inv (reader_ends c)"
  using reader_ends_queue [of c] by (auto simp: rpc_inv_def)

lemma close_client_state:
  "rpc_inv c \<Longrightarrow> \<not> rc_closed c \<Longrightarrow>
   close_client c = wake_notifications
     ((if rc_reader c then reader_ends (c\<lparr>rc_closed := True\<rparr>) else c\<lparr>rc_closed := True\<rparr>)\<lparr>rc_tasks := []\<rparr>)"
  by (auto simp: close_client_def teardown_transport_def Let_def rpc_inv_def fail_pending_def
      wake_notifications_def reader_ends_def fun_eq_iff)

lemma inv_closed_flag: "rpc_inv (c\<lparr>rc_closed := b\<rparr>) = rpc_inv c" "rpc_inv (c\<lparr>rc_tasks := t\<rparr>) = rpc_inv c"
  "rpc_inv (c\<lparr>rc_wire := w\<rparr>) = rpc_inv c"
  by (simp_all add: rpc_inv_def)

lemma inv_wake: "rpc_inv c \<Longrightarrow> rpc_inv (wake_notifications c)"
  by (auto simp: rpc_inv_def wake_notifications_def)

lemma inv_close: "rpc_inv c \<Longrightarrow> rpc_inv (close_client c)"
  by (cases "rc_closed c")
    (simp add: close_client_def, simp add: close_client_state inv_wake inv_closed_flag inv_reader_ends)

lemma wake_futs [simp]: "rc_futs (wake_notifications c) = rc_futs c" "rc_reader (wake_notifications c) = rc_reader c"
  "rc_wire (wake_notifications c) = rc_wire c" "rc_closed (wake_notifications c) = rc_closed c"
  "rc_pending (wake_notifications c) = rc_pending c" "rc_max (wake_notifications c) = rc_max c"
  by (simp_all add: wake_notifications_def)

lemma fut_change_close: "rpc_inv c \<Longrightarrow> fut_change op c (close_client c)"
  by (cases "rc_closed c")
    (simp add: close_client_def fut_change_same, auto simp: close_client_state fut_change_def)

lemma dispatch_cases:
  assumes "dispatch parsed c = Inr c'"
  obtains "rc_futs c' = rc_futs c" "rpc_inv c \<longrightarrow> rpc_inv c'" "rc_closed c' = rc_closed c"
  | msg where "parsed = Some (JObj msg)" "resolve_response msg c = Inr c'"
  using assms
  by (auto simp: dispatch_def Let_def spawn_request_handler_def enqueue_notification_def bind_py_Inr
      inv_closed_flag inv_put_note split: option.splits json.splits if_splits)

lemma inv_frame: "rpc_inv c \<Longrightarrow> rpc_inv (read_frame j c)"
  by (auto simp: read_frame_def inv_reader_ends split: sum.splits elim!: dispatch_cases
      dest!: resolve_cases intro: inv_set_future)

lemma fut_change_frame: "rpc_inv c \<Longrightarrow> fut_change (Frame j) c (read_frame j c)"
  by (auto simp: read_frame_def fut_change_reader_ends fut_change_same split: sum.splits
      elim!: dispatch_cases dest!: resolve_cases)
     (auto simp: fut_change_def answered_by_def)

lemma inv_task: "rpc_inv c \<Longrightarrow> rpc_inv (run_task C h ok c)"
  by (auto simp: run_task_def handle_request_def Let_def send_response_def inv_closed_flag
      split: list.splits sum.splits json.splits)

lemma futs_task: "rc_futs (run_task C h ok c) = rc_futs c"
  by (auto simp: run_task_def handle_request_def Let_def send_response_def
      split: list.splits sum.splits json.splits)

lemma connect_state:
  "snd (connect outs c) = c \<or>
   (\<not> rc_closed c \<and> \<not> rc_ws c \<and> snd (connect outs c) = c\<lparr>rc_ws := True, rc_wire := True, rc_reader := True\<rparr>)"
  by (simp add: connect_def)

lemma inv_register: "rpc_inv (register_request_handler m c) = rpc_inv c"
  by (rule rpc_inv_cong) (simp_all add: register_request_handler_def)

lemma inv_next: "rpc_inv c \<Longrightarrow> rpc_inv (snd (next_item c))"
  by (cases "rc_queue c") (auto simp: next_item_def rpc_inv_def)

lemma inv_lost: "rpc_inv c \<Longrightarrow> rpc_inv (connection_lost c)"
  by (simp add: connection_lost_def inv_reader_ends inv_closed_flag)

lemma rpc_step_inv: "rpc_inv c \<Longrightarrow> rpc_inv (rpc_step C h op c)"
proof (cases op)
  case (Connect outs)
  assume "rpc_inv c"
  with Connect show ?thesis using connect_state [of outs c] by (auto simp: rpc_inv_def)
next
  case (Notify ok m ps)
  assume "rpc_inv c"
  with Notify show ?thesis by (simp add: notify_def split: option.splits)
qed (simp_all add: inv_start inv_await inv_frame inv_task inv_close inv_register inv_next inv_lost)

lemma rpc_step_futs: "rpc_inv c \<Longrightarrow> fut_change op c (rpc_step C h op c)"
proof (cases op)
  case (Connect outs)
  show ?thesis using Connect connect_state [of outs c] by (auto intro: fut_change_same)
next
  case (Notify ok m ps)
  then show ?thesis by (simp add: notify_def fut_change_same split: option.splits)
next
  case Lost
  assume "rpc_inv c"
  with Lost show ?thesis by (auto simp: connection_lost_def fut_change_def rpc_inv_def)
next
  case NextItem
  then show ?thesis by (auto simp: next_item_def intro!: fut_change_same split: list.splits)
qed (simp_all add: fut_change_start fut_change_await fut_change_frame fut_change_close
    register_request_handler_def futs_task fut_change_same)

lemma rpc_run_inv: "rpc_inv c \<Longrightarrow> rpc_inv (rpc_run C h ops c)"
  unfolding rpc_run_def by (induction ops arbitrary: c) (auto simp: rpc_step_inv)

lemma rpc_run_Nil [simp]: "rpc_run C h [] c = c"
  by (simp add: rpc_run_def)

lemma rpc_run_Cons [simp]: "rpc_run C h (op # ops) c = rpc_run C h ops (rpc_step C h op c)"
  by (simp add: rpc_run_def)

lemma rpc_run_append [simp]: "rpc_run C h (xs @ ys) c = rpc_run C h ys (rpc_run C h xs c)"
  by (simp add: rpc_run_def)

lemma new_client_inv: "0 < m \<Longrightarrow> rpc_inv (new_client m)"
  by (simp add: rpc_inv_def new_client_def)

lemma rpc_step_done:
  "rpc_inv c \<Longrightarrow> rc_futs c i = Some f \<Longrightarrow> f \<noteq> Waiting \<Longrightarrow> rc_futs (rpc_step C h op c) i = Some f"
  using rpc_step_futs [of c op C h] by (auto simp: fut_change_def)

lemma rpc_run_done:
  "rpc_inv c \<Longrightarrow> rc_futs c i = Some f \<Longrightarrow> f \<noteq> Waiting \<Longrightarrow> rc_futs (rpc_run C h ops c) i = Some f"
  by (induction ops arbitrary: c) (auto simp: rpc_step_done rpc_step_inv)

lemma start_request_new:
  "rpc_inv c \<Longrightarrow> rc_futs c i = None \<Longrightarrow> rc_futs (snd (start_request ok m ps c)) i \<in> {None, Some Waiting}"
  by (auto simp: start_request_state)

lemma rpc_step_new:
  assumes "rpc_inv c" "rc_futs c i = None"
  shows "rc_futs (rpc_step C h op c) i \<in> {None, Some Waiting}"
proof (cases op)
  case (Connect outs)
  with assms connect_state [of outs c] show ?thesis by auto
next
  case (Await t k)
  with assms show ?thesis
    by (cases "k = i") (auto simp: await_response_def split: option.splits future.splits)
next
  case (Frame j)
  with assms show ?thesis
    by (auto simp: read_frame_def rpc_inv_def split: sum.splits elim!: dispatch_cases dest!: resolve_cases)
next
  case Close
  with assms show ?thesis
    by (cases "rc_closed c") (simp add: close_client_def, auto simp: close_client_state)
next
  case Lost
  with assms show ?thesis by (simp add: connection_lost_def)
qed (use assms start_request_new in \<open>auto simp: register_request_handler_def futs_task next_item_def notify_def
    split: list.splits option.splits\<close>)

lemma rpc_run_result:
  assumes "rpc_inv c" "rc_futs (rpc_run C h ops c) i = Some (Result j)"
    "rc_futs c i \<in> {None, Some Waiting}"
  shows "\<exists>pre op post. ops = pre @ op # post \<and> answered_by op i j \<and> rc_futs (rpc_run C h pre c) i = Some Waiting"
  using assms
proof (induction ops arbitrary: c)
  case (Cons op ops)
  let ?c' = "rpc_step C h op c"
  have inv: "rpc_inv ?c'" by (rule rpc_step_inv) (rule Cons.prems)
  show ?case
  proof (cases "rc_futs ?c' i \<in> {None, Some Waiting}")
    case True
    from Cons.IH [OF inv _ True] Cons.prems(2) obtain pre op' post where
      "ops = pre @ op' # post" "answered_by op' i j" "rc_futs (rpc_run C h pre ?c') i = Some Waiting"
      by auto
    then show ?thesis by (intro exI [of _ "op # pre"]) auto
  next
    case False
    then have "rc_futs ?c' i = Some (Result j)"
      using rpc_run_done [OF inv, of i _ C h ops] Cons.prems(2) by (cases "rc_futs ?c' i") auto
    moreover have "rc_futs c i = Some Waiting"
      using False rpc_step_new [OF Cons.prems(1), of i C h op] Cons.prems(3) by auto
    ultimately have "answered_by op i j"
      using rpc_step_futs [OF Cons.prems(1), of op C h]
      by (auto simp: fut_change_def dest!: spec [where x = i])
    then show ?thesis using \<open>rc_futs c i = Some Waiting\<close> by (intro exI [of _ "[]"]) auto
  qed
qed auto

lemma drain_stops: "None \<in> set q \<Longrightarrow> snd (drain q)"
  by (induction q rule: drain.induct) (auto split: prod.splits)

lemma rpc_closed_step: "rc_closed c \<Longrightarrow> rc_closed (rpc_step C h op c)"
proof (cases op)
  case (Await t k)
  moreover assume "rc_closed c"
  ultimately show ?thesis by (auto simp: await_response_def split: option.splits future.splits)
next
  case (Frame j)
  moreover assume "rc_closed c"
  ultimately show ?thesis
    by (auto simp: read_frame_def split: sum.splits elim!: dispatch_cases dest!: resolve_cases)
next
  case (RunTask ok)
  moreover assume "rc_closed c"
  ultimately show ?thesis by (auto simp: run_task_def handle_request_def Let_def send_response_def
      split: list.splits sum.splits json.splits)
qed (auto simp: connect_def register_request_handler_def start_request_state notify_def next_item_def
    connection_lost_def close_client_def split: list.splits option.splits)

lemma rpc_closed_run: "rc_closed c \<Longrightarrow> rc_closed (rpc_run C h ops c)"
  by (induction ops arbitrary: c) (auto simp: rpc_closed_step)

lemma close_closed: "rc_closed (close_client c)"
  by (simp add: close_client_def fail_pending_def teardown_transport_def Let_def)

lemma close_not_waiting:
  assumes "rpc_inv c" "\<not> rc_closed c"
  shows "\<not> rc_reader (close_client c)" "None \<in> set (rc_queue (close_client c))"
  using assms by (auto simp: close_client_state) (auto simp: wake_notifications_def)

lemma rpc_reader_step: "rc_closed c \<Longrightarrow> \<not> rc_reader c \<Longrightarrow> \<not> rc_reader (rpc_step C h op c)"
proof (cases op)
  case (Await t k)
  moreover assume "\<not> rc_reader c"
  ultimately show ?thesis by (auto simp: await_response_def split: option.splits future.splits)
next
  case (RunTask ok)
  moreover assume "\<not> rc_reader c"
  ultimately show ?thesis by (auto simp: run_task_def handle_request_def Let_def send_response_def
      split: list.splits sum.splits json.splits)
qed (auto simp: connect_def register_request_handler_def start_request_state notify_def next_item_def
    connection_lost_def close_client_def read_frame_def split: list.splits option.splits)

lemma rpc_reader_run: "rc_closed c \<Longrightarrow> \<not> rc_reader c \<Longrightarrow> \<not> rc_reader (rpc_run C h ops c)"
  by (induction ops arbitrary: c) (auto simp: rpc_closed_step rpc_reader_step)

section \<open>Properties\<close>


definition demo_codec :: codec where
  "demo_codec = \<lparr>loads = (\<lambda>_. None), guess_mime = (\<lambda>_. None), py_repr = (\<lambda>_. [])\<rparr>"

definition demo_rpc :: "rpc_op list" where
  "demo_rpc = [Connect [True], Request True ''initialize'' JNull, Request True ''model/list'' JNull,
     Frame (Some (JObj [(''id'', JInt 2), (''result'', JStr ''models'')]))]"

lemmas rpc_eval = rpc_run_def demo_rpc_def new_client_def connect_def ensure_open_def start_request_def
  send_frame_def request_payload_def or_else_def read_frame_def dispatch_def resolve_response_def
  future_done_def set_future_def require_hash_def Let_def


text \<open>
  C5: no request waits for ever on a dead connection: whenever the reader is not running,
  because the peer went away, a frame broke the dispatch or the client was closed, every
  future is done. The queue never exceeds its limit.
\<close>

theorem rpc_no_hang:
  assumes "0 < m"
  shows "(\<not> rc_reader (rpc_run C h ops (new_client m)) \<longrightarrow>
           rc_futs (rpc_run C h ops (new_client m)) i \<noteq> Some Waiting)
         \<and> length (rc_queue (rpc_run C h ops (new_client m))) \<le> rc_max (rpc_run C h ops (new_client m))"
  using rpc_run_inv [OF new_client_inv [OF assms], of C h ops] by (auto simp: rpc_inv_def)

lemma rpc_no_hang_witness:
  "\<not> rc_reader (rpc_run demo_codec (\<lambda>_ _. Inl []) [Connect [True], Request True ''initialize'' JNull, Lost]
      (new_client 2)) \<and>
   rc_futs (rpc_run demo_codec (\<lambda>_ _. Inl []) [Connect [True], Request True ''initialize'' JNull, Lost]
      (new_client 2)) 1 \<noteq> Some Waiting"
  using rpc_no_hang [of 2 demo_codec "\<lambda>_ _. Inl []" "[Connect [True], Request True ''initialize'' JNull, Lost]" 1]
  by (simp add: rpc_eval connection_lost_def reader_ends_def fail_pending_def wake_notifications_def)

text \<open>
  Closing is final: the consumer of notifications meets a sentinel, no future waits,
  and whatever happens afterwards every request is refused.
\<close>

theorem rpc_close_final:
  assumes "0 < m" and "\<not> rc_closed (rpc_run C h ops (new_client m))"
  shows "snd (drain (rc_queue (close_client (rpc_run C h ops (new_client m)))))
         \<and> (\<forall>more i ok me ps. let c = rpc_run C h more (close_client (rpc_run C h ops (new_client m)))
              in rc_futs c i \<noteq> Some Waiting \<and>
                 start_request ok me ps c = (Inl (RuntimeError ''AppServerClient is closed''), c))"
proof -
  let ?c = "rpc_run C h ops (new_client m)"
  have inv: "rpc_inv ?c" by (rule rpc_run_inv [OF new_client_inv [OF assms(1)]])
  note cl = close_not_waiting [OF inv assms(2)]
  have "rc_futs (rpc_run C h more (close_client ?c)) i \<noteq> Some Waiting" for more i
    using rpc_run_inv [OF inv_close [OF inv], of C h more]
      rpc_reader_run [OF close_closed cl(1), of C h more] by (auto simp: rpc_inv_def)
  moreover have "rc_closed (rpc_run C h more (close_client ?c))" for more
    by (rule rpc_closed_run [OF close_closed])
  ultimately show ?thesis
    using drain_stops [OF cl(2)] by (simp add: Let_def start_request_def ensure_open_def)
qed

lemma rpc_close_final_witness:
  "snd (drain (rc_queue (close_client (rpc_run demo_codec (\<lambda>_ _. Inl []) demo_rpc (new_client 2)))))
   \<and> (\<forall>more i ok me ps. let c = rpc_run demo_codec (\<lambda>_ _. Inl []) more
          (close_client (rpc_run demo_codec (\<lambda>_ _. Inl []) demo_rpc (new_client 2)))
        in rc_futs c i \<noteq> Some Waiting \<and>
           start_request ok me ps c = (Inl (RuntimeError ''AppServerClient is closed''), c))"
  by (rule rpc_close_final) (simp_all add: rpc_eval)

text \<open>
  Closing a client whose reader runs never closes the socket itself, since the reader's
  \<open>finally\<close> block clears \<open>_ws\<close> before \<open>_teardown_transport\<close> looks at it; no later operation
  of the client closes it either.
\<close>

theorem close_leaves_socket_open:
  assumes "0 < m" and "rc_reader (rpc_run C h ops (new_client m))" and "\<not> rc_closed (rpc_run C h ops (new_client m))"
  shows "rc_wire (close_client (rpc_run C h ops (new_client m))) = rc_wire (rpc_run C h ops (new_client m))
         \<and> \<not> rc_ws (close_client (rpc_run C h ops (new_client m)))"
proof -
  let ?c = "rpc_run C h ops (new_client m)"
  have inv: "rpc_inv ?c" by (rule rpc_run_inv [OF new_client_inv [OF assms(1)]])
  have "\<not> rc_ws (close_client ?c)"
    using inv_close [OF inv] close_not_waiting(1) [OF inv assms(3)] by (simp add: rpc_inv_def)
  then show ?thesis using assms(2,3) by (simp add: close_client_state [OF inv])
qed

lemma close_leaves_socket_open_witness:
  "rc_wire (close_client (rpc_run demo_codec (\<lambda>_ _. Inl []) demo_rpc (new_client 2)))"
  using close_leaves_socket_open [of 2 demo_codec "\<lambda>_ _. Inl []" demo_rpc]
  by (simp add: rpc_eval)

text \<open>A request whose frame cannot be sent leaves its entry in \<open>_pending\<close>.\<close>

lemma failed_send_leaks:
  "rpc_inv c \<Longrightarrow> rc_ws c \<Longrightarrow> \<not> rc_closed c \<Longrightarrow>
   fst (start_request False m ps c) = Inl SendFailed \<and> rc_next c \<in> set (rc_pending (snd (start_request False m ps c)))"
  by (simp add: start_request_def Let_def send_frame_def ensure_open_def)

end
