(* ===== verification/Codex_Session.thy ===== *)
theory Codex_Session
  imports Rpc_Client
begin

text \<open>
  A conversation with the sidecar above the JSON-RPC client: error classification
  (\<open>codex/shared.py\<close>), the thread life cycle (\<open>codex/thread.py\<close>), the requests of
  \<open>codex/turn.py\<close> outside the stream, and the diagnostics of \<open>codex/diagnostics.py\<close>. The
  peer is the parameter \<open>req\<close>, which answers a request and moves its own state.
\<close>

section \<open>Errors of the peer\<close>

definition json_is_int :: "json \<Rightarrow> int \<Rightarrow> bool" where
  "json_is_int j i \<longleftrightarrow> id_key j = Some i"

definition exn_text :: "codec \<Rightarrow> json \<Rightarrow> json \<Rightarrow> string" where
  "exn_text C code msg = ''['' @ py_str C code @ ''] '' @ py_str C msg"

definition lower_char :: "char \<Rightarrow> char" where
  "lower_char c = (let n = (of_char c :: nat) in if 65 \<le> n \<and> n \<le> 90 then char_of (n + 32) else c)"

definition is_thread_not_found :: "codec \<Rightarrow> rpc_exn \<Rightarrow> bool" where
  "is_thread_not_found C e =
     (case e of
        AppServerError code m d \<Rightarrow>
          json_is_int code (- 32600) \<and>
          sublist ''thread not found'' (map lower_char (exn_text C code m))
      | _ \<Rightarrow> False)"

text \<open>
  The pattern \<open>expected active turn id `E` but found `A`\<close>, where \<open>E\<close> and \<open>A\<close> are not empty and
  hold no back quote, at the start of a text and then at its first position.
\<close>

definition quoted :: "string \<Rightarrow> (string \<times> string) option" where
  "quoted s =
     (let q = takeWhile (\<lambda>c. c \<noteq> CHR 0x60) s; r = dropWhile (\<lambda>c. c \<noteq> CHR 0x60) s in
      if q = [] \<or> r = [] then None else Some (q, tl r))"

definition skip_prefix :: "string \<Rightarrow> string \<Rightarrow> string option" where
  "skip_prefix p s = (if prefix p s then Some (drop (length p) s) else None)"

definition match_stale :: "string \<Rightarrow> (string \<times> string) option" where
  "match_stale s =
     (case skip_prefix (''expected active turn id '' @ [CHR 0x60]) s of
        None \<Rightarrow> None
      | Some s1 \<Rightarrow> (case quoted s1 of
          None \<Rightarrow> None
        | Some (e, s2) \<Rightarrow> (case skip_prefix ('' but found '' @ [CHR 0x60]) s2 of
            None \<Rightarrow> None
          | Some s3 \<Rightarrow> map_option (\<lambda>(a, _). (e, a)) (quoted s3))))"

fun search_stale :: "string \<Rightarrow> (string \<times> string) option" where
  "search_stale [] = None"
| "search_stale (c # cs) = (case match_stale (c # cs) of Some r \<Rightarrow> Some r | None \<Rightarrow> search_stale cs)"

definition stale_sidecar_turn_error :: "codec \<Rightarrow> rpc_exn \<Rightarrow> (string \<times> string) option" where
  "stale_sidecar_turn_error C e =
     (case e of
        AppServerError code m d \<Rightarrow>
          if \<not> json_is_int code (- 32600) then None else search_stale (exn_text C code m)
      | _ \<Rightarrow> None)"

lemma quoted_exact:
  "CHR 0x60 \<notin> set q \<Longrightarrow> q \<noteq> [] \<Longrightarrow> quoted (q @ CHR 0x60 # r) = Some (q, r)"
proof -
  assume *: "CHR 0x60 \<notin> set q" "q \<noteq> []"
  have "takeWhile (\<lambda>c. c \<noteq> CHR 0x60) (q @ CHR 0x60 # r) = q"
    using *(1) by (subst takeWhile_append2) auto
  moreover have "dropWhile (\<lambda>c. c \<noteq> CHR 0x60) (q @ CHR 0x60 # r) = CHR 0x60 # r"
    using *(1) by (subst dropWhile_append2) auto
  ultimately show ?thesis using *(2) by (simp add: quoted_def)
qed

lemma plain_not_found:
  "is_thread_not_found C (AppServerError (JInt (- 32600)) (JStr ''thread not found'') d)"
proof -
  have "map lower_char (exn_text C (JInt (- 32600)) (JStr ''thread not found'')) =
     map lower_char (''['' @ str_of_int (- 32600) @ ''] '') @ ''thread not found'' @ []"
    by (simp add: exn_text_def lower_char_def)
  then have "sublist ''thread not found'' (map lower_char (exn_text C (JInt (- 32600)) (JStr ''thread not found'')))"
    unfolding sublist_def by blast
  then show ?thesis by (simp add: is_thread_not_found_def json_is_int_def)
qed

section \<open>Threads\<close>

record thread_session =
  th_id :: json
  th_ready :: bool
  th_changes :: "json list"

record thread_setup =
  tc_cwd :: string
  tc_approval :: string
  tc_sandbox :: string
  tc_config :: json

type_synonym 's peer = "string \<Rightarrow> json \<Rightarrow> 's \<Rightarrow> (rpc_exn + json) \<times> 's"

definition with_config :: "thread_setup \<Rightarrow> (string \<times> json) list \<Rightarrow> json" where
  "with_config T params = JObj (if truthy (tc_config T) then params @ [(''config'', tc_config T)] else params)"

text \<open>The callback's own exceptions are swallowed: only the announcement is modelled.\<close>

definition emit_thread_change :: "json \<Rightarrow> thread_session \<Rightarrow> thread_session" where
  "emit_thread_change t th = th\<lparr>th_changes := th_changes th @ [t]\<rparr>"

definition reset_thread :: "thread_session \<Rightarrow> thread_session" where
  "reset_thread th = emit_thread_change JNull (th\<lparr>th_id := JNull, th_ready := False\<rparr>)"

definition try_resume ::
  "codec \<Rightarrow> thread_setup \<Rightarrow> 's peer \<Rightarrow> json \<Rightarrow> 's \<Rightarrow> (rpc_exn + bool) \<times> 's" where
  "try_resume C T req t s =
     (case req ''thread/resume'' (with_config T [(''threadId'', t)]) s of
        (Inr _, s') \<Rightarrow> (Inr True, s')
      | (Inl e, s') \<Rightarrow>
          if is_thread_not_found C e \<or> (case e of AppServerError code m d \<Rightarrow> json_is_int code (- 32601) | _ \<Rightarrow> False)
          then (Inr False, s') else (Inl e, s'))"

definition open_new_thread ::
  "thread_setup \<Rightarrow> 's peer \<Rightarrow> thread_session \<Rightarrow> 's \<Rightarrow> (rpc_exn + json) \<times> thread_session \<times> 's" where
  "open_new_thread T req th s =
     (case req ''thread/start'' (with_config T [(''cwd'', JStr (tc_cwd T)),
              (''approvalPolicy'', JStr (tc_approval T)), (''sandbox'', JStr (tc_sandbox T))]) s of
        (Inl e, s') \<Rightarrow> (Inl e, th, s')
      | (Inr result, s') \<Rightarrow>
          (case bind_py (get_item result ''thread'') (\<lambda>t. get_item t ''id'') of
             Inl e \<Rightarrow> (Inl (PyError e), th, s')
           | Inr t \<Rightarrow> (Inr t, emit_thread_change t (th\<lparr>th_id := t, th_ready := True\<rparr>), s')))"

definition ensure_thread ::
  "codec \<Rightarrow> thread_setup \<Rightarrow> 's peer \<Rightarrow> thread_session \<Rightarrow> 's \<Rightarrow> (rpc_exn + json) \<times> thread_session \<times> 's" where
  "ensure_thread C T req th s =
     (if th_id th \<noteq> JNull \<and> th_ready th then (Inr (th_id th), th, s)
      else if th_id th \<noteq> JNull then
        (case try_resume C T req (th_id th) s of
           (Inl e, s') \<Rightarrow> (Inl e, th, s')
         | (Inr True, s') \<Rightarrow> (Inr (th_id th), th\<lparr>th_ready := True\<rparr>, s')
         | (Inr False, s') \<Rightarrow> open_new_thread T req (reset_thread th) s')
      else open_new_thread T req th s)"

definition read_thread ::
  "codec \<Rightarrow> 's peer \<Rightarrow> json \<Rightarrow> thread_session \<Rightarrow> 's \<Rightarrow> (rpc_exn + json option) \<times> 's" where
  "read_thread C req t th s =
     (let target = or_else t (th_id th) in
      if \<not> truthy target then (Inr None, s)
      else (case req ''thread/read'' (JObj [(''threadId'', target)]) s of
              (Inl (AppServerError code m d), s') \<Rightarrow> (Inr None, s')
            | (Inl e, s') \<Rightarrow> (Inl e, s')
            | (Inr r, s') \<Rightarrow> (Inr (if is_obj r then Some r else None), s')))"

definition inject_history ::
  "'s peer \<Rightarrow> json list \<Rightarrow> thread_session \<Rightarrow> 's \<Rightarrow> rpc_exn option \<times> 's" where
  "inject_history req items th s =
     (if \<not> truthy (th_id th) \<or> items = [] then (None, s)
      else (case req ''thread/inject_items'' (JObj [(''threadId'', th_id th), (''items'', JList items)]) s of
              (Inl (AppServerError code m d), s') \<Rightarrow> (None, s')
            | (Inl e, s') \<Rightarrow> (Some e, s')
            | (Inr r, s') \<Rightarrow> (None, s')))"

section \<open>Starting a turn\<close>

record turn_setup =
  tu_model :: "string option"
  tu_effort :: "string option"

definition opt_truthy :: "string option \<Rightarrow> bool" where
  "opt_truthy v \<longleftrightarrow> v \<noteq> None \<and> v \<noteq> Some []"

definition build_turn_params :: "turn_setup \<Rightarrow> json \<Rightarrow> json list \<Rightarrow> json" where
  "build_turn_params U t input =
     JObj ([(''threadId'', t), (''input'', JList input)]
       @ (if opt_truthy (tu_model U) then [(''model'', opt_json (tu_model U))] else [])
       @ (if opt_truthy (tu_effort U) then [(''effort'', opt_json (tu_effort U))] else []))"

text \<open>
  The scheme \<open>urlparse\<close> finds: the text before the first colon, when it starts with a letter
  and holds only scheme characters, in lower case; leading control characters and blanks are
  dropped first, as are tabs and line breaks anywhere.
\<close>

definition scheme_char :: "char \<Rightarrow> bool" where
  "scheme_char c = (let n = (of_char (lower_char c) :: nat) in
     (97 \<le> n \<and> n \<le> 122) \<or> is_digit c \<or> c = CHR ''+'' \<or> c = CHR ''-'' \<or> c = CHR ''.'')"

definition is_letter :: "char \<Rightarrow> bool" where
  "is_letter c = (let n = (of_char (lower_char c) :: nat) in 97 \<le> n \<and> n \<le> 122)"

definition url_scheme :: "string \<Rightarrow> string" where
  "url_scheme s =
     (let s1 = filter (\<lambda>c. c \<notin> {CHR 0x09, CHR 0x0A, CHR 0x0D}) (dropWhile (\<lambda>c. (of_char c :: nat) \<le> 32) s);
          p = takeWhile (\<lambda>c. c \<noteq> CHR '':'') s1
      in if CHR '':'' \<in> set s1 \<and> p \<noteq> [] \<and> is_letter (hd p) \<and> list_all scheme_char p
         then map lower_char p else [])"

definition build_input :: "string \<Rightarrow> string list \<Rightarrow> json list" where
  "build_input text attachments =
     JObj [(''type'', JStr ''text''), (''text'', JStr text)]
     # map (\<lambda>a. if url_scheme a \<in> {''http'', ''https'', ''data''}
                then JObj [(''type'', JStr ''image''), (''url'', JStr a)]
                else JObj [(''type'', JStr ''localImage''), (''path'', JStr a)]) attachments"

datatype begin_result = Begun json | Refused chat_event | BeginRaised rpc_exn

text \<open>An AppServerError becomes an event of the stream; anything else is raised.\<close>

definition refusal :: "codec \<Rightarrow> rpc_exn \<Rightarrow> begin_result" where
  "refusal C e =
     (case e of
        AppServerError code m d \<Rightarrow>
          Refused (ErrorEvent (error_code_value CODEX_ERROR) (Some (exn_text C code m)))
      | _ \<Rightarrow> BeginRaised e)"

definition begin_turn_with_retry ::
  "codec \<Rightarrow> thread_setup \<Rightarrow> turn_setup \<Rightarrow> 's peer \<Rightarrow> json list \<Rightarrow> thread_session \<Rightarrow> 's
     \<Rightarrow> begin_result \<times> thread_session \<times> 's" where
  "begin_turn_with_retry C T U req input th s =
     (case ensure_thread C T req th s of
        (Inl e, th1, s1) \<Rightarrow> (BeginRaised e, th1, s1)
      | (Inr t, th1, s1) \<Rightarrow>
          (case req ''turn/start'' (build_turn_params U t input) s1 of
             (Inr r, s2) \<Rightarrow> (Begun r, th1, s2)
           | (Inl e, s2) \<Rightarrow>
               if \<not> is_thread_not_found C e then (refusal C e, th1, s2)
               else (case ensure_thread C T req (reset_thread th1) s2 of
                       (Inl e', th2, s3) \<Rightarrow> (BeginRaised e', th2, s3)
                     | (Inr t', th2, s3) \<Rightarrow>
                         (case req ''turn/start'' (build_turn_params U t' input) s3 of
                            (Inr r, s4) \<Rightarrow> (Begun r, th2, s4)
                          | (Inl e', s4) \<Rightarrow> (refusal C e', th2, s4)))))"

section \<open>Interrupting and steering\<close>

datatype control = Accepted | Declined | StaleTurn string string | ControlRaised rpc_exn

definition control_error :: "codec \<Rightarrow> rpc_exn \<Rightarrow> control" where
  "control_error C e =
     (case e of
        AppServerError code m d \<Rightarrow>
          (case stale_sidecar_turn_error C e of
             Some (expected, actual) \<Rightarrow> StaleTurn expected actual
           | None \<Rightarrow> Declined)
      | _ \<Rightarrow> ControlRaised e)"

definition interrupt :: "codec \<Rightarrow> 's peer \<Rightarrow> json \<Rightarrow> json \<Rightarrow> 's \<Rightarrow> control \<times> 's" where
  "interrupt C req t turn s =
     (case req ''turn/interrupt'' (JObj [(''threadId'', t), (''turnId'', turn)]) s of
        (Inl e, s') \<Rightarrow> (control_error C e, s')
      | (Inr _, s') \<Rightarrow> (Accepted, s'))"

text \<open>\<open>cur\<close> is the session's current turn; extending its idle deadline is the caller's part.\<close>

definition steer ::
  "codec \<Rightarrow> 's peer \<Rightarrow> string \<Rightarrow> json \<Rightarrow> json \<Rightarrow> json \<Rightarrow> thread_session \<Rightarrow> 's \<Rightarrow> control \<times> 's" where
  "steer C req text turn t cur th s =
     (let target_thread = or_else t (th_id th); target_turn = or_else turn cur in
      if \<not> truthy target_thread \<or> \<not> truthy target_turn then (Declined, s)
      else (case req ''turn/steer'' (JObj [(''threadId'', target_thread),
                    (''input'', JList [JObj [(''type'', JStr ''text''), (''text'', JStr text)]]),
                    (''expectedTurnId'', target_turn)]) s of
              (Inl e, s') \<Rightarrow> (control_error C e, s')
            | (Inr _, s') \<Rightarrow> (Accepted, s')))"

section \<open>Paged requests\<close>

definition lift_exn :: "'a py \<Rightarrow> rpc_exn + 'a" where
  "lift_exn r = (case r of Inl e \<Rightarrow> Inl (PyError e) | Inr a \<Rightarrow> Inr a)"

fun find_turn :: "json \<Rightarrow> json list \<Rightarrow> (string \<times> json) list option" where
  "find_turn t [] = None"
| "find_turn t (x # xs) =
     (case x of
        JObj kv \<Rightarrow> if of_null (jget kv ''id'') = t then Some kv else find_turn t xs
      | _ \<Rightarrow> find_turn t xs)"

definition page_params :: "json \<Rightarrow> json option \<Rightarrow> json" where
  "page_params t cursor =
     JObj ([(''threadId'', t), (''limit'', JInt 20), (''itemsView'', JStr ''notLoaded''),
            (''sortDirection'', JStr ''desc'')]
       @ (case cursor of None \<Rightarrow> [] | Some c \<Rightarrow> [(''cursor'', c)]))"

fun probe_pages ::
  "nat \<Rightarrow> 's peer \<Rightarrow> json \<Rightarrow> json \<Rightarrow> json option \<Rightarrow> 's \<Rightarrow> (rpc_exn + string option) \<times> 's" where
  "probe_pages 0 req t turn cursor s = (Inr None, s)"
| "probe_pages (Suc n) req t turn cursor s =
     (case req ''thread/turns/list'' (page_params t cursor) s of
        (Inl e, s') \<Rightarrow> (Inl e, s')
      | (Inr page, s') \<Rightarrow>
          (case get_none page ''data'' of
             Inl e \<Rightarrow> (Inl (PyError e), s')
           | Inr (JList turns) \<Rightarrow>
               (case find_turn turn turns of
                  Some kv \<Rightarrow> (Inr (as_str (of_null (jget kv ''status''))), s')
                | None \<Rightarrow>
                    (case get_none page ''nextCursor'' of
                       Inr (JStr c) \<Rightarrow> probe_pages n req t turn (Some (JStr c)) s'
                     | _ \<Rightarrow> (Inr None, s')))
           | Inr _ \<Rightarrow> (Inr None, s')))"

definition TURN_PROBE_MAX_PAGES :: nat where
  "TURN_PROBE_MAX_PAGES = 5"

definition probe_turn_status :: "'s peer \<Rightarrow> json \<Rightarrow> json \<Rightarrow> 's \<Rightarrow> (rpc_exn + string option) \<times> 's" where
  "probe_turn_status req t turn s = probe_pages TURN_PROBE_MAX_PAGES req t turn None s"

text \<open>
  \<open>list_models\<close> follows cursors without a limit: with fuel, and no value when it runs out.
\<close>

fun list_models_from ::
  "nat \<Rightarrow> 's peer \<Rightarrow> json list \<Rightarrow> json option \<Rightarrow> 's \<Rightarrow> ((rpc_exn + json list) \<times> 's) option" where
  "list_models_from 0 req acc cursor s = None"
| "list_models_from (Suc n) req acc cursor s =
     (case req ''model/list'' (JObj ((''limit'', JInt 100)
              # (case cursor of None \<Rightarrow> [] | Some c \<Rightarrow> [(''cursor'', c)]))) s of
        (Inl e, s') \<Rightarrow> Some (Inl e, s')
      | (Inr page, s') \<Rightarrow>
          (case get_none page ''data'' of
             Inl e \<Rightarrow> Some (Inl (PyError e), s')
           | Inr d \<Rightarrow>
               let acc' = (case d of JList xs \<Rightarrow> acc @ filter is_obj xs | _ \<Rightarrow> acc) in
               (case get_none page ''nextCursor'' of
                  Inr (JStr c) \<Rightarrow> list_models_from n req acc' (Some (JStr c)) s'
                | _ \<Rightarrow> Some (Inr acc', s'))))"

definition read_rate_limits :: "'s peer \<Rightarrow> 's \<Rightarrow> (rpc_exn + json option) \<times> 's" where
  "read_rate_limits req s =
     (case req ''account/rateLimits/read'' JNull s of
        (Inl e, s') \<Rightarrow>
          ((case e of
              AppServerError code m d \<Rightarrow> if json_is_int code (- 32601) then Inr None else Inl e
            | _ \<Rightarrow> Inl e), s')
      | (Inr result, s') \<Rightarrow>
          (lift_exn (bind_py (get_none result ''rateLimits'') (\<lambda>l. Inr (if is_obj l then Some l else None))), s'))"

section \<open>What the callback has been told\<close>

text \<open>The thread the owner of the callback believes in, when it knew \<open>start\<close> at first.\<close>

definition announced :: "json \<Rightarrow> thread_session \<Rightarrow> json" where
  "announced start th = (if th_changes th = [] then start else last (th_changes th))"

definition in_sync :: "json \<Rightarrow> thread_session \<Rightarrow> bool" where
  "in_sync start th \<longleftrightarrow> announced start th = th_id th"

lemma in_sync_emit: "th_id th = t \<Longrightarrow> in_sync start (emit_thread_change t th)"
  by (simp add: in_sync_def announced_def emit_thread_change_def)

lemma in_sync_open: "in_sync start th \<Longrightarrow> in_sync start (fst (snd (open_new_thread T req th s)))"
  by (auto simp: open_new_thread_def in_sync_emit split: prod.splits sum.splits)

lemma in_sync_reset: "in_sync start (reset_thread th)"
  by (simp add: reset_thread_def in_sync_emit)

lemma in_sync_ready: "in_sync start th \<Longrightarrow> in_sync start (th\<lparr>th_ready := b\<rparr>)"
  by (auto simp: in_sync_def announced_def split: if_splits)

lemma in_sync_ensure:
  assumes "in_sync start th"
  shows "in_sync start (fst (snd (ensure_thread C T req th s)))"
proof (cases "th_id th \<noteq> JNull \<and> \<not> th_ready th")
  case True
  obtain r s' where "try_resume C T req (th_id th) s = (r, s')" by (metis surj_pair)
  with True assms show ?thesis
    by (cases r) (auto simp: ensure_thread_def in_sync_ready in_sync_open in_sync_reset split: bool.splits)
qed (use assms in \<open>auto simp: ensure_thread_def in_sync_open\<close>)

text \<open>A peer that also records the methods it was asked for.\<close>

definition logging :: "'s peer \<Rightarrow> (string list \<times> 's) peer" where
  "logging req m params s = (let (r, s') = req m params (snd s) in (r, fst s @ [m], s'))"

lemma fst_logging: "fst (snd (logging req m params s)) = fst s @ [m]"
  by (simp add: logging_def split: prod.splits)

lemma logging_step: "logging req m params s = (r, s') \<Longrightarrow> fst s' = fst s @ [m]"
  using fst_logging [of req m params s] by simp

lemma try_resume_log:
  "try_resume C T (logging req) t s = (r, s') \<Longrightarrow> fst s' = fst s @ [''thread/resume'']"
  by (auto simp: try_resume_def dest!: logging_step split: prod.splits sum.splits if_splits)

lemma open_new_log:
  "open_new_thread T (logging req) th s = (r, th', s') \<Longrightarrow> fst s' = fst s @ [''thread/start'']"
  by (auto simp: open_new_thread_def dest!: logging_step split: prod.splits sum.splits)

lemma ensure_log:
  assumes "ensure_thread C T (logging req) th s = (r, th', s')"
  shows "\<exists>l. fst s' = fst s @ l \<and> length l \<le> (if th_id th = JNull then 1 else 2) \<and> ''turn/start'' \<notin> set l"
proof (cases "th_id th \<noteq> JNull \<and> \<not> th_ready th")
  case True
  obtain x s1 where x: "try_resume C T (logging req) (th_id th) s = (x, s1)" by (metis surj_pair)
  then have "fst s1 = fst s @ [''thread/resume'']" by (rule try_resume_log)
  with True assms x show ?thesis
    by (auto simp: ensure_thread_def dest!: open_new_log split: sum.splits bool.splits)
next
  case False
  with assms show ?thesis
    by (auto simp: ensure_thread_def dest!: open_new_log split: if_splits)
qed

lemma reset_id [simp]: "th_id (reset_thread th) = JNull"
  by (simp add: reset_thread_def emit_thread_change_def)

lemma ensure_step:
  assumes "in_sync start th" "ensure_thread C T (logging req) th s = (r, th', s')"
  obtains l where "in_sync start th'" "fst s' = fst s @ l" "length l \<le> (if th_id th = JNull then 1 else 2)" "''turn/start'' \<notin> set l"
  using in_sync_ensure [OF assms(1), of C T "logging req" s] ensure_log [OF assms(2)] assms(2) by auto

text \<open>
  C6: starting a turn keeps the callback in step with the session whatever the peer answers,
  sends \<open>turn/start\<close> at most twice and at most five requests in all.
\<close>

theorem begin_turn_bounded_in_sync:
  assumes "in_sync start th" and "begin_turn_with_retry C T U (logging req) input th (lg, s) = (res, th', (lg', s'))"
  shows "in_sync start th' \<and> (\<exists>l. lg' = lg @ l \<and> length l \<le> 5 \<and> count_list l ''turn/start'' \<le> 2)"
proof -
  obtain r1 th1 s1 where e1: "ensure_thread C T (logging req) th (lg, s) = (r1, th1, s1)"
    by (metis prod_cases3)
  then obtain l1 where y1: "in_sync start th1" and l1: "fst s1 = lg @ l1" "length l1 \<le> 2" "''turn/start'' \<notin> set l1"
    by (rule ensure_step [OF assms(1)]) (auto split: if_splits)
  show ?thesis
  proof (cases r1)
    case (Inl e)
    with assms(2) e1 l1 y1 show ?thesis
      by (auto simp: begin_turn_with_retry_def intro!: exI [of _ l1])
  next
    case (Inr t)
    obtain r2 s2 where q2: "logging req ''turn/start'' (build_turn_params U t input) s1 = (r2, s2)"
      by (metis surj_pair)
    from logging_step [OF q2] l1(1) have l2: "fst s2 = lg @ l1 @ [''turn/start'']" by simp
    obtain r3 th3 s3 where e3: "ensure_thread C T (logging req) (reset_thread th1) s2 = (r3, th3, s3)"
      by (metis prod_cases3)
    then obtain l3 where y3: "in_sync start th3" and l3: "fst s3 = fst s2 @ l3" "length l3 \<le> 1" "''turn/start'' \<notin> set l3"
      by (rule ensure_step [OF in_sync_reset]) auto
    show ?thesis
    proof (cases "\<exists>e. r2 = Inl e \<and> is_thread_not_found C e")
      case False
      with assms(2) e1 Inr q2 l1 l2 y1 show ?thesis
        by (auto simp: begin_turn_with_retry_def count_list_0_iff split: sum.splits
            intro!: exI [of _ "l1 @ [''turn/start'']"])
    next
      case True
      show ?thesis
      proof (cases r3)
        case (Inl e)
        with True assms(2) e1 Inr q2 e3 l1 l2 l3 y3 show ?thesis
          by (auto simp: begin_turn_with_retry_def count_list_0_iff
              intro!: exI [of _ "l1 @ ''turn/start'' # l3"])
      next
        case (Inr t')
        obtain r4 s4 where q4: "logging req ''turn/start'' (build_turn_params U t' input) s3 = (r4, s4)"
          by (metis surj_pair)
        with logging_step [OF q4] True assms(2) e1 \<open>r1 = Inr t\<close> q2 e3 Inr l1 l2 l3 y3 show ?thesis
          by (auto simp: begin_turn_with_retry_def count_list_0_iff split: sum.splits
              intro!: exI [of _ "l1 @ ''turn/start'' # l3 @ [''turn/start'']"])
      qed
    qed
  qed
qed

definition demo_setup :: thread_setup where
  "demo_setup = \<lparr>tc_cwd = ''/w'', tc_approval = ''never'', tc_sandbox = ''none'', tc_config = JNull\<rparr>"

text \<open>A peer that forgot the thread at first and accepts the next one.\<close>

definition demo_peer :: "nat peer" where
  "demo_peer m params n =
     (if m = ''thread/start'' then (Inr (JObj [(''thread'', JObj [(''id'', JStr ''new'')])]), n + 1)
      else if m = ''turn/start'' then
        ((if n = 0 then Inl (AppServerError (JInt (- 32600)) (JStr ''thread not found'') JNull)
          else Inr (JStr ''ok'')), n + 1)
      else (Inr JNull, n))"

lemma begin_turn_bounded_in_sync_witness:
  "begin_turn_with_retry demo_codec demo_setup \<lparr>tu_model = None, tu_effort = None\<rparr> (logging demo_peer) []
     \<lparr>th_id = JStr ''old'', th_ready = True, th_changes = []\<rparr> ([], 0)
   = (Begun (JStr ''ok''), \<lparr>th_id = JStr ''new'', th_ready = True, th_changes = [JNull, JStr ''new'']\<rparr>,
      ([''turn/start'', ''thread/start'', ''turn/start''], 3))
   \<and> in_sync (JStr ''old'') \<lparr>th_id = JStr ''new'', th_ready = True, th_changes = [JNull, JStr ''new'']\<rparr>"
proof -
  have run: "begin_turn_with_retry demo_codec demo_setup \<lparr>tu_model = None, tu_effort = None\<rparr> (logging demo_peer) []
     \<lparr>th_id = JStr ''old'', th_ready = True, th_changes = []\<rparr> ([], 0)
   = (Begun (JStr ''ok''), \<lparr>th_id = JStr ''new'', th_ready = True, th_changes = [JNull, JStr ''new'']\<rparr>,
      ([''turn/start'', ''thread/start'', ''turn/start''], 3))"
    by (simp add: begin_turn_with_retry_def ensure_thread_def open_new_thread_def logging_def demo_peer_def
        plain_not_found reset_thread_def emit_thread_change_def)
  show ?thesis
    using begin_turn_bounded_in_sync [OF _ run, of "JStr ''old''"] run
    by (simp add: in_sync_def announced_def)
qed

text \<open>
  A probe of a turn's status asks for at most five pages, and a status it reports is the
  one a page gave for exactly that turn.
\<close>

lemma find_turn_sound: "find_turn t xs = Some kv \<Longrightarrow> JObj kv \<in> set xs \<and> of_null (jget kv ''id'') = t"
  by (induction t xs rule: find_turn.induct) (auto split: json.splits if_splits)

lemma probe_pages_log:
  "probe_pages n (logging req) t turn cursor s = (r, s') \<Longrightarrow>
     \<exists>k \<le> n. fst s' = fst s @ replicate k ''thread/turns/list''"
proof (induction n arbitrary: cursor s)
  case 0
  then show ?case by auto
next
  case (Suc n)
  obtain q s1 where q: "logging req ''thread/turns/list'' (page_params t cursor) s = (q, s1)" by (metis surj_pair)
  note l1 = logging_step [OF q]
  have one: "s' = s1 \<Longrightarrow> ?case" using l1 by (intro exI [of _ 1]) auto
  show ?case
  proof (cases "\<exists>c. probe_pages n (logging req) t turn (Some (JStr c)) s1 = (r, s')")
    case True
    then obtain c where "probe_pages n (logging req) t turn (Some (JStr c)) s1 = (r, s')" by blast
    from Suc.IH [OF this] obtain k where "k \<le> n" "fst s' = fst s1 @ replicate k ''thread/turns/list''" by blast
    then show ?thesis using l1 by (intro exI [of _ "Suc k"]) auto
  next
    case False
    then have "s' = s1"
      using Suc.prems q by (auto split: sum.splits json.splits option.splits)
    then show ?thesis by (rule one)
  qed
qed

end
