(* ===== verification/Codex_Turn.thy ===== *)
theory Codex_Turn
  imports Codex_Session
begin

text \<open>
  The stream of one turn: \<open>CodexTurnSession.run_turn\<close> with its notification loop, the idle
  watchdog (\<open>codex/idle.py\<close>) and the diagnostics (\<open>codex/diagnostics.py\<close>). Times are the
  readings of \<open>time.monotonic\<close>. The loop is a state machine that takes one \<open>wake\<close> per
  iteration: what the wait for the next notification ended with, and what the callbacks
  would answer. The iterator \<open>notifications()\<close> is a generator: a timeout cancels it inside
  \<open>queue.get\<close>, which finishes it, so that every later \<open>anext\<close> raises StopAsyncIteration.
\<close>

section \<open>Diagnostics\<close>

type_synonym active_item = "string option \<times> string option \<times> real option"

record diagnostics =
  dg_thread :: json
  dg_turn :: json
  dg_started :: real
  dg_last_raw_at :: "real option"
  dg_last_event_at :: "real option"
  dg_raw :: nat
  dg_events :: nat
  dg_completed :: nat
  dg_stale :: nat
  dg_noise :: nat
  dg_last_method :: string
  dg_last_turn :: "string option"
  dg_stale_method :: string
  dg_stale_turn :: "string option"
  dg_stale_at :: "real option"
  dg_stale_item :: "string option"
  dg_stale_tool :: "string option"
  dg_noise_method :: string
  dg_noise_at :: "real option"
  dg_last_item :: "string option"
  dg_last_tool :: "string option"
  dg_last_event :: string
  dg_turn_completed :: bool
  dg_active :: "(string \<times> active_item) list"

definition new_diagnostics :: "json \<Rightarrow> json \<Rightarrow> real \<Rightarrow> diagnostics" where
  "new_diagnostics th t now = \<lparr>dg_thread = th, dg_turn = t, dg_started = now,
     dg_last_raw_at = None, dg_last_event_at = None, dg_raw = 0, dg_events = 0,
     dg_completed = 0, dg_stale = 0, dg_noise = 0, dg_last_method = ''none'',
     dg_last_turn = None, dg_stale_method = ''none'', dg_stale_turn = None, dg_stale_at = None,
     dg_stale_item = None, dg_stale_tool = None, dg_noise_method = ''none'', dg_noise_at = None,
     dg_last_item = None, dg_last_tool = None, dg_last_event = ''none'',
     dg_turn_completed = False, dg_active = []\<rparr>"

text \<open>The first of the keys whose value is a non-empty string.\<close>

fun first_str :: "string list \<Rightarrow> (string \<times> json) list \<Rightarrow> string option" where
  "first_str [] item = None"
| "first_str (k # ks) item =
     (case jget item k of
        Some (JStr s) \<Rightarrow> if s \<noteq> [] then Some s else first_str ks item
      | _ \<Rightarrow> first_str ks item)"

definition type_label :: "string \<Rightarrow> string" where
  "type_label t =
     (if t = ''commandExecution'' then ''shell''
      else if t = ''fileChange'' then ''file_change''
      else if t = ''webSearch'' then ''web_search''
      else if t = ''imageGeneration'' then ''image_generation''
      else if t = ''imageView'' then ''image_view''
      else t)"

definition item_label :: "(string \<times> json) list \<Rightarrow> string option" where
  "item_label item =
     (case first_str [''toolName'', ''tool'', ''name''] item of
        Some s \<Rightarrow> Some s
      | None \<Rightarrow> (case jget item ''type'' of Some (JStr t) \<Rightarrow> Some (type_label t) | _ \<Rightarrow> None))"

definition item_key :: "codec \<Rightarrow> (string \<times> json) list \<Rightarrow> string" where
  "item_key C item =
     (case first_str [''id'', ''callId'', ''toolCallId''] item of
        Some s \<Rightarrow> s
      | None \<Rightarrow> py_str C (of_null (jget item ''type'')) @ '':'' @ py_str C (opt_json (item_label item)))"

definition active_item_priority :: "string option \<Rightarrow> string option \<Rightarrow> int" where
  "active_item_priority ty tool =
     (if ty \<in> {Some ''commandExecution'', Some ''mcpToolCall'', Some ''dynamicToolCall'',
               Some ''webSearch'', Some ''imageGeneration'', Some ''fileChange''} then 30
      else if tool \<notin> {None, Some ''reasoning'', Some ''agentMessage'', Some ''userMessage''} then 20
      else if ty = Some ''agentMessage'' then 10
      else if ty = Some ''reasoning'' then 5
      else 0)"

definition active_item_rank :: "active_item \<Rightarrow> int \<times> real" where
  "active_item_rank i = (case i of (ty, tool, since) \<Rightarrow>
     (active_item_priority ty tool, - (case since of None \<Rightarrow> 0 | Some t \<Rightarrow> t)))"

definition rank_less :: "int \<times> real \<Rightarrow> int \<times> real \<Rightarrow> bool" where
  "rank_less a b \<longleftrightarrow> fst a < fst b \<or> (fst a = fst b \<and> snd a < snd b)"

text \<open>\<open>max(values, key=...)\<close>: the first of the greatest.\<close>

fun max_by_rank :: "active_item \<Rightarrow> active_item list \<Rightarrow> active_item" where
  "max_by_rank best [] = best"
| "max_by_rank best (i # is) =
     max_by_rank (if rank_less (active_item_rank best) (active_item_rank i) then i else best) is"

definition selected_active_item :: "diagnostics \<Rightarrow> active_item" where
  "selected_active_item d =
     (case map snd (dg_active d) of [] \<Rightarrow> (None, None, None) | i # is \<Rightarrow> max_by_rank i is)"

definition has_active_items :: "diagnostics \<Rightarrow> bool" where
  "has_active_items d \<longleftrightarrow> dg_active d \<noteq> []"

definition absorb_raw :: "codec \<Rightarrow> real \<Rightarrow> notification \<Rightarrow> diagnostics \<Rightarrow> diagnostics" where
  "absorb_raw C now note d =
     (let d1 = d\<lparr>dg_raw := dg_raw d + 1, dg_last_raw_at := Some now, dg_last_method := n_method note,
                 dg_last_turn := n_turn note,
                 dg_turn_completed := (dg_turn_completed d \<or> n_method note = ''turn/completed'')\<rparr>
      in case jget (n_params note) ''item'' of
           Some (JObj item) \<Rightarrow>
             let ty = as_str (of_null (jget item ''type'')); tool = item_label item;
                 d2 = d1\<lparr>dg_last_item := ty, dg_last_tool := tool\<rparr>
             in if n_method note = ''item/started''
                then d2\<lparr>dg_active := dict_set (item_key C item) (ty, tool, Some now) (dg_active d2)\<rparr>
                else if n_method note = ''item/completed''
                then d2\<lparr>dg_completed := dg_completed d2 + 1, dg_active := dict_pop (item_key C item) (dg_active d2)\<rparr>
                else d2
         | _ \<Rightarrow> d1)"

definition absorb_stale_raw :: "real \<Rightarrow> notification \<Rightarrow> diagnostics \<Rightarrow> diagnostics" where
  "absorb_stale_raw now note d =
     (let d1 = d\<lparr>dg_stale := dg_stale d + 1, dg_stale_at := Some now, dg_stale_method := n_method note,
                 dg_stale_turn := n_turn note\<rparr>
      in case jget (n_params note) ''item'' of
           Some (JObj item) \<Rightarrow> d1\<lparr>dg_stale_item := as_str (of_null (jget item ''type'')),
                                    dg_stale_tool := item_label item\<rparr>
         | _ \<Rightarrow> d1)"

definition absorb_noise_raw :: "real \<Rightarrow> notification \<Rightarrow> diagnostics \<Rightarrow> diagnostics" where
  "absorb_noise_raw now note d =
     d\<lparr>dg_noise := dg_noise d + 1, dg_noise_at := Some now, dg_noise_method := n_method note\<rparr>"

fun event_class :: "chat_event \<Rightarrow> string" where
  "event_class (TokenEvent x) = ''TokenEvent''"
| "event_class (ToolCallEvent n a) = ''ToolCallEvent''"
| "event_class (ToolResultEvent n t a e) = ''ToolResultEvent''"
| "event_class (DoneEvent t) = ''DoneEvent''"
| "event_class (ErrorEvent c d) = ''ErrorEvent''"

definition absorb_chat_event :: "real \<Rightarrow> chat_event \<Rightarrow> diagnostics \<Rightarrow> diagnostics" where
  "absorb_chat_event now ev d =
     d\<lparr>dg_events := dg_events d + 1, dg_last_event_at := Some now, dg_last_event := event_class ev\<rparr>"

section \<open>The idle watchdog\<close>

datatype idle_decision = HARD_CAP_EXCEEDED | NEEDS_PROBE | EXTEND_SILENTLY

definition decide_idle :: "real \<Rightarrow> real option \<Rightarrow> bool \<Rightarrow> real option \<Rightarrow> real \<Rightarrow> real \<Rightarrow> idle_decision" where
  "decide_idle now started has_active last_probe hard_cap probe_interval =
     (if (case started of None \<Rightarrow> False | Some t \<Rightarrow> now - t \<ge> hard_cap) then HARD_CAP_EXCEEDED
      else if \<not> has_active then NEEDS_PROBE
      else (case last_probe of
              None \<Rightarrow> NEEDS_PROBE
            | Some p \<Rightarrow> if now - p \<ge> probe_interval then NEEDS_PROBE else EXTEND_SILENTLY))"

text \<open>The \<open>CODEX_\<close> settings the loop reads, the idle time of the turn, and which callbacks it has.\<close>

record turn_settings =
  st_hard_cap :: real
  st_probe_interval :: real
  st_storm :: nat
  st_idle :: "real option"
  st_has_idle :: bool
  st_has_limits :: bool

section \<open>The session\<close>

record turn_session =
  ts_turn :: json
  ts_idle :: "real option"
  ts_deadline :: "real option"
  ts_started :: "real option"
  ts_probe :: "real option"
  ts_diag :: diagnostics
  ts_open :: bool

definition extend_idle_deadline :: "real \<Rightarrow> turn_session \<Rightarrow> turn_session" where
  "extend_idle_deadline now ts =
     (case ts_idle ts of None \<Rightarrow> ts | Some i \<Rightarrow> ts\<lparr>ts_deadline := Some (now + i)\<rparr>)"

text \<open>
  What \<open>on_idle\<close> does when it is called: it finds a sign of life and extends the deadline, it
  finds none, or it raises (the sidecar reported a terminal status).
\<close>

datatype idle_reply = IdleAlive | IdleDead | IdleRaises string

datatype turn_exn =
    TimeoutExn
  | StaleTurnStream diagnostics
  | Terminal string
  | TranslateExn py_exn
  | RateExn rpc_exn

text \<open>The value of \<open>_handle_idle\<close>: whether to go on, or the exception of the callback.\<close>

definition handle_idle ::
  "turn_settings \<Rightarrow> real \<Rightarrow> idle_reply \<Rightarrow> turn_session \<Rightarrow> (turn_exn + bool) \<times> turn_session" where
  "handle_idle S now reply ts =
     (case decide_idle now (ts_started ts) (has_active_items (ts_diag ts)) (ts_probe ts)
             (st_hard_cap S) (st_probe_interval S) of
        HARD_CAP_EXCEEDED \<Rightarrow> (Inr False, ts)
      | NEEDS_PROBE \<Rightarrow>
          if \<not> st_has_idle S then (Inr False, ts)
          else let ts1 = ts\<lparr>ts_probe := Some now\<rparr> in
            (case reply of
               IdleAlive \<Rightarrow> (Inr True, extend_idle_deadline now ts1)
             | IdleDead \<Rightarrow> (Inr False, ts1)
             | IdleRaises st \<Rightarrow> (Inl (Terminal st), ts1))
      | EXTEND_SILENTLY \<Rightarrow> (Inr True, extend_idle_deadline now ts))"

section \<open>One iteration of the loop\<close>

text \<open>
  A wake: the clock when the iteration reads it, the clock when the wait ends, what ended it,
  whether another task extended the deadline meanwhile (and when), what \<open>on_idle\<close> would answer
  and what the rate limit request would return.
\<close>

datatype arrival = Arrives notification | Sentinel | Fires

record wake =
  wk_entry :: real
  wk_at :: real
  wk_what :: arrival
  wk_steered :: "real option"
  wk_idle :: idle_reply
  wk_limits :: "rpc_exn + json option"

datatype next_note = Got notification | Stopped | Again | Raises turn_exn

text \<open>One round of the loop of \<open>_next_notification\<close>.\<close>

definition after_idle :: "(turn_exn + bool) \<times> turn_session \<Rightarrow> next_note \<times> turn_session" where
  "after_idle r = (case r of
     (Inl e, ts) \<Rightarrow> (Raises e, ts)
   | (Inr True, ts) \<Rightarrow> (Again, ts)
   | (Inr False, ts) \<Rightarrow> (Raises TimeoutExn, ts))"

definition next_notification :: "turn_settings \<Rightarrow> wake \<Rightarrow> turn_session \<Rightarrow> next_note \<times> turn_session" where
  "next_notification S w ts =
     (case ts_deadline ts of
        Some d \<Rightarrow>
          if d - wk_entry w \<le> 0 then after_idle (handle_idle S (wk_entry w) (wk_idle w) ts)
          else if \<not> ts_open ts then (Stopped, ts)
          else let ts1 = (case wk_steered w of None \<Rightarrow> ts | Some t \<Rightarrow> extend_idle_deadline t ts) in
            (case wk_what w of
               Arrives n \<Rightarrow> (Got n, ts1)
             | Sentinel \<Rightarrow> (Stopped, ts1\<lparr>ts_open := False\<rparr>)
             | Fires \<Rightarrow>
                 let ts2 = ts1\<lparr>ts_open := False\<rparr> in
                 if (case ts_deadline ts2 of None \<Rightarrow> False | Some d' \<Rightarrow> wk_at w < d') then (Again, ts2)
                 else after_idle (handle_idle S (wk_at w) (wk_idle w) ts2))
      | None \<Rightarrow>
          if \<not> ts_open ts then (Stopped, ts)
          else (case wk_what w of
                  Arrives n \<Rightarrow> (Got n, ts)
                | Sentinel \<Rightarrow> (Stopped, ts\<lparr>ts_open := False\<rparr>)
                | Fires \<Rightarrow> (Again, ts)))"

section \<open>Which notifications reach the turn\<close>

definition is_stale_turn_note :: "turn_session \<Rightarrow> notification \<Rightarrow> bool" where
  "is_stale_turn_note ts note =
     (ts_turn ts \<noteq> JNull \<and> n_turn note \<noteq> None \<and> opt_json (n_turn note) \<noteq> ts_turn ts)"

definition is_session_noise_note :: "notification \<Rightarrow> bool" where
  "is_session_noise_note note \<longleftrightarrow>
     n_turn note = None \<and> n_method note \<noteq> notif_value TURN_COMPLETED \<and> \<not> prefix ''item/'' (n_method note)"

definition is_account_note :: "notification \<Rightarrow> bool" where
  "is_account_note note \<longleftrightarrow>
     n_method note \<in> {''account/rateLimits/updated'', ''thread/tokenUsage/updated''}"

text \<open>
  \<open>_handle_account_notification\<close>: whether the note is consumed, with the snapshots handed to
  the callback.
\<close>

definition handle_account_notification ::
  "turn_settings \<Rightarrow> (rpc_exn + json option) \<Rightarrow> notification \<Rightarrow> (rpc_exn + bool) \<times> json list" where
  "handle_account_notification S limits note =
     (if n_method note = ''account/rateLimits/updated'' then
        (Inr True, case jget (n_params note) ''rateLimits'' of
           Some (JObj kv) \<Rightarrow> if st_has_limits S then [JObj kv] else []
         | _ \<Rightarrow> [])
      else if n_method note \<noteq> ''thread/tokenUsage/updated'' then (Inr False, [])
      else if \<not> st_has_limits S then (Inr True, [])
      else (case limits of
              Inl e \<Rightarrow> (Inl e, [])
            | Inr None \<Rightarrow> (Inr True, [])
            | Inr (Some snap) \<Rightarrow> (Inr True, [snap])))"

text \<open>\<open>_should_skip_current_turn_note\<close> with the storm detection.\<close>

definition should_skip ::
  "turn_settings \<Rightarrow> real \<Rightarrow> notification \<Rightarrow> turn_session \<Rightarrow> (turn_exn + bool) \<times> turn_session" where
  "should_skip S now note ts =
     (if is_stale_turn_note ts note then
        let d = absorb_stale_raw now note (ts_diag ts); ts1 = ts\<lparr>ts_diag := d\<rparr> in
        if dg_raw d = 0 \<and> dg_stale d \<ge> st_storm S then (Inl (StaleTurnStream d), ts1)
        else (Inr True, ts1)
      else if is_session_noise_note note then
        (Inr True, ts\<lparr>ts_diag := absorb_noise_raw now note (ts_diag ts)\<rparr>)
      else (Inr False, ts))"

section \<open>The loop\<close>

datatype run_end = Running | Returned | Raised turn_exn

record turn_run =
  tr_ts :: turn_session
  tr_acc :: string
  tr_out :: "chat_event list"
  tr_limits :: "json list"
  tr_end :: run_end

definition emit_translated :: "real \<Rightarrow> chat_event option py \<Rightarrow> turn_run \<Rightarrow> turn_run" where
  "emit_translated now r run =
     (case r of
        Inl e \<Rightarrow> run\<lparr>tr_end := Raised (TranslateExn e)\<rparr>
      | Inr None \<Rightarrow> run
      | Inr (Some ev) \<Rightarrow>
          run\<lparr>tr_ts := (tr_ts run)\<lparr>ts_diag := absorb_chat_event now ev (ts_diag (tr_ts run))\<rparr>,
              tr_acc := tr_acc run @ token_text ev,
              tr_out := tr_out run @ [ev],
              tr_end := (if terminal_event ev then Returned else Running)\<rparr>)"

definition on_note :: "codec \<Rightarrow> turn_settings \<Rightarrow> wake \<Rightarrow> notification \<Rightarrow> turn_run \<Rightarrow> turn_run" where
  "on_note C S w note run =
     (case handle_account_notification S (wk_limits w) note of
        (Inl e, snaps) \<Rightarrow> run\<lparr>tr_end := Raised (RateExn e)\<rparr>
      | (Inr True, snaps) \<Rightarrow> run\<lparr>tr_limits := tr_limits run @ snaps\<rparr>
      | (Inr False, snaps) \<Rightarrow>
          (case should_skip S (wk_at w) note (tr_ts run) of
             (Inl e, ts) \<Rightarrow> run\<lparr>tr_ts := ts, tr_end := Raised e\<rparr>
           | (Inr True, ts) \<Rightarrow> run\<lparr>tr_ts := ts\<rparr>
           | (Inr False, ts) \<Rightarrow>
               let ts1 = extend_idle_deadline (wk_at w) ts;
                   ts2 = ts1\<lparr>ts_diag := absorb_raw C (wk_at w) note (ts_diag ts1)\<rparr>
               in emit_translated (wk_at w) (translate_notification C note (tr_acc run)) (run\<lparr>tr_ts := ts2\<rparr>)))"

definition run_wake :: "codec \<Rightarrow> turn_settings \<Rightarrow> wake \<Rightarrow> turn_run \<Rightarrow> turn_run" where
  "run_wake C S w run =
     (if tr_end run \<noteq> Running then run
      else (case next_notification S w (tr_ts run) of
              (Raises e, ts) \<Rightarrow> run\<lparr>tr_ts := ts, tr_end := Raised e\<rparr>
            | (Stopped, ts) \<Rightarrow> run\<lparr>tr_ts := ts, tr_end := Returned\<rparr>
            | (Again, ts) \<Rightarrow> run\<lparr>tr_ts := ts\<rparr>
            | (Got note, ts) \<Rightarrow> on_note C S w note (run\<lparr>tr_ts := ts\<rparr>)))"

definition start_run :: "turn_settings \<Rightarrow> json \<Rightarrow> json \<Rightarrow> real \<Rightarrow> turn_run" where
  "start_run S thread turn now =
     \<lparr>tr_ts = \<lparr>ts_turn = turn, ts_idle = st_idle S, ts_deadline = map_option (\<lambda>i. now + i) (st_idle S),
        ts_started = Some now, ts_probe = None, ts_diag = new_diagnostics thread turn now, ts_open = True\<rparr>,
      tr_acc = [], tr_out = [], tr_limits = [], tr_end = Running\<rparr>"

definition run_turn :: "codec \<Rightarrow> turn_settings \<Rightarrow> wake list \<Rightarrow> turn_run \<Rightarrow> turn_run" where
  "run_turn C S ws run = fold (run_wake C S) ws run"

section \<open>Invariants of the stream\<close>

lemma run_turn_Nil [simp]: "run_turn C S [] run = run"
  by (simp add: run_turn_def)

lemma run_turn_Cons [simp]: "run_turn C S (w # ws) run = run_turn C S ws (run_wake C S w run)"
  by (simp add: run_turn_def)

lemma run_turn_append [simp]: "run_turn C S (xs @ ys) run = run_turn C S ys (run_turn C S xs run)"
  by (simp add: run_turn_def)

lemma run_turn_ended: "tr_end run \<noteq> Running \<Longrightarrow> run_turn C S ws run = run"
  by (induction ws) (simp_all add: run_wake_def)

text \<open>
  What was yielded so far: the tokens add up to the text the translation sees, only the last
  event can be terminal, and it is exactly when the loop returned after an event.
\<close>

definition stream_ok :: "turn_run \<Rightarrow> bool" where
  "stream_ok run \<longleftrightarrow>
     tr_acc run = concat (map token_text (tr_out run)) \<and>
     (\<forall>ev \<in> set (butlast (tr_out run)). \<not> terminal_event ev) \<and>
     (tr_end run \<noteq> Returned \<longrightarrow> (\<forall>ev \<in> set (tr_out run). \<not> terminal_event ev))"

lemma stream_ok_cong:
  "stream_ok run \<Longrightarrow> tr_end run = Running \<Longrightarrow> tr_out run' = tr_out run \<Longrightarrow> tr_acc run' = tr_acc run \<Longrightarrow>
   stream_ok run'"
  unfolding stream_ok_def by auto

lemma stream_ok_emit:
  assumes "stream_ok run" "tr_end run = Running"
  shows "stream_ok (emit_translated now r run)"
  using assms by (auto simp: emit_translated_def stream_ok_def split: sum.splits option.splits)

lemma on_note_cases:
  obtains "tr_out (on_note C S w note run) = tr_out run" "tr_acc (on_note C S w note run) = tr_acc run"
  | ts where "on_note C S w note run =
      emit_translated (wk_at w) (translate_notification C note (tr_acc run)) (run\<lparr>tr_ts := ts\<rparr>)"
    "ts_open ts = ts_open (tr_ts run)"
proof (cases "handle_account_notification S (wk_limits w) note")
  case (Pair r snaps)
  show thesis
  proof (cases "r = Inr False")
    case False
    then have "tr_out (on_note C S w note run) = tr_out run" "tr_acc (on_note C S w note run) = tr_acc run"
      using Pair by (auto simp: on_note_def split: sum.splits bool.splits)
    then show thesis by (rule that(1))
  next
    case acc: True
    show thesis
    proof (cases "\<exists>ts. should_skip S (wk_at w) note (tr_ts run) = (Inr False, ts)")
      case True
      then obtain ts where ts: "should_skip S (wk_at w) note (tr_ts run) = (Inr False, ts)" by blast
      then have "ts = tr_ts run" by (auto simp: should_skip_def Let_def split: if_splits)
      with ts Pair acc show thesis
        by (intro that(2) [of "(extend_idle_deadline (wk_at w) ts)\<lparr>ts_diag := absorb_raw C (wk_at w) note
                (ts_diag (extend_idle_deadline (wk_at w) ts))\<rparr>"])
          (auto simp: on_note_def extend_idle_deadline_def Let_def split: option.splits)
    next
      case False
      then have "tr_out (on_note C S w note run) = tr_out run" "tr_acc (on_note C S w note run) = tr_acc run"
        using Pair acc by (auto simp: on_note_def split: sum.splits bool.splits prod.splits)
      then show thesis by (rule that(1))
    qed
  qed
qed

lemma stream_ok_note:
  assumes "stream_ok run" "tr_end run = Running"
  shows "stream_ok (on_note C S w note run)"
proof (rule on_note_cases [of C S w "note" run])
  assume "tr_out (on_note C S w note run) = tr_out run" "tr_acc (on_note C S w note run) = tr_acc run"
  then show ?thesis by (rule stream_ok_cong [OF assms])
next
  fix ts
  assume "on_note C S w note run =
      emit_translated (wk_at w) (translate_notification C note (tr_acc run)) (run\<lparr>tr_ts := ts\<rparr>)"
  then show ?thesis
    using stream_ok_emit [of "run\<lparr>tr_ts := ts\<rparr>"] stream_ok_cong [OF assms, of "run\<lparr>tr_ts := ts\<rparr>"] assms(2)
    by simp
qed

lemma stream_ok_wake: "stream_ok run \<Longrightarrow> stream_ok (run_wake C S w run)"
proof (cases "tr_end run = Running")
  case True
  assume ok: "stream_ok run"
  obtain r ts where r: "next_notification S w (tr_ts run) = (r, ts)" by fastforce
  from ok True have "stream_ok (run\<lparr>tr_ts := ts\<rparr>)" by (rule stream_ok_cong) simp_all
  then show ?thesis
    using ok True r stream_ok_note [of "run\<lparr>tr_ts := ts\<rparr>" C S w]
    by (cases r) (auto simp: run_wake_def stream_ok_def)
qed (simp add: run_wake_def)

lemma stream_ok_run: "stream_ok run \<Longrightarrow> stream_ok (run_turn C S ws run)"
  by (induction ws arbitrary: run) (simp_all add: stream_ok_wake)

lemma stream_ok_start: "stream_ok (start_run S thread turn now)"
  by (simp add: stream_ok_def start_run_def)

lemma collector_buffer:
  "sc_buffer (fold absorb evs c) = sc_buffer c @ concat (map token_text evs)"
  by (induction evs arbitrary: c) (auto simp: token_text_def split: chat_event.splits)

lemma collector_done: "sc_done (fold absorb evs c) = (sc_done c \<or> (\<exists>t. DoneEvent t \<in> set evs))"
proof (induction evs arbitrary: c)
  case (Cons ev evs)
  then show ?case by (cases ev) auto
qed simp

lemma collector_calls:
  "sc_calls (fold absorb evs c) =
     sc_calls c @ concat (map (\<lambda>ev. case ev of ToolCallEvent n a \<Rightarrow> [(n, a)] | _ \<Rightarrow> []) evs)"
  by (induction evs arbitrary: c) (auto split: chat_event.splits)

section \<open>A reference for the stream\<close>

text \<open>
  The notifications the loop takes out of the iterator, which of them concern the turn, and
  what a plain left-to-right translation of those yields.
\<close>

fun received :: "codec \<Rightarrow> turn_settings \<Rightarrow> wake list \<Rightarrow> turn_run \<Rightarrow> notification list" where
  "received C S [] run = []"
| "received C S (w # ws) run =
     (if tr_end run \<noteq> Running then []
      else (case fst (next_notification S w (tr_ts run)) of
              Got n \<Rightarrow> n # received C S ws (run_wake C S w run)
            | _ \<Rightarrow> received C S ws (run_wake C S w run)))"

definition stale_for :: "json \<Rightarrow> notification \<Rightarrow> bool" where
  "stale_for turn n \<longleftrightarrow> \<not> is_account_note n \<and> turn \<noteq> JNull \<and> n_turn n \<noteq> None \<and> opt_json (n_turn n) \<noteq> turn"

definition relevant :: "json \<Rightarrow> notification \<Rightarrow> bool" where
  "relevant turn n \<longleftrightarrow> \<not> is_account_note n \<and> \<not> stale_for turn n \<and> \<not> is_session_noise_note n"

fun translate_stream :: "codec \<Rightarrow> notification list \<Rightarrow> string \<Rightarrow> chat_event list" where
  "translate_stream C [] acc = []"
| "translate_stream C (n # ns) acc =
     (case translate_notification C n acc of
        Inl e \<Rightarrow> []
      | Inr None \<Rightarrow> translate_stream C ns acc
      | Inr (Some ev) \<Rightarrow> ev # (if terminal_event ev then [] else translate_stream C ns (acc @ token_text ev)))"

lemma extend_fields [simp]:
  "ts_turn (extend_idle_deadline t ts) = ts_turn ts" "ts_diag (extend_idle_deadline t ts) = ts_diag ts"
  "ts_open (extend_idle_deadline t ts) = ts_open ts" "ts_idle (extend_idle_deadline t ts) = ts_idle ts"
  "ts_started (extend_idle_deadline t ts) = ts_started ts"
  by (simp_all add: extend_idle_deadline_def split: option.splits)

lemma handle_idle_fields:
  "ts_turn (snd (handle_idle S now r ts)) = ts_turn ts" "ts_diag (snd (handle_idle S now r ts)) = ts_diag ts"
  "ts_open (snd (handle_idle S now r ts)) = ts_open ts"
  by (auto simp: handle_idle_def Let_def split: idle_decision.splits idle_reply.splits)

lemma after_idle_snd: "snd (after_idle x) = snd x"
  by (auto simp: after_idle_def split: prod.splits sum.splits bool.splits)

lemma after_idle_not_got: "fst (after_idle x) \<noteq> Got n"
  by (auto simp: after_idle_def split: prod.splits sum.splits bool.splits)

lemma next_notification_fields:
  "ts_turn (snd (next_notification S w ts)) = ts_turn ts"
  "ts_diag (snd (next_notification S w ts)) = ts_diag ts"
  by (auto simp: next_notification_def Let_def after_idle_snd handle_idle_fields
      split: option.splits arrival.splits)

lemma skip_cases:
  assumes "\<not> is_account_note n"
  shows "should_skip S t n ts =
    (if stale_for (ts_turn ts) n then
       (let d = absorb_stale_raw t n (ts_diag ts); ts1 = ts\<lparr>ts_diag := d\<rparr> in
        if dg_raw d = 0 \<and> dg_stale d \<ge> st_storm S then (Inl (StaleTurnStream d), ts1)
        else (Inr True, ts1))
     else if is_session_noise_note n then
        (Inr True, ts\<lparr>ts_diag := absorb_noise_raw t n (ts_diag ts)\<rparr>)
      else (Inr False, ts))"
  using assms by (simp add: should_skip_def stale_for_def is_stale_turn_note_def)

lemma account_cases:
  "\<not> is_account_note n \<Longrightarrow> handle_account_notification S l n = (Inr False, [])"
  "is_account_note n \<Longrightarrow> fst (handle_account_notification S l n) \<noteq> Inr False"
  by (auto simp: is_account_note_def handle_account_notification_def split: sum.splits option.splits)

definition noted :: "codec \<Rightarrow> real \<Rightarrow> notification \<Rightarrow> turn_session \<Rightarrow> turn_session" where
  "noted C t n ts = (extend_idle_deadline t ts)\<lparr>ts_diag := absorb_raw C t n (ts_diag ts)\<rparr>"

lemma on_note_relevant:
  "relevant (ts_turn (tr_ts run)) n \<Longrightarrow> on_note C S w n run =
     emit_translated (wk_at w) (translate_notification C n (tr_acc run))
       (run\<lparr>tr_ts := noted C (wk_at w) n (tr_ts run)\<rparr>)"
  by (simp add: on_note_def relevant_def account_cases skip_cases noted_def Let_def)

lemma on_note_irrelevant:
  assumes "\<not> relevant (ts_turn (tr_ts run)) n"
  shows "tr_out (on_note C S w n run) = tr_out run" "tr_acc (on_note C S w n run) = tr_acc run"
    "ts_turn (tr_ts (on_note C S w n run)) = ts_turn (tr_ts run)"
proof -
  have "tr_out (on_note C S w n run) = tr_out run \<and> tr_acc (on_note C S w n run) = tr_acc run \<and>
    ts_turn (tr_ts (on_note C S w n run)) = ts_turn (tr_ts run)"
  proof (cases "is_account_note n")
    case True
    obtain r snaps where "handle_account_notification S (wk_limits w) n = (r, snaps)" by fastforce
    moreover from this account_cases(2) [OF True, of S "wk_limits w"] have "r \<noteq> Inr False" by simp
    ultimately show ?thesis by (auto simp: on_note_def split: sum.splits bool.splits)
  next
    case False
    with assms show ?thesis
      by (auto simp: on_note_def account_cases skip_cases relevant_def Let_def)
  qed
  then show "tr_out (on_note C S w n run) = tr_out run" "tr_acc (on_note C S w n run) = tr_acc run"
    "ts_turn (tr_ts (on_note C S w n run)) = ts_turn (tr_ts run)" by simp_all
qed

lemma received_ended [simp]: "tr_end run \<noteq> Running \<Longrightarrow> received C S ws run = []"
  by (cases ws) simp_all

lemma run_turn_translate:
  assumes "tr_end run = Running"
  shows "tr_out (run_turn C S ws run) = tr_out run @
     translate_stream C (filter (relevant (ts_turn (tr_ts run))) (received C S ws run)) (tr_acc run)"
  using assms
proof (induction ws arbitrary: run)
  case (Cons w ws)
  let ?run' = "run_wake C S w run"
  have step: "tr_out (run_turn C S ws r) = tr_out r @ translate_stream C
      (filter (relevant (ts_turn (tr_ts r))) (received C S ws r)) (tr_acc r)" for r
    using Cons.IH [of r] by (cases "tr_end r = Running") (simp_all add: run_turn_ended)
  obtain x ts where x: "next_notification S w (tr_ts run) = (x, ts)" by fastforce
  have tt: "ts_turn ts = ts_turn (tr_ts run)"
    using next_notification_fields(1) [of S w "tr_ts run"] x by simp
  show ?case
  proof (cases x)
    case (Got n)
    let ?r = "run\<lparr>tr_ts := ts\<rparr>"
    have run': "?run' = on_note C S w n ?r" using Cons.prems x Got by (simp add: run_wake_def)
    show ?thesis
    proof (cases "relevant (ts_turn ts) n")
      case False
      then have "\<not> relevant (ts_turn (tr_ts ?r)) n" by simp
      note irr = on_note_irrelevant [OF this, of C S w]
      then show ?thesis using Cons.prems x Got False tt step [of "?run'"] by (simp add: run')
    next
      case True
      then have rel: "relevant (ts_turn (tr_ts ?r)) n" by simp
      have "ts_turn (tr_ts ?run') = ts_turn ts"
        by (auto simp: run' on_note_relevant [OF rel] emit_translated_def noted_def split: sum.splits option.splits)
      then show ?thesis
        using Cons.prems x Got True tt step [of "?run'"]
        by (auto simp: run' on_note_relevant [OF rel] emit_translated_def split: sum.splits option.splits)
    qed
  qed (use Cons.prems x tt step [of "?run'"] in \<open>simp_all add: run_wake_def\<close>)
qed simp

section \<open>A finished iterator\<close>

lemma closed_next:
  "\<not> ts_open ts \<Longrightarrow> (\<forall>n. fst (next_notification S w ts) \<noteq> Got n) \<and> \<not> ts_open (snd (next_notification S w ts))"
  by (auto simp: next_notification_def Let_def after_idle_not_got after_idle_snd handle_idle_fields split: option.splits)

lemma closed_wake:
  assumes "\<not> ts_open (tr_ts run)"
  shows "tr_out (run_wake C S w run) = tr_out run" "\<not> ts_open (tr_ts (run_wake C S w run))"
proof -
  obtain x ts where x: "next_notification S w (tr_ts run) = (x, ts)" by fastforce
  with closed_next [OF assms, of S w] have "\<forall>n. x \<noteq> Got n" "\<not> ts_open ts" by auto
  with x assms show "tr_out (run_wake C S w run) = tr_out run" "\<not> ts_open (tr_ts (run_wake C S w run))"
    by (auto simp: run_wake_def split: next_note.splits)
qed

lemma closed_run: "\<not> ts_open (tr_ts run) \<Longrightarrow> tr_out (run_turn C S ws run) = tr_out run"
  by (induction ws arbitrary: run) (auto simp: closed_wake)

lemma fired_closes:
  "ts_deadline ts = Some d \<Longrightarrow> wk_entry w < d \<Longrightarrow> wk_what w = Fires \<Longrightarrow>
   (\<forall>n. fst (next_notification S w ts) \<noteq> Got n) \<and> (fst (next_notification S w ts) \<noteq> Stopped \<longrightarrow> \<not> ts_open (snd (next_notification S w ts)))"
  by (auto simp: next_notification_def Let_def after_idle_not_got after_idle_snd handle_idle_fields split: option.splits)

section \<open>The diagnostics count what was received\<close>

lemma absorb_counts:
  "dg_raw (absorb_raw C t n d) = dg_raw d + 1" "dg_stale (absorb_raw C t n d) = dg_stale d"
  "dg_raw (absorb_stale_raw t n d) = dg_raw d" "dg_stale (absorb_stale_raw t n d) = dg_stale d + 1"
  "dg_raw (absorb_noise_raw t n d) = dg_raw d" "dg_stale (absorb_noise_raw t n d) = dg_stale d"
  "dg_raw (absorb_chat_event t ev d) = dg_raw d" "dg_stale (absorb_chat_event t ev d) = dg_stale d"
  by (simp_all add: absorb_raw_def absorb_stale_raw_def absorb_noise_raw_def absorb_chat_event_def Let_def
      split: option.splits json.splits)

abbreviation run_diag :: "turn_run \<Rightarrow> diagnostics" where
  "run_diag run \<equiv> ts_diag (tr_ts run)"

lemma on_note_counts:
  "(dg_raw (run_diag (on_note C S w n run)) =
      dg_raw (run_diag run) + (if relevant (ts_turn (tr_ts run)) n then 1 else 0) \<and>
    dg_stale (run_diag (on_note C S w n run)) =
      dg_stale (run_diag run) + (if stale_for (ts_turn (tr_ts run)) n then 1 else 0) \<and>
    (tr_end (on_note C S w n run) = Running \<longrightarrow> stale_for (ts_turn (tr_ts run)) n \<longrightarrow>
      dg_raw (run_diag (on_note C S w n run)) = 0 \<longrightarrow> dg_stale (run_diag (on_note C S w n run)) < st_storm S))"
proof (cases "relevant (ts_turn (tr_ts run)) n")
  case True
  then have "\<not> stale_for (ts_turn (tr_ts run)) n" by (simp add: relevant_def)
  then show ?thesis using True
    by (auto simp: on_note_relevant emit_translated_def noted_def absorb_counts split: sum.splits option.splits)
next
  case False
  show ?thesis
  proof (cases "is_account_note n")
    case True
    then have "\<not> stale_for (ts_turn (tr_ts run)) n" by (simp add: stale_for_def)
    obtain r snaps where "handle_account_notification S (wk_limits w) n = (r, snaps)" by fastforce
    moreover from this account_cases(2) [OF True, of S "wk_limits w"] have "r \<noteq> Inr False" by simp
    ultimately show ?thesis using False \<open>\<not> stale_for _ n\<close> by (auto simp: on_note_def split: sum.splits bool.splits)
  next
    case na: False
    show ?thesis
      using False na by (auto simp: on_note_def account_cases skip_cases relevant_def Let_def absorb_counts not_le)
  qed
qed

lemma on_note_turn: "ts_turn (tr_ts (on_note C S w n run)) = ts_turn (tr_ts run)"
proof (cases "relevant (ts_turn (tr_ts run)) n")
  case True
  then show ?thesis
    by (auto simp: on_note_relevant emit_translated_def noted_def split: sum.splits option.splits)
qed (rule on_note_irrelevant)

definition count_notes :: "(notification \<Rightarrow> bool) \<Rightarrow> notification list \<Rightarrow> nat" where
  "count_notes p ns = length (filter p ns)"

text \<open>The counters of the diagnostics, and that a storm has not been seen while the loop runs.\<close>

definition counts_ok :: "turn_settings \<Rightarrow> turn_run \<Rightarrow> bool" where
  "counts_ok S run \<longleftrightarrow>
     (tr_end run = Running \<longrightarrow> dg_raw (run_diag run) = 0 \<longrightarrow> dg_stale (run_diag run) < st_storm S)"

lemma run_wake_counts:
  assumes "tr_end run = Running" "counts_ok S run"
  shows "counts_ok S (run_wake C S w run) \<and>
     ts_turn (tr_ts (run_wake C S w run)) = ts_turn (tr_ts run) \<and>
     (let ns = (case fst (next_notification S w (tr_ts run)) of Got n \<Rightarrow> [n] | _ \<Rightarrow> []) in
      dg_raw (run_diag (run_wake C S w run)) =
        dg_raw (run_diag run) + count_notes (relevant (ts_turn (tr_ts run))) ns \<and>
      dg_stale (run_diag (run_wake C S w run)) =
        dg_stale (run_diag run) + count_notes (stale_for (ts_turn (tr_ts run))) ns)"
proof -
  obtain x ts where x: "next_notification S w (tr_ts run) = (x, ts)" by fastforce
  have f: "ts_turn ts = ts_turn (tr_ts run)" "ts_diag ts = run_diag run"
    using next_notification_fields [of S w "tr_ts run"] x by simp_all
  show ?thesis
  proof (cases x)
    case (Got n)
    have r: "run_wake C S w run = on_note C S w n (run\<lparr>tr_ts := ts\<rparr>)"
      using assms(1) x Got by (simp add: run_wake_def)
    have "counts_ok S (on_note C S w n (run\<lparr>tr_ts := ts\<rparr>))"
      using on_note_counts [of C S w n "run\<lparr>tr_ts := ts\<rparr>"] assms f
      by (auto simp: counts_ok_def split: if_splits)
    then show ?thesis
      using on_note_counts [of C S w n "run\<lparr>tr_ts := ts\<rparr>"] x Got f
      by (simp add: r on_note_turn count_notes_def)
  qed (use assms x f in \<open>simp_all add: run_wake_def counts_ok_def count_notes_def\<close>)
qed

lemma run_turn_counts:
  assumes "counts_ok S run"
  shows "counts_ok S (run_turn C S ws run) \<and>
     dg_raw (run_diag (run_turn C S ws run)) =
        dg_raw (run_diag run) + count_notes (relevant (ts_turn (tr_ts run))) (received C S ws run) \<and>
     dg_stale (run_diag (run_turn C S ws run)) =
        dg_stale (run_diag run) + count_notes (stale_for (ts_turn (tr_ts run))) (received C S ws run)"
  using assms
proof (induction ws arbitrary: run)
  case (Cons w ws)
  show ?case
  proof (cases "tr_end run = Running")
    case False
    then show ?thesis using Cons.prems by (simp add: run_turn_ended run_wake_def count_notes_def)
  next
    case True
    note step = run_wake_counts [OF True Cons.prems, of C w]
    then show ?thesis
      using Cons.IH [of "run_wake C S w run"] True
      by (cases "fst (next_notification S w (tr_ts run))") (simp_all add: Let_def count_notes_def)
  qed
qed (simp add: count_notes_def)

definition demo_turn_settings :: turn_settings where
  "demo_turn_settings = \<lparr>st_hard_cap = 1800, st_probe_interval = 60, st_storm = 3, st_idle = Some 10,
     st_has_idle = True, st_has_limits = False\<rparr>"

definition demo_wake :: "real \<Rightarrow> real \<Rightarrow> arrival \<Rightarrow> wake" where
  "demo_wake entry t what = \<lparr>wk_entry = entry, wk_at = t, wk_what = what, wk_steered = None,
     wk_idle = IdleAlive, wk_limits = Inr None\<rparr>"

lemmas turn_eval = run_turn_def run_wake_def next_notification_def after_idle_def handle_idle_def
  decide_idle_def has_active_items_def extend_idle_deadline_def demo_wake_def demo_turn_settings_def
  start_run_def new_diagnostics_def

section \<open>Properties\<close>

text \<open>
  C8: along any interleaving of notifications, timeouts and steering, the text a collector
  builds from the yielded events is the text against which the translation reconciles the
  next agent message, and a terminal event is yielded at most once, as the last one.
\<close>

theorem turn_stream_consistent:
  "let run = run_turn C S ws (start_run S thread turn now) in
     sc_buffer (fold absorb (tr_out run) new_collector) = tr_acc run
     \<and> (\<forall>ev \<in> set (butlast (tr_out run)). \<not> terminal_event ev)
     \<and> (tr_end run \<noteq> Returned \<longrightarrow> (\<forall>ev \<in> set (tr_out run). \<not> terminal_event ev))
     \<and> sc_done (fold absorb (tr_out run) new_collector) = (\<exists>t. DoneEvent t \<in> set (tr_out run))"
proof -
  have "stream_ok (run_turn C S ws (start_run S thread turn now))"
    by (rule stream_ok_run [OF stream_ok_start])
  then show ?thesis by (simp add: stream_ok_def collector_buffer collector_done new_collector_def)
qed

lemma turn_stream_consistent_witness:
  "tr_acc (run_turn demo_codec demo_turn_settings
     [demo_wake 0 1 (Arrives \<lparr>n_method = ''item/agentMessage/delta'', n_params = [(''delta'', JStr ''hi'')],
        n_turn = Some ''t''\<rparr>)] (start_run demo_turn_settings JNull (JStr ''t'') 0)) = ''hi''
   \<and> sc_buffer (fold absorb (tr_out (run_turn demo_codec demo_turn_settings
     [demo_wake 0 1 (Arrives \<lparr>n_method = ''item/agentMessage/delta'', n_params = [(''delta'', JStr ''hi'')],
        n_turn = Some ''t''\<rparr>)] (start_run demo_turn_settings JNull (JStr ''t'') 0))) new_collector) = ''hi''"
  using turn_stream_consistent [of demo_codec demo_turn_settings
     "[demo_wake 0 1 (Arrives \<lparr>n_method = ''item/agentMessage/delta'', n_params = [(''delta'', JStr ''hi'')],
        n_turn = Some ''t''\<rparr>)]" JNull "JStr ''t''" 0]
  by (simp add: turn_eval Let_def on_note_def handle_account_notification_def should_skip_def
      is_stale_turn_note_def opt_json_def is_session_noise_note_def translate_notification_def
      emit_translated_def token_text_def)

text \<open>
  C7: the loop refines a plain translation: what it yields is exactly the left-to-right
  translation of the notifications of this turn among those it received. Stale turns,
  session noise, account notes, timeouts and steering change nothing else.
\<close>

theorem turn_stream_reference:
  "tr_out (run_turn C S ws (start_run S thread turn now)) =
     translate_stream C (filter (relevant turn) (received C S ws (start_run S thread turn now))) []"
  using run_turn_translate [of "start_run S thread turn now" C S ws] by (simp add: start_run_def)

text \<open>
  Once the idle timer fires during a wait, no event is yielded any more, whatever
  \<open>on_idle\<close> answers and however the deadline was extended: the timeout has finished the
  iterator, so a loop that goes on waiting returns at the next round without a terminal event.
\<close>

theorem idle_extension_ends_stream:
  assumes "tr_end run = Running" "ts_deadline (tr_ts run) = Some d" "wk_entry w < d" "wk_what w = Fires"
    and "tr_end (run_turn C S [w] run) = Running"
  shows "tr_out (run_turn C S (w # ws) run) = tr_out run
         \<and> ((\<forall>d'. ts_deadline (tr_ts (run_turn C S [w] run)) = Some d' \<longrightarrow> wk_entry w' < d') \<longrightarrow>
             tr_end (run_turn C S [w, w'] run) = Returned)"
proof -
  obtain x ts where x: "next_notification S w (tr_ts run) = (x, ts)" by fastforce
  note fired = fired_closes [OF assms(2,3,4), of S]
  have again: "x = Again" "run_wake C S w run = run\<lparr>tr_ts := ts\<rparr>"
    using assms(1,5) x fired by (cases x; simp add: run_wake_def)+
  then have closed: "\<not> ts_open ts" using fired x by simp
  have "tr_out (run_turn C S (w # ws) run) = tr_out run"
    using closed_run [of "run\<lparr>tr_ts := ts\<rparr>" C S ws] closed again(2) by simp
  moreover have "tr_end (run_turn C S [w, w'] run) = Returned"
    if "\<forall>d'. ts_deadline (tr_ts (run_turn C S [w] run)) = Some d' \<longrightarrow> wk_entry w' < d'"
    using that closed assms(1) again(2)
    by (auto simp: run_wake_def next_notification_def split: option.splits)
  ultimately show ?thesis by blast
qed

lemma idle_extension_ends_stream_witness:
  "tr_end (run_turn demo_codec demo_turn_settings
      [demo_wake 0 10 Fires, demo_wake 11 12 (Arrives \<lparr>n_method = [], n_params = [], n_turn = None\<rparr>)]
      (start_run demo_turn_settings JNull JNull 0)) = Returned"
  using idle_extension_ends_stream [of "start_run demo_turn_settings JNull JNull 0" 10 "demo_wake 0 10 Fires"
      demo_codec demo_turn_settings "[]"
      "demo_wake 11 12 (Arrives \<lparr>n_method = [], n_params = [], n_turn = None\<rparr>)"]
  by (simp add: turn_eval)

text \<open>
  A storm of notifications for another turn cannot go unnoticed: while the loop runs and
  has received nothing of its own turn, it has received fewer stale notes than the threshold.
\<close>

theorem stale_storm_detected:
  assumes "0 < st_storm S"
    and "tr_end (run_turn C S ws (start_run S thread turn now)) = Running"
    and "\<forall>n \<in> set (received C S ws (start_run S thread turn now)). \<not> relevant turn n"
  shows "count_notes (stale_for turn) (received C S ws (start_run S thread turn now)) < st_storm S"
proof -
  let ?run = "start_run S thread turn now"
  have ok: "counts_ok S ?run"
    using assms(1) by (simp add: counts_ok_def start_run_def new_diagnostics_def)
  have t: "ts_turn (tr_ts ?run) = turn" "dg_raw (run_diag ?run) = 0" "dg_stale (run_diag ?run) = 0"
    by (simp_all add: start_run_def new_diagnostics_def)
  have "count_notes (relevant turn) (received C S ws ?run) = 0"
    using assms(3) by (simp add: count_notes_def)
  with run_turn_counts [OF ok, of C ws] assms(2) t show ?thesis by (auto simp: counts_ok_def)
qed

lemma stale_storm_detected_witness:
  "count_notes (stale_for (JStr ''t1'')) (received demo_codec demo_turn_settings
     [demo_wake 0 1 (Arrives \<lparr>n_method = ''item/started'', n_params = [], n_turn = Some ''t0''\<rparr>)]
     (start_run demo_turn_settings JNull (JStr ''t1'') 0)) < 3"
proof -
  have "count_notes (stale_for (JStr ''t1'')) (received demo_codec demo_turn_settings
     [demo_wake 0 1 (Arrives \<lparr>n_method = ''item/started'', n_params = [], n_turn = Some ''t0''\<rparr>)]
     (start_run demo_turn_settings JNull (JStr ''t1'') 0)) < st_storm demo_turn_settings"
    by (rule stale_storm_detected)
      (simp_all add: turn_eval on_note_def handle_account_notification_def should_skip_def
        is_stale_turn_note_def opt_json_def absorb_stale_raw_def relevant_def stale_for_def is_account_note_def)
  then show ?thesis by (simp add: demo_turn_settings_def)
qed

text \<open>
  The hard cap bounds a turn that only pretends to be alive: when the idle timer fires
  after the cap, the loop ends with a timeout without asking \<open>on_idle\<close>.
\<close>

theorem hard_cap_ends_turn:
  assumes "tr_end run = Running" "ts_started (tr_ts run) = Some t0"
    and "ts_deadline (tr_ts run) = Some d" "wk_what w = Fires" "wk_steered w = None"
    and "ts_open (tr_ts run)" "d \<le> wk_at w" "t0 + st_hard_cap S \<le> wk_at w" "wk_entry w < d"
  shows "tr_end (run_turn C S (w # ws) run) = Raised TimeoutExn
         \<and> tr_out (run_turn C S (w # ws) run) = tr_out run"
proof -
  have "next_notification S w (tr_ts run) = (Raises TimeoutExn, (tr_ts run)\<lparr>ts_open := False\<rparr>)"
    using assms by (simp add: next_notification_def after_idle_def handle_idle_def decide_idle_def)
  then show ?thesis using assms(1) by (simp add: run_wake_def run_turn_ended)
qed

lemma hard_cap_ends_turn_witness:
  "tr_end (run_turn demo_codec (demo_turn_settings\<lparr>st_hard_cap := 5\<rparr>) [demo_wake 0 10 Fires]
      (start_run (demo_turn_settings\<lparr>st_hard_cap := 5\<rparr>) JNull JNull 0)) = Raised TimeoutExn"
  using hard_cap_ends_turn [of "start_run (demo_turn_settings\<lparr>st_hard_cap := 5\<rparr>) JNull JNull 0" 0 10
      "demo_wake 0 10 Fires" "demo_turn_settings\<lparr>st_hard_cap := 5\<rparr>" demo_codec "[]"]
  by (simp add: turn_eval)

end
