(* ===== verification/Chat_Stream.thy ===== *)
theory Chat_Stream
  imports Codex_Translate
begin

text \<open>
  The web pipeline of one turn: the conversion of chat events to client frames with redaction
  (\<open>app/rpc/chat/mappers.py\<close>) and \<open>stream_turn\<close> of \<open>app/rpc/chat/stream.py\<close> with its
  coalescing buffer, steer-boundary segments, persistence and every terminal path. The
  database is a store of assistant messages with a journal; \<open>ok n\<close> says whether the \<open>n\<close>-th
  transaction commits, and a failed one raises and leaves no trace.
\<close>

section \<open>Client frames\<close>

record stored_msg =
  m_id :: int
  m_text :: string
  m_meta :: json

text \<open>The \<open>kind\<close> of a \<open>chat_pb2.ChatEvent\<close>; the event id is set by the publisher.\<close>

datatype pb_event =
    PbToken string
  | PbToolCall string json
  | PbToolResult string string "attachment list" "tool_error option"
  | PbDone int string "stored_msg option"
  | PbError string "string option"

definition pb_terminal :: "pb_event \<Rightarrow> bool" where
  "pb_terminal e = (case e of PbDone c t m \<Rightarrow> True | PbError c d \<Rightarrow> True | _ \<Rightarrow> False)"

definition pb_text :: "pb_event \<Rightarrow> string" where
  "pb_text e = (case e of PbToken d \<Rightarrow> d | _ \<Rightarrow> [])"

definition presigned_marker :: string where
  "presigned_marker = ''X-Amz-Signature=''"

definition redacted_url :: string where
  "redacted_url = ''[link expired or unavailable]''"

definition generated_prefix :: string where
  "generated_prefix = ''/home/codex/.codex/generated_images/''"

text \<open>\<open>text.split()\<close>: the maximal runs of characters that are not white space.\<close>

fun split_ws :: "string \<Rightarrow> string \<Rightarrow> string list" where
  "split_ws cur [] = (if cur = [] then [] else [cur])"
| "split_ws cur (c # cs) =
     (if is_space c then (if cur = [] then split_ws [] cs else cur # split_ws [] cs)
      else split_ws (cur @ [c]) cs)"

definition redact_for_user :: "string \<Rightarrow> string" where
  "redact_for_user text =
     (if \<not> sublist presigned_marker text then text
      else join_with '' '' (map (\<lambda>tok. if sublist presigned_marker tok then redacted_url else tok)
             (split_ws [] text)))"

definition attachment_to_pb :: "attachment \<Rightarrow> attachment" where
  "attachment_to_pb a =
     (if prefix generated_prefix (att_source a)
      then a\<lparr>att_source := ''/generated/'' @ drop (length generated_prefix) (att_source a)\<rparr> else a)"

definition error_event :: "string \<Rightarrow> string option \<Rightarrow> pb_event" where
  "error_event code detail = PbError code detail"

fun chat_event_to_pb :: "chat_event \<Rightarrow> pb_event" where
  "chat_event_to_pb (TokenEvent delta) = PbToken delta"
| "chat_event_to_pb (ToolCallEvent name args) = PbToolCall name args"
| "chat_event_to_pb (ToolResultEvent name text atts err) =
     PbToolResult name text (map attachment_to_pb atts)
       (map_option (\<lambda>e. e\<lparr>te_message := redact_for_user (te_message e)\<rparr>) err)"
| "chat_event_to_pb (ErrorEvent code detail) =
     error_event code (case detail of None \<Rightarrow> None | Some d \<Rightarrow> Some (if d = [] then d else redact_for_user d))"
| "chat_event_to_pb (DoneEvent t) = PbDone 0 t None"

definition final_text_for_done_frame :: "string \<Rightarrow> string \<Rightarrow> string" where
  "final_text_for_done_frame final_text streamed =
     (if streamed \<noteq> [] \<and> final_text = streamed then [] else final_text)"

section \<open>Persistence\<close>

datatype event_kind =
    THREAD_OPENED | THREAD_RESET | THREAD_LOST | EV_TURN_STARTED | EV_TURN_COMPLETED
  | TURN_INTERRUPTED | TURN_FAILED | ATTACHMENT_RECEIVED | AUDIO_TRANSCRIBED | EV_ERROR

record chat_db =
  cd_tick :: nat
  cd_next :: int
  cd_msgs :: "stored_msg list"
  cd_journal :: "(event_kind \<times> json) list"
  cd_attached :: "(int \<times> int) list"

text \<open>One transaction: its effect and value when it commits, else only time passes.\<close>

definition tx :: "(nat \<Rightarrow> bool) \<Rightarrow> (chat_db \<Rightarrow> 'a \<times> chat_db) \<Rightarrow> chat_db \<Rightarrow> 'a option \<times> chat_db" where
  "tx ok f db =
     (let db1 = db\<lparr>cd_tick := cd_tick db + 1\<rparr> in
      if ok (cd_tick db) then (let (a, db2) = f db1 in (Some a, db2)) else (None, db1))"

definition append_msg :: "string \<Rightarrow> json \<Rightarrow> chat_db \<Rightarrow> stored_msg \<times> chat_db" where
  "append_msg text meta db =
     (let m = \<lparr>m_id = cd_next db, m_text = text, m_meta = meta\<rparr>
      in (m, db\<lparr>cd_next := cd_next db + 1, cd_msgs := cd_msgs db @ [m]\<rparr>))"

definition delete_many :: "int list \<Rightarrow> chat_db \<Rightarrow> chat_db" where
  "delete_many ids db =
     (if ids = [] then db else db\<lparr>cd_msgs := filter (\<lambda>m. m_id m \<notin> set ids) (cd_msgs db)\<rparr>)"

definition emit :: "event_kind \<Rightarrow> json \<Rightarrow> chat_db \<Rightarrow> chat_db" where
  "emit k payload db = db\<lparr>cd_journal := cd_journal db @ [(k, payload)]\<rparr>"

definition emit_event :: "(nat \<Rightarrow> bool) \<Rightarrow> event_kind \<Rightarrow> json \<Rightarrow> chat_db \<Rightarrow> bool \<times> chat_db" where
  "emit_event ok k payload db =
     (let (r, db') = tx ok (\<lambda>d. ((), emit k payload d)) db in (r \<noteq> None, db'))"

definition calls_json :: "(string \<times> json) list \<Rightarrow> json" where
  "calls_json calls = JList (map (\<lambda>(n, a). JObj [(''name'', JStr n), (''args'', a)]) calls)"

definition meta_or_none :: "(string \<times> json) list \<Rightarrow> json" where
  "meta_or_none kv = (if kv = [] then JNull else JObj kv)"

definition persist_meta ::
  "bool \<Rightarrow> (string \<times> json) list \<Rightarrow> int list \<Rightarrow> string option \<Rightarrow> json" where
  "persist_meta partial calls uploads client_id =
     meta_or_none ((if partial then [(''partial'', JBool True)] else [])
       @ (if calls \<noteq> [] then [(''calls'', calls_json calls)] else [])
       @ (if uploads \<noteq> [] then [(''upload_ids'', JList (map JInt uploads))] else [])
       @ (case client_id of Some c \<Rightarrow> if c \<noteq> [] then [(''client_id'', JStr c)] else [] | None \<Rightarrow> []))"

definition count_payload :: "string \<Rightarrow> (string \<times> json) list \<Rightarrow> int list \<Rightarrow> (string \<times> json) list" where
  "count_payload text calls uploads = [(''final_text_len'', JInt (int (length text))),
     (''tool_calls'', JInt (int (length calls))), (''uploads'', JInt (int (length uploads)))]"

text \<open>\<open>up\<close> is the upload service: the ids under which it stores the attachments of a message.\<close>

definition finalize_turn_persist ::
  "(attachment list \<Rightarrow> int list) \<Rightarrow> (nat \<Rightarrow> bool) \<Rightarrow> string \<Rightarrow> (string \<times> json) list \<Rightarrow> attachment list \<Rightarrow>
     string option \<Rightarrow> int option \<Rightarrow> int list \<Rightarrow> chat_db \<Rightarrow> stored_msg option \<times> chat_db" where
  "finalize_turn_persist up ok text calls atts client_id turn_id partials db =
     tx ok (\<lambda>d.
       let ids = up atts;
           (m, d1) = append_msg text (persist_meta False calls ids client_id) d;
           d2 = (case turn_id of None \<Rightarrow> d1 | Some t \<Rightarrow> d1\<lparr>cd_attached := cd_attached d1 @ [(t, m_id m)]\<rparr>);
           d3 = delete_many partials d2
       in (m, emit EV_TURN_COMPLETED (JObj (count_payload text calls ids)) d3)) db"

definition persist_assistant_turn ::
  "(attachment list \<Rightarrow> int list) \<Rightarrow> (nat \<Rightarrow> bool) \<Rightarrow> string \<Rightarrow> (string \<times> json) list \<Rightarrow> attachment list \<Rightarrow>
     bool \<Rightarrow> string option \<Rightarrow> bool \<Rightarrow> chat_db \<Rightarrow> stored_msg option \<times> chat_db" where
  "persist_assistant_turn up ok text calls atts partial client_id emit_journal db =
     tx ok (\<lambda>d.
       let ids = up atts;
           (m, d1) = append_msg text (persist_meta partial calls ids (if partial then None else client_id)) d;
           payload = JObj (count_payload text calls ids
              @ (if partial then [(''reason'', JStr (error_code_value STREAM_DROPPED))] else []))
       in (m, if emit_journal then emit (if partial then TURN_FAILED else EV_TURN_COMPLETED) payload d1 else d1)) db"

section \<open>The state of the stream\<close>

record stream_state =
  ss_col :: stream_collector
  ss_count :: nat
  ss_offset :: nat
  ss_tools :: nat
  ss_seen :: int
  ss_partials :: "int list"
  ss_pend :: "string list"
  ss_size :: nat
  ss_out :: "pb_event list"
  ss_bus :: "chat_event list"
  ss_db :: chat_db
  ss_acts :: "string list"
  ss_tts :: "(int \<times> string) option"

record stream_cfg =
  cf_up :: "attachment list \<Rightarrow> int list"
  cf_ok :: "nat \<Rightarrow> bool"
  cf_coalesce :: int
  cf_chat :: int
  cf_turn :: "int option"
  cf_client :: "string option"
  cf_voice :: bool
  cf_idle_detail :: string
  cf_db_error :: "string \<times> string"

definition init_stream :: "chat_db \<Rightarrow> stream_state" where
  "init_stream db = \<lparr>ss_col = new_collector, ss_count = 0, ss_offset = 0, ss_tools = 0, ss_seen = 0,
     ss_partials = [], ss_pend = [], ss_size = 0, ss_out = [], ss_bus = [], ss_db = db, ss_acts = [],
     ss_tts = None\<rparr>"

definition cut_segment :: "stream_state \<Rightarrow> stream_state" where
  "cut_segment st = st\<lparr>ss_offset := length (sc_buffer (ss_col st)), ss_tools := length (sc_calls (ss_col st))\<rparr>"

definition segment_delta :: "stream_state \<Rightarrow> string \<times> (string \<times> json) list" where
  "segment_delta st = (drop (ss_offset st) (sc_buffer (ss_col st)), drop (ss_tools st) (sc_calls (ss_col st)))"

text \<open>Both write a partial row; the value is False when the transaction raises.\<close>

definition write_partial :: "stream_cfg \<Rightarrow> string option \<Rightarrow> bool \<Rightarrow> stream_state \<Rightarrow> bool \<times> stream_state" where
  "write_partial F client journal st =
     (let (text, tools) = segment_delta st;
          (r, db) = persist_assistant_turn (cf_up F) (cf_ok F) text tools [] True client journal (ss_db st)
      in case r of
           None \<Rightarrow> (False, st\<lparr>ss_db := db\<rparr>)
         | Some m \<Rightarrow> (True, cut_segment (st\<lparr>ss_db := db, ss_partials := ss_partials st @ [m_id m]\<rparr>)))"

definition persist_visible_partial :: "stream_cfg \<Rightarrow> stream_state \<Rightarrow> bool \<times> stream_state" where
  "persist_visible_partial F st =
     (let (text, tools) = segment_delta st in
      if text = [] \<and> tools = [] then (True, st) else write_partial F (cf_client F) True st)"

definition persist_segment :: "stream_cfg \<Rightarrow> stream_state \<Rightarrow> bool \<times> stream_state" where
  "persist_segment F st =
     (let (text, tools) = segment_delta st in
      if text = [] then (True, st) else write_partial F None False st)"

text \<open>\<open>cur\<close> is what \<open>peek_steer_count\<close> returns.\<close>

definition check_steer_boundary :: "stream_cfg \<Rightarrow> int \<Rightarrow> stream_state \<Rightarrow> bool \<times> stream_state" where
  "check_steer_boundary F cur st =
     (if cf_turn F = None then (True, st)
      else if cur \<le> ss_seen st then (True, st)
      else persist_segment F (st\<lparr>ss_seen := cur\<rparr>))"

definition yield_ev :: "pb_event \<Rightarrow> stream_state \<Rightarrow> stream_state" where
  "yield_ev e st = st\<lparr>ss_out := ss_out st @ [e]\<rparr>"

definition flush_tokens :: "stream_state \<Rightarrow> stream_state" where
  "flush_tokens st =
     (if ss_pend st = [] then st
      else yield_ev (PbToken (concat (ss_pend st))) (st\<lparr>ss_pend := [], ss_size := 0\<rparr>))"

definition utf8_len :: "string \<Rightarrow> nat" where
  "utf8_len s = sum_list (map (\<lambda>c. if (of_char c :: nat) < 128 then 1 else 2) s)"

section \<open>The loop\<close>

datatype loop_end = Going | Broke | GotError | Crashed

definition boundary :: "stream_cfg \<Rightarrow> int \<Rightarrow> stream_state \<Rightarrow> loop_end \<times> stream_state" where
  "boundary F cur st =
     (let (good, st') = check_steer_boundary F cur st in (if good then Going else Crashed, st'))"

text \<open>One event of \<open>run_turn\<close>; \<open>cur\<close> is the steer counter it would read.\<close>

definition on_event :: "stream_cfg \<Rightarrow> chat_event \<times> int \<Rightarrow> stream_state \<Rightarrow> loop_end \<times> stream_state" where
  "on_event F evc st =
     (let (ev, cur) = evc;
          st1 = st\<lparr>ss_count := ss_count st + 1, ss_bus := ss_bus st @ [ev], ss_col := absorb ev (ss_col st)\<rparr>
      in case ev of
           ErrorEvent code detail \<Rightarrow>
             let st2 = yield_ev (chat_event_to_pb ev) (flush_tokens st1);
                 (good, db) = emit_event (cf_ok F) TURN_FAILED
                   (JObj [(''code'', JStr code), (''detail'', opt_json detail)]) (ss_db st2)
             in (if good then GotError else Crashed, st2\<lparr>ss_db := db\<rparr>)
         | DoneEvent t \<Rightarrow>
             let (good, st2) = check_steer_boundary F cur (flush_tokens st1)
             in (if good then Broke else Crashed, st2)
         | TokenEvent delta \<Rightarrow>
             if cf_coalesce F > 0 then
               let st2 = st1\<lparr>ss_pend := ss_pend st1 @ [delta], ss_size := ss_size st1 + utf8_len delta\<rparr>
               in if int (ss_size st2) \<ge> cf_coalesce F then boundary F cur (flush_tokens st2) else (Going, st2)
             else boundary F cur (yield_ev (chat_event_to_pb ev) (flush_tokens st1))
         | _ \<Rightarrow> boundary F cur (yield_ev (chat_event_to_pb ev) (flush_tokens st1)))"

fun event_loop :: "stream_cfg \<Rightarrow> (chat_event \<times> int) list \<Rightarrow> stream_state \<Rightarrow> loop_end \<times> stream_state" where
  "event_loop F [] st = (Going, st)"
| "event_loop F (e # es) st =
     (case on_event F e st of (Going, st') \<Rightarrow> event_loop F es st' | r \<Rightarrow> r)"

section \<open>The ways out\<close>

datatype src_end =
    SrcStop
  | SrcTerminal turn_status "string option"
  | SrcStale
  | SrcTimeout
  | SrcCancelled
  | SrcOther string string

datatype stream_end = SFinished | SCancelled | SEscaped

definition leave :: "bool \<times> stream_state \<Rightarrow> stream_end \<times> stream_state" where
  "leave r = (if fst r then SFinished else SEscaped, snd r)"

definition journal :: "stream_cfg \<Rightarrow> event_kind \<Rightarrow> json \<Rightarrow> stream_state \<Rightarrow> bool \<times> stream_state" where
  "journal F k payload st =
     (let (good, db) = emit_event (cf_ok F) k payload (ss_db st) in (good, st\<lparr>ss_db := db\<rparr>))"

definition act :: "string \<Rightarrow> stream_state \<Rightarrow> stream_state" where
  "act a st = st\<lparr>ss_acts := ss_acts st @ [a]\<rparr>"

text \<open>\<open>except Exception\<close>: \<open>text\<close> is \<open>str(exc)\<close>.\<close>

definition on_exception :: "stream_cfg \<Rightarrow> string \<Rightarrow> string \<Rightarrow> stream_state \<Rightarrow> stream_end \<times> stream_state" where
  "on_exception F text cls st =
     leave (journal F TURN_FAILED (JObj [(''exc_type'', JStr cls)])
       (yield_ev (error_event (error_code_value CODEX_ERROR) (Some text)) st))"

definition probe_terminal :: "stream_cfg \<Rightarrow> turn_status \<Rightarrow> string \<Rightarrow> stream_state \<Rightarrow> stream_end \<times> stream_state" where
  "probe_terminal F status raw st =
     (if status = COMPLETED then
        let c = ss_col st;
            full = (if sc_final c \<noteq> [] then sc_final c else sc_buffer c);
            has_content = (full \<noteq> [] \<or> sc_calls c \<noteq> [] \<or> sc_atts c \<noteq> [])
        in if has_content then
             let (r, db) = finalize_turn_persist (cf_up F) (cf_ok F) full (sc_calls c) (sc_atts c) (cf_client F)
                   (cf_turn F) (ss_partials st) (ss_db st)
             in (case r of
                   None \<Rightarrow> (SEscaped, st\<lparr>ss_db := db\<rparr>)
                 | Some m \<Rightarrow> (SFinished, yield_ev (PbDone (cf_chat F)
                     (final_text_for_done_frame full (sc_buffer c)) (Some m)) (st\<lparr>ss_db := db, ss_partials := []\<rparr>)))
           else (SFinished, yield_ev (PbDone (cf_chat F) (final_text_for_done_frame full (sc_buffer c)) None) st)
      else
        let (good, st1) = persist_visible_partial F st in
        if good then (SFinished, yield_ev (error_event (''codex_reported_'' @ raw) (Some raw)) st1)
        else (SEscaped, st1))"

definition timed_out :: "stream_cfg \<Rightarrow> string \<Rightarrow> string \<Rightarrow> event_kind \<Rightarrow> json \<Rightarrow> stream_state \<Rightarrow> stream_end \<times> stream_state" where
  "timed_out F reason detail k payload st =
     (let (good, st1) = persist_visible_partial F (act ''quarantine'' (act (''interrupt:'' @ reason) st)) in
      if good then leave (journal F k payload
        (yield_ev (error_event (error_code_value TURN_TIMEOUT) (Some detail)) st1))
      else (SEscaped, st1))"

definition finish_done :: "stream_cfg \<Rightarrow> stream_state \<Rightarrow> stream_end \<times> stream_state" where
  "finish_done F st =
     (let c = ss_col st;
          final_text = (if sc_final c \<noteq> [] then sc_final c else sc_buffer c);
          (r, db) = finalize_turn_persist (cf_up F) (cf_ok F) final_text (sc_calls c) (sc_atts c) (cf_client F)
            (cf_turn F) (ss_partials st) (ss_db st)
      in case r of
           None \<Rightarrow> (SEscaped, st\<lparr>ss_db := db\<rparr>)
         | Some m \<Rightarrow> (SFinished, yield_ev (PbDone (cf_chat F)
             (final_text_for_done_frame (sc_final c) (sc_buffer c)) (Some m))
             (st\<lparr>ss_db := db, ss_partials := [],
                ss_tts := (if cf_voice F \<and> py_strip (sc_final c) \<noteq> [] then Some (m_id m, sc_final c) else None)\<rparr>)))"

definition dropped :: "stream_cfg \<Rightarrow> stream_state \<Rightarrow> stream_end \<times> stream_state" where
  "dropped F st =
     leave (journal F TURN_FAILED (JObj [(''reason'', JStr (error_code_value STREAM_DROPPED))])
       (yield_ev (error_event (error_code_value STREAM_DROPPED) (Some ''Codex stream ended without completion'')) st))"

definition status_text :: "turn_status \<Rightarrow> string option \<Rightarrow> string" where
  "status_text status detail =
     (case detail of Some d \<Rightarrow> if d \<noteq> [] then d else status_value status | None \<Rightarrow> status_value status)"

text \<open>
  \<open>stream_turn\<close>: the events \<open>run_turn\<close> yields, each with the steer counter at that moment, and
  how the iteration over it ends. The diagnostics in the journal payloads are left out;
  \<open>cf_db_error\<close> is the text and class of the exception a failed transaction raises.
\<close>

definition stream_turn :: "stream_cfg \<Rightarrow> (chat_event \<times> int) list \<Rightarrow> src_end \<Rightarrow> stream_state \<Rightarrow> stream_end \<times> stream_state" where
  "stream_turn F evs src st0 =
     (case event_loop F evs st0 of
        (Crashed, st) \<Rightarrow> on_exception F (fst (cf_db_error F)) (snd (cf_db_error F)) st
      | (GotError, st) \<Rightarrow> (SFinished, st)
      | (Broke, st) \<Rightarrow> finish_done F st
      | (Going, st) \<Rightarrow>
          (case src of
             SrcStop \<Rightarrow> if sc_done (ss_col st) then finish_done F st else dropped F st
           | SrcTerminal status detail \<Rightarrow> probe_terminal F status (status_text status detail) st
           | SrcStale \<Rightarrow> timed_out F ''web_stale_turn_stream'' ''stale-turn-notifications'' THREAD_RESET
               (JObj [(''reason'', JStr ''stale_turn_stream'')]) st
           | SrcTimeout \<Rightarrow> timed_out F ''web_idle_timeout'' (cf_idle_detail F) TURN_FAILED
               (JObj [(''code'', JStr (error_code_value TURN_TIMEOUT)), (''detail'', JStr (cf_idle_detail F))]) st
           | SrcCancelled \<Rightarrow>
               let (good, st1) = persist_visible_partial F (act ''interrupt:web_cancelled'' st) in
               if \<not> good then (SEscaped, st1)
               else let (good', st2) = journal F TURN_INTERRUPTED (JObj [(''source'', JStr ''web''),
                        (''partial_len'', JInt (int (length (sc_buffer (ss_col st1)))))]) st1
                    in (if good' then SCancelled else SEscaped, st2)
           | SrcOther text cls \<Rightarrow> on_exception F text cls st))"

section \<open>Redaction\<close>

lemma sublist_split:
  assumes "sublist m (x @ c # y)" "c \<notin> set m"
  shows "sublist m x \<or> sublist m y"
proof -
  from assms(1) obtain ps ss where eq: "x @ c # y = ps @ m @ ss" by (auto simp: sublist_def)
  then consider us where "x = ps @ us" "us @ c # y = m @ ss" | us where "ps = x @ us" "c # y = us @ m @ ss"
    by (auto simp: append_eq_append_conv2)
  then show ?thesis
  proof cases
    case 1
    then obtain vs where "(us = m @ vs) \<or> (m = us @ vs \<and> c # y = vs @ ss)"
      by (auto simp: append_eq_append_conv2)
    then show ?thesis
    proof
      assume "us = m @ vs"
      with 1 show ?thesis by (auto simp: sublist_def)
    next
      assume "m = us @ vs \<and> c # y = vs @ ss"
      with assms(2) have "vs = [] \<or> (\<exists>vs'. vs = c # vs' \<and> False)" by (cases vs) auto
      with \<open>m = us @ vs \<and> c # y = vs @ ss\<close> 1(1) have "x = ps @ m @ []" by simp
      then show ?thesis unfolding sublist_def by blast
    qed
  next
    case 2
    then show ?thesis
    proof (cases us)
      case Nil
      with 2 assms(2) show ?thesis by (cases m) auto
    next
      case (Cons a us')
      with 2 show ?thesis by (auto simp: sublist_def)
    qed
  qed
qed

lemma sublist_join:
  "sublist m (join_with [c] toks) \<Longrightarrow> c \<notin> set m \<Longrightarrow> m \<noteq> [] \<Longrightarrow> \<exists>t \<in> set toks. sublist m t"
proof (induction "[c]" toks rule: join_with.induct)
  case (3 x y ys)
  then show ?case using sublist_split [of m x c "join_with [c] (y # ys)"] by auto
qed auto

definition client_error_text :: "pb_event \<Rightarrow> string" where
  "client_error_text e =
     (case e of
        PbError c (Some d) \<Rightarrow> d
      | PbToolResult n t a (Some err) \<Rightarrow> te_message err
      | _ \<Rightarrow> [])"

lemma redact_clean: "\<not> sublist presigned_marker (redact_for_user text)"
proof (cases "sublist presigned_marker text")
  case True
  let ?toks = "map (\<lambda>tok. if sublist presigned_marker tok then redacted_url else tok) (split_ws [] text)"
  have "\<not> sublist presigned_marker redacted_url"
    by (simp add: presigned_marker_def redacted_url_def sublist_code)
  then have clean: "\<forall>t \<in> set ?toks. \<not> sublist presigned_marker t" by auto
  have "CHR '' '' \<notin> set presigned_marker" "presigned_marker \<noteq> []" by (simp_all add: presigned_marker_def)
  with sublist_join [of presigned_marker "CHR '' ''" ?toks] clean
  have "\<not> sublist presigned_marker (join_with '' '' ?toks)" by blast
  with True show ?thesis by (simp add: redact_for_user_def)
qed (simp add: redact_for_user_def)

section \<open>Frames of the persistence\<close>

definition keeps :: "stream_state \<Rightarrow> stream_state \<Rightarrow> bool" where
  "keeps st st' \<longleftrightarrow> ss_out st' = ss_out st \<and> ss_pend st' = ss_pend st \<and> ss_size st' = ss_size st \<and>
     ss_col st' = ss_col st \<and> ss_bus st' = ss_bus st"

lemma keeps_refl [simp]: "keeps st st"
  by (simp add: keeps_def)

lemma keeps_write: "keeps st (snd (write_partial F c j st))"
  by (auto simp: write_partial_def keeps_def cut_segment_def split: prod.splits option.splits)

lemma keeps_visible: "keeps st (snd (persist_visible_partial F st))"
  using keeps_write by (auto simp: persist_visible_partial_def split: prod.splits)

lemma keeps_boundary: "keeps st (snd (check_steer_boundary F cur st))"
  using keeps_write [of "st\<lparr>ss_seen := cur\<rparr>" F None False]
  by (auto simp: check_steer_boundary_def persist_segment_def keeps_def split: prod.splits)

lemma boundary_keeps:
  assumes "boundary F cur st = (r, st')"
  shows "keeps st st'" "r = Going \<or> r = Crashed"
  using assms keeps_boundary [of st F cur] by (auto simp: boundary_def split: prod.splits if_splits)

lemma keeps_journal: "keeps st (snd (journal F k p st))"
  by (simp add: journal_def keeps_def split: prod.splits)

section \<open>Tokens\<close>

definition yielded_text :: "stream_state \<Rightarrow> string" where
  "yielded_text st = concat (map pb_text (ss_out st))"

definition token_inv :: "stream_state \<Rightarrow> bool" where
  "token_inv st \<longleftrightarrow> yielded_text st @ concat (ss_pend st) = sc_buffer (ss_col st)"

lemma token_inv_keeps: "keeps st st' \<Longrightarrow> token_inv st' = token_inv st"
  by (simp add: keeps_def token_inv_def yielded_text_def)

lemma flush_fields [simp]:
  "ss_col (flush_tokens st) = ss_col st" "ss_pend (flush_tokens st) = []"
  "ss_db (flush_tokens st) = ss_db st" "ss_partials (flush_tokens st) = ss_partials st"
  "ss_offset (flush_tokens st) = ss_offset st" "ss_seen (flush_tokens st) = ss_seen st"
  "ss_tools (flush_tokens st) = ss_tools st"
  by (simp_all add: flush_tokens_def yield_ev_def)

lemma yield_fields [simp]:
  "ss_col (yield_ev e st) = ss_col st" "ss_pend (yield_ev e st) = ss_pend st"
  "ss_db (yield_ev e st) = ss_db st" "ss_partials (yield_ev e st) = ss_partials st"
  "ss_offset (yield_ev e st) = ss_offset st" "ss_seen (yield_ev e st) = ss_seen st"
  "ss_tools (yield_ev e st) = ss_tools st" "ss_out (yield_ev e st) = ss_out st @ [e]"
  "ss_size (yield_ev e st) = ss_size st"
  by (simp_all add: yield_ev_def)

lemma flush_text: "yielded_text (flush_tokens st) = yielded_text st @ concat (ss_pend st)"
  by (simp add: flush_tokens_def yield_ev_def yielded_text_def pb_text_def)

lemma yield_text: "yielded_text (yield_ev e st) = yielded_text st @ pb_text e"
  by (simp add: yielded_text_def)

lemma pb_text_of: "pb_text (chat_event_to_pb ev) = token_text ev"
  by (cases ev) (simp_all add: pb_text_def token_text_def error_event_def)

lemma pb_terminal_of: "pb_terminal (chat_event_to_pb ev) = terminal_event ev"
  by (cases ev) (simp_all add: pb_terminal_def terminal_event_def error_event_def)

lemma absorb_buffer: "sc_buffer (absorb ev c) = sc_buffer c @ token_text ev"
  by (cases ev) (simp_all add: token_text_def)

definition received_ev :: "chat_event \<Rightarrow> stream_state \<Rightarrow> stream_state" where
  "received_ev ev st = st\<lparr>ss_count := ss_count st + 1, ss_bus := ss_bus st @ [ev], ss_col := absorb ev (ss_col st)\<rparr>"

definition queued :: "string \<Rightarrow> stream_state \<Rightarrow> stream_state" where
  "queued d st = st\<lparr>ss_pend := ss_pend st @ [d], ss_size := ss_size st + utf8_len d\<rparr>"

lemma received_fields [simp]:
  "ss_col (received_ev ev st) = absorb ev (ss_col st)" "ss_out (received_ev ev st) = ss_out st"
  "ss_pend (received_ev ev st) = ss_pend st" "ss_size (received_ev ev st) = ss_size st"
  "ss_db (received_ev ev st) = ss_db st" "ss_partials (received_ev ev st) = ss_partials st"
  "ss_offset (received_ev ev st) = ss_offset st" "ss_seen (received_ev ev st) = ss_seen st"
  "yielded_text (received_ev ev st) = yielded_text st"
  by (simp_all add: received_ev_def yielded_text_def)

lemma queued_fields [simp]:
  "ss_col (queued d st) = ss_col st" "ss_out (queued d st) = ss_out st"
  "ss_pend (queued d st) = ss_pend st @ [d]" "ss_size (queued d st) = ss_size st + utf8_len d"
  "ss_db (queued d st) = ss_db st" "ss_partials (queued d st) = ss_partials st"
  "ss_offset (queued d st) = ss_offset st" "yielded_text (queued d st) = yielded_text st"
  by (simp_all add: queued_def yielded_text_def)

text \<open>The four ways an event is handled.\<close>

lemma on_event_cases:
  assumes "on_event F (ev, cur) st = (r, st')"
  obtains (wait) d where "ev = TokenEvent d" "0 < cf_coalesce F" "r = Going" "st' = queued d (received_ev ev st)"
      "int (ss_size st') < cf_coalesce F"
  | (flush) d where "ev = TokenEvent d" "0 < cf_coalesce F" "boundary F cur (flush_tokens (queued d (received_ev ev st))) = (r, st')"
  | (pass) "\<not> terminal_event ev" "boundary F cur (yield_ev (chat_event_to_pb ev) (flush_tokens (received_ev ev st))) = (r, st')"
  | (finished) t good where "ev = DoneEvent t" "check_steer_boundary F cur (flush_tokens (received_ev ev st)) = (good, st')"
      "r = (if good then Broke else Crashed)"
  | (error) c d good db where "ev = ErrorEvent c d"
      "emit_event (cf_ok F) TURN_FAILED (JObj [(''code'', JStr c), (''detail'', opt_json d)]) (ss_db st) = (good, db)"
      "st' = (yield_ev (chat_event_to_pb ev) (flush_tokens (received_ev ev st)))\<lparr>ss_db := db\<rparr>"
      "r = (if good then GotError else Crashed)"
proof (cases ev)
  case (TokenEvent d)
  show thesis
  proof (cases "0 < cf_coalesce F")
    case pos: True
    show thesis
    proof (cases "int (ss_size (queued d (received_ev ev st))) \<ge> cf_coalesce F")
      case True
      then show thesis using assms TokenEvent pos
        by (intro flush [of d]) (auto simp: on_event_def Let_def queued_def received_ev_def)
    next
      case False
      then show thesis using assms TokenEvent pos
        by (intro wait [of d]) (auto simp: on_event_def Let_def queued_def received_ev_def)
    qed
  next
    case False
    then show thesis using assms TokenEvent
      by (intro pass) (auto simp: on_event_def Let_def received_ev_def terminal_event_def)
  qed
next
  case (DoneEvent t)
  obtain good s where "check_steer_boundary F cur (flush_tokens (received_ev ev st)) = (good, s)" by fastforce
  then show thesis using assms DoneEvent
    by (intro finished [of t good]) (auto simp: on_event_def Let_def received_ev_def)
next
  case (ErrorEvent c d)
  obtain good db where e: "emit_event (cf_ok F) TURN_FAILED (JObj [(''code'', JStr c), (''detail'', opt_json d)]) (ss_db st) = (good, db)"
    by fastforce
  then show thesis using assms ErrorEvent
    by (intro error [of c d good db]) (auto simp: on_event_def Let_def received_ev_def)
next
  case (ToolCallEvent n a)
  with assms show thesis by (intro pass) (auto simp: on_event_def Let_def received_ev_def terminal_event_def)
next
  case (ToolResultEvent n t a e)
  with assms show thesis by (intro pass) (auto simp: on_event_def Let_def received_ev_def terminal_event_def)
qed

lemma token_inv_pass:
  "token_inv st \<Longrightarrow> token_inv (yield_ev (chat_event_to_pb ev) (flush_tokens (received_ev ev st)))"
  by (simp add: token_inv_def yield_text flush_text pb_text_of absorb_buffer)

lemma token_inv_queued: "token_inv st \<Longrightarrow> token_inv (queued d (received_ev (TokenEvent d) st))"
  by (simp add: token_inv_def token_text_def)

lemma token_inv_flush: "token_inv st \<Longrightarrow> token_inv (flush_tokens st)"
  by (simp add: token_inv_def flush_text)

lemma token_inv_done: "token_inv st \<Longrightarrow> token_inv (flush_tokens (received_ev (DoneEvent t) st))"
  by (simp add: token_inv_def flush_text token_text_def)

lemma on_event_tokens:
  assumes "token_inv st" "on_event F e st = (r, st')"
  shows "token_inv st' \<and> (r = Broke \<or> r = GotError \<longrightarrow> ss_pend st' = [])"
proof -
  obtain ev cur where e: "e = (ev, cur)" by fastforce
  from assms(2) [unfolded e] show ?thesis
  proof (cases rule: on_event_cases)
    case (wait d)
    then show ?thesis using token_inv_queued [OF assms(1)] by simp
  next
    case (flush d)
    from boundary_keeps [OF flush(3)] show ?thesis
      using token_inv_flush [OF token_inv_queued [OF assms(1), of d]] flush(1) by (auto simp: token_inv_keeps)
  next
    case pass
    from boundary_keeps [OF pass(2)] show ?thesis
      using token_inv_pass [OF assms(1), of ev] by (auto simp: token_inv_keeps)
  next
    case (finished t good)
    with keeps_boundary [of "flush_tokens (received_ev ev st)" F cur]
    have "keeps (flush_tokens (received_ev ev st)) st'" by simp
    with token_inv_done [OF assms(1), of t] finished(1) show ?thesis
      by (simp add: token_inv_keeps) (simp add: keeps_def)
  next
    case (error c d good db)
    with token_inv_pass [OF assms(1), of ev] show ?thesis by (simp add: token_inv_def yielded_text_def)
  qed
qed

lemma event_loop_tokens:
  "token_inv st \<Longrightarrow> event_loop F es st = (r, st') \<Longrightarrow>
   token_inv st' \<and> (r = Broke \<or> r = GotError \<longrightarrow> ss_pend st' = [])"
proof (induction es arbitrary: st)
  case (Cons e es)
  obtain x s1 where x: "on_event F e st = (x, s1)" by fastforce
  note s1 = on_event_tokens [OF Cons.prems(1) x]
  show ?case
  proof (cases "x = Going")
    case True
    with Cons.prems(2) x have "event_loop F es s1 = (r, st')" by simp
    with Cons.IH s1 show ?thesis by blast
  next
    case False
    with Cons.prems(2) x have "(x, s1) = (r, st')" by (cases x) simp_all
    with s1 show ?thesis by simp
  qed
qed simp

section \<open>Terminal frames\<close>

definition quiet :: "stream_state \<Rightarrow> bool" where
  "quiet st \<longleftrightarrow> (\<forall>e \<in> set (ss_out st). \<not> pb_terminal e)"

lemma quiet_keeps: "keeps st st' \<Longrightarrow> quiet st' = quiet st"
  by (simp add: keeps_def quiet_def)

lemma quiet_flush: "quiet (flush_tokens st) = quiet st"
  by (auto simp: quiet_def flush_tokens_def yield_ev_def pb_terminal_def)

lemma quiet_received [simp]: "quiet (received_ev ev st) = quiet st" "quiet (queued d st) = quiet st"
  by (simp_all add: quiet_def)

definition ends_once :: "stream_state \<Rightarrow> bool" where
  "ends_once st \<longleftrightarrow> (\<exists>es e. ss_out st = es @ [e] \<and> pb_terminal e \<and> (\<forall>x \<in> set es. \<not> pb_terminal x))"

lemma ends_once_yield: "quiet st \<Longrightarrow> pb_terminal e \<Longrightarrow> ends_once (yield_ev e st)"
  by (auto simp: quiet_def ends_once_def)

lemma ends_once_keeps: "keeps st st' \<Longrightarrow> ends_once st' = ends_once st"
  by (simp add: keeps_def ends_once_def)

lemma ends_once_db [simp]: "ends_once (st\<lparr>ss_db := db\<rparr>) = ends_once st"
  by (simp add: ends_once_def)

lemma on_event_quiet:
  assumes "quiet st" "on_event F e st = (r, st')"
  shows "if r = GotError then ends_once st' else if r = Crashed then True else quiet st'"
proof -
  obtain ev cur where e: "e = (ev, cur)" by fastforce
  from assms(2) [unfolded e] show ?thesis
  proof (cases rule: on_event_cases)
    case (flush d)
    from boundary_keeps [OF flush(3)] show ?thesis using assms(1) by (auto simp: quiet_keeps quiet_flush)
  next
    case pass
    have "quiet (yield_ev (chat_event_to_pb ev) (flush_tokens (received_ev ev st)))"
      using assms(1) pass(1) quiet_flush [of "received_ev ev st"] by (simp add: quiet_def pb_terminal_of)
    with boundary_keeps [OF pass(2)] show ?thesis by (auto simp: quiet_keeps)
  next
    case (finished t good)
    with keeps_boundary [of "flush_tokens (received_ev ev st)" F cur] assms(1) show ?thesis
      by (simp add: quiet_keeps quiet_flush)
  next
    case (error c d good db)
    have "ends_once (yield_ev (chat_event_to_pb ev) (flush_tokens (received_ev ev st)))"
      by (rule ends_once_yield) (use assms(1) error(1) in \<open>simp_all add: quiet_flush error_event_def pb_terminal_def\<close>)
    with error show ?thesis by simp
  qed (use assms(1) in simp)
qed

lemma event_loop_quiet:
  "quiet st \<Longrightarrow> event_loop F es st = (r, st') \<Longrightarrow>
   if r = GotError then ends_once st' else if r = Crashed then True else quiet st'"
proof (induction es arbitrary: st)
  case (Cons e es)
  obtain x s1 where x: "on_event F e st = (x, s1)" by fastforce
  note s1 = on_event_quiet [OF Cons.prems(1) x]
  show ?case
  proof (cases "x = Going")
    case True
    with Cons.prems(2) x have "event_loop F es s1 = (r, st')" by simp
    with Cons.IH [of s1] s1 True show ?thesis by simp
  next
    case False
    with Cons.prems(2) x have "(x, s1) = (r, st')" by (cases x) simp_all
    with s1 show ?thesis by (auto split: if_splits)
  qed
qed simp

section \<open>When every transaction commits\<close>

definition db_fine :: "stream_cfg \<Rightarrow> bool" where
  "db_fine F \<longleftrightarrow> (\<forall>n. cf_ok F n)"

lemma fine_tx: "db_fine F \<Longrightarrow> tx (cf_ok F) f db = (let (a, d) = f (db\<lparr>cd_tick := cd_tick db + 1\<rparr>) in (Some a, d))"
  by (simp add: db_fine_def tx_def)

lemma fine_write: "db_fine F \<Longrightarrow> fst (write_partial F c j st)"
  by (simp add: write_partial_def persist_assistant_turn_def fine_tx split: prod.splits)

lemma fine_visible: "db_fine F \<Longrightarrow> fst (persist_visible_partial F st)"
  by (simp add: persist_visible_partial_def fine_write split: prod.splits)

lemma fine_boundary: "db_fine F \<Longrightarrow> fst (check_steer_boundary F cur st)"
  by (simp add: check_steer_boundary_def persist_segment_def fine_write split: prod.splits)

lemma fine_journal: "db_fine F \<Longrightarrow> fst (journal F k p st)"
  by (simp add: journal_def emit_event_def fine_tx split: prod.splits)

lemma fine_on_event: "db_fine F \<Longrightarrow> fst (on_event F e st) \<noteq> Crashed"
proof
  assume f: "db_fine F" and c: "fst (on_event F e st) = Crashed"
  obtain ev cur where e: "e = (ev, cur)" by fastforce
  obtain r st' where x: "on_event F (ev, cur) st = (r, st')" by fastforce
  have b: "fst (boundary F cur s) \<noteq> Crashed" for s
    using fine_boundary [OF f, of cur s] by (auto simp: boundary_def split: prod.splits)
  from x show False
  proof (cases rule: on_event_cases)
    case (finished t good)
    then show False using c e x fine_boundary [OF f, of cur "flush_tokens (received_ev ev st)"] by simp
  next
    case (error a d good db)
    then show False using c e x f by (auto simp: emit_event_def fine_tx)
  next
    case (flush d)
    with b [of "flush_tokens (queued d (received_ev ev st))"] c e x show False by simp
  next
    case pass
    with b [of "yield_ev (chat_event_to_pb ev) (flush_tokens (received_ev ev st))"] c e x show False by simp
  qed (use c e x in simp)
qed

lemma fine_event_loop: "db_fine F \<Longrightarrow> fst (event_loop F es st) \<noteq> Crashed"
proof (induction es arbitrary: st)
  case (Cons e es)
  with fine_on_event [of F e st] show ?case
    by (cases "on_event F e st"; cases "fst (on_event F e st)") auto
qed simp

lemma fine_finalize:
  "db_fine F \<Longrightarrow> \<exists>m db'. finalize_turn_persist (cf_up F) (cf_ok F) t c a cl tu ps db = (Some m, db')"
  by (simp add: finalize_turn_persist_def fine_tx split: prod.splits)

lemma fine_finish:
  assumes "db_fine F" "quiet st"
  shows "fst (finish_done F st) = SFinished" "ends_once (snd (finish_done F st))"
proof -
  obtain m db' where m: "finalize_turn_persist (cf_up F) (cf_ok F)
      (if sc_final (ss_col st) \<noteq> [] then sc_final (ss_col st) else sc_buffer (ss_col st))
      (sc_calls (ss_col st)) (sc_atts (ss_col st)) (cf_client F) (cf_turn F) (ss_partials st) (ss_db st) = (Some m, db')"
    using fine_finalize [OF assms(1)] by metis
  then show "fst (finish_done F st) = SFinished" "ends_once (snd (finish_done F st))"
    using assms(2) by (auto simp: finish_done_def Let_def pb_terminal_def quiet_def intro!: ends_once_yield)
qed

lemma fine_leave:
  assumes "db_fine F" "quiet st" "pb_terminal e"
  shows "fst (leave (journal F k p (yield_ev e st))) = SFinished"
    "ends_once (snd (leave (journal F k p (yield_ev e st))))"
  using assms fine_journal [OF assms(1), of k p "yield_ev e st"] keeps_journal [of "yield_ev e st" F k p]
  by (simp_all add: leave_def ends_once_keeps ends_once_yield)

lemma quiet_act [simp]: "quiet (act a st) = quiet st"
  by (simp add: quiet_def act_def)

lemma fine_timed_out:
  assumes "db_fine F" "quiet st"
  shows "fst (timed_out F r d k p st) = SFinished" "ends_once (snd (timed_out F r d k p st))"
proof -
  let ?a = "act ''quarantine'' (act (''interrupt:'' @ r) st)"
  obtain st1 where v: "persist_visible_partial F ?a = (True, st1)"
    using fine_visible [OF assms(1), of ?a] by (metis prod.collapse)
  then have "quiet st1" using keeps_visible [of ?a F] assms(2) by (simp add: quiet_keeps)
  then show "fst (timed_out F r d k p st) = SFinished" "ends_once (snd (timed_out F r d k p st))"
    using fine_leave [OF assms(1), of st1] v by (simp_all add: timed_out_def error_event_def pb_terminal_def)
qed

lemma fine_probe:
  assumes "db_fine F" "quiet st"
  shows "fst (probe_terminal F status raw st) = SFinished" "ends_once (snd (probe_terminal F status raw st))"
proof -
  have "fst (probe_terminal F status raw st) = SFinished \<and> ends_once (snd (probe_terminal F status raw st))"
  proof (cases "status = COMPLETED")
    case True
    obtain m db' where m: "finalize_turn_persist (cf_up F) (cf_ok F)
        (if sc_final (ss_col st) \<noteq> [] then sc_final (ss_col st) else sc_buffer (ss_col st))
        (sc_calls (ss_col st)) (sc_atts (ss_col st)) (cf_client F) (cf_turn F) (ss_partials st) (ss_db st) = (Some m, db')"
      using fine_finalize [OF assms(1)] by metis
    with True assms(2) show ?thesis
      by (auto simp: probe_terminal_def Let_def pb_terminal_def quiet_def intro!: ends_once_yield)
  next
    case False
    obtain st1 where v: "persist_visible_partial F st = (True, st1)"
      using fine_visible [OF assms(1), of st] by (metis prod.collapse)
    then have "quiet st1" using keeps_visible [of st F] assms(2) by (simp add: quiet_keeps)
    with False v show ?thesis
      by (auto simp: probe_terminal_def error_event_def pb_terminal_def intro!: ends_once_yield)
  qed
  then show "fst (probe_terminal F status raw st) = SFinished" "ends_once (snd (probe_terminal F status raw st))"
    by simp_all
qed

lemma stream_turn_ends:
  assumes "db_fine F" "quiet st0" "src \<noteq> SrcCancelled"
  shows "fst (stream_turn F evs src st0) = SFinished \<and> ends_once (snd (stream_turn F evs src st0))"
proof -
  obtain r st where r: "event_loop F evs st0 = (r, st)" by fastforce
  note q = event_loop_quiet [OF assms(2) r]
  have nc: "r \<noteq> Crashed" using fine_event_loop [OF assms(1), of evs st0] r by simp
  show ?thesis
  proof (cases r)
    case Going
    with q have "quiet st" by simp
    note facts = fine_finish [OF assms(1) this] fine_probe [OF assms(1) this] fine_timed_out [OF assms(1) this]
      fine_leave [OF assms(1) this]
    show ?thesis
    proof (cases src)
      case SrcStop
      then show ?thesis using r Going facts
        by (simp add: stream_turn_def dropped_def error_event_def pb_terminal_def)
    next
      case (SrcOther t c)
      then show ?thesis using r Going facts
        by (simp add: stream_turn_def on_exception_def error_event_def pb_terminal_def)
    qed (use r Going facts assms(3) in \<open>simp_all add: stream_turn_def\<close>)
  next
    case Broke
    with q have "quiet st" by simp
    with r Broke fine_finish [OF assms(1) this] show ?thesis by (simp add: stream_turn_def)
  next
    case GotError
    with q r show ?thesis by (simp add: stream_turn_def)
  qed (use nc in simp)
qed

section \<open>The rows of the turn\<close>

text \<open>
  The rows a turn adds to those of \<open>db0\<close> are its partial rows, with fresh ids, and their texts
  are the streamed text up to the last cut.
\<close>

definition seg_rows :: "chat_db \<Rightarrow> stream_state \<Rightarrow> stored_msg list \<Rightarrow> bool" where
  "seg_rows db0 st parts \<longleftrightarrow>
     cd_msgs (ss_db st) = cd_msgs db0 @ parts \<and> map m_id parts = ss_partials st \<and>
     cd_next db0 \<le> cd_next (ss_db st) \<and>
     (\<forall>p \<in> set parts. cd_next db0 \<le> m_id p \<and> m_id p < cd_next (ss_db st)) \<and>
     concat (map m_text parts) = take (ss_offset st) (sc_buffer (ss_col st)) \<and>
     ss_offset st \<le> length (sc_buffer (ss_col st)) \<and> cd_attached (ss_db st) = cd_attached db0"

definition seg_inv :: "chat_db \<Rightarrow> stream_state \<Rightarrow> bool" where
  "seg_inv db0 st \<longleftrightarrow> (\<exists>parts. seg_rows db0 st parts)"

lemma seg_inv_same:
  "seg_inv db0 st \<Longrightarrow> ss_partials st' = ss_partials st \<Longrightarrow> ss_offset st' = ss_offset st \<Longrightarrow>
   prefix (sc_buffer (ss_col st)) (sc_buffer (ss_col st')) \<Longrightarrow> cd_msgs (ss_db st') = cd_msgs (ss_db st) \<Longrightarrow>
   cd_next (ss_db st') = cd_next (ss_db st) \<Longrightarrow> cd_attached (ss_db st') = cd_attached (ss_db st) \<Longrightarrow>
   seg_inv db0 st'"
  unfolding seg_inv_def seg_rows_def by (auto simp: prefix_def)

lemma tx_fail: "\<not> ok (cd_tick db) \<Longrightarrow> tx ok f db = (None, db\<lparr>cd_tick := cd_tick db + 1\<rparr>)"
  by (simp add: tx_def)

lemma seg_inv_write:
  assumes "seg_inv db0 st"
  shows "seg_inv db0 (snd (write_partial F c j st))"
    and "fst (write_partial F c j st) \<longrightarrow>
      ss_offset (snd (write_partial F c j st)) = length (sc_buffer (ss_col (snd (write_partial F c j st))))"
proof -
  let ?w = "write_partial F c j st"
  from assms obtain parts where parts: "seg_rows db0 st parts" by (auto simp: seg_inv_def)
  have "seg_inv db0 (snd ?w) \<and> (fst ?w \<longrightarrow> ss_offset (snd ?w) = length (sc_buffer (ss_col (snd ?w))))"
  proof (cases "cf_ok F (cd_tick (ss_db st))")
    case False
    then have "?w = (False, st\<lparr>ss_db := (ss_db st)\<lparr>cd_tick := cd_tick (ss_db st) + 1\<rparr>\<rparr>)"
      by (simp add: write_partial_def persist_assistant_turn_def tx_fail segment_delta_def)
    then show ?thesis using seg_inv_same [OF assms] by simp
  next
    case True
    obtain m db' where m: "persist_assistant_turn (cf_up F) (cf_ok F) (drop (ss_offset st) (sc_buffer (ss_col st)))
        (drop (ss_tools st) (sc_calls (ss_col st))) [] True c j (ss_db st) = (Some m, db')"
      and db': "cd_msgs db' = cd_msgs (ss_db st) @ [m]" "m_id m = cd_next (ss_db st)"
        "cd_next db' = cd_next (ss_db st) + 1" "cd_attached db' = cd_attached (ss_db st)"
        "m_text m = drop (ss_offset st) (sc_buffer (ss_col st))"
      using True by (simp add: persist_assistant_turn_def tx_def append_msg_def emit_def Let_def)
    then have w: "?w = (True, cut_segment (st\<lparr>ss_db := db', ss_partials := ss_partials st @ [m_id m]\<rparr>))"
      by (simp add: write_partial_def segment_delta_def)
    have "seg_rows db0 (snd ?w) (parts @ [m])"
      using parts db' by (auto simp: w seg_rows_def cut_segment_def)
    then show ?thesis by (auto simp: w seg_inv_def cut_segment_def)
  qed
  then show "seg_inv db0 (snd ?w)" "fst ?w \<longrightarrow> ss_offset (snd ?w) = length (sc_buffer (ss_col (snd ?w)))"
    by simp_all
qed

lemma seg_inv_boundary:
  assumes "seg_inv db0 st"
  shows "seg_inv db0 (snd (check_steer_boundary F cur st))"
proof -
  have "seg_inv db0 (st\<lparr>ss_seen := cur\<rparr>)" by (rule seg_inv_same [OF assms]) simp_all
  with seg_inv_write(1) [OF this, of F None False] assms show ?thesis
    by (simp add: check_steer_boundary_def persist_segment_def split: prod.splits)
qed

lemma seg_inv_received: "seg_inv db0 st \<Longrightarrow> seg_inv db0 (received_ev ev st)"
  by (rule seg_inv_same) (simp_all add: absorb_buffer)

lemma seg_inv_queued: "seg_inv db0 st \<Longrightarrow> seg_inv db0 (queued d st)"
  by (rule seg_inv_same) simp_all

lemma seg_inv_flush: "seg_inv db0 st \<Longrightarrow> seg_inv db0 (flush_tokens st)"
  by (rule seg_inv_same) simp_all

lemma seg_inv_yield: "seg_inv db0 st \<Longrightarrow> seg_inv db0 (yield_ev e st)"
  by (rule seg_inv_same) simp_all

lemma emit_event_fields:
  assumes "emit_event ok k p db = (good, db')"
  shows "cd_msgs db' = cd_msgs db" "cd_next db' = cd_next db" "cd_attached db' = cd_attached db"
  using assms by (auto simp: emit_event_def tx_def emit_def Let_def split: if_splits)

lemma on_event_seg:
  assumes "seg_inv db0 st" "on_event F e st = (r, st')"
  shows "seg_inv db0 st'"
proof -
  obtain ev cur where e: "e = (ev, cur)" by fastforce
  note facts = seg_inv_received [OF assms(1), of ev] seg_inv_flush seg_inv_yield seg_inv_queued
  have b: "boundary F cur s = (r, st') \<Longrightarrow> seg_inv db0 s \<Longrightarrow> seg_inv db0 st'" for s
    using seg_inv_boundary [of db0 s F cur] by (auto simp: boundary_def split: prod.splits)
  from assms(2) [unfolded e] show ?thesis
  proof (cases rule: on_event_cases)
    case (finished t good)
    with seg_inv_boundary [OF seg_inv_flush [OF facts(1)], of F cur] show ?thesis by simp
  next
    case (error c d good db)
    note f = emit_event_fields [OF error(2)]
    show ?thesis unfolding error(3)
      by (rule seg_inv_same [OF seg_inv_yield [OF seg_inv_flush [OF facts(1)]], of _ "chat_event_to_pb ev"]) (simp_all add: f)
  qed (use facts b in blast)+
qed

lemma event_loop_seg:
  "seg_inv db0 st \<Longrightarrow> event_loop F es st = (r, st') \<Longrightarrow> seg_inv db0 st'"
proof (induction es arbitrary: st)
  case (Cons e es)
  obtain x s1 where x: "on_event F e st = (x, s1)" by fastforce
  from on_event_seg [OF Cons.prems(1) x] have s1: "seg_inv db0 s1" .
  show ?case
  proof (cases "x = Going")
    case True
    with Cons.prems(2) x have "event_loop F es s1 = (r, st')" by simp
    with Cons.IH s1 show ?thesis by blast
  next
    case False
    with Cons.prems(2) x have "(x, s1) = (r, st')" by (cases x) simp_all
    with s1 show ?thesis by simp
  qed
qed simp

lemma seg_inv_init: "seg_inv db (init_stream db)"
  by (auto simp: seg_inv_def seg_rows_def init_stream_def new_collector_def)

lemma finalize_rows:
  assumes "seg_rows db0 st parts" "\<forall>m \<in> set (cd_msgs db0). m_id m < cd_next db0"
    and "finalize_turn_persist up ok text calls atts cl (Some t) (ss_partials st) (ss_db st) = (Some m, db')"
  shows "cd_msgs db' = cd_msgs db0 @ [m]" "m_text m = text" "cd_attached db' = cd_attached db0 @ [(t, m_id m)]"
    "m_meta m = persist_meta False calls (up atts) cl"
proof -
  have ids: "ss_partials st = map m_id parts" using assms(1) by (simp add: seg_rows_def)
  then have keep: "filter (\<lambda>x. m_id x \<notin> set (ss_partials st)) (cd_msgs db0) = cd_msgs db0"
    using assms(1,2) by (intro filter_True) (force simp: seg_rows_def)
  have drop: "filter (\<lambda>x. m_id x \<notin> set (ss_partials st)) parts = []"
    by (simp add: ids filter_empty_conv)
  have new: "cd_next (ss_db st) \<notin> set (ss_partials st)"
    using assms(1) by (auto simp: ids seg_rows_def)
  show "cd_msgs db' = cd_msgs db0 @ [m]" "m_text m = text" "cd_attached db' = cd_attached db0 @ [(t, m_id m)]"
    "m_meta m = persist_meta False calls (up atts) cl"
    using assms(1,3) keep drop new
    by (auto simp: finalize_turn_persist_def tx_def append_msg_def delete_many_def emit_def Let_def seg_rows_def
        split: if_splits)
qed

section \<open>What was consumed\<close>

definition size_inv :: "stream_cfg \<Rightarrow> stream_state \<Rightarrow> bool" where
  "size_inv F st \<longleftrightarrow> ss_size st = sum_list (map utf8_len (ss_pend st)) \<and>
     (0 < cf_coalesce F \<longrightarrow> int (ss_size st) < cf_coalesce F) \<and>
     ss_col st = fold absorb (ss_bus st) new_collector"

lemma size_inv_keeps: "keeps st st' \<Longrightarrow> size_inv F st' = size_inv F st"
  by (simp add: keeps_def size_inv_def)

lemma size_flush: "ss_size st = sum_list (map utf8_len (ss_pend st)) \<Longrightarrow> ss_size (flush_tokens st) = 0"
  by (auto simp: flush_tokens_def yield_ev_def)

lemma bus_fields [simp]:
  "ss_bus (flush_tokens st) = ss_bus st" "ss_bus (yield_ev e st) = ss_bus st" "ss_bus (queued d st) = ss_bus st"
  "ss_bus (received_ev ev st) = ss_bus st @ [ev]"
  by (simp_all add: flush_tokens_def yield_ev_def queued_def received_ev_def)

lemma on_event_size:
  assumes "size_inv F st" "on_event F e st = (r, st')"
  shows "size_inv F st' \<and> ss_bus st' = ss_bus st @ [fst e]"
proof -
  obtain ev cur where e: "e = (ev, cur)" by fastforce
  have q: "size_inv F (flush_tokens (received_ev ev st))"
      "size_inv F (yield_ev (chat_event_to_pb ev) (flush_tokens (received_ev ev st)))"
      "size_inv F (flush_tokens (queued d (received_ev ev st)))" for d
    using assms(1) size_flush [of "received_ev ev st"] size_flush [of "queued d (received_ev ev st)"]
    by (auto simp: size_inv_def)
  from assms(2) [unfolded e] show ?thesis
  proof (cases rule: on_event_cases)
    case (wait d)
    then show ?thesis using assms(1) e by (simp add: size_inv_def)
  next
    case (flush d)
    from boundary_keeps(1) [OF flush(3)] q(3) e show ?thesis by (simp add: size_inv_keeps) (simp add: keeps_def)
  next
    case pass
    from boundary_keeps(1) [OF pass(2)] q(2) e show ?thesis by (simp add: size_inv_keeps) (simp add: keeps_def)
  next
    case (finished t good)
    with keeps_boundary [of "flush_tokens (received_ev ev st)" F cur]
    have "keeps (flush_tokens (received_ev ev st)) st'" by simp
    with q(1) e show ?thesis by (simp add: size_inv_keeps) (simp add: keeps_def)
  next
    case (error c d good db)
    with q(2) e show ?thesis by (simp add: size_inv_def)
  qed
qed

lemma event_loop_size:
  "size_inv F st \<Longrightarrow> event_loop F es st = (r, st') \<Longrightarrow>
   size_inv F st' \<and> (\<exists>n. ss_bus st' = ss_bus st @ map fst (take n es)) \<and>
   (r = Going \<longrightarrow> ss_bus st' = ss_bus st @ map fst es)"
proof (induction es arbitrary: st)
  case (Cons e es)
  obtain x s1 where x: "on_event F e st = (x, s1)" by fastforce
  note s1 = on_event_size [OF Cons.prems(1) x]
  show ?case
  proof (cases "x = Going")
    case True
    with Cons.prems(2) x have "event_loop F es s1 = (r, st')" by simp
    from Cons.IH [OF _ this] s1 obtain n where
      "size_inv F st'" "ss_bus st' = ss_bus s1 @ map fst (take n es)" "r = Going \<longrightarrow> ss_bus st' = ss_bus s1 @ map fst es"
      by blast
    then show ?thesis using s1 by (auto intro!: exI [of _ "Suc n"])
  next
    case False
    with Cons.prems(2) x have "(x, s1) = (r, st')" by (cases x) simp_all
    with s1 False show ?thesis by (auto intro!: exI [of _ "1"])
  qed
qed (auto intro!: exI [of _ 0])

lemma size_inv_init: "size_inv F (init_stream db)"
  by (simp add: size_inv_def init_stream_def)

lemma token_inv_init: "token_inv (init_stream db)"
  by (simp add: token_inv_def init_stream_def new_collector_def yielded_text_def)

lemma quiet_init: "quiet (init_stream db)"
  by (simp add: quiet_def init_stream_def)

lemma fold_absorb_buffer: "sc_buffer (fold absorb evs c) = sc_buffer c @ concat (map token_text evs)"
  by (induction evs arbitrary: c) (simp_all add: absorb_buffer)

section \<open>Properties\<close>

text \<open>
  C9: when the database accepts the writes and the turn is not cancelled, the client gets
  exactly one terminal frame, done or error, and it is the last frame, however the stream of
  the sidecar ends.
\<close>

theorem stream_one_terminal:
  assumes "db_fine F" "src \<noteq> SrcCancelled"
  shows "fst (stream_turn F evs src (init_stream db)) = SFinished \<and>
    (\<exists>es e. ss_out (snd (stream_turn F evs src (init_stream db))) = es @ [e] \<and> pb_terminal e \<and>
       (\<forall>x \<in> set es. \<not> pb_terminal x))"
  using stream_turn_ends [OF assms(1) quiet_init assms(2), of evs db] by (simp add: ends_once_def)

definition demo_stream :: stream_cfg where
  "demo_stream = \<lparr>cf_up = (\<lambda>_. []), cf_ok = (\<lambda>_. True), cf_coalesce = 4, cf_chat = 7, cf_turn = Some 1,
     cf_client = None, cf_voice = False, cf_idle_detail = ''idle>60s'', cf_db_error = ([], [])\<rparr>"

definition demo_chat_db :: chat_db where
  "demo_chat_db = \<lparr>cd_tick = 0, cd_next = 5, cd_msgs = [\<lparr>m_id = 3, m_text = ''q'', m_meta = JNull\<rparr>],
     cd_journal = [], cd_attached = []\<rparr>"

definition demo_events :: "(chat_event \<times> int) list" where
  "demo_events = [(TokenEvent ''hel'', 0), (TokenEvent ''lo '', 1), (TokenEvent ''you'', 1)]"

lemma demo_fine: "db_fine demo_stream"
  by (simp add: db_fine_def demo_stream_def)

lemma stream_one_terminal_witness:
  "fst (stream_turn demo_stream demo_events SrcTimeout (init_stream demo_chat_db)) = SFinished"
  using stream_one_terminal [OF demo_fine, of SrcTimeout demo_events demo_chat_db] by simp

text \<open>
  C10: coalescing neither loses nor reorders text. At every moment the frames sent plus the
  buffer are the tokens received so far; the buffer stays below its limit; and when the
  sidecar's done or error event arrives the client has everything.
\<close>

theorem stream_text_delivered:
  assumes "event_loop F evs (init_stream db) = (r, st)"
  shows "concat (map pb_text (ss_out st)) @ concat (ss_pend st) = concat (map token_text (ss_bus st))
    \<and> (\<exists>n. ss_bus st = map fst (take n evs)) \<and> (r = Going \<longrightarrow> ss_bus st = map fst evs)
    \<and> (0 < cf_coalesce F \<longrightarrow> int (sum_list (map utf8_len (ss_pend st))) < cf_coalesce F)
    \<and> (r = Broke \<or> r = GotError \<longrightarrow> concat (map pb_text (ss_out st)) = concat (map token_text (ss_bus st)))"
proof -
  note sz = event_loop_size [OF size_inv_init assms]
  note tk = event_loop_tokens [OF token_inv_init assms]
  have "sc_buffer (ss_col st) = concat (map token_text (ss_bus st))"
    using sz by (simp add: size_inv_def fold_absorb_buffer new_collector_def)
  then show ?thesis using sz tk by (auto simp: token_inv_def yielded_text_def size_inv_def init_stream_def)
qed

lemma demo_loop:
  "event_loop demo_stream (demo_events @ [(DoneEvent [], 1)]) (init_stream demo_chat_db) =
    (Broke, snd (event_loop demo_stream (demo_events @ [(DoneEvent [], 1)]) (init_stream demo_chat_db)))"
  by (simp add: demo_events_def on_event_def demo_stream_def init_stream_def new_collector_def flush_tokens_def
      yield_ev_def utf8_len_def boundary_def check_steer_boundary_def persist_segment_def segment_delta_def
      write_partial_def persist_assistant_turn_def tx_def append_msg_def Let_def cut_segment_def)

lemma stream_text_delivered_witness:
  "concat (map pb_text (ss_out (snd (event_loop demo_stream (demo_events @ [(DoneEvent [], 1)]) (init_stream demo_chat_db)))))
    = concat (map token_text (ss_bus (snd (event_loop demo_stream (demo_events @ [(DoneEvent [], 1)]) (init_stream demo_chat_db)))))"
  using stream_text_delivered [OF demo_loop] by simp

text \<open>
  C11: on done the turn leaves exactly one new row: its text is the final text, or the
  streamed text when there is none, the row is attached to the turn, and every partial row
  written at a steer boundary is gone. Nothing else in the chat changes.
\<close>

theorem done_replaces_partials:
  assumes "db_fine F" "cf_turn F = Some t" "\<forall>m \<in> set (cd_msgs db0). m_id m < cd_next db0"
    and "event_loop F evs (init_stream db0) = (Broke, st)"
    and "stream_turn F evs src (init_stream db0) = (res, st')"
  shows "\<exists>m. cd_msgs (ss_db st') = cd_msgs db0 @ [m]
    \<and> m_text m = (if sc_final (ss_col st) \<noteq> [] then sc_final (ss_col st) else sc_buffer (ss_col st))
    \<and> cd_attached (ss_db st') = cd_attached db0 @ [(t, m_id m)] \<and> last (ss_out st') =
        PbDone (cf_chat F) (final_text_for_done_frame (sc_final (ss_col st)) (sc_buffer (ss_col st))) (Some m)"
proof -
  from event_loop_seg [OF seg_inv_init assms(4)] obtain parts where parts: "seg_rows db0 st parts"
    by (auto simp: seg_inv_def)
  obtain m db' where m: "finalize_turn_persist (cf_up F) (cf_ok F)
      (if sc_final (ss_col st) \<noteq> [] then sc_final (ss_col st) else sc_buffer (ss_col st))
      (sc_calls (ss_col st)) (sc_atts (ss_col st)) (cf_client F) (Some t) (ss_partials st) (ss_db st) = (Some m, db')"
    using fine_finalize [OF assms(1)] by metis
  note rows = finalize_rows [OF parts assms(3) m]
  have "ss_db st' = db' \<and> last (ss_out st') =
      PbDone (cf_chat F) (final_text_for_done_frame (sc_final (ss_col st)) (sc_buffer (ss_col st))) (Some m)"
    using assms(4,5) m assms(2) by (auto simp: stream_turn_def finish_done_def Let_def)
  with rows show ?thesis by auto
qed

lemma done_replaces_partials_witness:
  "\<exists>m. cd_msgs (ss_db (snd (stream_turn demo_stream (demo_events @ [(DoneEvent [], 1)]) SrcStop (init_stream demo_chat_db))))
      = cd_msgs demo_chat_db @ [m]"
proof -
  have "stream_turn demo_stream (demo_events @ [(DoneEvent [], 1)]) SrcStop (init_stream demo_chat_db) =
     (fst (stream_turn demo_stream (demo_events @ [(DoneEvent [], 1)]) SrcStop (init_stream demo_chat_db)),
      snd (stream_turn demo_stream (demo_events @ [(DoneEvent [], 1)]) SrcStop (init_stream demo_chat_db)))" by simp
  from done_replaces_partials [OF demo_fine _ _ demo_loop this, of 1] show ?thesis
    by (auto simp: demo_stream_def demo_chat_db_def)
qed

lemma journal_msgs: "cd_msgs (ss_db (snd (journal F k p st))) = cd_msgs (ss_db st)"
  using emit_event_fields(1) [of "cf_ok F" k p "ss_db st"] by (simp add: journal_def split: prod.splits)

lemma timed_out_rows:
  assumes "db_fine F"
  obtains s where "persist_visible_partial F (act ''quarantine'' (act (''interrupt:'' @ r) st)) = (True, s)"
    "cd_msgs (ss_db (snd (timed_out F r d k p st))) = cd_msgs (ss_db s)"
proof -
  let ?a = "act ''quarantine'' (act (''interrupt:'' @ r) st)"
  obtain s where s: "persist_visible_partial F ?a = (True, s)"
    using fine_visible [OF assms, of ?a] by (metis prod.collapse)
  moreover from s have "cd_msgs (ss_db (snd (timed_out F r d k p st))) = cd_msgs (ss_db s)"
    by (simp add: timed_out_def leave_def journal_msgs)
  ultimately show thesis by (rule that)
qed

lemma persisted_before_exit:
  assumes "db_fine F" "event_loop F evs (init_stream db0) = (Going, st)"
    and "stream_turn F evs src (init_stream db0) = (res, st')"
    and "src \<in> {SrcTimeout, SrcStale, SrcCancelled} \<or> (\<exists>s d. src = SrcTerminal s d \<and> s \<noteq> COMPLETED)"
  shows "\<exists>s0 s. (s0 = st \<or> (\<exists>a. s0 = act a st) \<or> (\<exists>a b. s0 = act b (act a st))) \<and>
     persist_visible_partial F s0 = (True, s) \<and> cd_msgs (ss_db st') = cd_msgs (ss_db s)"
proof (cases src)
  case SrcTimeout
  have st': "st' = snd (stream_turn F evs src (init_stream db0))" using assms(3) by simp
  show ?thesis unfolding st' using SrcTimeout assms(2) timed_out_rows [OF assms(1)]
    by (simp add: stream_turn_def) metis
next
  case SrcStale
  have st': "st' = snd (stream_turn F evs src (init_stream db0))" using assms(3) by simp
  show ?thesis unfolding st' using SrcStale assms(2) timed_out_rows [OF assms(1)]
    by (simp add: stream_turn_def) metis
next
  case SrcCancelled
  obtain s where s: "persist_visible_partial F (act ''interrupt:web_cancelled'' st) = (True, s)"
    using fine_visible [OF assms(1), of "act ''interrupt:web_cancelled'' st"] by (metis prod.collapse)
  have "st' = snd (journal F TURN_INTERRUPTED (JObj [(''source'', JStr ''web''),
      (''partial_len'', JInt (int (length (sc_buffer (ss_col s)))))]) s)"
    using assms(2,3) SrcCancelled s by (auto simp: stream_turn_def split: prod.splits)
  then show ?thesis using s by (auto simp: journal_msgs)
next
  case (SrcTerminal status d)
  obtain s where s: "persist_visible_partial F st = (True, s)"
    using fine_visible [OF assms(1), of st] by (metis prod.collapse)
  then show ?thesis using assms(2,3,4) SrcTerminal
    by (auto simp: stream_turn_def probe_terminal_def)
qed (use assms(4) in auto)

text \<open>
  C12: when a turn times out, is cancelled, or the sidecar reports a failure, the partial rows
  it leaves hold exactly the text that was streamed, in order.
\<close>

theorem abort_keeps_text:
  assumes "db_fine F" "event_loop F evs (init_stream db0) = (Going, st)"
    and "src \<in> {SrcTimeout, SrcStale, SrcCancelled} \<or> (\<exists>s d. src = SrcTerminal s d \<and> s \<noteq> COMPLETED)"
    and "stream_turn F evs src (init_stream db0) = (res, st')"
  shows "\<exists>parts. cd_msgs (ss_db st') = cd_msgs db0 @ parts \<and>
     concat (map m_text parts) = concat (map token_text (map fst evs))"
proof -
  have seg: "seg_inv db0 st" by (rule event_loop_seg [OF seg_inv_init assms(2)])
  have buf: "sc_buffer (ss_col st) = concat (map token_text (map fst evs))"
    using event_loop_size [OF size_inv_init assms(2)]
    by (simp add: size_inv_def fold_absorb_buffer new_collector_def init_stream_def)
  have key: "\<exists>parts. cd_msgs (ss_db s) = cd_msgs db0 @ parts \<and> concat (map m_text parts) = sc_buffer (ss_col st)"
    if "seg_inv db0 s0" "ss_col s0 = ss_col st" "persist_visible_partial F s0 = (True, s)" for s0 s
  proof -
    have "seg_inv db0 s \<and> (ss_offset s = length (sc_buffer (ss_col s)))"
    proof (cases "segment_delta s0 = ([], [])")
      case True
      with that show ?thesis
        by (auto simp: persist_visible_partial_def segment_delta_def seg_inv_def seg_rows_def)
    next
      case False
      then have "write_partial F (cf_client F) True s0 = (True, s)"
        using that(3) by (auto simp: persist_visible_partial_def split: prod.splits if_splits)
      with seg_inv_write [OF that(1), of F "cf_client F" True] show ?thesis by simp
    qed
    moreover have "ss_col s = ss_col st"
      using keeps_visible [of s0 F] that by (simp add: keeps_def)
    ultimately show ?thesis by (auto simp: seg_inv_def seg_rows_def)
  qed
  have start: "seg_inv db0 (act a st)" "seg_inv db0 (act b (act a st))" "ss_col (act a st) = ss_col st"
      "ss_col (act b (act a st)) = ss_col st" for a b
    by (rule seg_inv_same [OF seg]; simp add: act_def)+ (simp_all add: act_def)
  from persisted_before_exit [OF assms(1,2,4,3)] obtain s0 s where s0: "s0 = st \<or> (\<exists>a. s0 = act a st) \<or> (\<exists>a b. s0 = act b (act a st))"
    and v: "persist_visible_partial F s0 = (True, s)" and db: "cd_msgs (ss_db st') = cd_msgs (ss_db s)" by blast
  have "seg_inv db0 s0" "ss_col s0 = ss_col st" using s0 seg start by auto
  from key [OF this v] db buf show ?thesis by simp
qed

lemma demo_going:
  "event_loop demo_stream demo_events (init_stream demo_chat_db) =
    (Going, snd (event_loop demo_stream demo_events (init_stream demo_chat_db)))"
  by (simp add: demo_events_def on_event_def demo_stream_def init_stream_def new_collector_def flush_tokens_def
      yield_ev_def utf8_len_def boundary_def check_steer_boundary_def persist_segment_def segment_delta_def
      write_partial_def persist_assistant_turn_def tx_def append_msg_def Let_def cut_segment_def)

lemma abort_keeps_text_witness:
  "\<exists>parts. cd_msgs (ss_db (snd (stream_turn demo_stream demo_events SrcTimeout (init_stream demo_chat_db))))
      = cd_msgs demo_chat_db @ parts \<and> concat (map m_text parts) = ''hello you''"
proof -
  have "stream_turn demo_stream demo_events SrcTimeout (init_stream demo_chat_db) =
     (fst (stream_turn demo_stream demo_events SrcTimeout (init_stream demo_chat_db)),
      snd (stream_turn demo_stream demo_events SrcTimeout (init_stream demo_chat_db)))" by simp
  from abort_keeps_text [OF demo_fine demo_going _ this] show ?thesis
    by (auto simp: demo_events_def token_text_def)
qed

text \<open>
  No error text the mapper hands to a client, of an error event or of a failed tool,
  carries the signature of a presigned link.
\<close>

theorem errors_redacted:
  "\<not> sublist presigned_marker (client_error_text (chat_event_to_pb ev))"
proof -
  have "\<not> sublist presigned_marker []" by (simp add: presigned_marker_def)
  then show ?thesis
    by (cases ev) (auto simp: client_error_text_def error_event_def redact_clean split: option.splits)
qed

end
