(* ===== verification/Turn_Runner.thy ===== *)
theory Turn_Runner
  imports Turn_Service Turn_Locks Chat_Stream Codex_Session
begin

text \<open>
  The background execution of a turn (\<open>app/services/turns/runner.py\<close>), its heartbeat, the
  recovery of orphans (\<open>turns/recovery.py\<close>), the status probe (\<open>turns/probe.py\<close>) and the
  per-turn event stream with its reader (\<open>turns/stream.py\<close>). The world holds the turns
  table, the key-value server with the process's leases, the event stream of the turn and
  the number of rate-limit slots given back.
\<close>

section \<open>The world\<close>

record ('s, 'd) world =
  rw_lease :: "'s lease_state"
  rw_db :: 'd
  rw_pub :: "activity list"
  rw_stream :: "pb_event list"
  rw_released :: nat

definition TURN_STALE_S :: int where
  "TURN_STALE_S = 120"

text \<open>A transaction of the turn service: what it publishes on commit and the new table.\<close>

definition finalize_tx ::
  "(turn_row, 'd) table \<Rightarrow> int \<Rightarrow> turn_status \<Rightarrow> string option \<Rightarrow> string option \<Rightarrow> int \<Rightarrow>
     ('s, 'd) world \<Rightarrow> ('s, 'd) world" where
  "finalize_tx T i st code detail now w =
     (case finalize_once T i st code detail now (open_session (rw_db w)) of
        Inl e \<Rightarrow> w
      | Inr (won, s) \<Rightarrow> let (pub, s') = commit s in w\<lparr>rw_db := s_committed s', rw_pub := rw_pub w @ pub\<rparr>)"

definition last_event_tx ::
  "(turn_row, 'd) table \<Rightarrow> int \<Rightarrow> string \<Rightarrow> ('s, 'd) world \<Rightarrow> ('s, 'd) world" where
  "last_event_tx T i eid w =
     w\<lparr>rw_db := s_committed (snd (commit (update_last_event T i eid (open_session (rw_db w)))))\<rparr>"

section \<open>The heartbeat loop\<close>

text \<open>
  One round: the row, the active lock and the lease are refreshed in this order, and the first
  that is lost sets \<open>ownership_lost\<close> and ends the loop. The value says whether all are held.
\<close>

definition heartbeat_round ::
  "('s, 'x) redis_scheme \<Rightarrow> (turn_row, 'd) table \<Rightarrow> fault \<Rightarrow> fault \<Rightarrow> int \<Rightarrow> int \<Rightarrow> string option \<Rightarrow> int \<Rightarrow>
     ('s, 'd) world \<Rightarrow> bool \<times> ('s, 'd) world" where
  "heartbeat_round R T f_active f_lease turn_id chat_id holder now w =
     (let (owned, s) = heartbeat T turn_id now (open_session (rw_db w));
          w1 = w\<lparr>rw_db := s_committed (snd (commit s))\<rparr>
      in if \<not> owned then (False, w1)
         else let (held, srv) = heartbeat_active R f_active chat_id turn_id (l_srv (rw_lease w1));
                  w2 = w1\<lparr>rw_lease := (rw_lease w1)\<lparr>l_srv := srv\<rparr>\<rparr>
              in if \<not> held then (False, w2)
                 else (case holder of
                         None \<Rightarrow> (True, w2)
                       | Some h \<Rightarrow>
                           let (kept, ls) = refresh R f_lease turn_id h LEASE_TTL_S (rw_lease w2)
                           in (kept, w2\<lparr>rw_lease := ls\<rparr>)))"

section \<open>Executing a turn\<close>

record run_flags =
  fl_cancelled :: bool
  fl_status :: "turn_status option"
  fl_error :: "string option \<times> string option"
  fl_published :: bool
  fl_skip :: bool
  fl_heartbeat :: bool

definition no_flags :: run_flags where
  "no_flags = \<lparr>fl_cancelled = False, fl_status = None, fl_error = (None, None), fl_published = False,
     fl_skip = False, fl_heartbeat = False\<rparr>"

text \<open>
  One event of \<open>stream_turn\<close> as the loop meets it: whether the heartbeat has found the
  ownership lost, whether the publish and the update of the row succeed.
\<close>

record stream_item =
  it_event :: pb_event
  it_lost :: bool
  it_published :: bool
  it_updated :: bool

datatype body_end = BodyReturns | BodyCancelled | BodyCrashes

text \<open>What the environment decides about one execution.\<close>

record run_env =
  re_user :: bool
  re_f_acquire :: fault
  re_f_read :: fault
  re_f_lease :: fault
  re_f_unlock :: fault
  re_f_unlease :: fault
  re_opens :: bool
  re_items :: "stream_item list"
  re_end :: body_end
  re_crash_text :: string
  re_pub_crash :: bool
  re_pub_safety :: bool
  re_finalize :: bool
  re_now :: int

fun outcome_value :: "lock_outcome \<Rightarrow> string" where
  "outcome_value ACQUIRED = ''acquired''"
| "outcome_value REDELIVERY = ''redelivery''"
| "outcome_value ACTIVE_BUSY = ''active_busy''"

definition mark_terminal :: "pb_event \<Rightarrow> run_flags \<Rightarrow> run_flags" where
  "mark_terminal ev fl =
     (case ev of
        PbDone c t m \<Rightarrow> fl\<lparr>fl_published := True, fl_status := Some COMPLETED\<rparr>
      | PbError code detail \<Rightarrow> fl\<lparr>fl_published := True, fl_status := Some FAILED,
          fl_error := (Some (if code \<noteq> [] then code else ''codex_error''),
                       Some (case detail of None \<Rightarrow> [] | Some d \<Rightarrow> d))\<rparr>
      | _ \<Rightarrow> fl)"

fun run_items ::
  "(turn_row, 'd) table \<Rightarrow> int \<Rightarrow> stream_item list \<Rightarrow> run_flags \<Rightarrow> ('s, 'd) world \<Rightarrow>
     (run_flags \<times> ('s, 'd) world) \<times> body_end option" where
  "run_items T i [] fl w = ((fl, w), None)"
| "run_items T i (it # its) fl w =
     (if it_lost it then
        ((fl\<lparr>fl_status := Some FAILED,
             fl_error := (Some ''ownership_lost'', Some ''heartbeat/lease CAS failed mid-stream'')\<rparr>, w),
         Some BodyReturns)
      else if \<not> it_published it then ((fl, w), Some BodyCrashes)
      else
        let w1 = w\<lparr>rw_stream := rw_stream w @ [it_event it]\<rparr> in
        if \<not> it_updated it then ((fl, w1), Some BodyCrashes)
        else run_items T i its (mark_terminal (it_event it) fl)
               (last_event_tx T i (str_of_nat (length (rw_stream w1))) w1))"

definition build_terminal_event :: "turn_status option \<Rightarrow> string option \<times> string option \<Rightarrow> pb_event" where
  "build_terminal_event status err =
     (if status = Some COMPLETED then PbDone 0 [] None
      else error_event
        (case fst err of Some c \<Rightarrow> if c \<noteq> [] then c else error_code_value STREAM_DROPPED
         | None \<Rightarrow> error_code_value STREAM_DROPPED)
        (Some (case snd err of
             Some d \<Rightarrow> if d \<noteq> [] then d else ''background turn ended without terminal event''
           | None \<Rightarrow> ''background turn ended without terminal event'')))"

text \<open>The \<open>except\<close> clauses, for how the body ended.\<close>

definition handle_end :: "run_env \<Rightarrow> body_end \<Rightarrow> run_flags \<times> ('s, 'd) world \<Rightarrow> run_flags \<times> ('s, 'd) world" where
  "handle_end e how fw =
     (case how of
        BodyReturns \<Rightarrow> fw
      | BodyCancelled \<Rightarrow> ((fst fw)\<lparr>fl_cancelled := True, fl_status := Some CANCELLED\<rparr>, snd fw)
      | BodyCrashes \<Rightarrow>
          let text = ''background crashed: '' @ re_crash_text e;
              fl = (fst fw)\<lparr>fl_status := Some FAILED, fl_error := (Some ''codex_error'', Some text)\<rparr>
          in if re_pub_crash e
             then (fl\<lparr>fl_published := True\<rparr>,
                   (snd fw)\<lparr>rw_stream := rw_stream (snd fw) @ [error_event (error_code_value CODEX_ERROR) (Some text)]\<rparr>)
             else (fl, snd fw))"

text \<open>
  The \<open>finally\<close> block; the value is False when the finalizing transaction raises, which leaves
  the block before the rate limit is released.
\<close>

definition cleanup ::
  "('s, 'x) redis_scheme \<Rightarrow> (turn_row, 'd) table \<Rightarrow> run_env \<Rightarrow> int \<Rightarrow> string \<Rightarrow> run_flags \<Rightarrow>
     ('s, 'd) world \<Rightarrow> bool \<times> ('s, 'd) world" where
  "cleanup R T e turn_id holder fl w =
     (let w1 = (if fl_heartbeat fl
                then w\<lparr>rw_lease := snd (release R (re_f_unlease e) turn_id holder (rw_lease w))\<rparr> else w);
          w2 = (if \<not> fl_published fl \<and> \<not> fl_cancelled fl \<and> \<not> fl_skip fl \<and> re_pub_safety e
                then w1\<lparr>rw_stream := rw_stream w1 @ [build_terminal_event (fl_status fl) (fl_error fl)]\<rparr> else w1)
      in case fl_status fl of
           Some st \<Rightarrow>
             if fl_skip fl then (True, w2)
             else if \<not> re_finalize e then (False, w2)
             else (True, (finalize_tx T turn_id st (fst (fl_error fl)) (snd (fl_error fl)) (re_now e) w2)
                     \<lparr>rw_released := rw_released w2 + 1\<rparr>)
         | None \<Rightarrow> (True, if fl_skip fl then w2 else w2\<lparr>rw_released := rw_released w2 + 1\<rparr>))"

text \<open>The body inside the locks: lease, client, the loop over the stream.\<close>

definition locked_body ::
  "('s, 'x) redis_scheme \<Rightarrow> (turn_row, 'd) table \<Rightarrow> run_env \<Rightarrow> int \<Rightarrow> string \<Rightarrow>
     ('s, 'd) world \<Rightarrow> (run_flags \<times> ('s, 'd) world) \<times> body_end" where
  "locked_body R T e turn_id holder w =
     (let (got, ls) = acquire R (re_f_lease e) turn_id holder LEASE_TTL_S (rw_lease w);
          w1 = w\<lparr>rw_lease := ls\<rparr>
      in if \<not> got then ((no_flags\<lparr>fl_skip := True\<rparr>, w1), BodyReturns)
         else let fl = no_flags\<lparr>fl_heartbeat := True\<rparr> in
              if \<not> re_opens e then ((fl, w1), BodyCrashes)
              else (case run_items T turn_id (re_items e) fl w1 of
                      (fw, Some how) \<Rightarrow> (fw, how)
                    | (fw, None) \<Rightarrow> (fw, re_end e)))"

text \<open>What happens inside \<open>hold_turn_locks\<close> for each outcome.\<close>

definition attempt ::
  "('s, 'x) redis_scheme \<Rightarrow> (turn_row, 'd) table \<Rightarrow> run_env \<Rightarrow> int \<Rightarrow> string \<Rightarrow> lock_outcome \<Rightarrow>
     ('s, 'd) world \<Rightarrow> (run_flags \<times> ('s, 'd) world) \<times> body_end" where
  "attempt R T e turn_id holder oc w =
     (case oc of
        REDELIVERY \<Rightarrow> ((no_flags\<lparr>fl_skip := True\<rparr>, w), BodyReturns)
      | ACTIVE_BUSY \<Rightarrow>
          ((no_flags\<lparr>fl_status := Some FAILED, fl_error := (Some (error_code_value TURN_BUSY),
              Some (''lock unavailable: '' @ outcome_value oc))\<rparr>, w), BodyReturns)
      | ACQUIRED \<Rightarrow> locked_body R T e turn_id holder w)"

definition execute_turn_inner ::
  "('s, 'x) redis_scheme \<Rightarrow> (turn_row, 'd) table \<Rightarrow> run_env \<Rightarrow> int \<Rightarrow> string \<Rightarrow>
     ('s, 'd) world \<Rightarrow> bool \<times> ('s, 'd) world" where
  "execute_turn_inner R T e turn_id holder w =
     (case get_by_id T turn_id (rw_db w) of
        None \<Rightarrow> (True, w)
      | Some turn \<Rightarrow>
          if terminal (t_status turn) then (True, w)
          else if \<not> re_user e then (True, w)
          else
            let chat_id = t_chat turn;
                (oc, srv) = hold_enter R (re_f_acquire e) (re_f_read e) chat_id turn_id (l_srv (rw_lease w));
                w1 = w\<lparr>rw_lease := (rw_lease w)\<lparr>l_srv := srv\<rparr>\<rparr>;
                (fw, how) = attempt R T e turn_id holder oc w1;
                ls = rw_lease (snd fw);
                w2 = (snd fw)\<lparr>rw_lease := ls\<lparr>l_srv := hold_exit R (re_f_unlock e) oc chat_id turn_id (l_srv ls)\<rparr>\<rparr>;
                (fl, w3) = handle_end e how (fst fw, w2)
            in cleanup R T e turn_id holder fl w3)"

section \<open>Recovery\<close>

definition finalize_orphan ::
  "('s, 'x) redis_scheme \<Rightarrow> (turn_row, 'd) table \<Rightarrow> fault \<Rightarrow> int \<Rightarrow> turn_row \<Rightarrow> 'd sess \<Rightarrow> 's \<Rightarrow> 'd sess \<times> 's" where
  "finalize_orphan R T f now turn s srv =
     (let s1 = (case finalize_once T (t_id turn) FAILED (Some ''orphan_heartbeat'')
                  (Some ''no heartbeat for >120.0s'') now s of Inr (won, s') \<Rightarrow> s' | Inl e \<Rightarrow> s)
      in (s1, snd (release_active R f (t_chat turn) (t_id turn) srv)))"

fun finalize_orphans ::
  "('s, 'x) redis_scheme \<Rightarrow> (turn_row, 'd) table \<Rightarrow> (int \<Rightarrow> fault) \<Rightarrow> int \<Rightarrow> turn_row list \<Rightarrow> 'd sess \<Rightarrow> 's \<Rightarrow>
     'd sess \<times> 's" where
  "finalize_orphans R T fs now [] s srv = (s, srv)"
| "finalize_orphans R T fs now (t # ts) s srv =
     (let (s1, srv1) = finalize_orphan R T (fs (t_id t)) now t s srv in finalize_orphans R T fs now ts s1 srv1)"

definition reconcile_stale_turns ::
  "('s, 'x) redis_scheme \<Rightarrow> (turn_row, 'd) table \<Rightarrow> (int \<Rightarrow> fault) \<Rightarrow> int \<Rightarrow> ('s, 'd) world \<Rightarrow> nat \<times> ('s, 'd) world" where
  "reconcile_stale_turns R T fs now w =
     (let stale = find_stale_active T TURN_STALE_S now (rw_db w);
          (s, srv) = finalize_orphans R T fs now stale (open_session (rw_db w)) (l_srv (rw_lease w));
          (pub, s') = commit s
      in (length stale, w\<lparr>rw_db := s_committed s', rw_pub := rw_pub w @ pub,
            rw_lease := (rw_lease w)\<lparr>l_srv := srv\<rparr>\<rparr>))"

definition reconcile_if_stale ::
  "('s, 'x) redis_scheme \<Rightarrow> (turn_row, 'd) table \<Rightarrow> fault \<Rightarrow> int \<Rightarrow> turn_row \<Rightarrow> ('s, 'd) world \<Rightarrow> bool \<times> ('s, 'd) world" where
  "reconcile_if_stale R T f now turn w =
     (if now - t_heartbeat turn < TURN_STALE_S then (False, w)
      else let (s, srv) = finalize_orphan R T f now turn (open_session (rw_db w)) (l_srv (rw_lease w));
               (pub, s') = commit s
           in (True, w\<lparr>rw_db := s_committed s', rw_pub := rw_pub w @ pub,
                 rw_lease := (rw_lease w)\<lparr>l_srv := srv\<rparr>\<rparr>))"

definition finalize_lease_expired ::
  "('s, 'x) redis_scheme \<Rightarrow> (turn_row, 'd) table \<Rightarrow> fault \<Rightarrow> int \<Rightarrow> int \<Rightarrow> ('s, 'd) world \<Rightarrow> ('s, 'd) world" where
  "finalize_lease_expired R T f now turn_id w =
     (case get_by_id T turn_id (rw_db w) of
        None \<Rightarrow> w
      | Some turn \<Rightarrow>
          if \<not> active (t_status turn) then w
          else let w1 = finalize_tx T (t_id turn) FAILED (Some ''lease_expired'')
                     (Some ''worker lease expired without release'') now w
               in w1\<lparr>rw_lease := (rw_lease w1)\<lparr>l_srv :=
                    snd (release_active R f (t_chat turn) (t_id turn) (l_srv (rw_lease w1)))\<rparr>\<rparr>)"

text \<open>
  The listener on expired keys: what it does with one message of the channel, and the wait
  before it reconnects, in seconds.
\<close>

definition on_expired_key ::
  "('s, 'x) redis_scheme \<Rightarrow> (turn_row, 'd) table \<Rightarrow> fault \<Rightarrow> int \<Rightarrow> string option \<Rightarrow> ('s, 'd) world \<Rightarrow> ('s, 'd) world" where
  "on_expired_key R T f now key w =
     (case key of
        None \<Rightarrow> w
      | Some k \<Rightarrow> (case turn_id_from_key k of None \<Rightarrow> w | Some i \<Rightarrow> finalize_lease_expired R T f now i w))"

definition next_backoff :: "bool \<Rightarrow> nat \<Rightarrow> nat" where
  "next_backoff consumed b = (if consumed then 1 else min (b * 2) 30)"

section \<open>The probe\<close>

datatype probe_result = ProbeAlive | ProbeUnknown | ProbeTerminal turn_status "string option" string

definition probe_or_extend_idle :: "'s peer \<Rightarrow> json \<Rightarrow> json \<Rightarrow> 's \<Rightarrow> probe_result \<times> 's" where
  "probe_or_extend_idle req thread turn s =
     (if \<not> (truthy thread \<and> truthy turn) then (ProbeUnknown, s)
      else (case probe_turn_status req thread turn s of
              (Inl e, s') \<Rightarrow> (ProbeUnknown, s')
            | (Inr raw, s') \<Rightarrow>
                if raw = Some (codex_status_value CtsInProgress) then (ProbeAlive, s')
                else (case map_codex_turn_status raw of
                        None \<Rightarrow> (ProbeUnknown, s')
                      | Some st \<Rightarrow>
                          if st = RUNNING then (ProbeUnknown, s')
                          else (case raw of
                                  None \<Rightarrow> (ProbeUnknown, s')
                                | Some r \<Rightarrow> (ProbeTerminal st
                                    (if st = COMPLETED then None else Some (''codex_reported_'' @ r)) r, s')))))"

section \<open>Reading the stream\<close>

text \<open>
  \<open>TurnStream.tail\<close>: each read returns the entries after the cursor, at most 64, or nothing,
  and then the row decides whether to go on. \<open>reads\<close> lists what is in the stream at each read,
  with whether the turn is over by then. The value is what the client gets, and whether the
  tail ended.
\<close>

fun yield_until_terminal :: "pb_event list \<Rightarrow> pb_event list \<times> bool" where
  "yield_until_terminal [] = ([], False)"
| "yield_until_terminal (e # es) =
     (if pb_terminal e then ([e], True) else let (out, stop) = yield_until_terminal es in (e # out, stop))"

fun tail_stream :: "nat \<Rightarrow> (pb_event list \<times> bool) list \<Rightarrow> pb_event list \<times> bool" where
  "tail_stream cursor [] = ([], False)"
| "tail_stream cursor ((entries, over) # reads) =
     (let new = take 64 (drop cursor entries) in
      if new = [] then (if over then ([], True) else tail_stream cursor reads)
      else let (out, stop) = yield_until_terminal new in
           if stop then (out, True)
           else let (out', stop') = tail_stream (cursor + length new) reads in (out @ out', stop'))"

section \<open>The loop over the stream\<close>

lemma run_items_stream:
  assumes "run_items T i its fl w = ((fl', w'), how)"
  shows "(\<exists>n. rw_stream w' = rw_stream w @ map it_event (take n its)) \<and>
     rw_lease w' = rw_lease w \<and> rw_released w' = rw_released w \<and> rw_pub w' = rw_pub w \<and>
     fl_skip fl' = fl_skip fl \<and> fl_cancelled fl' = fl_cancelled fl \<and> fl_heartbeat fl' = fl_heartbeat fl \<and>
     how \<noteq> Some BodyCancelled"
  using assms
proof (induction T i its fl w rule: run_items.induct)
  case (1 T i fl w)
  then show ?case by (auto intro!: exI [of _ 0])
next
  case (2 T i it its fl w)
  let ?w1 = "w\<lparr>rw_stream := rw_stream w @ [it_event it]\<rparr>"
  show ?case
  proof (cases "it_lost it \<or> \<not> it_published it")
    case True
    with 2(2) show ?thesis by (auto split: if_splits intro!: exI [of _ 0])
  next
    case p: False
    show ?thesis
    proof (cases "it_updated it")
      case False
      with 2(2) p show ?thesis by (auto simp: Let_def intro!: exI [of _ 1])
    next
      case True
      from p True 2(2) have r: "run_items T i its (mark_terminal (it_event it) fl)
          (last_event_tx T i (str_of_nat (length (rw_stream ?w1))) ?w1) = ((fl', w'), how)"
        by (simp add: Let_def)
      have f: "fl_skip (mark_terminal (it_event it) fl) = fl_skip fl"
        "fl_cancelled (mark_terminal (it_event it) fl) = fl_cancelled fl"
        "fl_heartbeat (mark_terminal (it_event it) fl) = fl_heartbeat fl"
        by (simp_all add: mark_terminal_def split: pb_event.splits)
      from 2(1) [OF _ _ refl _ r] p True obtain n where
        "rw_stream w' = rw_stream w @ it_event it # map it_event (take n its)"
        "rw_lease w' = rw_lease w \<and> rw_released w' = rw_released w \<and> rw_pub w' = rw_pub w \<and>
         fl_skip fl' = fl_skip fl \<and> fl_cancelled fl' = fl_cancelled fl \<and> fl_heartbeat fl' = fl_heartbeat fl \<and>
         how \<noteq> Some BodyCancelled"
        by (auto simp: last_event_tx_def f)
      then show ?thesis by (auto intro!: exI [of _ "Suc n"])
    qed
  qed
qed

definition flags_ok :: "run_flags \<Rightarrow> bool" where
  "flags_ok fl \<longleftrightarrow> (\<forall>st. fl_status fl = Some st \<longrightarrow> terminal st) \<and> (fl_published fl \<longrightarrow> fl_status fl \<noteq> None)"

lemma flags_ok_mark: "flags_ok fl \<Longrightarrow> flags_ok (mark_terminal ev fl)"
  by (auto simp: flags_ok_def mark_terminal_def terminal_statuses_def split: pb_event.splits)

lemma mark_terminal_status:
  "pb_terminal ev \<Longrightarrow> fl_status (mark_terminal ev fl) \<noteq> None \<and> fl_published (mark_terminal ev fl)"
  "fl_status fl \<noteq> None \<Longrightarrow> fl_status (mark_terminal ev fl) \<noteq> None"
  "fl_published fl \<Longrightarrow> fl_published (mark_terminal ev fl)"
  by (auto simp: mark_terminal_def pb_terminal_def split: pb_event.splits)

lemma run_items_flags:
  assumes "run_items T i its fl w = ((fl', w'), how)" "flags_ok fl"
  shows "flags_ok fl' \<and> (fl_status fl \<noteq> None \<longrightarrow> fl_status fl' \<noteq> None) \<and>
    (how = None \<longrightarrow> (\<exists>it \<in> set its. pb_terminal (it_event it)) \<longrightarrow> fl_status fl' \<noteq> None) \<and>
    (how = Some BodyReturns \<longrightarrow> fl_status fl' \<noteq> None) \<and>
    (fl_published fl' \<longrightarrow> fl_published fl \<or> (\<exists>e \<in> set (drop (length (rw_stream w)) (rw_stream w')). pb_terminal e))"
  using assms
proof (induction T i its fl w rule: run_items.induct)
  case (2 T i it its fl w)
  let ?w1 = "w\<lparr>rw_stream := rw_stream w @ [it_event it]\<rparr>"
  show ?case
  proof (cases "it_lost it \<or> \<not> it_published it \<or> \<not> it_updated it")
    case True
    with 2(2,3) show ?thesis by (auto simp: flags_ok_def terminal_statuses_def Let_def split: if_splits)
  next
    case p: False
    let ?w2 = "last_event_tx T i (str_of_nat (length (rw_stream ?w1))) ?w1"
    let ?fl1 = "mark_terminal (it_event it) fl"
    from p 2(2) have r: "run_items T i its ?fl1 ?w2 = ((fl', w'), how)" by (simp add: Let_def)
    note IH = 2(1) [OF _ _ refl _ r flags_ok_mark [OF 2(3)]]
    from run_items_stream [OF r] obtain n where st: "rw_stream w' = rw_stream w @ it_event it # map it_event (take n its)"
      by (auto simp: last_event_tx_def)
    have pub: "fl_published ?fl1 \<longrightarrow> fl_published fl \<or> pb_terminal (it_event it)"
      by (simp add: mark_terminal_def pb_terminal_def split: pb_event.splits)
    from IH p mark_terminal_status(1) [of "it_event it" fl] mark_terminal_status(2) [of fl "it_event it"] pub show ?thesis
      by (auto simp: st last_event_tx_def)
  qed
qed auto

context turn_db
begin

lemma last_event_keeps:
  assumes "ok (rw_db w)" "tb_view T (rw_db w) i = Some r"
  shows "ok (rw_db (last_event_tx T i e w)) \<and>
    (\<exists>r'. tb_view T (rw_db (last_event_tx T i e w)) i = Some r' \<and> t_status r' = t_status r \<and> t_chat r' = t_chat r)"
proof -
  have o: "ok (s_db (open_session (rw_db w)))" using assms(1) by simp
  note u = cas_unguarded [where s = "open_session (rw_db w)" and i = i and
      f = "\<lambda>r. r\<lparr>t_last_event := Some e\<rparr>", OF o]
  have "s_committed (snd (commit (update_last_event T i e (open_session (rw_db w))))) =
      s_db (snd (exec_update T (\<lambda>r. t_id r = i) (\<lambda>r. r\<lparr>t_last_event := Some e\<rparr>) (open_session (rw_db w))))"
    by (simp add: commit_def update_last_event_def)
  with u(1,2) assms(2) show ?thesis by (simp add: last_event_tx_def)
qed

lemma run_items_db:
  assumes "run_items T i its fl w = ((fl', w'), how)" "ok (rw_db w)" "tb_view T (rw_db w) i = Some r"
  shows "ok (rw_db w') \<and> (\<exists>r'. tb_view T (rw_db w') i = Some r' \<and> t_status r' = t_status r \<and> t_chat r' = t_chat r)"
  using assms
proof (induction its arbitrary: fl w r)
  case (Cons it its)
  let ?w1 = "w\<lparr>rw_stream := rw_stream w @ [it_event it]\<rparr>"
  let ?w2 = "last_event_tx T i (str_of_nat (length (rw_stream ?w1))) ?w1"
  show ?case
  proof (cases "it_lost it \<or> \<not> it_published it \<or> \<not> it_updated it")
    case True
    with Cons.prems show ?thesis by (auto simp: Let_def split: if_splits)
  next
    case False
    with Cons.prems(1) have r: "run_items T i its (mark_terminal (it_event it) fl) ?w2 = ((fl', w'), how)"
      by (simp add: Let_def)
    from last_event_keeps [of ?w1 i r] Cons.prems(2,3) obtain r2 where
      "ok (rw_db ?w2)" "tb_view T (rw_db ?w2) i = Some r2" "t_status r2 = t_status r" "t_chat r2 = t_chat r" by auto
    with Cons.IH [OF r, of r2] show ?thesis by simp
  qed
qed auto

lemma finalize_tx_row:
  assumes "ok (rw_db w)" "tb_view T (rw_db w) i = Some r" "active (t_status r)" "terminal st"
  shows "tb_view T (rw_db (finalize_tx T i st code detail now w)) i =
      Some (r\<lparr>t_status := st, t_error_code := code, t_error_detail := detail, t_completed := Some now\<rparr>)
    \<and> rw_pub (finalize_tx T i st code detail now w) = rw_pub w @ [TurnEnded (t_user r) (t_chat r) i]"
proof -
  have o: "ok (s_db (open_session (rw_db w)))" using assms(1) by simp
  obtain won s' where *: "finalize_once T i st code detail now (open_session (rw_db w)) = Inr (won, s')"
    "tb_view T (s_db s') = (case tb_view T (rw_db w) i of
         Some r \<Rightarrow> if is_active r
           then (tb_view T (rw_db w))(i \<mapsto> r\<lparr>t_status := st, t_error_code := code,
             t_error_detail := detail, t_completed := Some now\<rparr>) else tb_view T (rw_db w)
       | None \<Rightarrow> tb_view T (rw_db w))"
    "s_hooks s' = (case tb_view T (rw_db w) i of
         Some r \<Rightarrow> if is_active r then [TurnEnded (t_user r) (t_chat r) i] else [] | None \<Rightarrow> [])"
    by (rule finalize_spec [OF o assms(4), of i code detail now, unfolded open_session_simps append_Nil])
  then have "tb_view T (s_db s') i = Some (r\<lparr>t_status := st, t_error_code := code, t_error_detail := detail, t_completed := Some now\<rparr>)"
    "s_hooks s' = [TurnEnded (t_user r) (t_chat r) i]"
    using assms(2,3) by simp_all
  with *(1)
  show ?thesis by (simp add: finalize_tx_def commit_def)
qed

end

lemma finalize_tx_fields [simp]:
  "rw_stream (finalize_tx T i st c d now w) = rw_stream w" "rw_lease (finalize_tx T i st c d now w) = rw_lease w"
  "rw_released (finalize_tx T i st c d now w) = rw_released w"
  by (simp_all add: finalize_tx_def split: sum.splits prod.splits)

section \<open>One execution\<close>

lemma no_flags_ok: "flags_ok no_flags" "flags_ok (no_flags\<lparr>fl_heartbeat := True\<rparr>)"
  by (simp_all add: flags_ok_def no_flags_def)

text \<open>The new part of the stream holds a terminal event.\<close>

definition told :: "('s, 'd) world \<Rightarrow> ('s, 'd) world \<Rightarrow> bool" where
  "told w w' \<longleftrightarrow> (\<exists>new. rw_stream w' = rw_stream w @ new \<and> (\<exists>e \<in> set new. pb_terminal e))"

definition skipped :: "run_flags \<Rightarrow> body_end \<Rightarrow> ('s, 'd) world \<Rightarrow> ('s, 'd) world \<Rightarrow> bool" where
  "skipped fl how w w' \<longleftrightarrow> fl_skip fl \<and> fl_status fl = None \<and> \<not> fl_heartbeat fl \<and> how = BodyReturns \<and>
     rw_stream w' = rw_stream w \<and> rw_db w' = rw_db w \<and> rw_released w' = rw_released w \<and> rw_pub w' = rw_pub w"

lemma attempt_cancel:
  assumes "attempt R T e i h oc w = ((fl, w'), how)"
  shows "how = BodyCancelled \<longrightarrow> re_end e = BodyCancelled"
proof (cases oc)
  case ACQUIRED
  obtain fw x where r: "run_items T i (re_items e) (no_flags\<lparr>fl_heartbeat := True\<rparr>)
      (w\<lparr>rw_lease := snd (acquire R (re_f_lease e) i h LEASE_TTL_S (rw_lease w))\<rparr>) = (fw, x)" by fastforce
  have "x \<noteq> Some BodyCancelled" using run_items_stream [of T i "re_items e" _ _ "fst fw" "snd fw" x] r by simp
  with assms ACQUIRED r show ?thesis
    by (auto simp: attempt_def locked_body_def split_beta Let_def split: if_splits option.splits)
qed (use assms in \<open>auto simp: attempt_def\<close>)

context turn_db
begin

definition ran :: "run_env \<Rightarrow> int \<Rightarrow> turn_row \<Rightarrow> run_flags \<Rightarrow> body_end \<Rightarrow> ('s, 'd) world \<Rightarrow> ('s, 'd) world \<Rightarrow> bool" where
  "ran e i r fl how w w' \<longleftrightarrow> \<not> fl_skip fl \<and> \<not> fl_cancelled fl \<and> flags_ok fl \<and> ok (rw_db w') \<and>
     (\<exists>r'. tb_view T (rw_db w') i = Some r' \<and> t_status r' = t_status r \<and> t_chat r' = t_chat r) \<and>
     rw_released w' = rw_released w \<and> rw_pub w' = rw_pub w \<and> prefix (rw_stream w) (rw_stream w') \<and>
     (how = BodyReturns \<longrightarrow> fl_status fl \<noteq> None) \<and> (fl_published fl \<longrightarrow> told w w')"

lemma locked_body_ran:
  assumes "locked_body R T e i h w = ((fl, w'), how)" "ok (rw_db w)" "tb_view T (rw_db w) i = Some r"
    and "re_end e = BodyReturns \<longrightarrow> (\<exists>it \<in> set (re_items e). pb_terminal (it_event it))"
  shows "skipped fl how w w' \<or> ran e i r fl how w w'"
proof -
  obtain got ls where a: "acquire R (re_f_lease e) i h LEASE_TTL_S (rw_lease w) = (got, ls)" by fastforce
  let ?w1 = "w\<lparr>rw_lease := ls\<rparr>"
  show ?thesis
  proof (cases "got \<and> re_opens e")
    case False
    with assms(1) a have "((fl, w'), how) = (if got then ((no_flags\<lparr>fl_heartbeat := True\<rparr>, ?w1), BodyCrashes)
        else ((no_flags\<lparr>fl_skip := True\<rparr>, ?w1), BodyReturns))"
      by (cases got; cases "re_opens e") (simp_all add: locked_body_def)
    with assms(2,3) show ?thesis
      by (auto simp: skipped_def ran_def no_flags_def flags_ok_def split: if_splits)
  next
    case True
    obtain fl2 w2 how2 where r2: "run_items T i (re_items e) (no_flags\<lparr>fl_heartbeat := True\<rparr>) ?w1 = ((fl2, w2), how2)"
      by (metis prod_cases3 prod.collapse)
    note st = run_items_stream [OF r2] and fg = run_items_flags [OF r2 no_flags_ok(2)]
    from assms(2,3) have "ok (rw_db ?w1)" "tb_view T (rw_db ?w1) i = Some r" by simp_all
    note db = run_items_db [OF r2 this]
    have res: "fl = fl2" "w' = w2" "how = (case how2 of Some x \<Rightarrow> x | None \<Rightarrow> re_end e)"
      using assms(1) a True r2 by (auto simp: locked_body_def split: option.splits)
    from st obtain n where n: "rw_stream w2 = rw_stream w @ map it_event (take n (re_items e))" by auto
    have "fl_published fl2 \<longrightarrow> told w w2" using fg by (auto simp: told_def n no_flags_def)
    moreover have "how = BodyReturns \<longrightarrow> fl_status fl2 \<noteq> None"
      using fg assms(4) res(3) by (auto split: option.splits)
    ultimately have "ran e i r fl how w w'"
      using st fg db res by (auto simp: ran_def no_flags_def n)
    then show ?thesis ..
  qed
qed

lemma attempt_ran:
  assumes "attempt R T e i h oc w = ((fl, w'), how)" "ok (rw_db w)" "tb_view T (rw_db w) i = Some r"
    and "re_end e = BodyReturns \<longrightarrow> (\<exists>it \<in> set (re_items e). pb_terminal (it_event it))"
  shows "skipped fl how w w' \<or> ran e i r fl how w w'"
proof (cases oc)
  case ACQUIRED
  with assms(1) have "locked_body R T e i h w = ((fl, w'), how)" by (simp add: attempt_def)
  from locked_body_ran [OF this assms(2-4)] show ?thesis .
qed (use assms(1-3) in \<open>auto simp: attempt_def skipped_def ran_def no_flags_def flags_ok_def terminal_statuses_def\<close>)

lemma handle_end_ran:
  assumes "ran e i r fl how w w'" "handle_end e how (fl, w') = (fl2, w2)"
  shows "\<not> fl_skip fl2 \<and> (\<exists>st. fl_status fl2 = Some st \<and> terminal st) \<and> ok (rw_db w2) \<and>
    (\<exists>r'. tb_view T (rw_db w2) i = Some r' \<and> t_status r' = t_status r \<and> t_chat r' = t_chat r) \<and>
    rw_released w2 = rw_released w \<and> rw_pub w2 = rw_pub w \<and> prefix (rw_stream w) (rw_stream w2) \<and>
    (fl_published fl2 \<longrightarrow> told w w2) \<and> (fl_cancelled fl2 \<longrightarrow> how = BodyCancelled)"
proof (cases how)
  case BodyReturns
  with assms show ?thesis by (auto simp: handle_end_def ran_def flags_ok_def)
next
  case BodyCancelled
  with assms show ?thesis by (auto simp: handle_end_def ran_def flags_ok_def terminal_statuses_def told_def)
next
  case BodyCrashes
  with assms show ?thesis
    by (auto simp: handle_end_def ran_def flags_ok_def terminal_statuses_def told_def prefix_def
        error_event_def pb_terminal_def Let_def split: if_splits)
qed

lemma cleanup_ran:
  assumes "\<not> fl_skip fl" "fl_status fl = Some st" "terminal st" "ok (rw_db w)" "tb_view T (rw_db w) i = Some r"
    "active (t_status r)" "re_finalize e"
  shows "fst (cleanup R T e i h fl w) \<and>
     (\<exists>r'. tb_view T (rw_db (snd (cleanup R T e i h fl w))) i = Some r' \<and> t_status r' = st) \<and>
     rw_released (snd (cleanup R T e i h fl w)) = rw_released w + 1 \<and>
     (\<exists>u. rw_pub (snd (cleanup R T e i h fl w)) = rw_pub w @ [TurnEnded u (t_chat r) i]) \<and>
     rw_stream (snd (cleanup R T e i h fl w)) = rw_stream w @
       (if \<not> fl_published fl \<and> \<not> fl_cancelled fl \<and> re_pub_safety e
        then [build_terminal_event (fl_status fl) (fl_error fl)] else [])"
proof -
  let ?w1 = "if fl_heartbeat fl
     then w\<lparr>rw_lease := snd (release R (re_f_unlease e) i h (rw_lease w))\<rparr> else w"
  let ?w2 = "if \<not> fl_published fl \<and> \<not> fl_cancelled fl \<and> \<not> fl_skip fl \<and> re_pub_safety e
     then ?w1\<lparr>rw_stream := rw_stream ?w1 @ [build_terminal_event (fl_status fl) (fl_error fl)]\<rparr> else ?w1"
  have "ok (rw_db ?w2)" "tb_view T (rw_db ?w2) i = Some r" using assms by simp_all
  note f = finalize_tx_row [OF this assms(6,3), of "fst (fl_error fl)" "snd (fl_error fl)" "re_now e"]
  have "cleanup R T e i h fl w = (True, (finalize_tx T i st (fst (fl_error fl)) (snd (fl_error fl)) (re_now e) ?w2)
      \<lparr>rw_released := rw_released ?w2 + 1\<rparr>)"
    using assms by (simp add: cleanup_def Let_def)
  with f assms(1) show ?thesis by auto
qed

lemma build_terminal: "pb_terminal (build_terminal_event st err)"
  by (simp add: build_terminal_event_def pb_terminal_def error_event_def)

lemma execute_result:
  fixes w :: "('s, 'd) world"
  assumes "ok (rw_db w)" "tb_view T (rw_db w) i = Some r" "active (t_status r)" "re_user e" "re_finalize e"
    and "re_end e = BodyReturns \<longrightarrow> (\<exists>it \<in> set (re_items e). pb_terminal (it_event it))"
    and "execute_turn_inner R T e i h w = (fin, w')"
  shows "fin \<and>
    ((rw_released w' = rw_released w \<and> rw_stream w' = rw_stream w \<and> rw_db w' = rw_db w \<and> rw_pub w' = rw_pub w) \<or>
     (rw_released w' = rw_released w + 1 \<and>
      (\<exists>r'. tb_view T (rw_db w') i = Some r' \<and> terminal (t_status r')) \<and>
      (\<exists>u. rw_pub w' = rw_pub w @ [TurnEnded u (t_chat r) i]) \<and>
      (re_pub_safety e \<longrightarrow> re_end e \<noteq> BodyCancelled \<longrightarrow> told w w')))"
proof -
  obtain oc srv where he: "hold_enter R (re_f_acquire e) (re_f_read e) (t_chat r) i (l_srv (rw_lease w)) = (oc, srv)"
    by fastforce
  let ?w1 = "w\<lparr>rw_lease := (rw_lease w)\<lparr>l_srv := srv\<rparr>\<rparr>"
  obtain fl wa how where at: "attempt R T e i h oc ?w1 = ((fl, wa), how)" by (metis prod.collapse)
  let ?w2 = "wa\<lparr>rw_lease := (rw_lease wa)\<lparr>l_srv := hold_exit R (re_f_unlock e) oc (t_chat r) i (l_srv (rw_lease wa))\<rparr>\<rparr>"
  obtain fl2 w3 where hd: "handle_end e how (fl, ?w2) = (fl2, w3)" by fastforce
  have na: "\<not> terminal (t_status r)" using assms(3) by (simp add: terminal_iff_not_active)
  have ex: "cleanup R T e i h fl2 w3 = (fin, w')"
    using assms(7) assms(2,4) na he at hd by (simp add: execute_turn_inner_def get_by_id_def)
  from assms(1,2) have o1: "ok (rw_db ?w1)" "tb_view T (rw_db ?w1) i = Some r" by simp_all
  from attempt_ran [OF at o1 assms(6)] show ?thesis
  proof
    assume sk: "skipped fl how ?w1 wa"
    then have "fl2 = fl" "w3 = ?w2" using hd by (auto simp: skipped_def handle_end_def)
    with sk ex show ?thesis by (auto simp: cleanup_def skipped_def)
  next
    assume rn: "ran e i r fl how ?w1 wa"
    then have "ran e i r fl how ?w1 ?w2" by (simp add: ran_def told_def)
    from handle_end_ran [OF this hd] obtain st r3 where
      h: "\<not> fl_skip fl2" "fl_status fl2 = Some st" "terminal st" "ok (rw_db w3)"
        "tb_view T (rw_db w3) i = Some r3" "t_status r3 = t_status r" "t_chat r3 = t_chat r"
      and h2: "rw_released w3 = rw_released w" "rw_pub w3 = rw_pub w" "prefix (rw_stream w) (rw_stream w3)"
        "fl_published fl2 \<longrightarrow> told ?w1 w3" "fl_cancelled fl2 \<longrightarrow> how = BodyCancelled" by auto
    have "active (t_status r3)" using assms(3) h(6) by simp
    note c = cleanup_ran [OF h(1-5) this assms(5), of R h]
    have can: "how = BodyCancelled \<longrightarrow> re_end e = BodyCancelled" using attempt_cancel [OF at] .
    have "told w w'" if "re_pub_safety e" "re_end e \<noteq> BodyCancelled"
      using c ex h2 that can build_terminal [of "fl_status fl2" "fl_error fl2"]
      by (cases "fl_published fl2") (auto simp: told_def prefix_def)
    with c ex h h2 show ?thesis by auto
  qed
qed

end

section \<open>Recovery, in terms of the table\<close>

definition orphaned :: "int \<Rightarrow> turn_row \<Rightarrow> turn_row" where
  "orphaned now r = r\<lparr>t_status := FAILED, t_error_code := Some ''orphan_heartbeat'',
     t_error_detail := Some ''no heartbeat for >120.0s'', t_completed := Some now\<rparr>"

definition stale_at :: "int \<Rightarrow> turn_row \<Rightarrow> bool" where
  "stale_at now r \<longleftrightarrow> active (t_status r) \<and> t_heartbeat r < now - TURN_STALE_S"

context turn_db
begin

lemma finalize_orphan_view:
  assumes "ok (s_db s)" "finalize_orphan R T f now t s srv = (s', srv')"
  shows "ok (s_db s')"
    and "tb_view T (s_db s') = (case tb_view T (s_db s) (t_id t) of
         Some r \<Rightarrow> if active (t_status r) then (tb_view T (s_db s))(t_id t \<mapsto> orphaned now r) else tb_view T (s_db s)
       | None \<Rightarrow> tb_view T (s_db s))"
proof -
  have "terminal FAILED" by (simp add: terminal_statuses_def)
  then obtain won s1 where *: "finalize_once T (t_id t) FAILED (Some ''orphan_heartbeat'') (Some ''no heartbeat for >120.0s'') now s = Inr (won, s1)"
    "ok (s_db s1)" "tb_view T (s_db s1) = (case tb_view T (s_db s) (t_id t) of
         Some r \<Rightarrow> if active (t_status r) then (tb_view T (s_db s))(t_id t \<mapsto> r\<lparr>t_status := FAILED, t_error_code := Some ''orphan_heartbeat'',
             t_error_detail := Some ''no heartbeat for >120.0s'', t_completed := Some now\<rparr>) else tb_view T (s_db s)
       | None \<Rightarrow> tb_view T (s_db s))"
    by (rule finalize_spec [OF assms(1), of FAILED "t_id t" "Some ''orphan_heartbeat''" "Some ''no heartbeat for >120.0s''" now])
  then have "s' = s1" using assms(2) by (simp add: finalize_orphan_def)
  with * show "ok (s_db s')"
    "tb_view T (s_db s') = (case tb_view T (s_db s) (t_id t) of
         Some r \<Rightarrow> if active (t_status r) then (tb_view T (s_db s))(t_id t \<mapsto> orphaned now r) else tb_view T (s_db s)
       | None \<Rightarrow> tb_view T (s_db s))"
    by (simp_all add: orphaned_def cong: option.case_cong split: option.splits)
qed

lemma finalize_orphans_view:
  assumes "ok (s_db s)" "finalize_orphans R T fs now ts s srv = (s', srv')"
  shows "ok (s_db s') \<and> tb_view T (s_db s') = (\<lambda>i. case tb_view T (s_db s) i of
       None \<Rightarrow> None
     | Some r \<Rightarrow> Some (if i \<in> t_id ` set ts \<and> active (t_status r) then orphaned now r else r))"
  using assms
proof (induction ts arbitrary: s srv)
  case Nil
  then show ?case by (auto simp: fun_eq_iff split: option.splits)
next
  case (Cons t ts)
  obtain s1 srv1 where f: "finalize_orphan R T (fs (t_id t)) now t s srv = (s1, srv1)" by fastforce
  note v = finalize_orphan_view [OF Cons.prems(1) f]
  have na: "\<not> active (t_status (orphaned now r))" for r
    by (simp add: orphaned_def)
  from Cons.IH [OF v(1), of srv1] Cons.prems(2) f show ?case
    by (auto simp: v(2) fun_eq_iff na split: option.splits)
qed

lemma find_stale_ids:
  assumes "ok d"
  shows "i \<in> t_id ` set (find_stale_active T TURN_STALE_S now d) \<longleftrightarrow> (\<exists>r. tb_view T d i = Some r \<and> stale_at now r)"
proof -
  have "set (find_stale_active T TURN_STALE_S now d) = {r. \<exists>k. tb_view T d k = Some r \<and> stale_at now r}"
    using select_set [OF assms] by (auto simp: find_stale_active_def stale_at_def)
  then show ?thesis using pk_view [OF assms] by (auto simp: image_iff)
qed

lemma reconcile_view:
  assumes "ok (rw_db w)" "reconcile_stale_turns R T fs now w = (n, w')"
  shows "tb_view T (rw_db w') = (\<lambda>i. map_option (\<lambda>r. if stale_at now r then orphaned now r else r) (tb_view T (rw_db w) i))"
proof -
  let ?st = "find_stale_active T TURN_STALE_S now (rw_db w)"
  obtain s srv where f: "finalize_orphans R T fs now ?st (open_session (rw_db w)) (l_srv (rw_lease w)) = (s, srv)"
    by fastforce
  have o: "ok (s_db (open_session (rw_db w)))" using assms(1) by simp
  have "rw_db w' = s_db s" using assms(2) f by (auto simp: reconcile_stale_turns_def commit_def)
  with finalize_orphans_view [OF o f] find_stale_ids [OF assms(1)] show ?thesis
    by (auto simp: fun_eq_iff stale_at_def split: option.splits)
qed

end

section \<open>The locks after an execution\<close>

lemma handle_end_lease: "rw_lease (snd (handle_end e how (fl, w))) = rw_lease w"
    "fl_heartbeat (fst (handle_end e how (fl, w))) = fl_heartbeat fl"
  by (cases how; simp add: handle_end_def Let_def)+

lemma cleanup_lease:
  "rw_lease (snd (cleanup R T e i h fl w)) =
     (if fl_heartbeat fl then snd (release R (re_f_unlease e) i h (rw_lease w)) else rw_lease w)"
  by (auto simp: cleanup_def Let_def split: option.splits)

lemma locked_body_lease:
  assumes "locked_body R T e i h w = ((fl, w'), how)"
  shows "rw_lease w' = snd (acquire R (re_f_lease e) i h LEASE_TTL_S (rw_lease w)) \<and>
    fl_heartbeat fl = fst (acquire R (re_f_lease e) i h LEASE_TTL_S (rw_lease w))"
proof -
  obtain got ls where a: "acquire R (re_f_lease e) i h LEASE_TTL_S (rw_lease w) = (got, ls)" by fastforce
  obtain fl2 w2 how2 where r2: "run_items T i (re_items e) (no_flags\<lparr>fl_heartbeat := True\<rparr>) (w\<lparr>rw_lease := ls\<rparr>) = ((fl2, w2), how2)"
    by (metis prod_cases3 prod.collapse)
  note st = run_items_stream [OF r2]
  show ?thesis
    using assms a r2 st
    by (cases got; cases "re_opens e"; cases how2) (auto simp: locked_body_def no_flags_def)
qed

context redis_laws
begin

lemma execute_releases:
  assumes "get_by_id T i (rw_db w) = Some r" "active (t_status r)" "re_user e"
    and "re_f_unlock e = Fine" "re_f_unlease e = Fine" "re_f_lease e = Fine"
    and "fst (hold_enter R (re_f_acquire e) (re_f_read e) (t_chat r) i (l_srv (rw_lease w))) = ACQUIRED"
    and "map_option fst (rd_view R (l_srv (rw_lease w)) (lease_key i)) \<noteq> Some h"
    and "execute_turn_inner R T e i h w = (fin, w')"
  shows "map_option fst (rd_view R (l_srv (rw_lease w')) (active_key (t_chat r))) \<noteq> Some (str_of_int i) \<and>
    map_option fst (rd_view R (l_srv (rw_lease w')) (lease_key i)) \<noteq> Some h"
proof -
  obtain srv where he: "hold_enter R (re_f_acquire e) (re_f_read e) (t_chat r) i (l_srv (rw_lease w)) = (ACQUIRED, srv)"
    using assms(7) by (metis prod.collapse)
  let ?w1 = "w\<lparr>rw_lease := (rw_lease w)\<lparr>l_srv := srv\<rparr>\<rparr>"
  obtain fl wa how where lb: "locked_body R T e i h ?w1 = ((fl, wa), how)" by (metis prod.collapse)
  let ?srv2 = "snd (release_active R Fine (t_chat r) i (l_srv (rw_lease wa)))"
  let ?w2 = "wa\<lparr>rw_lease := (rw_lease wa)\<lparr>l_srv := ?srv2\<rparr>\<rparr>"
  obtain fl2 w3 where hd: "handle_end e how (fl, ?w2) = (fl2, w3)" by fastforce
  have na: "\<not> terminal (t_status r)" using assms(2) by (simp add: terminal_iff_not_active)
  have ex: "cleanup R T e i h fl2 w3 = (fin, w')"
    using assms(9,1,3,4) na he lb hd by (simp add: execute_turn_inner_def attempt_def hold_exit_def)
  have l3: "rw_lease w3 = rw_lease ?w2" "fl_heartbeat fl2 = fl_heartbeat fl"
    using handle_end_lease [of e how fl ?w2] hd by simp_all
  have w': "rw_lease w' = (if fl_heartbeat fl then snd (release R Fine i h (rw_lease ?w2)) else rw_lease ?w2)"
    using cleanup_lease [of R T e i h fl2 w3] ex l3 assms(5) by simp
  note acq = locked_body_lease [OF lb]
  have v_srv: "rd_view R srv (lease_key i) = rd_view R (l_srv (rw_lease w)) (lease_key i)"
    using he by (auto simp: hold_enter_def try_acquire_active_def split_beta call_view views key_facts
        keys_apart(1) [symmetric] split: if_splits)
  have act: "map_option fst (rd_view R ?srv2 (active_key (t_chat r))) \<noteq> Some (str_of_int i)"
    by (auto simp: release_active_def split_beta call_view views)
  have les: "rd_view R ?srv2 (lease_key i) = rd_view R (l_srv (rw_lease wa)) (lease_key i)"
    by (auto simp: release_active_def split_beta call_view views key_facts)
  show ?thesis
  proof (cases "fl_heartbeat fl")
    case True
    have "map_option fst (rd_view R (snd (release_lua R (lease_key i) h ?srv2)) (active_key (t_chat r))) \<noteq> Some (str_of_int i)"
      "map_option fst (rd_view R (snd (release_lua R (lease_key i) h ?srv2)) (lease_key i)) \<noteq> Some h"
      using act by (auto simp: release_lua_view key_facts keys_apart(1) [symmetric])
    with True w' show ?thesis by (simp add: release_simps split_beta)
  next
    case False
    with acq have "\<not> fst (rd_set_nx R (lease_key i) h LEASE_TTL_S srv)"
      by (simp add: acquire_simps assms(6))
    then have "rd_view R (l_srv (rw_lease wa)) (lease_key i) = rd_view R srv (lease_key i)"
      using acq by (auto simp: acquire_simps assms(6) split_beta views replies)
    with False w' act les v_srv assms(8) show ?thesis by simp
  qed
qed

end

section \<open>The reader of the stream\<close>

lemma yield_until_quiet: "(\<forall>e \<in> set es. \<not> pb_terminal e) \<Longrightarrow> yield_until_terminal es = (es, False)"
  by (induction es) auto

lemma yield_until_last:
  "(\<forall>e \<in> set es. \<not> pb_terminal e) \<Longrightarrow> pb_terminal x \<Longrightarrow> yield_until_terminal (es @ [x]) = (es @ [x], True)"
  by (induction es) auto

lemma tail_exact_from:
  assumes "\<forall>e \<in> set es. \<not> pb_terminal e" "pb_terminal x"
    and "\<forall>(entries, over) \<in> set reads. prefix entries (es @ [x]) \<and> (over \<longrightarrow> entries = es @ [x])"
    and "c \<le> length (es @ [x])" "tail_stream c reads = (out, stop)"
  shows "prefix out (drop c (es @ [x])) \<and> (stop \<longrightarrow> out = drop c (es @ [x]))"
  using assms(3-5)
proof (induction c reads arbitrary: out stop rule: tail_stream.induct)
  case (2 c entries over reads)
  let ?full = "es @ [x]" and ?new = "take 64 (drop c entries)"
  define m where "m = min 64 (length entries - c)"
  from 2(3) have pre: "prefix entries ?full" and over: "over \<longrightarrow> entries = ?full" by auto
  obtain zs where z: "?full = entries @ zs" using pre by (auto simp: prefix_def)
  have ent: "entries = take (length entries) ?full" "length entries \<le> length ?full"
    unfolding z by simp_all
  have new: "?new = take m (drop c ?full)"
    by (subst ent(1)) (simp only: drop_take take_take m_def)
  show ?case
  proof (cases "?new = []")
    case True
    with 2 over show ?thesis by (auto split: if_splits)
  next
    case False
    then have cl: "c < length entries" by auto
    then have len: "length ?new = m" "c + m \<le> length ?full" "0 < m"
      using ent(2) by (auto simp: m_def)
    have split: "drop c ?full = ?new @ drop (c + m) ?full"
      unfolding new by (metis append_take_drop_id drop_drop add.commute)
    have ces: "c \<le> length es" using cl ent(2) by simp
    then have full_c: "drop c ?full = drop c es @ [x]" by simp
    show ?thesis
    proof (cases "c + m = length ?full")
      case True
      then have n: "?new = drop c es @ [x]" using split full_c by simp
      have "\<forall>e \<in> set (drop c es). \<not> pb_terminal e" using assms(1) by (meson in_set_dropD)
      then have "yield_until_terminal ?new = (?new, True)"
        unfolding n using assms(2) by (rule yield_until_last)
      with 2(5) False n full_c show ?thesis by simp
    next
      case notall: False
      then have "m \<le> length (drop c es)" using len(2) by simp
      then have nw: "?new = take m (drop c es)" unfolding new full_c by simp
      have "\<forall>e \<in> set ?new. \<not> pb_terminal e"
        unfolding nw using assms(1) by (blast dest: in_set_takeD in_set_dropD)
      then have y: "yield_until_terminal ?new = (?new, False)" by (rule yield_until_quiet)
      obtain out' stop' where t: "tail_stream (c + length ?new) reads = (out', stop')" by fastforce
      have "c + length ?new \<le> length ?full" using len by simp
      moreover have "\<forall>(entries, over) \<in> set reads. prefix entries ?full \<and> (over \<longrightarrow> entries = ?full)"
        using 2(3) by simp
      ultimately have "prefix out' (drop (c + length ?new) ?full) \<and> (stop' \<longrightarrow> out' = drop (c + length ?new) ?full)"
        by (intro 2(2) [OF refl False y [symmetric] refl _ _ _ t]) simp_all
      moreover have "out = ?new @ out'" "stop = stop'" using 2(5) False y t by simp_all
      ultimately show ?thesis unfolding split by (auto simp only: len(1) same_prefix_prefix same_append_eq)
    qed
  qed
qed auto

section \<open>Properties\<close>


definition demo_env :: run_env where
  "demo_env = \<lparr>re_user = True, re_f_acquire = Fine, re_f_read = Fine, re_f_lease = Fine, re_f_unlock = Fine,
     re_f_unlease = Fine, re_opens = True,
     re_items = [\<lparr>it_event = PbToken ''hi'', it_lost = False, it_published = True, it_updated = True\<rparr>,
       \<lparr>it_event = PbDone 7 ''hi'' None, it_lost = False, it_published = True, it_updated = True\<rparr>],
     re_end = BodyReturns, re_crash_text = [], re_pub_crash = True, re_pub_safety = True, re_finalize = True, re_now = 50\<rparr>"

lemma hold_enter_free:
  "re_f_acquire e = Fine \<Longrightarrow> fst (hold_enter mem_redis (re_f_acquire e) g chat i Map.empty) = ACQUIRED"
  by (simp add: hold_enter_def try_acquire_active_def mem_redis_def)

definition demo_world :: "(mem, turn_row rows) world" where
  "demo_world = \<lparr>rw_lease = \<lparr>l_srv = Map.empty, l_active = []\<rparr>, rw_db = demo_db, rw_pub = [], rw_stream = [],
     rw_released = 0\<rparr>"

lemma demo_world_fields:
  "rw_db demo_world = demo_db" "rw_lease demo_world = \<lparr>l_srv = Map.empty, l_active = []\<rparr>"
  by (simp_all add: demo_world_def)

lemma demo_row_active: "active (t_status (starting_row demo_payload 0 5))"
  by (simp add: starting_row_def)

lemma demo_execute:
  "execute_turn_inner mem_redis turn_mem demo_env 5 ''w1'' demo_world =
     (fst (execute_turn_inner mem_redis turn_mem demo_env 5 ''w1'' demo_world),
      snd (execute_turn_inner mem_redis turn_mem demo_env 5 ''w1'' demo_world))"
  by simp


text \<open>
  An execution that got the chat's lock gives it back, and the lease with it, on every
  path, when the two releasing commands and the lease command reach the server.
\<close>

theorem runner_releases_locks:
  assumes "redis_laws R" "get_by_id T i (rw_db w) = Some r" "active (t_status r)" "re_user e"
    and "re_f_unlock e = Fine" "re_f_unlease e = Fine" "re_f_lease e = Fine"
    and "fst (hold_enter R (re_f_acquire e) (re_f_read e) (t_chat r) i (l_srv (rw_lease w))) = ACQUIRED"
    and "map_option fst (rd_view R (l_srv (rw_lease w)) (lease_key i)) \<noteq> Some h"
    and "execute_turn_inner R T e i h w = (fin, w')"
  shows "map_option fst (rd_view R (l_srv (rw_lease w')) (active_key (t_chat r))) \<noteq> Some (str_of_int i) \<and>
    map_option fst (rd_view R (l_srv (rw_lease w')) (lease_key i)) \<noteq> Some h"
  by (rule redis_laws.execute_releases [OF assms])

lemma runner_releases_locks_witness:
  "map_option fst (rd_view mem_redis (l_srv (rw_lease (snd (execute_turn_inner mem_redis turn_mem demo_env 5 ''w1'' demo_world))))
     (lease_key 5)) \<noteq> Some ''w1''"
  using runner_releases_locks [OF mem.redis_laws_axioms _ demo_row_active _ _ _ _ _ _ demo_execute] demo_db_view
    hold_enter_free [of demo_env Fine "t_chat (starting_row demo_payload 0 5)" 5]
  by (simp add: demo_world_fields get_by_id_def demo_env_def mem_redis_def)

text \<open>
  The startup sweep fails exactly the active turns without a heartbeat for more than two
  minutes and changes no other row.
\<close>

theorem reconcile_exact:
  fixes w :: "('s, 'd) world"
  assumes "turn_db T ok" "ok (rw_db w)"
  shows "tb_view T (rw_db (snd (reconcile_stale_turns R T fs now w))) =
     (\<lambda>i. map_option (\<lambda>r. if stale_at now r then orphaned now r else r) (tb_view T (rw_db w) i))"
  by (rule turn_db.reconcile_view [OF assms, where R = R and fs = fs and n = "fst (reconcile_stale_turns R T fs now w)"]) simp

lemma reconcile_exact_witness:
  "tb_view turn_mem (rw_db (snd (reconcile_stale_turns mem_redis turn_mem (\<lambda>_. Fine) 500 demo_world))) 5 =
     Some (orphaned 500 (starting_row demo_payload 0 5))"
  using reconcile_exact [OF turn_mem_db.turn_db_axioms, of demo_world mem_redis "\<lambda>_. Fine" 500] demo_db_ok demo_db_view
  by (simp add: demo_world_fields stale_at_def TURN_STALE_S_def starting_row_def)

text \<open>
  A client that tails the stream of a turn from any point it has already seen gets the
  rest of the events in order, without gaps, and when the tail stops it has got all of them,
  provided a turn is over in the table only once its terminal event is in the stream.
\<close>

theorem tail_stream_exact:
  assumes "\<forall>e \<in> set es. \<not> pb_terminal e" "pb_terminal x"
    and "\<forall>(entries, over) \<in> set reads. prefix entries (es @ [x]) \<and> (over \<longrightarrow> entries = es @ [x])"
    and "c \<le> length (es @ [x])" "tail_stream c reads = (out, stop)"
  shows "prefix out (drop c (es @ [x])) \<and> (stop \<longrightarrow> out = drop c (es @ [x]))"
  by (rule tail_exact_from [OF assms])

lemma tail_stream_exact_witness:
  "tail_stream 1 [([PbToken ''a'', PbToken ''b''], False), ([PbToken ''a'', PbToken ''b''], False),
      ([PbToken ''a'', PbToken ''b'', PbDone 1 [] None], True)] = ([PbToken ''b'', PbDone 1 [] None], True)
   \<and> prefix [PbToken ''b'', PbDone 1 [] None] (drop 1 ([PbToken ''a'', PbToken ''b''] @ [PbDone 1 [] None]))"
proof -
  have t: "tail_stream 1 [([PbToken ''a'', PbToken ''b''], False), ([PbToken ''a'', PbToken ''b''], False),
      ([PbToken ''a'', PbToken ''b'', PbDone 1 [] None], True)] = ([PbToken ''b'', PbDone 1 [] None], True)"
    by (simp add: pb_terminal_def)
  show ?thesis
    using tail_stream_exact [of "[PbToken ''a'', PbToken ''b'']" "PbDone 1 [] None", OF _ _ _ _ t] t
    by (simp add: pb_terminal_def)
qed

text \<open>
  A terminal event that is published but whose row update fails is published a second
  time as an error, and the row of a turn that was done for the client is finalized FAILED.
\<close>

theorem done_then_crash_reports_twice:
  assumes "fst (acquire R (re_f_lease e) i h LEASE_TTL_S (rw_lease w))" "re_opens e"
    and "re_items e = [\<lparr>it_event = PbDone c t m, it_lost = False, it_published = True, it_updated = False\<rparr>]"
    and "re_pub_crash e" "locked_body R T e i h w = (fw, how)"
  shows "rw_stream (snd (handle_end e how fw)) = rw_stream w @
      [PbDone c t m, PbError ''codex_error'' (Some (''background crashed: '' @ re_crash_text e))]
    \<and> fl_status (fst (handle_end e how fw)) = Some FAILED"
  using assms by (auto simp: locked_body_def handle_end_def error_event_def split_beta Let_def)

lemma done_then_crash_reports_twice_witness:
  "\<exists>e fw how. locked_body mem_redis turn_mem e 5 ''w1'' demo_world = (fw, how) \<and>
     rw_stream (snd (handle_end e how fw)) = [PbDone 7 ''hi'' None, PbError ''codex_error'' (Some ''background crashed: '')]"
proof -
  let ?e = "demo_env\<lparr>re_items := [\<lparr>it_event = PbDone 7 ''hi'' None, it_lost = False, it_published = True, it_updated = False\<rparr>]\<rparr>"
  obtain fw how where lb: "locked_body mem_redis turn_mem ?e 5 ''w1'' demo_world = (fw, how)" by fastforce
  have "rw_stream (snd (handle_end ?e how fw)) = [PbDone 7 ''hi'' None, PbError ''codex_error'' (Some ''background crashed: '')]"
    using done_then_crash_reports_twice [OF _ _ _ _ lb, of 7 "''hi''" None]
    by (simp add: demo_world_def demo_env_def acquire_def mem_redis_def)
  with lb show ?thesis by blast
qed

text \<open>The reconnect delay of the listener stays between one second and half a minute.\<close>

lemma backoff_bounded: "1 \<le> b \<Longrightarrow> b \<le> 30 \<Longrightarrow> 1 \<le> next_backoff c b \<and> next_backoff c b \<le> 30"
  by (simp add: next_backoff_def)

end
