(* ===== verification/Tg_Markdown.thy ===== *)
theory Tg_Markdown
  imports Codex_Session
begin

text \<open>
  The Telegram output format (\<open>tg/markdown.py\<close>): the rules that turn Markdown tokens into
  Telegram's HTML subset, the flat text for speech, and the splitting of a rendered text into
  messages. Parsing Markdown is the work of markdown-it; its tokens are the input here. The
  two glyphs outside the Latin alphabet, the list bullet and the rule line, are arguments.
\<close>

section \<open>Tokens and escaping\<close>

datatype md_token = Tok
  (tk_type: string) (tk_content: string) (tk_info: string) (tk_href: "string option")
  (tk_start: "int option") (tk_children: "md_token list")

text \<open>\<open>html.escape(text, quote)\<close>\<close>

definition escape_char :: "bool \<Rightarrow> char \<Rightarrow> string" where
  "escape_char quote c =
     (if c = CHR ''&'' then ''&amp;''
      else if c = CHR ''<'' then ''&lt;''
      else if c = CHR ''>'' then ''&gt;''
      else if quote \<and> c = CHR 0x22 then ''&quot;''
      else if quote \<and> c = CHR 0x27 then ''&#x27;''
      else [c])"

definition html_escape :: "bool \<Rightarrow> string \<Rightarrow> string" where
  "html_escape quote s = concat (map (escape_char quote) s)"

definition tg_escape :: "string \<Rightarrow> string" where
  "tg_escape s = html_escape False s"

section \<open>The renderer\<close>

text \<open>
  The environment the rules share: the stack of open lists (ordered or not, with the number of
  the next item), the depth of block quotes (absent before the first one) and the number of
  links whose closing tag is to be left out.
\<close>

record md_env =
  me_lists :: "(bool \<times> int) list"
  me_bq :: "int option"
  me_skip :: int

definition empty_env :: md_env where
  "empty_env = \<lparr>me_lists = [], me_bq = None, me_skip = 0\<rparr>"

definition allowed_schemes :: "string list" where
  "allowed_schemes = [''http'', ''https'', ''tg'', ''mailto'']"

definition static_tag :: "string \<Rightarrow> string \<Rightarrow> string option" where
  "static_tag hr ty = map_of
     [(''strong_open'', ''<b>''), (''strong_close'', ''</b>''),
      (''em_open'', ''<i>''), (''em_close'', ''</i>''),
      (''s_open'', ''<s>''), (''s_close'', ''</s>''),
      (''heading_open'', ''<b>''), (''heading_close'', ''</b>'' @ NL @ NL),
      (''softbreak'', NL), (''hardbreak'', NL),
      (''hr'', concat (replicate 12 hr) @ NL @ NL)] ty"

text \<open>The first word of a fence's info string.\<close>

definition first_word :: "string \<Rightarrow> string option" where
  "first_word s = (let t = py_strip s in if t = [] then None else Some (takeWhile (\<lambda>c. \<not> is_space c) t))"

definition rstrip_nl :: "string \<Rightarrow> string" where
  "rstrip_nl s = rstrip_by (\<lambda>c. c = CHR 0x0A) s"

definition fence :: "md_token \<Rightarrow> string" where
  "fence t =
     (let klass = (case first_word (tk_info t) of
          None \<Rightarrow> []
        | Some lang \<Rightarrow> '' class='' @ [CHR 0x22] @ ''language-'' @ html_escape True lang @ [CHR 0x22])
      in ''<pre><code'' @ klass @ ''>'' @ html_escape True (rstrip_nl (tk_content t)) @ ''</code></pre>'' @ NL @ NL)"

definition code_block :: "md_token \<Rightarrow> string" where
  "code_block t = ''<pre><code>'' @ html_escape True (rstrip_nl (tk_content t)) @ ''</code></pre>'' @ NL @ NL"

definition list_open :: "bool \<Rightarrow> int \<Rightarrow> md_env \<Rightarrow> (string \<times> md_env) option" where
  "list_open ordered n e = Some ([], e\<lparr>me_lists := (ordered, n) # me_lists e\<rparr>)"

definition list_close :: "md_env \<Rightarrow> (string \<times> md_env) option" where
  "list_close e =
     (case me_lists e of
        [] \<Rightarrow> None
      | _ # rest \<Rightarrow> Some (if rest = [] then NL else [], e\<lparr>me_lists := rest\<rparr>))"

definition list_item_open :: "string \<Rightarrow> md_env \<Rightarrow> (string \<times> md_env) option" where
  "list_item_open bullet e =
     (case me_lists e of
        [] \<Rightarrow> None
      | (ordered, num) # rest \<Rightarrow>
          let indent = concat (replicate (length rest) ''  '') in
          if ordered
          then Some (indent @ str_of_int num @ ''. '', e\<lparr>me_lists := (True, num + 1) # rest\<rparr>)
          else Some (indent @ bullet @ '' '', e))"

definition link_open :: "md_token \<Rightarrow> md_env \<Rightarrow> string \<times> md_env" where
  "link_open t e =
     (let href = (case tk_href t of None \<Rightarrow> [] | Some h \<Rightarrow> h) in
      if url_scheme href \<notin> set allowed_schemes then ([], e\<lparr>me_skip := me_skip e + 1\<rparr>)
      else (''<a href='' @ [CHR 0x22] @ html_escape True href @ [CHR 0x22] @ ''>'', e))"

definition link_close :: "md_env \<Rightarrow> string \<times> md_env" where
  "link_close e = (if me_skip e \<noteq> 0 then ([], e\<lparr>me_skip := me_skip e - 1\<rparr>) else (''</a>'', e))"

definition blockquote_close :: "md_env \<Rightarrow> (string \<times> md_env) option" where
  "blockquote_close e = map_option (\<lambda>d. (''</blockquote>'' @ NL @ NL, e\<lparr>me_bq := Some (d - 1)\<rparr>)) (me_bq e)"

definition paragraph_close :: "md_env \<Rightarrow> string" where
  "paragraph_close e = (if me_lists e \<noteq> [] \<or> me_bq e \<notin> {None, Some 0} then NL else NL @ NL)"

text \<open>
  The rule of a token: a fixed tag, a method of the renderer, or nothing for an unknown type.
  \<open>None\<close> is the exception of a closing token whose opening token never came.
\<close>

definition render_rule :: "string \<Rightarrow> string \<Rightarrow> md_token \<Rightarrow> md_env \<Rightarrow> (string \<times> md_env) option" where
  "render_rule bullet hr t e =
     (case static_tag hr (tk_type t) of
        Some tag \<Rightarrow> Some (tag, e)
      | None \<Rightarrow>
          if tk_type t = ''text'' then Some (html_escape True (tk_content t), e)
          else if tk_type t = ''paragraph_close'' then Some (paragraph_close e, e)
          else if tk_type t = ''blockquote_open'' then
            Some (''<blockquote>'', e\<lparr>me_bq := Some ((case me_bq e of None \<Rightarrow> 0 | Some d \<Rightarrow> d) + 1)\<rparr>)
          else if tk_type t = ''blockquote_close'' then blockquote_close e
          else if tk_type t = ''bullet_list_open'' then list_open False 0 e
          else if tk_type t = ''bullet_list_close'' then list_close e
          else if tk_type t = ''ordered_list_open'' then
            list_open True (case tk_start t of None \<Rightarrow> 1 | Some n \<Rightarrow> if n = 0 then 1 else n) e
          else if tk_type t = ''ordered_list_close'' then list_close e
          else if tk_type t = ''list_item_open'' then list_item_open bullet e
          else if tk_type t = ''fence'' then Some (fence t, e)
          else if tk_type t = ''code_block'' then Some (code_block t, e)
          else if tk_type t = ''code_inline'' then
            Some (''<code>'' @ html_escape True (tk_content t) @ ''</code>'', e)
          else if tk_type t = ''link_open'' then Some (link_open t e)
          else if tk_type t = ''link_close'' then Some (link_close e)
          else if tk_type t = ''image'' then Some (html_escape True (tk_content t), e)
          else Some ([], e))"

text \<open>
  markdown-it walks the token tree and calls a rule per token; \<open>toks\<close> are the tokens in the
  order of those calls, the results are joined.
\<close>

fun render_toks :: "string \<Rightarrow> string \<Rightarrow> md_token list \<Rightarrow> md_env \<Rightarrow> string option" where
  "render_toks bullet hr [] e = Some []"
| "render_toks bullet hr (t # ts) e =
     (case render_rule bullet hr t e of
        None \<Rightarrow> None
      | Some (s, e') \<Rightarrow> map_option ((@) s) (render_toks bullet hr ts e'))"

section \<open>Flat text for speech\<close>

definition inline_plain :: "md_token list \<Rightarrow> string" where
  "inline_plain ts = concat (map (\<lambda>t.
     if tk_type t \<in> {''text'', ''code_inline''} then tk_content t
     else if tk_type t = ''softbreak'' then '' ''
     else if tk_type t = ''hardbreak'' then NL
     else if tk_type t = ''image'' then tk_content t
     else []) ts)"

definition plain_block_breaks :: "string list" where
  "plain_block_breaks = [''paragraph_close'', ''heading_close'', ''blockquote_close'', ''hr'']"

definition render_plain :: "md_token list \<Rightarrow> string" where
  "render_plain ts = concat (map (\<lambda>t.
     if tk_type t = ''inline'' then inline_plain (tk_children t)
     else if tk_type t \<in> {''fence'', ''code_block''} then rstrip_nl (tk_content t) @ NL
     else if tk_type t \<in> set plain_block_breaks then NL
     else []) ts)"

definition to_plain :: "(string \<Rightarrow> md_token list) \<Rightarrow> string \<Rightarrow> string" where
  "to_plain parse s = (if py_strip s = [] then [] else py_strip (render_plain (parse s)))"

section \<open>Splitting into messages\<close>

definition TG_MESSAGE_LIMIT :: nat where
  "TG_MESSAGE_LIMIT = 4096"

text \<open>\<open>t.find(sub, pos)\<close>; \<open>None\<close> is \<open>-1\<close>.\<close>

function find_from :: "string \<Rightarrow> string \<Rightarrow> nat \<Rightarrow> nat option" where
  "find_from sub t pos =
     (if length t < pos then None
      else if prefix sub (drop pos t) then Some pos
      else find_from sub t (Suc pos))"
  by pat_completeness auto
termination by (relation "measure (\<lambda>(sub, t, pos). Suc (length t) - pos)") auto

declare find_from.simps [simp del]

text \<open>\<open>t.rfind(sub, 0, end)\<close>\<close>

fun last_at :: "string \<Rightarrow> string \<Rightarrow> nat \<Rightarrow> nat option" where
  "last_at sub t 0 = (if prefix sub t then Some 0 else None)"
| "last_at sub t (Suc i) = (if prefix sub (drop (Suc i) t) then Some (Suc i) else last_at sub t i)"

definition rfind :: "string \<Rightarrow> string \<Rightarrow> nat \<Rightarrow> nat option" where
  "rfind sub t e = last_at sub (take e t) (length (take e t))"

text \<open>\<open>text.count(sub)\<close> for a sub of three characters: occurrences that do not overlap.\<close>

function count_sub :: "string \<Rightarrow> string \<Rightarrow> nat" where
  "count_sub sub t =
     (if sub = [] \<or> t = [] then 0
      else if prefix sub t then Suc (count_sub sub (drop (length sub) t))
      else count_sub sub (tl t))"
  by pat_completeness auto
termination by (relation "measure (\<lambda>(sub, t). length t)") (auto simp: neq_Nil_conv)

declare count_sub.simps [simp del]

definition has_unclosed_fence :: "string \<Rightarrow> bool" where
  "has_unclosed_fence s \<longleftrightarrow> count_sub ''```'' s mod 2 = 1"

lemma find_fromD:
  assumes "find_from sub t pos = Some i"
  shows "pos \<le> i \<and> prefix sub (drop i t) \<and> i + length sub \<le> length t"
  using assms
proof (induction sub t pos rule: find_from.induct)
  case (1 sub t pos)
  show ?case
  proof (cases "length t < pos \<or> \<not> prefix sub (drop pos t)")
    case True
    with 1 show ?thesis by (auto simp: find_from.simps [of sub t pos] split: if_splits)
  next
    case False
    then have "length sub \<le> length (drop pos t)" by (intro prefix_length_le) simp
    with 1(2) False show ?thesis by (auto simp: find_from.simps [of sub t pos])
  qed
qed

definition PRE_OPEN :: string where
  "PRE_OPEN = ''<pre>''"

definition PRE_CLOSE :: string where
  "PRE_CLOSE = ''</pre>''"

text \<open>The ranges of the preformatted blocks, an unclosed one reaching to the end of the text.\<close>

function pre_ranges_from :: "string \<Rightarrow> nat \<Rightarrow> (nat \<times> nat) list" where
  "pre_ranges_from t pos =
     (case find_from PRE_OPEN t pos of
        None \<Rightarrow> []
      | Some start \<Rightarrow>
          (case find_from PRE_CLOSE t start of
             None \<Rightarrow> [(start, length t)]
           | Some e \<Rightarrow> (start, e + length PRE_CLOSE) # pre_ranges_from t (e + length PRE_CLOSE)))"
  by pat_completeness auto
termination
  by (relation "measure (\<lambda>(t, pos). Suc (length t) - pos)")
     (auto dest!: find_fromD simp: PRE_OPEN_def PRE_CLOSE_def)

declare pre_ranges_from.simps [simp del]

definition pre_ranges :: "string \<Rightarrow> (nat \<times> nat) list" where
  "pre_ranges t = pre_ranges_from t 0"

definition inside :: "(nat \<times> nat) list \<Rightarrow> nat \<Rightarrow> bool" where
  "inside rs i \<longleftrightarrow> list_ex (\<lambda>(start, e). start < i \<and> i < e) rs"

lemma last_atD: "last_at sub t n = Some i \<Longrightarrow> i \<le> n \<and> prefix sub (drop i t)"
  by (induction n) (auto split: if_splits)

lemma rfindD: "rfind sub t e = Some i \<Longrightarrow> i + length sub \<le> e \<and> i + length sub \<le> length t \<and> prefix sub (drop i t)"
proof -
  assume "rfind sub t e = Some i"
  then have *: "i \<le> length (take e t)" "prefix sub (drop i (take e t))"
    unfolding rfind_def by (auto dest: last_atD)
  then have "length sub \<le> length (drop i (take e t))" by (intro prefix_length_le)
  moreover have "prefix sub (drop i t)"
    using *(2) by (metis drop_take take_is_prefix prefix_order.trans)
  ultimately show ?thesis using *(1) by auto
qed

text \<open>Step back over the occurrences that lie inside a preformatted block.\<close>

function back_off :: "(nat \<times> nat) list \<Rightarrow> string \<Rightarrow> string \<Rightarrow> nat option \<Rightarrow> nat option" where
  "back_off rs sep t None = None"
| "back_off rs sep t (Some i) =
     (if 0 < i \<and> inside rs i \<and> sep \<noteq> [] then back_off rs sep t (rfind sep t i) else Some i)"
  by pat_completeness auto
termination
  by (relation "measure (\<lambda>(rs, sep, t, i). case i of None \<Rightarrow> 0 | Some i \<Rightarrow> Suc i)")
     (auto split: option.split dest!: rfindD, metis add_diff_cancel_left' add_leD1 diff_is_0_eq'
        le_neq_implies_less length_0_conv order.trans le_add1)

text \<open>The first separator, of those given with their thresholds, with a cut outside the blocks.\<close>

fun sep_cut :: "(nat \<times> nat) list \<Rightarrow> string \<Rightarrow> nat \<Rightarrow> (string \<times> nat) list \<Rightarrow> nat option" where
  "sep_cut rs t limit [] = None"
| "sep_cut rs t limit ((sep, threshold) # seps) =
     (case back_off rs sep t (rfind sep t limit) of
        Some i \<Rightarrow> if threshold < i then Some (i + length sep) else sep_cut rs t limit seps
      | None \<Rightarrow> sep_cut rs t limit seps)"

definition CODE_CLOSE :: string where
  "CODE_CLOSE = ''</code></pre>''"

definition CODE_OPEN :: string where
  "CODE_OPEN = ''<pre><code>''"

text \<open>
  \<open>_safe_cut\<close>, for a limit of at least the thirteen characters of the closing tags, so that
  the subtraction stays above zero as it does at Telegram's limit.
\<close>

definition safe_cut :: "string \<Rightarrow> nat \<Rightarrow> nat \<times> bool" where
  "safe_cut t limit =
     (let rs = pre_ranges (take (limit + length PRE_CLOSE) t) in
      case sep_cut rs t limit [(NL @ NL, limit div 2), (NL, limit div 2), ('' '', 0)] of
        Some k \<Rightarrow> (k, False)
      | None \<Rightarrow>
          let safe_limit = limit - length CODE_CLOSE in
          (case rfind NL t safe_limit of
             Some nl \<Rightarrow> if 0 < nl then (nl + 1, True) else (safe_limit, True)
           | None \<Rightarrow> (safe_limit, True)))"

abbreviation py_lstrip :: "string \<Rightarrow> string" where
  "py_lstrip s \<equiv> lstrip_by is_space s"

abbreviation py_rstrip :: "string \<Rightarrow> string" where
  "py_rstrip s \<equiv> rstrip_by is_space s"

text \<open>The loop of \<open>_split_chunks\<close>; \<open>None\<close> is a loop that does not end.\<close>

partial_function (option) split_chunks :: "nat \<Rightarrow> string \<Rightarrow> string list option" where
  "split_chunks limit rest =
     (if length rest \<le> limit then Some (if rest = [] then [] else [rest])
      else
        let (k, force) = safe_cut rest limit; head = py_rstrip (take k rest); more = py_lstrip (drop k rest) in
        Option.bind (split_chunks limit (if force then CODE_OPEN @ more else more))
          (\<lambda>cs. Some ((if force then head @ CODE_CLOSE else head) # cs)))"

definition render_html :: "string \<Rightarrow> string \<Rightarrow> (string \<Rightarrow> md_token list) \<Rightarrow> string \<Rightarrow> string list option" where
  "render_html bullet hr calls s =
     (if py_strip s = [] then Some []
      else Option.bind (render_toks bullet hr (calls s) empty_env)
        (\<lambda>r. split_chunks TG_MESSAGE_LIMIT (py_strip r)))"

section \<open>Where a cut falls\<close>

lemma back_offD:
  assumes "back_off rs sep t oi = Some i" "\<And>j. oi = Some j \<Longrightarrow> prefix sep (drop j t) \<and> j + length sep \<le> e"
  shows "prefix sep (drop i t) \<and> i + length sep \<le> e"
  using assms
proof (induction rs sep t oi rule: back_off.induct)
  case (2 rs sep t j)
  show ?case
  proof (cases "0 < j \<and> inside rs j \<and> sep \<noteq> []")
    case True
    from 2(3) have j: "j + length sep \<le> e" by simp
    have "prefix sep (drop l t) \<and> l + length sep \<le> e" if "rfind sep t j = Some l" for l
      using rfindD [OF that] j by simp
    moreover have "back_off rs sep t (rfind sep t j) = Some i" using 2(2) True by simp
    ultimately show ?thesis by (rule 2(1) [OF True, rotated])
  next
    case False
    with 2(2,3) show ?thesis by auto
  qed
qed simp

lemma sep_cutD:
  "sep_cut rs t limit seps = Some k \<Longrightarrow>
     \<exists>sep i. sep \<in> fst ` set seps \<and> 0 < i \<and> prefix sep (drop i t) \<and> k = i + length sep \<and> k \<le> limit"
proof (induction rs t limit seps rule: sep_cut.induct)
  case (2 rs t limit sep threshold seps)
  show ?case
  proof (cases "\<exists>i. back_off rs sep t (rfind sep t limit) = Some i \<and> threshold < i")
    case True
    then obtain i where i: "back_off rs sep t (rfind sep t limit) = Some i" "threshold < i" by blast
    have "prefix sep (drop i t) \<and> i + length sep \<le> limit"
      by (rule back_offD [OF i(1)]) (auto dest: rfindD)
    with 2(3) i show ?thesis by auto
  next
    case False
    with 2(3) have "sep_cut rs t limit seps = Some k" by (auto split: option.splits if_splits)
    then show ?thesis using 2(1,2) False by (cases "back_off rs sep t (rfind sep t limit)") auto
  qed
qed simp

definition blank_at :: "string \<Rightarrow> nat \<Rightarrow> bool" where
  "blank_at t i \<longleftrightarrow> i < length t \<and> (t ! i = CHR 0x0A \<or> t ! i = CHR '' '')"

lemma prefix_drop_nth: "prefix (c # cs) (drop i t) \<Longrightarrow> i < length t \<and> t ! i = c"
  by (cases "drop i t") (auto, metis drop_all leI list.distinct(1), metis nth_via_drop)

lemma safe_cut_cases:
  assumes "25 \<le> limit" "safe_cut t limit = (k, force)"
  obtains (plain) i where "\<not> force" "blank_at t i" "0 < i" "i < k" "k \<le> limit"
    | (forced) "force" "k \<le> limit - 13" "12 \<le> k \<or> (\<exists>i>0. blank_at t i \<and> k = i + 1)"
proof -
  let ?rs = "pre_ranges (take (limit + length PRE_CLOSE) t)"
  let ?seps = "[(NL @ NL, limit div 2), (NL, limit div 2), ('' '', 0)]"
  show thesis
  proof (cases "sep_cut ?rs t limit ?seps")
    case (Some m)
    then obtain sep i where s: "sep \<in> fst ` set ?seps" "0 < i" "prefix sep (drop i t)" "m = i + length sep" "m \<le> limit"
      by (blast dest: sep_cutD)
    moreover from s(1,3) have "blank_at t i" "sep \<noteq> []"
      by (auto simp: blank_at_def NL_def dest: prefix_drop_nth)
    moreover from Some assms(2) have "\<not> force" "k = m" by (auto simp: safe_cut_def Let_def)
    ultimately show thesis using plain [of i] by auto
  next
    case None
    let ?r = "rfind NL t (limit - length CODE_CLOSE)"
    from None assms(2) have f: "force" and k: "k = (case ?r of Some nl \<Rightarrow> if 0 < nl then nl + 1 else limit - 13 | None \<Rightarrow> limit - 13)"
      by (auto simp: safe_cut_def Let_def CODE_CLOSE_def split: option.splits if_splits)
    show thesis
    proof (cases "\<exists>nl. ?r = Some nl \<and> 0 < nl")
      case True
      then obtain nl where nl: "?r = Some nl" "0 < nl" by blast
      from rfindD [OF nl(1)] have "nl + 1 \<le> limit - 13" "blank_at t nl"
        by (auto simp: NL_def CODE_CLOSE_def blank_at_def dest: prefix_drop_nth)
      with f k nl show thesis by (intro forced) auto
    next
      case False
      then have "k = limit - 13" using k by (auto split: option.splits)
      with f assms(1) show thesis by (intro forced) auto
    qed
  qed
qed

text \<open>No blank among the opening tags, so a cut of a text that starts with them leaves them behind.\<close>

lemma blank_after_open: "prefix CODE_OPEN t \<Longrightarrow> blank_at t i \<Longrightarrow> 11 \<le> i"
proof (rule ccontr)
  assume p: "prefix CODE_OPEN t" and b: "blank_at t i" and "\<not> 11 \<le> i"
  then have "i < 11" by simp
  then have i: "i < length CODE_OPEN" by (simp add: CODE_OPEN_def)
  from p obtain u where "t = CODE_OPEN @ u" by (auto simp: prefix_def)
  then have "t ! i = CODE_OPEN ! i" using i by (simp add: nth_append)
  then have "t ! i \<in> set CODE_OPEN" using i by simp
  with b show False by (auto simp: blank_at_def CODE_OPEN_def)
qed

lemma safe_cut_bounds:
  assumes "25 \<le> limit" "safe_cut t limit = (k, force)"
  shows "2 \<le> k" "k + (if force then 13 else 0) \<le> limit" "prefix CODE_OPEN t \<longrightarrow> 12 \<le> k"
proof -
  from assms have "2 \<le> k \<and> k + (if force then 13 else 0) \<le> limit \<and> (prefix CODE_OPEN t \<longrightarrow> 12 \<le> k)"
  proof (cases rule: safe_cut_cases)
    case (plain i)
    then show ?thesis using blank_after_open [of t i] by auto
  next
    case forced
    then show ?thesis using assms(1) blank_after_open [of t "k - 1"] by auto
  qed
  then show "2 \<le> k" "k + (if force then 13 else 0) \<le> limit" "prefix CODE_OPEN t \<longrightarrow> 12 \<le> k" by auto
qed

section \<open>The loop ends, and keeps the text\<close>

definition split_measure :: "string \<Rightarrow> nat" where
  "split_measure t = length t + (if prefix CODE_OPEN t then 0 else 11)"

lemma lstrip_length: "length (py_lstrip t) \<le> length t"
  by (simp add: lstrip_by_def length_dropWhile_le)

lemma rstrip_length: "length (py_rstrip t) \<le> length t"
  by (simp add: rstrip_by_def) (metis length_dropWhile_le length_rev)

lemma split_measure_less:
  assumes "25 \<le> limit" "limit < length t" "safe_cut t limit = (k, force)"
  shows "split_measure (if force then CODE_OPEN @ py_lstrip (drop k t) else py_lstrip (drop k t)) < split_measure t"
proof -
  note b = safe_cut_bounds [OF assms(1,3)]
  have l: "length (py_lstrip (drop k t)) \<le> length t - k" using lstrip_length [of "drop k t"] by simp
  have "k \<le> limit" using b(2) by simp
  with assms(2) have "k \<le> length t" by simp
  then show ?thesis using l b assms(2) by (auto simp: split_measure_def CODE_OPEN_def)
qed

abbreviation ink :: "string \<Rightarrow> string" where
  "ink t \<equiv> filter (\<lambda>c. \<not> is_space c) t"

lemma ink_lstrip [simp]: "ink (py_lstrip t) = ink t"
  unfolding lstrip_by_def by (induction t) auto

lemma ink_rstrip [simp]: "ink (py_rstrip t) = ink t"
proof -
  have "ink (py_rstrip t) = rev (ink (dropWhile is_space (rev t)))" by (simp add: rstrip_by_def rev_filter)
  also have "\<dots> = rev (ink (rev t))" using ink_lstrip [of "rev t"] by (simp add: lstrip_by_def)
  finally show ?thesis by (simp add: rev_filter)
qed

lemma rstrip_append:
  assumes "x = [] \<or> \<not> is_space (last x)"
  shows "py_rstrip (x @ y) = x @ py_rstrip y"
proof (cases "\<forall>c \<in> set y. is_space c")
  case True
  have "dropWhile is_space (rev x) = rev x" using assms by (cases x rule: rev_cases) auto
  with True show ?thesis by (simp add: rstrip_by_def dropWhile_append dropWhile_eq_Nil_conv)
next
  case False
  then show ?thesis by (auto simp: rstrip_by_def dropWhile_append)
qed

text \<open>
  A message is a part of the text, up to white space at its ends, between the tags that close
  and reopen a block.
\<close>

definition framed :: "string \<Rightarrow> string \<Rightarrow> bool" where
  "framed c p \<longleftrightarrow> c \<in> {p, p @ CODE_CLOSE, CODE_OPEN @ p, CODE_OPEN @ p @ CODE_CLOSE}"

definition starts_inked :: "string \<Rightarrow> bool" where
  "starts_inked t \<longleftrightarrow> t = [] \<or> \<not> is_space (hd t)"

lemma starts_inked_lstrip [simp]: "starts_inked (py_lstrip t)"
  using hd_dropWhile [of is_space t] by (auto simp: starts_inked_def lstrip_by_def)

lemma starts_inked_open [simp]: "starts_inked (CODE_OPEN @ t)"
  by (simp add: starts_inked_def CODE_OPEN_def is_space_def)

lemma inked_head:
  assumes "starts_inked t" "t \<noteq> []" "0 < k"
  shows "py_rstrip (take k t) \<noteq> []"
proof -
  obtain c u where "t = c # u" "\<not> is_space c" using assms(1,2) by (cases t) (auto simp: starts_inked_def)
  then have "take k t = [c] @ take (k - 1) u" "\<not> is_space (last [c])" using assms(3) by (simp_all add: take_Cons')
  then show ?thesis using rstrip_append [of "[c]" "take (k - 1) u"] by simp
qed

lemma split_framed:
  assumes "25 \<le> limit" "pre = [] \<or> pre = CODE_OPEN" "starts_inked (pre @ body)"
  shows "\<exists>cs parts. split_chunks limit (pre @ body) = Some cs \<and> list_all2 framed cs parts
    \<and> ink (concat parts) = ink body \<and> (\<forall>c \<in> set cs. length c \<le> limit \<and> c \<noteq> [])"
  using assms(2,3)
proof (induction "pre @ body" arbitrary: pre body rule: measure_induct_rule [where f = split_measure])
  case less
  let ?t = "pre @ body"
  show ?case
  proof (cases "length ?t \<le> limit")
    case True
    then have "split_chunks limit ?t = Some (if ?t = [] then [] else [?t])" by (simp add: split_chunks.simps)
    then show ?thesis using True less(2)
      by (intro exI [of _ "if ?t = [] then [] else [?t]"] exI [of _ "if ?t = [] then [] else [body]"])
        (auto simp: framed_def)
  next
    case False
    obtain k force where sc: "safe_cut ?t limit = (k, force)" by fastforce
    note b = safe_cut_bounds [OF assms(1) sc]
    let ?x = "take (k - length pre) body" and ?y = "drop (k - length pre) body"
    let ?pre = "if force then CODE_OPEN else []" and ?more = "py_lstrip ?y"
    have pk: "length pre \<le> k" using less(2) b(1,3) by (auto simp: CODE_OPEN_def prefix_def)
    then have cut: "take k ?t = pre @ ?x" "drop k ?t = ?y" by simp_all
    have last: "pre = [] \<or> \<not> is_space (last pre)" using less(2) by (auto simp: CODE_OPEN_def is_space_def)
    have head: "py_rstrip (take k ?t) = pre @ py_rstrip ?x" unfolding cut(1) by (rule rstrip_append [OF last])
    have "split_measure (?pre @ ?more) < split_measure ?t"
      using split_measure_less [OF assms(1) _ sc] False cut(2) by (cases force) simp_all
    then obtain cs parts where IH: "split_chunks limit (?pre @ ?more) = Some cs" "list_all2 framed cs parts"
      "ink (concat parts) = ink ?more" "\<forall>c \<in> set cs. length c \<le> limit \<and> c \<noteq> []"
      using less(1) [of ?pre ?more] by (cases force) auto
    let ?c = "pre @ py_rstrip ?x @ (if force then CODE_CLOSE else [])"
    have s: "split_chunks limit ?t = Some (?c # cs)"
      unfolding split_chunks.simps [of limit ?t] sc using False IH(1) head cut(2)
      by (cases force) (simp_all add: Let_def)
    have "length (py_rstrip (take k ?t)) \<le> k" using rstrip_length [of "take k ?t"] by simp
    then have len: "length ?c \<le> limit" using b(2) head by (cases force) (simp_all add: CODE_CLOSE_def)
    have "py_rstrip (take k ?t) \<noteq> []"
      by (rule inked_head [OF less(3)]) (use False b(1) in auto)
    then have ne: "?c \<noteq> []" unfolding head by auto
    have fr: "framed ?c (py_rstrip ?x)" using less(2) by (auto simp: framed_def)
    have inks: "ink (concat (py_rstrip ?x # parts)) = ink body"
      using IH(3) filter_append [of "\<lambda>c. \<not> is_space c" ?x ?y] by simp
    have fin: "\<forall>c \<in> set (?c # cs). length c \<le> limit \<and> c \<noteq> []" using len ne IH(4) by simp
    have "list_all2 framed (?c # cs) (py_rstrip ?x # parts)" using fr IH(2) by simp
    with s inks fin show ?thesis by blast
  qed
qed



text \<open>
  A word longer than a message is cut as if it stood in a preformatted block: the first
  message ends in closing tags that were never opened, which Telegram refuses to parse.
\<close>

theorem long_word_unbalanced:
  assumes "25 \<le> limit" "limit < n"
  shows "\<exists>cs. split_chunks limit (replicate n CHR ''x'') =
     Some ((replicate (limit - 13) CHR ''x'' @ ''</code></pre>'') # cs)"
proof -
  let ?t = "replicate n CHR ''x''"
  obtain k force where sc: "safe_cut ?t limit = (k, force)" by fastforce
  have no: "\<not> blank_at ?t i" for i by (simp add: blank_at_def)
  from assms(1) sc have "force \<and> k = limit - 13"
  proof (cases rule: safe_cut_cases)
    case forced
    have "rfind NL ?t e = None" for e
      using no rfindD [of NL ?t e] by (cases "rfind NL ?t e") (auto simp: NL_def blank_at_def simp del: drop_replicate dest!: prefix_drop_nth)
    with sc forced(1) show ?thesis by (auto simp: safe_cut_def Let_def CODE_CLOSE_def split: option.splits)
  qed (use no in auto)
  moreover obtain cs where "split_chunks limit (CODE_OPEN @ py_lstrip (drop (limit - 13) ?t)) = Some cs"
    using split_framed [OF assms(1), of CODE_OPEN "py_lstrip (drop (limit - 13) ?t)"] by auto
  moreover have "py_rstrip (take (limit - 13) ?t) = replicate (limit - 13) CHR ''x''"
    using rstrip_append [of "replicate (limit - 13) CHR ''x''" "[]"] assms
    by (simp add: is_space_def rstrip_by_def min_def)
  ultimately show ?thesis using assms(2) sc
    by (auto simp: split_chunks.simps [of limit ?t] Let_def CODE_CLOSE_def)
qed

lemma long_word_unbalanced_witness:
  "\<exists>cs. split_chunks TG_MESSAGE_LIMIT (replicate 5000 CHR ''x'') =
     Some ((replicate 4083 CHR ''x'' @ ''</code></pre>'') # cs)"
  using long_word_unbalanced [of TG_MESSAGE_LIMIT 5000] by (simp add: TG_MESSAGE_LIMIT_def)

section \<open>The renderer stays inside Telegram's HTML\<close>

text \<open>
  The HTML Telegram accepts, as far as the renderer uses it: escaped characters, tags of the
  white list, a language class and a link to an allowed scheme, with escaped attribute values.
\<close>

definition plain_char :: "char \<Rightarrow> bool" where
  "plain_char c \<longleftrightarrow> c \<notin> {CHR ''<'', CHR ''>'', CHR ''&''}"

definition tg_tags :: "string list" where
  "tg_tags = [''<b>'', ''</b>'', ''<i>'', ''</i>'', ''<s>'', ''</s>'', ''<blockquote>'', ''</blockquote>'',
     ''<pre>'', ''</pre>'', ''<code>'', ''</code>'', ''</a>'']"

definition tg_entities :: "string list" where
  "tg_entities = [''&amp;'', ''&lt;'', ''&gt;'', ''&quot;'', ''&#x27;'']"

inductive tg_html :: "string \<Rightarrow> bool" where
  tg_nil: "tg_html []"
| tg_char: "plain_char c \<Longrightarrow> tg_html s \<Longrightarrow> tg_html (c # s)"
| tg_entity: "e \<in> set tg_entities \<Longrightarrow> tg_html s \<Longrightarrow> tg_html (e @ s)"
| tg_tag: "t \<in> set tg_tags \<Longrightarrow> tg_html s \<Longrightarrow> tg_html (t @ s)"
| tg_class: "tg_html s \<Longrightarrow>
    tg_html (''<code class='' @ [CHR 0x22] @ ''language-'' @ html_escape True v @ [CHR 0x22] @ ''>'' @ s)"
| tg_link: "url_scheme v \<in> set allowed_schemes \<Longrightarrow> tg_html s \<Longrightarrow>
    tg_html (''<a href='' @ [CHR 0x22] @ html_escape True v @ [CHR 0x22] @ ''>'' @ s)"

lemma tg_append: "tg_html x \<Longrightarrow> tg_html y \<Longrightarrow> tg_html (x @ y)"
proof (induction rule: tg_html.induct)
  case (tg_class s v)
  then show ?case using tg_html.tg_class [of "s @ y" v] by simp
next
  case (tg_link v s)
  then show ?case using tg_html.tg_link [of v "s @ y"] by simp
qed (auto intro: tg_html.intros)

lemma tg_one_tag: "t \<in> set tg_tags \<Longrightarrow> tg_html t"
  using tg_tag [OF _ tg_nil] by fastforce

lemma tg_escape_char: "tg_html (escape_char q c)"
proof -
  have "tg_html e" if "e \<in> set tg_entities" for e using tg_entity [OF that tg_nil] by simp
  then have "escape_char q c \<in> set tg_entities \<Longrightarrow> ?thesis" .
  moreover have "escape_char q c \<in> set tg_entities \<or> (escape_char q c = [c] \<and> plain_char c)"
    by (simp add: escape_char_def tg_entities_def plain_char_def)
  ultimately show ?thesis using tg_char [OF _ tg_nil] by auto
qed

lemma tg_escaped: "tg_html (html_escape q s)"
  by (induction s) (auto simp: html_escape_def tg_nil intro: tg_append tg_escape_char)

lemma tg_plain: "list_all plain_char s \<Longrightarrow> tg_html s"
  by (induction s) (auto intro: tg_nil tg_char)

lemma tg_concat: "tg_html s \<Longrightarrow> tg_html (concat (replicate n s))"
  by (induction n) (auto intro: tg_nil tg_append)

lemma digit_plain: "is_digit c \<Longrightarrow> plain_char c"
  by (auto simp: is_digit_def plain_char_def)

lemma tg_number: "tg_html (str_of_int n)"
  using str_of_nat_digits digit_plain
  by (intro tg_plain) (auto simp: str_of_int_def list_all_iff plain_char_def [of "CHR ''-''"])

lemma tg_NL: "tg_html NL"
  by (rule tg_plain) (simp add: NL_def plain_char_def)

lemma tg_body: "tg_html (html_escape True s @ ''</code></pre>'' @ NL @ NL)"
proof -
  have "tg_html ''</code>''" "tg_html ''</pre>''" by (rule tg_one_tag; simp add: tg_tags_def)+
  from tg_append [OF this] have "tg_html ''</code></pre>''" by simp
  then show ?thesis by (intro tg_append tg_escaped tg_NL)
qed

lemma tg_code_block: "tg_html (code_block t)"
  using tg_one_tag [of "''<pre>''"] tg_append [OF _ tg_append [OF _ tg_body [of "rstrip_nl (tk_content t)"]], of "''<pre>''" "''<code>''"]
    tg_one_tag [of "''<code>''"] by (simp add: code_block_def tg_tags_def)

lemma tg_fence: "tg_html (fence t)"
proof (cases "first_word (tk_info t)")
  case None
  then show ?thesis using tg_code_block [of t] by (simp add: fence_def code_block_def)
next
  case (Some lang)
  have "tg_html ''<pre>''" by (rule tg_one_tag) (simp add: tg_tags_def)
  from tg_append [OF this tg_class [OF tg_body [of "rstrip_nl (tk_content t)"], of lang]]
  show ?thesis by (simp add: fence_def Some)
qed

lemma tg_static:
  assumes "tg_html hr" "static_tag hr ty = Some s"
  shows "tg_html s"
proof -
  have tags: "tg_html t" if "t \<in> set tg_tags" for t using that by (rule tg_one_tag)
  have two: "tg_html (NL @ NL)" by (intro tg_append tg_NL)
  have "tg_html (''</b>'' @ NL @ NL)" by (intro tg_append tags two) (simp add: tg_tags_def)
  moreover have "tg_html (concat (replicate 12 hr) @ NL @ NL)"
    by (intro tg_append tg_concat two assms(1))
  ultimately show ?thesis
    using assms(2) tags tg_NL by (auto simp: static_tag_def tg_tags_def split: if_splits)
qed

text \<open>Closing tokens and list items come after their opening tokens, as markdown-it emits them.\<close>

fun nested :: "nat \<Rightarrow> bool \<Rightarrow> md_token list \<Rightarrow> bool" where
  "nested d q [] \<longleftrightarrow> True"
| "nested d q (t # ts) \<longleftrightarrow>
     (if tk_type t \<in> {''bullet_list_open'', ''ordered_list_open''} then nested (Suc d) q ts
      else if tk_type t \<in> {''bullet_list_close'', ''ordered_list_close''} then 0 < d \<and> nested (d - 1) q ts
      else if tk_type t = ''list_item_open'' then 0 < d \<and> nested d q ts
      else if tk_type t = ''blockquote_open'' then nested d True ts
      else if tk_type t = ''blockquote_close'' then q \<and> nested d q ts
      else nested d q ts)"

abbreviation env_nested :: "md_env \<Rightarrow> md_token list \<Rightarrow> bool" where
  "env_nested e ts \<equiv> nested (length (me_lists e)) (me_bq e \<noteq> None) ts"

lemma static_structure:
  "static_tag hr ty \<noteq> None \<Longrightarrow> ty \<notin> {''bullet_list_open'', ''ordered_list_open'', ''bullet_list_close'',
     ''ordered_list_close'', ''list_item_open'', ''blockquote_open'', ''blockquote_close''}"
  by (auto simp: static_tag_def split: if_splits)

lemma tg_list_item:
  assumes "tg_html bullet" "list_item_open bullet e = Some (s, e')"
  shows "tg_html s \<and> length (me_lists e') = length (me_lists e) \<and> me_bq e' = me_bq e"
proof -
  have sp: "tg_html ''. ''" "tg_html '' ''" "tg_html ''  ''" by (rule tg_plain; simp add: plain_char_def)+
  show ?thesis using assms(2)
    by (cases "me_lists e"; cases "fst (hd (me_lists e))")
      (auto simp: list_item_open_def Let_def split: if_splits intro!: tg_append tg_concat tg_number assms(1) sp)
qed

lemma tg_code_inline: "tg_html (''<code>'' @ html_escape True s @ ''</code>'')"
  by (intro tg_append tg_escaped tg_one_tag) (simp_all add: tg_tags_def)

lemma tg_links:
  "tg_html (fst (link_open t e))" "tg_html (fst (link_close e))"
  "me_lists (snd (link_open t e)) = me_lists e" "me_bq (snd (link_open t e)) = me_bq e"
  "me_lists (snd (link_close e)) = me_lists e" "me_bq (snd (link_close e)) = me_bq e"
  using tg_one_tag [of "''</a>''"] tg_link [OF _ tg_nil]
  by (auto simp: link_open_def link_close_def Let_def tg_nil tg_tags_def split: option.splits)

lemma tg_quote:
  "tg_html ''<blockquote>''" "blockquote_close e = Some (s, e') \<Longrightarrow> tg_html s"
proof -
  have t: "tg_html ''<blockquote>''" "tg_html ''</blockquote>''" by (rule tg_one_tag; simp add: tg_tags_def)+
  then show "tg_html ''<blockquote>''" by simp
  assume "blockquote_close e = Some (s, e')"
  then have "s = ''</blockquote>'' @ NL @ NL" by (auto simp: blockquote_close_def)
  then show "tg_html s" using t by (simp only:) (intro tg_append tg_NL)
qed

lemma tg_paragraph: "tg_html (paragraph_close e)"
  by (simp add: paragraph_close_def tg_NL tg_append)

lemma tg_rule:
  assumes "tg_html bullet" "tg_html hr" "env_nested e (t # ts)"
  shows "\<exists>s e'. render_rule bullet hr t e = Some (s, e') \<and> tg_html s \<and> env_nested e' ts"
proof (cases "static_tag hr (tk_type t)")
  case (Some tag)
  with static_structure [of hr "tk_type t"] tg_static [OF assms(2) Some] assms(3) show ?thesis
    by (simp add: render_rule_def)
next
  case None
  note r = render_rule_def [of bullet hr t e, unfolded None option.case]
  consider (opens) "tk_type t \<in> {''bullet_list_open'', ''ordered_list_open''}"
    | (closes) "tk_type t \<in> {''bullet_list_close'', ''ordered_list_close''}"
    | (item) "tk_type t = ''list_item_open''" | (quote) "tk_type t = ''blockquote_open''"
    | (unquote) "tk_type t = ''blockquote_close''"
    | (other) "tk_type t \<notin> {''bullet_list_open'', ''ordered_list_open'', ''bullet_list_close'', ''ordered_list_close'',
        ''list_item_open'', ''blockquote_open'', ''blockquote_close''}" by blast
  then show ?thesis
  proof cases
    case opens
    then have "\<exists>n b. render_rule bullet hr t e = list_open b n e" by (elim insertE) (auto simp: r)
    with opens assms(3) show ?thesis by (auto simp: list_open_def tg_nil)
  next
    case closes
    then have "render_rule bullet hr t e = list_close e" by (elim insertE) (simp_all add: r)
    with closes assms(3) show ?thesis by (cases "me_lists e") (auto simp: list_close_def tg_nil tg_NL)
  next
    case item
    with assms(3) have "list_item_open bullet e \<noteq> None"
      by (cases "me_lists e") (auto simp: list_item_open_def Let_def split: prod.splits)
    then obtain s e' where l: "list_item_open bullet e = Some (s, e')" by auto
    with tg_list_item [OF assms(1) l] item assms(3) show ?thesis by (auto simp: r)
  next
    case quote
    with assms(3) show ?thesis by (auto simp: r tg_quote(1))
  next
    case unquote
    with assms(3) obtain d where d: "me_bq e = Some d" by auto
    with tg_quote(2) [of e] unquote assms(3) show ?thesis by (auto simp: r blockquote_close_def)
  next
    case other
    with assms(3) have n: "env_nested e ts" by simp
    show ?thesis
    proof (cases "tk_type t \<in> {''link_open'', ''link_close''}")
      case True
      then show ?thesis using n tg_links(1,3,4) [of t e] tg_links(2,5,6) [of e] by (cases "link_open t e"; cases "link_close e") (auto simp: r)
    next
      case False
      with other n show ?thesis
        by (simp add: r tg_escaped tg_paragraph tg_fence tg_code_block tg_code_inline [simplified] tg_nil)
    qed
  qed
qed

lemma tg_render:
  assumes "tg_html bullet" "tg_html hr" "env_nested e ts"
  shows "\<exists>s. render_toks bullet hr ts e = Some s \<and> tg_html s"
  using assms(3)
proof (induction ts arbitrary: e)
  case (Cons t ts)
  from tg_rule [OF assms(1,2) Cons(2)] obtain s e' where
    s: "render_rule bullet hr t e = Some (s, e')" "tg_html s" "env_nested e' ts" by blast
  with Cons(1) [OF s(3)] show ?case by (auto intro: tg_append)
qed (simp add: tg_nil)


definition demo_toks :: "md_token list" where
  "demo_toks =
     [Tok ''bullet_list_open'' [] [] None None [], Tok ''list_item_open'' [] [] None None [],
      Tok ''link_open'' [] [] (Some ''javascript:alert(1)'') None [], Tok ''text'' ''a<b'' [] None None [],
      Tok ''link_close'' [] [] None None [], Tok ''bullet_list_close'' [] [] None None []]"


end
