(* ===== verification/Tg_Progress.thy ===== *)
theory Tg_Progress
  imports Tg_Markdown Codex_Events
begin

text \<open>
  What a Telegram user sees of a turn: the progress reporter (\<open>tg/progress.py\<close>), the sending
  of texts, voice and files (\<open>tg/output.py\<close>, \<open>utils/paths.py\<close>) and of the answer
  (\<open>tg/turn/outcomes.py\<close>). The chat is the list of the messages it shows; the reply of the
  \<open>n\<close>-th call of the bot is \<open>B n\<close>. A message handled by the dispatcher has a bot and a chat, so
  the guards for their absence are left out. Times are microseconds of \<open>time.monotonic\<close>. The
  glyphs outside the Latin alphabet, the Markdown parser and the file system are parameters.
\<close>

section \<open>The bot\<close>

text \<open>\<open>TelegramRetryAfter\<close> is a \<open>TelegramAPIError\<close>; \<open>Crash\<close> stands for every other exception.\<close>

datatype tg_exn = ApiError string | RetryAfter int | Crash string

definition is_api_error :: "tg_exn \<Rightarrow> bool" where
  "is_api_error e = (case e of Crash _ \<Rightarrow> False | _ \<Rightarrow> True)"

text \<open>A call succeeds, or raises before or after it has had its effect.\<close>

datatype api_reply = Answered | Refused tg_exn | Lost tg_exn

datatype tg_body =
    Html string
  | Status string
  | Voice string
  | Media attachment_kind string "string option"

record tg_chat =
  tg_calls :: nat
  tg_next :: nat
  tg_shown :: "(nat \<times> tg_body) list"
  tg_draft :: string
  tg_actions :: nat

type_synonym ('b, 'a) tg = "'b tg_chat_scheme \<Rightarrow> (tg_exn + 'a) \<times> 'b tg_chat_scheme"

definition api_call :: "(nat \<Rightarrow> api_reply) \<Rightarrow> ('b tg_chat_scheme \<Rightarrow> 'a \<times> 'b tg_chat_scheme) \<Rightarrow> ('b, 'a) tg" where
  "api_call B f c =
     (let c1 = c\<lparr>tg_calls := Suc (tg_calls c)\<rparr> in
      case B (tg_calls c) of
        Answered \<Rightarrow> (case f c1 of (a, c2) \<Rightarrow> (Inr a, c2))
      | Refused e \<Rightarrow> (Inl e, c1)
      | Lost e \<Rightarrow> (Inl e, snd (f c1)))"

definition then_tg :: "('b, 'a) tg \<Rightarrow> ('a \<Rightarrow> ('b, 'c) tg) \<Rightarrow> ('b, 'c) tg" where
  "then_tg m f c = (case m c of (Inl e, c1) \<Rightarrow> (Inl e, c1) | (Inr a, c1) \<Rightarrow> f a c1)"

definition post_body :: "tg_body \<Rightarrow> 'b tg_chat_scheme \<Rightarrow> nat \<times> 'b tg_chat_scheme" where
  "post_body b c = (tg_next c, c\<lparr>tg_next := Suc (tg_next c), tg_shown := tg_shown c @ [(tg_next c, b)]\<rparr>)"

definition put_body :: "nat \<Rightarrow> tg_body \<Rightarrow> 'b tg_chat_scheme \<Rightarrow> unit \<times> 'b tg_chat_scheme" where
  "put_body i b c = ((), c\<lparr>tg_shown := map (\<lambda>(j, x). (j, if j = i then b else x)) (tg_shown c)\<rparr>)"

definition drop_body :: "nat \<Rightarrow> 'b tg_chat_scheme \<Rightarrow> unit \<times> 'b tg_chat_scheme" where
  "drop_body i c = ((), c\<lparr>tg_shown := filter (\<lambda>(j, _). j \<noteq> i) (tg_shown c)\<rparr>)"

definition answer :: "(nat \<Rightarrow> api_reply) \<Rightarrow> tg_body \<Rightarrow> ('b, nat) tg" where
  "answer B b = api_call B (post_body b)"

definition edit_text :: "(nat \<Rightarrow> api_reply) \<Rightarrow> nat \<Rightarrow> tg_body \<Rightarrow> ('b, unit) tg" where
  "edit_text B i b = api_call B (put_body i b)"

definition delete_msg :: "(nat \<Rightarrow> api_reply) \<Rightarrow> nat \<Rightarrow> ('b, unit) tg" where
  "delete_msg B i = api_call B (drop_body i)"

section \<open>The reporter\<close>

datatype tool_status = TOOL_RUNNING | TOOL_DONE | TOOL_ERROR

text \<open>
  The parameters of the output: the calls of the renderer's rules and the tokens that
  markdown-it makes of a text, the glyphs, and whether drafts are enabled.
\<close>

record tg_style =
  ty_calls :: "string \<Rightarrow> md_token list"
  ty_parse :: "string \<Rightarrow> md_token list"
  ty_bullet :: string
  ty_hr :: string
  ty_icon :: "tool_status \<Rightarrow> string"
  ty_thinking :: string
  ty_drafts :: bool

abbreviation rendered :: "tg_style \<Rightarrow> string \<Rightarrow> string list option" where
  "rendered Y s \<equiv> render_html (ty_bullet Y) (ty_hr Y) (ty_calls Y) s"

record reporter = tg_chat +
  pg_tools :: "(string \<times> tool_status) list"
  pg_draft_text :: string
  pg_draft_at :: int
  pg_status :: "nat option"
  pg_status_text :: string
  pg_stream :: "nat option"
  pg_stream_text :: string
  pg_throttle_at :: int
  pg_paused_until :: int

definition new_reporter :: "tg_chat \<Rightarrow> reporter" where
  "new_reporter c = tg_chat.extend c (reporter.fields [] [] 0 None [] None [] 0 0)"

definition DRAFT_TEXT_MAX :: nat where
  "DRAFT_TEXT_MAX = 4000"

definition STREAM_BUBBLE_MAX :: nat where
  "STREAM_BUBBLE_MAX = 3500"

definition STREAM_THROTTLE_US :: int where
  "STREAM_THROTTLE_US = 1000000"

fun window_cut :: "string \<Rightarrow> string list \<Rightarrow> nat option" where
  "window_cut w [] = None"
| "window_cut w (sep # seps) =
     (case rfind sep w (length w) of
        Some i \<Rightarrow> if 0 < i then Some (i + length sep) else window_cut w seps
      | None \<Rightarrow> window_cut w seps)"

definition stream_window :: "string \<Rightarrow> string" where
  "stream_window t =
     (if length t \<le> STREAM_BUBBLE_MAX then t
      else case window_cut (take STREAM_BUBBLE_MAX t) [NL @ NL, NL, ''. '', '' ''] of
             Some k \<Rightarrow> take k t
           | None \<Rightarrow> take STREAM_BUBBLE_MAX t)"

definition compose_status_text :: "tg_style \<Rightarrow> (string \<times> tool_status) list \<Rightarrow> string" where
  "compose_status_text Y tools =
     (case find (\<lambda>e. snd e = TOOL_RUNNING) tools of
        Some e \<Rightarrow> ty_icon Y (snd e) @ '' '' @ fst e
      | None \<Rightarrow> ty_thinking Y)"

definition compose_draft_text :: "tg_style \<Rightarrow> (string \<times> tool_status) list \<Rightarrow> string" where
  "compose_draft_text Y tools = join_with NL (map (\<lambda>e. ty_icon Y (snd e) @ '' '' @ fst e) tools)"

text \<open>\<open>later\<close> is the second reading of the clock, after the server has asked to wait.\<close>

definition refresh_status :: "(nat \<Rightarrow> api_reply) \<Rightarrow> tg_style \<Rightarrow> int \<Rightarrow> int \<Rightarrow> reporter \<Rightarrow> (tg_exn + unit) \<times> reporter" where
  "refresh_status B Y now later s =
     (let text = compose_status_text Y (pg_tools s); body = Status (tg_escape text) in
      if text = pg_status_text s \<or> now < pg_paused_until s then (Inr (), s)
      else case (case pg_status s of
                   None \<Rightarrow> then_tg (answer B body) (\<lambda>i s. (Inr (), s\<lparr>pg_status := Some i\<rparr>)) s
                 | Some i \<Rightarrow> edit_text B i body s) of
             (Inr _, s1) \<Rightarrow> (Inr (), s1\<lparr>pg_status_text := text\<rparr>)
           | (Inl (RetryAfter n), s1) \<Rightarrow> (Inr (), s1\<lparr>pg_paused_until := later + n * 1000000\<rparr>)
           | (Inl (ApiError _), s1) \<Rightarrow> (Inr (), s1)
           | (Inl (Crash e), s1) \<Rightarrow> (Inl (Crash e), s1))"

definition render_draft :: "(nat \<Rightarrow> api_reply) \<Rightarrow> tg_style \<Rightarrow> int \<Rightarrow> reporter \<Rightarrow> (tg_exn + unit) \<times> reporter" where
  "render_draft B Y now s =
     (let text = compose_draft_text Y (pg_tools s) in
      if \<not> ty_drafts Y \<or> text = [] \<or> text = pg_draft_text s then (Inr (), s)
      else case api_call B (\<lambda>c. ((), c\<lparr>tg_draft := drop (length text - DRAFT_TEXT_MAX) text\<rparr>)) s of
             (Inr _, s1) \<Rightarrow> (Inr (), s1\<lparr>pg_draft_text := text, pg_draft_at := now\<rparr>)
           | (Inl e, s1) \<Rightarrow> (if is_api_error e then Inr () else Inl e, s1))"

definition note_tool :: "(nat \<Rightarrow> api_reply) \<Rightarrow> tg_style \<Rightarrow> int \<Rightarrow> int \<Rightarrow> string \<Rightarrow> reporter \<Rightarrow> (tg_exn + unit) \<times> reporter" where
  "note_tool B Y now later name s =
     then_tg (refresh_status B Y now later) (\<lambda>_. render_draft B Y later)
       (s\<lparr>pg_tools := pg_tools s @ [(name, TOOL_RUNNING)]\<rparr>)"

fun mark_first :: "string \<Rightarrow> tool_status \<Rightarrow> (string \<times> tool_status) list \<Rightarrow> (string \<times> tool_status) list" where
  "mark_first name st [] = []"
| "mark_first name st (e # es) =
     (if fst e = name \<and> snd e = TOOL_RUNNING then (name, st) # es else e # mark_first name st es)"

definition mark_tool_done ::
  "(nat \<Rightarrow> api_reply) \<Rightarrow> tg_style \<Rightarrow> int \<Rightarrow> int \<Rightarrow> string \<Rightarrow> bool \<Rightarrow> reporter \<Rightarrow> (tg_exn + unit) \<times> reporter" where
  "mark_tool_done B Y now later name error s =
     then_tg (refresh_status B Y now later) (\<lambda>_. render_draft B Y later)
       (s\<lparr>pg_tools := rev (mark_first name (if error then TOOL_ERROR else TOOL_DONE) (rev (pg_tools s)))\<rparr>)"

text \<open>The exception of a token that closes what was never opened is a \<open>Crash\<close>.\<close>

definition upsert_stream_message :: "(nat \<Rightarrow> api_reply) \<Rightarrow> tg_style \<Rightarrow> string \<Rightarrow> reporter \<Rightarrow> (tg_exn + unit) \<times> reporter" where
  "upsert_stream_message B Y text s =
     (case rendered Y text of
        None \<Rightarrow> (Inl (Crash ''render''), s)
      | Some [] \<Rightarrow> (Inr (), s)
      | Some (h # _) \<Rightarrow>
          (case pg_stream s of
             None \<Rightarrow> then_tg (answer B (Html h)) (\<lambda>i s. (Inr (), s\<lparr>pg_stream := Some i\<rparr>)) s
           | Some i \<Rightarrow> edit_text B i (Html h) s))"

definition delete_stream_message :: "(nat \<Rightarrow> api_reply) \<Rightarrow> reporter \<Rightarrow> (tg_exn + unit) \<times> reporter" where
  "delete_stream_message B s =
     (case pg_stream s of
        None \<Rightarrow> (Inr (), s)
      | Some i \<Rightarrow>
          (case delete_msg B i s of
             (r, s1) \<Rightarrow>
               (case r of
                  Inl e \<Rightarrow> if is_api_error e then (Inr (), s1\<lparr>pg_stream := None, pg_stream_text := []\<rparr>) else (Inl e, s1)
                | Inr _ \<Rightarrow> (Inr (), s1\<lparr>pg_stream := None, pg_stream_text := []\<rparr>))))"

definition note_partial :: "(nat \<Rightarrow> api_reply) \<Rightarrow> tg_style \<Rightarrow> int \<Rightarrow> string \<Rightarrow> reporter \<Rightarrow> (tg_exn + unit) \<times> reporter" where
  "note_partial B Y now full s =
     (if full = [] \<or> has_unclosed_fence full then (Inr (), s)
      else if now - pg_throttle_at s < STREAM_THROTTLE_US then (Inr (), s)
      else let visible = py_strip (stream_window full) in
        if visible = [] \<or> visible = pg_stream_text s then (Inr (), s)
        else if has_unclosed_fence visible then (Inr (), s)
        else case upsert_stream_message B Y visible s of
               (Inr _, s1) \<Rightarrow> (Inr (), s1\<lparr>pg_stream_text := visible, pg_throttle_at := now\<rparr>)
             | (Inl e, s1) \<Rightarrow> (if is_api_error e then Inr () else Inl e, s1))"

text \<open>The value is the part of the text that the stream message is taken to show.\<close>

definition finalize_stream :: "(nat \<Rightarrow> api_reply) \<Rightarrow> tg_style \<Rightarrow> string \<Rightarrow> reporter \<Rightarrow> (tg_exn + string) \<times> reporter" where
  "finalize_stream B Y final s =
     (let visible = py_strip (stream_window final) in
      if final = [] \<or> visible = [] then (Inr [], s)
      else if has_unclosed_fence visible then
        then_tg (delete_stream_message B) (\<lambda>_ s. (Inr [], s)) s
      else case upsert_stream_message B Y visible s of
             (Inr _, s1) \<Rightarrow> (Inr visible, s1\<lparr>pg_stream_text := visible\<rparr>)
           | (Inl e, s1) \<Rightarrow> (if is_api_error e then Inr [] else Inl e, s1))"

text \<open>One round of the background task; \<open>acted_at\<close> is when the last chat action was sent.\<close>

definition run_tick ::
  "(nat \<Rightarrow> api_reply) \<Rightarrow> tg_style \<Rightarrow> int \<Rightarrow> int \<Rightarrow> int \<Rightarrow> int \<Rightarrow> reporter \<Rightarrow> (tg_exn + int) \<times> reporter" where
  "run_tick B Y period now later acted_at =
     then_tg (refresh_status B Y now later) (\<lambda>_ s.
       if later - acted_at < period then (Inr acted_at, s)
       else (case api_call B (\<lambda>c. ((), c\<lparr>tg_actions := Suc (tg_actions c)\<rparr>)) s of (_, s1) \<Rightarrow> (Inr later, s1)))"

definition stop_reporter :: "(nat \<Rightarrow> api_reply) \<Rightarrow> reporter \<Rightarrow> reporter" where
  "stop_reporter B s =
     (case pg_status s of None \<Rightarrow> s | Some i \<Rightarrow> (snd (delete_msg B i s))\<lparr>pg_status := None\<rparr>)"

section \<open>Output\<close>

fun send_pieces :: "(nat \<Rightarrow> api_reply) \<Rightarrow> string list \<Rightarrow> ('b, unit) tg" where
  "send_pieces B [] c = (Inr (), c)"
| "send_pieces B (p # ps) c = then_tg (answer B (Html p)) (\<lambda>_. send_pieces B ps) c"

definition send_text :: "(nat \<Rightarrow> api_reply) \<Rightarrow> tg_style \<Rightarrow> string \<Rightarrow> ('b, unit) tg" where
  "send_text B Y text c =
     (case rendered Y text of None \<Rightarrow> (Inl (Crash ''render''), c) | Some ps \<Rightarrow> send_pieces B ps c)"

datatype tts_result = TtsDone | TtsFailed | TtsCrashed string

definition send_voice_reply ::
  "(nat \<Rightarrow> api_reply) \<Rightarrow> tg_style \<Rightarrow> bool \<Rightarrow> (string \<Rightarrow> tts_result) \<Rightarrow> string \<Rightarrow> ('b, bool) tg" where
  "send_voice_reply B Y enabled tts text c =
     (let spoken = to_plain (ty_parse Y) text in
      if spoken = [] \<or> \<not> enabled then (Inr False, c)
      else case tts spoken of
             TtsFailed \<Rightarrow> (Inr False, c)
           | TtsCrashed e \<Rightarrow> (Inl (Crash e), c)
           | TtsDone \<Rightarrow> then_tg (answer B (Voice spoken)) (\<lambda>_ c. (Inr True, c)) c)"

text \<open>
  The file system: expanding a leading tilde, following links and dots, and whether a path is a
  file; the trusted roots, of which the first is the workspace.
\<close>

record file_system =
  fs_expand :: "string \<Rightarrow> string"
  fs_resolve :: "string \<Rightarrow> string"
  fs_is_file :: "string \<Rightarrow> bool"
  fs_workspace :: string
  fs_generated :: string

definition is_relative_to :: "string \<Rightarrow> string \<Rightarrow> bool" where
  "is_relative_to path dir \<longleftrightarrow> path = dir \<or> prefix (dir @ ''/'') path"

definition is_inside_trusted_root :: "file_system \<Rightarrow> string \<Rightarrow> bool" where
  "is_inside_trusted_root F path \<longleftrightarrow> is_relative_to path (fs_workspace F) \<or> is_relative_to path (fs_generated F)"

definition resolve_trusted_local_path :: "file_system \<Rightarrow> string \<Rightarrow> string option" where
  "resolve_trusted_local_path F source =
     (if url_scheme source \<in> {''http'', ''https''} then None
      else let p = fs_expand F source;
               path = fs_resolve F (if prefix ''/'' p then p else fs_workspace F @ ''/'' @ p)
           in if \<not> is_inside_trusted_root F path \<or> \<not> fs_is_file F path then None else Some path)"

definition resolve_input_file :: "file_system \<Rightarrow> string \<Rightarrow> tg_exn + string" where
  "resolve_input_file F source =
     (if url_scheme source \<in> {''http'', ''https''} then Inr source
      else case resolve_trusted_local_path F source of
             None \<Rightarrow> Inl (Crash (''untrusted attachment source: '' @ source))
           | Some path \<Rightarrow> Inr path)"

definition send_attachment :: "(nat \<Rightarrow> api_reply) \<Rightarrow> file_system \<Rightarrow> attachment \<Rightarrow> ('b, unit) tg" where
  "send_attachment B F a c =
     (case resolve_input_file F (att_source a) of
        Inl e \<Rightarrow> (Inl e, c)
      | Inr file \<Rightarrow>
          then_tg (answer B (Media (att_kind a) file (if att_caption a = [] then None else Some (tg_escape (att_caption a)))))
            (\<lambda>_ c. (Inr (), c)) c)"

fun send_attachments :: "(nat \<Rightarrow> api_reply) \<Rightarrow> file_system \<Rightarrow> attachment list \<Rightarrow> ('b, unit) tg" where
  "send_attachments B F [] c = (Inr (), c)"
| "send_attachments B F (a # as) c = then_tg (send_attachment B F a) (\<lambda>_. send_attachments B F as) c"

section \<open>The answer\<close>

definition strip_committed_prefix :: "string \<Rightarrow> string \<Rightarrow> string" where
  "strip_committed_prefix text committed =
     (if committed = [] then text
      else if \<not> prefix committed text then text
      else py_lstrip (drop (length committed) text))"

definition send_response ::
  "(nat \<Rightarrow> api_reply) \<Rightarrow> tg_style \<Rightarrow> file_system \<Rightarrow> bool \<Rightarrow> (string \<Rightarrow> tts_result) \<Rightarrow> string \<Rightarrow> attachment list \<Rightarrow>
     string \<Rightarrow> bool \<Rightarrow> ('b, unit) tg" where
  "send_response B Y F enabled tts final atts committed as_voice c =
     then_tg
       (if as_voice \<and> py_strip final \<noteq> []
        then then_tg (send_voice_reply B Y enabled tts final)
               (\<lambda>sent. if sent then (\<lambda>c. (Inr (), c)) else send_text B Y final)
        else (let remainder = strip_committed_prefix final committed in
              if remainder = [] then (\<lambda>c. (Inr (), c)) else send_text B Y remainder))
       (\<lambda>_. send_attachments B F atts) c"

section \<open>Windows and remainders\<close>

lemma window_cut_bound: "window_cut w seps = Some k \<Longrightarrow> k \<le> length w"
  by (induction w seps rule: window_cut.induct) (auto split: option.splits if_splits dest: rfindD)

lemma window_cut_pos: "window_cut w seps = Some k \<Longrightarrow> 0 < k"
  by (induction w seps rule: window_cut.induct) (auto split: option.splits if_splits)

lemma stream_window_prefix: "prefix (stream_window t) t"
  by (auto simp: stream_window_def take_is_prefix split: option.splits)

lemma stream_window_take: "\<exists>k. stream_window t = take k t \<and> k \<le> STREAM_BUBBLE_MAX \<or> stream_window t = t \<and> length t \<le> STREAM_BUBBLE_MAX"
proof (cases "window_cut (take STREAM_BUBBLE_MAX t) [NL @ NL, NL, ''. '', '' '']")
  case (Some k)
  from window_cut_bound [OF this] Some show ?thesis by (auto simp: stream_window_def)
qed (auto simp: stream_window_def)

lemma stream_window_length: "length (stream_window t) \<le> STREAM_BUBBLE_MAX"
  using stream_window_take [of t] by auto

lemma stream_window_nonempty:
  assumes "t \<noteq> []"
  shows "stream_window t \<noteq> []"
proof (cases "window_cut (take STREAM_BUBBLE_MAX t) [NL @ NL, NL, ''. '', '' '']")
  case (Some k)
  from window_cut_pos [OF this] Some assms show ?thesis by (auto simp: stream_window_def)
next
  case None
  have "0 < STREAM_BUBBLE_MAX" by (simp add: STREAM_BUBBLE_MAX_def)
  with assms None show ?thesis by (simp add: stream_window_def del: window_cut.simps)
qed

lemma rstrip_prefix: "prefix (rstrip_by p w) w"
proof -
  have "w = rev (dropWhile p (rev w)) @ rev (takeWhile p (rev w))"
    by (metis rev_append rev_rev_ident takeWhile_dropWhile_id)
  then show ?thesis by (metis prefixI rstrip_by_def)
qed

lemma strip_inked_prefix: "prefix w t \<Longrightarrow> \<not> p (hd t) \<Longrightarrow> prefix (strip_by p w) t"
proof (cases w)
  case (Cons c cs)
  assume w: "prefix w t" "\<not> p (hd t)"
  with Cons have "\<not> p c" by (auto simp: prefix_def)
  with Cons have "lstrip_by p w = w" by (simp add: lstrip_by_def)
  with w(1) show ?thesis unfolding strip_by_def by (metis rstrip_prefix prefix_order.trans)
qed (simp add: strip_by_def rstrip_by_def lstrip_by_def)

lemma rstrip_inked: "w \<noteq> [] \<Longrightarrow> \<not> p (hd w) \<Longrightarrow> rstrip_by p w \<noteq> []"
  by (cases w) (auto simp: rstrip_by_def dropWhile_eq_Nil_conv)

lemma visible_nonempty:
  assumes "t \<noteq> []" "\<not> is_space (hd t)"
  shows "py_strip (stream_window t) \<noteq> []"
proof -
  have w: "stream_window t \<noteq> []" "prefix (stream_window t) t"
    by (rule stream_window_nonempty [OF assms(1)], rule stream_window_prefix)
  then have "hd t = hd (stream_window t)" unfolding prefix_def by (metis hd_append2)
  with assms(2) have "\<not> is_space (hd (stream_window t))" by simp
  with w(1) have "lstrip_by is_space (stream_window t) = stream_window t" by (cases "stream_window t") (auto simp: lstrip_by_def)
  with w(1) \<open>\<not> is_space (hd (stream_window t))\<close> show ?thesis by (simp add: strip_by_def rstrip_inked)
qed

lemma remainder_split:
  assumes "prefix v t" "v \<noteq> []"
  shows "\<exists>ws. t = v @ ws @ strip_committed_prefix t v \<and> (\<forall>c \<in> set ws. is_space c)"
proof -
  obtain r where r: "t = v @ r" using assms(1) by (auto simp: prefix_def)
  then have "t = v @ takeWhile is_space r @ strip_committed_prefix t v"
    using assms(2) by (simp add: strip_committed_prefix_def lstrip_by_def)
  then show ?thesis by (meson set_takeWhileD)
qed

section \<open>A bot that answers\<close>

definition settle :: "string option \<Rightarrow> reporter \<Rightarrow> tg_body list" where
  "settle h s =
     (case (pg_stream s, h) of
        (None, None) \<Rightarrow> map snd (tg_shown s)
      | (None, Some x) \<Rightarrow> map snd (tg_shown s) @ [Html x]
      | (Some i, None) \<Rightarrow> map snd (filter (\<lambda>(j, _). j \<noteq> i) (tg_shown s))
      | (Some i, Some x) \<Rightarrow> map (\<lambda>(j, b). if j = i then Html x else b) (tg_shown s))"

definition media :: "file_system \<Rightarrow> attachment \<Rightarrow> tg_body" where
  "media F a = Media (att_kind a) (case resolve_input_file F (att_source a) of Inr f \<Rightarrow> f | Inl _ \<Rightarrow> [])
     (if att_caption a = [] then None else Some (tg_escape (att_caption a)))"

definition good_bot :: "(nat \<Rightarrow> api_reply) \<Rightarrow> bool" where
  "good_bot B \<longleftrightarrow> (\<forall>n. B n = Answered)"

lemma api_call_good: "good_bot B \<Longrightarrow> api_call B f c = (case f (c\<lparr>tg_calls := Suc (tg_calls c)\<rparr>) of (a, c2) \<Rightarrow> (Inr a, c2))"
  by (simp add: good_bot_def api_call_def)

lemma answer_good:
  "good_bot B \<Longrightarrow> \<exists>c'. answer B b c = (Inr (tg_next c), c') \<and> map snd (tg_shown c') = map snd (tg_shown c) @ [b]"
  by (simp add: answer_def api_call_good post_body_def)

lemma send_pieces_good:
  "good_bot B \<Longrightarrow> \<exists>c'. send_pieces B ps c = (Inr (), c') \<and> map snd (tg_shown c') = map snd (tg_shown c) @ map Html ps"
proof (induction ps arbitrary: c)
  case (Cons p ps)
  obtain c1 where c1: "answer B (Html p) c = (Inr (tg_next c), c1)" "map snd (tg_shown c1) = map snd (tg_shown c) @ [Html p]"
    using answer_good [OF Cons.prems] by blast
  from Cons.IH [OF Cons.prems, of c1] c1 show ?case by (auto simp: then_tg_def)
qed simp

lemma send_attachments_good:
  "good_bot B \<Longrightarrow> \<forall>a \<in> set as. \<not> isl (resolve_input_file F (att_source a)) \<Longrightarrow>
   \<exists>c'. send_attachments B F as c = (Inr (), c') \<and> map snd (tg_shown c') = map snd (tg_shown c) @ map (media F) as"
proof (induction as arbitrary: c)
  case (Cons a as)
  obtain f where f: "resolve_input_file F (att_source a) = Inr f"
    using Cons.prems(2) by (cases "resolve_input_file F (att_source a)") auto
  obtain c1 where c1: "answer B (media F a) c = (Inr (tg_next c), c1)" "map snd (tg_shown c1) = map snd (tg_shown c) @ [media F a]"
    using answer_good [OF Cons.prems(1)] by blast
  from c1(1) have "send_attachment B F a c = (Inr (), c1)"
    by (simp add: send_attachment_def f then_tg_def media_def)
  with Cons.IH [OF Cons.prems(1), of c1] Cons.prems(2) c1(2) show ?case by (auto simp: then_tg_def)
qed simp

lemma upsert_good:
  assumes "good_bot B" "rendered Y v = Some (h # hs)"
  shows "\<exists>s'. upsert_stream_message B Y v s = (Inr (), s') \<and> map snd (tg_shown s') = settle (Some h) s"
  using assms
  by (auto simp: upsert_stream_message_def answer_def edit_text_def api_call_good then_tg_def post_body_def put_body_def settle_def
      comp_def split_beta split: option.splits)

lemma delete_stream_good:
  assumes "good_bot B"
  shows "\<exists>s'. delete_stream_message B s = (Inr (), s') \<and> map snd (tg_shown s') = settle None s"
  using assms
  by (auto simp: delete_stream_message_def delete_msg_def api_call_good drop_body_def settle_def split: option.splits)

lemma rendered_blank [simp]: "rendered Y [] = Some []"
  by (simp add: render_html_def strip_by_def lstrip_by_def rstrip_by_def)

lemma send_rest_good:
  assumes "good_bot B" "rendered Y (strip_committed_prefix t v) = Some ps"
    "\<forall>a \<in> set atts. \<not> isl (resolve_input_file F (att_source a))"
  shows "\<exists>c'. send_response B Y F en tts t atts v False c = (Inr (), c')
    \<and> map snd (tg_shown c') = map snd (tg_shown c) @ map Html ps @ map (media F) atts"
proof -
  let ?r = "strip_committed_prefix t v"
  have "\<exists>c1. (if ?r = [] then (\<lambda>c. (Inr (), c)) else send_text B Y ?r) c = (Inr (), c1)
      \<and> map snd (tg_shown c1) = map snd (tg_shown c) @ map Html ps"
    using send_pieces_good [OF assms(1), of ps c] assms(2) by (auto simp: send_text_def)
  then obtain c1 where c1: "(if ?r = [] then (\<lambda>c. (Inr (), c)) else send_text B Y ?r) c = (Inr (), c1)"
    "map snd (tg_shown c1) = map snd (tg_shown c) @ map Html ps" by blast
  obtain c2 where "send_attachments B F atts c1 = (Inr (), c2)" "map snd (tg_shown c2) = map snd (tg_shown c1) @ map (media F) atts"
    using send_attachments_good [OF assms(1,3)] by blast
  with c1 show ?thesis by (auto simp: send_response_def then_tg_def Let_def split: if_splits)
qed

text \<open>The end of a turn as the done branch composes it: settle the stream message, send the rest.\<close>

definition finish_answer ::
  "(nat \<Rightarrow> api_reply) \<Rightarrow> tg_style \<Rightarrow> file_system \<Rightarrow> string \<Rightarrow> attachment list \<Rightarrow> reporter \<Rightarrow> (tg_exn + unit) \<times> reporter" where
  "finish_answer B Y F t atts =
     then_tg (finalize_stream B Y t) (\<lambda>committed. send_response B Y F False (\<lambda>_. TtsFailed) t atts committed False)"

lemma finish_visible:
  assumes "good_bot B" "t \<noteq> []" "\<not> is_space (hd t)" "\<forall>a \<in> set atts. \<not> isl (resolve_input_file F (att_source a))"
    "\<not> has_unclosed_fence (py_strip (stream_window t))" "rendered Y (py_strip (stream_window t)) = Some (h # hs)"
    "rendered Y (strip_committed_prefix t (py_strip (stream_window t))) = Some ps"
  shows "\<exists>s'. finish_answer B Y F t atts s = (Inr (), s') \<and>
    map snd (tg_shown s') = settle (Some h) s @ map Html ps @ map (media F) atts"
proof -
  let ?v = "py_strip (stream_window t)"
  obtain s1 where u: "upsert_stream_message B Y ?v s = (Inr (), s1)" "map snd (tg_shown s1) = settle (Some h) s"
    using upsert_good [OF assms(1,6)] by blast
  let ?s1 = "s1\<lparr>pg_stream_text := ?v\<rparr>"
  have "finalize_stream B Y t s = (Inr ?v, ?s1)"
    using assms(2,5) visible_nonempty [OF assms(2,3)] u(1) by (simp add: finalize_stream_def Let_def)
  moreover obtain s2 where "send_response B Y F False (\<lambda>_. TtsFailed) t atts ?v False ?s1 = (Inr (), s2)"
    "map snd (tg_shown s2) = map snd (tg_shown ?s1) @ map Html ps @ map (media F) atts"
    using send_rest_good [OF assms(1,7,4)] by blast
  ultimately show ?thesis using u(2) by (auto simp: finish_answer_def then_tg_def)
qed

lemma finish_fenced:
  assumes "good_bot B" "t \<noteq> []" "\<not> is_space (hd t)" "\<forall>a \<in> set atts. \<not> isl (resolve_input_file F (att_source a))"
    "has_unclosed_fence (py_strip (stream_window t))" "rendered Y t = Some ps"
  shows "\<exists>s'. finish_answer B Y F t atts s = (Inr (), s') \<and>
    map snd (tg_shown s') = settle None s @ map Html ps @ map (media F) atts"
proof -
  obtain s1 where d: "delete_stream_message B s = (Inr (), s1)" "map snd (tg_shown s1) = settle None s"
    using delete_stream_good [OF assms(1)] by blast
  have "finalize_stream B Y t s = (Inr [], s1)"
    using assms(2,5) visible_nonempty [OF assms(2,3)] d(1) by (simp add: finalize_stream_def Let_def then_tg_def)
  moreover have "rendered Y (strip_committed_prefix t []) = Some ps"
    using assms(6) by (simp add: strip_committed_prefix_def)
  then obtain s2 where "send_response B Y F False (\<lambda>_. TtsFailed) t atts [] False s1 = (Inr (), s2)"
    "map snd (tg_shown s2) = map snd (tg_shown s1) @ map Html ps @ map (media F) atts"
    using send_rest_good [OF assms(1) _ assms(4)] by blast
  ultimately show ?thesis using d(2) by (auto simp: finish_answer_def then_tg_def)
qed

section \<open>Properties of the answer\<close>


definition demo_style :: tg_style where
  "demo_style = \<lparr>ty_calls = (\<lambda>s. [Tok ''text'' s [] None None []]), ty_parse = (\<lambda>s. []), ty_bullet = ''*'', ty_hr = ''-'',
     ty_icon = (\<lambda>_. ''.''), ty_thinking = ''Thinking'', ty_drafts = False\<rparr>"

lemma strip_starts_inked: "starts_inked (py_strip t)"
proof (cases "lstrip_by is_space t")
  case Nil
  then show ?thesis by (simp add: starts_inked_def strip_by_def rstrip_by_def)
next
  case (Cons c cs)
  then have "\<not> is_space c" by (metis hd_dropWhile list.distinct(1) list.sel(1) lstrip_by_def)
  with Cons have "rstrip_by is_space (lstrip_by is_space t) \<noteq> []" by (simp add: rstrip_inked)
  moreover have "prefix (rstrip_by is_space (lstrip_by is_space t)) (c # cs)" using Cons by (metis rstrip_prefix)
  ultimately show ?thesis using \<open>\<not> is_space c\<close> by (auto simp: starts_inked_def strip_by_def prefix_Cons)
qed

lemma split_short: "length t \<le> limit \<Longrightarrow> split_chunks limit t = Some (if t = [] then [] else [t])"
  by (subst split_chunks.simps) simp

lemma demo_rendered: "rendered demo_style x = (if py_strip x = [] then Some [] else split_chunks TG_MESSAGE_LIMIT (py_strip (html_escape True x)))"
  by (simp add: render_html_def demo_style_def render_rule_def static_tag_def)

lemma demo_rendered_total: "rendered demo_style x \<noteq> None"
  using split_framed [of TG_MESSAGE_LIMIT "[]" "py_strip (html_escape True x)"] strip_starts_inked [of "html_escape True x"]
  by (auto simp: demo_rendered TG_MESSAGE_LIMIT_def)

definition demo_fs :: file_system where
  "demo_fs = \<lparr>fs_expand = id, fs_resolve = id, fs_is_file = (\<lambda>p. p = ''/work/a.png''), fs_workspace = ''/work'', fs_generated = ''/gen''\<rparr>"

definition demo_room :: tg_chat where
  "demo_room = \<lparr>tg_calls = 0, tg_next = 2, tg_shown = [(1, Html ''question'')], tg_draft = [], tg_actions = 0\<rparr>"

definition demo_image :: attachment where
  "demo_image = \<lparr>att_kind = IMAGE, att_source = ''a.png'', att_caption = []\<rparr>"

lemma demo_image_file: "resolve_input_file demo_fs (att_source demo_image) = Inr ''/work/a.png''"
  by (simp add: resolve_input_file_def resolve_trusted_local_path_def demo_fs_def demo_image_def url_scheme_def is_inside_trusted_root_def
      is_relative_to_def)


text \<open>
  A streamed part whose HTML takes more than one message is cut silently: the stream
  message shows its first piece, the whole part counts as delivered, and the further pieces
  are in no message.
\<close>

theorem tg_stream_truncates:
  assumes "good_bot B" "t \<noteq> []" "\<not> is_space (hd t)" "\<not> has_unclosed_fence t" "length t \<le> STREAM_BUBBLE_MAX" "py_strip t = t"
    and "rendered Y t = Some (h # k # ks)"
  shows "\<exists>s'. finish_answer B Y F t [] (new_reporter c) = (Inr (), s') \<and> map snd (tg_shown s') = map snd (tg_shown c) @ [Html h]"
proof -
  have w: "py_strip (stream_window t) = t" using assms(5,6) by (simp add: stream_window_def)
  have "strip_committed_prefix t t = []" by (simp add: strip_committed_prefix_def lstrip_by_def)
  with finish_visible [of B t "[]" F Y h "k # ks" "[]" "new_reporter c"] assms w show ?thesis
    by (simp add: settle_def new_reporter_def tg_chat.defs reporter.defs)
qed

lemma strip_ends_inked: "py_strip t = t \<Longrightarrow> t \<noteq> [] \<Longrightarrow> \<not> is_space (last t)"
  by (metis hd_dropWhile last_rev rev_is_Nil_conv rev_rev_ident rstrip_by_def strip_by_def)

lemma split_two:
  assumes "25 \<le> limit" "limit < length t" "py_strip t = t"
  shows "\<exists>h k ks. split_chunks limit t = Some (h # k # ks)"
proof -
  obtain k force where sc: "safe_cut t limit = (k, force)" by fastforce
  let ?more = "py_lstrip (drop k t)" and ?next = "if force then CODE_OPEN @ py_lstrip (drop k t) else py_lstrip (drop k t)"
  have k: "k < length t" using safe_cut_bounds(2) [OF assms(1) sc] assms(2) by auto
  then have "\<not> is_space (last (drop k t))" using strip_ends_inked [OF assms(3)] by (cases t) auto
  moreover have "last (drop k t) \<in> set (drop k t)" using k by (intro last_in_set) simp
  ultimately have ne: "?more \<noteq> []" unfolding lstrip_by_def dropWhile_eq_Nil_conv by blast
  have "starts_inked ?next" by (simp add: starts_inked_lstrip)
  then obtain cs parts where cs: "split_chunks limit ?next = Some cs" "list_all2 framed cs parts"
    using split_framed [OF assms(1), of "[]" ?next] by auto
  have "cs \<noteq> []"
  proof
    assume "cs = []"
    with cs(1) have "split_chunks limit ?next = Some []" by simp
    then show False using ne by (subst (asm) split_chunks.simps) (auto simp: Let_def split_beta CODE_OPEN_def split: if_splits bind_splits)
  qed
  then obtain c cs' where "cs = c # cs'" by (cases cs) auto
  with cs(1) assms(2) sc show ?thesis by (subst split_chunks.simps) (auto simp: Let_def)
qed

lemma count_sub_absent: "c \<notin> set t \<Longrightarrow> count_sub (c # sub) t = 0"
  by (induction t) (simp_all add: count_sub.simps [of "c # sub" "[]"] count_sub.simps [of "c # sub" "_ # _"])

lemma tg_stream_truncates_witness:
  "\<exists>h k ks s'. rendered demo_style (replicate 1500 CHR ''<'') = Some (h # k # ks)
     \<and> finish_answer (\<lambda>_. Answered) demo_style demo_fs (replicate 1500 CHR ''<'') [] (new_reporter demo_room) = (Inr (), s')
     \<and> map snd (tg_shown s') = [Html ''question'', Html h]"
proof -
  let ?t = "replicate 1500 CHR ''<''" and ?x = "concat (replicate 1500 ''&lt;'')"
  have st: "py_strip ?t = ?t" by (rule strip_by_id) (simp_all add: is_space_def)
  have e: "html_escape True ?t = ?x" by (simp add: html_escape_def escape_char_def map_replicate)
  have l: "length ?x = 6000" by (simp add: length_concat sum_list_replicate)
  have x: "?x = ''&lt;'' @ concat (replicate 1498 ''&lt;'') @ ''&lt;''"
    using replicate_add [of 1 1499 "''&lt;''"] replicate_add [of 1498 1 "''&lt;''"] by simp
  have hd: "hd ?x = CHR ''&''" and last: "last ?x = CHR '';''" unfolding x by simp_all
  have sx: "py_strip ?x = ?x" by (rule strip_by_id) (use l hd last in \<open>auto simp: is_space_def\<close>)
  obtain h k ks where s: "split_chunks TG_MESSAGE_LIMIT ?x = Some (h # k # ks)"
    using split_two [of TG_MESSAGE_LIMIT ?x] l sx by (auto simp: TG_MESSAGE_LIMIT_def)
  have "rendered demo_style ?t = Some (h # k # ks)" using st e sx s by (simp add: demo_rendered)
  with tg_stream_truncates [of "\<lambda>_. Answered" ?t demo_style h k ks demo_fs demo_room] st show ?thesis
    by (auto simp: good_bot_def STREAM_BUBBLE_MAX_def demo_room_def is_space_def has_unclosed_fence_def count_sub_absent)
qed

section \<open>What the reporter leaves in the chat\<close>

datatype report_op =
    RTool int int string
  | RToolDone int int string bool
  | RPartial int string
  | RTick int int int int

definition report_step :: "(nat \<Rightarrow> api_reply) \<Rightarrow> tg_style \<Rightarrow> report_op \<Rightarrow> reporter \<Rightarrow> reporter" where
  "report_step B Y x s =
     (case x of
        RTool now later name \<Rightarrow> snd (note_tool B Y now later name s)
      | RToolDone now later name error \<Rightarrow> snd (mark_tool_done B Y now later name error s)
      | RPartial now text \<Rightarrow> snd (note_partial B Y now text s)
      | RTick period now later acted \<Rightarrow> snd (run_tick B Y period now later acted s))"

definition report_run :: "(nat \<Rightarrow> api_reply) \<Rightarrow> tg_style \<Rightarrow> report_op list \<Rightarrow> reporter \<Rightarrow> reporter" where
  "report_run B Y xs s = fold (report_step B Y) xs s"

definition small_html :: "tg_body \<Rightarrow> bool" where
  "small_html b \<longleftrightarrow> (\<exists>h. b = Html h \<and> length h \<le> TG_MESSAGE_LIMIT)"

text \<open>
  The messages below \<open>lo\<close> were there before and are untouched; of the others each is the status
  message or the stream message.
\<close>

definition tidy :: "nat \<Rightarrow> (nat \<times> tg_body) list \<Rightarrow> reporter \<Rightarrow> bool" where
  "tidy lo old s \<longleftrightarrow>
     filter (\<lambda>(i, _). i < lo) (tg_shown s) = old \<and> distinct (map fst (tg_shown s)) \<and> lo \<le> tg_next s
     \<and> (\<forall>i b. (i, b) \<in> set (tg_shown s) \<longrightarrow> i < tg_next s \<and> (lo \<le> i \<longrightarrow> pg_status s = Some i \<or> pg_stream s = Some i \<and> small_html b))
     \<and> (\<forall>i. pg_status s = Some i \<or> pg_stream s = Some i \<longrightarrow> lo \<le> i \<and> i < tg_next s)
     \<and> (pg_status s = None \<or> pg_status s \<noteq> pg_stream s)"

definition never_lost :: "(nat \<Rightarrow> api_reply) \<Rightarrow> bool" where
  "never_lost B \<longleftrightarrow> (\<forall>n e. B n \<noteq> Lost e)"

lemma tidy_frame:
  assumes "tidy lo old s" "tg_shown s' = tg_shown s" "tg_next s' = tg_next s" "pg_status s' = pg_status s" "pg_stream s' = pg_stream s"
  shows "tidy lo old s'"
  using assms by (simp add: tidy_def)

lemma reply_cases:
  assumes "never_lost B"
  obtains (ok) "api_call B f c = (case f (c\<lparr>tg_calls := Suc (tg_calls c)\<rparr>) of (a, c2) \<Rightarrow> (Inr a, c2))"
    | (refused) e where "api_call B f c = (Inl e, c\<lparr>tg_calls := Suc (tg_calls c)\<rparr>)"
  using assms by (cases "B (tg_calls c)") (auto simp: api_call_def never_lost_def Let_def)

lemma shown_put [simp]: "map (fst \<circ> (\<lambda>(j, x). (j, if j = i then b else x))) xs = map fst xs"
  by (induction xs) auto

lemma filter_put: "(lo :: nat) \<le> i \<Longrightarrow> filter (\<lambda>(j, _). j < lo) (map (\<lambda>(j, x). (j, if j = i then b else x)) xs) = filter (\<lambda>(j, _). j < lo) xs"
  by (induction xs) (auto simp: split_beta)

lemma tidyD:
  assumes "tidy lo old s"
  shows "filter (\<lambda>(i, _). i < lo) (tg_shown s) = old" "distinct (map fst (tg_shown s))" "lo \<le> tg_next s"
    "(i, b) \<in> set (tg_shown s) \<Longrightarrow> i < tg_next s"
    "(i, b) \<in> set (tg_shown s) \<Longrightarrow> lo \<le> i \<Longrightarrow> pg_status s = Some i \<or> pg_stream s = Some i \<and> small_html b"
    "pg_status s = Some i \<or> pg_stream s = Some i \<Longrightarrow> lo \<le> i \<and> i < tg_next s"
    "pg_status s = None \<or> pg_status s \<noteq> pg_stream s"
  using assms unfolding tidy_def by blast+

lemma tidy_put:
  assumes "tidy lo old s" "pg_status s = Some i \<or> pg_stream s = Some i \<and> small_html b"
  shows "tidy lo old (snd (put_body i b s))"
proof -
  note t = tidyD [OF assms(1)]
  have i: "lo \<le> i" using assms(2) t(6) by blast
  have shown: "j < tg_next s \<and> (lo \<le> j \<longrightarrow> pg_status s = Some j \<or> pg_stream s = Some j \<and> small_html x)"
    if "(j, x) \<in> set (tg_shown (snd (put_body i b s)))" for j x
  proof -
    from that obtain x' where "(j, x') \<in> set (tg_shown s)" "x = (if j = i then b else x')" by (auto simp: put_body_def)
    then show ?thesis using t(4) t(5) assms(2) by (cases "j = i") auto
  qed
  then show ?thesis unfolding tidy_def using t(1-3,6,7) filter_put [OF i] by (auto simp: put_body_def)
qed

lemma tidy_post:
  assumes "tidy lo old s"
  shows "pg_status s = None \<Longrightarrow> tidy lo old ((snd (post_body b s))\<lparr>pg_status := Some (tg_next s)\<rparr>)"
    and "pg_stream s = None \<Longrightarrow> small_html b \<Longrightarrow> tidy lo old ((snd (post_body b s))\<lparr>pg_stream := Some (tg_next s)\<rparr>)"
proof -
  note t = tidyD [OF assms]
  let ?n = "tg_next s" and ?p = "snd (post_body b s)"
  have d: "distinct (map fst (tg_shown ?p))" using t(2) by (auto simp: post_body_def dest: t(4))
  have f: "filter (\<lambda>(i, _). i < lo) (tg_shown ?p) = old" using t(1,3) by (simp add: post_body_def)
  have old: "(i, x) \<in> set (tg_shown ?p) \<Longrightarrow> (i, x) \<in> set (tg_shown s) \<or> (i = ?n \<and> x = b)" for i x by (auto simp: post_body_def)
  have fresh: "pg_status s \<noteq> Some ?n" "pg_stream s \<noteq> Some ?n" using t(6) by blast+
  show "tidy lo old (?p\<lparr>pg_status := Some ?n\<rparr>)" if none: "pg_status s = None"
  proof -
    have "i < Suc ?n \<and> (lo \<le> i \<longrightarrow> i = ?n \<or> pg_stream s = Some i \<and> small_html x)" if "(i, x) \<in> set (tg_shown ?p)" for i x
      using old [OF that] t(4) [of i x] t(5) [of i x] none by auto
    then show ?thesis using d f t(3) t(6) fresh none unfolding tidy_def by (auto simp: post_body_def less_SucI)
  qed
  show "tidy lo old (?p\<lparr>pg_stream := Some ?n\<rparr>)" if none: "pg_stream s = None" "small_html b"
  proof -
    have "i < Suc ?n \<and> (lo \<le> i \<longrightarrow> pg_status s = Some i \<or> i = ?n \<and> small_html x)" if "(i, x) \<in> set (tg_shown ?p)" for i x
      using old [OF that] t(4) [of i x] t(5) [of i x] none by auto
    then show ?thesis using d f t(3) t(6) fresh none unfolding tidy_def by (auto simp: post_body_def less_SucI)
  qed
qed

lemma tidy_refresh:
  assumes "never_lost B" "tidy lo old s"
  shows "tidy lo old (snd (refresh_status B Y now later s))"
proof -
  let ?b = "Status (tg_escape (compose_status_text Y (pg_tools s)))"
  let ?m = "case pg_status s of None \<Rightarrow> then_tg (answer B ?b) (\<lambda>i s. (Inr (), s\<lparr>pg_status := Some i\<rparr>)) s | Some i \<Rightarrow> edit_text B i ?b s"
  have "tidy lo old (snd ?m)"
  proof (cases "pg_status s")
    case None
    from assms(1) show ?thesis
      by (cases rule: reply_cases [where f = "post_body ?b" and c = s])
         (use None assms(2) tidy_post(1) [OF tidy_frame [OF assms(2), of "s\<lparr>tg_calls := Suc (tg_calls s)\<rparr>"], of ?b] in
           \<open>auto simp: answer_def then_tg_def post_body_def intro: tidy_frame [OF assms(2)]\<close>)
  next
    case (Some i)
    from assms(1) show ?thesis
      by (cases rule: reply_cases [where f = "put_body i ?b" and c = s])
         (use Some tidy_put [OF tidy_frame [OF assms(2), of "s\<lparr>tg_calls := Suc (tg_calls s)\<rparr>"], of i ?b] in
           \<open>auto simp: edit_text_def put_body_def intro: tidy_frame [OF assms(2)]\<close>)
  qed
  then show ?thesis using assms(2)
    by (auto simp: refresh_status_def Let_def split_beta intro: tidy_frame split: sum.splits tg_exn.splits prod.splits)
qed

lemma tidy_draft:
  assumes "never_lost B" "tidy lo old s"
  shows "tidy lo old (snd (render_draft B Y now s))"
  using assms(1)
  by (cases rule: reply_cases [where f = "\<lambda>c. ((), c\<lparr>tg_draft := drop (length (compose_draft_text Y (pg_tools s)) - DRAFT_TEXT_MAX)
        (compose_draft_text Y (pg_tools s))\<rparr>)" and c = s])
     (auto simp: render_draft_def Let_def assms(2) intro!: tidy_frame [OF assms(2)] split: if_splits)

lemma tidy_then:
  assumes "tidy lo old (snd (m s))" "\<And>a s'. tidy lo old s' \<Longrightarrow> tidy lo old (snd (f a s'))"
  shows "tidy lo old (snd (then_tg m f s))"
  using assms by (auto simp: then_tg_def split: prod.splits sum.splits)

lemma piece_small:
  assumes "rendered Y v = Some (h # hs)"
  shows "small_html (Html h)"
proof -
  from assms obtain r where "split_chunks TG_MESSAGE_LIMIT (py_strip r) = Some (h # hs)"
    by (auto simp: render_html_def split: if_splits bind_splits)
  moreover obtain cs parts where "split_chunks TG_MESSAGE_LIMIT (py_strip r) = Some cs" "\<forall>c \<in> set cs. length c \<le> TG_MESSAGE_LIMIT"
    using split_framed [of TG_MESSAGE_LIMIT "[]" "py_strip r"] strip_starts_inked [of r] by (auto simp: TG_MESSAGE_LIMIT_def)
  ultimately show ?thesis by (auto simp: small_html_def)
qed

lemma tidy_upsert:
  assumes "never_lost B" "tidy lo old s"
  shows "tidy lo old (snd (upsert_stream_message B Y v s))"
proof (cases "\<exists>h hs. rendered Y v = Some (h # hs)")
  case False
  with assms(2) show ?thesis by (auto simp: upsert_stream_message_def split: option.splits list.splits)
next
  case True
  then obtain h hs where r: "rendered Y v = Some (h # hs)" by blast
  note small = piece_small [OF r]
  let ?s = "s\<lparr>tg_calls := Suc (tg_calls s)\<rparr>"
  have t: "tidy lo old ?s" by (rule tidy_frame [OF assms(2)]) simp_all
  show ?thesis
  proof (cases "pg_stream s")
    case None
    from assms(1) show ?thesis
      by (cases rule: reply_cases [where f = "post_body (Html h)" and c = s])
         (use None r t small tidy_post(2) [OF t, of "Html h"] in
           \<open>auto simp: upsert_stream_message_def answer_def then_tg_def post_body_def\<close>)
  next
    case (Some i)
    from assms(1) show ?thesis
      by (cases rule: reply_cases [where f = "put_body i (Html h)" and c = s])
         (use Some r t small tidy_put [OF t, of i "Html h"] in \<open>auto simp: upsert_stream_message_def edit_text_def put_body_def\<close>)
  qed
qed

lemma tidy_partial:
  assumes "never_lost B" "tidy lo old s"
  shows "tidy lo old (snd (note_partial B Y now text s))"
proof -
  let ?v = "py_strip (stream_window text)"
  obtain r s1 where u: "upsert_stream_message B Y ?v s = (r, s1)" by fastforce
  have t: "tidy lo old s1" using tidy_upsert [OF assms, of Y ?v] u by simp
  then have "tidy lo old (s1\<lparr>pg_stream_text := ?v, pg_throttle_at := now\<rparr>)" by (rule tidy_frame) simp_all
  with t assms(2) u show ?thesis by (auto simp: note_partial_def Let_def split: sum.splits)
qed

lemma tidy_tick:
  assumes "never_lost B" "tidy lo old s"
  shows "tidy lo old (snd (run_tick B Y period now later acted s))"
  unfolding run_tick_def
proof (rule tidy_then, rule tidy_refresh [OF assms])
  fix u s'
  assume t: "tidy lo old s'"
  from assms(1) have "tidy lo old (snd (api_call B (\<lambda>c. ((), c\<lparr>tg_actions := Suc (tg_actions c)\<rparr>)) s'))"
    by (cases rule: reply_cases [where f = "\<lambda>c. ((), c\<lparr>tg_actions := Suc (tg_actions c)\<rparr>)" and c = s'])
       (auto intro!: tidy_frame [OF t])
  with t show "tidy lo old (snd (if later - acted < period then (Inr acted, s')
      else case api_call B (\<lambda>c. ((), c\<lparr>tg_actions := Suc (tg_actions c)\<rparr>)) s' of (_, s1) \<Rightarrow> (Inr later, s1)))"
    by (simp add: split_beta)
qed

lemma tidy_step:
  assumes "never_lost B" "tidy lo old s"
  shows "tidy lo old (report_step B Y x s)"
proof -
  have tools: "tidy lo old (s\<lparr>pg_tools := ts\<rparr>)" for ts by (rule tidy_frame [OF assms(2)]) simp_all
  show ?thesis
    by (cases x) (auto simp: report_step_def note_tool_def mark_tool_done_def intro!: tidy_then tidy_refresh tidy_draft tidy_partial tidy_tick assms tools)
qed

lemma tidy_run: "never_lost B \<Longrightarrow> tidy lo old s \<Longrightarrow> tidy lo old (report_run B Y xs s)"
  unfolding report_run_def by (induction xs arbitrary: s) (auto intro: tidy_step)

lemma tidy_start:
  assumes "distinct (map fst (tg_shown c))" "\<forall>m \<in> set (tg_shown c). fst m < tg_next c"
  shows "tidy (tg_next c) (tg_shown c) (new_reporter c)"
proof -
  have "filter (\<lambda>(i, _). i < tg_next c) (tg_shown c) = tg_shown c"
    using assms(2) by (simp add: filter_id_conv split_beta)
  with assms show ?thesis by (fastforce simp: tidy_def new_reporter_def tg_chat.defs reporter.defs)
qed

lemma tidy_stop:
  assumes "tidy lo old s" "B (tg_calls s) = Answered"
  shows "\<exists>own. filter (\<lambda>(i, _). i < lo) (tg_shown (stop_reporter B s)) = old
    \<and> filter (\<lambda>(i, _). \<not> i < lo) (tg_shown (stop_reporter B s)) = own \<and> length own \<le> 1 \<and> (\<forall>m \<in> set own. small_html (snd m))"
proof -
  note t = tidyD [OF assms(1)]
  let ?shown = "tg_shown (stop_reporter B s)" and ?own = "filter (\<lambda>(i, _). \<not> i < lo) (tg_shown (stop_reporter B s))"
  have sh: "?shown = filter (\<lambda>(i, _). pg_status s \<noteq> Some i) (tg_shown s)"
    using assms(2) by (auto simp: stop_reporter_def delete_msg_def api_call_def drop_body_def intro!: filter_cong split: option.splits)
  have f: "filter (\<lambda>(i, _). i < lo) ?shown = old"
    unfolding sh t(1) [symmetric] filter_filter by (rule filter_cong) (use t(6) in \<open>auto simp: not_le [symmetric]\<close>)
  have own: "pg_stream s = Some i \<and> small_html b" if "(i, b) \<in> set ?own" for i b
    using that t(5) [of i b] unfolding sh by auto
  have "distinct (map fst ?own)" unfolding sh by (intro distinct_map_filter t(2))
  moreover have "set (map fst ?own) \<subseteq> {the (pg_stream s)}" using own by fastforce
  ultimately have "length (map fst ?own) \<le> 1" by (metis card_mono card.empty card.insert distinct_card empty_iff finite.simps finite_insert One_nat_def)
  with f own show ?thesis by auto
qed

text \<open>
  Whatever the turn reports, in any order and with any calls refused, the reporter changes no
  message that was there before, and after it stops at most one message of its own is left, the
  streamed text, within Telegram's limit.
\<close>

theorem reporter_leaves_one_message:
  assumes "never_lost B" "distinct (map fst (tg_shown c))" "\<forall>m \<in> set (tg_shown c). fst m < tg_next c"
    and "B (tg_calls (report_run B Y xs (new_reporter c))) = Answered"
  shows "\<exists>own. filter (\<lambda>(i, _). i < tg_next c) (tg_shown (stop_reporter B (report_run B Y xs (new_reporter c)))) = tg_shown c
    \<and> filter (\<lambda>(i, _). \<not> i < tg_next c) (tg_shown (stop_reporter B (report_run B Y xs (new_reporter c)))) = own
    \<and> length own \<le> 1 \<and> (\<forall>m \<in> set own. \<exists>h. snd m = Html h \<and> length h \<le> TG_MESSAGE_LIMIT)"
  using tidy_stop [of "tg_next c" "tg_shown c" "report_run B Y xs (new_reporter c)" B, OF tidy_run [OF assms(1) tidy_start [OF assms(2,3)]] assms(4)]
  by (simp add: small_html_def)

definition demo_ops :: "report_op list" where
  "demo_ops = [RTick 4000000 5000000 5000000 0, RTool 6000000 6000000 ''shell'', RPartial 7000000 ''a<b'', RToolDone 8000000 8000000 ''shell'' False]"

lemma reporter_leaves_one_message_witness:
  "\<exists>own. filter (\<lambda>(i, _). i < 2) (tg_shown (stop_reporter (\<lambda>_. Answered) (report_run (\<lambda>_. Answered) demo_style demo_ops (new_reporter demo_room))))
       = [(1, Html ''question'')]
    \<and> filter (\<lambda>(i, _). \<not> i < 2) (tg_shown (stop_reporter (\<lambda>_. Answered) (report_run (\<lambda>_. Answered) demo_style demo_ops (new_reporter demo_room)))) = own
    \<and> length own \<le> 1 \<and> (\<forall>m \<in> set own. \<exists>h. snd m = Html h \<and> length h \<le> TG_MESSAGE_LIMIT)"
  using reporter_leaves_one_message [of "\<lambda>_. Answered" demo_room demo_style demo_ops] by (simp add: never_lost_def demo_room_def)

end
