(* ===== verification/Accounts.thy ===== *)
theory Accounts
  imports Codex_Session
begin

text \<open>
  Who may use the program: users (\<open>services/users/service.py\<close>), invites
  (\<open>services/invites/service.py\<close>), the counter of failed logins
  (\<open>services/auth/throttle.py\<close>), passwords and session tokens (\<open>services/auth/service.py\<close>,
  \<open>services/auth/cookie.py\<close>) and the handlers of \<open>rpc/auth.py\<close> and \<open>rpc/_auth.py\<close>. The
  tables, Redis, the password hasher, the token library and the mail address validator are
  parameters.
\<close>

section \<open>Users\<close>

datatype user_role = ROLE_USER | ROLE_ADMIN

record user_row =
  u_id :: int
  u_tg :: "int option"
  u_email :: "string option"
  u_hash :: "string option"
  u_name :: "string option"
  u_tgname :: "string option"
  u_role :: user_role

text \<open>The unique columns: no two users with the same address or the same Telegram id.\<close>

definition users_unique :: "(int \<Rightarrow> user_row option) \<Rightarrow> bool" where
  "users_unique m \<longleftrightarrow> (\<forall>i j r s. m i = Some r \<longrightarrow> m j = Some s \<longrightarrow>
     (u_email r \<noteq> None \<and> u_email r = u_email s) \<or> (u_tg r \<noteq> None \<and> u_tg r = u_tg s) \<longrightarrow> i = j)"

definition one_or_none :: "'a list \<Rightarrow> 'a option" where
  "one_or_none rows = (case rows of [] \<Rightarrow> None | r # _ \<Rightarrow> Some r)"

lemma one_or_none_mem: "one_or_none xs = Some x \<Longrightarrow> x \<in> set xs"
  by (auto simp: one_or_none_def split: list.splits)

definition get_user :: "(user_row, 'u) table \<Rightarrow> int \<Rightarrow> 'u \<Rightarrow> user_row option" where
  "get_user U user_id d = tb_view U d user_id"

definition list_all_users :: "(user_row, 'u) table \<Rightarrow> 'u \<Rightarrow> user_row list" where
  "list_all_users U d = sort_key u_id (tb_select U (\<lambda>_. True) d)"

definition get_by_email :: "(user_row, 'u) table \<Rightarrow> string \<Rightarrow> 'u \<Rightarrow> user_row option" where
  "get_by_email U email d = one_or_none (tb_select U (\<lambda>r. u_email r = Some email) d)"

definition new_user :: "int option \<Rightarrow> string option \<Rightarrow> string option \<Rightarrow> user_role \<Rightarrow> int \<Rightarrow> user_row" where
  "new_user tg email name role k = \<lparr>u_id = k, u_tg = tg, u_email = email, u_hash = None, u_name = name,
     u_tgname = None, u_role = role\<rparr>"

text \<open>\<open>None\<close> is an exception: the IntegrityError of the insert, or no row for \<open>scalar_one\<close>.\<close>

definition get_or_create_by_tg ::
  "(user_row, 'u) table \<Rightarrow> int list \<Rightarrow> int \<Rightarrow> string option \<Rightarrow> 'u \<Rightarrow> (user_row \<times> 'u) option" where
  "get_or_create_by_tg U admin_ids tg name d =
     (case one_or_none (tb_select U (\<lambda>r. u_tg r = Some tg) d) of
        None \<Rightarrow> tb_insert U (new_user (Some tg) None name (if tg \<in> set admin_ids then ROLE_ADMIN else ROLE_USER)) d
      | Some r \<Rightarrow>
          if opt_truthy name \<and> u_name r \<noteq> name
          then Some (r\<lparr>u_name := name\<rparr>, snd (tb_update U (\<lambda>x. u_id x = u_id r) (\<lambda>x. x\<lparr>u_name := name\<rparr>) d))
          else Some (r, d))"

definition get_or_create_by_email ::
  "(user_row, 'u) table \<Rightarrow> string \<Rightarrow> string option \<Rightarrow> 'u \<Rightarrow> (user_row \<times> 'u) option" where
  "get_or_create_by_email U email name d =
     (case tb_insert U (new_user None (Some email) name ROLE_USER) d of
        Some (r, d') \<Rightarrow> Some (r, d')
      | None \<Rightarrow> map_option (\<lambda>r. (r, d)) (get_by_email U email d))"

definition set_password_hash :: "(user_row, 'u) table \<Rightarrow> int \<Rightarrow> string \<Rightarrow> 'u \<Rightarrow> 'u" where
  "set_password_hash U i h d = snd (tb_update U (\<lambda>r. u_id r = i) (\<lambda>r. r\<lparr>u_hash := Some h\<rparr>) d)"

definition sync_admin_roles :: "(user_row, 'u) table \<Rightarrow> int list \<Rightarrow> 'u \<Rightarrow> (nat \<times> nat) \<times> 'u" where
  "sync_admin_roles U admin_ids d =
     (let (promoted, d1) = (if admin_ids = [] then (0, d)
            else tb_update U (\<lambda>r. (\<exists>i \<in> set admin_ids. u_tg r = Some i) \<and> u_role r = ROLE_USER) (\<lambda>r. r\<lparr>u_role := ROLE_ADMIN\<rparr>) d);
          (demoted, d2) = tb_update U (\<lambda>r. u_tg r \<noteq> None \<and> u_email r = None \<and> u_role r = ROLE_ADMIN
              \<and> (admin_ids = [] \<or> \<not> (\<exists>i \<in> set admin_ids. u_tg r = Some i))) (\<lambda>r. r\<lparr>u_role := ROLE_USER\<rparr>) d1
      in ((promoted, demoted), d2))"

section \<open>Invites\<close>

record invite_row =
  iv_id :: int
  iv_token :: string
  iv_by :: int
  iv_created :: int
  iv_expires :: int
  iv_used :: "int option"
  iv_used_by :: "int option"

definition tokens_unique :: "(int \<Rightarrow> invite_row option) \<Rightarrow> bool" where
  "tokens_unique m \<longleftrightarrow> (\<forall>i j r s. m i = Some r \<longrightarrow> m j = Some s \<longrightarrow> iv_token r = iv_token s \<longrightarrow> i = j)"

definition DEFAULT_TTL_DAYS :: int where
  "DEFAULT_TTL_DAYS = 7"

definition MAX_TTL_DAYS :: int where
  "MAX_TTL_DAYS = 30"

text \<open>Times are seconds; \<open>token\<close> is what \<open>secrets.token_urlsafe\<close> returned.\<close>

definition create_invite ::
  "(invite_row, 'v) table \<Rightarrow> string \<Rightarrow> int \<Rightarrow> int \<Rightarrow> int \<Rightarrow> 'v \<Rightarrow> (invite_row \<times> 'v) option" where
  "create_invite V token creator ttl_days now d =
     (let days = (if 0 < ttl_days \<and> ttl_days \<le> MAX_TTL_DAYS then ttl_days else DEFAULT_TTL_DAYS) in
      tb_insert V (\<lambda>k. \<lparr>iv_id = k, iv_token = token, iv_by = creator, iv_created = now, iv_expires = now + days * 86400,
        iv_used = None, iv_used_by = None\<rparr>) d)"

definition get_by_token :: "(invite_row, 'v) table \<Rightarrow> string \<Rightarrow> 'v \<Rightarrow> invite_row option" where
  "get_by_token V token d = one_or_none (tb_select V (\<lambda>r. iv_token r = token) d)"

datatype invite_error = InviteNotFound | InviteUsed | InviteExpired

definition redeem ::
  "(invite_row, 'v) table \<Rightarrow> string \<Rightarrow> int \<Rightarrow> int \<Rightarrow> 'v \<Rightarrow> invite_error + (invite_row \<times> 'v)" where
  "redeem V token user_id now d =
     (case get_by_token V token d of
        None \<Rightarrow> Inl InviteNotFound
      | Some r \<Rightarrow>
          if iv_used r \<noteq> None then Inl InviteUsed
          else if iv_expires r \<le> now then Inl InviteExpired
          else let f = (\<lambda>x. x\<lparr>iv_used := Some now, iv_used_by := Some user_id\<rparr>) in
            Inr (f r, snd (tb_update V (\<lambda>x. iv_id x = iv_id r) f d)))"

definition list_active :: "(invite_row, 'v) table \<Rightarrow> int \<Rightarrow> 'v \<Rightarrow> invite_row list" where
  "list_active V now d = sort_key (\<lambda>r. - iv_created r) (tb_select V (\<lambda>r. iv_used r = None \<and> now < iv_expires r) d)"

definition list_all_invites :: "(invite_row, 'v) table \<Rightarrow> 'v \<Rightarrow> invite_row list" where
  "list_all_invites V d = sort_key (\<lambda>r. - iv_created r) (tb_select V (\<lambda>_. True) d)"

definition revoke :: "(invite_row, 'v) table \<Rightarrow> int \<Rightarrow> 'v \<Rightarrow> bool \<times> 'v" where
  "revoke V i d =
     (case tb_view V d i of
        None \<Rightarrow> (False, d)
      | Some r \<Rightarrow> if iv_used r \<noteq> None then (False, d) else (True, snd (tb_delete V (\<lambda>x. iv_id x = i) d)))"

section \<open>Failed logins\<close>

definition bf_key :: "string \<Rightarrow> string" where
  "bf_key ip = ''auth:bf:'' @ ip"

definition MAX_ATTEMPTS :: int where
  "MAX_ATTEMPTS = 5"

definition WINDOW_S :: nat where
  "WINDOW_S = 15 * 60"

definition LOCKOUT_S :: nat where
  "LOCKOUT_S = 15 * 60"

datatype throttle_result = Passed | LoginThrottled | BadCounter

definition throttle_check :: "('s, 'x) redis_scheme \<Rightarrow> fault \<Rightarrow> string option \<Rightarrow> 's \<Rightarrow> throttle_result \<times> 's" where
  "throttle_check R f ip s =
     (if \<not> opt_truthy ip then (Passed, s)
      else case call f (rd_get R (bf_key (the ip))) s of
        (None, s') \<Rightarrow> (Passed, s')
      | (Some None, s') \<Rightarrow> (Passed, s')
      | (Some (Some attempts), s') \<Rightarrow>
          (case py_int attempts of
             None \<Rightarrow> (BadCounter, s')
           | Some n \<Rightarrow> (if MAX_ATTEMPTS \<le> n then LoginThrottled else Passed, s')))"

definition register_failure :: "('s, 'x) redis_scheme \<Rightarrow> fault \<Rightarrow> fault \<Rightarrow> string option \<Rightarrow> 's \<Rightarrow> 's" where
  "register_failure R f g ip s =
     (if \<not> opt_truthy ip then s
      else let key = bf_key (the ip) in
        case call f (rd_incrby R key 1) s of
          (None, s') \<Rightarrow> s'
        | (Some count, s') \<Rightarrow>
            if count = 1 then snd (call g (rd_expire R key WINDOW_S) s')
            else if MAX_ATTEMPTS \<le> count then snd (call g (rd_expire R key LOCKOUT_S) s')
            else s')"

definition clear :: "('s, 'x) redis_scheme \<Rightarrow> fault \<Rightarrow> string option \<Rightarrow> 's \<Rightarrow> 's" where
  "clear R f ip s = (if \<not> opt_truthy ip then s else snd (call f (rd_del R (bf_key (the ip))) s))"

section \<open>Passwords and session tokens\<close>

text \<open>
  The libraries: Argon2 (\<open>cr_verify\<close> is \<open>Some False\<close> for a mismatch or an invalid hash and
  \<open>None\<close> for any other exception) and PyJWT, which signs a payload and gives it back as long
  as the signature holds and the time is before \<open>exp\<close>.
\<close>

record crypto =
  cr_hash :: "string \<Rightarrow> string"
  cr_verify :: "string \<Rightarrow> string \<Rightarrow> bool option"
  cr_rehash :: "string \<Rightarrow> bool"
  cr_encode :: "string \<Rightarrow> json \<Rightarrow> string"
  cr_decode :: "string \<Rightarrow> int \<Rightarrow> string \<Rightarrow> json option"

record auth_cfg =
  au_secret :: string
  au_ttl_hours :: int
  au_secure :: bool
  au_admin_email :: string

definition verify_password :: "crypto \<Rightarrow> string \<Rightarrow> string option \<Rightarrow> bool option" where
  "verify_password C plain stored = (if \<not> opt_truthy stored then Some False else cr_verify C (the stored) plain)"

definition needs_rehash :: "crypto \<Rightarrow> string option \<Rightarrow> bool" where
  "needs_rehash C stored \<longleftrightarrow> opt_truthy stored \<and> cr_rehash C (the stored)"

definition issue_token :: "crypto \<Rightarrow> auth_cfg \<Rightarrow> int \<Rightarrow> string \<Rightarrow> string \<times> int" where
  "issue_token C A now subject =
     (let ttl = au_ttl_hours A * 3600 in
      (cr_encode C (au_secret A) (JObj [(''sub'', JStr subject), (''iat'', JInt now), (''exp'', JInt (now + ttl))]), ttl))"

datatype token_error = InvalidToken

definition validate_token :: "crypto \<Rightarrow> auth_cfg \<Rightarrow> int \<Rightarrow> string \<Rightarrow> token_error + string" where
  "validate_token C A now raw =
     (case cr_decode C (au_secret A) now raw of
        Some (JObj kv) \<Rightarrow>
          (case map_of kv ''sub'' of
             Some (JStr sub) \<Rightarrow> if sub = [] then Inl InvalidToken else Inr sub
           | _ \<Rightarrow> Inl InvalidToken)
      | _ \<Rightarrow> Inl InvalidToken)"

definition JWT_COOKIE_NAME :: string where
  "JWT_COOKIE_NAME = ''codex_jwt''"

definition build_set_cookie :: "auth_cfg \<Rightarrow> string \<Rightarrow> int \<Rightarrow> string" where
  "build_set_cookie A token ttl = join_with ''; ''
     ([JWT_COOKIE_NAME @ ''='' @ token, ''HttpOnly'', ''SameSite=Lax'', ''Path=/api'', ''Max-Age='' @ str_of_int ttl]
      @ (if au_secure A then [''Secure''] else []))"

definition build_clear_cookie :: "auth_cfg \<Rightarrow> string" where
  "build_clear_cookie A = join_with ''; ''
     ([JWT_COOKIE_NAME @ ''='', ''HttpOnly'', ''SameSite=Lax'', ''Path=/api'', ''Max-Age=0'']
      @ (if au_secure A then [''Secure''] else []))"

section \<open>The handlers\<close>

datatype rpc_code = RESOURCE_EXHAUSTED | UNAUTHENTICATED | INVALID_ARGUMENT | ALREADY_EXISTS | RPC_NOT_FOUND
  | FAILED_PRECONDITION | PERMISSION_DENIED | RPC_INTERNAL | RPC_UNAVAILABLE

text \<open>A session: the token, its life time and the \<open>Set-Cookie\<close> header of the answer.\<close>

record login_response =
  lr_token :: string
  lr_expires :: int
  lr_cookie :: string

record ('s, 'u, 'v) accounts =
  ac_redis :: 's
  ac_users :: 'u
  ac_invites :: 'v

text \<open>What a request meets: the caller's address, the clock, and the fate of each Redis command.\<close>

record auth_env =
  ae_addr :: "string option"
  ae_now :: int
  ae_check :: fault
  ae_incr :: fault
  ae_expire :: fault
  ae_clear :: fault

text \<open>\<open>addr.rsplit(':', 1)[0] or addr\<close>\<close>

definition client_ip :: "string option \<Rightarrow> string option" where
  "client_ip addr =
     (case addr of
        None \<Rightarrow> None
      | Some a \<Rightarrow>
          if a = [] then None
          else if CHR '':'' \<notin> set a then Some a
          else let ip = rev (tl (dropWhile (\<lambda>c. c \<noteq> CHR '':'') (rev a))) in Some (if ip = [] then a else ip))"

definition session_for :: "crypto \<Rightarrow> auth_cfg \<Rightarrow> int \<Rightarrow> string \<Rightarrow> login_response" where
  "session_for C A now subject =
     (let (token, ttl) = issue_token C A now subject in
      \<lparr>lr_token = token, lr_expires = ttl, lr_cookie = build_set_cookie A token ttl\<rparr>)"

definition py_lower :: "string \<Rightarrow> string" where
  "py_lower s = map lower_char s"

definition login ::
  "('s, 'x) redis_scheme \<Rightarrow> (user_row, 'u) table \<Rightarrow> crypto \<Rightarrow> auth_cfg \<Rightarrow> auth_env \<Rightarrow> string \<Rightarrow> string \<Rightarrow>
     ('s, 'u, 'v) accounts \<Rightarrow> (rpc_code + login_response) \<times> ('s, 'u, 'v) accounts" where
  "login R U C A e email password st =
     (let ip = client_ip (ae_addr e) in
      case throttle_check R (ae_check e) ip (ac_redis st) of
        (LoginThrottled, s) \<Rightarrow> (Inl RESOURCE_EXHAUSTED, st\<lparr>ac_redis := s\<rparr>)
      | (BadCounter, s) \<Rightarrow> (Inl RPC_INTERNAL, st\<lparr>ac_redis := s\<rparr>)
      | (Passed, s) \<Rightarrow>
          let email = py_lower (py_strip email);
              refused = (Inl UNAUTHENTICATED, st\<lparr>ac_redis := register_failure R (ae_incr e) (ae_expire e) ip s\<rparr>)
          in case get_by_email U email (ac_users st) of
               None \<Rightarrow> refused
             | Some user \<Rightarrow>
                 (case verify_password C password (u_hash user) of
                    None \<Rightarrow> (Inl RPC_INTERNAL, st\<lparr>ac_redis := s\<rparr>)
                  | Some False \<Rightarrow> refused
                  | Some True \<Rightarrow>
                      let d = (if needs_rehash C (u_hash user)
                               then set_password_hash U (u_id user) (cr_hash C password) (ac_users st) else ac_users st)
                      in (Inr (session_for C A (ae_now e) email),
                          st\<lparr>ac_redis := clear R (ae_clear e) ip s, ac_users := d\<rparr>)))"

record register_request =
  rq_email :: string
  rq_password :: string
  rq_invite :: string
  rq_name :: string

definition invite_code :: "invite_error \<Rightarrow> rpc_code" where
  "invite_code e = (case e of InviteNotFound \<Rightarrow> RPC_NOT_FOUND | InviteUsed \<Rightarrow> FAILED_PRECONDITION | InviteExpired \<Rightarrow> FAILED_PRECONDITION)"

definition none_if_empty :: "string \<Rightarrow> string option" where
  "none_if_empty s = (if s = [] then None else Some s)"

definition is_admin_email :: "auth_cfg \<Rightarrow> string \<Rightarrow> bool" where
  "is_admin_email A email \<longleftrightarrow> email = py_lower (py_strip (au_admin_email A)) \<and> email \<noteq> []"

text \<open>The flush writes the role, the name and the hash of the user in one UPDATE.\<close>

definition fill_user :: "user_role \<Rightarrow> string option \<Rightarrow> string \<Rightarrow> user_row \<Rightarrow> user_row" where
  "fill_user role name h r = r\<lparr>u_role := role, u_hash := Some h,
     u_name := (if name \<noteq> None \<and> \<not> opt_truthy (u_name r) then name else u_name r)\<rparr>"

text \<open>
  The transaction of \<open>register\<close>; \<open>Inl\<close> leaves it without a commit. \<open>True\<close> beside the code
  is a failure that counts against the caller's address.
\<close>

definition enrol ::
  "(user_row, 'u) table \<Rightarrow> (invite_row, 'v) table \<Rightarrow> crypto \<Rightarrow> bool \<Rightarrow> int \<Rightarrow> string \<Rightarrow> string \<Rightarrow> string option \<Rightarrow>
     user_row \<Rightarrow> 'u \<Rightarrow> 'v \<Rightarrow> (rpc_code \<times> bool) + ('u \<times> 'v)" where
  "enrol U V C bypass now password token name r du dv =
     (let fill = (\<lambda>role. snd (tb_update U (\<lambda>x. u_id x = u_id r) (fill_user role name (cr_hash C password)) du)) in
      if bypass then Inr (fill ROLE_ADMIN, dv)
      else case redeem V token (u_id r) now dv of
        Inl err \<Rightarrow> Inl (invite_code err, False)
      | Inr (_, dv') \<Rightarrow> Inr (fill ROLE_USER, dv'))"

definition register_tx ::
  "(user_row, 'u) table \<Rightarrow> (invite_row, 'v) table \<Rightarrow> crypto \<Rightarrow> bool \<Rightarrow> int \<Rightarrow> string \<Rightarrow> string \<Rightarrow> string \<Rightarrow>
     string option \<Rightarrow> 'u \<Rightarrow> 'v \<Rightarrow> (rpc_code \<times> bool) + ('u \<times> 'v)" where
  "register_tx U V C bypass now email password token name du dv =
     (case get_by_email U email du of
        Some r \<Rightarrow>
          if opt_truthy (u_hash r) then Inl (ALREADY_EXISTS, True)
          else enrol U V C bypass now password token name r du dv
      | None \<Rightarrow>
          (case get_or_create_by_email U email name du of
             None \<Rightarrow> Inl (RPC_INTERNAL, False)
           | Some (r, d1) \<Rightarrow> enrol U V C bypass now password token name r d1 dv))"

definition register ::
  "('s, 'x) redis_scheme \<Rightarrow> (user_row, 'u) table \<Rightarrow> (invite_row, 'v) table \<Rightarrow> crypto \<Rightarrow> auth_cfg \<Rightarrow>
     (string \<Rightarrow> string option) \<Rightarrow> auth_env \<Rightarrow> register_request \<Rightarrow>
     ('s, 'u, 'v) accounts \<Rightarrow> (rpc_code + login_response) \<times> ('s, 'u, 'v) accounts" where
  "register R U V C A valid_email e q st =
     (let ip = client_ip (ae_addr e) in
      case throttle_check R (ae_check e) ip (ac_redis st) of
        (LoginThrottled, s) \<Rightarrow> (Inl RESOURCE_EXHAUSTED, st\<lparr>ac_redis := s\<rparr>)
      | (BadCounter, s) \<Rightarrow> (Inl RPC_INTERNAL, st\<lparr>ac_redis := s\<rparr>)
      | (Passed, s) \<Rightarrow>
          (case valid_email (py_lower (py_strip (rq_email q))) of
             None \<Rightarrow> (Inl INVALID_ARGUMENT, st\<lparr>ac_redis := s\<rparr>)
           | Some email \<Rightarrow>
               let bypass = is_admin_email A email; token = py_strip (rq_invite q) in
               if length (rq_password q) < 8 \<or> (\<not> bypass \<and> token = []) then (Inl INVALID_ARGUMENT, st\<lparr>ac_redis := s\<rparr>)
               else case register_tx U V C bypass (ae_now e) email (rq_password q) token
                      (none_if_empty (py_strip (rq_name q))) (ac_users st) (ac_invites st) of
                 Inl (code, counts) \<Rightarrow>
                   (Inl code, st\<lparr>ac_redis := if counts then register_failure R (ae_incr e) (ae_expire e) ip s else s\<rparr>)
               | Inr (du, dv) \<Rightarrow>
                   (Inr (session_for C A (ae_now e) email),
                    st\<lparr>ac_redis := clear R (ae_clear e) ip s, ac_users := du, ac_invites := dv\<rparr>)))"

text \<open>\<open>cookie\<close> is the value \<open>read_jwt\<close> finds in the request's Cookie header.\<close>

definition jwt_subject :: "crypto \<Rightarrow> auth_cfg \<Rightarrow> int \<Rightarrow> string option \<Rightarrow> rpc_code + string" where
  "jwt_subject C A now cookie =
     (case cookie of
        None \<Rightarrow> Inl UNAUTHENTICATED
      | Some token \<Rightarrow> (case validate_token C A now token of Inl _ \<Rightarrow> Inl UNAUTHENTICATED | Inr sub \<Rightarrow> Inr sub))"

definition require_user ::
  "(user_row, 'u) table \<Rightarrow> crypto \<Rightarrow> auth_cfg \<Rightarrow> int \<Rightarrow> string option \<Rightarrow> 'u \<Rightarrow> rpc_code + user_row" where
  "require_user U C A now cookie d =
     (case jwt_subject C A now cookie of
        Inl code \<Rightarrow> Inl code
      | Inr email \<Rightarrow> (case get_by_email U email d of None \<Rightarrow> Inl UNAUTHENTICATED | Some user \<Rightarrow> Inr user))"

definition require_admin ::
  "(user_row, 'u) table \<Rightarrow> crypto \<Rightarrow> auth_cfg \<Rightarrow> int \<Rightarrow> string option \<Rightarrow> 'u \<Rightarrow> rpc_code + user_row" where
  "require_admin U C A now cookie d =
     (case require_user U C A now cookie d of
        Inl code \<Rightarrow> Inl code
      | Inr user \<Rightarrow> if u_role user \<noteq> ROLE_ADMIN then Inl PERMISSION_DENIED else Inr user)"

definition refresh_session :: "crypto \<Rightarrow> auth_cfg \<Rightarrow> int \<Rightarrow> string option \<Rightarrow> rpc_code + login_response" where
  "refresh_session C A now cookie =
     (case jwt_subject C A now cookie of Inl code \<Rightarrow> Inl code | Inr sub \<Rightarrow> Inr (session_for C A now sub))"

definition logout :: "auth_cfg \<Rightarrow> string" where
  "logout A = build_clear_cookie A"

section \<open>The tables\<close>

lemma users_unique_cong:
  assumes "users_unique m"
    and "\<And>k r'. m' k = Some r' \<Longrightarrow> \<exists>r. m k = Some r \<and> u_email r = u_email r' \<and> u_tg r = u_tg r'"
  shows "users_unique m'"
  unfolding users_unique_def
proof (intro allI impI)
  fix i j r s
  assume v: "m' i = Some r" "m' j = Some s"
    and eq: "(u_email r \<noteq> None \<and> u_email r = u_email s) \<or> (u_tg r \<noteq> None \<and> u_tg r = u_tg s)"
  from assms(2) [OF v(1)] obtain r0 where r: "m i = Some r0" "u_email r0 = u_email r" "u_tg r0 = u_tg r" by blast
  from assms(2) [OF v(2)] obtain s0 where s: "m j = Some s0" "u_email s0 = u_email s" "u_tg s0 = u_tg s" by blast
  from eq have "(u_email r0 \<noteq> None \<and> u_email r0 = u_email s0) \<or> (u_tg r0 \<noteq> None \<and> u_tg r0 = u_tg s0)"
    by (simp add: r s)
  with assms(1) r(1) s(1) show "i = j" unfolding users_unique_def by blast
qed

lemma tokens_unique_cong:
  assumes "tokens_unique m" "\<And>k r'. m' k = Some r' \<Longrightarrow> \<exists>r. m k = Some r \<and> iv_token r = iv_token r'"
  shows "tokens_unique m'"
  unfolding tokens_unique_def
proof (intro allI impI)
  fix i j r s
  assume v: "m' i = Some r" "m' j = Some s" and eq: "iv_token r = iv_token s"
  from assms(2) [OF v(1)] obtain r0 where r: "m i = Some r0" "iv_token r0 = iv_token r" by blast
  from assms(2) [OF v(2)] obtain s0 where s: "m j = Some s0" "iv_token s0 = iv_token s" by blast
  from assms(1) r(1) s(1) show "i = j" unfolding tokens_unique_def using eq r(2) s(2) by metis
qed

locale user_table = table_laws U u_id users_unique okU
  for U :: "(user_row, 'u) table" and okU :: "'u \<Rightarrow> bool"
begin

lemma email_select:
  assumes "okU d"
  shows "get_by_email U e d = Some r \<longleftrightarrow> tb_view U d (u_id r) = Some r \<and> u_email r = Some e"
proof -
  let ?rows = "tb_select U (\<lambda>r. u_email r = Some e) d"
  have mem: "x \<in> set ?rows \<longleftrightarrow> tb_view U d (u_id x) = Some x \<and> u_email x = Some e" for x
    using select_set [OF assms] pk_view [OF assms] by auto
  have one: "x = y" if "x \<in> set ?rows" "y \<in> set ?rows" for x y
  proof -
    from that mem have v: "tb_view U d (u_id x) = Some x" "tb_view U d (u_id y) = Some y"
      and e: "u_email x = Some e" "u_email y = Some e" by blast+
    from e have "u_email x \<noteq> None \<and> u_email x = u_email y" by simp
    with uniq_view [OF assms] v have "u_id x = u_id y" unfolding users_unique_def by metis
    then have "Some x = Some y" using v by (simp only:)
    then show ?thesis by simp
  qed
  show ?thesis
  proof (cases ?rows)
    case Nil
    with mem [of r] show ?thesis by (simp add: get_by_email_def one_or_none_def)
  next
    case (Cons x xs)
    then have "x \<in> set ?rows" by simp
    moreover have "get_by_email U e d = Some x" using Cons by (simp add: get_by_email_def one_or_none_def)
    ultimately show ?thesis using mem [of r] mem [of x] one [of x r] by (metis option.inject)
  qed
qed

lemma update_user:
  assumes "okU d" "tb_view U d i = Some r"
    and f: "\<And>x. u_id (f x) = u_id x" "\<And>x. u_email (f x) = u_email x" "\<And>x. u_tg (f x) = u_tg x"
  shows "okU (snd (tb_update U (\<lambda>x. u_id x = i) f d))"
    "tb_view U (snd (tb_update U (\<lambda>x. u_id x = i) f d)) = (tb_view U d)(i \<mapsto> f r)"
proof -
  have upd: "upd_view (\<lambda>x. u_id x = i \<and> True) f (tb_view U d) = (tb_view U d)(i \<mapsto> f r)"
    using keyed_upd [OF assms(1), of f i "\<lambda>_. True"] f(1) assms(2) by simp
  have "users_unique ((tb_view U d)(i \<mapsto> f r))"
    by (rule users_unique_cong [OF uniq_view [OF assms(1)]]) (use assms(2) f(2,3) in \<open>auto split: if_splits\<close>)
  then have un: "users_unique (upd_view (\<lambda>x. u_id x = i) f (tb_view U d))" using upd by simp
  show "okU (snd (tb_update U (\<lambda>x. u_id x = i) f d))" by (rule update_ok [OF assms(1) f(1) un])
  show "tb_view U (snd (tb_update U (\<lambda>x. u_id x = i) f d)) = (tb_view U d)(i \<mapsto> f r)"
    using update_view [OF assms(1) f(1) un] upd by simp
qed

lemma created_user:
  assumes "okU d" "get_or_create_by_email U e name d = Some (r, d')"
  shows "okU d' \<and> tb_view U d' (u_id r) = Some r"
proof (cases "tb_insert U (new_user None (Some e) name ROLE_USER) d")
  case None
  with assms email_select [OF assms(1), of e r] show ?thesis by (auto simp: get_or_create_by_email_def)
next
  case (Some p)
  then obtain r0 d0 where p: "tb_insert U (new_user None (Some e) name ROLE_USER) d = Some (r0, d0)" by (cases p) auto
  have "\<And>k. u_id (new_user None (Some e) name ROLE_USER k) = k" by (simp add: new_user_def)
  from insert_some [OF assms(1) this p] p assms(2) show ?thesis by (auto simp: get_or_create_by_email_def)
qed

end

locale invite_table = table_laws V iv_id tokens_unique okV
  for V :: "(invite_row, 'v) table" and okV :: "'v \<Rightarrow> bool"
begin

lemma redeem_ok:
  assumes "okV d" "redeem V token user_id now d = Inr (r', d')"
  obtains r where "tb_view V d (iv_id r) = Some r" "iv_token r = token" "iv_used r = None" "now < iv_expires r"
    "okV d'" "tb_view V d' = (tb_view V d)(iv_id r \<mapsto> r\<lparr>iv_used := Some now, iv_used_by := Some user_id\<rparr>)"
proof -
  let ?f = "\<lambda>x. x\<lparr>iv_used := Some now, iv_used_by := Some user_id\<rparr>"
  from assms(2) obtain r where r: "get_by_token V token d = Some r" "iv_used r = None" "now < iv_expires r"
    "d' = snd (tb_update V (\<lambda>x. iv_id x = iv_id r) ?f d)"
    by (auto simp: redeem_def Let_def split: option.splits if_splits)
  then have "r \<in> set (tb_select V (\<lambda>r. iv_token r = token) d)"
    by (auto simp: get_by_token_def one_or_none_def split: list.splits)
  with select_set [OF assms(1)] pk_view [OF assms(1)]
  have v: "tb_view V d (iv_id r) = Some r" "iv_token r = token" by auto
  have pk: "iv_id (?f x) = iv_id x" for x by simp
  have upd: "upd_view (\<lambda>x. iv_id x = iv_id r \<and> True) ?f (tb_view V d) = (tb_view V d)(iv_id r \<mapsto> ?f r)"
    using keyed_upd [OF assms(1), of ?f "iv_id r" "\<lambda>_. True"] v(1) by simp
  have "tokens_unique ((tb_view V d)(iv_id r \<mapsto> ?f r))"
    by (rule tokens_unique_cong [OF uniq_view [OF assms(1)]]) (use v(1) in \<open>auto split: if_splits\<close>)
  then have un: "tokens_unique (upd_view (\<lambda>x. iv_id x = iv_id r) ?f (tb_view V d))" using upd by simp
  show thesis
    using that [OF v r(2,3)] update_ok [OF assms(1) pk un] update_view [OF assms(1) pk un] upd r(4) by simp
qed

end

section \<open>Registration\<close>

locale account_tables = users: user_table U okU + invites: invite_table V okV
  for U :: "(user_row, 'u) table" and okU :: "'u \<Rightarrow> bool"
    and V :: "(invite_row, 'v) table" and okV :: "'v \<Rightarrow> bool"
begin

lemma enrol_ok:
  assumes "okU du" "okV dv" "tb_view U du (u_id r) = Some r"
    and "enrol U V C bypass now password token name r du dv = Inr (du', dv')"
  shows "okU du'" "okV dv'"
    "tb_view U du' (u_id r) = Some (fill_user (if bypass then ROLE_ADMIN else ROLE_USER) name (cr_hash C password) r)"
    "if bypass then dv' = dv
     else (\<exists>v. tb_view V dv (iv_id v) = Some v \<and> iv_token v = token \<and> iv_used v = None \<and> now < iv_expires v
       \<and> tb_view V dv' = (tb_view V dv)(iv_id v \<mapsto> v\<lparr>iv_used := Some now, iv_used_by := Some (u_id r)\<rparr>))"
proof -
  let ?f = "\<lambda>role. fill_user role name (cr_hash C password)"
  have upd: "okU (snd (tb_update U (\<lambda>x. u_id x = u_id r) (?f role) du))"
    "tb_view U (snd (tb_update U (\<lambda>x. u_id x = u_id r) (?f role) du)) = (tb_view U du)(u_id r \<mapsto> ?f role r)" for role
    by (rule users.update_user [OF assms(1,3)]; simp add: fill_user_def)+
  have "okU du' \<and> okV dv' \<and>
    tb_view U du' (u_id r) = Some (?f (if bypass then ROLE_ADMIN else ROLE_USER) r) \<and>
    (if bypass then dv' = dv
     else (\<exists>v. tb_view V dv (iv_id v) = Some v \<and> iv_token v = token \<and> iv_used v = None \<and> now < iv_expires v
       \<and> tb_view V dv' = (tb_view V dv)(iv_id v \<mapsto> v\<lparr>iv_used := Some now, iv_used_by := Some (u_id r)\<rparr>)))"
  proof (cases bypass)
    case True
    with assms(2,4) upd [of ROLE_ADMIN] show ?thesis by (auto simp: enrol_def Let_def)
  next
    case False
    with assms(4) obtain v' where rd: "redeem V token (u_id r) now dv = Inr (v', dv')"
      and du': "du' = snd (tb_update U (\<lambda>x. u_id x = u_id r) (?f ROLE_USER) du)"
      by (auto simp: enrol_def Let_def split: sum.splits)
    obtain v where "tb_view V dv (iv_id v) = Some v" "iv_token v = token" "iv_used v = None" "now < iv_expires v"
      "okV dv'" "tb_view V dv' = (tb_view V dv)(iv_id v \<mapsto> v\<lparr>iv_used := Some now, iv_used_by := Some (u_id r)\<rparr>)"
      by (rule invites.redeem_ok [OF assms(2) rd])
    with du' upd [of ROLE_USER] False show ?thesis by (auto simp del: fun_upd_apply simp: fun_upd_same)
  qed
  then show "okU du'" "okV dv'"
    "tb_view U du' (u_id r) = Some (fill_user (if bypass then ROLE_ADMIN else ROLE_USER) name (cr_hash C password) r)"
    "if bypass then dv' = dv
     else (\<exists>v. tb_view V dv (iv_id v) = Some v \<and> iv_token v = token \<and> iv_used v = None \<and> now < iv_expires v
       \<and> tb_view V dv' = (tb_view V dv)(iv_id v \<mapsto> v\<lparr>iv_used := Some now, iv_used_by := Some (u_id r)\<rparr>))"
    by blast+
qed

text \<open>What a registration that succeeds did to the two tables.\<close>

definition spent :: "string \<Rightarrow> int \<Rightarrow> 'v \<Rightarrow> 'v \<Rightarrow> bool" where
  "spent token now dv dv' \<longleftrightarrow> (\<exists>v u. tb_view V dv (iv_id v) = Some v \<and> iv_token v = token \<and> iv_used v = None \<and>
     now < iv_expires v \<and>
     tb_view V dv' = (tb_view V dv)(iv_id v \<mapsto> v\<lparr>iv_used := Some now, iv_used_by := Some u\<rparr>))"

lemma register_tx_ok:
  assumes "okU du" "okV dv" "register_tx U V C bypass now email password token name du dv = Inr (du', dv')"
  shows "okU du' \<and> okV dv' \<and> (if bypass then dv' = dv else spent token now dv dv')
    \<and> (\<forall>r. get_by_email U email du = Some r \<longrightarrow> \<not> opt_truthy (u_hash r))"
proof (cases "get_by_email U email du")
  case (Some r)
  with assms(3) have h: "\<not> opt_truthy (u_hash r)" and en: "enrol U V C bypass now password token name r du dv = Inr (du', dv')"
    by (auto simp: register_tx_def split: if_splits)
  have "tb_view U du (u_id r) = Some r" using users.email_select [OF assms(1)] Some by blast
  note e = enrol_ok [OF assms(1,2) this en]
  from e(4) have "if bypass then dv' = dv else spent token now dv dv'" unfolding spent_def by (cases bypass) auto
  with e(1,2) h Some show ?thesis by simp
next
  case None
  with assms(3) obtain r d1 where c: "get_or_create_by_email U email name du = Some (r, d1)"
    and en: "enrol U V C bypass now password token name r d1 dv = Inr (du', dv')"
    by (auto simp: register_tx_def split: option.splits)
  from users.created_user [OF assms(1) c] have "okU d1" "tb_view U d1 (u_id r) = Some r" by auto
  note e = enrol_ok [OF this(1) assms(2) this(2) en]
  from e(4) have "if bypass then dv' = dv else spent token now dv dv'" unfolding spent_def by (cases bypass) auto
  with e(1,2) None show ?thesis by simp
qed

lemma register_step:
  assumes "okU (ac_users st)" "okV (ac_invites st)" "register R U V C A ve e q st = (res, st')"
  shows "okU (ac_users st')" "okV (ac_invites st')"
    "case res of
       Inl _ \<Rightarrow> ac_users st' = ac_users st \<and> ac_invites st' = ac_invites st
     | Inr _ \<Rightarrow> (\<exists>email. ve (py_lower (py_strip (rq_email q))) = Some email \<and>
          (if is_admin_email A email then ac_invites st' = ac_invites st
           else spent (py_strip (rq_invite q)) (ae_now e) (ac_invites st) (ac_invites st')))"
proof -
  let ?email = "ve (py_lower (py_strip (rq_email q)))"
  have "okU (ac_users st') \<and> okV (ac_invites st') \<and> (case res of
       Inl _ \<Rightarrow> ac_users st' = ac_users st \<and> ac_invites st' = ac_invites st
     | Inr _ \<Rightarrow> (\<exists>email. ?email = Some email \<and>
          (if is_admin_email A email then ac_invites st' = ac_invites st
           else spent (py_strip (rq_invite q)) (ae_now e) (ac_invites st) (ac_invites st'))))"
  proof (cases res)
    case (Inl code)
    then have "ac_users st' = ac_users st \<and> ac_invites st' = ac_invites st" using assms(3)
      by (auto simp: register_def Let_def split: prod.splits throttle_result.splits option.splits if_splits sum.splits)
    with Inl assms(1,2) show ?thesis by simp
  next
    case (Inr resp)
    with assms(3) obtain email where m: "?email = Some email"
      "register_tx U V C (is_admin_email A email) (ae_now e) email (rq_password q) (py_strip (rq_invite q))
         (none_if_empty (py_strip (rq_name q))) (ac_users st) (ac_invites st) = Inr (ac_users st', ac_invites st')"
      by (auto simp: register_def Let_def split: prod.splits throttle_result.splits option.splits if_splits sum.splits)
    from register_tx_ok [OF assms(1,2) m(2)] m(1) Inr show ?thesis by simp
  qed
  then show "okU (ac_users st')" "okV (ac_invites st')"
    "case res of
       Inl _ \<Rightarrow> ac_users st' = ac_users st \<and> ac_invites st' = ac_invites st
     | Inr _ \<Rightarrow> (\<exists>email. ?email = Some email \<and>
          (if is_admin_email A email then ac_invites st' = ac_invites st
           else spent (py_strip (rq_invite q)) (ae_now e) (ac_invites st) (ac_invites st')))"
    by blast+
qed

end

section \<open>Runs of registrations\<close>

text \<open>The row lock of \<open>redeem\<close> serializes the transactions; a run is their order.\<close>

fun register_run ::
  "('s, 'x) redis_scheme \<Rightarrow> (user_row, 'u) table \<Rightarrow> (invite_row, 'v) table \<Rightarrow> crypto \<Rightarrow> auth_cfg \<Rightarrow>
     (string \<Rightarrow> string option) \<Rightarrow> (auth_env \<times> register_request) list \<Rightarrow>
     ('s, 'u, 'v) accounts \<Rightarrow> (rpc_code + login_response) list \<times> ('s, 'u, 'v) accounts" where
  "register_run R U V C A ve [] st = ([], st)"
| "register_run R U V C A ve ((e, q) # rs) st =
     (let (res, st1) = register R U V C A ve e q st; (rest, st2) = register_run R U V C A ve rs st1 in (res # rest, st2))"

text \<open>The registrations of a run that an invite let in.\<close>

definition let_in :: "auth_cfg \<Rightarrow> (string \<Rightarrow> string option) \<Rightarrow> string \<Rightarrow> register_request \<Rightarrow> rpc_code + login_response \<Rightarrow> bool" where
  "let_in A ve token q res \<longleftrightarrow> (case res of Inl _ \<Rightarrow> False | Inr _ \<Rightarrow>
     py_strip (rq_invite q) = token \<and>
     (case ve (py_lower (py_strip (rq_email q))) of None \<Rightarrow> False | Some email \<Rightarrow> \<not> is_admin_email A email))"

definition admissions ::
  "auth_cfg \<Rightarrow> (string \<Rightarrow> string option) \<Rightarrow> string \<Rightarrow> (auth_env \<times> register_request) list \<Rightarrow> (rpc_code + login_response) list \<Rightarrow> nat" where
  "admissions A ve token rs results = length (filter (\<lambda>((e, q), res). let_in A ve token q res) (zip rs results))"

context account_tables
begin

definition token_used :: "string \<Rightarrow> 'v \<Rightarrow> bool" where
  "token_used token dv \<longleftrightarrow> (\<exists>i v. tb_view V dv i = Some v \<and> iv_token v = token \<and> iv_used v \<noteq> None)"

lemma spent_marks: "spent token now dv dv' \<Longrightarrow> token_used token dv'"
  unfolding spent_def token_used_def by (elim exE conjE) (auto simp: fun_upd_def split: if_splits)

lemma spent_keeps_used: "spent token' now dv dv' \<Longrightarrow> token_used token dv \<Longrightarrow> token_used token dv'"
  unfolding spent_def token_used_def by (metis fun_upd_apply option.inject)

lemma spent_fresh: "okV dv \<Longrightarrow> spent token now dv dv' \<Longrightarrow> \<not> token_used token dv"
  using invites.uniq_view [of dv] unfolding spent_def token_used_def tokens_unique_def by (metis option.inject)

lemma run_admissions:
  assumes "okU (ac_users st)" "okV (ac_invites st)"
  shows "admissions A ve token rs (fst (register_run R U V C A ve rs st))
    \<le> (if token_used token (ac_invites st) then 0 else 1)"
  using assms
proof (induction rs arbitrary: st)
  case (Cons r rs)
  obtain e q where r: "r = (e, q)" by (cases r)
  obtain res st1 where reg: "register R U V C A ve e q st = (res, st1)" by fastforce
  note step = register_step [OF Cons.prems reg]
  let ?used = "token_used token (ac_invites st)" and ?used1 = "token_used token (ac_invites st1)"
  let ?rest = "admissions A ve token rs (fst (register_run R U V C A ve rs st1))"
  have IH: "?rest \<le> (if ?used1 then 0 else 1)" by (rule Cons.IH [OF step(1,2)])
  have count: "admissions A ve token (r # rs) (fst (register_run R U V C A ve (r # rs) st)) =
      (if let_in A ve token q res then 1 else 0) + ?rest"
    by (simp add: r reg admissions_def split_beta)
  have mono: "?used \<Longrightarrow> ?used1"
    using step(3) spent_keeps_used [of _ _ "ac_invites st" "ac_invites st1"] by (auto split: sum.splits if_splits)
  show ?case
  proof (cases "let_in A ve token q res")
    case True
    then obtain resp where res: "res = Inr resp" by (auto simp: let_in_def split: sum.splits)
    with True step(3) have "spent token (ae_now e) (ac_invites st) (ac_invites st1)"
      by (auto simp: let_in_def split: option.splits)
    from spent_marks [OF this] spent_fresh [OF Cons.prems(2) this] IH True show ?thesis unfolding count by simp
  next
    case False
    with IH mono show ?thesis unfolding count by (auto split: if_splits)
  qed
qed (simp add: admissions_def)

end

section \<open>The tables in memory\<close>

lemma pairwise_rows:
  assumes sym: "\<And>r s. clash r s \<Longrightarrow> clash s r" and "distinct (map fst xs)"
  shows "sorted_wrt (\<lambda>r s. \<not> clash r s) (map snd xs) \<longleftrightarrow>
    (\<forall>i j r s. map_of xs i = Some r \<longrightarrow> map_of xs j = Some s \<longrightarrow> clash r s \<longrightarrow> i = j)"
  using assms(2)
proof (induction xs)
  case (Cons x xs)
  obtain a r where x: "x = (a, r)" by (cases x)
  from Cons.prems x have a: "map_of xs a = None" and d: "distinct (map fst xs)"
    by (auto simp: map_of_eq_None_iff)
  have ran: "s \<in> set (map snd xs) \<longleftrightarrow> (\<exists>j. map_of xs j = Some s)" for s
    using d by (force simp: image_iff)
  have "sorted_wrt (\<lambda>r s. \<not> clash r s) (map snd (x # xs)) \<longleftrightarrow>
    (\<forall>j s. map_of xs j = Some s \<longrightarrow> \<not> clash r s) \<and> sorted_wrt (\<lambda>r s. \<not> clash r s) (map snd xs)"
  proof -
    have "sorted_wrt (\<lambda>r s. \<not> clash r s) (map snd (x # xs)) \<longleftrightarrow>
      (\<forall>s \<in> set (map snd xs). \<not> clash r s) \<and> sorted_wrt (\<lambda>r s. \<not> clash r s) (map snd xs)"
      by (simp add: x)
    then show ?thesis using ran by blast
  qed
  also have "\<dots> \<longleftrightarrow> (\<forall>j s. map_of xs j = Some s \<longrightarrow> \<not> clash r s) \<and>
    (\<forall>i j r s. map_of xs i = Some r \<longrightarrow> map_of xs j = Some s \<longrightarrow> clash r s \<longrightarrow> i = j)"
    using Cons.IH [OF d] by blast
  also have "\<dots> \<longleftrightarrow> (\<forall>i j r s. map_of (x # xs) i = Some r \<longrightarrow> map_of (x # xs) j = Some s \<longrightarrow> clash r s \<longrightarrow> i = j)"
    (is "?L \<longleftrightarrow> ?R")
  proof
    assume L: ?L
    show ?R
    proof (intro allI impI)
      fix i j p s
      assume "map_of (x # xs) i = Some p" "map_of (x # xs) j = Some s" "clash p s"
      with L sym [of p s] show "i = j" using x by (auto split: if_splits)
    qed
  next
    assume R: ?R
    have "map_of (x # xs) j = map_of xs j" if "map_of xs j \<noteq> None" for j using that a x by auto
    moreover have "map_of (x # xs) a = Some r" using x by simp
    ultimately show ?L using R a by (metis option.distinct(1))
  qed
  finally show ?case .
qed simp

definition user_clash :: "user_row \<Rightarrow> user_row \<Rightarrow> bool" where
  "user_clash r s \<longleftrightarrow> (u_email r \<noteq> None \<and> u_email r = u_email s) \<or> (u_tg r \<noteq> None \<and> u_tg r = u_tg s)"

lemma user_clash_sym: "user_clash r s \<Longrightarrow> user_clash s r"
  by (metis user_clash_def)

lemma users_unique_clash:
  "users_unique m \<longleftrightarrow> (\<forall>i j r s. m i = Some r \<longrightarrow> m j = Some s \<longrightarrow> user_clash r s \<longrightarrow> i = j)"
  unfolding users_unique_def user_clash_def ..

definition user_mem :: "(user_row, user_row rows) table" where
  "user_mem = mem_table (sorted_wrt (\<lambda>r s. \<not> user_clash r s))"

definition invite_mem :: "(invite_row, invite_row rows) table" where
  "invite_mem = mem_table (sorted_wrt (\<lambda>r s. \<not> iv_token r = iv_token s))"

interpretation account_mem: account_tables user_mem "rows_ok u_id (sorted_wrt (\<lambda>r s. \<not> user_clash r s))"
  invite_mem "rows_ok iv_id (sorted_wrt (\<lambda>r s. \<not> iv_token r = iv_token s))"
proof (intro account_tables.intro user_table.intro invite_table.intro)
  show "table_laws user_mem u_id users_unique (rows_ok u_id (sorted_wrt (\<lambda>r s. \<not> user_clash r s)))"
    unfolding user_mem_def
    unfolding users_unique_clash by (rule mem_table_laws, rule pairwise_rows [OF user_clash_sym])
  show "table_laws invite_mem iv_id tokens_unique (rows_ok iv_id (sorted_wrt (\<lambda>r s. \<not> iv_token r = iv_token s)))"
    unfolding invite_mem_def
    by (rule mem_table_laws) (subst pairwise_rows, auto simp: tokens_unique_def)
qed

section \<open>Properties\<close>

text \<open>
  C18: however registrations follow each other, an invite lets in at most one account, and none
  once it is used. Only the configured administrator registers without one.
\<close>

theorem invite_single_use:
  assumes "account_tables U okU V okV" "okU (ac_users st)" "okV (ac_invites st)"
    and "register_run R U V C A ve rs st = (results, st')"
  shows "admissions A ve token rs results \<le> 1 \<and>
    ((\<exists>i v. tb_view V (ac_invites st) i = Some v \<and> iv_token v = token \<and> iv_used v \<noteq> None) \<longrightarrow>
      admissions A ve token rs results = 0)"
  using account_tables.run_admissions [OF assms(1-3), of A ve token rs R C] assms(4)
  unfolding account_tables.token_used_def [OF assms(1)] by (auto split: if_splits)

definition demo_crypto :: crypto where
  "demo_crypto = \<lparr>cr_hash = (\<lambda>p. p @ ''#''), cr_verify = (\<lambda>h p. Some (h = p @ ''#'')), cr_rehash = (\<lambda>_. False),
     cr_encode = (\<lambda>k p. []), cr_decode = (\<lambda>k t r. None)\<rparr>"

definition demo_auth :: auth_cfg where
  "demo_auth = \<lparr>au_secret = ''k'', au_ttl_hours = 24, au_secure = True, au_admin_email = ''root@x.io''\<rparr>"

definition demo_accounts :: "(mem, user_row rows, invite_row rows) accounts" where
  "demo_accounts = \<lparr>ac_redis = Map.empty, ac_users = (1, []),
     ac_invites = (2, [(1, \<lparr>iv_id = 1, iv_token = ''inv'', iv_by = 1, iv_created = 0, iv_expires = 1000,
       iv_used = None, iv_used_by = None\<rparr>)])\<rparr>"

definition demo_call :: auth_env where
  "demo_call = \<lparr>ae_addr = None, ae_now = 10, ae_check = Fine, ae_incr = Fine, ae_expire = Fine, ae_clear = Fine\<rparr>"

definition demo_request :: "string \<Rightarrow> register_request" where
  "demo_request email = \<lparr>rq_email = email, rq_password = ''12345678'', rq_invite = ''inv'', rq_name = []\<rparr>"

definition demo_rs :: "(auth_env \<times> register_request) list" where
  "demo_rs = [(demo_call, demo_request ''a@x.io''), (demo_call, demo_request ''b@x.io'')]"

lemma demo_strip [simp]: "py_strip ''inv'' = ''inv''" "py_strip ''a@x.io'' = ''a@x.io''" "py_strip ''b@x.io'' = ''b@x.io''"
  by (simp_all add: strip_by_id is_space_def)

lemma demo_register:
  "map isl (fst (register_run mem_redis user_mem invite_mem demo_crypto demo_auth Some demo_rs demo_accounts)) = [False, True]"
  by (simp add: demo_rs_def register_def demo_call_def demo_request_def demo_accounts_def client_ip_def throttle_check_def
      opt_truthy_def py_lower_def lower_char_def is_admin_email_def demo_auth_def strip_by_def lstrip_by_def rstrip_by_def is_space_def
      register_tx_def get_by_email_def get_or_create_by_email_def user_mem_def invite_mem_def mem_table_def one_or_none_def
      new_user_def enrol_def redeem_def get_by_token_def fill_user_def demo_crypto_def none_if_empty_def clear_def session_for_def
      issue_token_def user_clash_def Let_def invite_code_def)

lemma invite_single_use_witness:
  "admissions demo_auth Some ''inv'' demo_rs
     (fst (register_run mem_redis user_mem invite_mem demo_crypto demo_auth Some demo_rs demo_accounts)) \<le> 1
   \<and> map isl (fst (register_run mem_redis user_mem invite_mem demo_crypto demo_auth Some demo_rs demo_accounts)) = [False, True]"
proof -
  obtain results st' where r: "register_run mem_redis user_mem invite_mem demo_crypto demo_auth Some demo_rs demo_accounts = (results, st')"
    by fastforce
  have "rows_ok u_id (sorted_wrt (\<lambda>r s. \<not> user_clash r s)) (ac_users demo_accounts)"
    "rows_ok iv_id (sorted_wrt (\<lambda>r s. \<not> iv_token r = iv_token s)) (ac_invites demo_accounts)"
    by (simp_all add: demo_accounts_def rows_ok_def)
  from invite_single_use [OF account_mem.account_tables_axioms this r, of "''inv''"] demo_register show ?thesis by (simp add: r)
qed

end
