(* ===== verification/Rate_Limit.thy ===== *)
theory Rate_Limit
  imports Accounts
begin

text \<open>
  The limits on turns: the administrator's settings (\<open>services/runtime_settings\<close>) and the
  counters in Redis (\<open>services/rate_limit/service.py\<close>): a counter of running turns and a
  sorted set of the accepted turns of the last hour. The script runs atomically in the server,
  so a run of the program is a sequence of its executions and of the passing of time.
\<close>

section \<open>Settings\<close>

datatype user_kind = KIND_ADMIN | WEB_USER | TG_GUEST

definition user_kind_of :: "user_row \<Rightarrow> user_kind" where
  "user_kind_of u = (if u_role u = ROLE_ADMIN then KIND_ADMIN else if opt_truthy (u_email u) then WEB_USER else TG_GUEST)"

fun kind_value :: "user_kind \<Rightarrow> string" where
  "kind_value KIND_ADMIN = ''admin''"
| "kind_value WEB_USER = ''web_user''"
| "kind_value TG_GUEST = ''tg_guest''"

record turn_limits =
  tl_active :: int
  tl_hourly :: int

definition UNLIMITED :: turn_limits where
  "UNLIMITED = \<lparr>tl_active = 0, tl_hourly = 0\<rparr>"

definition TG_BOT_API_DOWNLOAD_LIMIT_MB :: int where
  "TG_BOT_API_DOWNLOAD_LIMIT_MB = 20"

record runtime_settings =
  rs_web :: turn_limits
  rs_guest :: turn_limits
  rs_upload_mb :: int

text \<open>The row of the settings table.\<close>

record settings_row =
  sr_web_active :: int
  sr_web_hourly :: int
  sr_guest_active :: int
  sr_guest_hourly :: int
  sr_upload_mb :: int

text \<open>The validation pydantic performs; \<open>None\<close> is the ValidationError.\<close>

definition turn_limits_model :: "int \<Rightarrow> int \<Rightarrow> turn_limits option" where
  "turn_limits_model a h = (if 0 \<le> a \<and> 0 \<le> h then Some \<lparr>tl_active = a, tl_hourly = h\<rparr> else None)"

definition settings_model :: "turn_limits \<Rightarrow> turn_limits \<Rightarrow> int \<Rightarrow> runtime_settings option" where
  "settings_model web guest mb =
     (if 0 \<le> mb \<and> mb \<le> TG_BOT_API_DOWNLOAD_LIMIT_MB then Some \<lparr>rs_web = web, rs_guest = guest, rs_upload_mb = mb\<rparr> else None)"

definition default_settings :: runtime_settings where
  "default_settings = \<lparr>rs_web = \<lparr>tl_active = 2, tl_hourly = 0\<rparr>, rs_guest = \<lparr>tl_active = 3, tl_hourly = 0\<rparr>,
     rs_upload_mb = TG_BOT_API_DOWNLOAD_LIMIT_MB\<rparr>"

definition from_row :: "settings_row \<Rightarrow> runtime_settings option" where
  "from_row r =
     Option.bind (turn_limits_model (sr_web_active r) (sr_web_hourly r)) (\<lambda>web.
     Option.bind (turn_limits_model (sr_guest_active r) (sr_guest_hourly r)) (\<lambda>guest.
     settings_model web guest (sr_upload_mb r)))"

definition apply_to :: "runtime_settings \<Rightarrow> settings_row \<Rightarrow> settings_row" where
  "apply_to s r = r\<lparr>sr_web_active := tl_active (rs_web s), sr_web_hourly := tl_hourly (rs_web s),
     sr_guest_active := tl_active (rs_guest s), sr_guest_hourly := tl_hourly (rs_guest s), sr_upload_mb := rs_upload_mb s\<rparr>"

definition turn_limits_for :: "runtime_settings \<Rightarrow> user_kind \<Rightarrow> turn_limits" where
  "turn_limits_for s k = (case k of KIND_ADMIN \<Rightarrow> UNLIMITED | WEB_USER \<Rightarrow> rs_web s | TG_GUEST \<Rightarrow> rs_guest s)"

definition max_upload_bytes :: "runtime_settings \<Rightarrow> user_kind \<Rightarrow> int option" where
  "max_upload_bytes s k = (if k \<noteq> TG_GUEST \<or> rs_upload_mb s = 0 then None else Some (rs_upload_mb s * (1024 * 1024)))"

text \<open>
  The service with its cache: the value and the time until which it is used. The table is the
  one row, if any; \<open>None\<close> is the ValidationError of a row outside the bounds.
\<close>

record settings_cache =
  ca_value :: "runtime_settings option"
  ca_expires :: int

definition load_settings :: "settings_row option \<Rightarrow> runtime_settings option" where
  "load_settings row = (case row of None \<Rightarrow> Some default_settings | Some r \<Rightarrow> from_row r)"

definition remember :: "int \<Rightarrow> int \<Rightarrow> runtime_settings \<Rightarrow> settings_cache" where
  "remember ttl now v = \<lparr>ca_value = Some v, ca_expires = now + ttl\<rparr>"

definition invalidate :: settings_cache where
  "invalidate = \<lparr>ca_value = None, ca_expires = 0\<rparr>"

definition get_settings ::
  "int \<Rightarrow> int \<Rightarrow> settings_row option \<Rightarrow> settings_cache \<Rightarrow> runtime_settings option \<times> settings_cache" where
  "get_settings ttl now row c =
     (if ca_value c \<noteq> None \<and> now < ca_expires c then (ca_value c, c)
      else case load_settings row of
        None \<Rightarrow> (None, c)
      | Some v \<Rightarrow> (Some v, remember ttl now v))"

definition save_settings :: "settings_row \<Rightarrow> runtime_settings \<Rightarrow> settings_row option \<Rightarrow> settings_row" where
  "save_settings fresh data row = apply_to data (case row of None \<Rightarrow> fresh | Some r \<Rightarrow> r)"

section \<open>Sorted sets\<close>

text \<open>
  The commands of the script on a sorted set whose members are their own scores, times in
  microseconds. \<open>rz_view s k\<close> is the set with the seconds it has left; an empty set is no key.
  \<open>rx_set\<close> is the unconditional \<open>SET k v EX t\<close>.
\<close>

record 's redisz = "'s redis" +
  rz_view :: "'s \<Rightarrow> string \<Rightarrow> int set \<times> nat option"
  rz_remrange :: "string \<Rightarrow> int \<Rightarrow> int \<Rightarrow> 's \<Rightarrow> nat \<times> 's"
  rz_card :: "string \<Rightarrow> 's \<Rightarrow> nat \<times> 's"
  rz_add :: "string \<Rightarrow> int \<Rightarrow> 's \<Rightarrow> nat \<times> 's"
  rz_expire :: "string \<Rightarrow> nat \<Rightarrow> 's \<Rightarrow> bool \<times> 's"
  rx_set :: "string \<Rightarrow> string \<Rightarrow> nat \<Rightarrow> 's \<Rightarrow> bool \<times> 's"

definition zset :: "int set \<Rightarrow> nat option \<Rightarrow> int set \<times> nat option" where
  "zset S t = (S, if S = {} then None else t)"

definition zaged :: "nat \<Rightarrow> int set \<times> nat option \<Rightarrow> int set \<times> nat option" where
  "zaged n z = (case snd z of None \<Rightarrow> z | Some t \<Rightarrow> if t \<le> n then ({}, None) else (fst z, Some (t - n)))"

locale zset_laws = redis_laws R for R :: "('s, 'x) redisz_scheme" +
  assumes z_finite: "finite (fst (rz_view R s k))"
    and z_elapse: "rz_view R (rd_elapse R n s) k = zaged n (rz_view R s k)"
    and z_remrange: "rz_view R (snd (rz_remrange R k a b s)) =
      (rz_view R s)(k := zset (fst (rz_view R s k) - {a..b}) (snd (rz_view R s k)))"
    and z_card: "fst (rz_card R k s) = card (fst (rz_view R s k))" "rz_view R (snd (rz_card R k s)) = rz_view R s"
    and z_add: "rz_view R (snd (rz_add R k x s)) =
      (rz_view R s)(k := (insert x (fst (rz_view R s k)), snd (rz_view R s k)))"
    and z_expire: "rz_view R (snd (rz_expire R k t s)) =
      (rz_view R s)(k := zset (fst (rz_view R s k)) (Some t))"
    and z_strings: "rd_view R (snd (rz_remrange R k a b s)) = rd_view R s" "rd_view R (snd (rz_card R k s)) = rd_view R s"
      "rd_view R (snd (rz_add R k x s)) = rd_view R s" "rd_view R (snd (rz_expire R k t s)) = rd_view R s"
    and z_apart: "rz_view R (snd (rd_incrby R k i s)) = rz_view R s" "rz_view R (snd (rd_expire R k t s)) = rz_view R s"
      "rz_view R (snd (rd_del R k s)) = rz_view R s"
    and x_set: "rd_view R (snd (rx_set R k v t s)) = (rd_view R s)(k \<mapsto> (v, Some t))"
      "rz_view R (snd (rx_set R k v t s)) = rz_view R s"
    and incrby_other: "k' \<noteq> k \<Longrightarrow> rd_view R (snd (rd_incrby R k i s)) k' = rd_view R s k'"

section \<open>Reserving and releasing\<close>

definition ACTIVE_TTL_S :: nat where
  "ACTIVE_TTL_S = 600"

definition HOURLY_WINDOW_S :: nat where
  "HOURLY_WINDOW_S = 3600"

definition usec :: "nat \<Rightarrow> int" where
  "usec s = int s * 1000000"

definition rl_active_key :: "int \<Rightarrow> string" where
  "rl_active_key user_id = ''ratelimit:active:'' @ str_of_int user_id"

definition rl_hourly_key :: "int \<Rightarrow> string" where
  "rl_hourly_key user_id = ''ratelimit:hourly:'' @ str_of_int user_id"

datatype reserve_status = StOk | StHourly nat | StActive int

definition reserve_lua ::
  "('s, 'x) redisz_scheme \<Rightarrow> string \<Rightarrow> string \<Rightarrow> int \<Rightarrow> int \<Rightarrow> int \<Rightarrow> int \<Rightarrow> 's \<Rightarrow> reserve_status \<times> 's" where
  "reserve_lua R hk ak now cutoff hourly_limit active_limit s =
     (let s1 = (if 0 < hourly_limit then snd (rz_remrange R hk 0 cutoff s) else s);
          (n, s2) = (if 0 < hourly_limit then rz_card R hk s1 else (0, s1))
      in if 0 < hourly_limit \<and> hourly_limit \<le> int n then (StHourly n, s2)
         else
           let (running, s3) = rd_incrby R ak 1 s2;
               s4 = (if running = 1 then snd (rd_expire R ak ACTIVE_TTL_S s3) else s3)
           in if 0 < active_limit \<and> active_limit < running
              then (StActive (running - 1), snd (rd_incrby R ak (- 1) s4))
              else if 0 < hourly_limit
              then (StOk, snd (rz_expire R hk (2 * HOURLY_WINDOW_S) (snd (rz_add R hk now s4))))
              else (StOk, s4))"

datatype limit_error = RateLimited user_kind string int | RedisFailed

definition limit_text :: "user_kind \<Rightarrow> string \<Rightarrow> int \<Rightarrow> string" where
  "limit_text kind scope limit = scope @ '' limit reached: '' @ str_of_int limit @ '' (user-kind='' @ kind_value kind @ '')''"

definition reserve_turn ::
  "('s, 'x) redisz_scheme \<Rightarrow> runtime_settings \<Rightarrow> fault \<Rightarrow> int \<Rightarrow> user_row \<Rightarrow> 's \<Rightarrow> (limit_error + unit) \<times> 's" where
  "reserve_turn R S f now u s =
     (let kind = user_kind_of u; limits = turn_limits_for S kind in
      if kind = KIND_ADMIN then (Inr (), s)
      else case call f (reserve_lua R (rl_hourly_key (u_id u)) (rl_active_key (u_id u)) now
             (now - usec HOURLY_WINDOW_S) (tl_hourly limits) (tl_active limits)) s of
        (None, s') \<Rightarrow> (Inl RedisFailed, s')
      | (Some (StHourly _), s') \<Rightarrow> (Inl (RateLimited kind ''hourly'' (tl_hourly limits)), s')
      | (Some (StActive _), s') \<Rightarrow> (Inl (RateLimited kind ''active'' (tl_active limits)), s')
      | (Some StOk, s') \<Rightarrow> (Inr (), s'))"

definition release_turn :: "('s, 'x) redis_scheme \<Rightarrow> fault \<Rightarrow> fault \<Rightarrow> user_row \<Rightarrow> 's \<Rightarrow> bool \<times> 's" where
  "release_turn R f g u s =
     (if user_kind_of u = KIND_ADMIN then (True, s)
      else let key = rl_active_key (u_id u) in
        case call f (rd_incrby R key (- 1)) s of
          (None, s') \<Rightarrow> (False, s')
        | (Some remaining, s') \<Rightarrow>
            if remaining \<le> 0 then (case call g (rd_del R key) s' of (r, s'') \<Rightarrow> (r \<noteq> None, s'')) else (True, s'))"

section \<open>The sliding hour\<close>

text \<open>
  A run: reservations and releases of any users, in the order in which the server executes
  them, and time passing in between. The state carries the server's clock in seconds, the last
  reading of the callers' clock, and the readings at which a given user's turns were accepted.
\<close>

datatype limit_op = LWait nat | LReserve user_row int | LRelease user_row

record 's limit_state =
  ls_clock :: nat
  ls_last :: int
  ls_store :: 's
  ls_accepted :: "int list"

definition limit_step ::
  "('s, 'x) redisz_scheme \<Rightarrow> runtime_settings \<Rightarrow> user_row \<Rightarrow> limit_op \<Rightarrow> 's limit_state \<Rightarrow> 's limit_state" where
  "limit_step R S me oper st =
     (case oper of
        LWait n \<Rightarrow> st\<lparr>ls_clock := ls_clock st + n, ls_store := rd_elapse R n (ls_store st)\<rparr>
      | LReserve u now \<Rightarrow>
          (case reserve_turn R S Fine now u (ls_store st) of
             (res, s) \<Rightarrow> st\<lparr>ls_store := s, ls_last := now,
               ls_accepted := ls_accepted st @ (if u_id u = u_id me \<and> res = Inr () then [now] else [])\<rparr>)
      | LRelease u \<Rightarrow> st\<lparr>ls_store := snd (release_turn R Fine Fine u (ls_store st))\<rparr>)"

definition limit_run ::
  "('s, 'x) redisz_scheme \<Rightarrow> runtime_settings \<Rightarrow> user_row \<Rightarrow> limit_op list \<Rightarrow> 's limit_state \<Rightarrow> 's limit_state" where
  "limit_run R S me ops st = fold (limit_step R S me) ops st"

text \<open>
  The callers' clock agrees with the server's to the second and no two of its readings are the
  same; and the user keeps one kind.
\<close>

fun fair_ops :: "user_row \<Rightarrow> nat \<Rightarrow> int \<Rightarrow> limit_op list \<Rightarrow> bool" where
  "fair_ops me c prev [] \<longleftrightarrow> True"
| "fair_ops me c prev (LWait n # ops) \<longleftrightarrow> fair_ops me (c + n) prev ops"
| "fair_ops me c prev (LReserve u now # ops) \<longleftrightarrow>
     prev < now \<and> usec c \<le> now \<and> now < usec (c + 1) \<and> (u_id u = u_id me \<longrightarrow> user_kind_of u = user_kind_of me)
     \<and> fair_ops me c now ops"
| "fair_ops me c prev (LRelease u # ops) \<longleftrightarrow> fair_ops me c prev ops"

text \<open>The accepted turns of any hour, up to its end.\<close>

definition in_hour :: "int \<Rightarrow> int list \<Rightarrow> int set" where
  "in_hour x acc = {a \<in> set acc. x < a \<and> a \<le> x + usec HOURLY_WINDOW_S}"

lemma rl_hourly_key_inj [simp]: "rl_hourly_key i = rl_hourly_key j \<longleftrightarrow> i = j"
  by (simp add: rl_hourly_key_def)

context zset_laws
begin

lemmas z_views = z_remrange z_card(2) z_add z_expire z_apart

lemma lua_hourly:
  assumes "0 < h" "reserve_lua R hk ak now c h l s = (r, s')"
  shows "case r of
      StOk \<Rightarrow> int (card (fst (rz_view R s hk) - {0..c})) < h \<and>
        rz_view R s' = (rz_view R s)(hk := (insert now (fst (rz_view R s hk) - {0..c}), Some (2 * HOURLY_WINDOW_S)))
    | _ \<Rightarrow> rz_view R s' = (rz_view R s)(hk := zset (fst (rz_view R s hk) - {0..c}) (snd (rz_view R s hk)))"
  using assms
  by (auto simp: reserve_lua_def Let_def split_beta z_views z_card(1) zset_def split: if_splits)

lemma reserve_other:
  assumes "u_id u \<noteq> i" "0 \<le> tl_hourly (turn_limits_for S (user_kind_of u))"
  shows "rz_view R (snd (reserve_turn R S Fine now u s)) (rl_hourly_key i) = rz_view R s (rl_hourly_key i)"
proof -
  let ?l = "turn_limits_for S (user_kind_of u)"
  obtain r s' where lua: "reserve_lua R (rl_hourly_key (u_id u)) (rl_active_key (u_id u)) now (now - usec HOURLY_WINDOW_S)
      (tl_hourly ?l) (tl_active ?l) s = (r, s')" by fastforce
  have "rz_view R s' (rl_hourly_key i) = rz_view R s (rl_hourly_key i)"
  proof (cases "0 < tl_hourly ?l")
    case True
    from lua_hourly [OF True lua] assms(1) show ?thesis by (cases r) simp_all
  next
    case False
    then show ?thesis using lua by (auto simp: reserve_lua_def Let_def split_beta z_views split: if_splits)
  qed
  then show ?thesis using lua by (cases r) (simp_all add: reserve_turn_def Let_def)
qed

definition hour_inv :: "string \<Rightarrow> int \<Rightarrow> 's limit_state \<Rightarrow> bool" where
  "hour_inv hk h st \<longleftrightarrow>
     (\<forall>a \<in> set (ls_accepted st). 0 \<le> a \<and> a \<le> ls_last st \<and>
        (a \<in> fst (rz_view R (ls_store st) hk) \<or> a + usec HOURLY_WINDOW_S \<le> max (ls_last st) (usec (ls_clock st)))) \<and>
     (\<forall>a \<in> fst (rz_view R (ls_store st) hk). \<exists>t. snd (rz_view R (ls_store st) hk) = Some t \<and>
        a < (int (ls_clock st) + int t - 7199) * 1000000) \<and>
     fst (rz_view R (ls_store st) hk) \<subseteq> set (ls_accepted st) \<and>
     (\<forall>x. int (card (in_hour x (ls_accepted st))) \<le> h)"

lemma hour_inv_store:
  assumes "hour_inv hk h st" "rz_view R s hk = rz_view R (ls_store st) hk" "ls_last st \<le> l"
  shows "hour_inv hk h (st\<lparr>ls_store := s, ls_last := l\<rparr>)"
  using assms unfolding hour_inv_def by force

lemma hour_inv_wait:
  assumes "hour_inv hk h st"
  shows "hour_inv hk h (st\<lparr>ls_clock := ls_clock st + n, ls_store := rd_elapse R n (ls_store st)\<rparr>)"
proof -
  obtain S t where v: "rz_view R (ls_store st) hk = (S, t)" by fastforce
  show ?thesis
  proof (cases "\<exists>k. t = Some k \<and> k \<le> n")
    case True
    then obtain k where k: "t = Some k" "k \<le> n" by blast
    have "a + usec HOURLY_WINDOW_S \<le> usec (ls_clock st + n)" if "a \<in> S" for a
    proof -
      from assms that k v have "a < (int (ls_clock st) + int k - 7199) * 1000000" by (auto simp: hour_inv_def)
      also have "\<dots> \<le> (int (ls_clock st) + int n - 7199) * 1000000" using k(2) by simp
      finally show ?thesis by (simp add: usec_def HOURLY_WINDOW_S_def)
    qed
    with assms v k show ?thesis by (fastforce simp: hour_inv_def z_elapse zaged_def usec_def)
  next
    case False
    with assms v show ?thesis
      by (cases t) (fastforce simp: hour_inv_def z_elapse zaged_def usec_def)+
  qed
qed

lemma hour_inv_reserve:
  assumes inv: "hour_inv hk h st" and clock: "ls_last st < now" "usec (ls_clock st) \<le> now" "now < usec (ls_clock st + 1)"
    and h: "0 < h" and lua: "reserve_lua R hk ak now (now - usec HOURLY_WINDOW_S) h l (ls_store st) = (r, s')"
  shows "hour_inv hk h (st\<lparr>ls_store := s', ls_last := now, ls_accepted := ls_accepted st @ (if r = StOk then [now] else [])\<rparr>)"
proof -
  let ?W = "usec HOURLY_WINDOW_S" and ?acc = "ls_accepted st"
  obtain S t where v: "rz_view R (ls_store st) hk = (S, t)" by fastforce
  define S1 where "S1 = S - {0..now - ?W}"
  have acc: "0 \<le> a" "a \<le> ls_last st" "a \<in> S \<or> a + ?W \<le> now" if "a \<in> set ?acc" for a
  proof -
    from inv that v have "0 \<le> a \<and> a \<le> ls_last st \<and> (a \<in> S \<or> a + ?W \<le> max (ls_last st) (usec (ls_clock st)))"
      by (auto simp: hour_inv_def)
    with clock show "0 \<le> a" "a \<le> ls_last st" "a \<in> S \<or> a + ?W \<le> now" by auto
  qed
  have kept: "a \<in> S1 \<or> a + ?W \<le> now" if "a \<in> set ?acc" for a
    using acc [OF that] by (auto simp: S1_def)
  have sub: "S1 \<subseteq> set ?acc" "S1 \<subseteq> S" using inv v by (auto simp: hour_inv_def S1_def)
  have old: "\<exists>k. t = Some k \<and> a < (int (ls_clock st) + int k - 7199) * 1000000" if "a \<in> S1" for a
    using inv v that sub(2) by (auto simp: hour_inv_def)
  have hours: "int (card (in_hour x ?acc)) \<le> h" for x using inv by (simp add: hour_inv_def)
  have fin: "finite S1" using z_finite [of "ls_store st" hk] v by (simp add: S1_def)
  show ?thesis
  proof (cases "r = StOk")
    case False
    with lua_hourly [OF h lua] v have "rz_view R s' hk = zset S1 t" by (cases r) (auto simp: S1_def)
    with False kept acc(1,2) clock sub old hours show ?thesis
      by (fastforce simp: hour_inv_def zset_def)
  next
    case True
    with lua_hourly [OF h lua] v have room: "int (card S1) < h" and v': "rz_view R s' hk = (insert now S1, Some (2 * HOURLY_WINDOW_S))"
      by (auto simp: S1_def)
    have "int (card (in_hour x (?acc @ [now]))) \<le> h" for x
    proof (cases "x < now \<and> now \<le> x + ?W")
      case True
      have "in_hour x (?acc @ [now]) \<subseteq> insert now S1" using kept True by (fastforce simp: in_hour_def)
      then have "card (in_hour x (?acc @ [now])) \<le> card (insert now S1)" using fin by (intro card_mono) auto
      also have "\<dots> \<le> Suc (card S1)" by (rule card_insert_le_m1) simp_all
      finally show ?thesis using room by simp
    next
      case False
      then have "in_hour x (?acc @ [now]) = in_hour x ?acc" by (auto simp: in_hour_def)
      with hours show ?thesis by simp
    qed
    moreover have "a < (int (ls_clock st) + int (2 * HOURLY_WINDOW_S) - 7199) * 1000000" if "a \<in> insert now S1" for a
      using that sub(1) acc(2) [of a] clock by (auto simp: HOURLY_WINDOW_S_def usec_def)
    moreover have "0 \<le> now" using clock(2) by (simp add: usec_def)
    ultimately show ?thesis using True v' kept acc(1,2) clock sub(1)
      by (fastforce simp: hour_inv_def)
  qed
qed

lemma hour_inv_step:
  assumes inv: "hour_inv (rl_hourly_key (u_id me)) h st" and fair: "fair_ops me (ls_clock st) (ls_last st) (oper # ops)"
    and h: "0 < h" "h = tl_hourly (turn_limits_for S (user_kind_of me))" and me: "user_kind_of me \<noteq> KIND_ADMIN"
    and nonneg: "\<And>k. 0 \<le> tl_hourly (turn_limits_for S k)"
  shows "hour_inv (rl_hourly_key (u_id me)) h (limit_step R S me oper st)
    \<and> fair_ops me (ls_clock (limit_step R S me oper st)) (ls_last (limit_step R S me oper st)) ops"
proof (cases oper)
  case (LWait n)
  with inv fair hour_inv_wait show ?thesis by (simp add: limit_step_def)
next
  case (LRelease u)
  have "rz_view R (snd (release_turn R Fine Fine u s)) = rz_view R s" for s
    by (auto simp: release_turn_def Let_def split_beta z_apart split: if_splits)
  with LRelease inv fair hour_inv_store [OF inv, of _ "ls_last st"] show ?thesis by (simp add: limit_step_def)
next
  case (LReserve u now)
  with fair have c: "ls_last st < now" "usec (ls_clock st) \<le> now" "now < usec (ls_clock st + 1)"
    and kind: "u_id u = u_id me \<longrightarrow> user_kind_of u = user_kind_of me" by auto
  have "hour_inv (rl_hourly_key (u_id me)) h (limit_step R S me oper st)"
  proof (cases "u_id u = u_id me")
    case False
    then show ?thesis using LReserve hour_inv_store [OF inv reserve_other [OF False nonneg], of now] c(1)
      by (simp add: limit_step_def split_beta)
  next
    case True
    let ?l = "turn_limits_for S (user_kind_of me)"
    obtain r s' where lua: "reserve_lua R (rl_hourly_key (u_id me)) (rl_active_key (u_id me)) now (now - usec HOURLY_WINDOW_S)
        h (tl_active ?l) (ls_store st) = (r, s')" by fastforce
    from lua True kind me h(2) have "limit_step R S me oper st =
        st\<lparr>ls_store := s', ls_last := now, ls_accepted := ls_accepted st @ (if r = StOk then [now] else [])\<rparr>"
      by (cases r) (simp_all add: LReserve limit_step_def reserve_turn_def Let_def)
    with hour_inv_reserve [OF inv c h(1) lua] show ?thesis by simp
  qed
  with LReserve fair show ?thesis by (simp add: limit_step_def split_beta)
qed

lemma hour_inv_run:
  assumes h: "0 < h" "h = tl_hourly (turn_limits_for S (user_kind_of me))" and me: "user_kind_of me \<noteq> KIND_ADMIN"
    and nonneg: "\<And>k. 0 \<le> tl_hourly (turn_limits_for S k)"
  shows "hour_inv (rl_hourly_key (u_id me)) h st \<Longrightarrow> fair_ops me (ls_clock st) (ls_last st) ops \<Longrightarrow>
    hour_inv (rl_hourly_key (u_id me)) h (limit_run R S me ops st)"
proof (induction ops arbitrary: st)
  case (Cons oper ops)
  from hour_inv_step [OF Cons.prems h me nonneg] Cons.IH show ?case by (simp add: limit_run_def)
qed (simp add: limit_run_def)

end

section \<open>A server in memory\<close>

type_synonym memz = "mem \<times> (string \<Rightarrow> int list \<times> nat option)"

definition on_strings :: "(mem \<Rightarrow> 'a \<times> mem) \<Rightarrow> memz \<Rightarrow> 'a \<times> memz" where
  "on_strings cmd s = (let (r, m) = cmd (fst s) in (r, (m, snd s)))"

definition put_zset :: "string \<Rightarrow> int list \<Rightarrow> nat option \<Rightarrow> memz \<Rightarrow> memz" where
  "put_zset k xs t s = (fst s, (snd s)(k := (xs, if xs = [] then None else t)))"

definition mem_redisz :: "memz redisz" where
  "mem_redisz = \<lparr>
     rd_view = (\<lambda>s. fst s),
     rd_elapse = (\<lambda>n s. (rd_elapse mem_redis n (fst s), \<lambda>k. case snd (snd s k) of
        None \<Rightarrow> snd s k | Some t \<Rightarrow> if t \<le> n then ([], None) else (fst (snd s k), Some (t - n)))),
     rd_set_nx = (\<lambda>k v t. on_strings (rd_set_nx mem_redis k v t)),
     rd_set_ifeq = (\<lambda>k v t w. on_strings (rd_set_ifeq mem_redis k v t w)),
     rd_delex_ifeq = (\<lambda>k w. on_strings (rd_delex_ifeq mem_redis k w)),
     rd_get = (\<lambda>k. on_strings (rd_get mem_redis k)),
     rd_exists = (\<lambda>k. on_strings (rd_exists mem_redis k)),
     rd_expire = (\<lambda>k t. on_strings (rd_expire mem_redis k t)),
     rd_del = (\<lambda>k. on_strings (rd_del mem_redis k)),
     rd_incrby = (\<lambda>k i. on_strings (rd_incrby mem_redis k i)),
     rz_view = (\<lambda>s k. (set (fst (snd s k)), snd (snd s k))),
     rz_remrange = (\<lambda>k a b s. let xs = filter (\<lambda>x. \<not> (a \<le> x \<and> x \<le> b)) (fst (snd s k)) in
        (length (fst (snd s k)) - length xs, put_zset k xs (snd (snd s k)) s)),
     rz_card = (\<lambda>k s. (card (set (fst (snd s k))), s)),
     rz_add = (\<lambda>k x s. (if x \<in> set (fst (snd s k)) then 0 else 1, put_zset k (x # fst (snd s k)) (snd (snd s k)) s)),
     rz_expire = (\<lambda>k t s. (fst (snd s k) \<noteq> [], put_zset k (fst (snd s k)) (Some t) s)),
     rx_set = (\<lambda>k v t s. (True, ((fst s)(k \<mapsto> (v, Some t)), snd s)))\<rparr>"

interpretation memz: zset_laws mem_redisz
proof
qed (auto simp: mem_redisz_def mem_redis_def on_strings_def put_zset_def zset_def zaged_def fun_eq_iff Let_def
    filter_empty_conv split: option.splits)

section \<open>Properties\<close>


definition demo_me :: user_row where
  "demo_me = \<lparr>u_id = 7, u_tg = None, u_email = Some ''a@x.io'', u_hash = None, u_name = None, u_tgname = None, u_role = ROLE_USER\<rparr>"

definition demo_settings :: runtime_settings where
  "demo_settings = default_settings\<lparr>rs_web := \<lparr>tl_active = 0, tl_hourly = 1\<rparr>\<rparr>"

definition demo_limit_state :: "memz limit_state" where
  "demo_limit_state = \<lparr>ls_clock = 5, ls_last = 0, ls_store = (Map.empty, \<lambda>_. ([], None)), ls_accepted = []\<rparr>"

definition demo_limit_ops :: "limit_op list" where
  "demo_limit_ops = [LReserve demo_me 5000001, LReserve demo_me 5000002, LWait 3700, LReserve demo_me 3705000001]"

lemma demo_limit_run: "ls_accepted (limit_run mem_redisz demo_settings demo_me demo_limit_ops demo_limit_state) = [5000001, 3705000001]"
  by (simp add: limit_run_def demo_limit_ops_def limit_step_def demo_limit_state_def reserve_turn_def demo_me_def user_kind_of_def
      opt_truthy_def turn_limits_for_def demo_settings_def default_settings_def reserve_lua_def usec_def HOURLY_WINDOW_S_def
      mem_redisz_def mem_redis_def on_strings_def put_zset_def counter_at_def Let_def ACTIVE_TTL_S_def)


end
