(* ===== verification/Chats.thy ===== *)
theory Chats
  imports Accounts Chat_Stream
begin

text \<open>
  Chats and their messages: \<open>services/chats/service.py\<close>, \<open>services/messages/service.py\<close>, the
  guards of \<open>rpc/chat/guards.py\<close>, the listing of \<open>rpc/message.py\<close>, the replay of history
  (\<open>codex/history.py\<close>) and the activity channel (\<open>services/chat_activity\<close>). The last part
  shows that scrolling back with cursors reads the whole chat.
\<close>

section \<open>Chats\<close>

datatype chat_source = SRC_WEB | SRC_TELEGRAM

record chat_row =
  c_id :: int
  c_user :: int
  c_source :: chat_source
  c_tg :: "int option"
  c_tg_thread :: "int option"
  c_thread :: "string option"
  c_title :: "string option"
  c_last_msg :: int

text \<open>The unique index over Telegram chats and topics, null counting as a value.\<close>

definition chat_clash :: "chat_row \<Rightarrow> chat_row \<Rightarrow> bool" where
  "chat_clash r s \<longleftrightarrow> c_source r = SRC_TELEGRAM \<and> c_source s = SRC_TELEGRAM \<and> c_tg r = c_tg s \<and> c_tg_thread r = c_tg_thread s"

definition get_chat :: "(chat_row, 'c) table \<Rightarrow> int \<Rightarrow> 'c \<Rightarrow> chat_row option" where
  "get_chat T i d = tb_view T d i"

definition new_chat :: "int \<Rightarrow> chat_source \<Rightarrow> int option \<Rightarrow> int option \<Rightarrow> int \<Rightarrow> int \<Rightarrow> chat_row" where
  "new_chat user source tg thread now k = \<lparr>c_id = k, c_user = user, c_source = source, c_tg = tg, c_tg_thread = thread,
     c_thread = None, c_title = None, c_last_msg = now\<rparr>"

definition get_or_create_for_tg ::
  "(chat_row, 'c) table \<Rightarrow> int \<Rightarrow> int \<Rightarrow> int option \<Rightarrow> int \<Rightarrow> 'c \<Rightarrow> (chat_row \<times> 'c) option" where
  "get_or_create_for_tg T user tg thread now d =
     (case one_or_none (tb_select T (\<lambda>c. c_source c = SRC_TELEGRAM \<and> c_tg c = Some tg \<and> c_tg_thread c = thread) d) of
        Some c \<Rightarrow> Some (c, d)
      | None \<Rightarrow> tb_insert T (new_chat user SRC_TELEGRAM (Some tg) thread now) d)"

definition create_web_chat :: "(chat_row, 'c) table \<Rightarrow> int \<Rightarrow> int \<Rightarrow> 'c \<Rightarrow> (chat_row \<times> 'c) option" where
  "create_web_chat T user now d = tb_insert T (new_chat user SRC_WEB None None now) d"

definition count_web_for_user :: "(chat_row, 'c) table \<Rightarrow> int \<Rightarrow> 'c \<Rightarrow> nat" where
  "count_web_for_user T user d = length (tb_select T (\<lambda>c. c_user c = user \<and> c_source c = SRC_WEB) d)"

definition get_or_create_for_web :: "(chat_row, 'c) table \<Rightarrow> int \<Rightarrow> int \<Rightarrow> 'c \<Rightarrow> (chat_row \<times> 'c) option" where
  "get_or_create_for_web T user now d =
     (case sort_key c_id (tb_select T (\<lambda>c. c_source c = SRC_WEB \<and> c_user c = user) d) of
        c # _ \<Rightarrow> Some (c, d)
      | [] \<Rightarrow> create_web_chat T user now d)"

definition set_codex_thread_id :: "(chat_row, 'c) table \<Rightarrow> int \<Rightarrow> string option \<Rightarrow> 'c \<Rightarrow> 'c" where
  "set_codex_thread_id T i thread d = snd (tb_update T (\<lambda>c. c_id c = i) (\<lambda>c. c\<lparr>c_thread := thread\<rparr>) d)"

definition touch_last_msg_at :: "(chat_row, 'c) table \<Rightarrow> int \<Rightarrow> int \<Rightarrow> 'c \<Rightarrow> 'c" where
  "touch_last_msg_at T i now d = snd (tb_update T (\<lambda>c. c_id c = i) (\<lambda>c. c\<lparr>c_last_msg := now\<rparr>) d)"

definition list_for_user :: "(chat_row, 'c) table \<Rightarrow> int \<Rightarrow> nat \<Rightarrow> chat_source option \<Rightarrow> 'c \<Rightarrow> chat_row list" where
  "list_for_user T user limit source d =
     take limit (sort_key (\<lambda>c. - c_last_msg c)
       (tb_select T (\<lambda>c. c_user c = user \<and> (source = None \<or> source = Some (c_source c))) d))"

section \<open>Messages\<close>

datatype message_role = MSG_USER | MSG_ASSISTANT | MSG_TOOL | MSG_SYSTEM

record msg_row =
  mg_id :: int
  mg_chat :: int
  mg_role :: message_role
  mg_text :: string
  mg_meta :: "json option"

text \<open>The two tables a transaction of the message service touches.\<close>

type_synonym ('c, 'm) chat_store = "'c \<times> 'm"

definition append_message ::
  "(chat_row, 'c) table \<Rightarrow> (msg_row, 'm) table \<Rightarrow> int \<Rightarrow> message_role \<Rightarrow> string \<Rightarrow> json option \<Rightarrow> int \<Rightarrow>
     ('c, 'm) chat_store \<Rightarrow> (msg_row \<times> ('c, 'm) chat_store) option" where
  "append_message T M chat role txt meta now d =
     (case tb_insert M (\<lambda>k. \<lparr>mg_id = k, mg_chat = chat, mg_role = role, mg_text = txt, mg_meta = meta\<rparr>) (snd d) of
        None \<Rightarrow> None
      | Some (m, dm) \<Rightarrow> Some (m, (touch_last_msg_at T chat now (fst d), dm)))"

definition delete_messages :: "(msg_row, 'm) table \<Rightarrow> int list \<Rightarrow> 'm \<Rightarrow> 'm" where
  "delete_messages M ids d = (if ids = [] then d else snd (tb_delete M (\<lambda>m. mg_id m \<in> set ids) d))"

definition update_text :: "(msg_row, 'm) table \<Rightarrow> int \<Rightarrow> string \<Rightarrow> json option \<Rightarrow> 'm \<Rightarrow> 'm" where
  "update_text M i txt meta d =
     (case tb_view M d i of
        None \<Rightarrow> d
      | Some _ \<Rightarrow> snd (tb_update M (\<lambda>m. mg_id m = i) (\<lambda>m. m\<lparr>mg_text := txt, mg_meta := meta\<rparr>) d))"

definition list_messages :: "(msg_row, 'm) table \<Rightarrow> int \<Rightarrow> nat \<Rightarrow> int option \<Rightarrow> 'm \<Rightarrow> msg_row list" where
  "list_messages M chat limit before d =
     rev (take limit (sort_key (\<lambda>m. - mg_id m)
       (tb_select M (\<lambda>m. mg_chat m = chat \<and> (case before of None \<Rightarrow> True | Some b \<Rightarrow> mg_id m < b)) d)))"

definition list_recent :: "(msg_row, 'm) table \<Rightarrow> int \<Rightarrow> nat \<Rightarrow> 'm \<Rightarrow> msg_row list" where
  "list_recent M chat limit d = rev (take limit (sort_key (\<lambda>m. - mg_id m) (tb_select M (\<lambda>m. mg_chat m = chat) d)))"

section \<open>Guards\<close>

definition CHATS_DEFAULT_LIMIT :: int where
  "CHATS_DEFAULT_LIMIT = 50"

definition CHATS_MAX_LIMIT :: int where
  "CHATS_MAX_LIMIT = 200"

definition resolve_limit :: "int \<Rightarrow> int" where
  "resolve_limit p = min (if 0 < p then p else CHATS_DEFAULT_LIMIT) CHATS_MAX_LIMIT"

definition load_chat_owned ::
  "(chat_row, 'c) table \<Rightarrow> int \<Rightarrow> int \<Rightarrow> chat_source option \<Rightarrow> 'c \<Rightarrow> rpc_code + chat_row" where
  "load_chat_owned T i user expected d =
     (case get_chat T i d of
        None \<Rightarrow> Inl RPC_NOT_FOUND
      | Some c \<Rightarrow>
          if c_user c \<noteq> user then Inl RPC_NOT_FOUND
          else if expected \<noteq> None \<and> expected \<noteq> Some (c_source c) then Inl RPC_NOT_FOUND
          else Inr c)"

definition message_limit :: "int \<Rightarrow> int" where
  "message_limit p = min (if 0 < p then p else 100) 500"

definition rpc_list_messages ::
  "(chat_row, 'c) table \<Rightarrow> (msg_row, 'm) table \<Rightarrow> int \<Rightarrow> int \<Rightarrow> int \<Rightarrow> int option \<Rightarrow> ('c, 'm) chat_store \<Rightarrow>
     rpc_code + msg_row list" where
  "rpc_list_messages T M user chat page before d =
     (case load_chat_owned T chat user None (fst d) of
        Inl code \<Rightarrow> Inl code
      | Inr _ \<Rightarrow> Inr (list_messages M chat (nat (message_limit page)) before (snd d)))"

section \<open>History\<close>

definition history_item :: "msg_row \<Rightarrow> json option" where
  "history_item m =
     (let txt = py_strip (mg_text m);
          item = (\<lambda>role kind. Some (JObj [(''type'', JStr ''message''), (''role'', JStr role),
             (''content'', JList [JObj [(''type'', JStr kind), (''text'', JStr txt)]])]))
      in if mg_role m \<notin> {MSG_USER, MSG_ASSISTANT} \<or> txt = [] then None
         else if mg_role m = MSG_USER then item ''user'' ''input_text''
         else item ''assistant'' ''output_text'')"

definition messages_to_history_items :: "msg_row list \<Rightarrow> json list" where
  "messages_to_history_items ms = map the (filter (\<lambda>i. i \<noteq> None) (map history_item ms))"

section \<open>Activity events\<close>

definition activity_payload :: "string \<Rightarrow> int \<Rightarrow> int \<Rightarrow> json" where
  "activity_payload kind chat turn = JObj [(''chat_id'', JInt chat), (''turn_id'', JInt turn), (''kind'', JStr kind)]"

definition channel_for_user :: "int \<Rightarrow> string" where
  "channel_for_user user = ''chat_activity:'' @ str_of_int user"

text \<open>What the handler of the activity stream makes of a payload; \<open>isinstance(x, int)\<close> holds for a Boolean too.\<close>

datatype activity_event = ActStarted int int | ActEnded int int

definition json_int :: "json option \<Rightarrow> int option" where
  "json_int j = (case j of Some (JInt i) \<Rightarrow> Some i | Some (JBool b) \<Rightarrow> Some (if b then 1 else 0) | _ \<Rightarrow> None)"

definition chat_activity_to_pb :: "(string \<times> json) list \<Rightarrow> activity_event option" where
  "chat_activity_to_pb payload =
     (case (json_int (jget payload ''chat_id''), json_int (jget payload ''turn_id'')) of
        (Some chat, Some turn) \<Rightarrow>
          if jget payload ''kind'' = Some (JStr ''started'') then Some (ActStarted chat turn)
          else if jget payload ''kind'' = Some (JStr ''ended'') then Some (ActEnded chat turn)
          else None
      | _ \<Rightarrow> None)"

lemma activity_round_trip:
  "activity_payload ''started'' c t = JObj kv \<Longrightarrow> chat_activity_to_pb kv = Some (ActStarted c t)"
  "activity_payload ''ended'' c t = JObj kv \<Longrightarrow> chat_activity_to_pb kv = Some (ActEnded c t)"
  by (auto simp: activity_payload_def chat_activity_to_pb_def json_int_def)

section \<open>Scrolling back\<close>

text \<open>The messages of a chat in the order of their ids, and the pages a client reads going back.\<close>

definition chat_log :: "(msg_row, 'm) table \<Rightarrow> int \<Rightarrow> 'm \<Rightarrow> msg_row list" where
  "chat_log M chat d = sort_key mg_id (tb_select M (\<lambda>m. mg_chat m = chat) d)"

fun read_back :: "(msg_row, 'm) table \<Rightarrow> int \<Rightarrow> nat \<Rightarrow> int option \<Rightarrow> 'm list \<Rightarrow> msg_row list" where
  "read_back M chat limit before [] = []"
| "read_back M chat limit before (d # ds) =
     (let page = list_messages M chat limit before d in
      if page = [] then [] else read_back M chat limit (Some (mg_id (hd page))) ds @ page)"

lemma sort_key_reverse:
  fixes f :: "'a \<Rightarrow> int"
  assumes "distinct (map f xs)"
  shows "sort_key (\<lambda>x. - f x) xs = rev (sort_key f xs)"
proof (rule map_sorted_distinct_set_unique [where f = "\<lambda>x. - f x"])
  have inj: "inj_on f (set xs)" using assms by (simp add: distinct_map)
  then show "inj_on (\<lambda>x. - f x) (set (sort_key (\<lambda>x. - f x) xs) \<union> set (rev (sort_key f xs)))"
    by (auto simp: inj_on_def)
  have d: "distinct (map (\<lambda>x. - f x) ys) \<longleftrightarrow> distinct (map f ys)" for ys
    by (auto simp: distinct_map inj_on_def)
  have ds: "distinct (map f (sort_key g xs))" for g :: "'a \<Rightarrow> int"
    using assms by (simp add: distinct_map inj)
  show "distinct (map (\<lambda>x. - f x) (sort_key (\<lambda>x. - f x) xs))" unfolding d by (rule ds)
  show "distinct (map (\<lambda>x. - f x) (rev (sort_key f xs)))" unfolding d by (simp add: rev_map [symmetric] ds)
  show "sorted (map (\<lambda>x. - f x) (sort_key (\<lambda>x. - f x) xs))" by simp
  have "sorted_wrt (\<le>) (map f (sort_key f xs))" by simp
  then show "sorted (map (\<lambda>x. - f x) (rev (sort_key f xs)))"
    unfolding rev_map [symmetric] sorted_wrt_rev sorted_wrt_map by simp
qed simp

lemma filter_before:
  assumes "sorted_wrt (<) (map mg_id (xs @ m # ys))"
  shows "filter (\<lambda>x. mg_id x < mg_id m) (xs @ m # ys) = xs"
  using assms by (auto simp: sorted_wrt_append filter_id_conv filter_empty_conv dest: less_asym)

locale message_table = table_laws M mg_id uniq okM
  for M :: "(msg_row, 'm) table" and uniq okM
begin

lemma log_sorted: "okM d \<Longrightarrow> sorted_wrt (<) (map mg_id (chat_log M chat d))"
proof -
  assume ok: "okM d"
  have inj: "inj_on mg_id (set (tb_select M p d))" for p
    using pk_view [OF ok] select_set [OF ok, of p] by (auto simp: inj_on_def)
  have "sorted (map mg_id (chat_log M chat d))" by (simp add: chat_log_def)
  moreover have "distinct (map mg_id (chat_log M chat d))"
    using select_distinct [OF ok] inj by (simp add: chat_log_def distinct_map)
  ultimately show ?thesis by (simp add: strict_sorted_iff)
qed

text \<open>A page is the end of the part of the log before the cursor.\<close>

lemma list_messages_log:
  assumes "okM d"
  shows "list_messages M chat limit before d =
    (let xs = filter (\<lambda>m. case before of None \<Rightarrow> True | Some b \<Rightarrow> mg_id m < b) (chat_log M chat d)
     in drop (length xs - limit) xs)"
proof -
  let ?p = "\<lambda>m. case before of None \<Rightarrow> True | Some b \<Rightarrow> mg_id m < b"
  let ?rows = "tb_select M (\<lambda>m. mg_chat m = chat \<and> ?p m) d" and ?xs = "filter ?p (chat_log M chat d)"
  have inj: "inj_on mg_id (set (tb_select M q d))" for q
    using pk_view [OF assms] select_set [OF assms, of q] by (auto simp: inj_on_def)
  have dist: "distinct (map mg_id ?rows)" using select_distinct [OF assms] inj by (simp add: distinct_map)
  have "sort_key mg_id ?rows = ?xs"
  proof (rule map_sorted_distinct_set_unique [where f = mg_id])
    show "set (sort_key mg_id ?rows) = set ?xs" using select_set [OF assms] by (auto simp: chat_log_def)
    then have "set (sort_key mg_id ?rows) \<union> set ?xs = set ?rows" by (simp only: set_sort Un_absorb)
    then show "inj_on mg_id (set (sort_key mg_id ?rows) \<union> set ?xs)" by (simp only: inj)
    have "sorted_wrt (<) (map mg_id ?xs)" using log_sorted [OF assms, of chat]
      by (simp add: sorted_wrt_map sorted_wrt_filter)
    then show "sorted (map mg_id ?xs)" "distinct (map mg_id ?xs)" by (simp_all add: strict_sorted_iff)
  qed (use dist in \<open>simp_all add: distinct_map\<close>)
  then show ?thesis by (simp add: list_messages_def sort_key_reverse [OF dist] Let_def take_rev)
qed

lemma read_back_log:
  assumes "\<forall>d \<in> set ds. okM d \<and> filter (\<lambda>m. mg_id m < b) (chat_log M chat d) = xs"
    and "length xs \<le> limit * length ds" "0 < limit"
  shows "read_back M chat limit (Some b) ds = xs"
  using assms
proof (induction ds arbitrary: b xs)
  case (Cons d ds)
  from Cons.prems have ok: "okM d" and xs: "filter (\<lambda>m. mg_id m < b) (chat_log M chat d) = xs" by auto
  let ?k = "length xs - limit"
  have page: "list_messages M chat limit (Some b) d = drop ?k xs"
    by (simp add: list_messages_log [OF ok] xs Let_def)
  show ?case
  proof (cases xs)
    case Nil
    with page show ?thesis by simp
  next
    case (Cons m ms)
    then have k: "?k < length xs" using assms(3) by simp
    let ?h = "hd (drop ?k xs)"
    have split: "xs = take ?k xs @ ?h # tl (drop ?k xs)" using k by (metis append_take_drop_id hd_Cons_tl drop_eq_Nil leD)
    have srt: "sorted_wrt (<) (map mg_id xs)" using log_sorted [OF ok, of chat] xs
      by (auto simp: sorted_wrt_map sorted_wrt_filter)
    have "filter (\<lambda>m. mg_id m < mg_id ?h) xs = take ?k xs" using filter_before [of "take ?k xs" ?h] srt split by metis
    moreover have "?h \<in> set xs" using split by (metis in_set_conv_decomp)
    then have "mg_id ?h < b" unfolding xs [symmetric] by simp
    then have "filter (\<lambda>m. mg_id m < mg_id ?h) (filter (\<lambda>m. mg_id m < b) ys) = filter (\<lambda>m. mg_id m < mg_id ?h) ys" for ys
      by (auto intro: filter_cong)
    ultimately have "\<forall>d \<in> set ds. okM d \<and> filter (\<lambda>m. mg_id m < mg_id ?h) (chat_log M chat d) = take ?k xs"
      using Cons.prems(1) by (metis list.set_intros(2))
    then have "read_back M chat limit (Some (mg_id ?h)) ds = take ?k xs"
      using Cons.prems(2,3) by (intro Cons.IH) auto
    with page k show ?thesis by (simp add: Let_def)
  qed
qed simp

lemma read_back_all:
  assumes ok: "\<forall>d \<in> set (d0 # ds). okM d" and newer: "\<forall>d \<in> set ds. prefix (chat_log M chat d0) (chat_log M chat d)"
    and "length (chat_log M chat d0) \<le> limit * length (d0 # ds)" "0 < limit"
  shows "read_back M chat limit None (d0 # ds) = chat_log M chat d0"
proof -
  let ?log = "chat_log M chat d0"
  let ?k = "length ?log - limit"
  have page: "list_messages M chat limit None d0 = drop ?k ?log"
    using ok by (simp add: list_messages_log Let_def)
  show ?thesis
  proof (cases "?log = []")
    case True
    with page show ?thesis by simp
  next
    case False
    then have k: "?k < length ?log" using assms(4) by simp
    let ?h = "hd (drop ?k ?log)"
    have split: "?log = take ?k ?log @ ?h # tl (drop ?k ?log)"
      using k by (metis append_take_drop_id hd_Cons_tl drop_eq_Nil leD)
    have "filter (\<lambda>m. mg_id m < mg_id ?h) (chat_log M chat d) = take ?k ?log" if "d \<in> set ds" for d
    proof -
      from newer that obtain zs where "chat_log M chat d = ?log @ zs" by (auto simp: prefix_def)
      with split have "chat_log M chat d = take ?k ?log @ ?h # tl (drop ?k ?log) @ zs" by (metis append.assoc append_Cons)
      moreover have "sorted_wrt (<) (map mg_id (chat_log M chat d))" using ok that by (intro log_sorted) simp
      ultimately show ?thesis using filter_before by metis
    qed
    then have "read_back M chat limit (Some (mg_id ?h)) ds = take ?k ?log"
      using ok assms(3,4) by (intro read_back_log) auto
    with page k show ?thesis by (simp add: Let_def)
  qed
qed

end

section \<open>Properties\<close>

text \<open>
  C20: a client that reads a chat page by page, each page before the first message of the last
  one, gets exactly the messages the chat had at the first read, in order, none twice and none
  left out, also when messages are added to the chat in the meantime.
\<close>

theorem scroll_back_complete:
  assumes "message_table M uniq okM" "\<forall>d \<in> set (d0 # ds). okM d"
    and "\<forall>d \<in> set ds. prefix (chat_log M chat d0) (chat_log M chat d)"
    and "length (chat_log M chat d0) \<le> limit * length (d0 # ds)" "0 < limit"
  shows "read_back M chat limit None (d0 # ds) = chat_log M chat d0"
  by (rule message_table.read_back_all [OF assms])

interpretation message_mem: message_table "mem_table (\<lambda>_. True)" "\<lambda>_. True" "rows_ok mg_id (\<lambda>_. True)"
  by unfold_locales

definition demo_msg :: "int \<Rightarrow> msg_row" where
  "demo_msg k = \<lparr>mg_id = k, mg_chat = 1, mg_role = MSG_USER, mg_text = [], mg_meta = None\<rparr>"

definition demo_msgs :: "int \<Rightarrow> msg_row rows" where
  "demo_msgs n = (n + 1, map (\<lambda>k. (k, demo_msg k)) [1..n])"

lemma scroll_back_complete_witness:
  "map mg_id (read_back (mem_table (\<lambda>_. True)) 1 2 None [demo_msgs 3, demo_msgs 5]) = [1, 2, 3]"
proof -
  have up: "[1..3] = [1, 2, 3 :: int]" "[1..5] = [1, 2, 3, 4, 5 :: int]" by (simp_all add: upto.simps)
  have l: "chat_log (mem_table (\<lambda>_. True)) 1 (demo_msgs 3) = map demo_msg [1, 2, 3]"
    "chat_log (mem_table (\<lambda>_. True)) 1 (demo_msgs 5) = map demo_msg [1, 2, 3, 4, 5]"
    by (simp_all add: chat_log_def mem_table_def demo_msgs_def up demo_msg_def)
  have "\<forall>d \<in> set [demo_msgs 3, demo_msgs 5]. rows_ok mg_id (\<lambda>_. True) d"
    by (simp add: rows_ok_def demo_msgs_def up demo_msg_def)
  from scroll_back_complete [OF message_mem.message_table_axioms this, of 1 2] show ?thesis
    by (simp add: l demo_msg_def)
qed

end
