(* ===== verification/Chat_Rpc.thy ===== *)
theory Chat_Rpc
  imports Rate_Limit Chats Turn_Runner
begin

text \<open>
  The handlers of \<open>rpc/chat/service.py\<close> with the control channel of \<open>codex/codex_remote.py\<close>:
  starting a turn (rate limit, active turn, row and message, queue), following it, steering and
  interrupting it, and the operations on chats. A handler works on the tables, on Redis and on
  the queue; what it meets, the sidecar's answers and the fate of each Redis command, is the
  argument \<open>e\<close>. A dash in a text sent to the client is written as a hyphen here.
\<close>

section \<open>Steering signals\<close>

definition steer_key :: "int \<Rightarrow> string" where
  "steer_key chat = ''codex:active-steer:'' @ str_of_int chat"

definition steer_count_key :: "int \<Rightarrow> string" where
  "steer_count_key turn = ''codex:steer-count:'' @ str_of_int turn"

definition quarantine_key :: "string \<Rightarrow> string" where
  "quarantine_key thread = ''codex:thread:quarantine:'' @ thread"

definition note_steer :: "('s, 'x) redisz_scheme \<Rightarrow> fault \<Rightarrow> nat \<Rightarrow> int \<Rightarrow> string \<Rightarrow> 's \<Rightarrow> 's" where
  "note_steer R f ttl chat codex_turn s = snd (call f (rx_set R (steer_key chat) codex_turn ttl) s)"

definition bump_steer_count :: "('s, 'x) redisz_scheme \<Rightarrow> fault \<Rightarrow> fault \<Rightarrow> nat \<Rightarrow> int \<Rightarrow> 's \<Rightarrow> 's" where
  "bump_steer_count R f g ttl turn s =
     (case call f (rd_incrby R (steer_count_key turn) 1) s of
        (None, s') \<Rightarrow> s'
      | (Some _, s') \<Rightarrow> snd (call g (rd_expire R (steer_count_key turn) ttl) s'))"

definition peek_steer_count :: "('s, 'x) redis_scheme \<Rightarrow> fault \<Rightarrow> int \<Rightarrow> 's \<Rightarrow> int \<times> 's" where
  "peek_steer_count R f turn s =
     (case call f (rd_get R (steer_count_key turn)) s of
        (Some (Some raw), s') \<Rightarrow> (case py_int raw of None \<Rightarrow> 0 | Some n \<Rightarrow> n, s')
      | (_, s') \<Rightarrow> (0, s'))"

definition consume_steer :: "('s, 'x) redis_scheme \<Rightarrow> fault \<Rightarrow> fault \<Rightarrow> int \<Rightarrow> string option \<Rightarrow> 's \<Rightarrow> bool \<times> 's" where
  "consume_steer R f g chat codex_turn s =
     (case codex_turn of
        None \<Rightarrow> (False, s)
      | Some t \<Rightarrow>
          (case call f (rd_get R (steer_key chat)) s of
             (Some (Some seen), s1) \<Rightarrow>
               if seen \<noteq> t then (False, s1)
               else (case call g (rd_del R (steer_key chat)) s1 of (r, s2) \<Rightarrow> (r \<noteq> None, s2))
           | (_, s1) \<Rightarrow> (False, s1)))"

definition quarantine_thread :: "('s, 'x) redisz_scheme \<Rightarrow> fault \<Rightarrow> string option \<Rightarrow> 's \<Rightarrow> 's" where
  "quarantine_thread R f thread s =
     (if \<not> opt_truthy thread then s else snd (call f (rx_set R (quarantine_key (the thread)) ''broken'' 86400) s))"

section \<open>The world of a handler\<close>

datatype web_event = WEv pb_event | WTurnStarted int | WSteered int

record ('s, 'd, 'c, 'm) web =
  wb_w :: "('s, 'd) world"
  wb_chats :: 'c
  wb_msgs :: 'm
  wb_events :: "(event_kind \<times> json) list"
  wb_queue :: "int list"

abbreviation srv :: "('s, 'd, 'c, 'm) web \<Rightarrow> 's" where
  "srv W \<equiv> l_srv (rw_lease (wb_w W))"

definition on_srv :: "('s \<Rightarrow> 's) \<Rightarrow> ('s, 'd, 'c, 'm) web \<Rightarrow> ('s, 'd, 'c, 'm) web" where
  "on_srv f W = W\<lparr>wb_w := (wb_w W)\<lparr>rw_lease := (rw_lease (wb_w W))\<lparr>l_srv := f (srv W)\<rparr>\<rparr>\<rparr>"

record ('c, 'm, 'd) tables =
  ta_chats :: "(chat_row, 'c) table"
  ta_msgs :: "(msg_row, 'm) table"
  ta_turns :: "(turn_row, 'd) table"

record resolved_uploads =
  ru_image_urls :: "string list"
  ru_image_ids :: "int list"
  ru_audio_ids :: "int list"
  ru_file_paths :: "string list"
  ru_file_ids :: "int list"

datatype enqueue_result = Enqueued | EnqueueFailed string | EnqueueCrashed

record rpc_env =
  rv_now :: int
  rv_clock :: int
  rv_reserve :: fault
  rv_release :: fault
  rv_release_del :: fault
  rv_uploads :: "rpc_code + resolved_uploads"
  rv_orphan :: fault
  rv_exists :: fault
  rv_zombie :: fault
  rv_steer :: control
  rv_note :: fault
  rv_bump :: fault
  rv_bump_ttl :: fault
  rv_steer_ttl :: nat
  rv_interrupt :: control
  rv_quarantine :: fault
  rv_enqueue :: enqueue_result
  rv_reads :: "(pb_event list \<times> bool) list"
  rv_row_after :: "turn_row option"
  rv_msg_after :: "int \<Rightarrow> msg_row option"

record run_request =
  rr_text :: string
  rr_uploads :: "int list"
  rr_chat :: "int option"
  rr_client :: string

record prepared_turn =
  pt_chat :: int
  pt_user :: int
  pt_text :: string
  pt_uploads :: resolved_uploads
  pt_voice :: bool
  pt_has_uploads :: bool
  pt_sidecar :: sidecar_name
  pt_client :: "string option"

section \<open>Preparing a turn\<close>

definition format_mentions :: "string list \<Rightarrow> string" where
  "format_mentions paths =
     (if paths = [] then []
      else ''Attached files (open from cwd):'' @ [CHR 0x0A] @
        join_with [CHR 0x0A] (map (\<lambda>p. ''- `'' @ p @ ''`'') paths))"

definition resolve_web_chat ::
  "(chat_row, 'c) table \<Rightarrow> int option \<Rightarrow> int \<Rightarrow> int \<Rightarrow> 'c \<Rightarrow> (rpc_code + int) \<times> 'c" where
  "resolve_web_chat T chat user now d =
     (case chat of
        Some i \<Rightarrow> (case load_chat_owned T i user (Some SRC_WEB) d of Inl code \<Rightarrow> (Inl code, d) | Inr c \<Rightarrow> (Inr (c_id c), d))
      | None \<Rightarrow> (case get_or_create_for_web T user now d of None \<Rightarrow> (Inl RPC_INTERNAL, d) | Some (c, d') \<Rightarrow> (Inr (c_id c), d')))"

definition prepare_run_turn ::
  "('c, 'm, 'd) tables \<Rightarrow> rpc_env \<Rightarrow> run_request \<Rightarrow> string \<Rightarrow> user_row \<Rightarrow> ('s, 'd, 'c, 'm) web \<Rightarrow>
     (rpc_code + prepared_turn) \<times> ('s, 'd, 'c, 'm) web" where
  "prepare_run_turn T e q txt u W =
     (case resolve_web_chat (ta_chats T) (rr_chat q) (u_id u) (rv_now e) (wb_chats W) of
        (Inl code, d) \<Rightarrow> (Inl code, W\<lparr>wb_chats := d\<rparr>)
      | (Inr chat, d) \<Rightarrow>
          let W1 = W\<lparr>wb_chats := d\<rparr> in
          (case (if rr_uploads q = [] then Inr \<lparr>ru_image_urls = [], ru_image_ids = [], ru_audio_ids = [], ru_file_paths = [], ru_file_ids = []\<rparr>
                 else rv_uploads e) of
             Inl code \<Rightarrow> (Inl code, W1)
           | Inr up \<Rightarrow>
               let txt1 = (if txt = [] \<and> (ru_image_urls up \<noteq> [] \<or> ru_file_paths up \<noteq> [])
                           then ''Open the attached files and answer based on them.'' else txt);
                   mentions = format_mentions (ru_file_paths up);
                   txt2 = (if mentions = [] then txt1 else if txt1 \<noteq> [] then txt1 @ [CHR 0x0A, CHR 0x0A] @ mentions else mentions)
               in (Inr \<lparr>pt_chat = chat, pt_user = u_id u, pt_text = txt2, pt_uploads = up,
                     pt_voice = (ru_audio_ids up \<noteq> []),
                     pt_has_uploads = (ru_image_urls up \<noteq> [] \<or> ru_file_paths up \<noteq> [] \<or> ru_audio_ids up \<noteq> []),
                     pt_sidecar = (if u_role u = ROLE_ADMIN then AdminSidecar else GuestSidecar),
                     pt_client = none_if_empty (rr_client q)\<rparr>, W1)))"

definition user_message_meta :: "prepared_turn \<Rightarrow> json option" where
  "user_message_meta p =
     (let up = pt_uploads p; ints = (\<lambda>xs. JList (map JInt xs));
          meta = (if ru_image_ids up \<noteq> [] then [(''upload_ids'', ints (ru_image_ids up))] else [])
            @ (if ru_audio_ids up \<noteq> [] then [(''audio_upload_ids'', ints (ru_audio_ids up))] else [])
            @ (if ru_file_ids up \<noteq> [] then [(''file_upload_ids'', ints (ru_file_ids up))] else [])
      in if meta = [] then None else Some (JObj meta))"

section \<open>A turn that is already active\<close>

definition control_caught :: "rpc_exn \<Rightarrow> bool" where
  "control_caught x = (case x of AppServerError _ _ _ \<Rightarrow> True | SendFailed \<Rightarrow> True | RequestTimeout \<Rightarrow> True | _ \<Rightarrow> False)"

abbreviation busy :: "string \<Rightarrow> web_event" where
  "busy detail \<equiv> WEv (error_event (error_code_value TURN_BUSY) (Some detail))"

definition handle_stale_turn ::
  "('s, 'x) redisz_scheme \<Rightarrow> ('c, 'm, 'd) tables \<Rightarrow> rpc_env \<Rightarrow> turn_row \<Rightarrow> string \<Rightarrow> ('s, 'd, 'c, 'm) web \<Rightarrow> ('s, 'd, 'c, 'm) web" where
  "handle_stale_turn R T e turn actual W =
     (let W1 = on_srv (quarantine_thread R (rv_quarantine e) (t_thread turn)) W in
      W1\<lparr>wb_w := finalize_tx (ta_turns T) (t_id turn) FAILED (Some (error_code_value STALE_ACTIVE_TURN))
        (Some (''sidecar held '' @ actual)) (rv_now e) (wb_w W1)\<rparr>)"

definition steered_meta :: json where
  "steered_meta = JObj [(''steered'', JBool True)]"

text \<open>The accepted steer: the message is stored first, then the counter is raised.\<close>

definition record_steer ::
  "('s, 'x) redisz_scheme \<Rightarrow> ('c, 'm, 'd) tables \<Rightarrow> rpc_env \<Rightarrow> int \<Rightarrow> int \<Rightarrow> string \<Rightarrow> ('s, 'd, 'c, 'm) web \<Rightarrow>
     (rpc_code + unit) \<times> ('s, 'd, 'c, 'm) web" where
  "record_steer R T e chat turn txt W =
     (case append_message (ta_chats T) (ta_msgs T) chat MSG_USER txt (Some steered_meta) (rv_now e) (wb_chats W, wb_msgs W) of
        None \<Rightarrow> (Inl RPC_INTERNAL, W)
      | Some (m, (dc, dm)) \<Rightarrow>
          (Inr (), on_srv (bump_steer_count R (rv_bump e) (rv_bump_ttl e) (rv_steer_ttl e) turn) (W\<lparr>wb_chats := dc, wb_msgs := dm\<rparr>)))"

definition try_steer_active_turn ::
  "('s, 'x) redisz_scheme \<Rightarrow> ('c, 'm, 'd) tables \<Rightarrow> rpc_env \<Rightarrow> prepared_turn \<Rightarrow> turn_row \<Rightarrow> string \<Rightarrow> ('s, 'd, 'c, 'm) web \<Rightarrow>
     (rpc_code + web_event option) \<times> ('s, 'd, 'c, 'm) web" where
  "try_steer_active_turn R T e p turn codex_turn W =
     (case rv_steer e of
        StaleTurn _ actual \<Rightarrow>
          (Inr (Some (WEv (error_event (error_code_value STALE_ACTIVE_TURN) (Some ''previous Codex turn is stale; retry shortly'')))),
           handle_stale_turn R T e turn actual W)
      | ControlRaised x \<Rightarrow> (if control_caught x then Inr None else Inl RPC_INTERNAL, W)
      | Declined \<Rightarrow> (Inr None, W)
      | Accepted \<Rightarrow>
          (case record_steer R T e (pt_chat p) (t_id turn) (pt_text p)
             (on_srv (note_steer R (rv_note e) (rv_steer_ttl e) (pt_chat p) codex_turn) W) of
             (Inl code, W') \<Rightarrow> (Inl code, W')
           | (Inr _, W') \<Rightarrow> (Inr (Some (WSteered (pt_chat p))), W')))"

definition send_interrupt :: "rpc_env \<Rightarrow> turn_row \<Rightarrow> control" where
  "send_interrupt e turn = (if t_thread turn = None then Declined else rv_interrupt e)"

definition try_interrupt_active_turn ::
  "('s, 'x) redisz_scheme \<Rightarrow> ('c, 'm, 'd) tables \<Rightarrow> rpc_env \<Rightarrow> turn_row \<Rightarrow> ('s, 'd, 'c, 'm) web \<Rightarrow>
     (rpc_code + (bool \<times> web_event option)) \<times> ('s, 'd, 'c, 'm) web" where
  "try_interrupt_active_turn R T e turn W =
     (case send_interrupt e turn of
        Accepted \<Rightarrow> (Inr (True, None), W)
      | Declined \<Rightarrow> (Inr (False, None), W)
      | StaleTurn _ actual \<Rightarrow>
          (Inr (False, Some (WEv (error_event (error_code_value STALE_ACTIVE_TURN) (Some ''previous Codex turn is stale; retry shortly'')))),
           handle_stale_turn R T e turn actual W)
      | ControlRaised x \<Rightarrow> (if control_caught x then Inr (False, None) else Inl RPC_INTERNAL, W))"

text \<open>A turn that has reached the sidecar but whose lease is not there: its worker is taken for dead.\<close>

definition finish_zombie ::
  "('s, 'x) redisz_scheme \<Rightarrow> ('c, 'm, 'd) tables \<Rightarrow> rpc_env \<Rightarrow> turn_row \<Rightarrow> ('s, 'd, 'c, 'm) web \<Rightarrow> ('s, 'd, 'c, 'm) web" where
  "finish_zombie R T e turn W =
     on_srv (\<lambda>s. snd (release_active R (rv_zombie e) (t_chat turn) (t_id turn) s))
       (W\<lparr>wb_w := finalize_tx (ta_turns T) (t_id turn) FAILED (Some ''lease_expired'')
          (Some ''worker lease missing - runner dead'') (rv_now e) (wb_w W)\<rparr>)"

definition find_live_turn ::
  "('s, 'x) redisz_scheme \<Rightarrow> ('c, 'm, 'd) tables \<Rightarrow> rpc_env \<Rightarrow> int \<Rightarrow> ('s, 'd, 'c, 'm) web \<Rightarrow> turn_row option \<times> ('s, 'd, 'c, 'm) web" where
  "find_live_turn R T e chat W =
     (case get_active_for_chat (ta_turns T) chat (rw_db (wb_w W)) of
        None \<Rightarrow> (None, W)
      | Some turn \<Rightarrow>
          (case reconcile_if_stale R (ta_turns T) (rv_orphan e) (rv_now e) turn (wb_w W) of
             (True, w) \<Rightarrow> (None, W\<lparr>wb_w := w\<rparr>)
           | (False, w) \<Rightarrow>
               let W1 = W\<lparr>wb_w := w\<rparr> in
               if t_codex_turn turn = None then (Some turn, W1)
               else (case lease_exists R (rv_exists e) (t_id turn) (srv W1) of
                       (held, s) \<Rightarrow>
                         let W2 = on_srv (\<lambda>_. s) W1 in
                         if held then (Some turn, W2) else (None, finish_zombie R T e turn W2))))"

definition handle_active_turn ::
  "('s, 'x) redisz_scheme \<Rightarrow> ('c, 'm, 'd) tables \<Rightarrow> rpc_env \<Rightarrow> prepared_turn \<Rightarrow> ('s, 'd, 'c, 'm) web \<Rightarrow>
     (rpc_code + web_event option) \<times> ('s, 'd, 'c, 'm) web" where
  "handle_active_turn R T e p W =
     (case find_live_turn R T e (pt_chat p) W of
        (None, W1) \<Rightarrow> (Inr None, W1)
      | (Some turn, W1) \<Rightarrow>
          (case t_codex_turn turn of
             None \<Rightarrow> (Inr (Some (busy ''another turn is starting for this chat'')), W1)
           | Some codex_turn \<Rightarrow>
               if pt_has_uploads p then (Inr (Some (busy ''previous turn still finishing - retry shortly'')), W1)
               else
                 (case try_steer_active_turn R T e p turn codex_turn W1 of
                    (Inl code, W2) \<Rightarrow> (Inl code, W2)
                  | (Inr (Some ev), W2) \<Rightarrow> (Inr (Some ev), W2)
                  | (Inr None, W2) \<Rightarrow>
                      (case try_interrupt_active_turn R T e turn W2 of
                         (Inl code, W3) \<Rightarrow> (Inl code, W3)
                       | (Inr (_, Some ev), W3) \<Rightarrow> (Inr (Some ev), W3)
                       | (Inr (True, None), W3) \<Rightarrow> (Inr None, W3)
                       | (Inr (False, None), W3) \<Rightarrow> (Inr (Some (busy ''previous turn still finishing - retry shortly'')), W3)))))"

section \<open>Creating and queueing a turn\<close>

definition started_payload :: "prepared_turn \<Rightarrow> int \<Rightarrow> json" where
  "started_payload p turn = JObj [(''turn_id'', JInt turn), (''text_len'', JInt (int (length (pt_text p)))),
     (''attachments'', JInt (int (length (ru_image_urls (pt_uploads p))))),
     (''files'', JInt (int (length (ru_file_paths (pt_uploads p)))))]"

text \<open>One transaction: the user's message, the row of the turn, the journal entry.\<close>

definition create_web_turn ::
  "('c, 'm, 'd) tables \<Rightarrow> rpc_env \<Rightarrow> prepared_turn \<Rightarrow> ('s, 'd, 'c, 'm) web \<Rightarrow>
     (rpc_code + (web_event + turn_row)) \<times> ('s, 'd, 'c, 'm) web" where
  "create_web_turn T e p W =
     (case append_message (ta_chats T) (ta_msgs T) (pt_chat p) MSG_USER (pt_text p) (user_message_meta p) (rv_now e)
             (wb_chats W, wb_msgs W) of
        None \<Rightarrow> (Inl RPC_INTERNAL, W)
      | Some (m, (dc, dm)) \<Rightarrow>
          (case try_create_starting (ta_turns T) \<lparr>tc_chat = pt_chat p, tc_user = pt_user p, tc_user_msg = mg_id m, tc_sidecar = pt_sidecar p\<rparr>
                  (rv_now e) (open_session (rw_db (wb_w W))) of
             (None, _) \<Rightarrow> (Inr (Inl (busy ''another turn is starting for this chat'')), W)
           | (Some turn, ses) \<Rightarrow>
               let (pub, ses') = commit ses in
               (Inr (Inr turn),
                W\<lparr>wb_w := (wb_w W)\<lparr>rw_db := s_committed ses', rw_pub := rw_pub (wb_w W) @ pub\<rparr>, wb_chats := dc, wb_msgs := dm,
                  wb_events := wb_events W @ [(EV_TURN_STARTED, started_payload p (t_id turn))]\<rparr>)))"

definition enqueue_turn ::
  "('c, 'm, 'd) tables \<Rightarrow> rpc_env \<Rightarrow> turn_row \<Rightarrow> ('s, 'd, 'c, 'm) web \<Rightarrow> (rpc_code + web_event option) \<times> ('s, 'd, 'c, 'm) web" where
  "enqueue_turn T e turn W =
     (case rv_enqueue e of
        Enqueued \<Rightarrow> (Inr None, W\<lparr>wb_queue := wb_queue W @ [t_id turn]\<rparr>)
      | EnqueueFailed exc \<Rightarrow>
          (Inr (Some (WEv (error_event (error_code_value CODEX_ERROR) (Some (''enqueue failed: '' @ exc))))),
           W\<lparr>wb_w := finalize_tx (ta_turns T) (t_id turn) FAILED (Some ''enqueue_failed'') (Some exc) (rv_now e) (wb_w W)\<rparr>)
      | EnqueueCrashed \<Rightarrow> (Inl RPC_INTERNAL, W))"

section \<open>The end of a turn as the row tells it\<close>

definition lower_status :: "turn_status \<Rightarrow> string" where
  "lower_status st = py_lower (status_value st)"

definition to_stored :: "msg_row \<Rightarrow> stored_msg" where
  "to_stored m = \<lparr>m_id = mg_id m, m_text = mg_text m, m_meta = (case mg_meta m of None \<Rightarrow> JNull | Some j \<Rightarrow> j)\<rparr>"

definition terminal_from_status :: "(int \<Rightarrow> msg_row option) \<Rightarrow> turn_row \<Rightarrow> pb_event option" where
  "terminal_from_status msgs turn =
     (if t_status turn = COMPLETED then
        (case Option.bind (t_assistant_msg turn) msgs of
           None \<Rightarrow> Some (PbDone (t_chat turn) [] None)
         | Some m \<Rightarrow> Some (PbDone (t_chat turn) (mg_text m) (Some (to_stored m))))
      else if t_status turn \<in> {FAILED, CANCELLED} then
        let code = (case t_error_code turn of
              Some c \<Rightarrow> if c \<noteq> [] then c else if t_status turn = FAILED then error_code_value STREAM_DROPPED else ''cancelled''
            | None \<Rightarrow> if t_status turn = FAILED then error_code_value STREAM_DROPPED else ''cancelled'');
            detail = (case t_error_detail turn of
              Some d \<Rightarrow> if d \<noteq> [] then d else lower_status (t_status turn) | None \<Rightarrow> lower_status (t_status turn))
        in Some (error_event code (Some detail))
      else None)"

definition latest_turn_for_chat :: "(turn_row, 'd) table \<Rightarrow> int \<Rightarrow> 'd \<Rightarrow> turn_row option" where
  "latest_turn_for_chat T chat d = one_or_none (sort_key (\<lambda>r. - t_id r) (tb_select T (\<lambda>r. t_chat r = chat) d))"

text \<open>What the client gets after the stream of a turn ended, from the row as it is then.\<close>

definition terminal_for_row :: "(int \<Rightarrow> msg_row option) \<Rightarrow> turn_row option \<Rightarrow> web_event list" where
  "terminal_for_row msgs row =
     (case row of
        None \<Rightarrow> []
      | Some turn \<Rightarrow>
          if \<not> terminal (t_status turn) then []
          else (case terminal_from_status msgs turn of None \<Rightarrow> [] | Some ev \<Rightarrow> [WEv ev]))"

section \<open>The handlers of a turn\<close>

text \<open>The body of the \<open>try\<close>: the events so far and the turn the worker owns, if one was queued.\<close>

definition run_turn_body ::
  "('s, 'x) redisz_scheme \<Rightarrow> ('c, 'm, 'd) tables \<Rightarrow> rpc_env \<Rightarrow> run_request \<Rightarrow> string \<Rightarrow> user_row \<Rightarrow> ('s, 'd, 'c, 'm) web \<Rightarrow>
     (rpc_code + web_event list) \<times> int option \<times> ('s, 'd, 'c, 'm) web" where
  "run_turn_body R T e q txt u W =
     (case prepare_run_turn T e q txt u W of
        (Inl code, W1) \<Rightarrow> (Inl code, None, W1)
      | (Inr p, W1) \<Rightarrow>
          (case handle_active_turn R T e p W1 of
             (Inl code, W2) \<Rightarrow> (Inl code, None, W2)
           | (Inr (Some ev), W2) \<Rightarrow> (Inr [ev], None, W2)
           | (Inr None, W2) \<Rightarrow>
               (case create_web_turn T e p W2 of
                  (Inl code, W3) \<Rightarrow> (Inl code, None, W3)
                | (Inr (Inl ev), W3) \<Rightarrow> (Inr [ev], None, W3)
                | (Inr (Inr turn), W3) \<Rightarrow>
                    (case enqueue_turn T e turn W3 of
                       (Inl code, W4) \<Rightarrow> (Inl code, None, W4)
                     | (Inr (Some ev), W4) \<Rightarrow> (Inr [ev], None, W4)
                     | (Inr None, W4) \<Rightarrow>
                         (Inr (WTurnStarted (t_id turn) # map WEv (fst (tail_stream 0 (rv_reads e)))
                            @ terminal_for_row (rv_msg_after e) (rv_row_after e)), Some (t_id turn), W4)))))"

definition run_turn_rpc ::
  "('s, 'x) redisz_scheme \<Rightarrow> ('c, 'm, 'd) tables \<Rightarrow> runtime_settings \<Rightarrow> rpc_env \<Rightarrow> run_request \<Rightarrow> user_row \<Rightarrow>
     ('s, 'd, 'c, 'm) web \<Rightarrow> (rpc_code + web_event list) \<times> ('s, 'd, 'c, 'm) web" where
  "run_turn_rpc R T S e q u W =
     (let txt = py_strip (rr_text q) in
      if txt = [] \<and> rr_uploads q = []
      then (Inr [WEv (error_event (error_code_value EMPTY_TEXT) (Some ''text is required''))], W)
      else case reserve_turn R S (rv_reserve e) (rv_clock e) u (srv W) of
        (Inl (RateLimited kind scope limit), s) \<Rightarrow>
          (Inr [WEv (error_event (error_code_value RATE_LIMITED) (Some (limit_text kind scope limit)))], on_srv (\<lambda>_. s) W)
      | (Inl RedisFailed, s) \<Rightarrow> (Inl RPC_INTERNAL, on_srv (\<lambda>_. s) W)
      | (Inr _, s) \<Rightarrow>
          (case run_turn_body R T e q txt u (on_srv (\<lambda>_. s) W) of
             (res, Some i, W1) \<Rightarrow> (res, W1)
           | (res, None, W1) \<Rightarrow>
               (case release_turn R (rv_release e) (rv_release_del e) u (srv W1) of
                  (good, s') \<Rightarrow> (if good then res else Inl RPC_INTERNAL, on_srv (\<lambda>_. s') W1))))"

text \<open>\<open>after\<close> is the position of the last event the client has seen.\<close>

definition tail_turn ::
  "('c, 'm, 'd) tables \<Rightarrow> rpc_env \<Rightarrow> user_row \<Rightarrow> int option \<Rightarrow> int \<Rightarrow> nat \<Rightarrow> ('s, 'd, 'c, 'm) web \<Rightarrow> rpc_code + web_event list" where
  "tail_turn T e u turn_id chat after W =
     (let follow = (\<lambda>turn. if terminal (t_status turn) then terminal_for_row (tb_view (ta_msgs T) (wb_msgs W)) (Some turn)
            else map WEv (fst (tail_stream after (rv_reads e))) @ terminal_for_row (rv_msg_after e) (rv_row_after e)) in
      case turn_id of
        Some i \<Rightarrow>
          (case get_by_id (ta_turns T) i (rw_db (wb_w W)) of
             None \<Rightarrow> Inl RPC_NOT_FOUND
           | Some turn \<Rightarrow>
               (case load_chat_owned (ta_chats T) (t_chat turn) (u_id u) (Some SRC_WEB) (wb_chats W) of
                  Inl code \<Rightarrow> Inl code | Inr _ \<Rightarrow> Inr (follow turn)))
      | None \<Rightarrow>
          (case load_chat_owned (ta_chats T) chat (u_id u) (Some SRC_WEB) (wb_chats W) of
             Inl code \<Rightarrow> Inl code
           | Inr _ \<Rightarrow>
               (case get_active_for_chat (ta_turns T) chat (rw_db (wb_w W)) of
                  Some turn \<Rightarrow> Inr (follow turn)
                | None \<Rightarrow> Inr (terminal_for_row (tb_view (ta_msgs T) (wb_msgs W))
                    (latest_turn_for_chat (ta_turns T) chat (rw_db (wb_w W)))))))"

definition interrupt_turn ::
  "('s, 'x) redisz_scheme \<Rightarrow> ('c, 'm, 'd) tables \<Rightarrow> rpc_env \<Rightarrow> user_row \<Rightarrow> int \<Rightarrow> ('s, 'd, 'c, 'm) web \<Rightarrow>
     (rpc_code + unit) \<times> ('s, 'd, 'c, 'm) web" where
  "interrupt_turn R T e u chat W =
     (case load_chat_owned (ta_chats T) chat (u_id u) (Some SRC_WEB) (wb_chats W) of
        Inl code \<Rightarrow> (Inl code, W)
      | Inr c \<Rightarrow>
          (case get_active_for_chat (ta_turns T) (c_id c) (rw_db (wb_w W)) of
             None \<Rightarrow> (Inr (), W)
           | Some turn \<Rightarrow>
               if t_codex_turn turn = None then (Inr (), W)
               else (case send_interrupt e turn of
                       StaleTurn _ actual \<Rightarrow> (Inr (), handle_stale_turn R T e turn actual W)
                     | ControlRaised x \<Rightarrow> (if control_caught x then Inr () else Inl RPC_INTERNAL, W)
                     | _ \<Rightarrow> (Inr (), W))))"

definition steer_turn ::
  "('s, 'x) redisz_scheme \<Rightarrow> ('c, 'm, 'd) tables \<Rightarrow> rpc_env \<Rightarrow> user_row \<Rightarrow> int \<Rightarrow> string \<Rightarrow> ('s, 'd, 'c, 'm) web \<Rightarrow>
     (rpc_code + bool) \<times> ('s, 'd, 'c, 'm) web" where
  "steer_turn R T e u chat raw W =
     (let txt = py_strip raw in
      if txt = [] then (Inr False, W)
      else case load_chat_owned (ta_chats T) chat (u_id u) (Some SRC_WEB) (wb_chats W) of
        Inl code \<Rightarrow> (Inl code, W)
      | Inr c \<Rightarrow>
          (case get_active_for_chat (ta_turns T) (c_id c) (rw_db (wb_w W)) of
             None \<Rightarrow> (Inr False, W)
           | Some turn \<Rightarrow>
               (case t_codex_turn turn of
                  None \<Rightarrow> (Inr False, W)
                | Some codex_turn \<Rightarrow>
                    (case rv_steer e of
                       StaleTurn _ actual \<Rightarrow> (Inr False, handle_stale_turn R T e turn actual W)
                     | ControlRaised x \<Rightarrow> (if control_caught x then Inr False else Inl RPC_INTERNAL, W)
                     | Declined \<Rightarrow> (Inr False, W)
                     | Accepted \<Rightarrow>
                         (case record_steer R T e (c_id c) (t_id turn) txt
                            (on_srv (note_steer R (rv_note e) (rv_steer_ttl e) (c_id c) codex_turn) W) of
                            (Inl code, W') \<Rightarrow> (Inl code, W')
                          | (Inr _, W') \<Rightarrow> (Inr True, W'))))))"

section \<open>The handlers of chats\<close>

definition list_chats :: "('c, 'm, 'd) tables \<Rightarrow> user_row \<Rightarrow> int \<Rightarrow> ('s, 'd, 'c, 'm) web \<Rightarrow> (chat_row \<times> int option) list" where
  "list_chats T u page W =
     (let running = active_ids_by_chat_for_user (ta_turns T) (u_id u) (rw_db (wb_w W)) in
      map (\<lambda>c. (c, running (c_id c)))
        (list_for_user (ta_chats T) (u_id u) (nat (resolve_limit page)) (Some SRC_WEB) (wb_chats W)))"

definition set_title :: "(chat_row, 'c) table \<Rightarrow> int \<Rightarrow> string option \<Rightarrow> 'c \<Rightarrow> 'c" where
  "set_title T i title d = snd (tb_update T (\<lambda>c. c_id c = i) (\<lambda>c. c\<lparr>c_title := title\<rparr>) d)"

definition create_chat ::
  "('c, 'm, 'd) tables \<Rightarrow> user_row \<Rightarrow> string \<Rightarrow> int \<Rightarrow> ('s, 'd, 'c, 'm) web \<Rightarrow> (rpc_code + chat_row) \<times> ('s, 'd, 'c, 'm) web" where
  "create_chat T u raw now W =
     (case create_web_chat (ta_chats T) (u_id u) now (wb_chats W) of
        None \<Rightarrow> (Inl RPC_INTERNAL, W)
      | Some (c, d) \<Rightarrow>
          let title = (case none_if_empty (py_strip raw) of
                Some t \<Rightarrow> t | None \<Rightarrow> ''Chat '' @ str_of_nat (count_web_for_user (ta_chats T) (u_id u) d))
          in (Inr (c\<lparr>c_title := Some title\<rparr>), W\<lparr>wb_chats := set_title (ta_chats T) (c_id c) (Some title) d\<rparr>))"

definition get_chat_rpc ::
  "('c, 'm, 'd) tables \<Rightarrow> user_row \<Rightarrow> int \<Rightarrow> ('s, 'd, 'c, 'm) web \<Rightarrow> rpc_code + (chat_row \<times> int option)" where
  "get_chat_rpc T u chat W =
     (case load_chat_owned (ta_chats T) chat (u_id u) (Some SRC_WEB) (wb_chats W) of
        Inl code \<Rightarrow> Inl code
      | Inr c \<Rightarrow> Inr (c, map_option t_id (get_active_for_chat (ta_turns T) (c_id c) (rw_db (wb_w W)))))"

definition rename_chat ::
  "('c, 'm, 'd) tables \<Rightarrow> user_row \<Rightarrow> int \<Rightarrow> string \<Rightarrow> ('s, 'd, 'c, 'm) web \<Rightarrow>
     (rpc_code + (chat_row \<times> int option)) \<times> ('s, 'd, 'c, 'm) web" where
  "rename_chat T u chat raw W =
     (case load_chat_owned (ta_chats T) chat (u_id u) (Some SRC_WEB) (wb_chats W) of
        Inl code \<Rightarrow> (Inl code, W)
      | Inr c \<Rightarrow>
          let title = none_if_empty (py_strip raw) in
          (Inr (c\<lparr>c_title := title\<rparr>, map_option t_id (get_active_for_chat (ta_turns T) (c_id c) (rw_db (wb_w W)))),
           W\<lparr>wb_chats := set_title (ta_chats T) (c_id c) title (wb_chats W)\<rparr>))"

text \<open>Deleting a chat deletes its messages and turns (\<open>ON DELETE CASCADE\<close>).\<close>

definition delete_chat ::
  "('c, 'm, 'd) tables \<Rightarrow> user_row \<Rightarrow> int \<Rightarrow> ('s, 'd, 'c, 'm) web \<Rightarrow> (rpc_code + unit) \<times> ('s, 'd, 'c, 'm) web" where
  "delete_chat T u chat W =
     (case load_chat_owned (ta_chats T) chat (u_id u) (Some SRC_WEB) (wb_chats W) of
        Inl code \<Rightarrow> (Inl code, W)
      | Inr c \<Rightarrow>
          if get_active_for_chat (ta_turns T) (c_id c) (rw_db (wb_w W)) \<noteq> None then (Inl FAILED_PRECONDITION, W)
          else (Inr (), W\<lparr>wb_chats := snd (tb_delete (ta_chats T) (\<lambda>r. c_id r = c_id c) (wb_chats W)),
                  wb_msgs := snd (tb_delete (ta_msgs T) (\<lambda>m. mg_chat m = c_id c) (wb_msgs W)),
                  wb_w := (wb_w W)\<lparr>rw_db := snd (tb_delete (ta_turns T) (\<lambda>t. t_chat t = c_id c) (rw_db (wb_w W)))\<rparr>\<rparr>))"

section \<open>The slot of a turn\<close>

lemma on_srv_simps [simp]:
  "srv (on_srv f W) = f (srv W)" "wb_queue (on_srv f W) = wb_queue W" "wb_chats (on_srv f W) = wb_chats W"
  "wb_msgs (on_srv f W) = wb_msgs W" "rw_db (wb_w (on_srv f W)) = rw_db (wb_w W)" "wb_events (on_srv f W) = wb_events W"
  by (simp_all add: on_srv_def)

lemma slot_keys [simp, key_facts]:
  "rl_active_key i \<noteq> active_key c" "rl_active_key i \<noteq> lease_key t" "rl_active_key i \<noteq> steer_key c"
  "rl_active_key i \<noteq> steer_count_key t" "rl_active_key i \<noteq> quarantine_key q" "rl_active_key i \<noteq> rl_hourly_key j"
  by (simp_all add: rl_active_key_def active_key_def lease_key_def lease_prefix_def steer_key_def steer_count_key_def
      quarantine_key_def rl_hourly_key_def)

lemma rl_active_key_inj [simp]: "rl_active_key i = rl_active_key j \<longleftrightarrow> i = j"
  by (simp add: rl_active_key_def)

lemma finalize_tx_lease [simp]: "rw_lease (finalize_tx T i st code detail now w) = rw_lease w"
  by (simp add: finalize_tx_def commit_def split: sum.split prod.split)

context zset_laws
begin

text \<open>The counter of a user's running turns, and the steps that leave it and the queue alone.\<close>

abbreviation slot :: "int \<Rightarrow> 's \<Rightarrow> (string \<times> nat option) option" where
  "slot i s \<equiv> rd_view R s (rl_active_key i)"

definition calm :: "int \<Rightarrow> ('s, 'd, 'c, 'm) web \<Rightarrow> ('s, 'd, 'c, 'm) web \<Rightarrow> bool" where
  "calm i W W' \<longleftrightarrow> slot i (srv W') = slot i (srv W) \<and> wb_queue W' = wb_queue W"

lemma calm_refl [simp]: "calm i W W"
  by (simp add: calm_def)

lemma calm_trans: "calm i W W' \<Longrightarrow> calm i W' W'' \<Longrightarrow> calm i W W''"
  by (simp add: calm_def)

lemma slot_call: "(\<And>s. slot i (snd (cmd s)) = slot i s) \<Longrightarrow> slot i (snd (call f cmd s)) = slot i s"
  by (cases f) (simp_all add: split_beta)

lemma slot_release_active [simp]: "slot i (snd (release_active R f c t s)) = slot i s"
proof -
  have "slot i (snd (call f (rd_delex_ifeq R (active_key c) (str_of_int t)) s)) = slot i s"
    by (rule slot_call) (simp add: delex_view)
  then show ?thesis by (simp add: release_active_def split_beta)
qed

lemma slot_lease_exists [simp]: "slot i (snd (lease_exists R f t s)) = slot i s"
proof -
  have "slot i (snd (call f (rd_exists R (lease_key t)) s)) = slot i s"
    by (rule slot_call) (simp add: exists_view)
  then show ?thesis by (simp add: lease_exists_def split_beta)
qed

lemma slot_note [simp]: "slot i (note_steer R f ttl c t s) = slot i s"
  unfolding note_steer_def by (rule slot_call) (simp add: x_set)

lemma slot_quarantine [simp]: "slot i (quarantine_thread R f th s) = slot i s"
  unfolding quarantine_thread_def using slot_call [where cmd = "rx_set R (quarantine_key (the th)) ''broken'' 86400" and f = f and s = s and i = i]
  by (simp add: x_set)

lemma slot_bump [simp]: "slot i (bump_steer_count R f g ttl t s) = slot i s"
proof -
  have a: "slot i (snd (call f (rd_incrby R (steer_count_key t) 1) s)) = slot i s"
    by (rule slot_call) (simp add: incrby_other)
  have b: "slot i (snd (call g (rd_expire R (steer_count_key t) ttl) s')) = slot i s'" for s'
    by (rule slot_call) (simp add: expire_view)
  show ?thesis using a by (auto simp: bump_steer_count_def b split: prod.splits option.splits)
qed

lemma calm_stale: "calm i W (handle_stale_turn R T e turn actual W)"
  by (simp add: calm_def handle_stale_turn_def Let_def)

lemma calm_zombie: "calm i W (finish_zombie R T e turn W)"
  by (simp add: calm_def finish_zombie_def)

lemma calm_record: "record_steer R T e c t txt W = (r, W') \<Longrightarrow> calm i W W'"
  by (auto simp: record_steer_def calm_def split: option.splits)

lemma calm_steer:
  assumes "try_steer_active_turn R T e p turn ct W = (r, W')"
  shows "calm i W W'"
proof (cases "rv_steer e")
  case Accepted
  have n: "calm i W (on_srv (note_steer R (rv_note e) (rv_steer_ttl e) (pt_chat p) ct) W)" by (simp add: calm_def)
  from assms Accepted obtain r' where "record_steer R T e (pt_chat p) (t_id turn) (pt_text p)
      (on_srv (note_steer R (rv_note e) (rv_steer_ttl e) (pt_chat p) ct) W) = (r', W')"
    by (auto simp: try_steer_active_turn_def split: prod.splits sum.splits)
  then show ?thesis by (rule calm_trans [OF n calm_record])
qed (use assms in \<open>auto simp: try_steer_active_turn_def calm_stale\<close>)

lemma calm_interrupt: "try_interrupt_active_turn R T e turn W = (r, W') \<Longrightarrow> calm i W W'"
  by (auto simp: try_interrupt_active_turn_def calm_stale split: control.splits)

lemma slot_reconcile:
  "reconcile_if_stale R T f now turn w = (b, w') \<Longrightarrow> slot i (l_srv (rw_lease w')) = slot i (l_srv (rw_lease w))"
  by (auto simp: reconcile_if_stale_def finalize_orphan_def commit_def Let_def split: if_splits)

lemma calm_find:
  assumes "find_live_turn R T e chat W = (r, W')"
  shows "calm i W W'"
proof (cases "get_active_for_chat (ta_turns T) chat (rw_db (wb_w W))")
  case None
  with assms show ?thesis by (simp add: find_live_turn_def)
next
  case (Some turn)
  obtain b w where rec: "reconcile_if_stale R (ta_turns T) (rv_orphan e) (rv_now e) turn (wb_w W) = (b, w)" by fastforce
  then have c1: "calm i W (W\<lparr>wb_w := w\<rparr>)" using slot_reconcile [OF rec] by (simp add: calm_def)
  obtain held s where ex: "lease_exists R (rv_exists e) (t_id turn) (l_srv (rw_lease w)) = (held, s)" by fastforce
  have "calm i (W\<lparr>wb_w := w\<rparr>) (on_srv (\<lambda>_. s) (W\<lparr>wb_w := w\<rparr>))"
    using slot_lease_exists [where f = "rv_exists e" and t = "t_id turn" and s = "l_srv (rw_lease w)"] ex by (simp add: calm_def)
  with c1 have c2: "calm i W (on_srv (\<lambda>_. s) (W\<lparr>wb_w := w\<rparr>))" by (rule calm_trans)
  show ?thesis using assms c1 c2 calm_trans [OF c2 calm_zombie]
    by (cases b) (auto simp: find_live_turn_def Some rec ex Let_def split: if_splits)
qed

lemma calm_active:
  assumes "handle_active_turn R T e p W = (r, W')"
  shows "calm i W W'"
proof -
  obtain ro W1 where f: "find_live_turn R T e (pt_chat p) W = (ro, W1)" by fastforce
  have c1: "calm i W W1" by (rule calm_find [OF f])
  show ?thesis
  proof (cases "\<exists>turn ct. ro = Some turn \<and> t_codex_turn turn = Some ct \<and> \<not> pt_has_uploads p")
    case False
    with assms c1 f show ?thesis by (auto simp: handle_active_turn_def split: option.splits if_splits)
  next
    case True
    then obtain turn ct where t: "ro = Some turn" "t_codex_turn turn = Some ct" "\<not> pt_has_uploads p" by blast
    obtain rs W2 where s: "try_steer_active_turn R T e p turn ct W1 = (rs, W2)" by fastforce
    have c2: "calm i W W2" by (rule calm_trans [OF c1 calm_steer [OF s]])
    obtain ri W3 where n: "try_interrupt_active_turn R T e turn W2 = (ri, W3)" by fastforce
    have c3: "calm i W W3" by (rule calm_trans [OF c2 calm_interrupt [OF n]])
    show ?thesis using assms c2 c3
      by (auto simp: handle_active_turn_def f t s n split: sum.splits option.splits bool.splits)
  qed
qed

lemma calm_prepare: "prepare_run_turn T e q txt u W = (r, W') \<Longrightarrow> calm i W W'"
  by (auto simp: prepare_run_turn_def calm_def Let_def split: prod.splits sum.splits)

lemma calm_create: "create_web_turn T e p W = (r, W') \<Longrightarrow> calm i W W'"
  by (auto simp: create_web_turn_def calm_def commit_def Let_def split: option.splits prod.splits)

text \<open>Every way through the body: a turn is queued and announced, or nothing is.\<close>

lemma body_cases:
  assumes "run_turn_body R T e q txt u W = (res, own, W')"
  shows "slot i (srv W') = slot i (srv W) \<and>
    (case own of
       Some t \<Rightarrow> wb_queue W' = wb_queue W @ [t] \<and> (\<exists>evs. res = Inr (WTurnStarted t # evs))
     | None \<Rightarrow> wb_queue W' = wb_queue W)"
proof -
  obtain rp W1 where p: "prepare_run_turn T e q txt u W = (rp, W1)" by fastforce
  have c1: "calm i W W1" by (rule calm_prepare [OF p])
  show ?thesis
  proof (cases rp)
    case (Inl code)
    with assms p c1 show ?thesis by (auto simp: run_turn_body_def calm_def)
  next
    case (Inr pt)
    obtain ra W2 where a: "handle_active_turn R T e pt W1 = (ra, W2)" by fastforce
    have c2: "calm i W W2" by (rule calm_trans [OF c1 calm_active [OF a]])
    show ?thesis
    proof (cases "ra = Inr None")
      case False
      with assms p Inr a c2 show ?thesis
        by (cases ra) (auto simp: run_turn_body_def calm_def split: option.splits)
    next
      case True
      obtain rc W3 where c: "create_web_turn T e pt W2 = (rc, W3)" by fastforce
      have c3: "calm i W W3" by (rule calm_trans [OF c2 calm_create [OF c]])
      show ?thesis using assms p Inr a True c c3
        by (auto simp: run_turn_body_def calm_def enqueue_turn_def split: sum.splits enqueue_result.splits)
    qed
  qed
qed

abbreviation running :: "int \<Rightarrow> 's \<Rightarrow> int option" where
  "running i s \<equiv> counter_at (slot i s)"

lemma lua_running:
  assumes "running i s = Some n" "reserve_lua R (rl_hourly_key i) (rl_active_key i) now c h l s = (r, s')"
  shows "running i s' = Some (if r = StOk then n + 1 else n)"
proof -
  let ?k = "rl_active_key i"
  have inc: "running i (snd (rd_incrby R ?k d t)) = Some (m + d)" "fst (rd_incrby R ?k d t) = m + d"
    if "running i t = Some m" for t m d
    using incrby_view [OF that, of d] incrby_reply [OF that] by (auto simp: counter_at_def)
  have ex: "running i (snd (rd_expire R ?k x t)) = running i t" for t x
    by (auto simp: counter_at_def expire_view split: option.splits)
  define s2 where "s2 = (if 0 < h then snd (rz_card R (rl_hourly_key i) (snd (rz_remrange R (rl_hourly_key i) 0 c s))) else s)"
  have s2: "running i s2 = Some n" using assms(1) by (simp add: s2_def z_strings)
  define s4 where "s4 = (if n + 1 = 1 then snd (rd_expire R ?k ACTIVE_TTL_S (snd (rd_incrby R ?k 1 s2))) else snd (rd_incrby R ?k 1 s2))"
  have s4: "running i s4 = Some (n + 1)" using inc(1) [OF s2, of 1] ex by (simp add: s4_def)
  define m where "m = fst (rz_card R (rl_hourly_key i) (snd (rz_remrange R (rl_hourly_key i) 0 c s)))"
  have count: "fst (rd_incrby R ?k 1 s2) = n + 1" by (rule inc(2) [OF s2])
  have "reserve_lua R (rl_hourly_key i) ?k now c h l s =
    (if 0 < h \<and> h \<le> int m then (StHourly m, s2)
     else if 0 < l \<and> l < n + 1 then (StActive n, snd (rd_incrby R ?k (- 1) s4))
     else if 0 < h then (StOk, snd (rz_expire R (rl_hourly_key i) (2 * HOURLY_WINDOW_S) (snd (rz_add R (rl_hourly_key i) now s4))))
     else (StOk, s4))"
    using count by (cases "0 < h") (simp_all add: reserve_lua_def Let_def split_beta s2_def s4_def m_def)
  with assms(2) s2 s4 inc(1) [OF s4, of "- 1"] show ?thesis by (auto simp: z_strings split: if_splits)
qed

lemma release_running:
  assumes "running (u_id u) s = Some n" "1 \<le> n" "user_kind_of u \<noteq> KIND_ADMIN" "release_turn R Fine Fine u s = (good, s')"
  shows "good \<and> running (u_id u) s' = Some (n - 1)"
proof -
  let ?k = "rl_active_key (u_id u)"
  have "fst (rd_incrby R ?k (- 1) s) = n - 1" using incrby_reply [OF assms(1), of "- 1"] by simp
  moreover have "running (u_id u) (snd (rd_incrby R ?k (- 1) s)) = Some (n - 1)"
    using incrby_view [OF assms(1), of "- 1"] by (auto simp: counter_at_def)
  moreover have "running (u_id u) (snd (rd_del R ?k t)) = Some 0" for t by (simp add: counter_at_def del_view)
  ultimately show ?thesis using assms(2-4) by (auto simp: release_turn_def Let_def split_beta split: if_splits)
qed

lemma run_turn_slot:
  assumes u: "user_kind_of u \<noteq> KIND_ADMIN" and f: "rv_reserve e = Fine" "rv_release e = Fine" "rv_release_del e = Fine"
    and n: "running (u_id u) (srv W) = Some n" "0 \<le> n" and run: "run_turn_rpc R T S e q u W = (res, W')"
  shows "(\<exists>i evs. res = Inr (WTurnStarted i # evs) \<and> wb_queue W' = wb_queue W @ [i] \<and> running (u_id u) (srv W') = Some (n + 1))
    \<or> (wb_queue W' = wb_queue W \<and> running (u_id u) (srv W') = Some n)"
proof (cases "py_strip (rr_text q) = [] \<and> rr_uploads q = []")
  case True
  with run n show ?thesis by (auto simp: run_turn_rpc_def)
next
  case False
  let ?l = "turn_limits_for S (user_kind_of u)"
  obtain r s1 where lua: "reserve_lua R (rl_hourly_key (u_id u)) (rl_active_key (u_id u)) (rv_clock e)
      (rv_clock e - usec HOURLY_WINDOW_S) (tl_hourly ?l) (tl_active ?l) (srv W) = (r, s1)" by fastforce
  note after = lua_running [OF n(1) lua]
  show ?thesis
  proof (cases "r = StOk")
    case False
    with run lua u f after \<open>\<not> (py_strip (rr_text q) = [] \<and> rr_uploads q = [])\<close> show ?thesis
      by (cases r) (auto simp: run_turn_rpc_def reserve_turn_def Let_def)
  next
    case True
    let ?W0 = "on_srv (\<lambda>_. s1) W"
    obtain rb own W1 where b: "run_turn_body R T e q (py_strip (rr_text q)) u ?W0 = (rb, own, W1)" by (metis prod_cases3)
    note bc = body_cases [OF b, of "u_id u"]
    have run1: "running (u_id u) (srv W1) = Some (n + 1)" using bc after True by simp
    show ?thesis
    proof (cases own)
      case (Some t)
      with run lua u f True b False have "res = rb \<and> W' = W1"
        by (auto simp: run_turn_rpc_def reserve_turn_def Let_def)
      with bc Some run1 show ?thesis by auto
    next
      case None
      obtain good s2 where rel: "release_turn R Fine Fine u (srv W1) = (good, s2)" by fastforce
      have "running (u_id u) s2 = Some n" using release_running [OF run1 _ u rel] n(2) by simp
      moreover have "W' = on_srv (\<lambda>_. s2) W1"
        using run lua u f True b None rel False by (auto simp: run_turn_rpc_def reserve_turn_def Let_def)
      ultimately show ?thesis using bc None by simp
    qed
  qed
qed

end

section \<open>Properties\<close>


definition demo_rpc_env :: rpc_env where
  "demo_rpc_env = \<lparr>rv_now = 10, rv_clock = 10000000, rv_reserve = Fine, rv_release = Fine, rv_release_del = Fine,
     rv_uploads = Inl RPC_NOT_FOUND, rv_orphan = Fine, rv_exists = FailBefore, rv_zombie = Fine, rv_steer = Declined, rv_note = Fine,
     rv_bump = Fine, rv_bump_ttl = Fine, rv_steer_ttl = 60, rv_interrupt = Declined, rv_quarantine = Fine, rv_enqueue = Enqueued,
     rv_reads = [], rv_row_after = None, rv_msg_after = (\<lambda>_. None)\<rparr>"

definition demo_tables :: "(chat_row rows, msg_row rows, turn_row rows) tables" where
  "demo_tables = \<lparr>ta_chats = mem_table (\<lambda>_. True), ta_msgs = mem_table (\<lambda>_. True), ta_turns = turn_mem\<rparr>"

definition demo_web :: "(memz, turn_row rows, chat_row rows, msg_row rows) web" where
  "demo_web = \<lparr>wb_w = \<lparr>rw_lease = \<lparr>l_srv = (Map.empty, \<lambda>_. ([], None)), l_active = []\<rparr>, rw_db = (1, []), rw_pub = [], rw_stream = [], rw_released = 0\<rparr>,
     wb_chats = (1, []), wb_msgs = (1, []), wb_events = [], wb_queue = []\<rparr>"

definition demo_run :: run_request where
  "demo_run = \<lparr>rr_text = ''hi'', rr_uploads = [], rr_chat = None, rr_client = []\<rparr>"

lemma demo_strip_hi: "py_strip ''hi'' = ''hi''"
  by (simp add: strip_by_id is_space_def)

lemma demo_run_queue: "wb_queue (snd (run_turn_rpc mem_redisz demo_tables demo_settings demo_rpc_env demo_run demo_me demo_web)) = [1]"
  by (simp add: run_turn_rpc_def demo_run_def demo_strip_hi reserve_turn_def demo_me_def user_kind_of_def opt_truthy_def turn_limits_for_def
      demo_settings_def default_settings_def demo_rpc_env_def reserve_lua_def mem_redisz_def mem_redis_def on_strings_def put_zset_def
      counter_at_def Let_def demo_web_def run_turn_body_def prepare_run_turn_def resolve_web_chat_def get_or_create_for_web_def
      create_web_chat_def demo_tables_def mem_table_def new_chat_def format_mentions_def handle_active_turn_def find_live_turn_def
      get_active_for_chat_def turn_mem_def create_web_turn_def append_message_def touch_last_msg_at_def try_create_starting_def
      create_starting_def starting_row_def exec_update_def active_unique_rows_def commit_def publish_after_commit_def enqueue_turn_def
      terminal_for_row_def usec_def HOURLY_WINDOW_S_def on_srv_def user_message_meta_def)


text \<open>
  C22: a live turn is killed by a failing Redis command: when the lookup of its lease raises, the
  handler takes the lease for missing, finalizes the running turn FAILED and goes on to start
  another one in the same chat, although the worker holds the lease and beats.
\<close>

theorem lease_lookup_failure_kills_turn:
  assumes "turn_db (ta_turns T) ok" "ok (rw_db (wb_w W))" "rv_exists e \<noteq> Fine"
    and "get_active_for_chat (ta_turns T) (pt_chat p) (rw_db (wb_w W)) = Some turn" "t_codex_turn turn = Some ct"
    and "rv_now e - t_heartbeat turn < TURN_STALE_S" "handle_active_turn R T e p W = (r, W')"
  shows "r = Inr None \<and> (\<exists>row. tb_view (ta_turns T) (rw_db (wb_w W')) (t_id turn) = Some row \<and> t_status row = FAILED
    \<and> t_error_code row = Some ''lease_expired'')"
proof -
  let ?T = "ta_turns T"
  from assms(4) have "turn \<in> set (tb_select ?T (\<lambda>r. t_chat r = pt_chat p \<and> active (t_status r)) (rw_db (wb_w W)))"
    by (auto simp: get_active_for_chat_def split: list.splits)
  with table_laws.select_set [OF turn_db.axioms(1) [OF assms(1)] assms(2)] table_laws.pk_view [OF turn_db.axioms(1) [OF assms(1)] assms(2)]
  have v: "tb_view ?T (rw_db (wb_w W)) (t_id turn) = Some turn" "active (t_status turn)" by auto
  obtain s where ex: "lease_exists R (rv_exists e) (t_id turn) (srv W) = (False, s)"
    using assms(3) by (cases "rv_exists e") (auto simp: lease_exists_def split: prod.splits)
  from ex assms(4-6) have "find_live_turn R T e (pt_chat p) W = (None, finish_zombie R T e turn (on_srv (\<lambda>_. s) W))"
    by (simp add: find_live_turn_def reconcile_if_stale_def Let_def)
  with assms(7) have r: "r = Inr None" "W' = finish_zombie R T e turn (on_srv (\<lambda>_. s) W)"
    by (auto simp: handle_active_turn_def)
  obtain won s' where fin: "finalize_once ?T (t_id turn) FAILED (Some ''lease_expired'') (Some ''worker lease missing - runner dead'')
      (rv_now e) (open_session (rw_db (wb_w W))) = Inr (won, s')"
    "tb_view ?T (s_db s') = (case tb_view ?T (s_db (open_session (rw_db (wb_w W)))) (t_id turn) of
         Some r \<Rightarrow> if is_active r
           then (tb_view ?T (s_db (open_session (rw_db (wb_w W)))))(t_id turn \<mapsto> r\<lparr>t_status := FAILED, t_error_code := Some ''lease_expired'',
              t_error_detail := Some ''worker lease missing - runner dead'', t_completed := Some (rv_now e)\<rparr>)
           else tb_view ?T (s_db (open_session (rw_db (wb_w W)))) | None \<Rightarrow> tb_view ?T (s_db (open_session (rw_db (wb_w W)))))"
    by (rule turn_db.finalize_spec [OF assms(1), where s = "open_session (rw_db (wb_w W))" and st = FAILED])
      (use assms(2) in \<open>auto simp: terminal_statuses_def\<close>)
  with v have "tb_view ?T (rw_db (wb_w W')) (t_id turn) = Some (turn\<lparr>t_status := FAILED, t_error_code := Some ''lease_expired'',
      t_error_detail := Some ''worker lease missing - runner dead'', t_completed := Some (rv_now e)\<rparr>)"
    by (simp add: r(2) finish_zombie_def finalize_tx_def commit_def)
  with r(1) show ?thesis by simp
qed

definition demo_live :: turn_row where
  "demo_live = (starting_row demo_payload 0 5)\<lparr>t_status := RUNNING, t_codex_turn := Some ''ct''\<rparr>"

definition demo_live_web :: "(memz, turn_row rows, chat_row rows, msg_row rows) web" where
  "demo_live_web = demo_web\<lparr>wb_w := (wb_w demo_web)\<lparr>rw_db := (6, [(5, demo_live)]),
     rw_lease := \<lparr>l_srv = (Map.empty(lease_key 5 \<mapsto> (''w1'', Some 30)), \<lambda>_. ([], None)), l_active = [(5, ''w1'')]\<rparr>\<rparr>\<rparr>"

definition demo_prepared :: prepared_turn where
  "demo_prepared = \<lparr>pt_chat = 7, pt_user = 3, pt_text = ''hi'',
     pt_uploads = \<lparr>ru_image_urls = [], ru_image_ids = [], ru_audio_ids = [], ru_file_paths = [], ru_file_ids = []\<rparr>,
     pt_voice = False, pt_has_uploads = False, pt_sidecar = GuestSidecar, pt_client = None\<rparr>"

lemma lease_lookup_failure_kills_turn_witness:
  "\<exists>row. tb_view turn_mem (rw_db (wb_w (snd (handle_active_turn mem_redisz demo_tables demo_rpc_env demo_prepared demo_live_web)))) 5 = Some row
     \<and> t_status row = FAILED"
proof -
  obtain r W' where h: "handle_active_turn mem_redisz demo_tables demo_rpc_env demo_prepared demo_live_web = (r, W')" by fastforce
  have T: "ta_turns demo_tables = turn_mem" by (simp add: demo_tables_def)
  have ok: "rows_ok t_id active_unique_rows (rw_db (wb_w demo_live_web))"
    by (simp add: rows_ok_def demo_live_web_def demo_live_def starting_row_def active_unique_rows_def)
  have act: "get_active_for_chat turn_mem (pt_chat demo_prepared) (rw_db (wb_w demo_live_web)) = Some demo_live"
    by (simp add: get_active_for_chat_def turn_mem_def mem_table_def demo_prepared_def demo_live_web_def demo_live_def starting_row_def
        demo_payload_def)
  have "turn_db (ta_turns demo_tables) (rows_ok t_id active_unique_rows)" unfolding T by (rule turn_mem_db.turn_db_axioms)
  from lease_lookup_failure_kills_turn [OF this ok _ _ _ _ h, of demo_live "''ct''"] act T show ?thesis
    unfolding h by (auto simp: demo_rpc_env_def demo_live_def starting_row_def TURN_STALE_S_def)
qed

end
