(* ===== verification/Sessions.thy ===== *)
theory Sessions
  imports Chats
begin

text \<open>
  The per-chat sessions of the Telegram surface (\<open>services/sessions/store.py\<close>,
  \<open>tg/sessions.py\<close>): a map from keys to futures, of which one caller, the creator, fulfils
  each. The map and the futures change only between two awaits, under the store's lock, so an
  operation is a step on the store and coroutines are interleavings of steps. The object a
  future resolves to is identified with the future.
\<close>

section \<open>The store\<close>

record chat_session =
  cs_chat :: int
  cs_user :: int
  cs_admin :: bool

datatype session_future = FutPending | FutResolved chat_session | FutFailed string

record 'k session_store =
  so_map :: "('k \<times> nat) list"
  so_futs :: "session_future list"
  so_tasks :: "(nat \<times> nat) list"

definition empty_store :: "'k session_store" where
  "empty_store = \<lparr>so_map = [], so_futs = [], so_tasks = []\<rparr>"

definition failed_attempt :: "session_future \<Rightarrow> bool" where
  "failed_attempt f = (case f of FutFailed _ \<Rightarrow> True | _ \<Rightarrow> False)"

text \<open>The future of the key, and whether the caller has to fulfil it.\<close>

definition claim_slot :: "'k \<Rightarrow> 'k session_store \<Rightarrow> (nat \<times> bool) \<times> 'k session_store" where
  "claim_slot k S =
     (let fresh = ((length (so_futs S), True),
            S\<lparr>so_map := dict_set k (length (so_futs S)) (so_map S), so_futs := so_futs S @ [FutPending]\<rparr>)
      in case map_of (so_map S) k of
           Some f \<Rightarrow> if \<not> failed_attempt (so_futs S ! f) then ((f, False), S) else fresh
         | None \<Rightarrow> fresh)"

definition fulfil_slot :: "nat \<Rightarrow> 'k \<Rightarrow> string + chat_session \<Rightarrow> 'k session_store \<Rightarrow> 'k session_store" where
  "fulfil_slot f k res S =
     (case res of
        Inl e \<Rightarrow> S\<lparr>so_map := (if map_of (so_map S) k = Some f then dict_pop k (so_map S) else so_map S),
                    so_futs := (so_futs S)[f := FutFailed e]\<rparr>
      | Inr s \<Rightarrow> S\<lparr>so_futs := (so_futs S)[f := FutResolved s]\<rparr>)"

definition get_session :: "'k \<Rightarrow> 'k session_store \<Rightarrow> (nat \<times> chat_session) option" where
  "get_session k S =
     (case map_of (so_map S) k of
        None \<Rightarrow> None
      | Some f \<Rightarrow> (case so_futs S ! f of FutResolved s \<Rightarrow> Some (f, s) | _ \<Rightarrow> None))"

text \<open>
  \<open>get_or_open\<close> without interleaving: the caller claims and, as the creator, bootstraps with
  the state \<open>d\<close> of the database. \<open>None\<close> is an await that never returns.
\<close>

definition get_or_open ::
  "'k \<Rightarrow> ('d \<Rightarrow> (string + chat_session) \<times> 'd) \<Rightarrow> 'k session_store \<times> 'd \<Rightarrow>
     (string + nat \<times> chat_session) option \<times> 'k session_store \<times> 'd" where
  "get_or_open k bootstrap W =
     (case claim_slot k (fst W) of
        ((f, True), S) \<Rightarrow>
          (case bootstrap (snd W) of
             (res, d) \<Rightarrow> (Some (case res of Inl e \<Rightarrow> Inl e | Inr s \<Rightarrow> Inr (f, s)), fulfil_slot f k res S, d))
      | ((f, False), S) \<Rightarrow>
          (case so_futs S ! f of
             FutPending \<Rightarrow> (None, S, snd W)
           | FutResolved s \<Rightarrow> (Some (Inr (f, s)), S, snd W)
           | FutFailed e \<Rightarrow> (Some (Inl e), S, snd W)))"

text \<open>\<open>reset\<close>: the entry is dropped; the value is the future to wait for.\<close>

definition pop_slot :: "'k \<Rightarrow> 'k session_store \<Rightarrow> nat option \<times> 'k session_store" where
  "pop_slot k S = (map_of (so_map S) k, S\<lparr>so_map := dict_pop k (so_map S)\<rparr>)"

definition safe_resolve :: "nat \<Rightarrow> 'k session_store \<Rightarrow> chat_session option option" where
  "safe_resolve f S =
     (case so_futs S ! f of FutPending \<Rightarrow> None | FutResolved s \<Rightarrow> Some (Some s) | FutFailed _ \<Rightarrow> Some None)"

definition clear_persisted_thread :: "(chat_row, 'c) table \<Rightarrow> int \<Rightarrow> 'c \<Rightarrow> 'c" where
  "clear_persisted_thread T chat d = set_codex_thread_id T chat None d"

definition reset_session ::
  "(chat_row, 'c) table \<Rightarrow> 'k \<Rightarrow> 'k session_store \<times> 'c \<Rightarrow> bool option \<times> 'k session_store \<times> 'c" where
  "reset_session T k W =
     (case pop_slot k (fst W) of
        (None, S) \<Rightarrow> (Some False, S, snd W)
      | (Some f, S) \<Rightarrow>
          (case safe_resolve f S of
             None \<Rightarrow> (None, S, snd W)
           | Some None \<Rightarrow> (Some False, S, snd W)
           | Some (Some s) \<Rightarrow> (Some True, S, clear_persisted_thread T (cs_chat s) (snd W))))"

section \<open>Cancelling\<close>

text \<open>
  \<open>finish\<close> is what awaiting the cancelled task does to the world, of which the store is a part;
  the task may have cleared \<open>current_turn_task\<close> itself by then.
\<close>

definition set_task :: "nat \<Rightarrow> nat option \<Rightarrow> 'k session_store \<Rightarrow> 'k session_store" where
  "set_task f t S = S\<lparr>so_tasks := (case t of None \<Rightarrow> dict_pop f (so_tasks S) | Some i \<Rightarrow> dict_set f i (so_tasks S))\<rparr>"

definition cancel_session_turn ::
  "(nat \<Rightarrow> 'k session_store \<times> 'w \<Rightarrow> 'k session_store \<times> 'w) \<Rightarrow> nat \<Rightarrow> 'k session_store \<times> 'w \<Rightarrow>
     bool \<times> 'k session_store \<times> 'w" where
  "cancel_session_turn finish f W =
     (case map_of (so_tasks (fst W)) f of
        None \<Rightarrow> (False, W)
      | Some t \<Rightarrow>
          (case finish t W of
             (S, w) \<Rightarrow> (True, if map_of (so_tasks S) f = Some t then set_task f None S else S, w)))"

text \<open>The sessions that are resolved, each cancelled and journaled; \<open>None\<close> waits for ever.\<close>

fun interrupt_futures ::
  "(nat \<Rightarrow> 'k session_store \<times> 'w \<Rightarrow> 'k session_store \<times> 'w) \<Rightarrow> (chat_session \<Rightarrow> 'w \<Rightarrow> 'w) \<Rightarrow> nat list \<Rightarrow>
     'k session_store \<times> 'w \<Rightarrow> nat option \<times> 'k session_store \<times> 'w" where
  "interrupt_futures finish hook [] W = (Some 0, W)"
| "interrupt_futures finish hook (f # fs) W =
     (case safe_resolve f (fst W) of
        None \<Rightarrow> (None, W)
      | Some None \<Rightarrow> interrupt_futures finish hook fs W
      | Some (Some s) \<Rightarrow>
          (case cancel_session_turn finish f W of
             (False, W1) \<Rightarrow> interrupt_futures finish hook fs W1
           | (True, S, w) \<Rightarrow>
               (case interrupt_futures finish hook fs (S, hook s w) of
                  (n, W2) \<Rightarrow> (map_option Suc n, W2))))"

definition interrupt_all_turns ::
  "(nat \<Rightarrow> 'k session_store \<times> 'w \<Rightarrow> 'k session_store \<times> 'w) \<Rightarrow> (chat_session \<Rightarrow> 'w \<Rightarrow> 'w) \<Rightarrow>
     'k session_store \<times> 'w \<Rightarrow> nat option \<times> 'k session_store \<times> 'w" where
  "interrupt_all_turns finish hook W = interrupt_futures finish hook (map snd (so_map (fst W))) W"

section \<open>The Telegram bootstrap\<close>

type_synonym tg_key = "int \<times> int option"

text \<open>The user and the chat in one transaction; a failed one changes nothing.\<close>

definition tg_bootstrap ::
  "(user_row, 'u) table \<Rightarrow> (chat_row, 'c) table \<Rightarrow> int list \<Rightarrow> int \<Rightarrow> tg_key \<Rightarrow> int \<Rightarrow> string option \<Rightarrow> 'u \<times> 'c \<Rightarrow>
     (string + chat_session) \<times> 'u \<times> 'c" where
  "tg_bootstrap U T admin_ids now k tg_user name d =
     (case get_or_create_by_tg U admin_ids tg_user name (fst d) of
        None \<Rightarrow> (Inl ''IntegrityError'', d)
      | Some (u, du) \<Rightarrow>
          (case get_or_create_for_tg T (u_id u) (fst k) (snd k) now (snd d) of
             None \<Rightarrow> (Inl ''IntegrityError'', d)
           | Some (c, dc) \<Rightarrow> (Inr \<lparr>cs_chat = c_id c, cs_user = u_id u, cs_admin = (u_role u = ROLE_ADMIN)\<rparr>, du, dc)))"

definition tg_get_or_open ::
  "(user_row, 'u) table \<Rightarrow> (chat_row, 'c) table \<Rightarrow> int list \<Rightarrow> int \<Rightarrow> tg_key \<Rightarrow> int \<Rightarrow> string option \<Rightarrow>
     tg_key session_store \<times> 'u \<times> 'c \<Rightarrow> (string + nat \<times> chat_session) option \<times> tg_key session_store \<times> 'u \<times> 'c" where
  "tg_get_or_open U T admin_ids now k tg_user name W = get_or_open k (tg_bootstrap U T admin_ids now k tg_user name) W"

section \<open>Interleavings\<close>

datatype 'k store_op =
    OpClaim 'k
  | OpFulfil nat 'k "string + chat_session"
  | OpReset 'k
  | OpTask nat "nat option"

fun store_step :: "'k store_op \<Rightarrow> 'k session_store \<Rightarrow> (nat \<times> bool) option \<times> 'k session_store" where
  "store_step (OpClaim k) S = (case claim_slot k S of (r, S') \<Rightarrow> (Some r, S'))"
| "store_step (OpFulfil f k res) S = (None, fulfil_slot f k res S)"
| "store_step (OpReset k) S = (None, snd (pop_slot k S))"
| "store_step (OpTask f t) S = (None, set_task f t S)"

fun store_run :: "'k store_op list \<Rightarrow> 'k session_store \<Rightarrow> (nat \<times> bool) option list \<times> 'k session_store" where
  "store_run [] S = ([], S)"
| "store_run (x # xs) S =
     (case store_step x S of (r, S1) \<Rightarrow> (case store_run xs S1 of (rs, S2) \<Rightarrow> (r # rs, S2)))"

text \<open>The operations that end the life of a future: its fulfilment, and the reset of its key.\<close>

fun ends_slot :: "nat \<Rightarrow> 'k \<Rightarrow> 'k store_op \<Rightarrow> bool" where
  "ends_slot f k (OpFulfil g k' res) \<longleftrightarrow> g = f"
| "ends_slot f k (OpReset k') \<longleftrightarrow> k' = k"
| "ends_slot f k _ \<longleftrightarrow> False"

definition holds_slot :: "nat \<Rightarrow> 'k \<Rightarrow> session_future \<Rightarrow> 'k session_store \<Rightarrow> bool" where
  "holds_slot f k v S \<longleftrightarrow> map_of (so_map S) k = Some f \<and> f < length (so_futs S) \<and> so_futs S ! f = v"

lemma claim_held:
  "holds_slot f k v S \<Longrightarrow> \<not> failed_attempt v \<Longrightarrow> claim_slot k S = ((f, False), S)"
  by (simp add: holds_slot_def claim_slot_def Let_def)

lemma step_holds:
  assumes "holds_slot f k v S" "\<not> failed_attempt v" "\<not> ends_slot f k x"
  shows "holds_slot f k v (snd (store_step x S))"
proof (cases x)
  case (OpClaim k')
  show ?thesis
  proof (cases "k' = k")
    case True
    with OpClaim claim_held [OF assms(1,2)] assms(1) show ?thesis by simp
  next
    case False
    with OpClaim assms(1) show ?thesis
      by (auto simp: holds_slot_def claim_slot_def Let_def nth_append split: option.splits)
  qed
next
  case (OpFulfil g k' res)
  with assms show ?thesis by (cases res) (auto simp: holds_slot_def fulfil_slot_def)
next
  case (OpReset k')
  with assms show ?thesis by (auto simp: holds_slot_def pop_slot_def)
next
  case (OpTask g t)
  with assms show ?thesis by (auto simp: holds_slot_def set_task_def)
qed

text \<open>While nobody fulfils a future or resets its key, every claim of the key gets this future.\<close>

lemma slot_kept:
  assumes "holds_slot f k v S" "\<not> failed_attempt v" "\<forall>x \<in> set xs. \<not> ends_slot f k x" "store_run xs S = (rs, S')"
  shows "holds_slot f k v S' \<and> (\<forall>i < length xs. xs ! i = OpClaim k \<longrightarrow> rs ! i = Some (f, False))"
  using assms
proof (induction xs arbitrary: S rs S')
  case (Cons x xs)
  obtain r S1 where s: "store_step x S = (r, S1)" by fastforce
  obtain rs1 S2 where r: "store_run xs S1 = (rs1, S2)" by fastforce
  from Cons.prems s r have eq: "rs = r # rs1" "S' = S2" by auto
  have "holds_slot f k v S1" using step_holds [OF Cons.prems(1,2), of x] Cons.prems(3) s by simp
  from Cons.IH [OF this Cons.prems(2) _ r] Cons.prems(3)
  have IH: "holds_slot f k v S2" "\<forall>i < length xs. xs ! i = OpClaim k \<longrightarrow> rs1 ! i = Some (f, False)" by auto
  have "x = OpClaim k \<Longrightarrow> r = Some (f, False)" using claim_held [OF Cons.prems(1,2)] s by auto
  with IH show ?case by (auto simp: eq nth_Cons split: nat.splits)
qed simp

text \<open>
  A bootstrap that is cancelled never fulfils its future: \<open>except Exception\<close> does not see
  \<open>CancelledError\<close>. Every later caller of the chat gets this future and waits.
\<close>

lemma cancelled_bootstrap_blocks:
  assumes "claim_slot k S = ((f, True), S0)" "\<forall>x \<in> set xs. \<not> ends_slot f k x" "store_run xs S0 = (rs, S')"
    and "f = length (so_futs S)"
  shows "fst (get_or_open k bootstrap (S', d)) = None"
proof -
  have "holds_slot f k FutPending S0" using assms(1,4)
    by (auto simp: claim_slot_def holds_slot_def Let_def split: option.splits if_splits)
  with slot_kept [OF _ _ assms(2,3), of FutPending] have h: "holds_slot f k FutPending S'" by (simp add: failed_attempt_def)
  then have "claim_slot k S' = ((f, False), S')" by (rule claim_held) (simp add: failed_attempt_def)
  with h show ?thesis by (simp add: get_or_open_def holds_slot_def)
qed

section \<open>Properties\<close>

text \<open>
  A session belongs to whoever spoke first. Once an administrator has opened the session of
  a group, every later message of that group, by any user, is served by the same session with
  the administrator's account and the administrator's sidecar, until the session is reset:
  the bootstrap for the new speaker is not run, whatever his role.
\<close>

theorem session_keeps_first_speaker:
  assumes "tg_get_or_open U T admin_ids now k alice name (S, d) = (Some (Inr (f, s)), S1, d1)"
    and "cs_admin s" "\<forall>x \<in> set xs. \<not> ends_slot f k x" "store_run xs S1 = (rs, S2)"
    and "fst (claim_slot k S) = (f, True)"
  shows "tg_get_or_open U T admin_ids' now' k bob name' (S2, d2) = (Some (Inr (f, s)), S2, d2)"
proof -
  let ?b = "tg_bootstrap U T admin_ids now k alice name"
  from assms(1,5) have "holds_slot f k (FutResolved s) S1"
    by (auto simp: tg_get_or_open_def get_or_open_def claim_slot_def holds_slot_def fulfil_slot_def Let_def
        split: option.splits if_splits prod.splits sum.splits session_future.splits)
  then have h: "holds_slot f k (FutResolved s) S2"
    using slot_kept [OF _ _ assms(3,4)] by (simp add: failed_attempt_def)
  then have "claim_slot k S2 = ((f, False), S2)" by (rule claim_held) (simp add: failed_attempt_def)
  with h show ?thesis by (simp add: tg_get_or_open_def get_or_open_def holds_slot_def)
qed

text \<open>A group 9: the administrator 1 speaks first, then the guest 2.\<close>

abbreviation demo_users_table :: "(user_row, user_row rows) table" where
  "demo_users_table \<equiv> mem_table (\<lambda>_. True)"

abbreviation demo_chats_table :: "(chat_row, chat_row rows) table" where
  "demo_chats_table \<equiv> mem_table (\<lambda>_. True)"

lemma session_keeps_first_speaker_witness:
  "fst (tg_get_or_open demo_users_table demo_chats_table [1] 20 (9, None) 2 None
     (snd (tg_get_or_open demo_users_table demo_chats_table [1] 10 (9, None) 1 None (empty_store, (1, []), (1, [])))))
   = Some (Inr (0, \<lparr>cs_chat = 1, cs_user = 1, cs_admin = True\<rparr>))"
proof -
  let ?s = "\<lparr>cs_chat = 1, cs_user = 1, cs_admin = True\<rparr>"
  have eval: "tg_get_or_open demo_users_table demo_chats_table [1] 10 (9, None) 1 None (empty_store, (1, []), (1, [])) =
      (Some (Inr (0, ?s)), \<lparr>so_map = [((9, None), 0)], so_futs = [FutResolved ?s], so_tasks = []\<rparr>,
        (2, [(1, new_user (Some 1) None None ROLE_ADMIN 1)]), (2, [(1, new_chat 1 SRC_TELEGRAM (Some 9) None 10 1)]))"
    by (simp add: tg_get_or_open_def get_or_open_def claim_slot_def empty_store_def tg_bootstrap_def get_or_create_by_tg_def
        mem_table_def one_or_none_def get_or_create_for_tg_def new_user_def new_chat_def fulfil_slot_def Let_def)
  have "fst (claim_slot (9, None) (empty_store :: tg_key session_store)) = (0, True)"
    by (simp add: claim_slot_def empty_store_def)
  from session_keeps_first_speaker [OF eval _ _ _ this, of "[]" "[]"] show ?thesis
    unfolding eval snd_conv by simp
qed

end
