(* ===== verification/Py_Text.thy ===== *)
theory Py_Text
  imports Prelude
begin

text \<open>
  What the modules on files, keys and configuration use of Python's strings and of
  \<open>pathlib.PurePosixPath\<close> (3.14): splitting, the name and suffix of a path, character
  classes, Base64. Characters are those below 256.
\<close>

section \<open>Splitting\<close>

text \<open>\<open>s.split(c)\<close> for one character\<close>

fun split_on :: "char \<Rightarrow> string \<Rightarrow> string list" where
  "split_on c [] = [[]]"
| "split_on c (x # xs) =
     (if x = c then [] # split_on c xs
      else case split_on c xs of [] \<Rightarrow> [[x]] | p # ps \<Rightarrow> (x # p) # ps)"

lemma split_on_nonempty [simp]: "split_on c s \<noteq> []"
  by (induction s) (auto split: list.splits)

lemma split_on_none: "c \<notin> set s \<Longrightarrow> split_on c s = [s]"
  by (induction s) auto

lemma split_on_append: "c \<notin> set p \<Longrightarrow> split_on c (p @ c # s) = p # split_on c s"
  by (induction p) auto

lemma split_on_parts: "p \<in> set (split_on c s) \<Longrightarrow> c \<notin> set p"
  by (induction s arbitrary: p) (auto split: if_splits list.splits)

lemma split_on_chars: "p \<in> set (split_on c s) \<Longrightarrow> set p \<subseteq> set s"
  by (induction s arbitrary: p) (fastforce split: if_splits list.splits)+

lemma join_with_head: "join_with sep ((x # p) # ps) = x # join_with sep (p # ps)"
  by (cases ps) auto

lemma join_with_blank: "ps \<noteq> [] \<Longrightarrow> join_with [c] ([] # ps) = c # join_with [c] ps"
  by (cases ps) auto

lemma join_split: "join_with [c] (split_on c s) = s"
  by (induction s) (auto simp: join_with_head join_with_blank split: list.splits)

lemma split_join: "ps \<noteq> [] \<Longrightarrow> \<forall>p \<in> set ps. c \<notin> set p \<Longrightarrow> split_on c (join_with [c] ps) = ps"
  by (induction "[c]" ps rule: join_with.induct) (auto simp: split_on_none split_on_append)

section \<open>Characters\<close>

definition in_range :: "nat \<Rightarrow> nat \<Rightarrow> char \<Rightarrow> bool" where
  "in_range a b c \<longleftrightarrow> a \<le> of_char c \<and> (of_char c :: nat) \<le> b"

definition is_ascii_alnum :: "char \<Rightarrow> bool" where
  "is_ascii_alnum c \<longleftrightarrow> in_range 48 57 c \<or> in_range 65 90 c \<or> in_range 97 122 c"

text \<open>\<open>str.isalnum\<close>: the letters, digits and numerals of Latin-1\<close>

definition is_alnum :: "char \<Rightarrow> bool" where
  "is_alnum c \<longleftrightarrow> is_ascii_alnum c \<or> (of_char c :: nat) \<in> {170, 178, 179, 181, 185, 186, 188, 189, 190}
     \<or> in_range 192 214 c \<or> in_range 216 246 c \<or> in_range 248 255 c"

section \<open>Paths\<close>

definition path_parts :: "string \<Rightarrow> string list" where
  "path_parts s = filter (\<lambda>p. p \<noteq> [] \<and> p \<noteq> ''.'') (split_on CHR ''/'' s)"

definition path_name :: "string \<Rightarrow> string" where
  "path_name s = (if path_parts s = [] then [] else last (path_parts s))"

text \<open>The last suffix with its dot: leading dots belong to the stem.\<close>

definition path_suffix :: "string \<Rightarrow> string" where
  "path_suffix s =
     (let name = path_name s; tail = rev (takeWhile (\<lambda>c. c \<noteq> CHR ''.'') (rev name));
          head = take (length name - length tail - 1) name
      in if length tail < length name \<and> (\<exists>c \<in> set head. c \<noteq> CHR ''.'') then CHR ''.'' # tail else [])"

lemma path_name_chars: "c \<in> set (path_name s) \<Longrightarrow> c \<in> set s \<and> c \<noteq> CHR ''/''"
proof -
  assume c: "c \<in> set (path_name s)"
  then have "path_name s \<in> set (split_on CHR ''/'' s)"
    using last_in_set [of "path_parts s"] by (auto simp: path_name_def path_parts_def split: if_splits)
  with c split_on_parts split_on_chars show ?thesis by blast
qed

lemma path_suffix_no_slash: "CHR ''/'' \<notin> set (path_suffix s)"
proof -
  have "CHR ''/'' \<notin> set (path_name s)" using path_name_chars by blast
  then show ?thesis by (auto simp: path_suffix_def Let_def dest!: set_takeWhileD)
qed

section \<open>Base64\<close>

definition b64_char :: "nat \<Rightarrow> char" where
  "b64_char n = char_of (if n < 26 then 65 + n else if n < 52 then 71 + n else if n < 62 then n - 4
     else if n = 62 then 43 else 47 :: nat)"

fun b64encode :: "string \<Rightarrow> string" where
  "b64encode [] = []"
| "b64encode [a] = (let n = of_char a :: nat in [b64_char (n div 4), b64_char (n mod 4 * 16), CHR ''='', CHR ''=''])"
| "b64encode [a, b] =
     (let n = of_char a * 256 + of_char b :: nat in
      [b64_char (n div 1024), b64_char (n div 16 mod 64), b64_char (n mod 16 * 4), CHR ''=''])"
| "b64encode (a # b # c # s) =
     (let n = (of_char a * 256 + of_char b) * 256 + of_char c :: nat in
      [b64_char (n div 262144), b64_char (n div 4096 mod 64), b64_char (n div 64 mod 64), b64_char (n mod 64)] @ b64encode s)"

end
