(* ===== verification/Ownership.thy ===== *)
theory Ownership
  imports Interfaces
begin

text \<open>
  The contract of the services that keep rows of many users in one table: an operation acts for
  one user, it returns rows of this user only, and it leaves the rows of everyone else alone.
  The components interpret the locale on their own operations; what follows for any run of
  operations of many users is proved once here.
\<close>

text \<open>A run: the result of each operation, and the state after the last.\<close>

fun run_ops :: "('p \<Rightarrow> 'w \<Rightarrow> 'r \<times> 'w) \<Rightarrow> 'p list \<Rightarrow> 'w \<Rightarrow> 'r list \<times> 'w" where
  "run_ops step [] w = ([], w)"
| "run_ops step (x # xs) w =
     (case step x w of (r, w1) \<Rightarrow> (case run_ops step xs w1 of (rs, w2) \<Rightarrow> (r # rs, w2)))"

fun allowed_run :: "('p \<Rightarrow> 'w \<Rightarrow> 'r \<times> 'w) \<Rightarrow> ('p \<Rightarrow> 'w \<Rightarrow> bool) \<Rightarrow> 'p list \<Rightarrow> 'w \<Rightarrow> bool" where
  "allowed_run step allowed [] w \<longleftrightarrow> True"
| "allowed_run step allowed (x # xs) w \<longleftrightarrow> allowed x w \<and> allowed_run step allowed xs (snd (step x w))"

lemma run_ops_append:
  "run_ops step (xs @ ys) w =
     (case run_ops step xs w of (rs, w1) \<Rightarrow> (case run_ops step ys w1 of (rs', w2) \<Rightarrow> (rs @ rs', w2)))"
  by (induction xs arbitrary: w) (auto split: prod.splits)

lemma allowed_always: "(\<And>x w. allowed x w) \<Longrightarrow> allowed_run step allowed xs w"
  by (induction xs arbitrary: w) auto

definition owned_by :: "('r \<Rightarrow> int) \<Rightarrow> int \<Rightarrow> (int \<Rightarrow> 'r option) \<Rightarrow> int \<Rightarrow> 'r option" where
  "owned_by owner v m = (\<lambda>k. case m k of None \<Rightarrow> None | Some r \<Rightarrow> if owner r = v then Some r else None)"

lemma owned_by_upd:
  "owned_by owner v (m(k := x)) = (owned_by owner v m)(k := (case x of None \<Rightarrow> None | Some r \<Rightarrow> if owner r = v then Some r else None))"
  by (auto simp: owned_by_def fun_eq_iff)

lemma owned_by_fresh: "m k = None \<Longrightarrow> owner r \<noteq> v \<Longrightarrow> owned_by owner v (m(k \<mapsto> r)) = owned_by owner v m"
  by (auto simp: owned_by_def fun_eq_iff)

lemma owned_by_del:
  assumes "\<And>k r. m k = Some r \<Longrightarrow> p r \<Longrightarrow> owner r \<noteq> v"
  shows "owned_by owner v (del_view p m) = owned_by owner v m"
  using assms by (auto simp: owned_by_def del_view_def fun_eq_iff split: option.splits)

lemma owned_by_change:
  assumes "\<And>k r. m k = Some r \<Longrightarrow> p r \<Longrightarrow> owner r \<noteq> v" "\<And>r. owner (f r) = owner r"
  shows "owned_by owner v (upd_view p f m) = owned_by owner v m"
  using assms by (auto simp: owned_by_def upd_view_def fun_eq_iff split: option.splits)

locale owned =
  fixes step :: "'p \<Rightarrow> 'w \<Rightarrow> 'r list \<times> 'w" and actor :: "'p \<Rightarrow> int" and owner :: "'r \<Rightarrow> int"
    and view :: "'w \<Rightarrow> int \<Rightarrow> 'r option" and ok :: "'w \<Rightarrow> bool" and allowed :: "'p \<Rightarrow> 'w \<Rightarrow> bool"
  assumes step_ok: "ok w \<Longrightarrow> allowed x w \<Longrightarrow> ok (snd (step x w))"
    and reads_own: "ok w \<Longrightarrow> allowed x w \<Longrightarrow> r \<in> set (fst (step x w)) \<Longrightarrow> owner r = actor x"
    and writes_own: "ok w \<Longrightarrow> allowed x w \<Longrightarrow> v \<noteq> actor x \<Longrightarrow>
      owned_by owner v (view (snd (step x w))) = owned_by owner v (view w)"
begin

lemma isolation:
  assumes "ok w" "allowed_run step allowed xs w" "run_ops step xs w = (outs, w')"
  shows "ok w' \<and> (\<forall>i < length xs. \<forall>r \<in> set (outs ! i). owner r = actor (xs ! i))
    \<and> (\<forall>v. v \<notin> actor ` set xs \<longrightarrow> owned_by owner v (view w') = owned_by owner v (view w))"
  using assms
proof (induction xs arbitrary: w outs)
  case (Cons x xs)
  obtain r w1 where s: "step x w = (r, w1)" by fastforce
  from Cons.prems(3) s obtain rs where rest: "run_ops step xs w1 = (rs, w')" and eq: "outs = r # rs"
    by (auto split: prod.splits)
  from Cons.prems(1,2) s have w1: "ok w1" "allowed x w" "allowed_run step allowed xs w1"
    using step_ok [of w x] by auto
  from Cons.IH [OF w1(1,3) rest]
  have IH: "ok w'" "\<forall>i < length xs. \<forall>r \<in> set (rs ! i). owner r = actor (xs ! i)"
    "\<And>v. v \<notin> actor ` set xs \<Longrightarrow> owned_by owner v (view w') = owned_by owner v (view w1)" by auto
  have "\<forall>y \<in> set r. owner y = actor x" using reads_own [OF Cons.prems(1) w1(2)] s by auto
  moreover have "owned_by owner v (view w1) = owned_by owner v (view w)" if "v \<noteq> actor x" for v
    using writes_own [OF Cons.prems(1) w1(2) that] s by simp
  ultimately show ?case using IH by (auto simp: eq nth_Cons split: nat.splits)
qed simp

end

end
