(* ===== verification/Uploads.thy ===== *)
theory Uploads
  imports Py_Text Ownership Chat_Rpc Tg_Progress
begin

text \<open>
  Files of users: the object store (\<open>services/storage/s3.py\<close>), the upload service
  (\<open>services/uploads/service.py\<close>), the workspace copies (\<open>services/uploads/workspace.py\<close>),
  the handlers of \<open>rpc/uploads.py\<close> and \<open>rpc/chat/uploads.py\<close> and the voice reply of
  \<open>rpc/chat/tts.py\<close>. The table, the object store's server, the disk, the mime table, the
  transcriber and the synthesizer are parameters; random names are arguments. Temporary files
  exist only inside one operation and are left out.
\<close>

section \<open>The object store\<close>

text \<open>The server holds bytes under keys; a call fails as its \<open>fault\<close> says, with a \<open>ClientError\<close>.\<close>

type_synonym objects = "string \<Rightarrow> string option"

datatype upload_exn = ClientError | StorageError | DbError | DiskError | NoS3Path | SttError

definition s3_path_of :: "string \<Rightarrow> string \<Rightarrow> string" where
  "s3_path_of bucket key = ''s3://'' @ bucket @ ''/'' @ key"

definition s3_upload_file :: "string \<Rightarrow> fault \<Rightarrow> string \<Rightarrow> string \<Rightarrow> objects \<Rightarrow> (upload_exn + string) \<times> objects" where
  "s3_upload_file bucket f key data s =
     (case call f (\<lambda>s. ((), s(key \<mapsto> data))) s of
        (None, s') \<Rightarrow> (Inl ClientError, s') | (Some _, s') \<Rightarrow> (Inr (s3_path_of bucket key), s'))"

definition s3_download_bytes :: "fault \<Rightarrow> string \<Rightarrow> objects \<Rightarrow> upload_exn + string" where
  "s3_download_bytes f key s = (case fst (call f (\<lambda>s. (s key, s)) s) of Some (Some data) \<Rightarrow> Inr data | _ \<Rightarrow> Inl ClientError)"

text \<open>Deleting wraps the client's exceptions.\<close>

definition s3_delete :: "fault \<Rightarrow> string \<Rightarrow> objects \<Rightarrow> (upload_exn + unit) \<times> objects" where
  "s3_delete f key s =
     (case call f (\<lambda>s. ((), s(key := None))) s of (None, s') \<Rightarrow> (Inl StorageError, s') | (Some _, s') \<Rightarrow> (Inr (), s'))"

text \<open>\<open>url.replace(endpoint, host, 1)\<close>\<close>

fun replace_first :: "string \<Rightarrow> string \<Rightarrow> string \<Rightarrow> string" where
  "replace_first old new s =
     (if prefix old s then new @ drop (length old) s else case s of [] \<Rightarrow> [] | c # cs \<Rightarrow> c # replace_first old new cs)"

definition s3_presigned_url :: "string \<Rightarrow> string \<Rightarrow> (string \<Rightarrow> int \<Rightarrow> string) \<Rightarrow> string \<Rightarrow> int \<Rightarrow> bool \<Rightarrow> string" where
  "s3_presigned_url endpoint public_host sign key ttl public =
     (let url = sign key ttl in
      if public \<and> public_host \<noteq> [] \<and> public_host \<noteq> endpoint then replace_first endpoint public_host url else url)"

section \<open>The upload service\<close>

record upload_row =
  up_id :: int
  up_user :: int
  up_chat :: "int option"
  up_filename :: string
  up_mime :: string
  up_size :: int
  up_s3 :: string
  up_created :: int

record 'u files =
  fi_rows :: 'u
  fi_objs :: objects
  fi_disk :: "string \<Rightarrow> string option"

definition key_from_s3_path :: "string \<Rightarrow> string option" where
  "key_from_s3_path path =
     (if \<not> prefix ''s3://'' path then None
      else let rest = drop 5 path; tail = dropWhile (\<lambda>c. c \<noteq> CHR ''/'') rest
           in if tail = [] then None else Some (tl tail))"

definition upload_key :: "int option \<Rightarrow> int \<Rightarrow> string \<Rightarrow> string \<Rightarrow> string" where
  "upload_key chat user uuid filename =
     ''chats/'' @ (case chat of Some c \<Rightarrow> str_of_int c | None \<Rightarrow> ''users/'' @ str_of_int user) @ ''/uploads/'' @ uuid @ path_suffix filename"

definition persist_local_file ::
  "(upload_row, 'u) table \<Rightarrow> string \<Rightarrow> (string \<Rightarrow> string option) \<Rightarrow> fault \<Rightarrow> string \<Rightarrow> int \<Rightarrow> int option \<Rightarrow> int \<Rightarrow>
     string \<Rightarrow> string \<Rightarrow> string \<Rightarrow> string \<Rightarrow> 'u files \<Rightarrow> (upload_exn + upload_row) \<times> 'u files" where
  "persist_local_file U bucket mimes f uuid now chat user source filename mime data w =
     (let name = (if filename = [] then path_name source else filename);
          kind = (if mime \<noteq> [] then mime else case mimes name of Some m \<Rightarrow> m | None \<Rightarrow> ''application/octet-stream'')
      in case s3_upload_file bucket f (upload_key chat user uuid name) data (fi_objs w) of
           (Inl e, s) \<Rightarrow> (Inl e, w\<lparr>fi_objs := s\<rparr>)
         | (Inr path, s) \<Rightarrow>
             (case tb_insert U (\<lambda>k. \<lparr>up_id = k, up_user = user, up_chat = chat, up_filename = name, up_mime = kind,
                 up_size = int (length data), up_s3 = path, up_created = now\<rparr>) (fi_rows w) of
                None \<Rightarrow> (Inl DbError, w\<lparr>fi_objs := s\<rparr>)
              | Some (r, d) \<Rightarrow> (Inr r, w\<lparr>fi_objs := s, fi_rows := d\<rparr>)))"

definition persist_chunks ::
  "(upload_row, 'u) table \<Rightarrow> string \<Rightarrow> (string \<Rightarrow> string option) \<Rightarrow> fault \<Rightarrow> string \<Rightarrow> int \<Rightarrow> int option \<Rightarrow> int \<Rightarrow>
     string \<Rightarrow> string \<Rightarrow> string list \<Rightarrow> 'u files \<Rightarrow> (upload_exn + upload_row) \<times> 'u files" where
  "persist_chunks U bucket mimes f uuid now chat user filename mime chunks w =
     persist_local_file U bucket mimes f uuid now chat user [] filename mime (concat chunks) w"

fun unique_local_paths :: "file_system \<Rightarrow> attachment list \<Rightarrow> string list \<Rightarrow> string list" where
  "unique_local_paths F [] seen = []"
| "unique_local_paths F (a # as) seen =
     (case resolve_trusted_local_path F (att_source a) of
        None \<Rightarrow> unique_local_paths F as seen
      | Some p \<Rightarrow> if p \<in> set seen then unique_local_paths F as seen else p # unique_local_paths F as (p # seen))"

text \<open>A file that cannot be read or stored is skipped.\<close>

fun persist_paths ::
  "(upload_row, 'u) table \<Rightarrow> string \<Rightarrow> (string \<Rightarrow> string option) \<Rightarrow> (string \<Rightarrow> fault \<times> string) \<Rightarrow> int \<Rightarrow> int \<Rightarrow> int \<Rightarrow>
     string list \<Rightarrow> 'u files \<Rightarrow> int list \<times> 'u files" where
  "persist_paths U bucket mimes e now chat user [] w = ([], w)"
| "persist_paths U bucket mimes e now chat user (p # ps) w =
     (case fi_disk w p of
        None \<Rightarrow> persist_paths U bucket mimes e now chat user ps w
      | Some data \<Rightarrow>
          (case persist_local_file U bucket mimes (fst (e p)) (snd (e p)) now (Some chat) user p [] [] data w of
             (Inl _, w1) \<Rightarrow> persist_paths U bucket mimes e now chat user ps w1
           | (Inr r, w1) \<Rightarrow>
               (case persist_paths U bucket mimes e now chat user ps w1 of (ids, w2) \<Rightarrow> (up_id r # ids, w2))))"

definition persist_attachments ::
  "file_system \<Rightarrow> (upload_row, 'u) table \<Rightarrow> string \<Rightarrow> (string \<Rightarrow> string option) \<Rightarrow> (string \<Rightarrow> fault \<times> string) \<Rightarrow> int \<Rightarrow>
     int \<Rightarrow> int \<Rightarrow> attachment list \<Rightarrow> 'u files \<Rightarrow> int list \<times> 'u files" where
  "persist_attachments F U bucket mimes e now chat user atts w =
     persist_paths U bucket mimes e now chat user (unique_local_paths F atts []) w"

definition get_upload :: "(upload_row, 'u) table \<Rightarrow> int \<Rightarrow> int \<Rightarrow> 'u \<Rightarrow> upload_row option" where
  "get_upload U i user d = one_or_none (tb_select U (\<lambda>r. up_id r = i \<and> up_user r = user) d)"

definition list_uploads :: "(upload_row, 'u) table \<Rightarrow> int \<Rightarrow> int option \<Rightarrow> nat \<Rightarrow> nat \<Rightarrow> 'u \<Rightarrow> upload_row list" where
  "list_uploads U user chat limit offset d =
     take limit (drop offset (sort_key (\<lambda>r. - up_created r)
       (tb_select U (\<lambda>r. up_user r = user \<and> (chat = None \<or> up_chat r = chat)) d)))"

text \<open>
  The exceptions caught around the store's \<open>delete\<close> are \<open>OSError\<close>, \<open>BotoCoreError\<close> and
  \<open>ClientError\<close>; a \<open>StorageError\<close> goes through.
\<close>

definition delete_upload :: "(upload_row, 'u) table \<Rightarrow> fault \<Rightarrow> int \<Rightarrow> int \<Rightarrow> 'u files \<Rightarrow> (upload_exn + bool) \<times> 'u files" where
  "delete_upload U f i user w =
     (case get_upload U i user (fi_rows w) of
        None \<Rightarrow> (Inr False, w)
      | Some r \<Rightarrow>
          (case (case key_from_s3_path (up_s3 r) of None \<Rightarrow> (Inr (), fi_objs w) | Some key \<Rightarrow> s3_delete f key (fi_objs w)) of
             (Inl StorageError, s) \<Rightarrow> (Inl StorageError, w\<lparr>fi_objs := s\<rparr>)
           | (_, s) \<Rightarrow> (Inr True, w\<lparr>fi_objs := s, fi_rows := snd (tb_delete U (\<lambda>x. up_id x = up_id r) (fi_rows w))\<rparr>)))"

definition presigned_for_upload :: "(string \<Rightarrow> int \<Rightarrow> bool \<Rightarrow> string) \<Rightarrow> upload_row \<Rightarrow> int \<Rightarrow> bool \<Rightarrow> upload_exn + string" where
  "presigned_for_upload presign r ttl public =
     (case key_from_s3_path (up_s3 r) of None \<Rightarrow> Inl NoS3Path | Some key \<Rightarrow> Inr (presign key ttl public))"

definition download_to_stream :: "fault \<Rightarrow> upload_row \<Rightarrow> objects \<Rightarrow> upload_exn + string" where
  "download_to_stream f r s = (case key_from_s3_path (up_s3 r) of None \<Rightarrow> Inl NoS3Path | Some key \<Rightarrow> s3_download_bytes f key s)"

section \<open>Copies in the workspace\<close>

definition is_safe_extra :: "char \<Rightarrow> bool" where
  "is_safe_extra c \<longleftrightarrow> c \<in> set ''._-''"

definition safe_filename :: "string \<Rightarrow> string" where
  "safe_filename filename =
     (let cleaned = map (\<lambda>c. if is_alnum c \<or> is_safe_extra c then c else CHR ''_'') (path_name filename);
          kept = strip_by is_safe_extra cleaned
      in if kept = [] then ''file'' else kept)"

definition workspace_path :: "int \<Rightarrow> int \<Rightarrow> string \<Rightarrow> string" where
  "workspace_path chat upload filename =
     ''uploads/chat-'' @ str_of_int chat @ ''/'' @ str_of_int upload @ ''-'' @ safe_filename filename"

text \<open>\<open>writes\<close> says whether the directory and the file can be written.\<close>

definition materialize_for_chat ::
  "string \<Rightarrow> (string \<Rightarrow> bool) \<Rightarrow> string \<Rightarrow> int \<Rightarrow> int \<Rightarrow> string \<Rightarrow> 'u files \<Rightarrow> (upload_exn + string) \<times> 'u files" where
  "materialize_for_chat dir writes data chat upload filename w =
     (let relative = workspace_path chat upload filename; target = dir @ ''/'' @ relative
      in if \<not> writes target then (Inl DiskError, w) else (Inr relative, w\<lparr>fi_disk := (fi_disk w)(target \<mapsto> data)\<rparr>))"

section \<open>The handlers\<close>

record upload_cfg =
  uc_bucket :: string
  uc_mimes :: "string \<Rightarrow> string option"
  uc_presign :: "string \<Rightarrow> int \<Rightarrow> bool \<Rightarrow> string"
  uc_ttl :: int
  uc_ttl_max :: int
  uc_root :: string
  uc_writes :: "string \<Rightarrow> bool"
  uc_stt :: "string \<Rightarrow> string \<Rightarrow> upload_exn + string"

definition resolve_ttl :: "upload_cfg \<Rightarrow> int \<Rightarrow> int" where
  "resolve_ttl F s = (if s \<le> 0 then uc_ttl F else min s (uc_ttl_max F))"

definition resolve_page :: "int \<Rightarrow> int \<Rightarrow> int \<times> int" where
  "resolve_page limit offset = (min (if 0 < limit then limit else 50) 200, max offset 0)"

definition upload_once ::
  "upload_cfg \<Rightarrow> (upload_row, 'u) table \<Rightarrow> fault \<Rightarrow> string \<Rightarrow> int \<Rightarrow> user_row \<Rightarrow> int option \<Rightarrow> string \<Rightarrow> string \<Rightarrow> string \<Rightarrow>
     'u files \<Rightarrow> (rpc_code + upload_row \<times> string \<times> int) \<times> 'u files" where
  "upload_once F U f uuid now u chat filename mime data w =
     (if filename = [] \<or> mime = [] then (Inl INVALID_ARGUMENT, w)
      else case persist_chunks U (uc_bucket F) (uc_mimes F) f uuid now chat (u_id u) filename mime [data] w of
        (Inl _, w1) \<Rightarrow> (Inl RPC_INTERNAL, w1)
      | (Inr r, w1) \<Rightarrow>
          (case presigned_for_upload (uc_presign F) r (uc_ttl F) True of
             Inl _ \<Rightarrow> (Inl RPC_INTERNAL, w1) | Inr url \<Rightarrow> (Inr (r, url, uc_ttl F), w1)))"

definition get_presigned ::
  "upload_cfg \<Rightarrow> (upload_row, 'u) table \<Rightarrow> int \<Rightarrow> user_row \<Rightarrow> int option \<Rightarrow> int \<Rightarrow> 'u files \<Rightarrow>
     rpc_code + string \<times> int \<times> upload_row" where
  "get_presigned F U now u target ttl w =
     (let ttl_s = resolve_ttl F ttl in
      case target of
        None \<Rightarrow> Inl INVALID_ARGUMENT
      | Some i \<Rightarrow>
          (case get_upload U i (u_id u) (fi_rows w) of
             None \<Rightarrow> Inl RPC_NOT_FOUND
           | Some r \<Rightarrow>
               (case presigned_for_upload (uc_presign F) r ttl_s True of
                  Inl _ \<Rightarrow> Inl RPC_INTERNAL | Inr url \<Rightarrow> Inr (url, now + ttl_s, r))))"

definition rpc_list_uploads ::
  "(upload_row, 'u) table \<Rightarrow> user_row \<Rightarrow> int option \<Rightarrow> int \<Rightarrow> int \<Rightarrow> 'u files \<Rightarrow> upload_row list" where
  "rpc_list_uploads U u chat limit offset w =
     (case resolve_page limit offset of (n, skip) \<Rightarrow> list_uploads U (u_id u) chat (nat n) (nat skip) (fi_rows w))"

text \<open>The transaction is committed only when a row was removed.\<close>

definition rpc_delete_upload ::
  "(upload_row, 'u) table \<Rightarrow> fault \<Rightarrow> user_row \<Rightarrow> int \<Rightarrow> 'u files \<Rightarrow> (rpc_code + unit) \<times> 'u files" where
  "rpc_delete_upload U f u i w =
     (case delete_upload U f i (u_id u) w of
        (Inl _, w1) \<Rightarrow> (Inl RPC_INTERNAL, w1)
      | (Inr False, w1) \<Rightarrow> (Inl RPC_NOT_FOUND, w1)
      | (Inr True, w1) \<Rightarrow> (Inr (), w1))"

definition transcribe_upload ::
  "upload_cfg \<Rightarrow> (upload_row, 'u) table \<Rightarrow> fault \<Rightarrow> user_row \<Rightarrow> int \<Rightarrow> 'u files \<Rightarrow> rpc_code + string" where
  "transcribe_upload F U f u i w =
     (case get_upload U i (u_id u) (fi_rows w) of
        None \<Rightarrow> Inl RPC_NOT_FOUND
      | Some r \<Rightarrow>
          if \<not> (prefix ''audio/'' (up_mime r) \<or> prefix ''video/'' (up_mime r)) then Inl INVALID_ARGUMENT
          else case download_to_stream f r (fi_objs w) of
            Inl _ \<Rightarrow> Inl RPC_INTERNAL
          | Inr data \<Rightarrow> (case uc_stt F data (up_filename r) of Inl _ \<Rightarrow> Inl RPC_INTERNAL | Inr t \<Rightarrow> Inr t))"

definition no_uploads :: resolved_uploads where
  "no_uploads = \<lparr>ru_image_urls = [], ru_image_ids = [], ru_audio_ids = [], ru_file_paths = [], ru_file_ids = []\<rparr>"

definition data_uri :: "string \<Rightarrow> string \<Rightarrow> string" where
  "data_uri mime data = ''data:'' @ mime @ '';base64,'' @ b64encode data"

fun resolve_each ::
  "upload_cfg \<Rightarrow> (upload_row, 'u) table \<Rightarrow> (int \<Rightarrow> fault) \<Rightarrow> int \<Rightarrow> int \<Rightarrow> int list \<Rightarrow> resolved_uploads \<Rightarrow> 'u files \<Rightarrow>
     (rpc_code + resolved_uploads) \<times> 'u files" where
  "resolve_each F U fs user chat [] acc w = (Inr acc, w)"
| "resolve_each F U fs user chat (i # is) acc w =
     (case get_upload U i user (fi_rows w) of
        None \<Rightarrow> (Inl RPC_NOT_FOUND, w)
      | Some r \<Rightarrow>
          if prefix ''audio/'' (up_mime r) then resolve_each F U fs user chat is (acc\<lparr>ru_audio_ids := ru_audio_ids acc @ [i]\<rparr>) w
          else case download_to_stream (fs i) r (fi_objs w) of
            Inl _ \<Rightarrow> (Inl RPC_INTERNAL, w)
          | Inr data \<Rightarrow>
              if prefix ''image/'' (up_mime r)
              then resolve_each F U fs user chat is (acc\<lparr>ru_image_ids := ru_image_ids acc @ [i],
                     ru_image_urls := ru_image_urls acc @ [data_uri (up_mime r) data]\<rparr>) w
              else (case materialize_for_chat (uc_root F) (uc_writes F) data chat i (up_filename r) w of
                      (Inl _, w1) \<Rightarrow> (Inl RPC_INTERNAL, w1)
                    | (Inr path, w1) \<Rightarrow>
                        resolve_each F U fs user chat is (acc\<lparr>ru_file_paths := ru_file_paths acc @ [path],
                          ru_file_ids := ru_file_ids acc @ [i]\<rparr>) w1))"

definition resolve_uploads ::
  "upload_cfg \<Rightarrow> (upload_row, 'u) table \<Rightarrow> (int \<Rightarrow> fault) \<Rightarrow> int \<Rightarrow> int \<Rightarrow> int list \<Rightarrow> 'u files \<Rightarrow>
     (rpc_code + resolved_uploads) \<times> 'u files" where
  "resolve_uploads F U fs user chat ids w = (if ids = [] then (Inr no_uploads, w) else resolve_each F U fs user chat ids no_uploads w)"

section \<open>The voice of an answer\<close>

text \<open>\<open>None\<close> is a \<open>SpeechSynthesisError\<close>; a raised exception is one of those the caller catches.\<close>

definition synthesize_reply ::
  "upload_cfg \<Rightarrow> (upload_row, 'u) table \<Rightarrow> bool \<Rightarrow> (string \<Rightarrow> string option) \<Rightarrow> fault \<Rightarrow> string \<Rightarrow> int \<Rightarrow> int \<Rightarrow> int \<Rightarrow> string \<Rightarrow>
     'u files \<Rightarrow> (upload_exn + int option) \<times> 'u files" where
  "synthesize_reply F U enabled tts f uuid now chat user txt w =
     (if \<not> enabled then (Inr None, w)
      else case tts txt of
        None \<Rightarrow> (Inr None, w)
      | Some data \<Rightarrow>
          (case persist_chunks U (uc_bucket F) (uc_mimes F) f uuid now (Some chat) user ''reply.ogg'' ''audio/ogg'' [data] w of
             (Inl e, w1) \<Rightarrow> (Inl e, w1) | (Inr r, w1) \<Rightarrow> (Inr (Some (up_id r)), w1)))"

definition audio_ids :: "json option \<Rightarrow> json list" where
  "audio_ids meta = (case meta of Some (JObj kv) \<Rightarrow> (case jget kv ''audio_upload_ids'' of Some (JList xs) \<Rightarrow> xs | _ \<Rightarrow> []) | _ \<Rightarrow> [])"

definition with_audio :: "int \<Rightarrow> json option \<Rightarrow> json option" where
  "with_audio i meta = Some (JObj (dict_set ''audio_upload_ids'' (JList (audio_ids meta @ [JInt i]))
     (case meta of Some (JObj kv) \<Rightarrow> kv | _ \<Rightarrow> [])))"

definition attach_tts_to_message ::
  "upload_cfg \<Rightarrow> (upload_row, 'u) table \<Rightarrow> (msg_row, 'm) table \<Rightarrow> bool \<Rightarrow> (string \<Rightarrow> string option) \<Rightarrow> fault \<Rightarrow> string \<Rightarrow> int \<Rightarrow>
     int \<Rightarrow> string \<Rightarrow> int \<Rightarrow> int \<Rightarrow> 'u files \<times> 'm \<Rightarrow> 'u files \<times> 'm" where
  "attach_tts_to_message F U M enabled tts f uuid now msg txt chat user W =
     (case synthesize_reply F U enabled tts f uuid now chat user txt (fst W) of
        (Inr (Some i), w) \<Rightarrow>
          (w, case tb_view M (snd W) msg of
                None \<Rightarrow> snd W
              | Some _ \<Rightarrow> snd (tb_update M (\<lambda>m. mg_id m = msg) (\<lambda>m. m\<lparr>mg_meta := with_audio i (mg_meta m)\<rparr>) (snd W)))
      | (_, w) \<Rightarrow> (w, snd W))"

section \<open>Paths in the workspace\<close>

lemma strip_by_ends:
  assumes "strip_by p s \<noteq> []"
  shows "\<not> p (hd (strip_by p s))" "\<not> p (last (strip_by p s))" "set (strip_by p s) \<subseteq> set s"
proof -
  let ?l = "dropWhile p s"
  have r: "strip_by p s = rev (dropWhile p (rev ?l))" by (simp add: strip_by_def lstrip_by_def rstrip_by_def)
  from assms have ne: "dropWhile p (rev ?l) \<noteq> []" unfolding r by simp
  then show "\<not> p (last (strip_by p s))" unfolding r by (simp add: last_rev hd_dropWhile)
  have l: "?l \<noteq> []" using ne by (metis dropWhile.simps(1) rev.simps(1))
  have "prefix (strip_by p s) ?l" using rstrip_prefix [of p ?l] by (simp add: strip_by_def lstrip_by_def)
  then obtain zs where "?l = strip_by p s @ zs" by (auto simp: prefix_def)
  with assms have "hd (strip_by p s) = hd ?l" by (cases "strip_by p s") auto
  with l show "\<not> p (hd (strip_by p s))" by (simp add: hd_dropWhile)
  show "set (strip_by p s) \<subseteq> set s" unfolding r using set_dropWhileD [of _ p "rev ?l"] set_dropWhileD [of _ p s] by (metis set_rev subsetI)
qed

definition safe_char :: "char \<Rightarrow> bool" where
  "safe_char c \<longleftrightarrow> is_alnum c \<or> is_safe_extra c \<or> c = CHR ''_''"

lemma safe_filename_chars: "\<forall>c \<in> set (safe_filename f). safe_char c"
  using strip_by_ends(3) [of is_safe_extra "map (\<lambda>c. if is_alnum c \<or> is_safe_extra c then c else CHR ''_'') (path_name f)"]
  by (auto simp: safe_filename_def Let_def safe_char_def is_alnum_def is_ascii_alnum_def in_range_def subset_iff split: if_splits)

lemma safe_filename_inked: "safe_filename f \<noteq> []" "hd (safe_filename f) \<noteq> CHR ''.''"
  using strip_by_ends(1) [of is_safe_extra "map (\<lambda>c. if is_alnum c \<or> is_safe_extra c then c else CHR ''_'') (path_name f)"]
  by (auto simp: safe_filename_def Let_def is_safe_extra_def split: if_splits)

lemma digit_safe: "is_digit c \<Longrightarrow> safe_char c \<and> c \<noteq> CHR ''-'' \<and> c \<noteq> CHR ''/''"
  by (auto simp: safe_char_def is_alnum_def is_ascii_alnum_def in_range_def is_digit_def)

lemma str_of_int_chars: "\<forall>c \<in> set (str_of_int i). safe_char c \<and> c \<noteq> CHR ''/''"
proof -
  have "\<forall>c \<in> set (str_of_nat n). safe_char c \<and> c \<noteq> CHR ''/''" for n
    using str_of_nat_digits [of n] digit_safe by blast
  then show ?thesis by (auto simp: str_of_int_def safe_char_def is_safe_extra_def)
qed

lemma safe_not_slash: "safe_char c \<Longrightarrow> c \<noteq> CHR ''/'' \<and> c \<noteq> CHR 0x0A \<and> c \<noteq> CHR ''`''"
  by (auto simp: safe_char_def is_alnum_def is_ascii_alnum_def in_range_def is_safe_extra_def)

lemma takeWhile_digits: "takeWhile is_digit (str_of_nat n @ CHR ''-'' # r) = str_of_nat n"
  using str_of_nat_digits [of n] by (subst takeWhile_append2) (auto simp: is_digit_def)

lemma str_of_int_dash_inj:
  assumes "str_of_int i @ CHR ''-'' # r = str_of_int j @ CHR ''-'' # s"
  shows "i = j"
proof -
  have d: "\<exists>c cs. str_of_nat n = c # cs \<and> c \<noteq> CHR ''-''" for n
    using str_of_nat_digits [of n] digit_safe by (cases "str_of_nat n") auto
  have n: "m = n" if "str_of_nat m @ CHR ''-'' # r' = str_of_nat n @ CHR ''-'' # s'" for m n r' s'
    using that takeWhile_digits [of m r'] takeWhile_digits [of n s'] int_digits_str_of_nat [of m] int_digits_str_of_nat [of n]
    by (metis option.inject)
  have sign: "i < 0 \<longleftrightarrow> j < 0" using assms d [of "nat i"] d [of "nat j"] by (auto simp: str_of_int_def split: if_splits)
  show ?thesis
  proof (cases "i < 0")
    case True
    with assms sign have "nat (- i) = nat (- j)" by (intro n [of _ r _ s]) (simp add: str_of_int_def)
    with True sign show ?thesis by simp
  next
    case False
    with assms sign have "nat i = nat j" by (intro n [of _ r _ s]) (simp add: str_of_int_def)
    with False sign show ?thesis by simp
  qed
qed

lemma workspace_path_split:
  "split_on CHR ''/'' (workspace_path chat up f) =
     [''uploads'', ''chat-'' @ str_of_int chat, str_of_int up @ ''-'' @ safe_filename f]"
proof -
  have "CHR ''/'' \<notin> set (str_of_int i)" for i using str_of_int_chars by blast
  moreover have "CHR ''/'' \<notin> set (safe_filename f)" using safe_filename_chars safe_not_slash by blast
  ultimately have "split_on CHR ''/'' (join_with ''/'' [''uploads'', ''chat-'' @ str_of_int chat, str_of_int up @ ''-'' @ safe_filename f]) =
      [''uploads'', ''chat-'' @ str_of_int chat, str_of_int up @ ''-'' @ safe_filename f]"
    by (intro split_join) auto
  then show ?thesis by (simp add: workspace_path_def)
qed

text \<open>
  C25: whatever name a user gives a file, its copy lies directly in the directory of the chat:
  the path has three parts, the last one is neither empty nor a dot name, and no character can
  break the list of files in the prompt. Copies of different uploads never share a path.
\<close>

theorem workspace_path_safe:
  assumes "workspace_path chat up f = workspace_path chat' up' f'"
  shows "path_parts (workspace_path chat up f) = [''uploads'', ''chat-'' @ str_of_int chat, str_of_int up @ ''-'' @ safe_filename f]
    \<and> str_of_int up @ ''-'' @ safe_filename f \<notin> {''..'', ''.''}
    \<and> (\<forall>c \<in> set (workspace_path chat up f). safe_char c \<or> c = CHR ''/'')
    \<and> chat = chat' \<and> up = up'"
proof -
  have "CHR ''-'' \<in> set (str_of_int up @ ''-'' @ safe_filename f)" by simp
  moreover have "CHR ''-'' \<notin> set x" if "x \<in> {''..'', ''.'', []}" for x using that by auto
  ultimately have last: "str_of_int up @ ''-'' @ safe_filename f \<notin> {''..'', ''.'', []}" by metis
  with workspace_path_split have parts: "path_parts (workspace_path chat up f) =
      [''uploads'', ''chat-'' @ str_of_int chat, str_of_int up @ ''-'' @ safe_filename f]" by (simp add: path_parts_def)
  have same: "chat = chat'" "str_of_int up @ CHR ''-'' # safe_filename f = str_of_int up' @ CHR ''-'' # safe_filename f'"
    using workspace_path_split [of chat up f] workspace_path_split [of chat' up' f'] unfolding assms by simp_all
  have "\<forall>c \<in> set ''uploads/chat-''. safe_char c \<or> c = CHR ''/''" "safe_char CHR ''-''"
    by (simp_all add: safe_char_def is_alnum_def is_ascii_alnum_def in_range_def is_safe_extra_def)
  with str_of_int_chars safe_filename_chars have "\<forall>c \<in> set (workspace_path chat up f). safe_char c \<or> c = CHR ''/''"
    unfolding workspace_path_def set_append ball_Un by (simp add: ball_Un)
  with parts last same str_of_int_dash_inj show ?thesis by auto
qed

lemma workspace_path_safe_witness:
  "path_parts (workspace_path 4 7 ''../../a`b.sh'') = [''uploads'', ''chat-'' @ str_of_int 4, str_of_int 7 @ ''-'' @ safe_filename ''../../a`b.sh'']"
  using workspace_path_safe [OF refl, of 4 7 "''../../a`b.sh''"] by blast

section \<open>Keys\<close>

lemma key_from_s3_path_of: "CHR ''/'' \<notin> set bucket \<Longrightarrow> key_from_s3_path (s3_path_of bucket key) = Some key"
  by (subst key_from_s3_path_def, simp add: s3_path_of_def Let_def, subst dropWhile_append2) auto

section \<open>Operations of many users\<close>

datatype upload_op =
    UpOnce user_row "int option" string string string fault string int
  | UpPresigned user_row "int option" int int
  | UpList user_row "int option" int int
  | UpDelete user_row int fault
  | UpAttach int int "attachment list" "string \<Rightarrow> fault \<times> string" int

fun upload_actor :: "upload_op \<Rightarrow> int" where
  "upload_actor (UpOnce u _ _ _ _ _ _ _) = u_id u"
| "upload_actor (UpPresigned u _ _ _) = u_id u"
| "upload_actor (UpList u _ _ _) = u_id u"
| "upload_actor (UpDelete u _ _) = u_id u"
| "upload_actor (UpAttach user _ _ _ _) = user"

text \<open>A row with the bytes the store holds for it.\<close>

definition content :: "'u files \<Rightarrow> upload_row \<Rightarrow> string option" where
  "content w r = Option.bind (key_from_s3_path (up_s3 r)) (fi_objs w)"

definition file_view :: "(upload_row, 'u) table \<Rightarrow> 'u files \<Rightarrow> int \<Rightarrow> (upload_row \<times> string option) option" where
  "file_view U w = (\<lambda>k. map_option (\<lambda>r. (r, content w r)) (tb_view U (fi_rows w) k))"

definition file_owner :: "upload_row \<times> string option \<Rightarrow> int" where
  "file_owner p = up_user (fst p)"

fun upload_step ::
  "file_system \<Rightarrow> upload_cfg \<Rightarrow> (upload_row, 'u) table \<Rightarrow> upload_op \<Rightarrow> 'u files \<Rightarrow> (upload_row \<times> string option) list \<times> 'u files" where
  "upload_step D F U (UpOnce u chat filename mime data f uuid now) w =
     (case upload_once F U f uuid now u chat filename mime data w of
        (Inl _, w1) \<Rightarrow> ([], w1) | (Inr (r, _, _), w1) \<Rightarrow> ([(r, content w1 r)], w1))"
| "upload_step D F U (UpPresigned u target ttl now) w =
     (case get_presigned F U now u target ttl w of Inl _ \<Rightarrow> ([], w) | Inr (_, _, r) \<Rightarrow> ([(r, content w r)], w))"
| "upload_step D F U (UpList u chat limit offset) w = (map (\<lambda>r. (r, content w r)) (rpc_list_uploads U u chat limit offset w), w)"
| "upload_step D F U (UpDelete u i f) w = ([], snd (rpc_delete_upload U f u i w))"
| "upload_step D F U (UpAttach user chat atts e now) w =
     ([], snd (persist_attachments D U (uc_bucket F) (uc_mimes F) e now chat user atts w))"

text \<open>
  A random name is new: the key made with it is not the key of another user's upload. The
  library documents it for \<open>uuid4\<close>.
\<close>

definition key_unused :: "(upload_row, 'u) table \<Rightarrow> int \<Rightarrow> string \<Rightarrow> 'u files \<Rightarrow> bool" where
  "key_unused U user key w \<longleftrightarrow>
     (\<forall>k r. tb_view U (fi_rows w) k = Some r \<longrightarrow> up_user r \<noteq> user \<longrightarrow> key_from_s3_path (up_s3 r) \<noteq> Some key)"

fun names_new :: "(upload_row, 'u) table \<Rightarrow> upload_op \<Rightarrow> 'u files \<Rightarrow> bool" where
  "names_new U (UpOnce u chat filename mime data f uuid now) w \<longleftrightarrow> key_unused U (u_id u) (upload_key chat (u_id u) uuid filename) w"
| "names_new U (UpAttach user chat atts e now) w \<longleftrightarrow>
     (\<forall>p. key_unused U user (upload_key (Some chat) user (snd (e p)) (path_name p)) w)"
| "names_new U _ w \<longleftrightarrow> True"

locale upload_db = table_laws U up_id "\<lambda>_. True" okU
  for U :: "(upload_row, 'u) table" and okU +
  fixes D :: file_system and F :: upload_cfg
  assumes plain_bucket: "CHR ''/'' \<notin> set (uc_bucket F)"
begin

definition ok :: "'u files \<Rightarrow> bool" where
  "ok w \<longleftrightarrow> okU (fi_rows w) \<and> (\<forall>k k' r s. tb_view U (fi_rows w) k = Some r \<longrightarrow> tb_view U (fi_rows w) k' = Some s \<longrightarrow>
     up_user r \<noteq> up_user s \<longrightarrow> key_from_s3_path (up_s3 r) \<noteq> None \<longrightarrow> key_from_s3_path (up_s3 r) \<noteq> key_from_s3_path (up_s3 s))"

text \<open>What an operation of one user may do: the files of the others, rows and bytes, are kept.\<close>

definition keeps_others :: "int \<Rightarrow> 'u files \<Rightarrow> 'u files \<Rightarrow> bool" where
  "keeps_others user w w1 \<longleftrightarrow> (\<forall>v. v \<noteq> user \<longrightarrow> owned_by file_owner v (file_view U w1) = owned_by file_owner v (file_view U w))"

lemma keeps_others_refl [simp]: "keeps_others user w w"
  by (simp add: keeps_others_def)

lemma keeps_others_trans: "keeps_others user w w1 \<Longrightarrow> keeps_others user w1 w2 \<Longrightarrow> keeps_others user w w2"
  by (simp add: keeps_others_def)

lemma file_owned:
  "owned_by file_owner v (file_view U x) k = Some p \<longleftrightarrow>
     (\<exists>r. tb_view U (fi_rows x) k = Some r \<and> up_user r = v \<and> p = (r, content x r))"
  by (auto simp: owned_by_def file_view_def file_owner_def split: option.splits)

lemma keeps_othersI:
  assumes "\<And>k r. up_user r \<noteq> user \<Longrightarrow> tb_view U (fi_rows w1) k = Some r \<longleftrightarrow> tb_view U (fi_rows w) k = Some r"
    and "\<And>k r. up_user r \<noteq> user \<Longrightarrow> tb_view U (fi_rows w) k = Some r \<Longrightarrow> content w1 r = content w r"
  shows "keeps_others user w w1"
  unfolding keeps_others_def
proof (intro allI impI ext)
  fix v k assume v: "v \<noteq> user"
  have "owned_by file_owner v (file_view U w1) k = Some p \<longleftrightarrow> owned_by file_owner v (file_view U w) k = Some p" for p
    unfolding file_owned by (rule ex_cong1) (use assms v in auto)
  then show "owned_by file_owner v (file_view U w1) k = owned_by file_owner v (file_view U w) k"
    by (metis not_Some_eq)
qed

lemma keeps_others_row:
  "keeps_others user w w1 \<Longrightarrow> up_user r \<noteq> user \<Longrightarrow> tb_view U (fi_rows w1) k = Some r \<Longrightarrow> tb_view U (fi_rows w) k = Some r"
proof -
  assume a: "keeps_others user w w1" "up_user r \<noteq> user" "tb_view U (fi_rows w1) k = Some r"
  then have "owned_by file_owner (up_user r) (file_view U w1) k = Some (r, content w1 r)" by (simp add: file_owned)
  with a(1,2) have "owned_by file_owner (up_user r) (file_view U w) k = Some (r, content w1 r)" by (simp add: keeps_others_def)
  then show ?thesis by (auto simp: file_owned)
qed

lemma key_unused_kept: "keeps_others user w w1 \<Longrightarrow> key_unused U user key w \<Longrightarrow> key_unused U user key w1"
  unfolding key_unused_def using keeps_others_row by blast

lemma get_upload_spec:
  "ok w \<Longrightarrow> get_upload U i user (fi_rows w) = Some r \<Longrightarrow> up_user r = user \<and> up_id r = i \<and> tb_view U (fi_rows w) i = Some r"
  using one_or_none_mem [of "tb_select U (\<lambda>r. up_id r = i \<and> up_user r = user) (fi_rows w)" r] select_set [of "fi_rows w"]
    pk_view [of "fi_rows w"]
  by (auto simp: get_upload_def ok_def)

lemma put_others:
  assumes "ok w" "key_unused U user key w"
  shows "ok (w\<lparr>fi_objs := snd (s3_upload_file b f key data (fi_objs w))\<rparr>)
    \<and> keeps_others user w (w\<lparr>fi_objs := snd (s3_upload_file b f key data (fi_objs w))\<rparr>)"
proof -
  have s: "snd (s3_upload_file b f key data (fi_objs w)) k = fi_objs w k" if "k \<noteq> key" for k
    using that by (cases f) (auto simp: s3_upload_file_def)
  have "keeps_others user w (w\<lparr>fi_objs := snd (s3_upload_file b f key data (fi_objs w))\<rparr>)"
  proof (rule keeps_othersI)
    fix k r assume "up_user r \<noteq> user" "tb_view U (fi_rows w) k = Some r"
    with assms(2) have "key_from_s3_path (up_s3 r) \<noteq> Some key" by (auto simp: key_unused_def)
    with s show "content (w\<lparr>fi_objs := snd (s3_upload_file b f key data (fi_objs w))\<rparr>) r = content w r"
      by (cases "key_from_s3_path (up_s3 r)") (auto simp: content_def)
  qed simp
  with assms(1) show ?thesis by (simp add: ok_def)
qed

lemma persist_spec:
  assumes "ok w" "key_unused U user (upload_key chat user uuid (if filename = [] then path_name source else filename)) w"
    and "persist_local_file U (uc_bucket F) mimes f uuid now chat user source filename mime data w = (res, w1)"
  shows "ok w1 \<and> keeps_others user w w1 \<and> (\<forall>r. res = Inr r \<longrightarrow> up_user r = user)"
proof -
  let ?name = "if filename = [] then path_name source else filename"
  let ?key = "upload_key chat user uuid ?name"
  define p where "p = s3_upload_file (uc_bucket F) f ?key data (fi_objs w)"
  let ?w0 = "w\<lparr>fi_objs := snd p\<rparr>"
  have w0: "ok ?w0" "keeps_others user w ?w0" using put_others [OF assms(1,2)] by (auto simp: p_def)
  show ?thesis
  proof (cases "fst p")
    case (Inl x)
    with assms(3) have "w1 = ?w0" "res = Inl x"
      by (auto simp: persist_local_file_def Let_def p_def [symmetric] split: prod.splits)
    with w0 show ?thesis by simp
  next
    case (Inr path)
    then have path: "key_from_s3_path path = Some ?key"
      using key_from_s3_path_of [OF plain_bucket] by (auto simp: p_def s3_upload_file_def split: option.splits prod.splits)
    define mk where "mk = (\<lambda>k. \<lparr>up_id = k, up_user = user, up_chat = chat, up_filename = ?name,
      up_mime = (if mime \<noteq> [] then mime else case mimes ?name of Some m \<Rightarrow> m | None \<Rightarrow> ''application/octet-stream''),
      up_size = int (length data), up_s3 = path, up_created = now\<rparr>)"
    have mk: "up_id (mk k) = k" "up_user (mk k) = user" "up_s3 (mk k) = path" for k by (simp_all add: mk_def)
    show ?thesis
    proof (cases "tb_insert U mk (fi_rows w)")
      case None
      with assms(3) Inr have "w1 = ?w0" "res = Inl DbError"
        by (auto simp: persist_local_file_def Let_def p_def [symmetric] mk_def split: prod.splits)
      with w0 show ?thesis by simp
    next
      case (Some q)
      then obtain r d where q: "tb_insert U mk (fi_rows w) = Some (r, d)" by (cases q) auto
      with assms(3) Inr have e: "w1 = ?w0\<lparr>fi_rows := d\<rparr>" "res = Inr r"
        by (auto simp: persist_local_file_def Let_def p_def [symmetric] mk_def split: prod.splits)
      have okU: "okU (fi_rows w)" using assms(1) by (simp add: ok_def)
      from insert_some [OF okU mk(1) q] have i: "okU d" "tb_view U (fi_rows w) (up_id r) = None" "r = mk (up_id r)"
        "tb_view U d = (tb_view U (fi_rows w))(up_id r \<mapsto> r)" by auto
      have ru: "up_user r = user" "up_s3 r = path" using i(3) mk by metis+
      have "keeps_others user ?w0 w1"
        by (rule keeps_othersI) (use i ru e in \<open>auto simp: content_def\<close>)
      moreover have "ok w1" unfolding ok_def
      proof (intro conjI allI impI)
        show "okU (fi_rows w1)" using i(1) e by simp
        fix k k' x y
        assume a: "tb_view U (fi_rows w1) k = Some x" "tb_view U (fi_rows w1) k' = Some y" "up_user x \<noteq> up_user y"
          "key_from_s3_path (up_s3 x) \<noteq> None"
        have "x = r \<or> tb_view U (fi_rows w) k = Some x" "y = r \<or> tb_view U (fi_rows w) k' = Some y"
          using a(1,2) i(4) e by (auto split: if_splits)
        moreover have "key_from_s3_path (up_s3 z) \<noteq> key_from_s3_path (up_s3 r)" if "tb_view U (fi_rows w) j = Some z" "up_user z \<noteq> user" for z j
          using assms(2) that ru path by (auto simp: key_unused_def)
        moreover have "key_from_s3_path (up_s3 x) \<noteq> key_from_s3_path (up_s3 y)"
          if "tb_view U (fi_rows w) k = Some x" "tb_view U (fi_rows w) k' = Some y"
          using assms(1) [unfolded ok_def, THEN conjunct2, rule_format, OF that a(3)] a(4) by simp
        ultimately show "key_from_s3_path (up_s3 x) \<noteq> key_from_s3_path (up_s3 y)" using ru(1) a(3) by metis
      qed
      ultimately show ?thesis using w0(2) ru e keeps_others_trans by blast
    qed
  qed
qed

lemma persist_paths_spec:
  assumes "ok w" "\<forall>p. key_unused U user (upload_key (Some chat) user (snd (e p)) (path_name p)) w"
  shows "ok (snd (persist_paths U (uc_bucket F) mimes e now chat user ps w))
    \<and> keeps_others user w (snd (persist_paths U (uc_bucket F) mimes e now chat user ps w))"
  using assms
proof (induction ps arbitrary: w)
  case (Cons p ps)
  show ?case
  proof (cases "fi_disk w p")
    case None
    with Cons show ?thesis by simp
  next
    case (Some data)
    obtain res w1 where r: "persist_local_file U (uc_bucket F) mimes (fst (e p)) (snd (e p)) now (Some chat) user p [] [] data w = (res, w1)"
      by (metis surj_pair)
    from persist_spec [OF Cons.prems(1) _ r] Cons.prems(2) have w1: "ok w1" "keeps_others user w w1" by auto
    with Cons.prems(2) key_unused_kept have "\<forall>p. key_unused U user (upload_key (Some chat) user (snd (e p)) (path_name p)) w1" by blast
    from Cons.IH [OF w1(1) this] w1(2) Some r show ?thesis
      by (auto split: sum.splits prod.splits dest: keeps_others_trans)
  qed
qed simp

lemma delete_others:
  assumes "ok w" "delete_upload U f i user w = (res, w1)"
  shows "ok w1 \<and> keeps_others user w w1"
proof (cases "get_upload U i user (fi_rows w)")
  case None
  with assms show ?thesis by (auto simp: delete_upload_def)
next
  case (Some r)
  note g = get_upload_spec [OF assms(1) Some]
  have okU: "okU (fi_rows w)" using assms(1) by (simp add: ok_def)
  define s where "s = snd (case key_from_s3_path (up_s3 r) of None \<Rightarrow> (Inr (), fi_objs w) | Some key \<Rightarrow> s3_delete f key (fi_objs w))"
  have s: "s k = fi_objs w k" if "key_from_s3_path (up_s3 r) \<noteq> Some k" for k
    using that by (cases f) (auto simp: s_def s3_delete_def split: option.splits)
  let ?del = "snd (tb_delete U (\<lambda>x. up_id x = up_id r) (fi_rows w))"
  have w1: "w1 = w\<lparr>fi_objs := s\<rparr> \<or> w1 = w\<lparr>fi_objs := s, fi_rows := ?del\<rparr>"
    using assms(2) Some by (auto simp: delete_upload_def s_def split: option.splits prod.splits sum.splits upload_exn.splits)
  have del: "okU ?del" "tb_view U ?del = del_view (\<lambda>x. up_id x = up_id r) (tb_view U (fi_rows w))"
    using delete_ok [OF okU] delete_view [OF okU] by simp_all
  have same: "content (w\<lparr>fi_objs := s\<rparr>) x = content w x" if "up_user x \<noteq> user" "tb_view U (fi_rows w) k = Some x" for x k
  proof (cases "key_from_s3_path (up_s3 x)")
    case (Some key)
    then have "key_from_s3_path (up_s3 r) \<noteq> Some key"
      using assms(1) [unfolded ok_def, THEN conjunct2, rule_format, OF that(2), of i r] g that(1) by auto
    with s Some show ?thesis by (simp add: content_def)
  qed (simp add: content_def)
  have c: "content (w\<lparr>fi_objs := s, fi_rows := d\<rparr>) x = content (w\<lparr>fi_objs := s\<rparr>) x" for d x by (simp add: content_def)
  have gone: "up_user x \<noteq> user \<Longrightarrow> tb_view U ?del k = Some x \<longleftrightarrow> tb_view U (fi_rows w) k = Some x" for x k
    unfolding del(2) using g pk_view [OF okU] by (auto simp: del_view_def split: option.splits)
  have "keeps_others user w (w\<lparr>fi_objs := s\<rparr>)" by (rule keeps_othersI) (use same in auto)
  moreover have "keeps_others user w (w\<lparr>fi_objs := s, fi_rows := ?del\<rparr>)"
    by (rule keeps_othersI) (use same gone c in auto)
  moreover have "ok (w\<lparr>fi_objs := s\<rparr>)" using assms(1) by (simp add: ok_def)
  moreover have "ok (w\<lparr>fi_objs := s, fi_rows := ?del\<rparr>)"
  proof -
    have sub: "tb_view U ?del k = Some x \<Longrightarrow> tb_view U (fi_rows w) k = Some x" for k x
      unfolding del(2) by (auto simp: del_view_def split: option.splits if_splits)
    show ?thesis unfolding ok_def
    proof (intro conjI allI impI)
      fix k k' x y
      assume "tb_view U (fi_rows (w\<lparr>fi_objs := s, fi_rows := ?del\<rparr>)) k = Some x"
        "tb_view U (fi_rows (w\<lparr>fi_objs := s, fi_rows := ?del\<rparr>)) k' = Some y"
        "up_user x \<noteq> up_user y" "key_from_s3_path (up_s3 x) \<noteq> None"
      with assms(1) [unfolded ok_def, THEN conjunct2, rule_format, of k x k' y] sub
      show "key_from_s3_path (up_s3 x) \<noteq> key_from_s3_path (up_s3 y)" by simp
    qed (simp add: del(1))
  qed
  ultimately show ?thesis using w1 by blast
qed

lemma step_spec:
  assumes "ok w" "names_new U x w"
  shows "ok (snd (upload_step D F U x w)) \<and> keeps_others (upload_actor x) w (snd (upload_step D F U x w))
    \<and> (\<forall>p \<in> set (fst (upload_step D F U x w)). file_owner p = upload_actor x)"
proof (cases x)
  case (UpOnce u chat filename mime data f uuid now)
  obtain res w1 where r: "persist_local_file U (uc_bucket F) (uc_mimes F) f uuid now chat (u_id u) [] filename mime data w = (res, w1)"
    by (metis surj_pair)
  show ?thesis
  proof (cases "filename = [] \<or> mime = []")
    case True
    with UpOnce assms show ?thesis by (auto simp: upload_once_def)
  next
    case False
    with assms UpOnce have "key_unused U (u_id u) (upload_key chat (u_id u) uuid (if filename = [] then path_name [] else filename)) w" by simp
    from persist_spec [OF assms(1) this r] False UpOnce r show ?thesis
      by (auto simp: upload_once_def persist_chunks_def file_owner_def split: sum.splits)
  qed
next
  case (UpPresigned u target ttl now)
  with assms get_upload_spec [OF assms(1)] show ?thesis
    by (auto simp: get_presigned_def Let_def file_owner_def split: option.splits sum.splits)
next
  case (UpList u chat limit offset)
  have "up_user r = u_id u" if "r \<in> set (rpc_list_uploads U u chat limit offset w)" for r
    using that assms(1) select_set [of "fi_rows w"]
    by (auto simp: rpc_list_uploads_def list_uploads_def ok_def split: prod.splits dest!: in_set_takeD in_set_dropD)
  with UpList assms show ?thesis by (auto simp: file_owner_def)
next
  case (UpDelete u i f)
  obtain res w1 where d: "delete_upload U f i (u_id u) w = (res, w1)" by (metis surj_pair)
  from delete_others [OF assms(1) d] d UpDelete show ?thesis
    by (auto simp: rpc_delete_upload_def split: sum.splits bool.splits)
next
  case (UpAttach user chat atts e now)
  with assms persist_paths_spec [of w user chat e] show ?thesis by (simp add: persist_attachments_def)
qed

sublocale own: owned "upload_step D F U" upload_actor file_owner "file_view U" ok "names_new U"
  by unfold_locales (use step_spec in \<open>auto simp: keeps_others_def\<close>)

lemmas isolated = own.isolation

end

section \<open>Properties\<close>

text \<open>
  C24: files are private. Over any run of uploads, listings, links, deletions and attachments of
  any users, an answer describes only files of the user who asked, and the files of a user, rows
  and stored bytes, stay as they are while the others work, failures of the store included.
\<close>

theorem uploads_isolated:
  assumes "upload_db U okU F" "upload_db.ok U okU w" "allowed_run (upload_step D F U) (names_new U) xs w"
    and "run_ops (upload_step D F U) xs w = (outs, w')"
  shows "(\<forall>i < length xs. \<forall>p \<in> set (outs ! i). file_owner p = upload_actor (xs ! i))
    \<and> (\<forall>v. v \<notin> upload_actor ` set xs \<longrightarrow>
        owned_by file_owner v (file_view U w') = owned_by file_owner v (file_view U w))"
  using upload_db.isolated [OF assms] by blast

definition demo_upload_cfg :: upload_cfg where
  "demo_upload_cfg = \<lparr>uc_bucket = ''b'', uc_mimes = (\<lambda>_. None), uc_presign = (\<lambda>k t p. k), uc_ttl = 3600, uc_ttl_max = 86400,
     uc_root = ''/w'', uc_writes = (\<lambda>_. True), uc_stt = (\<lambda>_ _. Inl SttError)\<rparr>"

definition upload_mem :: "(upload_row, upload_row rows) table" where
  "upload_mem = mem_table (\<lambda>_. True)"

interpretation upload_mem: upload_db upload_mem "rows_ok up_id (\<lambda>_. True)" D demo_upload_cfg for D
proof (intro upload_db.intro upload_db_axioms.intro)
  show "table_laws upload_mem up_id (\<lambda>_. True) (rows_ok up_id (\<lambda>_. True))"
    unfolding upload_mem_def by (rule plain_rows.table_laws_axioms)
qed (simp add: demo_upload_cfg_def)

text \<open>The upload 1 of user 1; user 2 uploads a file, asks for upload 1 and deletes it in vain.\<close>

definition demo_upload :: upload_row where
  "demo_upload = \<lparr>up_id = 1, up_user = 1, up_chat = Some 4, up_filename = ''a.txt'', up_mime = ''text/plain'', up_size = 2,
     up_s3 = ''s3://b/chats/4/uploads/aa.txt'', up_created = 0\<rparr>"

definition demo_files :: "upload_row rows files" where
  "demo_files = \<lparr>fi_rows = (2, [(1, demo_upload)]), fi_objs = [''chats/4/uploads/aa.txt'' \<mapsto> ''hi''], fi_disk = Map.empty\<rparr>"

definition demo_user2 :: user_row where
  "demo_user2 = \<lparr>u_id = 2, u_tg = None, u_email = None, u_hash = None, u_name = None, u_tgname = None, u_role = ROLE_USER\<rparr>"

definition demo_upload_ops :: "upload_op list" where
  "demo_upload_ops = [UpPresigned demo_user2 (Some 1) 60 5, UpDelete demo_user2 1 Fine, UpList demo_user2 None 0 0]"

lemma uploads_isolated_witness:
  "owned_by file_owner 1 (file_view upload_mem (snd (run_ops (upload_step demo_fs demo_upload_cfg upload_mem) demo_upload_ops demo_files))) =
   owned_by file_owner 1 (file_view upload_mem demo_files)"
proof -
  obtain outs w' where r: "run_ops (upload_step demo_fs demo_upload_cfg upload_mem) demo_upload_ops demo_files = (outs, w')" by (metis surj_pair)
  have "rows_ok up_id (\<lambda>_. True) (fi_rows demo_files)" by (simp add: rows_ok_def demo_files_def demo_upload_def)
  then have "upload_mem.ok demo_files"
    unfolding upload_mem.ok_def by (simp add: demo_files_def upload_mem_def mem_table_def rows_view_def split: if_splits)
  moreover have "allowed_run (upload_step demo_fs demo_upload_cfg upload_mem) (names_new upload_mem) demo_upload_ops demo_files"
    by (simp add: demo_upload_ops_def)
  ultimately show ?thesis
    using uploads_isolated [OF upload_mem.upload_db_axioms _ _ r] unfolding r by (simp add: demo_upload_ops_def demo_user2_def)
qed

text \<open>
  A deletion that the object store refuses is not carried on. The code means to log such a
  failure and remove the row all the same, but the store wraps every failure in its own
  exception, which is not among those it catches: the handler fails, and the row stays, so a
  file whose object cannot be deleted can never be removed.
\<close>

theorem refused_delete_keeps_row:
  assumes "get_upload U i (u_id u) (fi_rows w) = Some r" "key_from_s3_path (up_s3 r) \<noteq> None" "f \<noteq> Fine"
  shows "fst (rpc_delete_upload U f u i w) = Inl RPC_INTERNAL \<and> fi_rows (snd (rpc_delete_upload U f u i w)) = fi_rows w"
  using assms by (cases f) (auto simp: rpc_delete_upload_def delete_upload_def s3_delete_def)

lemma refused_delete_keeps_row_witness:
  "fst (rpc_delete_upload upload_mem FailBefore (demo_user2\<lparr>u_id := 1\<rparr>) 1 demo_files) = Inl RPC_INTERNAL"
proof -
  have "get_upload upload_mem 1 1 (fi_rows demo_files) = Some demo_upload"
    by (simp add: get_upload_def upload_mem_def mem_table_def one_or_none_def demo_files_def demo_upload_def)
  moreover have "key_from_s3_path (up_s3 demo_upload) \<noteq> None" by (simp add: key_from_s3_path_def demo_upload_def)
  ultimately show ?thesis using refused_delete_keeps_row [of upload_mem 1 "demo_user2\<lparr>u_id := 1\<rparr>" demo_files demo_upload FailBefore] by simp
qed

end
