(* ===== verification/Notes.thy ===== *)
theory Notes
  imports Ownership Chats "HOL-Library.List_Lexorder" "HOL-Library.Char_ord"
begin

text \<open>
  Notes and the event journal: \<open>services/notes/service.py\<close>, the handlers of \<open>rpc/notes.py\<close>, the
  tools of \<open>mcp/tools/notes.py\<close>, \<open>services/events/service.py\<close> and \<open>rpc/event.py\<close>. The tables and
  the full-text search of the database are parameters: \<open>rank\<close> gives the rank of a text for a
  query, or \<open>None\<close> when it does not match. An operation of the service works inside a
  transaction; the handlers commit it only when they have changed a note.
\<close>

section \<open>The service\<close>

datatype notebook_kind = PERSONAL

record notebook_row =
  nb_id :: int
  nb_user :: int
  nb_kind :: notebook_kind
  nb_title :: string

definition notebooks_unique :: "(int \<Rightarrow> notebook_row option) \<Rightarrow> bool" where
  "notebooks_unique m \<longleftrightarrow> (\<forall>i j r s. m i = Some r \<longrightarrow> m j = Some s \<longrightarrow> nb_user r = nb_user s \<and> nb_kind r = nb_kind s \<longrightarrow> i = j)"

record note_row =
  n_id :: int
  n_user :: int
  n_book :: int
  n_title :: string
  n_body :: string
  n_tags :: "string list"
  n_updated :: int

record ('b, 'n) note_tables =
  nt_books :: "(notebook_row, 'b) table"
  nt_notes :: "(note_row, 'n) table"

type_synonym rank = "string \<Rightarrow> string \<Rightarrow> real option"

definition default_notebook :: "('b, 'n) note_tables \<Rightarrow> int \<Rightarrow> 'b \<times> 'n \<Rightarrow> (notebook_row \<times> 'b \<times> 'n) option" where
  "default_notebook T user d =
     (let mine = (\<lambda>b. nb_user b = user \<and> nb_kind b = PERSONAL) in
      case one_or_none (tb_select (nt_books T) mine (fst d)) of
        Some b \<Rightarrow> Some (b, d)
      | None \<Rightarrow>
          let db = (case tb_insert (nt_books T) (\<lambda>k. \<lparr>nb_id = k, nb_user = user, nb_kind = PERSONAL, nb_title = ''Personal notes''\<rparr>) (fst d) of
                None \<Rightarrow> fst d | Some (_, db) \<Rightarrow> db)
          in map_option (\<lambda>b. (b, db, snd d)) (one_or_none (tb_select (nt_books T) mine db)))"

text \<open>\<open>None\<close> is an exception of the database: no row for \<open>scalar_one\<close>.\<close>

definition get_note :: "('b, 'n) note_tables \<Rightarrow> int \<Rightarrow> int \<Rightarrow> 'b \<times> 'n \<Rightarrow> (note_row option \<times> 'b \<times> 'n) option" where
  "get_note T i user d =
     (case default_notebook T user d of
        None \<Rightarrow> None
      | Some (b, d1) \<Rightarrow>
          Some (one_or_none (tb_select (nt_notes T) (\<lambda>r. n_id r = i \<and> n_user r = user \<and> n_book r = nb_id b) (snd d1)), d1))"

datatype note_error = NoteNotFound | NoteDbError

definition upsert_note ::
  "('b, 'n) note_tables \<Rightarrow> int option \<Rightarrow> int \<Rightarrow> string \<Rightarrow> string \<Rightarrow> string list \<Rightarrow> int \<Rightarrow> 'b \<times> 'n \<Rightarrow>
     (note_error + note_row) \<times> 'b \<times> 'n" where
  "upsert_note T note user title body tags now d =
     (case default_notebook T user d of
        None \<Rightarrow> (Inl NoteDbError, d)
      | Some (b, d1) \<Rightarrow>
          (case note of
             None \<Rightarrow>
               (case tb_insert (nt_notes T) (\<lambda>k. \<lparr>n_id = k, n_user = user, n_book = nb_id b, n_title = title, n_body = body,
                   n_tags = tags, n_updated = now\<rparr>) (snd d1) of
                  None \<Rightarrow> (Inl NoteDbError, d1) | Some (r, dn) \<Rightarrow> (Inr r, fst d1, dn))
           | Some i \<Rightarrow>
               (case get_note T i user d1 of
                  None \<Rightarrow> (Inl NoteDbError, d1)
                | Some (None, d2) \<Rightarrow> (Inl NoteNotFound, d2)
                | Some (Some r, d2) \<Rightarrow>
                    let change = (\<lambda>x. x\<lparr>n_title := title, n_body := body, n_tags := tags, n_updated := now\<rparr>)
                    in (Inr (change r), fst d2, snd (tb_update (nt_notes T) (\<lambda>x. n_id x = n_id r) change (snd d2))))))"

definition has_tags :: "string list \<Rightarrow> note_row \<Rightarrow> bool" where
  "has_tags tags r \<longleftrightarrow> set tags \<subseteq> set (n_tags r)"

definition list_notes ::
  "('b, 'n) note_tables \<Rightarrow> int \<Rightarrow> string list \<Rightarrow> nat \<Rightarrow> nat \<Rightarrow> 'b \<times> 'n \<Rightarrow> (note_row list \<times> 'b \<times> 'n) option" where
  "list_notes T user tags limit offset d =
     (case default_notebook T user d of
        None \<Rightarrow> None
      | Some (b, d1) \<Rightarrow>
          Some (take limit (drop offset (sort_key (\<lambda>r. - n_updated r)
            (tb_select (nt_notes T) (\<lambda>r. n_user r = user \<and> n_book r = nb_id b \<and> has_tags tags r) (snd d1)))), d1))"

definition search_notes ::
  "rank \<Rightarrow> ('b, 'n) note_tables \<Rightarrow> int \<Rightarrow> string \<Rightarrow> string list \<Rightarrow> nat \<Rightarrow> nat \<Rightarrow> 'b \<times> 'n \<Rightarrow>
     ((note_row \<times> real) list \<times> 'b \<times> 'n) option" where
  "search_notes rank T user query tags limit offset d =
     (let score = (\<lambda>r. rank query (n_title r @ '' '' @ n_body r)) in
      case default_notebook T user d of
        None \<Rightarrow> None
      | Some (b, d1) \<Rightarrow>
          Some (take limit (drop offset (sort_key (\<lambda>p. - snd p) (map (\<lambda>r. (r, the (score r)))
            (tb_select (nt_notes T) (\<lambda>r. n_user r = user \<and> n_book r = nb_id b \<and> score r \<noteq> None \<and> has_tags tags r) (snd d1))))), d1))"

definition delete_note :: "('b, 'n) note_tables \<Rightarrow> int \<Rightarrow> int \<Rightarrow> 'b \<times> 'n \<Rightarrow> (bool \<times> 'b \<times> 'n) option" where
  "delete_note T i user d =
     (case get_note T i user d of
        None \<Rightarrow> None
      | Some (None, d1) \<Rightarrow> Some (False, d1)
      | Some (Some r, d1) \<Rightarrow> Some (True, fst d1, snd (tb_delete (nt_notes T) (\<lambda>x. n_id x = n_id r) (snd d1))))"

section \<open>The handlers and the tools\<close>

definition note_page :: "int \<Rightarrow> int \<Rightarrow> int \<times> int" where
  "note_page limit offset = (min (if 0 < limit then limit else 50) 200, max offset 0)"

definition rpc_save_note ::
  "('b, 'n) note_tables \<Rightarrow> user_row \<Rightarrow> int option \<Rightarrow> string \<Rightarrow> string \<Rightarrow> string list \<Rightarrow> int \<Rightarrow> 'b \<times> 'n \<Rightarrow>
     (rpc_code + note_row) \<times> 'b \<times> 'n" where
  "rpc_save_note T u note title body tags now d =
     (case upsert_note T note (u_id u) title body tags now d of
        (Inl NoteNotFound, _) \<Rightarrow> (Inl RPC_NOT_FOUND, d)
      | (Inl NoteDbError, _) \<Rightarrow> (Inl RPC_INTERNAL, d)
      | (Inr r, d1) \<Rightarrow> (Inr r, d1))"

definition rpc_get_note :: "('b, 'n) note_tables \<Rightarrow> user_row \<Rightarrow> int \<Rightarrow> 'b \<times> 'n \<Rightarrow> rpc_code + note_row" where
  "rpc_get_note T u i d =
     (case get_note T i (u_id u) d of
        None \<Rightarrow> Inl RPC_INTERNAL | Some (None, _) \<Rightarrow> Inl RPC_NOT_FOUND | Some (Some r, _) \<Rightarrow> Inr r)"

definition rpc_search_notes ::
  "rank \<Rightarrow> ('b, 'n) note_tables \<Rightarrow> user_row \<Rightarrow> string \<Rightarrow> string list \<Rightarrow> int \<Rightarrow> int \<Rightarrow> 'b \<times> 'n \<Rightarrow> rpc_code + (note_row \<times> real) list" where
  "rpc_search_notes rank T u query tags limit offset d =
     (case note_page limit offset of (n, skip) \<Rightarrow>
        (case search_notes rank T (u_id u) query tags (nat n) (nat skip) d of None \<Rightarrow> Inl RPC_INTERNAL | Some (hits, _) \<Rightarrow> Inr hits))"

definition rpc_list_notes ::
  "('b, 'n) note_tables \<Rightarrow> user_row \<Rightarrow> string list \<Rightarrow> int \<Rightarrow> int \<Rightarrow> 'b \<times> 'n \<Rightarrow> rpc_code + note_row list" where
  "rpc_list_notes T u tags limit offset d =
     (case note_page limit offset of (n, skip) \<Rightarrow>
        (case list_notes T (u_id u) tags (nat n) (nat skip) d of None \<Rightarrow> Inl RPC_INTERNAL | Some (rows, _) \<Rightarrow> Inr rows))"

definition rpc_delete_note :: "('b, 'n) note_tables \<Rightarrow> user_row \<Rightarrow> int \<Rightarrow> 'b \<times> 'n \<Rightarrow> (rpc_code + unit) \<times> 'b \<times> 'n" where
  "rpc_delete_note T u i d =
     (case delete_note T i (u_id u) d of
        None \<Rightarrow> (Inl RPC_INTERNAL, d) | Some (False, _) \<Rightarrow> (Inl RPC_NOT_FOUND, d) | Some (True, d1) \<Rightarrow> (Inr (), d1))"

text \<open>
  The tools act for the user of the claims; \<open>None\<close> is a call without an identity, or one whose
  arguments are refused. \<open>sorted\<close> orders strings by code points.
\<close>

definition codex_tag :: string where
  "codex_tag = ''codex:auto''"

definition tool_tags :: "string list option \<Rightarrow> string list" where
  "tool_tags tags = sorted_list_of_set (insert codex_tag (set (case tags of None \<Rightarrow> [] | Some ts \<Rightarrow> ts)))"

definition tool_note_save ::
  "('b, 'n) note_tables \<Rightarrow> int option \<Rightarrow> int option \<Rightarrow> string \<Rightarrow> string \<Rightarrow> string list option \<Rightarrow> int \<Rightarrow> 'b \<times> 'n \<Rightarrow>
     note_row option \<times> 'b \<times> 'n" where
  "tool_note_save T caller note title body tags now d =
     (case caller of
        None \<Rightarrow> (None, d)
      | Some user \<Rightarrow>
          if title = [] \<or> 255 < length title \<or> body = [] then (None, d)
          else case upsert_note T note user title body (tool_tags tags) now d of
            (Inl _, _) \<Rightarrow> (None, d) | (Inr r, d1) \<Rightarrow> (Some r, d1))"

definition tool_note_search ::
  "rank \<Rightarrow> ('b, 'n) note_tables \<Rightarrow> int option \<Rightarrow> string \<Rightarrow> string list option \<Rightarrow> int \<Rightarrow> 'b \<times> 'n \<Rightarrow> (note_row \<times> real) list option" where
  "tool_note_search rank T caller query tags limit d =
     (case caller of
        None \<Rightarrow> None
      | Some user \<Rightarrow>
          if query = [] \<or> limit < 1 \<or> 50 < limit then None
          else map_option fst (search_notes rank T user query (case tags of None \<Rightarrow> [] | Some ts \<Rightarrow> ts) (nat limit) 0 d))"

definition tool_note_list ::
  "('b, 'n) note_tables \<Rightarrow> int option \<Rightarrow> string list option \<Rightarrow> int \<Rightarrow> 'b \<times> 'n \<Rightarrow> note_row list option" where
  "tool_note_list T caller tags limit d =
     (case caller of
        None \<Rightarrow> None
      | Some user \<Rightarrow>
          if limit < 1 \<or> 200 < limit then None
          else map_option fst (list_notes T user (case tags of None \<Rightarrow> [] | Some ts \<Rightarrow> ts) (nat limit) 0 d))"

section \<open>The event journal\<close>

record event_row =
  ev_id :: int
  ev_kind :: event_kind
  ev_chat :: "int option"
  ev_user :: "int option"
  ev_payload :: "json option"

definition emit_event_row ::
  "(event_row, 'e) table \<Rightarrow> event_kind \<Rightarrow> int option \<Rightarrow> int option \<Rightarrow> json option \<Rightarrow> 'e \<Rightarrow> (event_row \<times> 'e) option" where
  "emit_event_row E kind chat user payload d =
     tb_insert E (\<lambda>k. \<lparr>ev_id = k, ev_kind = kind, ev_chat = chat, ev_user = user, ev_payload = payload\<rparr>) d"

definition event_limit :: "int \<Rightarrow> int" where
  "event_limit p = min (if 0 < p then p else 100) 500"

definition ensure_chat_ownership :: "(chat_row, 'c) table \<Rightarrow> int \<Rightarrow> int \<Rightarrow> 'c \<Rightarrow> bool" where
  "ensure_chat_ownership T chat user d \<longleftrightarrow> (case tb_view T d chat of None \<Rightarrow> False | Some c \<Rightarrow> c_user c = user)"

text \<open>\<open>kind\<close> is the requested kind, of which \<open>Some None\<close> is a number that stands for none.\<close>

definition list_events ::
  "(event_row, 'e) table \<Rightarrow> (chat_row, 'c) table \<Rightarrow> user_row \<Rightarrow> int option \<Rightarrow> event_kind option option \<Rightarrow> int \<Rightarrow> int \<Rightarrow>
     'e \<times> 'c \<Rightarrow> rpc_code + event_row list" where
  "list_events E T u chat kind limit offset d =
     (if (case chat of None \<Rightarrow> False | Some c \<Rightarrow> \<not> ensure_chat_ownership T c (u_id u) (snd d)) then Inl RPC_NOT_FOUND
      else if kind = Some None then Inl INVALID_ARGUMENT
      else Inr (take (nat (event_limit limit)) (drop (nat (max offset 0)) (sort_key (\<lambda>r. - ev_id r)
        (tb_select E (\<lambda>r. (ev_user r = Some (u_id u) \<or> ev_user r = None) \<and> (chat = None \<or> ev_chat r = chat)
           \<and> (kind = None \<or> kind = Some (Some (ev_kind r)))) (fst d))))))"

section \<open>Operations of many users\<close>

datatype note_op =
    RpcSave user_row "int option" string string "string list" int
  | RpcGet user_row int
  | RpcSearch user_row string "string list" int int
  | RpcList user_row "string list" int int
  | RpcDelete user_row int
  | ToolSave int "int option" string string "string list option" int
  | ToolSearch int string "string list option" int
  | ToolList int "string list option" int

fun note_actor :: "note_op \<Rightarrow> int" where
  "note_actor (RpcSave u _ _ _ _ _) = u_id u"
| "note_actor (RpcGet u _) = u_id u"
| "note_actor (RpcSearch u _ _ _ _) = u_id u"
| "note_actor (RpcList u _ _ _) = u_id u"
| "note_actor (RpcDelete u _) = u_id u"
| "note_actor (ToolSave i _ _ _ _ _) = i"
| "note_actor (ToolSearch i _ _ _) = i"
| "note_actor (ToolList i _ _) = i"

definition of_reply :: "('e + 'a) \<Rightarrow> ('a \<Rightarrow> note_row list) \<Rightarrow> note_row list" where
  "of_reply r f = (case r of Inl _ \<Rightarrow> [] | Inr a \<Rightarrow> f a)"

definition of_tool :: "'a option \<Rightarrow> ('a \<Rightarrow> note_row list) \<Rightarrow> note_row list" where
  "of_tool r f = (case r of None \<Rightarrow> [] | Some a \<Rightarrow> f a)"

text \<open>An operation: the notes in its answer, and the tables.\<close>

fun note_step :: "rank \<Rightarrow> ('b, 'n) note_tables \<Rightarrow> note_op \<Rightarrow> 'b \<times> 'n \<Rightarrow> note_row list \<times> 'b \<times> 'n" where
  "note_step rank T (RpcSave u note title body tags now) d =
     (case rpc_save_note T u note title body tags now d of (r, d1) \<Rightarrow> (of_reply r (\<lambda>x. [x]), d1))"
| "note_step rank T (RpcGet u i) d = (of_reply (rpc_get_note T u i d) (\<lambda>x. [x]), d)"
| "note_step rank T (RpcSearch u query tags limit offset) d =
     (of_reply (rpc_search_notes rank T u query tags limit offset d) (map fst), d)"
| "note_step rank T (RpcList u tags limit offset) d = (of_reply (rpc_list_notes T u tags limit offset d) id, d)"
| "note_step rank T (RpcDelete u i) d = (case rpc_delete_note T u i d of (_, d1) \<Rightarrow> ([], d1))"
| "note_step rank T (ToolSave user note title body tags now) d =
     (case tool_note_save T (Some user) note title body tags now d of (r, d1) \<Rightarrow> (of_tool r (\<lambda>x. [x]), d1))"
| "note_step rank T (ToolSearch user query tags limit) d =
     (of_tool (tool_note_search rank T (Some user) query tags limit d) (map fst), d)"
| "note_step rank T (ToolList user tags limit) d = (of_tool (tool_note_list T (Some user) tags limit d) id, d)"

locale note_db =
  book: table_laws "nt_books T" nb_id notebooks_unique okB + nrow: table_laws "nt_notes T" n_id "\<lambda>_. True" okN
  for T :: "('b, 'n) note_tables" and okB okN
begin

definition ok :: "'b \<times> 'n \<Rightarrow> bool" where
  "ok d \<longleftrightarrow> okB (fst d) \<and> okN (snd d)"

text \<open>No operation removes or changes a notebook.\<close>

definition books_kept :: "'b \<times> 'n \<Rightarrow> 'b \<times> 'n \<Rightarrow> bool" where
  "books_kept d d1 \<longleftrightarrow> (\<forall>k b. tb_view (nt_books T) (fst d) k = Some b \<longrightarrow> tb_view (nt_books T) (fst d1) k = Some b)"

lemma books_kept_trans: "books_kept d d1 \<Longrightarrow> books_kept d1 d2 \<Longrightarrow> books_kept d d2"
  by (simp add: books_kept_def)

lemma books_kept_fst: "fst d = fst d1 \<Longrightarrow> books_kept d d1"
  by (simp add: books_kept_def)

lemma notebook_spec:
  assumes "default_notebook T user d = Some (b, d1)" "ok d"
  shows "ok d1 \<and> snd d1 = snd d \<and> nb_user b = user \<and> nb_kind b = PERSONAL
    \<and> tb_view (nt_books T) (fst d1) (nb_id b) = Some b \<and> books_kept d d1"
proof (cases "one_or_none (tb_select (nt_books T) (\<lambda>b. nb_user b = user \<and> nb_kind b = PERSONAL) (fst d))")
  case (Some b')
  with assms have "b' = b" "d1 = d" by (auto simp: default_notebook_def Let_def)
  with assms(2) Some one_or_none_mem [OF Some] book.select_set [of "fst d"] book.pk_view [of "fst d"] show ?thesis
    by (auto simp: ok_def books_kept_def)
next
  case None
  let ?mk = "\<lambda>k. \<lparr>nb_id = k, nb_user = user, nb_kind = PERSONAL, nb_title = ''Personal notes''\<rparr>"
  define db where "db = (case tb_insert (nt_books T) ?mk (fst d) of None \<Rightarrow> fst d | Some (_, db) \<Rightarrow> db)"
  have db: "okB db" "books_kept d (db, snd d)" using assms(2) book.insert_some [of "fst d" ?mk]
    by (auto simp: db_def ok_def books_kept_def split: option.splits)
  from assms(1) None have b: "one_or_none (tb_select (nt_books T) (\<lambda>b. nb_user b = user \<and> nb_kind b = PERSONAL) db) = Some b"
    and "d1 = (db, snd d)" by (auto simp: default_notebook_def Let_def db_def)
  moreover have "nb_user b = user" "nb_kind b = PERSONAL" "tb_view (nt_books T) db (nb_id b) = Some b"
    using one_or_none_mem [OF b] book.select_set [OF db(1)] book.pk_view [OF db(1)] by auto
  ultimately show ?thesis using assms(2) db by (simp add: ok_def)
qed

text \<open>A user has one notebook: whoever asks again gets the same.\<close>

lemma notebook_again:
  assumes "default_notebook T user d = Some (b, d1)" "ok d" "ok d2" "books_kept d1 d2"
  shows "default_notebook T user d2 = Some (b, d2)"
proof -
  have v: "tb_view (nt_books T) (fst d2) (nb_id b) = Some b" "nb_user b = user" "nb_kind b = PERSONAL"
    using notebook_spec [OF assms(1,2)] assms(4) by (auto simp: books_kept_def)
  let ?p = "\<lambda>b. nb_user b = user \<and> nb_kind b = PERSONAL"
  have ok2: "okB (fst d2)" using assms(3) by (simp add: ok_def)
  have "set (tb_select (nt_books T) ?p (fst d2)) = {b}"
    using book.select_set [OF ok2, of ?p] book.uniq_view [OF ok2] v unfolding notebooks_unique_def by auto (metis option.inject)
  then have "one_or_none (tb_select (nt_books T) ?p (fst d2)) = Some b"
    by (cases "tb_select (nt_books T) ?p (fst d2)") (auto simp: one_or_none_def)
  then show ?thesis by (simp add: default_notebook_def)
qed

lemma get_spec:
  assumes "get_note T i user d = Some (r, d1)" "ok d"
  shows "ok d1 \<and> snd d1 = snd d \<and> books_kept d d1 \<and> (\<forall>x. r = Some x \<longrightarrow> n_user x = user \<and> n_id x = i \<and> tb_view (nt_notes T) (snd d) i = Some x)"
proof -
  from assms(1) obtain b d2 where b: "default_notebook T user d = Some (b, d2)" by (auto simp: get_note_def split: option.splits)
  note n = notebook_spec [OF b assms(2)]
  then have ok: "okN (snd d)" using assms(2) by (simp add: ok_def)
  show ?thesis
  proof (intro conjI allI impI)
    show "ok d1" "snd d1 = snd d" "books_kept d d1" using assms(1) b n by (auto simp: get_note_def)
  next
    fix x assume "r = Some x"
    with assms(1) b have "one_or_none (tb_select (nt_notes T) (\<lambda>r. n_id r = i \<and> n_user r = user \<and> n_book r = nb_id b) (snd d2)) = Some x"
      by (auto simp: get_note_def)
    from one_or_none_mem [OF this] n nrow.select_set [OF ok] nrow.pk_view [OF ok]
    show "n_user x = user" "n_id x = i" "tb_view (nt_notes T) (snd d) i = Some x" by auto
  qed
qed

lemma upsert_spec:
  assumes "upsert_note T note user title body tags now d = (res, d1)" "ok d"
  shows "ok d1 \<and> books_kept d d1 \<and> (\<forall>v. v \<noteq> user \<longrightarrow> owned_by n_user v (tb_view (nt_notes T) (snd d1)) = owned_by n_user v (tb_view (nt_notes T) (snd d)))
    \<and> (\<forall>r. res = Inr r \<longrightarrow> n_user r = user \<and> tb_view (nt_notes T) (snd d1) (n_id r) = Some r
         \<and> n_title r = title \<and> n_body r = body \<and> n_tags r = tags)"
proof (cases "default_notebook T user d")
  case None
  with assms show ?thesis by (auto simp: upsert_note_def books_kept_def)
next
  case (Some p)
  then obtain b d2 where b: "default_notebook T user d = Some (b, d2)" by (cases p) auto
  note n = notebook_spec [OF b assms(2)]
  then have ok: "okN (snd d)" "okN (snd d2)" "okB (fst d2)" using assms(2) by (auto simp: ok_def)
  show ?thesis
  proof (cases "note")
    case None
    have kept: "books_kept d d1" using n books_kept_trans [of d d2 d1] books_kept_fst [of d2 d1] assms(1) b None
      by (auto simp: upsert_note_def split: option.splits)
    let ?mk = "\<lambda>k. \<lparr>n_id = k, n_user = user, n_book = nb_id b, n_title = title, n_body = body, n_tags = tags, n_updated = now\<rparr>"
    show ?thesis
    proof (cases "tb_insert (nt_notes T) ?mk (snd d2)")
      case None
      with assms b n kept \<open>note = None\<close> show ?thesis by (auto simp: upsert_note_def)
    next
      case (Some q)
      then obtain r dn where i: "tb_insert (nt_notes T) ?mk (snd d2) = Some (r, dn)" by (cases q) auto
      from nrow.insert_some [OF ok(2) _ i] n have
        "okN dn" "tb_view (nt_notes T) (snd d) (n_id r) = None" "r = ?mk (n_id r)" "tb_view (nt_notes T) dn = (tb_view (nt_notes T) (snd d))(n_id r \<mapsto> r)"
        by auto
      moreover have "d1 = (fst d2, dn)" "res = Inr r" using assms(1) b i \<open>note = None\<close> by (auto simp: upsert_note_def)
      moreover have "n_user r = user" "n_title r = title" "n_body r = body" "n_tags r = tags"
        using \<open>r = ?mk (n_id r)\<close> by (metis note_row.select_convs)+
      ultimately show ?thesis using ok kept by (auto simp: ok_def owned_by_fresh)
    qed
  next
    case (Some i)
    let ?ch = "\<lambda>x. x\<lparr>n_title := title, n_body := body, n_tags := tags, n_updated := now\<rparr>"
    show ?thesis
    proof (cases "get_note T i user d2")
      case None
      with assms b n Some show ?thesis by (auto simp: upsert_note_def)
    next
      case (Some q)
      then obtain x d3 where g: "get_note T i user d2 = Some (x, d3)" by (cases q) auto
      from get_spec [OF g] n have gs: "ok d3" "snd d3 = snd d" "books_kept d2 d3" "\<And>y. x = Some y \<Longrightarrow> n_user y = user \<and> n_id y = i \<and> tb_view (nt_notes T) (snd d) i = Some y"
        by auto
      show ?thesis
      proof (cases x)
        case None
        with assms b g gs \<open>note = Some i\<close> n show ?thesis by (auto simp: upsert_note_def intro: books_kept_trans)
      next
        case (Some y)
        note gy = gs(4) [OF this]
        let ?up = "tb_update (nt_notes T) (\<lambda>z. n_id z = n_id y) ?ch (snd d)"
        have u: "okN (snd ?up)" "tb_view (nt_notes T) (snd ?up) = upd_view (\<lambda>z. n_id z = n_id y) ?ch (tb_view (nt_notes T) (snd d))"
          by (rule nrow.update_ok [OF ok(1)], simp, simp) (rule nrow.update_view [OF ok(1)], simp_all)
        have "res = Inr (?ch y)" "d1 = (fst d3, snd ?up)"
          using assms(1) b g gs(2) Some \<open>note = Some i\<close> by (auto simp: upsert_note_def Let_def)
        moreover have mine: "tb_view (nt_notes T) (snd d) k = Some z \<Longrightarrow> n_id z = n_id y \<Longrightarrow> n_user z = user" for k z
          using gy nrow.pk_view [OF ok(1)] by (metis option.inject)
        have "owned_by n_user v (tb_view (nt_notes T) (snd ?up)) = owned_by n_user v (tb_view (nt_notes T) (snd d))" if "v \<noteq> user" for v
          unfolding u(2) by (rule owned_by_change) (use mine that in auto)
        moreover have "tb_view (nt_notes T) (snd ?up) (n_id y) = Some (?ch y)" unfolding u(2) using gy by (simp add: upd_view_def)
        ultimately show ?thesis using u(1) gy gs(1) books_kept_trans [of d d2 "(fst d3, snd ?up)"] gs(3) n
          by (simp add: ok_def books_kept_def)
      qed
    qed
  qed
qed

lemma delete_spec:
  assumes "delete_note T i user d = Some (gone, d1)" "ok d"
  shows "ok d1 \<and> books_kept d d1
    \<and> (\<forall>v. v \<noteq> user \<longrightarrow> owned_by n_user v (tb_view (nt_notes T) (snd d1)) = owned_by n_user v (tb_view (nt_notes T) (snd d)))"
proof -
  from assms(1) obtain r d2 where g: "get_note T i user d = Some (r, d2)" by (auto simp: delete_note_def split: option.splits)
  note gs = get_spec [OF g assms(2)]
  have ok: "okN (snd d)" using assms(2) by (simp add: ok_def)
  show ?thesis
  proof (cases r)
    case None
    with assms(1) g gs show ?thesis by (auto simp: delete_note_def)
  next
    case (Some x)
    let ?del = "tb_delete (nt_notes T) (\<lambda>z. n_id z = n_id x) (snd d)"
    have dv: "okN (snd ?del)" "tb_view (nt_notes T) (snd ?del) = del_view (\<lambda>z. n_id z = n_id x) (tb_view (nt_notes T) (snd d))"
      using nrow.delete_ok [OF ok] nrow.delete_view [OF ok] by simp_all
    have d1: "d1 = (fst d2, snd ?del)" using assms(1) g gs Some by (auto simp: delete_note_def)
    have "tb_view (nt_notes T) (snd d) k = Some z \<Longrightarrow> n_id z = n_id x \<Longrightarrow> n_user z = user" for k z
      using gs Some nrow.pk_view [OF ok] by (metis option.inject)
    then have "owned_by n_user v (tb_view (nt_notes T) (snd ?del)) = owned_by n_user v (tb_view (nt_notes T) (snd d))" if "v \<noteq> user" for v
      unfolding dv(2) by (intro owned_by_del) (use that in auto)
    with dv(1) gs d1 show ?thesis by (simp add: ok_def books_kept_def)
  qed
qed

lemma list_own:
  assumes "list_notes T user tags limit offset d = Some (rows, d1)" "ok d"
    and "r \<in> set rows"
  shows "n_user r = user"
proof -
  from assms(1) obtain b d2 where b: "default_notebook T user d = Some (b, d2)" by (auto simp: list_notes_def split: option.splits)
  have "okN (snd d2)" using notebook_spec [OF b assms(2)] unfolding ok_def by blast
  with assms(1,3) b nrow.select_set [OF this] show ?thesis
    by (auto simp: list_notes_def dest!: in_set_takeD in_set_dropD)
qed

lemma search_own:
  assumes "search_notes rank T user query tags limit offset d = Some (hits, d1)" "ok d"
    and "(r, score) \<in> set hits"
  shows "n_user r = user"
proof -
  from assms(1) obtain b d2 where b: "default_notebook T user d = Some (b, d2)" by (auto simp: search_notes_def split: option.splits)
  have "okN (snd d2)" using notebook_spec [OF b assms(2)] unfolding ok_def by blast
  with assms(1,3) b nrow.select_set [OF this] show ?thesis
    by (auto simp: search_notes_def Let_def dest!: in_set_takeD in_set_dropD)
qed

lemma get_own: "get_note T i user d = Some (Some r, d1) \<Longrightarrow> ok d \<Longrightarrow> n_user r = user"
  using get_spec [of i user d "Some r" d1] by simp

text \<open>One operation of any kind.\<close>

lemma step_spec:
  assumes "ok d"
  shows "ok (snd (note_step rank T x d)) \<and> books_kept d (snd (note_step rank T x d))
    \<and> (\<forall>r \<in> set (fst (note_step rank T x d)). n_user r = note_actor x)
    \<and> (\<forall>v. v \<noteq> note_actor x \<longrightarrow>
        owned_by n_user v (tb_view (nt_notes T) (snd (snd (note_step rank T x d)))) = owned_by n_user v (tb_view (nt_notes T) (snd d)))"
proof (cases x)
  case (RpcSave u nid title body tags now)
  obtain res d1 where r: "upsert_note T nid (u_id u) title body tags now d = (res, d1)" by (metis surj_pair)
  from upsert_spec [OF r assms] r RpcSave assms show ?thesis
    by (auto simp: rpc_save_note_def of_reply_def books_kept_def split: sum.splits note_error.splits)
next
  case (RpcGet u i)
  with assms get_own [where d = d] show ?thesis by (auto simp: rpc_get_note_def of_reply_def books_kept_def split: option.splits)
next
  case (RpcSearch u query tags limit offset)
  obtain n skip where "note_page limit offset = (n, skip)" by (metis surj_pair)
  with RpcSearch assms show ?thesis
    by (auto simp: rpc_search_notes_def of_reply_def books_kept_def split: option.splits sum.splits dest: search_own)
next
  case (RpcList u tags limit offset)
  obtain n skip where "note_page limit offset = (n, skip)" by (metis surj_pair)
  with RpcList assms show ?thesis
    by (auto simp: rpc_list_notes_def of_reply_def books_kept_def split: option.splits sum.splits dest: list_own)
next
  case (RpcDelete u i)
  with assms delete_spec [of i "u_id u" d] show ?thesis
    by (auto simp: rpc_delete_note_def books_kept_def split: option.splits bool.splits)
next
  case (ToolSave user nid title body tags now)
  obtain res d1 where r: "upsert_note T nid user title body (tool_tags tags) now d = (res, d1)" by (metis surj_pair)
  from upsert_spec [OF r assms] r ToolSave assms show ?thesis
    by (auto simp: tool_note_save_def of_tool_def books_kept_def split: sum.splits)
next
  case (ToolSearch user query tags limit)
  with assms show ?thesis
    by (cases "search_notes rank T user query (case tags of None \<Rightarrow> [] | Some ts \<Rightarrow> ts) (nat limit) 0 d")
      (auto simp: tool_note_search_def of_tool_def books_kept_def dest: search_own)
next
  case (ToolList user tags limit)
  with assms show ?thesis
    by (cases "list_notes T user (case tags of None \<Rightarrow> [] | Some ts \<Rightarrow> ts) (nat limit) 0 d")
      (auto simp: tool_note_list_def of_tool_def books_kept_def dest: list_own)
qed

sublocale own: owned "note_step rank T" note_actor n_user "\<lambda>d. tb_view (nt_notes T) (snd d)" ok "\<lambda>x d. True"
  by unfold_locales (use step_spec in auto)

lemmas isolated = own.isolation [OF _ allowed_always [OF TrueI]]

lemma run_books:
  assumes "ok d" "run_ops (note_step rank T) xs d = (outs, d1)"
  shows "ok d1 \<and> books_kept d d1"
  using assms
proof (induction xs arbitrary: d outs)
  case (Cons x xs)
  obtain r d2 where s: "note_step rank T x d = (r, d2)" by (metis surj_pair)
  with Cons.prems(2) obtain rs where "run_ops (note_step rank T) xs d2 = (rs, d1)" by (auto split: prod.splits)
  with Cons.IH [of d2] step_spec [OF Cons.prems(1), of rank x] s show ?case by (auto intro: books_kept_trans)
qed (simp add: books_kept_def)

text \<open>A saved note is found by its owner, whatever the others have done since.\<close>

lemma saved_note_found:
  assumes ok: "ok d" and save: "upsert_note T nid user title body tags now d = (Inr r, d1)"
    and run: "run_ops (note_step rank T) xs d1 = (outs, d2)" and others: "user \<notin> note_actor ` set xs"
  shows "get_note T (n_id r) user d2 = Some (Some r, d2)"
proof -
  note u = upsert_spec [OF save ok]
  from save obtain b d0 where b: "default_notebook T user d = Some (b, d0)" by (auto simp: upsert_note_def split: option.splits)
  note n = notebook_spec [OF b ok]
  have r: "n_book r = nb_id b"
  proof (cases nid)
    case None
    let ?mk = "\<lambda>k. \<lparr>n_id = k, n_user = user, n_book = nb_id b, n_title = title, n_body = body, n_tags = tags, n_updated = now\<rparr>"
    from save b None obtain dn where "tb_insert (nt_notes T) ?mk (snd d0) = Some (r, dn)" by (auto simp: upsert_note_def split: option.splits)
    moreover have "okN (snd d0)" using n unfolding ok_def by blast
    ultimately have "r = ?mk (n_id r)" using nrow.insert_some [of "snd d0" ?mk] by simp
    then have "n_book r = n_book (?mk (n_id r))" by (rule arg_cong)
    then show ?thesis by simp
  next
    case (Some i)
    from notebook_again [OF b ok, of d0] n have "default_notebook T user d0 = Some (b, d0)" by (simp add: books_kept_def)
    with save b Some obtain y where y: "one_or_none (tb_select (nt_notes T) (\<lambda>r. n_id r = i \<and> n_user r = user \<and> n_book r = nb_id b) (snd d0)) = Some y"
      and "n_book r = n_book y" by (auto simp: upsert_note_def get_note_def Let_def split: option.splits)
    with one_or_none_mem [OF y] nrow.select_set [of "snd d0"] n show ?thesis by (auto simp: ok_def)
  qed
  have kept: "ok d2" "books_kept d1 d2" using run_books [OF _ run] u by auto
  have "books_kept d0 d1"
  proof -
    have "fst d1 = fst d0" using save b notebook_again [OF b ok, of d0] n
      by (auto simp: upsert_note_def get_note_def Let_def books_kept_def split: option.splits prod.splits)
    then show ?thesis by (simp add: books_kept_def)
  qed
  then have again: "default_notebook T user d2 = Some (b, d2)" using kept by (intro notebook_again [OF b ok]) (auto intro: books_kept_trans)
  have "owned_by n_user user (tb_view (nt_notes T) (snd d2)) = owned_by n_user user (tb_view (nt_notes T) (snd d1))"
    using own.isolation [OF _ allowed_always run] others u by simp
  then have v: "tb_view (nt_notes T) (snd d2) (n_id r) = Some r" using u
    by (auto simp: owned_by_def fun_eq_iff split: option.splits if_splits)
  have ok2: "okN (snd d2)" using kept by (simp add: ok_def)
  let ?p = "\<lambda>x. n_id x = n_id r \<and> n_user x = user \<and> n_book x = nb_id b"
  have "r \<in> set (tb_select (nt_notes T) ?p (snd d2))" using v u r unfolding nrow.select_set [OF ok2] by auto
  moreover have "x = r" if "x \<in> set (tb_select (nt_notes T) ?p (snd d2))" for x
  proof -
    from that obtain k where "tb_view (nt_notes T) (snd d2) k = Some x" "n_id x = n_id r"
      unfolding nrow.select_set [OF ok2] by auto
    with nrow.pk_view [OF ok2 this(1)] v show ?thesis by simp
  qed
  ultimately have "set (tb_select (nt_notes T) ?p (snd d2)) = {r}" by blast
  then have "one_or_none (tb_select (nt_notes T) ?p (snd d2)) = Some r"
    by (cases "tb_select (nt_notes T) ?p (snd d2)") (auto simp: one_or_none_def)
  with again show ?thesis by (simp add: get_note_def)
qed

end

section \<open>Properties\<close>

text \<open>
  C26: notes are private. Over any run of handler calls and tool calls of any users, an answer
  holds only notes of the user who asked, and a user's notes stay exactly as they are, in
  content and number, while the others save, change and delete theirs.
\<close>

theorem notes_isolated:
  assumes "note_db T okB okN" "okB (fst d)" "okN (snd d)" "run_ops (note_step rank T) xs d = (outs, d')"
  shows "(\<forall>i < length xs. \<forall>r \<in> set (outs ! i). n_user r = note_actor (xs ! i))
    \<and> (\<forall>v. v \<notin> note_actor ` set xs \<longrightarrow>
        owned_by n_user v (tb_view (nt_notes T) (snd d')) = owned_by n_user v (tb_view (nt_notes T) (snd d)))"
  using note_db.isolated [OF assms(1) _ assms(4)] assms(2,3)
  by (simp add: note_db.ok_def [OF assms(1)])

text \<open>
  What is saved is found. A note whose saving is answered with success is returned by a
  later lookup of its owner with the saved title, text and tags, whatever the other users
  have done in the meantime.
\<close>

theorem note_round_trip:
  assumes "note_db T okB okN" "okB (fst d)" "okN (snd d)"
    and "upsert_note T nid user title body tags now d = (Inr r, d1)"
    and "run_ops (note_step rank T) xs d1 = (outs, d2)" "user \<notin> note_actor ` set xs"
  shows "get_note T (n_id r) user d2 = Some (Some r, d2) \<and> n_user r = user \<and> n_title r = title \<and> n_body r = body \<and> n_tags r = tags"
  using note_db.saved_note_found [OF assms(1) _ assms(4,5,6)] note_db.upsert_spec [OF assms(1,4)] assms(2,3)
  by (simp add: note_db.ok_def [OF assms(1)])

definition book_rows :: "notebook_row list \<Rightarrow> bool" where
  "book_rows = sorted_wrt (\<lambda>r s. \<not> (nb_user r = nb_user s \<and> nb_kind r = nb_kind s))"

definition note_mem :: "(notebook_row rows, note_row rows) note_tables" where
  "note_mem = \<lparr>nt_books = mem_table book_rows, nt_notes = mem_table (\<lambda>_. True)\<rparr>"

interpretation note_mem: note_db note_mem "rows_ok nb_id book_rows" "rows_ok n_id (\<lambda>_. True)"
proof (intro note_db.intro)
  show "table_laws (nt_books note_mem) nb_id notebooks_unique (rows_ok nb_id book_rows)"
    unfolding note_mem_def book_rows_def note_tables.select_convs
    by (rule mem_table_laws) (subst pairwise_rows, auto simp: notebooks_unique_def)
  show "table_laws (nt_notes note_mem) n_id (\<lambda>_. True) (rows_ok n_id (\<lambda>_. True))"
    unfolding note_mem_def by simp (rule plain_rows.table_laws_axioms)
qed

text \<open>User 1 saves a note, then user 2 saves one, asks for the first and deletes it in vain.\<close>

definition demo_guest :: user_row where
  "demo_guest = \<lparr>u_id = 2, u_tg = None, u_email = None, u_hash = None, u_name = None, u_tgname = None, u_role = ROLE_USER\<rparr>"

definition demo_saved :: "note_row list \<times> notebook_row rows \<times> note_row rows" where
  "demo_saved = note_step (\<lambda>_ _. None) note_mem (ToolSave 1 None ''k'' ''v'' None 5) ((1, []), (1, []))"

definition demo_note_ops :: "note_op list" where
  "demo_note_ops = [RpcSave demo_guest None ''x'' ''y'' [] 6, RpcGet demo_guest 1, RpcDelete demo_guest 1]"

lemma demo_saved_eval: "demo_saved = ([\<lparr>n_id = 1, n_user = 1, n_book = 1, n_title = ''k'', n_body = ''v'', n_tags = [''codex:auto''], n_updated = 5\<rparr>],
    (2, [(1, \<lparr>nb_id = 1, nb_user = 1, nb_kind = PERSONAL, nb_title = ''Personal notes''\<rparr>)]),
    (2, [(1, \<lparr>n_id = 1, n_user = 1, n_book = 1, n_title = ''k'', n_body = ''v'', n_tags = [''codex:auto''], n_updated = 5\<rparr>)]))"
  by (simp add: demo_saved_def tool_note_save_def upsert_note_def default_notebook_def one_or_none_def note_mem_def mem_table_def
      book_rows_def tool_tags_def codex_tag_def of_tool_def Let_def)

lemma notes_isolated_witness:
  "owned_by n_user 1 (tb_view (nt_notes note_mem) (snd (snd (run_ops (note_step (\<lambda>_ _. None) note_mem) demo_note_ops (snd demo_saved))))) =
   owned_by n_user 1 (tb_view (nt_notes note_mem) (snd (snd demo_saved)))"
proof -
  obtain outs d' where r: "run_ops (note_step (\<lambda>_ _. None) note_mem) demo_note_ops (snd demo_saved) = (outs, d')" by (metis surj_pair)
  have "rows_ok nb_id book_rows (fst (snd demo_saved))" "rows_ok n_id (\<lambda>_. True) (snd (snd demo_saved))"
    by (simp_all add: demo_saved_eval rows_ok_def book_rows_def)
  from notes_isolated [OF note_mem.note_db_axioms this r] show ?thesis unfolding r
    by (simp add: demo_note_ops_def demo_guest_def)
qed

lemma note_round_trip_witness:
  "get_note note_mem 1 1 (snd (run_ops (note_step (\<lambda>_ _. None) note_mem) demo_note_ops (snd demo_saved))) =
   Some (Some (hd (fst demo_saved)), snd (run_ops (note_step (\<lambda>_ _. None) note_mem) demo_note_ops (snd demo_saved)))"
proof -
  obtain outs d' where r: "run_ops (note_step (\<lambda>_ _. None) note_mem) demo_note_ops (snd demo_saved) = (outs, d')" by (metis surj_pair)
  have save: "upsert_note note_mem None 1 ''k'' ''v'' [''codex:auto''] 5 ((1, []), (1, [])) = (Inr (hd (fst demo_saved)), snd demo_saved)"
    unfolding demo_saved_eval
    by (simp add: upsert_note_def default_notebook_def one_or_none_def note_mem_def mem_table_def book_rows_def Let_def)
  have ok: "rows_ok nb_id book_rows (fst ((1, []), (1, [])))" "rows_ok n_id (\<lambda>_. True) (snd ((1, []), (1, [])))"
    by (simp_all add: rows_ok_def book_rows_def)
  from note_round_trip [OF note_mem.note_db_axioms ok save r] show ?thesis unfolding r
    by (simp add: demo_note_ops_def demo_guest_def) (simp add: demo_saved_eval)
qed

end
