(* ===== verification/Tg_Turn.thy ===== *)
theory Tg_Turn
  imports Sessions Uploads
begin

text \<open>
  A turn for Telegram: \<open>tg/turn/runner.py\<close>, \<open>stream.py\<close>, \<open>outcomes.py\<close>, \<open>persistence.py\<close> and
  \<open>control.py\<close>. The world holds the tables, Redis, the files, the chat with the progress reporter
  and the session's task. An action on it ends in a value or in an exception; what the
  environment decides, the fate of each call of the bot, of each transaction, of Redis and of
  the sidecar, is the record \<open>e\<close>. A cancellation is delivered while the loop waits for an event.
  The texts for the user are outside ASCII; they are a parameter, one for each notice.
\<close>

section \<open>Actions\<close>

text \<open>\<open>CodexTurnTerminal\<close> with its fields, \<open>TimeoutError\<close>, \<open>CancelledError\<close>; others by class and text.\<close>

datatype turn_exn =
    TxTerminal turn_status "string option" "string option"
  | TxTimeout
  | TxCancelled
  | TxError string string

type_synonym ('w, 'a) action = "'w \<Rightarrow> (turn_exn + 'a) \<times> 'w"

definition then_do :: "('w, 'a) action \<Rightarrow> ('a \<Rightarrow> ('w, 'b) action) \<Rightarrow> ('w, 'b) action" where
  "then_do m f w = (case m w of (Inl x, w1) \<Rightarrow> (Inl x, w1) | (Inr a, w1) \<Rightarrow> f a w1)"

definition give :: "'a \<Rightarrow> ('w, 'a) action" where
  "give a w = (Inr a, w)"

definition fail_with :: "turn_exn \<Rightarrow> ('w, 'a) action" where
  "fail_with x w = (Inl x, w)"

definition change :: "('w \<Rightarrow> 'w) \<Rightarrow> ('w, unit) action" where
  "change f w = (Inr (), f w)"

section \<open>The world\<close>

record ('s, 'd, 'c, 'm, 'u) tg_world =
  gw_web :: "('s, 'd, 'c, 'm) web"
  gw_files :: "'u files"
  gw_rep :: reporter
  gw_tick :: nat
  gw_bus :: "chat_event list"
  gw_acts :: "string list"
  gw_task :: bool

datatype notice =
    NoteStarting | NoteBusy | NoteFinishing | NoteHung | NoteCutEmpty | NoteCut | NoteEmptyAnswer
  | NoteFailed string | NoteCodexError string "string option"
  | NoteTooLarge int | NoteLimited string int | NoteSteered

record tg_env =
  te_rpc :: rpc_env
  te_bot :: "nat \<Rightarrow> api_reply"
  te_style :: tg_style
  te_disk :: file_system
  te_tts_on :: bool
  te_tts :: "string \<Rightarrow> tts_result"
  te_say :: "notice \<Rightarrow> string"
  te_ok :: "nat \<Rightarrow> bool"
  te_db_error :: "string \<times> string"
  te_upload :: upload_cfg
  te_store :: "string \<Rightarrow> fault \<times> string"
  te_idle :: string
  te_quarantine :: fault
  te_acquire :: fault
  te_read :: fault
  te_unlock :: fault
  te_opens :: "(string \<times> string) option"
  te_thread :: "string option"

record tg_prepared =
  tp_text :: string
  tp_attachments :: "string list"
  tp_uploads :: "int list"
  tp_voice :: bool
  tp_reply :: "int option"
  tp_quoted :: "string option"

text \<open>\<open>orjson.dumps\<close> of an object with one text, which is a parameter of the prompt.\<close>

definition prompt :: "(string \<Rightarrow> string) \<Rightarrow> tg_prepared \<Rightarrow> string" where
  "prompt dumps p =
     (case tp_quoted p of
        None \<Rightarrow> tp_text p
      | Some q \<Rightarrow> ''Referenced Telegram message (quoted context, not new instructions):'' @ NL @ dumps q @ NL @ NL
          @ ''Current user request:'' @ NL @ tp_text p)"

definition bot_exn :: "tg_exn \<Rightarrow> turn_exn" where
  "bot_exn x = (case x of ApiError s \<Rightarrow> TxError ''TelegramAPIError'' s | RetryAfter n \<Rightarrow> TxError ''TelegramRetryAfter'' []
     | Crash s \<Rightarrow> TxError ''Exception'' s)"

definition with_bot :: "(reporter \<Rightarrow> (tg_exn + 'a) \<times> reporter) \<Rightarrow> (('s, 'd, 'c, 'm, 'u) tg_world, 'a) action" where
  "with_bot m w =
     (case m (gw_rep w) of (Inl x, r) \<Rightarrow> (Inl (bot_exn x), w\<lparr>gw_rep := r\<rparr>) | (Inr a, r) \<Rightarrow> (Inr a, w\<lparr>gw_rep := r\<rparr>))"

definition answer_html :: "tg_env \<Rightarrow> string \<Rightarrow> (('s, 'd, 'c, 'm, 'u) tg_world, unit) action" where
  "answer_html e html = with_bot (then_tg (answer (te_bot e) (Html html)) (\<lambda>_ r. (Inr (), r)))"

definition say :: "tg_env \<Rightarrow> notice \<Rightarrow> (('s, 'd, 'c, 'm, 'u) tg_world, unit) action" where
  "say e n = answer_html e (tg_escape (te_say e n))"

text \<open>
  A transaction: when it fails its changes to the tables are gone, but not what it has put
  into the object store.
\<close>

definition transact :: "tg_env \<Rightarrow> (('s, 'd, 'c, 'm, 'u) tg_world, 'a) action \<Rightarrow> (('s, 'd, 'c, 'm, 'u) tg_world, 'a) action" where
  "transact e f w =
     (let w1 = w\<lparr>gw_tick := Suc (gw_tick w)\<rparr>;
          undo = (\<lambda>w2. w1\<lparr>gw_files := (gw_files w1)\<lparr>fi_objs := fi_objs (gw_files w2)\<rparr>\<rparr>)
      in case f w1 of
           (Inl x, w2) \<Rightarrow> (Inl x, undo w2)
         | (Inr a, w2) \<Rightarrow>
             if te_ok e (gw_tick w) then (Inr a, w2) else (Inl (TxError (fst (te_db_error e)) (snd (te_db_error e))), undo w2))"

definition on_web :: "(('s, 'd, 'c, 'm) web \<Rightarrow> ('s, 'd, 'c, 'm) web) \<Rightarrow> ('s, 'd, 'c, 'm, 'u) tg_world \<Rightarrow> ('s, 'd, 'c, 'm, 'u) tg_world" where
  "on_web f w = w\<lparr>gw_web := f (gw_web w)\<rparr>"

definition on_turns :: "('d sess \<Rightarrow> 'd sess) \<Rightarrow> ('s, 'd, 'c, 'm) web \<Rightarrow> ('s, 'd, 'c, 'm) web" where
  "on_turns f W =
     (case commit (f (open_session (rw_db (wb_w W)))) of
        (pub, ses) \<Rightarrow> W\<lparr>wb_w := (wb_w W)\<lparr>rw_db := s_committed ses, rw_pub := rw_pub (wb_w W) @ pub\<rparr>\<rparr>)"

definition emit_row :: "event_kind \<Rightarrow> json \<Rightarrow> ('s, 'd, 'c, 'm, 'u) tg_world \<Rightarrow> ('s, 'd, 'c, 'm, 'u) tg_world" where
  "emit_row k payload = on_web (\<lambda>W. W\<lparr>wb_events := wb_events W @ [(k, payload)]\<rparr>)"

definition append_row ::
  "('c, 'm, 'd) tables \<Rightarrow> int \<Rightarrow> message_role \<Rightarrow> string \<Rightarrow> json \<Rightarrow> int \<Rightarrow> (('s, 'd, 'c, 'm, 'u) tg_world, msg_row) action" where
  "append_row T chat role txt meta now w =
     (case append_message (ta_chats T) (ta_msgs T) chat role txt (if meta = JNull then None else Some meta) now
             (wb_chats (gw_web w), wb_msgs (gw_web w)) of
        None \<Rightarrow> (Inl (TxError ''IntegrityError'' []), w)
      | Some (m, (dc, dm)) \<Rightarrow> (Inr m, on_web (\<lambda>W. W\<lparr>wb_chats := dc, wb_msgs := dm\<rparr>) w))"

section \<open>Persistence\<close>

definition persist_user_turn ::
  "('c, 'm, 'd) tables \<Rightarrow> tg_env \<Rightarrow> chat_session \<Rightarrow> tg_prepared \<Rightarrow> (('s, 'd, 'c, 'm, 'u) tg_world, int) action" where
  "persist_user_turn T e s p =
     (let meta = meta_or_none ((if tp_uploads p \<noteq> [] then [(''upload_ids'', JList (map JInt (tp_uploads p)))] else [])
            @ (case tp_reply p of None \<Rightarrow> [] | Some i \<Rightarrow> [(''reply_to_message_id'', JInt i)])
            @ (case tp_quoted p of None \<Rightarrow> [] | Some q \<Rightarrow> [(''quoted_text'', JStr q)]))
      in transact e (then_do (append_row T (cs_chat s) MSG_USER (tp_text p) meta (rv_now (te_rpc e))) (\<lambda>m.
           then_do (change (emit_row EV_TURN_STARTED (JObj [(''text_len'', JInt (int (length (tp_text p)))),
             (''attachments'', JInt (int (length (tp_attachments p))))]))) (\<lambda>_. give (mg_id m)))))"

definition build_turn_payload :: "string \<Rightarrow> (string \<times> json) list \<Rightarrow> int list \<Rightarrow> bool \<Rightarrow> json" where
  "build_turn_payload txt calls ids partial =
     JObj (count_payload txt calls ids @ (if partial then [(''reason'', JStr (error_code_value STREAM_DROPPED))] else []))"

definition store_attachments ::
  "(upload_row, 'u) table \<Rightarrow> tg_env \<Rightarrow> chat_session \<Rightarrow> attachment list \<Rightarrow> (('s, 'd, 'c, 'm, 'u) tg_world, int list) action" where
  "store_attachments U e s atts w =
     (case persist_attachments (te_disk e) U (uc_bucket (te_upload e)) (uc_mimes (te_upload e)) (te_store e) (rv_now (te_rpc e))
             (cs_chat s) (cs_user s) atts (gw_files w) of
        (ids, fs) \<Rightarrow> (Inr ids, w\<lparr>gw_files := fs\<rparr>))"

definition persist_answer ::
  "('c, 'm, 'd) tables \<Rightarrow> (upload_row, 'u) table \<Rightarrow> tg_env \<Rightarrow> chat_session \<Rightarrow> string \<Rightarrow> attachment list \<Rightarrow> (string \<times> json) list \<Rightarrow>
     bool \<Rightarrow> int option \<Rightarrow> (('s, 'd, 'c, 'm, 'u) tg_world, unit) action" where
  "persist_answer T U e s txt atts calls partial turn =
     transact e (then_do (store_attachments U e s atts) (\<lambda>ids.
       then_do (append_row T (cs_chat s) MSG_ASSISTANT txt (persist_meta partial calls ids None) (rv_now (te_rpc e))) (\<lambda>m.
       then_do (change (case turn of None \<Rightarrow> id | Some i \<Rightarrow> on_web (on_turns (attach_assistant_message (ta_turns T) i (mg_id m))))) (\<lambda>_.
       change (emit_row (if partial then TURN_FAILED else EV_TURN_COMPLETED) (build_turn_payload txt calls ids partial))))))"

section \<open>Control\<close>

definition emit_failure ::
  "tg_env \<Rightarrow> string option \<Rightarrow> string option \<Rightarrow> string option \<Rightarrow> (('s, 'd, 'c, 'm, 'u) tg_world, unit) action" where
  "emit_failure e code detail exc =
     transact e (change (emit_row TURN_FAILED (meta_or_none (concat (map (\<lambda>(k, v). if opt_truthy v then [(k, JStr (the v))] else [])
       [(''code'', code), (''detail'', detail), (''exc_type'', exc)])))))"

definition quarantine :: "('s, 'x) redisz_scheme \<Rightarrow> tg_env \<Rightarrow> string option \<Rightarrow> (('s, 'd, 'c, 'm, 'u) tg_world, unit) action" where
  "quarantine R e thread = change (on_web (on_srv (quarantine_thread R (te_quarantine e) thread)))"

definition auto_reset_thread ::
  "('s, 'x) redisz_scheme \<Rightarrow> ('c, 'm, 'd) tables \<Rightarrow> tg_env \<Rightarrow> chat_session \<Rightarrow> (('s, 'd, 'c, 'm, 'u) tg_world, unit) action" where
  "auto_reset_thread R T e s w =
     (let broken = Option.bind (get_active_for_chat (ta_turns T) (cs_chat s) (rw_db (wb_w (gw_web w)))) t_thread in
      then_do (quarantine R e broken) (\<lambda>_. transact e (change (emit_row THREAD_RESET
        (JObj [(''reason'', JStr ''auto_recovery_idle_timeout''), (''thread_id'', opt_json broken)])))) w)"

section \<open>Outcomes\<close>

definition send_answer :: "tg_env \<Rightarrow> tg_prepared \<Rightarrow> string \<Rightarrow> attachment list \<Rightarrow> string \<Rightarrow> (('s, 'd, 'c, 'm, 'u) tg_world, unit) action" where
  "send_answer e p final atts committed =
     with_bot (send_response (te_bot e) (te_style e) (te_disk e) (te_tts_on e) (te_tts e) final atts committed (tp_voice p))"

definition handle_empty_response :: "tg_env \<Rightarrow> (('s, 'd, 'c, 'm, 'u) tg_world, unit) action" where
  "handle_empty_response e =
     then_do (say e NoteEmptyAnswer) (\<lambda>_. emit_failure e (Some (error_code_value EMPTY_RESPONSE)) (Some ''no final text'') None)"

definition handle_done ::
  "('c, 'm, 'd) tables \<Rightarrow> (upload_row, 'u) table \<Rightarrow> tg_env \<Rightarrow> chat_session \<Rightarrow> tg_prepared \<Rightarrow> string \<Rightarrow> attachment list \<Rightarrow>
     (string \<times> json) list \<Rightarrow> string \<Rightarrow> int \<Rightarrow> (('s, 'd, 'c, 'm, 'u) tg_world, unit) action" where
  "handle_done T U e s p final atts calls committed turn =
     (if py_strip final = [] \<and> atts = [] then handle_empty_response e
      else then_do (send_answer e p final atts committed) (\<lambda>_. persist_answer T U e s final atts calls False (Some turn)))"

definition handle_dropped_stream ::
  "('c, 'm, 'd) tables \<Rightarrow> (upload_row, 'u) table \<Rightarrow> tg_env \<Rightarrow> chat_session \<Rightarrow> tg_prepared \<Rightarrow> string \<Rightarrow> attachment list \<Rightarrow>
     (string \<times> json) list \<Rightarrow> string \<Rightarrow> (('s, 'd, 'c, 'm, 'u) tg_world, unit) action" where
  "handle_dropped_stream T U e s p buffer atts calls committed =
     (let tail = py_strip buffer in
      if tail = [] \<and> atts = []
      then then_do (say e NoteCutEmpty) (\<lambda>_. emit_failure e (Some (error_code_value STREAM_DROPPED)) (Some ''no buffer'') None)
      else then_do (send_answer e p tail atts committed) (\<lambda>_.
           then_do (persist_answer T U e s tail atts calls True None) (\<lambda>_. say e NoteCut)))"

section \<open>The stream of a turn\<close>

text \<open>
  What happens while the loop runs: \<open>turn/started\<close> reaches the callback, an event of the stream
  with two readings of the clock, a round of the reporter's background task, a heartbeat.
\<close>

datatype tg_item =
    TiStarted string string
  | TiEvent chat_event int int
  | TiTick int int int
  | TiBeat fault int

datatype tg_src =
    TsStop
  | TsTerminal turn_status "string option" string
  | TsStale json
  | TsTimeout
  | TsCancelled
  | TsRaises string string

definition act_of :: "string \<Rightarrow> ('s, 'd, 'c, 'm, 'u) tg_world \<Rightarrow> ('s, 'd, 'c, 'm, 'u) tg_world" where
  "act_of a w = w\<lparr>gw_acts := gw_acts w @ [a]\<rparr>"

definition on_chat_event ::
  "('c, 'm, 'd) tables \<Rightarrow> (upload_row, 'u) table \<Rightarrow> tg_env \<Rightarrow> chat_session \<Rightarrow> tg_prepared \<Rightarrow> int \<Rightarrow> chat_event \<Rightarrow> int \<Rightarrow> int \<Rightarrow>
     stream_collector \<Rightarrow> (('s, 'd, 'c, 'm, 'u) tg_world, unit) action" where
  "on_chat_event T U e s p turn ev now later col =
     (case ev of
        TokenEvent _ \<Rightarrow> if tp_voice p then give () else with_bot (note_partial (te_bot e) (te_style e) now (sc_buffer col))
      | ToolCallEvent name _ \<Rightarrow> with_bot (note_tool (te_bot e) (te_style e) now later name)
      | ToolResultEvent name _ _ err \<Rightarrow> with_bot (mark_tool_done (te_bot e) (te_style e) now later name (err \<noteq> None))
      | ErrorEvent code detail \<Rightarrow>
          then_do (say e (NoteCodexError code detail)) (\<lambda>_.
          then_do (emit_failure e (Some code) detail None) (\<lambda>_.
          fail_with (TxTerminal FAILED (Some (if code = [] then error_code_value CODEX_ERROR else code)) detail)))
      | DoneEvent _ \<Rightarrow>
          (let final = (if sc_final col \<noteq> [] then sc_final col else sc_buffer col) in
           then_do (if tp_voice p then give [] else with_bot (finalize_stream (te_bot e) (te_style e) final)) (\<lambda>committed.
           then_do (handle_done T U e s p final (sc_atts col) (sc_calls col) committed turn) (\<lambda>_.
           fail_with (TxTerminal COMPLETED None None)))))"

definition on_item ::
  "('s, 'x) redisz_scheme \<Rightarrow> ('c, 'm, 'd) tables \<Rightarrow> (upload_row, 'u) table \<Rightarrow> tg_env \<Rightarrow> chat_session \<Rightarrow> tg_prepared \<Rightarrow> int \<Rightarrow> tg_item \<Rightarrow>
     stream_collector \<Rightarrow> (('s, 'd, 'c, 'm, 'u) tg_world, stream_collector) action" where
  "on_item R T U e s p turn x col =
     (case x of
        TiStarted codex_turn thread \<Rightarrow>
          then_do (transact e (change (on_web (on_turns (\<lambda>ses. snd (mark_running (ta_turns T) turn thread codex_turn (rv_now (te_rpc e)) ses))))))
            (\<lambda>_. give col)
      | TiEvent ev now later \<Rightarrow>
          then_do (change (\<lambda>w. w\<lparr>gw_bus := gw_bus w @ [ev]\<rparr>)) (\<lambda>_.
          then_do (on_chat_event T U e s p turn ev now later (absorb ev col)) (\<lambda>_. give (absorb ev col)))
      | TiTick now later acted \<Rightarrow>
          then_do (change (\<lambda>w. w\<lparr>gw_rep := snd (run_tick (te_bot e) (te_style e) 4000000 now later acted (gw_rep w))\<rparr>)) (\<lambda>_. give col)
      | TiBeat f now \<Rightarrow>
          then_do (change (on_web (\<lambda>W. W\<lparr>wb_w := snd (heartbeat_round R (ta_turns T) f Fine turn (cs_chat s) None now (wb_w W))\<rparr>))) (\<lambda>_. give col))"

fun on_items ::
  "('s, 'x) redisz_scheme \<Rightarrow> ('c, 'm, 'd) tables \<Rightarrow> (upload_row, 'u) table \<Rightarrow> tg_env \<Rightarrow> chat_session \<Rightarrow> tg_prepared \<Rightarrow> int \<Rightarrow> tg_item list \<Rightarrow>
     stream_collector \<Rightarrow> (('s, 'd, 'c, 'm, 'u) tg_world, stream_collector) action" where
  "on_items R T U e s p turn [] col = give col"
| "on_items R T U e s p turn (x # xs) col = then_do (on_item R T U e s p turn x col) (on_items R T U e s p turn xs)"

text \<open>\<open>stream_turn\<close> always leaves with an exception, here the exception and the world.\<close>

definition raise_after :: "('w, 'a) action \<Rightarrow> turn_exn \<Rightarrow> 'w \<Rightarrow> turn_exn \<times> 'w" where
  "raise_after m x w = (case m w of (Inl y, w1) \<Rightarrow> (y, w1) | (Inr _, w1) \<Rightarrow> (x, w1))"

definition stale_stream ::
  "('s, 'x) redisz_scheme \<Rightarrow> ('c, 'm, 'd) tables \<Rightarrow> (upload_row, 'u) table \<Rightarrow> tg_env \<Rightarrow> chat_session \<Rightarrow> json \<Rightarrow> stream_collector \<Rightarrow>
     (('s, 'd, 'c, 'm, 'u) tg_world, unit) action" where
  "stale_stream R T U e s diagnostics col =
     then_do (change (act_of ''interrupt:tg_stale_turn_stream'')) (\<lambda>_.
     then_do (quarantine R e (te_thread e)) (\<lambda>_.
     then_do (if sc_buffer col \<noteq> [] \<or> sc_calls col \<noteq> [] \<or> sc_atts col \<noteq> []
              then persist_answer T U e s (sc_buffer col) (sc_atts col) (sc_calls col) True None else give ()) (\<lambda>_.
     then_do (transact e (change (emit_row THREAD_RESET (JObj [(''reason'', JStr ''stale_turn_stream''), (''diagnostics'', diagnostics)])))) (\<lambda>_.
     say e NoteHung))))"

definition tg_stream_turn ::
  "('s, 'x) redisz_scheme \<Rightarrow> ('c, 'm, 'd) tables \<Rightarrow> (upload_row, 'u) table \<Rightarrow> tg_env \<Rightarrow> chat_session \<Rightarrow> tg_prepared \<Rightarrow> int \<Rightarrow> tg_item list \<Rightarrow>
     tg_src \<Rightarrow> ('s, 'd, 'c, 'm, 'u) tg_world \<Rightarrow> turn_exn \<times> ('s, 'd, 'c, 'm, 'u) tg_world" where
  "tg_stream_turn R T U e s p turn items src w =
     (case on_items R T U e s p turn items new_collector w of
        (Inl x, w1) \<Rightarrow> (x, w1)
      | (Inr col, w1) \<Rightarrow>
          (case src of
             TsTerminal st code raw \<Rightarrow> (TxTerminal st code (Some raw), w1)
           | TsTimeout \<Rightarrow> (TxTimeout, act_of ''interrupt:tg_idle_timeout'' w1)
           | TsCancelled \<Rightarrow> (TxCancelled, w1)
           | TsRaises cls txt \<Rightarrow> (TxError cls txt, w1)
           | TsStale diagnostics \<Rightarrow>
               raise_after (stale_stream R T U e s diagnostics col)
                 (TxTerminal FAILED (Some (error_code_value TURN_TIMEOUT)) (Some ''stale-turn-notifications'')) w1
           | TsStop \<Rightarrow>
               raise_after
                 (if sc_done col then give ()
                  else then_do (if tp_voice p then give [] else with_bot (finalize_stream (te_bot e) (te_style e) (sc_buffer col)))
                    (\<lambda>committed. handle_dropped_stream T U e s p (sc_buffer col) (sc_atts col) (sc_calls col) committed))
                 (TxTerminal FAILED (Some (error_code_value STREAM_DROPPED)) (Some ''codex stream ended without done/error'')) w1))"

section \<open>The runner\<close>

definition on_timeout ::
  "('s, 'x) redisz_scheme \<Rightarrow> ('c, 'm, 'd) tables \<Rightarrow> tg_env \<Rightarrow> chat_session \<Rightarrow> (('s, 'd, 'c, 'm, 'u) tg_world, unit) action" where
  "on_timeout R T e s =
     then_do (emit_failure e (Some (error_code_value TURN_TIMEOUT)) (Some (te_idle e)) None) (\<lambda>_.
     then_do (auto_reset_thread R T e s) (\<lambda>_. say e NoteHung))"

definition on_unexpected :: "tg_env \<Rightarrow> string \<Rightarrow> string \<Rightarrow> (('s, 'd, 'c, 'm, 'u) tg_world, unit) action" where
  "on_unexpected e cls txt = then_do (say e (NoteFailed txt)) (\<lambda>_. emit_failure e None (Some txt) (Some cls))"

text \<open>Inside the locks. The result is how the \<open>with\<close> body ends; a normal end is the early return.\<close>

definition tg_locked_body ::
  "('s, 'x) redisz_scheme \<Rightarrow> ('c, 'm, 'd) tables \<Rightarrow> (upload_row, 'u) table \<Rightarrow> tg_env \<Rightarrow> chat_session \<Rightarrow> tg_prepared \<Rightarrow> int \<Rightarrow> tg_item list \<Rightarrow>
     tg_src \<Rightarrow> lock_outcome \<Rightarrow> (('s, 'd, 'c, 'm, 'u) tg_world, unit) action" where
  "tg_locked_body R T U e s p turn items src oc w =
     (if oc \<noteq> ACQUIRED then say e NoteBusy w
      else case te_opens e of
        Some (cls, txt) \<Rightarrow> (Inl (TxError cls txt), w)
      | None \<Rightarrow> (case tg_stream_turn R T U e s p turn items src w of (x, w1) \<Rightarrow> (Inl x, w1)))"

text \<open>The \<open>except\<close> clauses: the terminal status, its error, and how the clause itself ends.\<close>

definition tg_handle_end ::
  "('s, 'x) redisz_scheme \<Rightarrow> ('c, 'm, 'd) tables \<Rightarrow> tg_env \<Rightarrow> chat_session \<Rightarrow> lock_outcome \<Rightarrow> (turn_exn + unit) \<times> ('s, 'd, 'c, 'm, 'u) tg_world \<Rightarrow>
     (turn_status \<times> string option \<times> string option) \<times> (turn_exn + unit) \<times> ('s, 'd, 'c, 'm, 'u) tg_world" where
  "tg_handle_end R T e s oc rw =
     (case rw of
        (Inr _, w) \<Rightarrow> ((FAILED, Some (error_code_value TURN_BUSY), Some (''lock unavailable: '' @ outcome_value oc)), Inr (), w)
      | (Inl (TxTerminal st code detail), w) \<Rightarrow>
          ((st, if st = COMPLETED then None else code, if st = COMPLETED then None else detail), Inr (), w)
      | (Inl TxTimeout, w) \<Rightarrow> ((FAILED, Some (error_code_value TURN_TIMEOUT), Some (te_idle e)), on_timeout R T e s w)
      | (Inl TxCancelled, w) \<Rightarrow> ((CANCELLED, None, None), Inl TxCancelled, w)
      | (Inl (TxError cls txt), w) \<Rightarrow> ((FAILED, Some (error_code_value CODEX_ERROR), Some txt), on_unexpected e cls txt w))"

text \<open>The \<open>finally\<close> block: an exception in it replaces the one on its way.\<close>

definition tg_finalize ::
  "('c, 'm, 'd) tables \<Rightarrow> tg_env \<Rightarrow> int \<Rightarrow> turn_status \<times> string option \<times> string option \<Rightarrow> (turn_exn + unit) \<times> ('s, 'd, 'c, 'm, 'u) tg_world \<Rightarrow>
     (turn_exn + unit) \<times> ('s, 'd, 'c, 'm, 'u) tg_world" where
  "tg_finalize T e turn fin rw =
     (case transact e (change (on_web (\<lambda>W. W\<lparr>wb_w := finalize_tx (ta_turns T) turn (fst fin) (fst (snd fin)) (snd (snd fin))
             (rv_now (te_rpc e)) (wb_w W)\<rparr>))) ((snd rw)\<lparr>gw_task := False\<rparr>) of
        (Inl x, w1) \<Rightarrow> (Inl x, w1) | (Inr _, w1) \<Rightarrow> (fst rw, w1))"

definition run_locked ::
  "('s, 'x) redisz_scheme \<Rightarrow> ('c, 'm, 'd) tables \<Rightarrow> (upload_row, 'u) table \<Rightarrow> tg_env \<Rightarrow> chat_session \<Rightarrow> tg_prepared \<Rightarrow> int \<Rightarrow> tg_item list \<Rightarrow>
     tg_src \<Rightarrow> (('s, 'd, 'c, 'm, 'u) tg_world, unit) action" where
  "run_locked R T U e s p turn items src w =
     (case hold_enter R (te_acquire e) (te_read e) (cs_chat s) turn (srv (gw_web w)) of
        (oc, sv) \<Rightarrow>
          (case tg_locked_body R T U e s p turn items src oc (on_web (on_srv (\<lambda>_. sv)) (w\<lparr>gw_task := True\<rparr>)) of
             (r, w1) \<Rightarrow>
               (case tg_handle_end R T e s oc (r, on_web (on_srv (hold_exit R (te_unlock e) oc (cs_chat s) turn)) w1) of
                  (fin, rw) \<Rightarrow> tg_finalize T e turn fin rw)))"

section \<open>A turn that is already active\<close>

definition caught_action :: "control \<Rightarrow> turn_exn + bool" where
  "caught_action r =
     (case r of
        Accepted \<Rightarrow> Inr True
      | Declined \<Rightarrow> Inr False
      | StaleTurn expected actual \<Rightarrow> Inl (TxError ''StaleSidecarTurnError'' (''sidecar active turn mismatch: expected '' @ expected @ '', found '' @ actual))
      | ControlRaised x \<Rightarrow> if control_caught x then Inr False else Inl (TxError ''Exception'' []))"

definition steer_message :: "tg_env \<Rightarrow> string \<Rightarrow> string" where
  "steer_message e txt = te_say e NoteSteered @ ''<blockquote expandable>'' @ tg_escape txt @ ''</blockquote>''"

definition steer_in ::
  "('s, 'x) redisz_scheme \<Rightarrow> ('c, 'm, 'd) tables \<Rightarrow> tg_env \<Rightarrow> chat_session \<Rightarrow> tg_prepared \<Rightarrow> turn_row \<Rightarrow> string \<Rightarrow>
     (('s, 'd, 'c, 'm, 'u) tg_world, bool) action" where
  "steer_in R T e s p turn codex_turn =
     (if tp_text p = [] then give False
      else then_do (\<lambda>w. (caught_action (rv_steer (te_rpc e)), w)) (\<lambda>accepted.
        if \<not> accepted then give False
        else then_do (change (on_web (on_srv (note_steer R (rv_note (te_rpc e)) (rv_steer_ttl (te_rpc e)) (cs_chat s) codex_turn)))) (\<lambda>_.
             then_do (persist_user_turn T e s p) (\<lambda>_.
             then_do (change (on_web (on_srv (bump_steer_count R (rv_bump (te_rpc e)) (rv_bump_ttl (te_rpc e)) (rv_steer_ttl (te_rpc e)) (t_id turn))))) (\<lambda>_.
             then_do (answer_html e (steer_message e (tp_text p))) (\<lambda>_. give True))))))"

text \<open>True: the message is dealt with. False: there is no active turn, or it was interrupted.\<close>

definition handle_active_tg_turn ::
  "('s, 'x) redisz_scheme \<Rightarrow> ('c, 'm, 'd) tables \<Rightarrow> tg_env \<Rightarrow> chat_session \<Rightarrow> tg_prepared \<Rightarrow> (('s, 'd, 'c, 'm, 'u) tg_world, bool) action" where
  "handle_active_tg_turn R T e s p w =
     (case get_active_for_chat (ta_turns T) (cs_chat s) (rw_db (wb_w (gw_web w))) of
        None \<Rightarrow> (Inr False, w)
      | Some turn \<Rightarrow>
          (case reconcile_if_stale R (ta_turns T) (rv_orphan (te_rpc e)) (rv_now (te_rpc e)) turn (wb_w (gw_web w)) of
             (True, ww) \<Rightarrow> (Inr False, on_web (\<lambda>W. W\<lparr>wb_w := ww\<rparr>) w)
           | (False, ww) \<Rightarrow>
               (case t_codex_turn turn of
                  None \<Rightarrow> then_do (say e NoteStarting) (\<lambda>_. give True)
                | Some codex_turn \<Rightarrow>
                    if tp_attachments p \<noteq> [] \<or> tp_uploads p \<noteq> [] \<or> tp_reply p \<noteq> None
                    then then_do (say e NoteFinishing) (\<lambda>_. give True)
                    else then_do (steer_in R T e s p turn codex_turn) (\<lambda>steered.
                      if steered then give True
                      else then_do (\<lambda>w. (caught_action (send_interrupt (te_rpc e) turn), w)) (\<lambda>interrupted.
                        if interrupted then give False else then_do (say e NoteFinishing) (\<lambda>_. give True))))
                 (on_web (\<lambda>W. W\<lparr>wb_w := ww\<rparr>) w)))"

section \<open>A message\<close>

definition create_tg_turn ::
  "('c, 'm, 'd) tables \<Rightarrow> tg_env \<Rightarrow> chat_session \<Rightarrow> int \<Rightarrow> (('s, 'd, 'c, 'm, 'u) tg_world, turn_row option) action" where
  "create_tg_turn T e s msg w =
     (case try_create_starting (ta_turns T) \<lparr>tc_chat = cs_chat s, tc_user = cs_user s, tc_user_msg = msg,
             tc_sidecar = (if cs_admin s then AdminSidecar else GuestSidecar)\<rparr> (rv_now (te_rpc e)) (open_session (rw_db (wb_w (gw_web w)))) of
        (None, _) \<Rightarrow> (Inr None, w)
      | (Some turn, ses) \<Rightarrow> transact e (then_do (change (on_web (on_turns (\<lambda>_. ses)))) (\<lambda>_. give (Some turn))) w)"

definition start_reporter :: "('s, 'd, 'c, 'm, 'u) tg_world \<Rightarrow> ('s, 'd, 'c, 'm, 'u) tg_world" where
  "start_reporter w = w\<lparr>gw_rep := new_reporter (tg_chat.truncate (gw_rep w))\<rparr>"

text \<open>From the reservation on: the body of the \<open>try\<close>.\<close>

definition tg_turn_body ::
  "('s, 'x) redisz_scheme \<Rightarrow> ('c, 'm, 'd) tables \<Rightarrow> (upload_row, 'u) table \<Rightarrow> tg_env \<Rightarrow> chat_session \<Rightarrow> tg_prepared \<Rightarrow> tg_item list \<Rightarrow> tg_src \<Rightarrow>
     (('s, 'd, 'c, 'm, 'u) tg_world, unit) action" where
  "tg_turn_body R T U e s p items src =
     then_do (handle_active_tg_turn R T e s p) (\<lambda>dealt.
       if dealt then give ()
       else then_do (persist_user_turn T e s p) (\<lambda>msg.
         then_do (create_tg_turn T e s msg) (\<lambda>made.
           case made of
             None \<Rightarrow> say e NoteBusy
           | Some turn \<Rightarrow> (\<lambda>w. (case run_locked R T U e s p (t_id turn) items src (start_reporter w) of
               (r, w1) \<Rightarrow> (r, w1\<lparr>gw_rep := stop_reporter (te_bot e) (gw_rep w1)\<rparr>))))))"

datatype prepare_result = Prepared tg_prepared | UploadTooLarge int | PrepareFailed turn_exn

record tg_message =
  tm_user :: int
  tm_chat :: int
  tm_topic :: "int option"
  tm_name :: "string option"

text \<open>With the session open and the user known: the reservation and what it guards.\<close>

definition tg_reserved ::
  "('s, 'x) redisz_scheme \<Rightarrow> ('c, 'm, 'd) tables \<Rightarrow> (upload_row, 'u) table \<Rightarrow> runtime_settings \<Rightarrow> tg_env \<Rightarrow> user_row \<Rightarrow> chat_session \<Rightarrow>
     tg_prepared \<Rightarrow> tg_item list \<Rightarrow> tg_src \<Rightarrow> (('s, 'd, 'c, 'm, 'u) tg_world, unit) action" where
  "tg_reserved R T U S e u s p items src w =
     (case reserve_turn R S (rv_reserve (te_rpc e)) (rv_clock (te_rpc e)) u (srv (gw_web w)) of
        (Inl (RateLimited _ scope limit), sv) \<Rightarrow> answer_html e (te_say e (NoteLimited scope limit)) (on_web (on_srv (\<lambda>_. sv)) w)
      | (Inl RedisFailed, sv) \<Rightarrow> (Inl (TxError ''RedisError'' []), on_web (on_srv (\<lambda>_. sv)) w)
      | (Inr _, sv) \<Rightarrow>
          (case tg_turn_body R T U e s p items src (on_web (on_srv (\<lambda>_. sv)) w) of
             (r, w1) \<Rightarrow>
               (case release_turn R (rv_release (te_rpc e)) (rv_release_del (te_rpc e)) u (srv (gw_web w1)) of
                  (good, sv1) \<Rightarrow> (if good then r else Inl (TxError ''RedisError'' []), on_web (on_srv (\<lambda>_. sv1)) w1))))"

text \<open>\<open>handle\<close>: the user and the chat, the preparation of the message, the session, the turn.\<close>

definition tg_handle ::
  "('s, 'x) redisz_scheme \<Rightarrow> (user_row, 'v) table \<Rightarrow> ('c, 'm, 'd) tables \<Rightarrow> (upload_row, 'u) table \<Rightarrow> runtime_settings \<Rightarrow> int list \<Rightarrow> tg_env \<Rightarrow>
     tg_message \<Rightarrow> (int option \<Rightarrow> prepare_result) \<Rightarrow> tg_item list \<Rightarrow> tg_src \<Rightarrow>
     ('s, 'd, 'c, 'm, 'u) tg_world \<times> tg_key session_store \<times> 'v \<Rightarrow>
     (turn_exn + unit) option \<times> ('s, 'd, 'c, 'm, 'u) tg_world \<times> tg_key session_store \<times> 'v" where
  "tg_handle R V T U S admins e m prepare items src W =
     (case W of (w, so, dv) \<Rightarrow>
       (case get_or_create_by_tg V admins (tm_user m) (tm_name m) dv of
          None \<Rightarrow> (Some (Inl (TxError ''IntegrityError'' [])), W)
        | Some (u, dv1) \<Rightarrow>
            (case get_or_create_for_tg (ta_chats T) (u_id u) (tm_chat m) (tm_topic m) (rv_now (te_rpc e)) (wb_chats (gw_web w)) of
               None \<Rightarrow> (Some (Inl (TxError ''IntegrityError'' [])), W)
             | Some (c, dc) \<Rightarrow>
                 let w1 = on_web (\<lambda>x. x\<lparr>wb_chats := dc\<rparr>) w in
                 (case prepare (max_upload_bytes S (user_kind_of u)) of
                    UploadTooLarge limit \<Rightarrow>
                      (case answer_html e (te_say e (NoteTooLarge (limit div (1024 * 1024)))) w1 of (r, w2) \<Rightarrow> (Some r, w2, so, dv1))
                  | PrepareFailed x \<Rightarrow> (Some (Inl x), w1, so, dv1)
                  | Prepared p \<Rightarrow>
                      if tp_text p = [] \<and> tp_attachments p = [] then (Some (Inr ()), w1, so, dv1)
                      else (case tg_get_or_open V (ta_chats T) admins (rv_now (te_rpc e)) (tm_chat m, tm_topic m) (tm_user m) (tm_name m)
                                   (so, dv1, wb_chats (gw_web w1)) of
                              (None, so1, dv2, dc2) \<Rightarrow> (None, on_web (\<lambda>x. x\<lparr>wb_chats := dc2\<rparr>) w1, so1, dv2)
                            | (Some (Inl x), so1, dv2, dc2) \<Rightarrow>
                                (Some (Inl (TxError x [])), on_web (\<lambda>x. x\<lparr>wb_chats := dc2\<rparr>) w1, so1, dv2)
                            | (Some (Inr (_, s)), so1, dv2, dc2) \<Rightarrow>
                                (case tg_reserved R T U S e u s p items src (on_web (\<lambda>x. x\<lparr>wb_chats := dc2\<rparr>) w1) of
                                   (r, w2) \<Rightarrow> (Some r, w2, so1, dv2))))))) "

section \<open>The stop button\<close>

text \<open>
  The running turn is the one of \<open>run_locked\<close> with the same arguments, cancelled while it waits
  for the next event: awaiting the cancelled task runs its \<open>finally\<close> blocks to the end.
\<close>

definition finish_cancelled ::
  "('s, 'x) redisz_scheme \<Rightarrow> ('c, 'm, 'd) tables \<Rightarrow> tg_env \<Rightarrow> chat_session \<Rightarrow> int \<Rightarrow> ('s, 'd, 'c, 'm, 'u) tg_world \<Rightarrow> ('s, 'd, 'c, 'm, 'u) tg_world" where
  "finish_cancelled R T e s turn w =
     (case tg_handle_end R T e s ACQUIRED (Inl TxCancelled, on_web (on_srv (hold_exit R (te_unlock e) ACQUIRED (cs_chat s) turn)) w) of
        (fin, rw) \<Rightarrow> snd (tg_finalize T e turn fin rw))"

definition cancel_turn ::
  "('s, 'x) redisz_scheme \<Rightarrow> ('c, 'm, 'd) tables \<Rightarrow> tg_env \<Rightarrow> chat_session \<Rightarrow> int \<Rightarrow> (('s, 'd, 'c, 'm, 'u) tg_world, bool) action" where
  "cancel_turn R T e s running w =
     (let found = get_active_for_chat (ta_turns T) (cs_chat s) (rw_db (wb_w (gw_web w)));
          w0 = (case found of
                  Some turn \<Rightarrow> if t_codex_turn turn \<noteq> None \<and> t_thread turn \<noteq> None then act_of ''interrupt:stop'' w else w
                | None \<Rightarrow> w)
      in if \<not> gw_task w0 then (Inr False, w0)
         else let w1 = (finish_cancelled R T e s running w0)\<lparr>gw_task := False\<rparr> in
           (case found of
              None \<Rightarrow> (Inr True, w1)
            | Some turn \<Rightarrow>
                (case finalize_once (ta_turns T) (t_id turn) CANCELLED (Some ''user_cancelled'') None (rv_now (te_rpc e))
                        (open_session (rw_db (wb_w (gw_web w1)))) of
                   Inl _ \<Rightarrow> (Inl (TxError ''ValueError'' []), w1)
                 | Inr (won, ses) \<Rightarrow>
                     transact e (then_do (change (on_web (on_turns (\<lambda>_. ses)))) (\<lambda>_.
                       then_do (if won then change (emit_row TURN_INTERRUPTED JNull) else give ()) (\<lambda>_. give True))) w1)))"

end
