(* ===== verification/Tg_Safety.thy ===== *)
theory Tg_Safety
  imports Tg_Turn
begin

text \<open>
  What a Telegram turn leaves behind. A calculus of preservation walks through the actions once:
  the locale states what a property of the tables and Redis has to survive, the steps a turn can
  take, and its lemma says that the whole turn keeps it. It is used for the row of the turn, the
  lock of the chat and the rate-limit slot of the user.
\<close>

section \<open>Preservation\<close>

named_theorems kept "actions that keep a property"

definition keeps :: "('w \<Rightarrow> bool) \<Rightarrow> ('w, 'a) action \<Rightarrow> bool" where
  "keeps P m \<longleftrightarrow> (\<forall>w. P w \<longrightarrow> P (snd (m w)))"

lemma keepsD: "keeps P m \<Longrightarrow> P w \<Longrightarrow> P (snd (m w))"
  by (simp add: keeps_def)

lemma keeps_then [kept]: "keeps P m \<Longrightarrow> (\<And>a. keeps P (f a)) \<Longrightarrow> keeps P (then_do m f)"
  by (fastforce simp: keeps_def then_do_def split: prod.splits sum.splits)

lemma keeps_give [kept]: "keeps P (give a)" "keeps P (fail_with x)"
  by (simp_all add: keeps_def give_def fail_with_def)

lemma keeps_if [kept]: "keeps P m \<Longrightarrow> keeps P n \<Longrightarrow> keeps P (if b then m else n)"
  by simp

lemma keeps_change [kept]: "(\<And>w. P w \<Longrightarrow> P (f w)) \<Longrightarrow> keeps P (change f)"
  by (simp add: keeps_def change_def)

lemma keeps_pure [kept]: "keeps P (\<lambda>w. (r, w))"
  by (simp add: keeps_def)

lemma keeps_ask: "(\<And>w. keeps P (m w)) \<Longrightarrow> keeps P (\<lambda>w. m w w)"
  by (simp add: keeps_def)

lemma keeps_bot [kept]: "keeps (\<lambda>w. Q (gw_web w)) (with_bot m)"
  by (auto simp: keeps_def with_bot_def split: prod.splits sum.splits)

lemma keeps_transact [kept]:
  assumes "keeps (\<lambda>w :: ('s, 'd, 'c, 'm, 'u) tg_world. Q (gw_web w)) f"
  shows "keeps (\<lambda>w. Q (gw_web w)) (transact e f)"
  unfolding keeps_def
proof (intro allI impI)
  fix w :: "('s, 'd, 'c, 'm, 'u) tg_world" assume q: "Q (gw_web w)"
  let ?w1 = "w\<lparr>gw_tick := Suc (gw_tick w)\<rparr>"
  have "Q (gw_web (snd (f ?w1)))" using assms q by (simp add: keeps_def)
  then show "Q (gw_web (snd (transact e f w)))" using q
    by (cases "f ?w1"; cases "fst (f ?w1)") (auto simp: transact_def Let_def)
qed

lemma answer_kept [kept]: "keeps (\<lambda>w. Q (gw_web w)) (answer_html e html)"
  unfolding answer_html_def by (rule keeps_bot)

lemma say_kept [kept]: "keeps (\<lambda>w. Q (gw_web w)) (say e n)"
  unfolding say_def by (rule answer_kept)

lemma send_kept [kept]: "keeps (\<lambda>w. Q (gw_web w)) (send_answer e p final atts committed)"
  unfolding send_answer_def by (rule keeps_bot)

lemma store_attachments_kept [kept]: "keeps (\<lambda>w. Q (gw_web w)) (store_attachments U e s atts)"
  by (auto simp: keeps_def store_attachments_def split: prod.splits)

locale tg_kept =
  fixes R :: "('s, 'x) redisz_scheme" and T :: "('c, 'm, 'd) tables" and s :: chat_session and turn :: int
    and Q :: "('s, 'd, 'c, 'm) web \<Rightarrow> bool"
  assumes q_quarantine: "Q W \<Longrightarrow> Q (on_srv (quarantine_thread R f thr) W)"
    and q_journal: "Q W \<Longrightarrow> Q (W\<lparr>wb_events := evs\<rparr>)"
    and q_store: "Q W \<Longrightarrow> Q (W\<lparr>wb_chats := dc, wb_msgs := dm\<rparr>)"
    and q_attach: "Q W \<Longrightarrow> Q (on_turns (attach_assistant_message (ta_turns T) turn m) W)"
    and q_running: "Q W \<Longrightarrow> Q (on_turns (\<lambda>ses. snd (mark_running (ta_turns T) turn th ct now ses)) W)"
    and q_beat: "Q W \<Longrightarrow> Q (W\<lparr>wb_w := snd (heartbeat_round R (ta_turns T) f Fine turn (cs_chat s) None now (wb_w W))\<rparr>)"
begin

lemma append_kept [kept]: "keeps (\<lambda>w. Q (gw_web w)) (append_row T chat role txt meta now)"
  by (auto simp: keeps_def append_row_def on_web_def q_store split: option.splits)

lemma emit_kept [kept]: "Q (gw_web w) \<Longrightarrow> Q (gw_web (emit_row k payload w))"
  by (simp add: emit_row_def on_web_def q_journal)

lemma persist_answer_kept [kept]: "t = None \<or> t = Some turn \<Longrightarrow> keeps (\<lambda>w. Q (gw_web w)) (persist_answer T U e s txt atts calls partial t)"
  unfolding persist_answer_def
  by (intro kept) (auto simp: on_web_def q_attach intro: emit_kept)

lemma failure_kept [kept]: "keeps (\<lambda>w. Q (gw_web w)) (emit_failure e code detail exc)"
  unfolding emit_failure_def by (intro kept emit_kept)

lemma quarantine_kept [kept]: "keeps (\<lambda>w. Q (gw_web w)) (quarantine R e th)"
  unfolding quarantine_def by (intro kept) (simp add: on_web_def q_quarantine)

lemma reset_kept [kept]: "keeps (\<lambda>w. Q (gw_web w)) (auto_reset_thread R T e s)"
  unfolding auto_reset_thread_def Let_def by (rule keeps_ask) (intro kept emit_kept)

lemma done_kept [kept]: "keeps (\<lambda>w. Q (gw_web w)) (handle_done T U e s p final atts calls committed turn)"
  unfolding handle_done_def handle_empty_response_def by (intro kept) simp

lemma dropped_kept [kept]: "keeps (\<lambda>w. Q (gw_web w)) (handle_dropped_stream T U e s p buffer atts calls committed)"
  unfolding handle_dropped_stream_def Let_def by (intro kept) simp

lemma event_kept [kept]: "keeps (\<lambda>w. Q (gw_web w)) (on_chat_event T U e s p turn ev now later col)"
  unfolding on_chat_event_def Let_def by (cases ev) (auto intro!: kept)

lemma item_kept [kept]: "keeps (\<lambda>w. Q (gw_web w)) (on_item R T U e s p turn x col)"
proof (cases x)
  case (TiStarted ct th)
  show ?thesis unfolding on_item_def TiStarted tg_item.case by (intro kept) (simp add: on_web_def q_running)
next
  case (TiEvent ev now later)
  show ?thesis unfolding on_item_def TiEvent tg_item.case by (intro kept) simp
next
  case (TiTick now later acted)
  show ?thesis unfolding on_item_def TiTick tg_item.case by (intro kept) simp
next
  case (TiBeat f now)
  show ?thesis unfolding on_item_def TiBeat tg_item.case by (intro kept) (simp add: on_web_def q_beat)
qed

lemma items_kept [kept]: "keeps (\<lambda>w. Q (gw_web w)) (on_items R T U e s p turn xs col)"
  by (induction xs arbitrary: col) (auto intro!: kept)

lemma raise_kept: "keeps (\<lambda>w. Q (gw_web w)) m \<Longrightarrow> Q (gw_web w) \<Longrightarrow> Q (gw_web (snd (raise_after m x w)))"
  by (cases "m w"; cases "fst (m w)") (auto simp: raise_after_def dest: keepsD [where w = w])

lemma stale_kept [kept]: "keeps (\<lambda>w. Q (gw_web w)) (stale_stream R T U e s diagnostics col)"
  unfolding stale_stream_def by (intro kept emit_kept) (auto simp: act_of_def)

lemma stream_kept:
  assumes "Q (gw_web w)"
  shows "Q (gw_web (snd (tg_stream_turn R T U e s p turn items src w)))"
proof -
  obtain r w1 where i: "on_items R T U e s p turn items new_collector w = (r, w1)" by (metis surj_pair)
  with items_kept [of U e p items new_collector] assms have q: "Q (gw_web w1)" by (metis keepsD snd_conv)
  show ?thesis
  proof (cases r)
    case (Inl x)
    with i q show ?thesis by (simp add: tg_stream_turn_def)
  next
    case (Inr col)
    have "keeps (\<lambda>w. Q (gw_web w)) (if sc_done col then give ()
        else then_do (if tp_voice p then give [] else with_bot (finalize_stream (te_bot e) (te_style e) (sc_buffer col)))
          (\<lambda>committed. handle_dropped_stream T U e s p (sc_buffer col) (sc_atts col) (sc_calls col) committed))" by (intro kept)
    with i q Inr raise_kept [OF stale_kept q] raise_kept [OF this q] show ?thesis
      by (cases src) (simp_all add: tg_stream_turn_def act_of_def)
  qed
qed

lemma body_kept:
  assumes "Q (gw_web w)"
  shows "Q (gw_web (snd (tg_locked_body R T U e s p turn items src oc w)))"
  using assms stream_kept [OF assms, of U e p items src]
    keepsD [where P = "\<lambda>w. Q (gw_web w)" and m = "say e NoteBusy" and w = w, OF say_kept assms]
  by (cases "tg_stream_turn R T U e s p turn items src w"; cases "te_opens e") (auto simp: tg_locked_body_def)

lemma end_kept:
  assumes "Q (gw_web w)"
  shows "Q (gw_web (snd (snd (tg_handle_end R T e s oc (r, w)))))"
proof -
  have "keeps (\<lambda>w. Q (gw_web w)) (on_timeout R T e s)" unfolding on_timeout_def by (intro kept)
  moreover have "keeps (\<lambda>w. Q (gw_web w)) (on_unexpected e cls m)" for cls m unfolding on_unexpected_def by (intro kept)
  ultimately show ?thesis using assms
    by (auto simp: tg_handle_end_def keeps_def split: sum.splits turn_exn.splits)
qed

end

section \<open>The row of the turn\<close>

locale tg_row = turn_db "ta_turns T" ok
  for T :: "('c, 'm, 'd) tables" and ok :: "'d \<Rightarrow> bool" +
  fixes R :: "('s, 'x) redisz_scheme" and s :: chat_session and turn :: int
begin

definition has_row :: "'d \<Rightarrow> bool" where
  "has_row d \<longleftrightarrow> ok d \<and> tb_view (ta_turns T) d turn \<noteq> None"

lemma on_turns_row:
  assumes "ok (s_db (f (open_session (rw_db (wb_w W)))))"
    and "tb_view (ta_turns T) (s_db (f (open_session (rw_db (wb_w W))))) turn \<noteq> None"
  shows "has_row (rw_db (wb_w (on_turns f W)))"
  using assms by (simp add: on_turns_def commit_def has_row_def)

lemma attach_row: "has_row (rw_db (wb_w W)) \<Longrightarrow> has_row (rw_db (wb_w (on_turns (attach_assistant_message (ta_turns T) turn m) W)))"
  using attach_spec(1,2) [of "open_session (rw_db (wb_w W))" turn m]
  by (intro on_turns_row) (auto simp: has_row_def split: option.splits)

lemma running_row: "has_row (rw_db (wb_w W)) \<Longrightarrow>
    has_row (rw_db (wb_w (on_turns (\<lambda>ses. snd (mark_running (ta_turns T) turn thr ct now ses)) W)))"
  using mark_running_spec(1,3) [of "open_session (rw_db (wb_w W))" turn thr ct now]
  by (intro on_turns_row) (auto simp: has_row_def split: option.splits)

lemma beat_row: "has_row (rw_db w) \<Longrightarrow> has_row (rw_db (snd (heartbeat_round R (ta_turns T) f g turn c h now w)))"
  using heartbeat_spec(1,3) [of "open_session (rw_db w)" turn now]
  by (auto simp: has_row_def heartbeat_round_def commit_def Let_def split: prod.splits option.splits)

lemma final_ok:
  assumes "ok (rw_db w)" "terminal st"
  shows "ok (rw_db (finalize_tx (ta_turns T) i st code detail now w))"
proof -
  have o: "ok (s_db (open_session (rw_db w)))" using assms(1) by simp
  obtain won s' where "finalize_once (ta_turns T) i st code detail now (open_session (rw_db w)) = Inr (won, s')" "ok (s_db s')"
    by (rule finalize_spec [OF o assms(2), of i code detail now])
  then show ?thesis by (simp add: finalize_tx_def commit_def)
qed

lemma final_row:
  assumes "has_row (rw_db w)" "terminal st"
  shows "\<exists>r. tb_view (ta_turns T) (rw_db (finalize_tx (ta_turns T) turn st code detail now w)) turn = Some r \<and> terminal (t_status r)"
proof -
  have o: "ok (s_db (open_session (rw_db w)))" using assms(1) by (simp add: has_row_def)
  obtain won s' where f: "finalize_once (ta_turns T) turn st code detail now (open_session (rw_db w)) = Inr (won, s')"
    and v: "tb_view (ta_turns T) (s_db s') = (case tb_view (ta_turns T) (rw_db w) turn of
         Some r \<Rightarrow> if is_active r then (tb_view (ta_turns T) (rw_db w))(turn \<mapsto> r\<lparr>t_status := st, t_error_code := code,
             t_error_detail := detail, t_completed := Some now\<rparr>) else tb_view (ta_turns T) (rw_db w)
       | None \<Rightarrow> tb_view (ta_turns T) (rw_db w))"
    by (rule finalize_spec [OF o assms(2), of turn code detail now, unfolded open_session_simps append_Nil])
  obtain r where r: "tb_view (ta_turns T) (rw_db w) turn = Some r" using assms(1) by (auto simp: has_row_def)
  show ?thesis using assms(2) v r by (cases "is_active r") (auto simp: finalize_tx_def f commit_def terminal_iff_not_active)
qed

end

sublocale tg_row \<subseteq> row: tg_kept R T s turn "\<lambda>W. has_row (rw_db (wb_w W))"
  by unfold_locales (simp_all add: attach_row running_row beat_row)

section \<open>The lock of the chat\<close>

locale tg_lock = zset_laws R for R :: "('s, 'x) redisz_scheme" +
  fixes T :: "('c, 'm, 'd) tables" and s :: chat_session and turn :: int
begin

definition not_ours :: "'s \<Rightarrow> bool" where
  "not_ours v \<longleftrightarrow> map_option fst (rd_view R v (active_key (cs_chat s))) \<noteq> Some (str_of_int turn)"

lemma quarantine_lock: "not_ours v \<Longrightarrow> not_ours (quarantine_thread R f thr v)"
proof -
  have "rd_view R (snd (rx_set R (quarantine_key q) b t v)) (active_key c) = rd_view R v (active_key c)" for q b t c
    by (simp add: x_set quarantine_key_def active_key_def)
  then show "not_ours v \<Longrightarrow> ?thesis" by (cases f) (auto simp: quarantine_thread_def not_ours_def split_beta)
qed

lemma beat_lock: "not_ours (l_srv (rw_lease w)) \<Longrightarrow>
    not_ours (l_srv (rw_lease (snd (heartbeat_round R (ta_turns T) f Fine turn (cs_chat s) None now w))))"
  by (auto simp: not_ours_def heartbeat_round_def heartbeat_active_def Let_def split_beta call_view views)

lemma enter_lock:
  assumes "not_ours v" "hold_enter R Fine g (cs_chat s) turn v = (oc, v1)"
  shows "oc = ACQUIRED \<or> not_ours v1"
  using assms by (auto simp: not_ours_def hold_enter_def try_acquire_active_def active_lock_value_def split_beta Let_def call_view
      replies views split: if_splits option.splits)

lemma exit_lock: "oc = ACQUIRED \<or> not_ours v \<Longrightarrow> not_ours (hold_exit R Fine oc (cs_chat s) turn v)"
  by (cases oc) (auto simp: not_ours_def hold_exit_def release_active_def split_beta views)

end

sublocale tg_lock \<subseteq> lock: tg_kept R T s turn "\<lambda>W. not_ours (srv W)"
  by unfold_locales (simp_all add: quarantine_lock beat_lock on_turns_def commit_def)

section \<open>The exceptions of a turn\<close>

text \<open>Every \<open>CodexTurnTerminal\<close> carries a terminal status.\<close>

named_theorems raised "actions that raise only what is final"

fun final_exn :: "turn_exn \<Rightarrow> bool" where
  "final_exn (TxTerminal st _ _) = terminal st"
| "final_exn _ = True"

definition raises_final :: "('w, 'a) action \<Rightarrow> bool" where
  "raises_final m \<longleftrightarrow> (\<forall>w x. fst (m w) = Inl x \<longrightarrow> final_exn x)"

lemma raises_finalD: "raises_final m \<Longrightarrow> m w = (Inl x, w1) \<Longrightarrow> final_exn x"
  unfolding raises_final_def by (metis fst_conv)

lemma raises_finalI: "(\<And>w x w1. m w = (Inl x, w1) \<Longrightarrow> final_exn x) \<Longrightarrow> raises_final m"
  unfolding raises_final_def by (metis surjective_pairing)

lemma raises_then [raised]: "raises_final m \<Longrightarrow> (\<And>a. raises_final (f a)) \<Longrightarrow> raises_final (then_do m f)"
  by (rule raises_finalI) (auto simp: then_do_def dest: raises_finalD split: prod.splits sum.splits)

lemma raises_plain [raised]: "raises_final (give a)" "raises_final (change f)" "raises_final (\<lambda>w. (Inr b, g w))"
  by (simp_all add: raises_final_def give_def change_def)

lemma raises_fail [raised]: "final_exn x \<Longrightarrow> raises_final (fail_with x)"
  by (simp add: raises_final_def fail_with_def)

lemma raises_if [raised]: "raises_final m \<Longrightarrow> raises_final n \<Longrightarrow> raises_final (if b then m else n)"
  by simp

lemma raises_ask: "(\<And>w. raises_final (m w)) \<Longrightarrow> raises_final (\<lambda>w. m w w)"
  by (simp add: raises_final_def)

lemma raises_bot [raised]: "raises_final (with_bot m)"
  by (auto simp: raises_final_def with_bot_def bot_exn_def split: prod.splits sum.splits tg_exn.splits)

lemma raises_transact [raised]: "raises_final f \<Longrightarrow> raises_final (transact e f)"
  by (rule raises_finalI) (auto simp: transact_def Let_def dest: raises_finalD split: prod.splits sum.splits if_splits)

lemma raises_bottom [raised]:
  "raises_final (say e n)" "raises_final (answer_html e html)" "raises_final (send_answer e p final atts committed)"
  "raises_final (append_row T chat role body meta now)" "raises_final (store_attachments U e s atts)"
proof -
  show "raises_final (append_row T chat role body meta now)" "raises_final (store_attachments U e s atts)"
    by (auto simp: raises_final_def append_row_def store_attachments_def split: option.splits prod.splits)
qed (simp_all add: say_def answer_html_def send_answer_def raises_bot)

lemma raises_middle [raised]:
  "raises_final (persist_answer T U e s body atts calls partial t)" "raises_final (emit_failure e code detail exc)"
  "raises_final (quarantine R e thread)"
  unfolding persist_answer_def emit_failure_def quarantine_def by (intro raised)+

lemma raises_outcomes [raised]:
  "raises_final (handle_done T U e s p final atts calls committed turn)"
  "raises_final (handle_dropped_stream T U e s p buffer atts calls committed)"
  unfolding handle_done_def handle_empty_response_def handle_dropped_stream_def Let_def by (intro raised)+

lemma raises_event [raised]: "raises_final (on_chat_event T U e s p turn ev now later col)"
  unfolding on_chat_event_def Let_def by (cases ev) (auto intro!: raised simp: terminal_statuses_def)

lemma raises_item [raised]: "raises_final (on_item R T U e s p turn x col)"
  unfolding on_item_def by (cases x) (auto intro!: raised)

lemma raises_items: "raises_final (on_items R T U e s p turn xs col)"
  by (induction xs arbitrary: col) (auto intro!: raised)

lemma raise_after_final: "raises_final m \<Longrightarrow> final_exn x \<Longrightarrow> final_exn (fst (raise_after m x w))"
  by (cases "m w"; cases "fst (m w)") (auto simp: raise_after_def dest: raises_finalD)

lemma stale_final [raised]: "raises_final (stale_stream R T U e s diagnostics col)"
  unfolding stale_stream_def by (intro raised)

definition src_final :: "tg_src \<Rightarrow> bool" where
  "src_final src = (case src of TsTerminal st _ _ \<Rightarrow> terminal st | _ \<Rightarrow> True)"

lemma stream_final:
  assumes "src_final src"
  shows "final_exn (fst (tg_stream_turn R T U e s p turn items src w))"
proof (cases "fst (on_items R T U e s p turn items new_collector w)")
  case (Inl x)
  with raises_finalD [OF raises_items, of R T U e s p turn items new_collector w] show ?thesis
    by (auto simp: tg_stream_turn_def split: prod.splits sum.splits)
next
  case (Inr col)
  have f: "final_exn (TxTerminal FAILED c t)" for c t by (simp add: terminal_statuses_def)
  have d: "raises_final (if sc_done col then give ()
        else then_do (if tp_voice p then give [] else with_bot (finalize_stream (te_bot e) (te_style e) (sc_buffer col)))
          (\<lambda>committed. handle_dropped_stream T U e s p (sc_buffer col) (sc_atts col) (sc_calls col) committed))" by (intro raised)
  from assms Inr f raise_after_final [OF d f] raise_after_final [OF stale_final f] show ?thesis
    by (cases "on_items R T U e s p turn items new_collector w"; cases src)
      (simp_all add: tg_stream_turn_def src_final_def split del: if_split)
qed

lemma handled_final:
  assumes "src_final src" "tg_locked_body R T U e s p turn items src oc w = (r, w1)"
  shows "terminal (fst (fst (tg_handle_end R T e s oc (r, w2))))"
proof -
  have "final_exn x" if "r = Inl x" for x
    using assms(2) that stream_final [OF assms(1), of R T U e s p turn items w] raises_finalD [OF raises_bottom(1), of e NoteBusy w]
    by (auto simp: tg_locked_body_def split: if_splits option.splits prod.splits)
  then show ?thesis
    by (auto simp: tg_handle_end_def terminal_statuses_def split: sum.splits turn_exn.splits)
qed

section \<open>The whole turn\<close>

lemma run_locked_parts:
  assumes "run_locked R T U e s p turn items src w = (res, w')"
  obtains oc sv r w1 w2 fin rr w3 where
    "hold_enter R (te_acquire e) (te_read e) (cs_chat s) turn (srv (gw_web w)) = (oc, sv)"
    "tg_locked_body R T U e s p turn items src oc (on_web (on_srv (\<lambda>_. sv)) (w\<lparr>gw_task := True\<rparr>)) = (r, w1)"
    "w2 = on_web (on_srv (hold_exit R (te_unlock e) oc (cs_chat s) turn)) w1"
    "tg_handle_end R T e s oc (r, w2) = (fin, rr, w3)"
    "tg_finalize T e turn fin (rr, w3) = (res, w')"
proof -
  obtain oc sv where h: "hold_enter R (te_acquire e) (te_read e) (cs_chat s) turn (srv (gw_web w)) = (oc, sv)" by fastforce
  obtain r w1 where b: "tg_locked_body R T U e s p turn items src oc (on_web (on_srv (\<lambda>_. sv)) (w\<lparr>gw_task := True\<rparr>)) = (r, w1)" by fastforce
  obtain fin rr w3 where x: "tg_handle_end R T e s oc (r, on_web (on_srv (hold_exit R (te_unlock e) oc (cs_chat s) turn)) w1) = (fin, rr, w3)"
    by (metis prod_cases3)
  show ?thesis by (rule that [OF h b refl x]) (use assms h b x in \<open>simp add: run_locked_def\<close>)
qed

lemma finalize_world:
  assumes "tg_finalize T e turn fin (r, w) = (res, w')"
  defines "w1 \<equiv> finalize_tx (ta_turns T) turn (fst fin) (fst (snd fin)) (snd (snd fin)) (rv_now (te_rpc e)) (wb_w (gw_web w))"
  shows "\<not> gw_task w'" "gw_tick w' = Suc (gw_tick w)" "te_ok e (gw_tick w) \<Longrightarrow> wb_w (gw_web w') = w1"
    "srv (gw_web w') = srv (gw_web w)"
  using assms by (auto simp: tg_finalize_def transact_def change_def on_web_def Let_def split: if_splits)

lemma on_web_simps [simp]: "gw_web (on_web f w) = f (gw_web w)" "gw_task (on_web f w) = gw_task w" "gw_tick (on_web f w) = gw_tick w"
  by (simp_all add: on_web_def)

context tg_row
begin

lemma locked_row:
  assumes "has_row (rw_db (wb_w (gw_web w)))" "src_final src" "run_locked R T U e s p turn items src w = (res, w')"
    and "te_ok e (gw_tick w' - 1)"
  shows "\<exists>r. tb_view (ta_turns T) (rw_db (wb_w (gw_web w'))) turn = Some r \<and> terminal (t_status r)"
proof -
  from assms(3) obtain oc sv r w1 w2 fin rr w3 where
    b: "tg_locked_body R T U e s p turn items src oc (on_web (on_srv (\<lambda>_. sv)) (w\<lparr>gw_task := True\<rparr>)) = (r, w1)"
    and w2: "w2 = on_web (on_srv (hold_exit R (te_unlock e) oc (cs_chat s) turn)) w1"
    and x: "tg_handle_end R T e s oc (r, w2) = (fin, rr, w3)" and f: "tg_finalize T e turn fin (rr, w3) = (res, w')"
    by (rule run_locked_parts)
  have "has_row (rw_db (wb_w (gw_web w1)))"
    using row.body_kept [of "on_web (on_srv (\<lambda>_. sv)) (w\<lparr>gw_task := True\<rparr>)" U e p items src oc] assms(1) b by simp
  then have "has_row (rw_db (wb_w (gw_web w3)))" using row.end_kept [of w2 e oc r] w2 x by simp
  moreover have "terminal (fst fin)" using handled_final [OF assms(2) b, of w2] x by simp
  ultimately show ?thesis using final_row finalize_world(2,3) [OF f] assms(4) by simp
qed

end

context tg_lock
begin

lemma locked_lock:
  assumes "not_ours (srv (gw_web w))" "te_acquire e = Fine" "te_unlock e = Fine" "run_locked R T U e s p turn items src w = (res, w')"
  shows "not_ours (srv (gw_web w'))"
proof -
  from assms(4) obtain oc sv r w1 w2 fin rr w3 where
    h: "hold_enter R (te_acquire e) (te_read e) (cs_chat s) turn (srv (gw_web w)) = (oc, sv)"
    and b: "tg_locked_body R T U e s p turn items src oc (on_web (on_srv (\<lambda>_. sv)) (w\<lparr>gw_task := True\<rparr>)) = (r, w1)"
    and w2: "w2 = on_web (on_srv (hold_exit R (te_unlock e) oc (cs_chat s) turn)) w1"
    and x: "tg_handle_end R T e s oc (r, w2) = (fin, rr, w3)" and f: "tg_finalize T e turn fin (rr, w3) = (res, w')"
    by (rule run_locked_parts)
  have "oc = ACQUIRED \<or> not_ours (srv (gw_web w1))"
    using lock.body_kept [of "on_web (on_srv (\<lambda>_. sv)) (w\<lparr>gw_task := True\<rparr>)" U e p items src oc] enter_lock [OF assms(1), of "te_read e" oc sv]
      assms(2) h b by auto
  then have "not_ours (srv (gw_web w2))" using exit_lock w2 assms(3) by auto
  then show ?thesis using lock.end_kept [of w2 e oc r] x finalize_world(4) [OF f] by simp
qed

end

section \<open>The slot of the user\<close>

locale tg_slot = zset_laws R for R :: "('s, 'x) redisz_scheme" +
  fixes T :: "('c, 'm, 'd) tables" and s :: chat_session and turn :: int and user :: int and held :: "(string \<times> nat option) option"
begin

abbreviation same :: "('s, 'd, 'c, 'm) web \<Rightarrow> bool" where
  "same W \<equiv> slot user (srv W) = held"

lemma slot_beat: "slot user (l_srv (rw_lease (snd (heartbeat_round R (ta_turns T) f Fine turn c None now w)))) = slot user (l_srv (rw_lease w))"
proof -
  have "slot user (snd (heartbeat_active R f c turn v)) = slot user v" for v
    using slot_call [where cmd = "rd_set_ifeq R (active_key c) (str_of_int turn) LOCK_TTL_S (str_of_int turn)" and i = user and f = f and s = v]
    by (simp add: heartbeat_active_def split_beta Let_def set_ifeq_view)
  then show ?thesis by (auto simp: heartbeat_round_def Let_def split_beta)
qed

lemma slot_enter: "slot user (snd (hold_enter R f g c t v)) = slot user v"
proof -
  have a: "slot user (snd (call f (rd_set_nx R (active_key c) (str_of_int t) LOCK_TTL_S) v)) = slot user v"
    by (rule slot_call) (simp add: set_nx_view)
  have b: "slot user (snd (call g (rd_get R (active_key c)) v')) = slot user v'" for v'
    by (rule slot_call) (simp add: get_view)
  show ?thesis using a b by (simp add: hold_enter_def try_acquire_active_def active_lock_value_def Let_def split_beta)
qed

lemma slot_exit: "slot user (hold_exit R f oc c t v) = slot user v"
  by (cases oc) (simp_all add: hold_exit_def)

end

sublocale tg_slot \<subseteq> kept: tg_kept R T s turn same
  by unfold_locales (simp_all add: slot_beat on_turns_def commit_def)

context tg_slot
begin

lemma user_turn_same: "keeps (\<lambda>w. same (gw_web w)) (persist_user_turn T e s p)"
  unfolding persist_user_turn_def Let_def by (intro kept kept.append_kept kept.emit_kept)

lemma steer_same: "keeps (\<lambda>w. same (gw_web w)) (steer_in R T e s p row ct)"
  unfolding steer_in_def by (intro kept user_turn_same) (simp_all add: on_web_def)

lemma active_same: "keeps (\<lambda>w. same (gw_web w)) (handle_active_tg_turn R T e s p)"
proof -
  have k: "keeps (\<lambda>w. same (gw_web w)) (then_do (steer_in R T e s p row ct) (\<lambda>steered. if steered then give True
      else then_do (\<lambda>w. (caught_action (send_interrupt (te_rpc e) row), w)) (\<lambda>interrupted.
        if interrupted then give False else then_do (say e NoteFinishing) (\<lambda>_. give True))))" for row ct
    by (intro kept steer_same)
  have n: "keeps (\<lambda>w. same (gw_web w)) (then_do (say e x) (\<lambda>_. give True))" for x by (intro kept)
  show ?thesis unfolding keeps_def
  proof (intro allI impI)
    fix w :: "('s, 'd, 'c, 'm, 'u) tg_world" assume w: "same (gw_web w)"
    show "same (gw_web (snd (handle_active_tg_turn R T e s p w)))"
    proof (cases "get_active_for_chat (ta_turns T) (cs_chat s) (rw_db (wb_w (gw_web w)))")
      case None
      with w show ?thesis by (simp add: handle_active_tg_turn_def)
    next
      case (Some row)
      obtain b ww where r: "reconcile_if_stale R (ta_turns T) (rv_orphan (te_rpc e)) (rv_now (te_rpc e)) row (wb_w (gw_web w)) = (b, ww)" by fastforce
      have "same (gw_web (on_web (\<lambda>W. W\<lparr>wb_w := ww\<rparr>) w))" using slot_reconcile [OF r] w by simp
      with keepsD [OF k this] keepsD [OF n this] r Some show ?thesis
        by (cases b; cases "t_codex_turn row") (simp_all add: handle_active_tg_turn_def)
    qed
  qed
qed

lemma create_same: "keeps (\<lambda>w. same (gw_web w)) (create_tg_turn T e s msg)"
proof -
  have k: "keeps (\<lambda>w. same (gw_web w)) (transact e (then_do (change (on_web (on_turns (\<lambda>_. ses)))) (\<lambda>_. give (Some row))))" for ses row
    by (intro kept) (simp add: on_turns_def commit_def)
  show ?thesis unfolding keeps_def
  proof (intro allI impI)
    fix w :: "('s, 'd, 'c, 'm, 'u) tg_world" assume "same (gw_web w)"
    from keepsD [OF k this] this show "same (gw_web (snd (create_tg_turn T e s msg w)))"
      by (auto simp: create_tg_turn_def split: option.splits prod.splits)
  qed
qed

lemma locked_same:
  assumes "same (gw_web w)" "run_locked R T U e s p turn items src w = (res, w')"
  shows "same (gw_web w')"
proof -
  from assms(2) obtain oc sv r w1 w2 fin rr w3 where
    h: "hold_enter R (te_acquire e) (te_read e) (cs_chat s) turn (srv (gw_web w)) = (oc, sv)"
    and b: "tg_locked_body R T U e s p turn items src oc (on_web (on_srv (\<lambda>_. sv)) (w\<lparr>gw_task := True\<rparr>)) = (r, w1)"
    and w2: "w2 = on_web (on_srv (hold_exit R (te_unlock e) oc (cs_chat s) turn)) w1"
    and x: "tg_handle_end R T e s oc (r, w2) = (fin, rr, w3)" and f: "tg_finalize T e turn fin (rr, w3) = (res, w')"
    by (rule run_locked_parts)
  have "slot user sv = held" using slot_enter [of "te_acquire e" "te_read e" "cs_chat s" turn "srv (gw_web w)"] h assms(1) by simp
  then have "same (gw_web w1)"
    using kept.body_kept [of "on_web (on_srv (\<lambda>_. sv)) (w\<lparr>gw_task := True\<rparr>)" U e p items src oc] b by simp
  then have "same (gw_web w2)" by (simp add: w2 slot_exit)
  then show ?thesis using kept.end_kept [of w2 e oc r] x finalize_world(4) [OF f] by simp
qed

end

lemma slot_any: "zset_laws R \<Longrightarrow> tg_slot R"
  by (simp add: tg_slot_def)

lemma body_same:
  fixes R :: "('s, 'x) redisz_scheme" and T :: "('c, 'm, 'd) tables" and U :: "(upload_row, 'u) table"
  assumes "zset_laws R"
  shows "keeps (\<lambda>w. rd_view R (srv (gw_web w)) (rl_active_key user) = held) (tg_turn_body R T U e s p items src)"
proof -
  note sl = slot_any [OF assms]
  have run: "keeps (\<lambda>w. rd_view R (srv (gw_web w)) (rl_active_key user) = held) (\<lambda>w. case run_locked R T U e s p i items src (start_reporter w) of
               (r, w1) \<Rightarrow> (r, w1\<lparr>gw_rep := stop_reporter (te_bot e) (gw_rep w1)\<rparr>))" for i
    unfolding keeps_def
  proof (intro allI impI)
    fix w :: "('s, 'd, 'c, 'm, 'u) tg_world" assume w: "rd_view R (srv (gw_web w)) (rl_active_key user) = held"
    obtain r w1 where r: "run_locked R T U e s p i items src (start_reporter w) = (r, w1)" by fastforce
    have "rd_view R (srv (gw_web w1)) (rl_active_key user) = held"
      by (rule tg_slot.locked_same [OF sl _ r]) (simp add: start_reporter_def w)
    with r show "rd_view R (srv (gw_web (snd (case run_locked R T U e s p i items src (start_reporter w) of
               (r, w1) \<Rightarrow> (r, w1\<lparr>gw_rep := stop_reporter (te_bot e) (gw_rep w1)\<rparr>))))) (rl_active_key user) = held" by simp
  qed
  show ?thesis unfolding tg_turn_body_def
    by (intro kept tg_slot.active_same [OF sl] tg_slot.user_turn_same [OF sl] tg_slot.create_same [OF sl])
      (auto split: option.split intro!: run kept)
qed

section \<open>Properties\<close>


definition demo_tg_env :: "rpc_env \<Rightarrow> tg_env" where
  "demo_tg_env v = \<lparr>te_rpc = v, te_bot = (\<lambda>_. Answered), te_style = demo_style, te_disk = demo_fs, te_tts_on = False,
     te_tts = (\<lambda>_. TtsFailed), te_say = (\<lambda>_. ''ok''), te_ok = (\<lambda>_. True), te_db_error = ([], []), te_upload = demo_upload_cfg,
     te_store = (\<lambda>_. (Fine, [])), te_idle = ''idle>300s'', te_quarantine = Fine, te_acquire = Fine, te_read = Fine, te_unlock = Fine,
     te_opens = None, te_thread = Some ''thr''\<rparr>"

definition demo_tg_world :: "(memz, turn_row rows, chat_row rows, msg_row rows, upload_row rows) tg_world" where
  "demo_tg_world = \<lparr>gw_web = demo_web\<lparr>wb_w := (wb_w demo_web)\<lparr>rw_db := demo_db\<rparr>\<rparr>, gw_files = demo_files, gw_rep = new_reporter demo_room,
     gw_tick = 0, gw_bus = [], gw_acts = [], gw_task = False\<rparr>"

definition demo_tg_session :: chat_session where
  "demo_tg_session = \<lparr>cs_chat = 1, cs_user = 1, cs_admin = False\<rparr>"

definition demo_tg_prepared :: tg_prepared where
  "demo_tg_prepared = \<lparr>tp_text = ''hi'', tp_attachments = [], tp_uploads = [], tp_voice = False, tp_reply = None, tp_quoted = None\<rparr>"

interpretation row_mem: tg_row demo_tables "rows_ok t_id active_unique_rows" mem_redisz s turn for s turn
  by (simp add: tg_row_def demo_tables_def turn_mem_db.turn_db_axioms)

interpretation lock_mem: tg_lock mem_redisz demo_tables s turn for s turn
  by (simp add: tg_lock_def memz.zset_laws_axioms)

interpretation slot_mem: tg_slot mem_redisz demo_tables s turn user held for s turn user held
  by (rule slot_any [OF memz.zset_laws_axioms])


text \<open>
  C27: a turn of Telegram leaves nothing running. However the stream, the bot, the tables and the
  sidecar behave, when \<open>_run_locked\<close> is left the session has no task, the lock of the chat is not
  the turn's, and the row of the turn is terminal, provided the last transaction commits.
\<close>

theorem tg_turn_finalized:
  assumes "turn_db (ta_turns T) ok" "zset_laws R" "ok (rw_db (wb_w (gw_web w)))" "tb_view (ta_turns T) (rw_db (wb_w (gw_web w))) turn \<noteq> None"
    and "map_option fst (rd_view R (srv (gw_web w)) (active_key (cs_chat s))) \<noteq> Some (str_of_int turn)"
    and "src_final src" "te_acquire e = Fine" "te_unlock e = Fine" "run_locked R T U e s p turn items src w = (res, w')"
  shows "\<not> gw_task w' \<and> map_option fst (rd_view R (srv (gw_web w')) (active_key (cs_chat s))) \<noteq> Some (str_of_int turn) \<and>
    (te_ok e (gw_tick w' - 1) \<longrightarrow>
      (\<exists>r. tb_view (ta_turns T) (rw_db (wb_w (gw_web w'))) turn = Some r \<and> terminal (t_status r)))"
proof (intro conjI impI)
  have rowl: "tg_row T ok" and lockl: "tg_lock R" using assms(1,2) by (simp_all add: tg_row_def tg_lock_def)
  show "\<not> gw_task w'" by (rule run_locked_parts [OF assms(9)]) (rule finalize_world(1))
  show "map_option fst (rd_view R (srv (gw_web w')) (active_key (cs_chat s))) \<noteq> Some (str_of_int turn)"
    by (rule tg_lock.locked_lock [OF lockl, unfolded tg_lock.not_ours_def [OF lockl], OF assms(5,7,8,9)])
  show "\<exists>r. tb_view (ta_turns T) (rw_db (wb_w (gw_web w'))) turn = Some r \<and> terminal (t_status r)" if "te_ok e (gw_tick w' - 1)"
    by (rule tg_row.locked_row [OF rowl _ assms(6,9) that]) (simp add: tg_row.has_row_def [OF rowl] assms(3,4))
qed

theorem tg_turn_finalized_witness:
  "\<exists>r. tb_view turn_mem (rw_db (wb_w (gw_web (snd (run_locked mem_redisz demo_tables upload_mem (demo_tg_env demo_rpc_env) demo_tg_session
     demo_tg_prepared 5 [TiStarted ''trn'' ''thr''] (TsStale JNull) demo_tg_world))))) 5 = Some r \<and> terminal (t_status r)"
proof -
  obtain res w' where r: "run_locked mem_redisz demo_tables upload_mem (demo_tg_env demo_rpc_env) demo_tg_session
     demo_tg_prepared 5 [TiStarted ''trn'' ''thr''] (TsStale JNull) demo_tg_world = (res, w')" by (metis surj_pair)
  have t: "turn_db (ta_turns demo_tables) (rows_ok t_id active_unique_rows)" "ta_turns demo_tables = turn_mem"
    using turn_mem_db.turn_db_axioms by (simp_all add: demo_tables_def)
  have d: "rows_ok t_id active_unique_rows (rw_db (wb_w (gw_web demo_tg_world)))"
    "tb_view (ta_turns demo_tables) (rw_db (wb_w (gw_web demo_tg_world))) 5 \<noteq> None"
    using demo_db_ok demo_db_view by (simp_all add: demo_tg_world_def t)
  have l: "map_option fst (rd_view mem_redisz (srv (gw_web demo_tg_world)) (active_key (cs_chat demo_tg_session))) \<noteq> Some (str_of_int 5)"
    by (simp add: demo_tg_world_def demo_web_def mem_redisz_def)
  have f: "src_final (TsStale JNull)" "te_acquire (demo_tg_env demo_rpc_env) = Fine" "te_unlock (demo_tg_env demo_rpc_env) = Fine"
    "te_ok (demo_tg_env demo_rpc_env) n" for n
    by (simp_all add: demo_tg_env_def src_final_def)
  from tg_turn_finalized [OF t(1) memz.zset_laws_axioms d l f(1,2,3) r] f(4) show ?thesis unfolding r t(2) snd_conv by blast
qed

lemma cancelled_world:
  assumes "\<And>n. te_ok e n"
  obtains w1 where "finish_cancelled R T e s turn w = w1"
    "rw_db (wb_w (gw_web w1)) = rw_db (finalize_tx (ta_turns T) turn CANCELLED None None (rv_now (te_rpc e))
       (wb_w (on_srv (hold_exit R (te_unlock e) ACQUIRED (cs_chat s) turn) (gw_web w))))"
    "wb_events (gw_web w1) = wb_events (gw_web w)"
  by (rule that [OF refl]) (use assms in \<open>simp_all add: finish_cancelled_def tg_handle_end_def tg_finalize_def transact_def change_def Let_def\<close>)

text \<open>
  The stop button never journals the interruption: awaiting the cancelled task lets the runner
  write CANCELLED first, without an error code, so the second finalization always loses and
  neither \<open>user_cancelled\<close> nor TURN_INTERRUPTED is recorded, although the runner journals nothing.
\<close>

theorem stop_never_journals:
  assumes "turn_db (ta_turns T) ok" "ok (rw_db (wb_w (gw_web w)))" "gw_task w" "\<And>n. te_ok e n"
    and "get_active_for_chat (ta_turns T) (cs_chat s) (rw_db (wb_w (gw_web w))) = Some r"
    and "tb_view (ta_turns T) (rw_db (wb_w (gw_web w))) (t_id r) = Some r" "is_active r"
    and "cancel_turn R T e s (t_id r) w = (res, w')"
  shows "res = Inr True \<and> wb_events (gw_web w') = wb_events (gw_web w) \<and>
    (\<exists>r'. tb_view (ta_turns T) (rw_db (wb_w (gw_web w'))) (t_id r) = Some r' \<and> t_status r' = CANCELLED \<and> t_error_code r' = None)"
proof -
  note db = turn_db.finalize_spec [OF assms(1)] and row = turn_db.finalize_tx_row [OF assms(1)]
  define w0 where "w0 = (if t_codex_turn r \<noteq> None \<and> t_thread r \<noteq> None then act_of ''interrupt:stop'' w else w)"
  have w0: "gw_web w0 = gw_web w" "gw_task w0" using assms(3) by (simp_all add: w0_def act_of_def)
  obtain w1 where w1: "finish_cancelled R T e s (t_id r) w0 = w1"
    "rw_db (wb_w (gw_web w1)) = rw_db (finalize_tx (ta_turns T) (t_id r) CANCELLED None None (rv_now (te_rpc e))
       (wb_w (on_srv (hold_exit R (te_unlock e) ACQUIRED (cs_chat s) (t_id r)) (gw_web w0))))"
    "wb_events (gw_web w1) = wb_events (gw_web w)"
    using cancelled_world [OF assms(4), of R T s "t_id r" w0] w0(1) by metis
  have st: "terminal CANCELLED" by (simp add: terminal_statuses_def)
  let ?r = "r\<lparr>t_status := CANCELLED, t_error_code := None, t_error_detail := None, t_completed := Some (rv_now (te_rpc e))\<rparr>"
  have v1: "tb_view (ta_turns T) (rw_db (wb_w (gw_web w1))) (t_id r) = Some ?r"
    unfolding w1(2) by (rule row [THEN conjunct1]) (simp_all add: assms(2,6,7) st w0(1))
  have o1: "ok (s_db (open_session (rw_db (wb_w (gw_web w1)))))"
    unfolding w1(2) open_session_simps
    by (rule tg_row.final_ok [OF _ _ st]) (simp_all add: tg_row_def assms(1,2) w0(1))
  obtain won ses where f: "finalize_once (ta_turns T) (t_id r) CANCELLED (Some ''user_cancelled'') None (rv_now (te_rpc e))
      (open_session (rw_db (wb_w (gw_web w1)))) = Inr (won, ses)" "\<not> won" "tb_view (ta_turns T) (s_db ses) (t_id r) = Some ?r"
    by (rule db [OF o1 st, of "t_id r" "Some ''user_cancelled''" None "rv_now (te_rpc e)"]) (use v1 in simp)
  have "cancel_turn R T e s (t_id r) w = transact e (then_do (change (on_web (on_turns (\<lambda>_. ses)))) (\<lambda>_.
      then_do (give ()) (\<lambda>_. give True))) (w1\<lparr>gw_task := False\<rparr>)"
    using w0(2) w1(1) f(1,2) unfolding cancel_turn_def assms(5) option.case w0_def [symmetric] Let_def by simp
  with assms(8) have "(res, w') = transact e (then_do (change (on_web (on_turns (\<lambda>_. ses)))) (\<lambda>_.
      then_do (give ()) (\<lambda>_. give True))) (w1\<lparr>gw_task := False\<rparr>)" by simp
  with assms(4) w1(3) f(3) show ?thesis
    by (simp add: transact_def then_do_def change_def give_def Let_def on_turns_def commit_def)
qed

text \<open>
  A probe that finds the turn completed ends it COMPLETED on the spot: the text collected so far
  is neither stored nor sent, where a stream that merely stops stores and sends it as partial.
\<close>

lemma token_items_web:
  "\<forall>x \<in> set xs. \<exists>d n l. x = TiEvent (TokenEvent d) n l \<Longrightarrow> gw_web (snd (on_items R T U e s p turn xs col w)) = gw_web w"
proof (induction xs arbitrary: col w)
  case (Cons x xs)
  then obtain d n l where x: "x = TiEvent (TokenEvent d) n l" by auto
  have "gw_web (snd (on_item R T U e s p turn x col w)) = gw_web w"
    by (auto simp: x on_item_def on_chat_event_def then_do_def change_def give_def with_bot_def split: prod.splits sum.splits)
  with Cons show ?case
    by (cases "on_item R T U e s p turn x col w"; cases "fst (on_item R T U e s p turn x col w)") (auto simp: then_do_def)
qed (simp add: give_def)

theorem probe_completed_loses_text:
  assumes "\<forall>x \<in> set xs. \<exists>d n l. x = TiEvent (TokenEvent d) n l"
    and "on_items R T U e s p turn xs new_collector w = (Inr col, w1)" "sc_buffer col \<noteq> []"
  shows "tg_stream_turn R T U e s p turn xs (TsTerminal COMPLETED None raw) w = (TxTerminal COMPLETED None (Some raw), w1) \<and>
    wb_msgs (gw_web w1) = wb_msgs (gw_web w)"
  using token_items_web [OF assms(1), of R T U e s p turn new_collector w] assms(2) by (simp add: tg_stream_turn_def)

text \<open>
  When the sidecar runs another turn than the table says, the steer raises an exception that the
  runner does not catch: the user is told nothing and the stale row stays active, where the web
  handler finalizes it.
\<close>

theorem stale_turn_escapes:
  assumes "get_active_for_chat (ta_turns T) (cs_chat s) (rw_db (wb_w (gw_web w))) = Some turn" "t_codex_turn turn = Some ct"
    and "rv_now (te_rpc e) - t_heartbeat turn < TURN_STALE_S" "rv_steer (te_rpc e) = StaleTurn a b"
    and "tp_text p \<noteq> []" "tp_attachments p = []" "tp_uploads p = []" "tp_reply p = None"
  shows "\<exists>x. handle_active_tg_turn R T e s p w = (Inl (TxError ''StaleSidecarTurnError'' x), w)"
  using assms by (auto simp: handle_active_tg_turn_def reconcile_if_stale_def steer_in_def caught_action_def then_do_def on_web_def)

end
