(* ===== verification/Tg_Media.thy ===== *)
theory Tg_Media
  imports Tg_Turn
begin

text \<open>
  What a message of Telegram brings to a turn (\<open>tg/media.py\<close>): its text, photos, documents and
  speech, its own and those of the message it answers. The downloads, the transcriber, the
  object store and the mime tables are parameters, by the file's id where they depend on it.
\<close>

section \<open>Messages\<close>

record tg_file =
  fl_id :: string
  fl_size :: "int option"
  fl_mime :: "string option"
  fl_name :: "string option"

record tg_incoming =
  ti_id :: int
  ti_chat :: bool
  ti_caption :: "string option"
  ti_text :: "string option"
  ti_photo :: "tg_file list"
  ti_document :: "tg_file option"
  ti_voice :: "tg_file option"
  ti_video_note :: "tg_file option"
  ti_audio :: "tg_file option"

record media_env =
  me_cfg :: upload_cfg
  me_download :: "string \<Rightarrow> turn_exn + string"
  me_store :: "string \<Rightarrow> fault \<times> string"
  me_extension :: "string \<Rightarrow> string option"
  me_stt :: "string \<Rightarrow> string \<Rightarrow> turn_exn + string"
  me_now :: int
  me_user :: int
  me_for_chat :: int

section \<open>Names and kinds\<close>

definition or_default :: "string option \<Rightarrow> string \<Rightarrow> string" where
  "or_default x d = (if opt_truthy x then the x else d)"

definition guess_type :: "media_env \<Rightarrow> string option \<Rightarrow> string option" where
  "guess_type E name = uc_mimes (me_cfg E) (or_default name [])"

definition default_filename :: "media_env \<Rightarrow> string \<Rightarrow> string" where
  "default_filename E mime = ''tg_media'' @ or_default (me_extension E mime) ''.bin''"

definition merge_text :: "string \<Rightarrow> string \<Rightarrow> string option \<Rightarrow> string" where
  "merge_text existing incoming label =
     (let new = py_strip incoming; shown = (if opt_truthy label then the label @ '':'' @ NL @ new else new)
      in if new = [] then existing else if existing \<noteq> [] then existing @ NL @ NL @ shown else shown)"

definition is_document_of :: "string \<Rightarrow> media_env \<Rightarrow> string option \<Rightarrow> string option \<Rightarrow> bool" where
  "is_document_of kind E mime name \<longleftrightarrow>
     (opt_truthy mime \<and> prefix kind (the mime))
     \<or> (opt_truthy name \<and> (case guess_type E name of None \<Rightarrow> False | Some g \<Rightarrow> prefix kind g))"

definition is_image_document :: "media_env \<Rightarrow> string option \<Rightarrow> string option \<Rightarrow> bool" where
  "is_image_document = is_document_of ''image/''"

definition is_audio_document :: "media_env \<Rightarrow> string option \<Rightarrow> string option \<Rightarrow> bool" where
  "is_audio_document = is_document_of ''audio/''"

definition guess_ext :: "media_env \<Rightarrow> string option \<Rightarrow> string option \<Rightarrow> string \<Rightarrow> string" where
  "guess_ext E mime name dflt =
     (if opt_truthy name \<and> path_suffix (the name) \<noteq> [] then path_suffix (the name)
      else if opt_truthy mime then or_default (me_extension E (the mime)) dflt else dflt)"

definition mime_of :: "media_env \<Rightarrow> tg_file \<Rightarrow> string \<Rightarrow> string" where
  "mime_of E m dflt = or_default (fl_mime m) (or_default (guess_type E (fl_name m)) dflt)"

section \<open>Storing\<close>

definition download :: "media_env \<Rightarrow> tg_file \<Rightarrow> ('u files, string) action" where
  "download E m w = (me_download E (fl_id m), w)"

definition upload_error :: "upload_exn \<Rightarrow> turn_exn" where
  "upload_error x = TxError (case x of ClientError \<Rightarrow> ''ClientError'' | DbError \<Rightarrow> ''SQLAlchemyError'' | DiskError \<Rightarrow> ''OSError''
     | StorageError \<Rightarrow> ''StorageError'' | NoS3Path \<Rightarrow> ''ValueError'' | SttError \<Rightarrow> ''SttError'') []"

definition persist_buf ::
  "(upload_row, 'u) table \<Rightarrow> media_env \<Rightarrow> tg_file \<Rightarrow> string \<Rightarrow> string \<Rightarrow> string \<Rightarrow> 'u files \<Rightarrow> (upload_exn + int) \<times> 'u files" where
  "persist_buf U E m filename mime data w =
     (case persist_chunks U (uc_bucket (me_cfg E)) (uc_mimes (me_cfg E)) (fst (me_store E (fl_id m))) (snd (me_store E (fl_id m)))
             (me_now E) (Some (me_for_chat E)) (me_user E) filename mime [data] w of
        (Inl x, w1) \<Rightarrow> (Inl x, w1) | (Inr r, w1) \<Rightarrow> (Inr (up_id r), w1))"

definition store_or_raise :: "(upload_row, 'u) table \<Rightarrow> media_env \<Rightarrow> tg_file \<Rightarrow> string \<Rightarrow> string \<Rightarrow> string \<Rightarrow> ('u files, int) action" where
  "store_or_raise U E m filename mime data w =
     (case persist_buf U E m filename mime data w of (Inl x, w1) \<Rightarrow> (Inl (upload_error x), w1) | (Inr i, w1) \<Rightarrow> (Inr i, w1))"

text \<open>The exceptions that the store and the table raise here are among those caught.\<close>

definition store_or_none :: "(upload_row, 'u) table \<Rightarrow> media_env \<Rightarrow> tg_file \<Rightarrow> string \<Rightarrow> string \<Rightarrow> string \<Rightarrow> ('u files, int option) action" where
  "store_or_none U E m filename mime data w =
     (case persist_buf U E m filename mime data w of (Inl x, w1) \<Rightarrow> (Inr None, w1) | (Inr i, w1) \<Rightarrow> (Inr (Some i), w1))"

definition save_image :: "(upload_row, 'u) table \<Rightarrow> media_env \<Rightarrow> tg_file \<Rightarrow> string \<Rightarrow> ('u files, string \<times> int) action" where
  "save_image U E m mime =
     then_do (download E m) (\<lambda>data.
     then_do (store_or_raise U E m (default_filename E mime) mime data) (\<lambda>i. give (data_uri mime data, i)))"

definition transcribe_and_persist ::
  "(upload_row, 'u) table \<Rightarrow> media_env \<Rightarrow> tg_file \<Rightarrow> string \<Rightarrow> string \<Rightarrow> ('u files, string \<times> int option) action" where
  "transcribe_and_persist U E m mime filename =
     then_do (download E m) (\<lambda>data.
     then_do (store_or_none U E m filename mime data) (\<lambda>i.
     then_do (\<lambda>w. (me_stt E data filename, w)) (\<lambda>transcript. give (transcript, i))))"

definition materialize_media :: "media_env \<Rightarrow> string \<Rightarrow> int \<Rightarrow> string \<Rightarrow> ('u files, string) action" where
  "materialize_media E data i filename w =
     (case materialize_for_chat (uc_root (me_cfg E)) (uc_writes (me_cfg E)) data (me_for_chat E) i filename w of
        (Inl x, w1) \<Rightarrow> (Inl (upload_error x), w1) | (Inr path, w1) \<Rightarrow> (Inr path, w1))"

text \<open>The text, the image's URI, the upload and the workspace path of a document.\<close>

definition prepare_document ::
  "(upload_row, 'u) table \<Rightarrow> media_env \<Rightarrow> tg_file \<Rightarrow> ('u files, string \<times> string option \<times> int option \<times> string option) action" where
  "prepare_document U E m =
     (if is_image_document E (fl_mime m) (fl_name m)
      then then_do (save_image U E m (mime_of E m ''image/jpeg'')) (\<lambda>(uri, i). give ([], Some uri, Some i, None))
      else if is_audio_document E (fl_mime m) (fl_name m)
      then let mime = mime_of E m ''audio/mpeg'' in
           then_do (transcribe_and_persist U E m mime (or_default (fl_name m) (''document'' @ guess_ext E (Some mime) None ''.mp3'')))
             (\<lambda>(txt, i). give (txt, None, i, None))
      else let mime = mime_of E m ''application/octet-stream'';
               filename = or_default (fl_name m) (''document'' @ guess_ext E (Some mime) None ''.bin'') in
           then_do (download E m) (\<lambda>data.
           then_do (store_or_raise U E m filename mime data) (\<lambda>i.
           then_do (materialize_media E data i filename) (\<lambda>path. give ([], None, Some i, Some path)))))"

section \<open>The whole message\<close>

text \<open>What has been collected: the text, the images, the uploads, the workspace paths.\<close>

type_synonym gathered = "string \<times> string list \<times> int list \<times> string list"

definition opt_list :: "'a option \<Rightarrow> 'a list" where
  "opt_list x = (case x of None \<Rightarrow> [] | Some a \<Rightarrow> [a])"

definition with_media :: "'m option \<Rightarrow> ('m \<Rightarrow> ('w, 'a) action) \<Rightarrow> 'a \<Rightarrow> ('w, 'a) action" where
  "with_media m f a = (case m of None \<Rightarrow> give a | Some x \<Rightarrow> f x)"

definition gather_photo :: "(upload_row, 'u) table \<Rightarrow> media_env \<Rightarrow> tg_file list \<Rightarrow> gathered \<Rightarrow> ('u files, gathered) action" where
  "gather_photo U E photos g =
     (case g of (txt, atts, ids, paths) \<Rightarrow>
        if photos = [] then give g
        else then_do (save_image U E (last photos) ''image/jpeg'') (\<lambda>(uri, i). give (txt, atts @ [uri], ids @ [i], paths)))"

definition gather_document :: "(upload_row, 'u) table \<Rightarrow> media_env \<Rightarrow> tg_file option \<Rightarrow> gathered \<Rightarrow> ('u files, gathered) action" where
  "gather_document U E m g =
     (case g of (txt, atts, ids, paths) \<Rightarrow>
        with_media m (\<lambda>x. then_do (prepare_document U E x) (\<lambda>(t, uri, i, path).
          give (merge_text txt t None, atts @ opt_list uri, ids @ opt_list i, paths @ opt_list path))) g)"

definition gather_speech ::
  "(upload_row, 'u) table \<Rightarrow> media_env \<Rightarrow> tg_file option \<Rightarrow> (tg_file \<Rightarrow> string) \<Rightarrow> (tg_file \<Rightarrow> string) \<Rightarrow> string \<Rightarrow> gathered \<Rightarrow>
     ('u files, gathered) action" where
  "gather_speech U E m mime filename label g =
     (case g of (txt, atts, ids, paths) \<Rightarrow>
        with_media m (\<lambda>x. then_do (transcribe_and_persist U E x (mime x) (filename x)) (\<lambda>(t, i).
          give (merge_text txt t (Some label), atts, ids @ opt_list i, paths))) g)"

definition audio_mime :: "tg_file \<Rightarrow> string" where
  "audio_mime m = or_default (fl_mime m) ''audio/mpeg''"

definition finish_message :: "bool \<Rightarrow> gathered \<Rightarrow> tg_prepared" where
  "finish_message voice g =
     (case g of (txt, atts, ids, paths) \<Rightarrow>
        let t1 = (if (atts \<noteq> [] \<or> paths \<noteq> []) \<and> txt = [] then ''Open the attached files and answer based on them.'' else txt);
            mentions = format_mentions paths;
            t2 = (if mentions = [] then t1 else if t1 \<noteq> [] then t1 @ NL @ NL @ mentions else mentions)
        in \<lparr>tp_text = t2, tp_attachments = atts, tp_uploads = ids, tp_voice = voice, tp_reply = None, tp_quoted = None\<rparr>)"

definition gather_message :: "(upload_row, 'u) table \<Rightarrow> media_env \<Rightarrow> tg_incoming \<Rightarrow> ('u files, gathered) action" where
  "gather_message U E m =
     then_do (gather_photo U E (ti_photo m) (py_strip (or_default (ti_caption m) (or_default (ti_text m) [])), [], [], [])) (\<lambda>g.
     then_do (gather_document U E (ti_document m) g) (\<lambda>g.
     then_do (gather_speech U E (ti_voice m) (\<lambda>_. ''audio/ogg'') (\<lambda>_. ''voice.ogg'') ''Voice transcript'' g) (\<lambda>g.
     then_do (gather_speech U E (ti_video_note m) (\<lambda>_. ''video/mp4'') (\<lambda>_. ''video_note.mp4'') ''Voice transcript'' g) (\<lambda>g.
     gather_speech U E (ti_audio m) audio_mime (\<lambda>x. ''audio'' @ guess_ext E (Some (audio_mime x)) (fl_name x) ''.mp3'') ''Audio transcript'' g))))"

text \<open>\<open>ensure_size\<close>: the first file that is too large, in the order of the checks.\<close>

definition sized_files :: "tg_incoming \<Rightarrow> tg_file list" where
  "sized_files m = (if ti_photo m = [] then [] else [last (ti_photo m)]) @ opt_list (ti_document m) @ opt_list (ti_voice m)
     @ opt_list (ti_video_note m) @ opt_list (ti_audio m)"

definition too_large :: "int option \<Rightarrow> tg_incoming \<Rightarrow> int option" where
  "too_large limit m =
     (case limit of None \<Rightarrow> None
      | Some l \<Rightarrow> if \<exists>x \<in> set (sized_files m). case fl_size x of None \<Rightarrow> False | Some n \<Rightarrow> l < n then Some l else None)"

definition prepare_message ::
  "(upload_row, 'u) table \<Rightarrow> media_env \<Rightarrow> int option \<Rightarrow> tg_incoming \<Rightarrow> 'u files \<Rightarrow> prepare_result \<times> 'u files" where
  "prepare_message U E limit m w =
     (if \<not> ti_chat m then (Prepared (finish_message False ([], [], [], [])), w)
      else case too_large limit m of
        Some l \<Rightarrow> (UploadTooLarge l, w)
      | None \<Rightarrow>
          (case gather_message U E m w of
             (Inl x, w1) \<Rightarrow> (PrepareFailed x, w1)
           | (Inr g, w1) \<Rightarrow> (Prepared (finish_message (ti_voice m \<noteq> None \<or> ti_video_note m \<noteq> None) g), w1)))"

definition prepare_turn ::
  "(upload_row, 'u) table \<Rightarrow> media_env \<Rightarrow> int option \<Rightarrow> tg_incoming \<Rightarrow> tg_incoming option \<Rightarrow> 'u files \<Rightarrow> prepare_result \<times> 'u files" where
  "prepare_turn U E limit m reply w =
     (case (too_large limit m, Option.bind reply (too_large limit)) of
        (Some l, _) \<Rightarrow> (UploadTooLarge l, w)
      | (None, Some l) \<Rightarrow> (UploadTooLarge l, w)
      | (None, None) \<Rightarrow>
          (case prepare_message U E limit m w of
             (Prepared p, w1) \<Rightarrow>
               (case reply of
                  None \<Rightarrow> (Prepared p, w1)
                | Some q \<Rightarrow>
                    (case prepare_message U E limit q w1 of
                       (Prepared pq, w2) \<Rightarrow>
                         (Prepared (p\<lparr>tp_attachments := tp_attachments pq @ tp_attachments p, tp_uploads := tp_uploads pq @ tp_uploads p,
                            tp_reply := Some (ti_id q), tp_quoted := Some (tp_text pq)\<rparr>), w2)
                     | r \<Rightarrow> r))
           | r \<Rightarrow> r))"

section \<open>The rows a message leaves\<close>

definition oversized :: "int option \<Rightarrow> tg_incoming \<Rightarrow> tg_incoming option \<Rightarrow> int option" where
  "oversized limit m reply = (case too_large limit m of Some l \<Rightarrow> Some l | None \<Rightarrow> Option.bind reply (too_large limit))"

lemma prepare_turn_oversized: "oversized limit m reply = Some l \<Longrightarrow> prepare_turn U E limit m reply w = (UploadTooLarge l, w)"
  unfolding prepare_turn_def oversized_def by (cases "too_large limit m") (simp_all only: option.case prod.case)

lemma prepare_turn_sized: "oversized limit m reply = None \<Longrightarrow> prepare_turn U E limit m reply w =
    (case prepare_message U E limit m w of
       (Prepared p, w1) \<Rightarrow>
         (case reply of
            None \<Rightarrow> (Prepared p, w1)
          | Some q \<Rightarrow>
              (case prepare_message U E limit q w1 of
                 (Prepared pq, w2) \<Rightarrow>
                   (Prepared (p\<lparr>tp_attachments := tp_attachments pq @ tp_attachments p, tp_uploads := tp_uploads pq @ tp_uploads p,
                      tp_reply := Some (ti_id q), tp_quoted := Some (tp_text pq)\<rparr>), w2)
               | r \<Rightarrow> r))
     | r \<Rightarrow> r)"
  unfolding prepare_turn_def oversized_def by (cases "too_large limit m") (simp_all only: option.case prod.case option.distinct)

lemma prepare_message_large: "ti_chat m \<Longrightarrow> too_large limit m = Some l \<Longrightarrow> prepare_message U E limit m w = (UploadTooLarge l, w)"
  by (simp add: prepare_message_def)

lemma prepare_message_empty: "\<not> ti_chat m \<Longrightarrow> prepare_message U E limit m w = (Prepared (finish_message False ([], [], [], [])), w)"
  by (simp add: prepare_message_def)

locale upload_rows = table_laws U up_id "\<lambda>_. True" okU
  for U :: "(upload_row, 'u) table" and okU +
  fixes E :: media_env
begin

text \<open>The rows that are in \<open>w\<close> and were not in \<open>w0\<close> are those listed; nothing else changed.\<close>

definition own_row :: "upload_row \<Rightarrow> bool" where
  "own_row r \<longleftrightarrow> up_user r = me_user E \<and> up_chat r = Some (me_for_chat E)"

definition tracked :: "'u files \<Rightarrow> int list \<Rightarrow> 'u files \<Rightarrow> bool" where
  "tracked w0 ids w \<longleftrightarrow> okU (fi_rows w) \<and> distinct ids \<and> (\<forall>k.
     if k \<in> set ids then tb_view U (fi_rows w0) k = None \<and> (\<exists>r. tb_view U (fi_rows w) k = Some r \<and> own_row r)
     else tb_view U (fi_rows w) k = tb_view U (fi_rows w0) k)"

lemma tracked_refl: "okU (fi_rows w) \<Longrightarrow> tracked w [] w"
  by (simp add: tracked_def)

lemma tracked_put [simp]: "tracked w0 ids (w\<lparr>fi_objs := s\<rparr>) \<longleftrightarrow> tracked w0 ids w" "tracked w0 ids (w\<lparr>fi_disk := f\<rparr>) \<longleftrightarrow> tracked w0 ids w"
  by (simp_all add: tracked_def)

lemma tracked_swap: "tracked w0 (xs @ ys) w \<longleftrightarrow> tracked w0 (ys @ xs) w"
proof -
  have "distinct (xs @ ys) = distinct (ys @ xs)" "set (xs @ ys) = set (ys @ xs)" by auto
  then show ?thesis unfolding tracked_def by presburger
qed

lemma persist_tracked:
  assumes "tracked w0 ids w" "persist_buf U E m filename mime data w = (res, w1)"
  shows "case res of Inl _ \<Rightarrow> tracked w0 ids w1 | Inr i \<Rightarrow> tracked w0 (ids @ [i]) w1"
proof -
  let ?key = "upload_key (Some (me_for_chat E)) (me_user E) (snd (me_store E (fl_id m))) (if filename = [] then path_name [] else filename)"
  define p where "p = s3_upload_file (uc_bucket (me_cfg E)) (fst (me_store E (fl_id m))) ?key data (fi_objs w)"
  show ?thesis
  proof (cases "fst p")
    case (Inl x)
    with assms show ?thesis
      by (auto simp: persist_buf_def persist_chunks_def persist_local_file_def Let_def p_def [symmetric] split: prod.splits)
  next
    case (Inr path)
    let ?name = "if filename = [] then path_name [] else filename"
    define mk where "mk = (\<lambda>k. \<lparr>up_id = k, up_user = me_user E, up_chat = Some (me_for_chat E), up_filename = ?name,
      up_mime = (if mime \<noteq> [] then mime else case uc_mimes (me_cfg E) ?name of Some m \<Rightarrow> m | None \<Rightarrow> ''application/octet-stream''),
      up_size = int (length data), up_s3 = path, up_created = me_now E\<rparr>)"
    have mk: "up_id (mk k) = k" "own_row (mk k)" for k by (simp_all add: mk_def own_row_def)
    have ok: "okU (fi_rows w)" using assms(1) by (simp add: tracked_def)
    show ?thesis
    proof (cases "tb_insert U mk (fi_rows w)")
      case None
      with assms(2) Inr have "w1 = w\<lparr>fi_objs := snd p\<rparr>" "res = Inl DbError"
        by (auto simp: persist_buf_def persist_chunks_def persist_local_file_def Let_def p_def [symmetric] mk_def split: prod.splits)
      with assms(1) show ?thesis by simp
    next
      case (Some q)
      then obtain r d where q: "tb_insert U mk (fi_rows w) = Some (r, d)" by (cases q) auto
      with assms(2) Inr have e: "w1 = w\<lparr>fi_objs := snd p, fi_rows := d\<rparr>" "res = Inr (up_id r)"
        by (auto simp: persist_buf_def persist_chunks_def persist_local_file_def Let_def p_def [symmetric] mk_def split: prod.splits)
      from insert_some [OF ok mk(1) q] have i: "okU d" "tb_view U (fi_rows w) (up_id r) = None" "r = mk (up_id r)"
        "tb_view U d = (tb_view U (fi_rows w))(up_id r \<mapsto> r)" by auto
      have new: "up_id r \<notin> set ids" and free: "tb_view U (fi_rows w0) (up_id r) = None"
        using assms(1) i(2) unfolding tracked_def by (metis option.distinct(1))+
      have own: "own_row r" using i(3) mk(2) by metis
      have "tracked w0 (ids @ [up_id r]) (w\<lparr>fi_objs := snd p, fi_rows := d\<rparr>)"
        using assms(1) i(1,4) new free own by (auto simp: tracked_def)
      with e show ?thesis by simp
    qed
  qed
qed

text \<open>A triple: with \<open>xs\<close> listed before, the list after is \<open>K\<close> of the value.\<close>

definition lists :: "int list \<Rightarrow> ('u files, 'a) action \<Rightarrow> ('a \<Rightarrow> int list) \<Rightarrow> bool" where
  "lists xs m K \<longleftrightarrow> (\<forall>w0 w r w1. tracked w0 xs w \<longrightarrow> m w = (r, w1) \<longrightarrow>
     (case r of Inl _ \<Rightarrow> \<exists>ids. tracked w0 ids w1 | Inr a \<Rightarrow> tracked w0 (K a) w1))"

lemma listsD: "lists xs m K \<Longrightarrow> tracked w0 xs w \<Longrightarrow> m w = (r, w1) \<Longrightarrow>
    (case r of Inl _ \<Rightarrow> \<exists>ids. tracked w0 ids w1 | Inr a \<Rightarrow> tracked w0 (K a) w1)"
  by (simp add: lists_def)

lemma lists_then:
  assumes "lists xs m f" "\<And>a. lists (f a) (g a) K"
  shows "lists xs (then_do m g) K"
  unfolding lists_def
proof (intro allI impI)
  fix w0 w r w2 assume t: "tracked w0 xs w" "then_do m g w = (r, w2)"
  obtain q w1 where m: "m w = (q, w1)" by fastforce
  with listsD [OF assms(1) t(1) m] listsD [OF assms(2)] t(2)
  show "case r of Inl _ \<Rightarrow> \<exists>ids. tracked w0 ids w2 | Inr a \<Rightarrow> tracked w0 (K a) w2"
    by (cases q) (auto simp: then_do_def)
qed

lemma lists_give: "K a = xs \<Longrightarrow> lists xs (give a) K"
  by (auto simp: lists_def give_def)

lemma lists_quiet: "lists xs (\<lambda>w. (f, w)) (\<lambda>_. xs)" "lists xs (download E m) (\<lambda>_. xs)"
  by (auto simp: lists_def download_def split: sum.splits)

lemma lists_store: "lists xs (store_or_raise U E m filename mime data) (\<lambda>i. xs @ [i])"
  by (auto simp: lists_def store_or_raise_def dest!: persist_tracked split: prod.splits sum.splits)

lemma lists_try: "lists xs (store_or_none U E m filename mime data) (\<lambda>i. xs @ opt_list i)"
  by (auto simp: lists_def store_or_none_def opt_list_def dest!: persist_tracked split: prod.splits sum.splits)

lemma lists_materialize: "lists xs (materialize_media E data i filename) (\<lambda>_. xs)"
  by (auto simp: lists_def materialize_media_def materialize_for_chat_def Let_def split: prod.splits sum.splits if_splits)

lemma lists_image: "lists xs (save_image U E m mime) (\<lambda>a. xs @ [snd a])"
  unfolding save_image_def
  by (rule lists_then [OF lists_quiet(2)], rule lists_then [OF lists_store]) (simp add: lists_give)

lemma lists_speech: "lists xs (transcribe_and_persist U E m mime filename) (\<lambda>a. xs @ opt_list (snd a))"
  unfolding transcribe_and_persist_def
  by (rule lists_then [OF lists_quiet(2)], rule lists_then [OF lists_try], rule lists_then [OF lists_quiet(1)]) (simp add: lists_give)

lemma lists_document: "lists xs (prepare_document U E m) (\<lambda>a. xs @ opt_list (fst (snd (snd a))))"
proof -
  have a: "lists xs (then_do (save_image U E m mime) (\<lambda>(uri, i). give ([], Some uri, Some i, None))) (\<lambda>a. xs @ opt_list (fst (snd (snd a))))" for mime
    by (rule lists_then [OF lists_image]) (auto simp: opt_list_def intro!: lists_give)
  have b: "lists xs (then_do (transcribe_and_persist U E m mime name) (\<lambda>(txt, i). give (txt, None, i, None))) (\<lambda>a. xs @ opt_list (fst (snd (snd a))))" for mime name
    by (rule lists_then [OF lists_speech]) (auto intro!: lists_give)
  have c: "lists xs (then_do (download E m) (\<lambda>data. then_do (store_or_raise U E m name mime data) (\<lambda>i.
      then_do (materialize_media E data i name) (\<lambda>path. give ([], None, Some i, Some path))))) (\<lambda>a. xs @ opt_list (fst (snd (snd a))))" for mime name
    by (rule lists_then [OF lists_quiet(2)], rule lists_then [OF lists_store], rule lists_then [OF lists_materialize])
      (auto simp: opt_list_def intro!: lists_give)
  show ?thesis unfolding prepare_document_def Let_def
    by (cases "is_image_document E (fl_mime m) (fl_name m)"; cases "is_audio_document E (fl_mime m) (fl_name m)") (simp_all only: if_True if_False a b c)
qed

text \<open>The list of a gathered message.\<close>

abbreviation gathered_ids :: "gathered \<Rightarrow> int list" where
  "gathered_ids g \<equiv> fst (snd (snd g))"

lemma lists_photo: "lists (xs @ gathered_ids g) (gather_photo U E ps g) (\<lambda>h. xs @ gathered_ids h)"
  by (cases g) (auto simp: gather_photo_def intro!: lists_give lists_then [OF lists_image])

lemma lists_attached: "lists (xs @ gathered_ids g) (gather_document U E m g) (\<lambda>h. xs @ gathered_ids h)"
  by (cases g; cases m) (auto simp: gather_document_def with_media_def intro!: lists_give lists_then [OF lists_document])

lemma lists_spoken: "lists (xs @ gathered_ids g) (gather_speech U E m mime name label g) (\<lambda>h. xs @ gathered_ids h)"
  by (cases g; cases m) (auto simp: gather_speech_def with_media_def intro!: lists_give lists_then [OF lists_speech])

lemma lists_message: "lists xs (gather_message U E m) (\<lambda>h. xs @ gathered_ids h)"
proof -
  note photo = lists_photo [where g = "(t, [], [], [])" for t, simplified]
  show ?thesis unfolding gather_message_def
    by (rule lists_then [OF photo], rule lists_then [OF lists_attached], rule lists_then [OF lists_spoken],
      rule lists_then [OF lists_spoken], rule lists_spoken)
qed

lemma message_tracked:
  assumes "tracked w0 xs w" "prepare_message U E limit m w = (r, w1)"
  shows "case r of Prepared p \<Rightarrow> tracked w0 (xs @ tp_uploads p) w1 | _ \<Rightarrow> \<exists>ids. tracked w0 ids w1"
proof (cases "ti_chat m \<and> too_large limit m = None")
  case True
  obtain q w2 where g: "gather_message U E m w = (q, w2)" by fastforce
  from listsD [OF lists_message assms(1) g] assms(2) True g show ?thesis
    by (cases q) (auto simp: prepare_message_def finish_message_def Let_def)
next
  case False
  consider "\<not> ti_chat m" | l where "ti_chat m" "too_large limit m = Some l" using False by auto
  then show ?thesis
  proof cases
    case 1
    from assms(2) [unfolded prepare_message_empty [OF 1]] assms(1) show ?thesis by (auto simp: finish_message_def Let_def)
  next
    case 2
    from assms(2) [unfolded prepare_message_large [OF 2]] assms(1) show ?thesis by auto
  qed
qed

lemma turn_tracked:
  assumes "okU (fi_rows w)" "prepare_turn U E limit m reply w = (r, w1)"
  shows "case r of Prepared p \<Rightarrow> tracked w (tp_uploads p) w1 | _ \<Rightarrow> \<exists>ids. tracked w ids w1"
proof (cases "oversized limit m reply = None")
  case False
  then obtain l where "oversized limit m reply = Some l" by blast
  from assms(2) [unfolded prepare_turn_oversized [OF this]] tracked_refl [OF assms(1)] show ?thesis by auto
next
  case True
  note e = assms(2) [unfolded prepare_turn_sized [OF True]]
  obtain r1 w2 where p: "prepare_message U E limit m w = (r1, w2)" by fastforce
  note t1 = message_tracked [OF tracked_refl [OF assms(1)] p, simplified]
  show ?thesis
  proof (cases "\<exists>p q. r1 = Prepared p \<and> reply = Some q")
    case False
    with e p t1 show ?thesis by (cases r1; cases reply) auto
  next
    case both: True
    then obtain p1 q where b: "r1 = Prepared p1" "reply = Some q" by blast
    obtain r2 w3 where p2: "prepare_message U E limit q w2 = (r2, w3)" by fastforce
    have "tracked w (tp_uploads p1) w2" using t1 b by simp
    from message_tracked [OF this p2] b p p2 e show ?thesis
      by (cases r2) (auto simp: tracked_swap)
  qed
qed

end

definition demo_media_env :: media_env where
  "demo_media_env = \<lparr>me_cfg = demo_upload_cfg, me_download = (\<lambda>_. Inr ''abc''), me_store = (\<lambda>_. (Fine, ''u1'')), me_extension = (\<lambda>_. None),
     me_stt = (\<lambda>_ _. Inr ''spoken''), me_now = 1, me_user = 1, me_for_chat = 1\<rparr>"

interpretation rows_mem: upload_rows upload_mem "rows_ok up_id (\<lambda>_. True)" E for E
  unfolding upload_rows_def upload_mem_def by (rule plain_rows.table_laws_axioms)

section \<open>Properties\<close>

text \<open>
  The uploads a prepared message names are exactly the rows it added: they are new, they belong
  to the user and the chat of the message, none is named twice, and no other row has changed,
  also when storing some of the files failed.
\<close>

theorem tg_media_rows:
  assumes "table_laws U up_id (\<lambda>_. True) okU" "okU (fi_rows w)" "prepare_turn U E limit m reply w = (Prepared p, w')"
  shows "distinct (tp_uploads p) \<and> (\<forall>k. if k \<in> set (tp_uploads p)
      then tb_view U (fi_rows w) k = None \<and>
        (\<exists>r. tb_view U (fi_rows w') k = Some r \<and> up_user r = me_user E \<and> up_chat r = Some (me_for_chat E))
      else tb_view U (fi_rows w') k = tb_view U (fi_rows w) k)"
proof -
  have l: "upload_rows U okU" using assms(1) by (simp add: upload_rows_def)
  from upload_rows.turn_tracked [OF l assms(2,3)] show ?thesis
    unfolding prepare_result.case upload_rows.tracked_def [OF l] upload_rows.own_row_def [OF l] by blast
qed

definition demo_incoming :: tg_incoming where
  "demo_incoming = \<lparr>ti_id = 7, ti_chat = True, ti_caption = None, ti_text = Some ''look'', ti_photo = [\<lparr>fl_id = ''f1'', fl_size = Some 3,
     fl_mime = None, fl_name = None\<rparr>], ti_document = None, ti_voice = None, ti_video_note = None, ti_audio = None\<rparr>"

lemma demo_prepared:
  "\<exists>p w'. prepare_turn upload_mem demo_media_env (Some 10) demo_incoming (Some (demo_incoming\<lparr>ti_id := 6\<rparr>)) demo_files = (Prepared p, w')
     \<and> tp_uploads p = [3, 2]"
  by (simp add: prepare_turn_def prepare_message_def gather_message_def gather_photo_def gather_document_def gather_speech_def with_media_def
      demo_incoming_def too_large_def sized_files_def opt_list_def save_image_def download_def store_or_raise_def persist_buf_def
      persist_chunks_def persist_local_file_def s3_upload_file_def demo_media_env_def demo_upload_cfg_def demo_files_def upload_mem_def
      mem_table_def then_do_def give_def default_filename_def or_default_def opt_truthy_def finish_message_def Let_def)

theorem tg_media_rows_witness:
  "\<exists>p w' r. prepare_turn upload_mem demo_media_env (Some 10) demo_incoming (Some (demo_incoming\<lparr>ti_id := 6\<rparr>)) demo_files = (Prepared p, w')
     \<and> tp_uploads p = [3, 2] \<and> tb_view upload_mem (fi_rows w') 3 = Some r \<and> up_user r = 1"
proof -
  obtain p w' where p: "prepare_turn upload_mem demo_media_env (Some 10) demo_incoming (Some (demo_incoming\<lparr>ti_id := 6\<rparr>)) demo_files
      = (Prepared p, w')" "tp_uploads p = [3, 2]" using demo_prepared by blast
  have ok: "rows_ok up_id (\<lambda>_. True) (fi_rows demo_files)" by (simp add: demo_files_def rows_ok_def demo_upload_def)
  have laws: "table_laws upload_mem up_id (\<lambda>_. True) (rows_ok up_id (\<lambda>_. True))"
    unfolding upload_mem_def by (rule plain_rows.table_laws_axioms)
  from tg_media_rows [OF laws ok p(1)] p show ?thesis
    by (auto simp: demo_media_env_def dest!: spec [where x = 3])
qed

text \<open>
  The size limit is decided before anything is downloaded: a message is refused exactly when a
  file of it or of the message it answers is larger than the limit, and a refused message leaves
  rows, objects and workspace as they were.
\<close>

theorem tg_media_sized:
  assumes "prepare_turn U E limit m reply w = (r, w')"
  shows "((\<exists>l. r = UploadTooLarge l) \<longleftrightarrow> (\<exists>l n x. limit = Some l \<and> x \<in> set (sized_files m @ concat (map sized_files (opt_list reply)))
       \<and> fl_size x = Some n \<and> l < n))
    \<and> ((\<exists>l. r = UploadTooLarge l) \<longrightarrow> w' = w)"
proof -
  have big: "(\<exists>l. too_large limit q = Some l) \<longleftrightarrow> (\<exists>l n x. limit = Some l \<and> x \<in> set (sized_files q) \<and> fl_size x = Some n \<and> l < n)" for q
    by (force simp: too_large_def split: option.splits if_splits)
  have o: "oversized limit m reply \<noteq> None \<longleftrightarrow> (\<exists>l. too_large limit m = Some l) \<or> (\<exists>q. reply = Some q \<and> (\<exists>l. too_large limit q = Some l))"
    by (cases "too_large limit m"; cases reply) (auto simp: oversized_def)
  have s: "oversized limit m reply \<noteq> None \<longleftrightarrow> (\<exists>l n x. limit = Some l \<and> x \<in> set (sized_files m @ concat (map sized_files (opt_list reply)))
       \<and> fl_size x = Some n \<and> l < n)"
    unfolding o big by (cases reply) (auto simp: opt_list_def)
  show ?thesis
  proof (cases "oversized limit m reply")
    case (Some l)
    from assms [unfolded prepare_turn_oversized [OF Some]] s Some show ?thesis by auto
  next
    case None
    have fits: "prepare_message U E limit q v \<noteq> (UploadTooLarge l, v')" if "q = m \<or> reply = Some q" for q v l v'
      using o None that by (auto simp: prepare_message_def split: option.splits prod.splits sum.splits)
    from assms [unfolded prepare_turn_sized [OF None]] fits have "\<nexists>l. r = UploadTooLarge l"
      by (cases reply) (auto split: prod.splits prepare_result.splits)
    with s None show ?thesis by auto
  qed
qed

theorem tg_media_sized_witness:
  "\<exists>l. fst (prepare_turn upload_mem demo_media_env (Some 2) demo_incoming None demo_files) = UploadTooLarge l"
proof -
  obtain r w' where r: "prepare_turn upload_mem demo_media_env (Some 2) demo_incoming None demo_files = (r, w')" by (metis surj_pair)
  have x: "\<exists>l n x. Some 2 = Some l \<and> x \<in> set (sized_files demo_incoming @ concat (map sized_files (opt_list None))) \<and> fl_size x = Some n \<and> l < (n :: int)"
    by (simp add: sized_files_def demo_incoming_def opt_list_def)
  from tg_media_sized [OF r, THEN conjunct1, THEN iffD2, OF x] show ?thesis unfolding r by simp
qed

end
