(* ===== verification/Vault.thy ===== *)
theory Vault
  imports Py_Text Ownership Accounts "HOL-Library.List_Lexorder"
begin

text \<open>
  Secrets for the agent: the vault's rules and files (\<open>services/ssh_vault\<close>), the integrations with
  their cipher (\<open>services/integrations\<close>), the files made of them for the sidecar
  (\<open>integrations/runtime.py\<close>) and the settings endpoints (\<open>api/settings/router.py\<close>). The cipher, the
  key parsers, Telegram's check of a token and \<open>orjson\<close> are parameters. The lock of the
  directory makes each operation on it atomic.
\<close>

section \<open>The vault's rules\<close>

definition is_lower_digit :: "char \<Rightarrow> bool" where
  "is_lower_digit c \<longleftrightarrow> in_range 97 122 c \<or> in_range 48 57 c"

definition is_name_char :: "char \<Rightarrow> bool" where
  "is_name_char c \<longleftrightarrow> is_lower_digit c \<or> c \<in> set ''-_''"

definition is_host_char :: "char \<Rightarrow> bool" where
  "is_host_char c \<longleftrightarrow> is_ascii_alnum c \<or> c \<in> set ''.-_''"

definition validate_name :: "string \<Rightarrow> string + string" where
  "validate_name name =
     (if name \<noteq> [] \<and> length name \<le> 31 \<and> is_lower_digit (hd name) \<and> (\<forall>c \<in> set name. is_name_char c) then Inr name
      else Inl ''name must be lowercase letters/digits/-/_ (max 31 chars)'')"

definition validate_host :: "string \<Rightarrow> string + string" where
  "validate_host host =
     (if host \<noteq> [] \<and> length host \<le> 253 \<and> (\<forall>c \<in> set host. is_host_char c) then Inr host
      else Inl ''host must be a hostname or IP (letters, digits, . - _)'')"

definition resolve_user :: "string \<Rightarrow> string \<Rightarrow> string + string" where
  "resolve_user user dflt =
     (let u = (if user = [] then dflt else user) in
      if u \<noteq> [] \<and> length u \<le> 64 \<and> (\<forall>c \<in> set u. is_host_char c) then Inr u
      else Inl ''user must be letters, digits, . - _ (max 64 chars)'')"

type_synonym folder = "string \<Rightarrow> string option"

definition write_secret :: "string \<Rightarrow> string \<Rightarrow> folder \<Rightarrow> folder" where
  "write_secret name body fs = fs(name \<mapsto> body)"

section \<open>Percent encoding\<close>

text \<open>\<open>quote(s, safe='')\<close>: what is not unreserved is encoded byte by byte, in UTF-8.\<close>

definition hex_digit :: "nat \<Rightarrow> char" where
  "hex_digit n = char_of (if n < 10 then 48 + n else 55 + n)"

definition quote_byte :: "nat \<Rightarrow> string" where
  "quote_byte n = [CHR ''%'', hex_digit (n div 16), hex_digit (n mod 16)]"

definition is_unreserved :: "char \<Rightarrow> bool" where
  "is_unreserved c \<longleftrightarrow> is_ascii_alnum c \<or> c \<in> set ''_.-~''"

definition quote_char :: "char \<Rightarrow> string" where
  "quote_char c =
     (let n = of_char c :: nat in
      if is_unreserved c then [c] else if n < 128 then quote_byte n else quote_byte (192 + n div 64) @ quote_byte (128 + n mod 64))"

definition quote :: "string \<Rightarrow> string" where
  "quote s = concat (map quote_char s)"

definition credential_line :: "string \<Rightarrow> string \<Rightarrow> string \<Rightarrow> string" where
  "credential_line user token host = ''https://'' @ quote user @ '':'' @ quote token @ ''@'' @ host"

section \<open>Keys by name\<close>

record ssh_meta =
  sm_name :: string
  sm_host :: string
  sm_user :: string
  sm_created :: int

text \<open>The folder and the entries that \<open>vault.json\<close> holds, a dict in the order of insertion.\<close>

record vault =
  va_files :: folder
  va_keys :: "(string \<times> ssh_meta) list"

text \<open>The dash of the header in UTF-8.\<close>

definition config_header :: string where
  "config_header = ''# generated by codex-server '' @ [char_of (226 :: nat), char_of (128 :: nat), char_of (148 :: nat)] @ '' do not edit by hand'' @ NL"

definition host_block :: "ssh_meta \<Rightarrow> string" where
  "host_block m = NL @ ''Host '' @ sm_name m @ '' '' @ sm_host m @ NL @ ''    HostName '' @ sm_host m @ NL @ ''    User '' @ sm_user m @ NL
     @ ''    IdentityFile ~/.ssh/id_'' @ sm_name m @ NL @ ''    IdentitiesOnly yes'' @ NL @ ''    StrictHostKeyChecking accept-new'' @ NL"

definition key_list :: "vault \<Rightarrow> ssh_meta list" where
  "key_list V = sort_key sm_name (map snd (va_keys V))"

definition write_config :: "vault \<Rightarrow> vault" where
  "write_config V = V\<lparr>va_files := write_secret ''config'' (config_header @ concat (map host_block (key_list V))) (va_files V)\<rparr>"

definition ssh_add :: "string \<Rightarrow> string \<Rightarrow> string \<Rightarrow> string \<Rightarrow> int \<Rightarrow> vault \<Rightarrow> (string + ssh_meta) \<times> vault" where
  "ssh_add name host user private_key now V =
     (case (validate_name (py_strip name), validate_host (py_strip host), resolve_user (py_strip user) ''git'') of
        (Inl e, _, _) \<Rightarrow> (Inl e, V) | (Inr _, Inl e, _) \<Rightarrow> (Inl e, V) | (Inr _, Inr _, Inl e) \<Rightarrow> (Inl e, V)
      | (Inr n, Inr h, Inr u) \<Rightarrow>
          let key = py_strip private_key in
          if \<not> sublist ''PRIVATE KEY'' key then (Inl ''private_key is not an OpenSSH/PEM private key'', V)
          else let m = \<lparr>sm_name = n, sm_host = h, sm_user = u, sm_created = now\<rparr> in
            (Inr m, write_config (V\<lparr>va_keys := dict_set n m (va_keys V), va_files := write_secret (''id_'' @ n) (key @ NL) (va_files V)\<rparr>)))"

definition ssh_delete :: "string \<Rightarrow> vault \<Rightarrow> (string + unit) \<times> vault" where
  "ssh_delete name V =
     (case map_of (va_keys V) name of
        None \<Rightarrow> (Inl (''unknown key: '' @ name), V)
      | Some _ \<Rightarrow> (Inr (), write_config (V\<lparr>va_keys := filter (\<lambda>p. fst p \<noteq> name) (va_keys V),
            va_files := (va_files V)(''id_'' @ name := None)\<rparr>)))"

section \<open>Tokens by name\<close>

record token_record = ssh_meta +
  tr_token :: string

record token_vault =
  tv_files :: folder
  tv_tokens :: "(string \<times> token_record) list"

definition token_list :: "token_vault \<Rightarrow> ssh_meta list" where
  "token_list V = sort_key sm_name (map (\<lambda>p. ssh_meta.truncate (snd p)) (tv_tokens V))"

definition write_credentials :: "token_vault \<Rightarrow> token_vault" where
  "write_credentials V =
     (let rows = map (\<lambda>r. credential_line (sm_user r) (tr_token r) (sm_host r)) (sort_key sm_name (map snd (tv_tokens V))) in
      V\<lparr>tv_files := write_secret ''git-credentials'' (if rows = [] then [] else join_with NL rows @ NL) (tv_files V)\<rparr>)"

definition token_add :: "string \<Rightarrow> string \<Rightarrow> string \<Rightarrow> string \<Rightarrow> int \<Rightarrow> token_vault \<Rightarrow> (string + ssh_meta) \<times> token_vault" where
  "token_add name host user token now V =
     (case (validate_name (py_strip name), validate_host (py_strip host), resolve_user (py_strip user) ''x-access-token'') of
        (Inl e, _, _) \<Rightarrow> (Inl e, V) | (Inr _, Inl e, _) \<Rightarrow> (Inl e, V) | (Inr _, Inr _, Inl e) \<Rightarrow> (Inl e, V)
      | (Inr n, Inr h, Inr u) \<Rightarrow>
          if py_strip token = [] then (Inl ''token is required'', V)
          else let r = \<lparr>sm_name = n, sm_host = h, sm_user = u, sm_created = now, tr_token = py_strip token\<rparr> in
            (Inr (ssh_meta.truncate r), write_credentials (V\<lparr>tv_tokens := dict_set n r (tv_tokens V)\<rparr>)))"

definition token_delete :: "string \<Rightarrow> token_vault \<Rightarrow> (string + unit) \<times> token_vault" where
  "token_delete name V =
     (case map_of (tv_tokens V) name of
        None \<Rightarrow> (Inl (''unknown token: '' @ name), V)
      | Some _ \<Rightarrow> (Inr (), write_credentials (V\<lparr>tv_tokens := filter (\<lambda>p. fst p \<noteq> name) (tv_tokens V)\<rparr>)))"

section \<open>Integrations\<close>

datatype integration_kind = IK_GITHUB | IK_GITLAB | IK_SSH | IK_TELEGRAM

fun kind_value :: "integration_kind \<Rightarrow> string" where
  "kind_value IK_GITHUB = ''github''" | "kind_value IK_GITLAB = ''gitlab''" | "kind_value IK_SSH = ''ssh''"
| "kind_value IK_TELEGRAM = ''telegram''"

record tg_options =
  to_admins :: "int list"
  to_url :: string

record integration_options =
  io_fingerprint :: "string option"
  io_bot :: "string option"
  io_telegram :: "tg_options option"
  io_secret :: "string option"

record integration =
  ig_id :: int
  ig_name :: string
  ig_kind :: integration_kind
  ig_host :: string
  ig_user :: string
  ig_enabled :: bool
  ig_secret :: string
  ig_options :: integration_options
  ig_created :: int
  ig_updated :: int

record integration_input =
  ii_name :: string
  ii_kind :: integration_kind
  ii_host :: string
  ii_user :: string
  ii_secret :: "string option"
  ii_enabled :: bool
  ii_telegram :: tg_options

record integration_view =
  iv_id :: int
  iv_name :: string
  iv_kind :: integration_kind
  iv_host :: string
  iv_user :: string
  iv_enabled :: bool
  iv_has_secret :: bool
  iv_created :: int
  iv_updated :: int
  iv_telegram :: tg_options
  iv_fingerprint :: "string option"
  iv_bot :: "string option"

text \<open>
  The cipher answers None when the master key is missing or the text is not its own. The check of
  a secret gives the botname's name or the text of a ValueError.
\<close>

record vault_env =
  ve_seal :: "string \<Rightarrow> string option"
  ve_unseal :: "string \<Rightarrow> string option"
  ve_check :: "integration_kind \<Rightarrow> string \<Rightarrow> string + string option"
  ve_fingerprint :: "string \<Rightarrow> string"
  ve_https :: "string \<Rightarrow> bool"
  ve_random :: string
  ve_now :: int

definition seal :: "vault_env \<Rightarrow> string \<Rightarrow> string + string" where
  "seal E v = (case ve_seal E v of None \<Rightarrow> Inl ''Integration master key is unavailable; run settings preparation'' | Some s \<Rightarrow> Inr s)"

definition unseal :: "vault_env \<Rightarrow> string \<Rightarrow> string + string" where
  "unseal E v = (case ve_unseal E v of None \<Rightarrow> Inl ''Cannot decrypt integration with the configured master key'' | Some s \<Rightarrow> Inr s)"

definition no_tg_options :: tg_options where
  "no_tg_options = \<lparr>to_admins = [], to_url = []\<rparr>"

definition no_options :: integration_options where
  "no_options = \<lparr>io_fingerprint = None, io_bot = None, io_telegram = None, io_secret = None\<rparr>"

definition integration_list :: "(integration, 'd) table \<Rightarrow> 'd \<Rightarrow> integration list" where
  "integration_list T d = sort_key ig_name (tb_select T (\<lambda>_. True) d)"

definition view_integration :: "integration \<Rightarrow> integration_view" where
  "view_integration r = \<lparr>iv_id = ig_id r, iv_name = ig_name r, iv_kind = ig_kind r, iv_host = ig_host r, iv_user = ig_user r,
     iv_enabled = ig_enabled r, iv_has_secret = (ig_secret r \<noteq> []), iv_created = ig_created r, iv_updated = ig_updated r,
     iv_telegram = (case io_telegram (ig_options r) of None \<Rightarrow> no_tg_options | Some t \<Rightarrow> t),
     iv_fingerprint = io_fingerprint (ig_options r), iv_bot = io_bot (ig_options r)\<rparr>"

text \<open>The name, host and user under which an entry may be saved, or the text of the ValueError.\<close>

definition check_fields :: "integration list \<Rightarrow> integration_input \<Rightarrow> int option \<Rightarrow> integration option \<Rightarrow> string + string \<times> string \<times> string" where
  "check_fields existing data entry row =
     (let name = py_strip (ii_name data); others = filter (\<lambda>x. Some (ig_id x) \<noteq> entry) existing; kind = ii_kind data in
      if name = [] then Inl ''Name is required''
      else if \<exists>x \<in> set others. ig_name x = name then Inl ''This name is already in use''
      else if (case row of None \<Rightarrow> False | Some r \<Rightarrow> ig_kind r \<noteq> kind) then Inl ''Integration type cannot be changed''
      else if kind = IK_TELEGRAM \<and> (\<exists>x \<in> set others. ig_kind x = kind) then Inl ''Only one Telegram bot is supported''
      else case (if kind = IK_TELEGRAM then Inr [] else validate_host (py_strip (ii_host data))) of
        Inl e \<Rightarrow> Inl e
      | Inr host \<Rightarrow>
          (case (if kind = IK_SSH then case validate_name name of Inl e \<Rightarrow> Inl e | Inr _ \<Rightarrow> resolve_user (py_strip (ii_user data)) ''git''
                 else Inr (py_strip (ii_user data))) of
             Inl e \<Rightarrow> Inl e
           | Inr user \<Rightarrow>
               if (kind = IK_GITHUB \<or> kind = IK_GITLAB) \<and> (\<exists>x \<in> set others. ig_kind x = kind \<and> ig_host x = host)
               then Inl ''A connection for this provider and host already exists'' else Inr (name, host, user)))"

definition check_value :: "vault_env \<Rightarrow> integration_input \<Rightarrow> integration option \<Rightarrow> string + string option \<times> string option" where
  "check_value E data row =
     (let value = map_option py_strip (ii_secret data) in
      if value = Some [] \<or> (row = None \<and> value = None) then Inl ''Secret is required''
      else case value of None \<Rightarrow> Inr (None, None)
        | Some v \<Rightarrow> (case ve_check E (ii_kind data) v of Inl e \<Rightarrow> Inl e | Inr botname \<Rightarrow> Inr (Some v, botname)))"

definition check_options ::
  "vault_env \<Rightarrow> integration_input \<Rightarrow> integration option \<Rightarrow> string option \<Rightarrow> string option \<Rightarrow> string + integration_options" where
  "check_options E data row value botname =
     (let o0 = (case row of None \<Rightarrow> no_options | Some r \<Rightarrow> ig_options r);
          o1 = (if ii_kind data = IK_SSH \<and> value \<noteq> None then o0\<lparr>io_fingerprint := Some (ve_fingerprint E (the value))\<rparr> else o0)
      in if ii_kind data \<noteq> IK_TELEGRAM then Inr o1
         else let o2 = (if value \<noteq> None then o1\<lparr>io_bot := botname\<rparr> else o1); url = to_url (ii_telegram data) in
           if url \<noteq> [] \<and> \<not> ve_https E url then Inl ''Webhook URL must use HTTPS''
           else let o3 = o2\<lparr>io_telegram := Some (ii_telegram data)\<rparr> in
             if io_secret o3 \<noteq> None then Inr o3
             else (case seal E (ve_random E) of Inl e \<Rightarrow> Inl e | Inr s \<Rightarrow> Inr (o3\<lparr>io_secret := Some s\<rparr>)))"

text \<open>A row is written, and its time stamp set, only when a value has changed.\<close>

definition stamp :: "int \<Rightarrow> integration \<Rightarrow> integration \<Rightarrow> integration" where
  "stamp now old new = (if new = old then old else new\<lparr>ig_updated := now\<rparr>)"

text \<open>\<open>save\<close> in one transaction under the advisory lock: an exception leaves the table as it was.\<close>

definition save_integration ::
  "vault_env \<Rightarrow> (integration, 'd) table \<Rightarrow> integration_input \<Rightarrow> int option \<Rightarrow> 'd \<Rightarrow> (string + integration) \<times> 'd" where
  "save_integration E T data entry d =
     (let row = Option.bind entry (tb_view T d) in
      if entry \<noteq> None \<and> row = None then (Inl ''Integration not found'', d)
      else case check_fields (integration_list T d) data entry row of
        Inl e \<Rightarrow> (Inl e, d)
      | Inr (name, host, user) \<Rightarrow>
          (case check_value E data row of
             Inl e \<Rightarrow> (Inl e, d)
           | Inr (value, botname) \<Rightarrow>
               (case check_options E data row value botname of
                  Inl e \<Rightarrow> (Inl e, d)
                | Inr opts \<Rightarrow>
                    (case (case value of Some v \<Rightarrow> seal E v | None \<Rightarrow> Inr (case row of Some r \<Rightarrow> ig_secret r | None \<Rightarrow> [])) of
                       Inl e \<Rightarrow> (Inl e, d)
                     | Inr sealed \<Rightarrow>
                         let fill = (\<lambda>r. stamp (ve_now E) r (r\<lparr>ig_name := name, ig_host := host, ig_user := user,
                               ig_enabled := ii_enabled data, ig_options := opts, ig_secret := sealed\<rparr>))
                         in case row of
                           None \<Rightarrow>
                             (case tb_insert T (\<lambda>k. fill \<lparr>ig_id = k, ig_name = [], ig_kind = ii_kind data, ig_host = [], ig_user = [],
                                  ig_enabled = True, ig_secret = [], ig_options = no_options, ig_created = ve_now E, ig_updated = ve_now E\<rparr>) d of
                                None \<Rightarrow> (Inl ''IntegrityError'', d) | Some (r, d1) \<Rightarrow> (Inr r, d1))
                         | Some r \<Rightarrow> (Inr (fill r), snd (tb_update T (\<lambda>x. ig_id x = ig_id r) fill d))))))"

text \<open>The request that checks a provider's token: address and headers.\<close>

definition provider_request :: "integration \<Rightarrow> string \<Rightarrow> string \<times> (string \<times> string) list" where
  "provider_request r value =
     (let host = (if ig_host r = ''github.com'' then ''api.github.com'' else ig_host r);
          gitlab = (ig_kind r = IK_GITLAB);
          path = (if gitlab then ''/api/v4/user'' else if ig_host r = ''github.com'' then ''/user'' else ''/api/v3/user'')
      in (''https://'' @ host @ path, if gitlab then [(''PRIVATE-TOKEN'', value)] else [(''Authorization'', ''Bearer '' @ value)]))"

text \<open>\<open>get\<close> says whether the provider answers the request without an HTTP error.\<close>

definition check_integration :: "vault_env \<Rightarrow> (string \<times> (string \<times> string) list \<Rightarrow> bool) \<Rightarrow> integration \<Rightarrow> string + string" where
  "check_integration E get r =
     (case unseal E (ig_secret r) of
        Inl e \<Rightarrow> Inl e
      | Inr value \<Rightarrow>
          if ig_kind r = IK_SSH \<or> ig_kind r = IK_TELEGRAM
          then (case ve_check E (ig_kind r) value of
                  Inl e \<Rightarrow> Inl e
                | Inr _ \<Rightarrow> Inr (if ig_kind r = IK_SSH then ''Key format verified; server access not tested'' else ''Telegram token verified''))
          else if get (provider_request r value) then Inr ''Provider connection verified''
          else Inl ''Provider connection failed; check host, token and permissions'')"

section \<open>Files for the sidecar\<close>

definition managed :: "integration \<Rightarrow> string" where
  "managed r = ''managed_'' @ str_of_int (ig_id r)"

definition managed_block :: "integration \<Rightarrow> string" where
  "managed_block r = ''Host '' @ ig_name r @ NL @ ''    HostName '' @ ig_host r @ NL @ ''    User '' @ ig_user r @ NL
     @ ''    IdentityFile ~/.ssh/'' @ managed r @ NL @ ''    IdentitiesOnly yes'' @ NL @ ''    StrictHostKeyChecking accept-new'' @ NL"

definition git_user :: "integration \<Rightarrow> string" where
  "git_user r = (if ig_user r \<noteq> [] then ig_user r else if ig_kind r = IK_GITLAB then ''oauth2'' else ''x-access-token'')"

fun decode_all :: "vault_env \<Rightarrow> integration list \<Rightarrow> (integration \<times> string) list option" where
  "decode_all E [] = Some []"
| "decode_all E (r # rs) =
     (case unseal E (ig_secret r) of Inl _ \<Rightarrow> None | Inr s \<Rightarrow> map_option (\<lambda>xs. (r, s) # xs) (decode_all E rs))"

text \<open>\<open>glob\<close> and \<open>unlink\<close>: the files of the pattern \<open>managed_*\<close> that are not to be kept go.\<close>

definition sweep :: "string set \<Rightarrow> folder \<Rightarrow> folder" where
  "sweep keep fs = (\<lambda>n. if prefix ''managed_'' n \<and> n \<notin> keep then None else fs n)"

definition write_all :: "(string \<times> string) list \<Rightarrow> folder \<Rightarrow> folder" where
  "write_all xs fs = foldl (\<lambda>g (n, b). write_secret n b g) fs xs"

definition materialize ::
  "vault_env \<Rightarrow> ((string \<times> string \<times> string) list \<Rightarrow> string) \<Rightarrow> integration list \<Rightarrow> folder \<Rightarrow> bool \<times> folder" where
  "materialize E dumps rows fs =
     (case decode_all E (filter (\<lambda>r. ig_enabled r \<and> ig_kind r \<noteq> IK_TELEGRAM) rows) of
        None \<Rightarrow> (False, sweep {} (write_all [(''config'', []), (''git-credentials'', []), (''cli-tokens.json'', ''[]'')] fs))
      | Some decoded \<Rightarrow>
          let keys = filter (\<lambda>p. ig_kind (fst p) = IK_SSH) decoded; tokens = filter (\<lambda>p. ig_kind (fst p) \<noteq> IK_SSH) decoded in
          (True, sweep (set (map (managed \<circ> fst) keys)) (write_all (map (\<lambda>(r, s). (managed r, s @ NL)) keys
             @ [(''config'', join_with NL (map (managed_block \<circ> fst) keys)),
                (''git-credentials'', join_with NL (map (\<lambda>(r, s). credential_line (git_user r) s (ig_host r)) tokens) @ NL),
                (''cli-tokens.json'', dumps (map (\<lambda>(r, s). (kind_value (ig_kind r), ig_host r, s)) tokens))]) fs)))"

section \<open>The settings endpoints\<close>

text \<open>\<open>admin_session\<close> of every endpoint: the status of the refusal or the administrator.\<close>

definition admin_session ::
  "crypto \<Rightarrow> auth_cfg \<Rightarrow> (user_row, 'u) table \<Rightarrow> int \<Rightarrow> bool \<Rightarrow> string option \<Rightarrow> string option \<Rightarrow> 'u \<Rightarrow> nat + user_row" where
  "admin_session C A U now is_get header cookie d =
     (if \<not> is_get \<and> header \<noteq> Some ''1'' then Inl 403
      else case cookie of
        None \<Rightarrow> Inl 401
      | Some token \<Rightarrow>
          (case validate_token C A now token of
             Inl _ \<Rightarrow> Inl 401
           | Inr email \<Rightarrow>
               (case get_by_email U email d of
                  None \<Rightarrow> Inl 403
                | Some u \<Rightarrow> if u_role u \<noteq> ROLE_ADMIN then Inl 403 else Inr u)))"

datatype settings_call =
    ScList
  | ScCreate integration_input
  | ScUpdate int integration_input
  | ScDelete int
  | ScCheck int

datatype settings_reply = SrList "integration_view list" | SrView integration_view | SrDone | SrMessage string

definition is_get_call :: "settings_call \<Rightarrow> bool" where
  "is_get_call c = (case c of ScList \<Rightarrow> True | _ \<Rightarrow> False)"

definition save_endpoint ::
  "vault_env \<Rightarrow> (integration, 'd) table \<Rightarrow> integration_input \<Rightarrow> int option \<Rightarrow> 'd \<Rightarrow> (nat + settings_reply) \<times> 'd" where
  "save_endpoint E T data entry d =
     (case save_integration E T data entry d of (Inl _, d1) \<Rightarrow> (Inl 400, d1) | (Inr r, d1) \<Rightarrow> (Inr (SrView (view_integration r)), d1))"

definition settings_endpoint ::
  "vault_env \<Rightarrow> (string \<times> (string \<times> string) list \<Rightarrow> bool) \<Rightarrow> (integration, 'd) table \<Rightarrow> settings_call \<Rightarrow> 'd \<Rightarrow> (nat + settings_reply) \<times> 'd" where
  "settings_endpoint E get T c d =
     (case c of
        ScList \<Rightarrow> (Inr (SrList (map view_integration (integration_list T d))), d)
      | ScCreate data \<Rightarrow> save_endpoint E T data None d
      | ScUpdate i data \<Rightarrow> save_endpoint E T data (Some i) d
      | ScDelete i \<Rightarrow>
          (case tb_view T d i of None \<Rightarrow> (Inl 404, d) | Some r \<Rightarrow> (Inr SrDone, snd (tb_delete T (\<lambda>x. ig_id x = i) d)))
      | ScCheck i \<Rightarrow>
          (case tb_view T d i of
             None \<Rightarrow> (Inl 404, d)
           | Some r \<Rightarrow> (case check_integration E get r of Inl _ \<Rightarrow> (Inl 400, d) | Inr m \<Rightarrow> (Inr (SrMessage m), d))))"

end
