(* ===== verification/Vault_Files.thy ===== *)
theory Vault_Files
  imports Vault
begin

text \<open>
  The files of the vault read back: a reader of \<open>ssh_config\<close> by lines and words, and one of
  git's credential store. What was saved under the vault's rules is what they read, so no value
  adds a line or a directive.
\<close>

section \<open>Readers\<close>

lemma split_on_at: "split_on c (a @ c # b) = split_on c a @ split_on c b"
proof (induction a)
  case (Cons x a)
  then show ?case by (cases "split_on c a") (auto split: list.splits)
qed simp

definition words_of :: "string \<Rightarrow> string list" where
  "words_of l = filter (\<lambda>p. p \<noteq> []) (split_on CHR '' '' l)"

text \<open>The settings up to the next \<open>Host\<close>, and the blocks with their patterns.\<close>

fun settings_of :: "string list \<Rightarrow> string list list" where
  "settings_of [] = []"
| "settings_of (l # ls) =
     (case words_of l of [] \<Rightarrow> settings_of ls | w # ws \<Rightarrow> if w = ''Host'' then [] else (w # ws) # settings_of ls)"

fun read_blocks :: "string list \<Rightarrow> (string list \<times> string list list) list" where
  "read_blocks [] = []"
| "read_blocks (l # ls) =
     (case words_of l of
        [] \<Rightarrow> read_blocks ls
      | w # ws \<Rightarrow> if w = ''Host'' then (ws, settings_of ls) # read_blocks ls else read_blocks ls)"

definition read_config :: "string \<Rightarrow> (string list \<times> string list list) list" where
  "read_config s = read_blocks (split_on CHR 0x0A s)"

text \<open>Percent decoding into bytes, and the bytes of a text.\<close>

definition hex_value :: "char \<Rightarrow> nat" where
  "hex_value c = (let n = of_char c :: nat in if n < 58 then n - 48 else n - 55)"

fun unquote :: "string \<Rightarrow> nat list" where
  "unquote [] = []"
| "unquote (c # s) =
     (case s of
        a # b # t \<Rightarrow> if c = CHR ''%'' then (16 * hex_value a + hex_value b) # unquote t else of_char c # unquote s
      | _ \<Rightarrow> of_char c # unquote s)"

definition utf8 :: "string \<Rightarrow> nat list" where
  "utf8 s = concat (map (\<lambda>c. let n = of_char c :: nat in if n < 128 then [n] else [192 + n div 64, 128 + n mod 64]) s)"

text \<open>A line of the credential store: user, password, host.\<close>

definition read_credential :: "string \<Rightarrow> nat list \<times> nat list \<times> string" where
  "read_credential l =
     (let rest = drop 8 l; info = takeWhile (\<lambda>c. c \<noteq> CHR ''@'') rest; user = takeWhile (\<lambda>c. c \<noteq> CHR '':'') info in
      (unquote user, unquote (drop (Suc (length user)) info), drop (Suc (length info)) rest))"

section \<open>Words\<close>

definition plain_word :: "string \<Rightarrow> bool" where
  "plain_word s \<longleftrightarrow> s \<noteq> [] \<and> CHR '' '' \<notin> set s \<and> CHR 0x0A \<notin> set s"

lemma words_prefix: "CHR '' '' \<notin> set w \<Longrightarrow> w \<noteq> [] \<Longrightarrow> words_of (w @ CHR '' '' # s) = w # words_of s"
  by (simp add: words_of_def split_on_at split_on_none)

lemma words_blank: "words_of (CHR '' '' # s) = words_of s"
  by (simp add: words_of_def)

lemma words_one: "plain_word w \<Longrightarrow> words_of w = [w]"
  by (simp add: words_of_def split_on_none plain_word_def)

lemma host_plain: "s \<noteq> [] \<Longrightarrow> \<forall>c \<in> set s. is_host_char c \<Longrightarrow> plain_word s"
  by (auto simp: plain_word_def is_host_char_def is_ascii_alnum_def in_range_def)

lemma name_plain: "s \<noteq> [] \<Longrightarrow> \<forall>c \<in> set s. is_name_char c \<Longrightarrow> plain_word s"
  by (auto simp: plain_word_def is_name_char_def is_lower_digit_def in_range_def)

lemma int_plain: "plain_word (pre @ str_of_int i) \<longleftrightarrow> CHR '' '' \<notin> set pre \<and> CHR 0x0A \<notin> set pre"
proof -
  have "\<not> is_digit (CHR '' '')" "\<not> is_digit (CHR 0x0A)" by (simp_all add: is_digit_def)
  with str_of_nat_digits have "CHR '' '' \<notin> set (str_of_nat n)" "CHR 0x0A \<notin> set (str_of_nat n)" for n by blast+
  moreover have "str_of_int i \<noteq> []" by (simp add: str_of_int_def)
  ultimately show ?thesis by (auto simp: plain_word_def str_of_int_def)
qed

section \<open>Blocks\<close>

text \<open>The lines of a block, with any patterns after \<open>Host\<close>.\<close>

definition block_lines :: "string \<Rightarrow> string \<Rightarrow> string \<Rightarrow> string \<Rightarrow> string list" where
  "block_lines pats host user key = [''Host '' @ pats, ''    HostName '' @ host, ''    User '' @ user, ''    IdentityFile ~/.ssh/'' @ key,
     ''    IdentitiesOnly yes'', ''    StrictHostKeyChecking accept-new'']"

definition block_settings :: "string \<Rightarrow> string \<Rightarrow> string \<Rightarrow> string list list" where
  "block_settings host user key = [[''HostName'', host], [''User'', user], [''IdentityFile'', ''~/.ssh/'' @ key], [''IdentitiesOnly'', ''yes''],
     [''StrictHostKeyChecking'', ''accept-new'']]"

lemma block_words:
  assumes "plain_word host" "plain_word user" "plain_word key"
  shows "map words_of (tl (block_lines pats host user key)) = block_settings host user key" "words_of (''Host '' @ pats) = ''Host'' # words_of pats"
proof -
  have k: "plain_word (''~/.ssh/'' @ key)" using assms(3) by (simp add: plain_word_def)
  have h: "words_of (''HostName '' @ host) = [''HostName'', host]" "words_of (''User '' @ user) = [''User'', user]"
    "words_of (''IdentityFile '' @ ''~/.ssh/'' @ key) = [''IdentityFile'', ''~/.ssh/'' @ key]"
    "words_of ''IdentitiesOnly yes'' = [''IdentitiesOnly'', ''yes'']"
    "words_of ''StrictHostKeyChecking accept-new'' = [''StrictHostKeyChecking'', ''accept-new'']"
    using words_prefix [of "''HostName''" host] words_prefix [of "''User''" user] words_prefix [of "''IdentityFile''" "''~/.ssh/'' @ key"]
      words_one [OF assms(1)] words_one [OF assms(2)] words_one [OF k] by (simp_all add: words_of_def)
  show "map words_of (tl (block_lines pats host user key)) = block_settings host user key"
    using h by (simp add: block_lines_def block_settings_def words_blank)
  show "words_of (''Host '' @ pats) = ''Host'' # words_of pats" using words_prefix [of "''Host''" pats] by simp
qed

lemma settings_plain:
  "\<forall>l \<in> set ls. words_of l \<noteq> [] \<and> hd (words_of l) \<noteq> ''Host'' \<Longrightarrow> settings_of (ls @ rest) = map words_of ls @ settings_of rest"
proof (induction ls)
  case (Cons l ls)
  then show ?case by (cases "words_of l") auto
qed simp

lemma blocks_plain:
  "\<forall>l \<in> set ls. words_of l \<noteq> [] \<and> hd (words_of l) \<noteq> ''Host'' \<Longrightarrow> read_blocks (ls @ rest) = read_blocks rest"
proof (induction ls)
  case (Cons l ls)
  then show ?case by (cases "words_of l") auto
qed simp

lemma read_block:
  assumes "plain_word host" "plain_word user" "plain_word key"
  shows "read_blocks (block_lines pats host user key @ rest) = (words_of pats, block_settings host user key @ settings_of rest) # read_blocks rest"
    "settings_of (block_lines pats host user key @ rest) = []"
proof -
  define t where "t = tl (block_lines pats host user key)"
  define l where "l = ''Host '' @ pats"
  have e: "block_lines pats host user key = l # t" by (simp add: block_lines_def t_def l_def)
  have m: "map words_of t = block_settings host user key" using block_words(1) [OF assms] by (simp add: t_def)
  then have "\<forall>w \<in> set (map words_of t). w \<noteq> [] \<and> hd w \<noteq> ''Host''" by (simp add: block_settings_def)
  then have t: "\<forall>l \<in> set t. words_of l \<noteq> [] \<and> hd (words_of l) \<noteq> ''Host''" by simp
  have s: "settings_of (t @ rest) = block_settings host user key @ settings_of rest" "read_blocks (t @ rest) = read_blocks rest"
    using settings_plain [OF t, of rest] blocks_plain [OF t, of rest] m by simp_all
  have h: "words_of l = ''Host'' # words_of pats" unfolding l_def by (rule block_words(2) [OF assms])
  show "read_blocks (block_lines pats host user key @ rest) = (words_of pats, block_settings host user key @ settings_of rest) # read_blocks rest"
    "settings_of (block_lines pats host user key @ rest) = []"
    unfolding e append_Cons read_blocks.simps settings_of.simps h list.case s by simp_all
qed

section \<open>The rules of a saved row\<close>

definition rule_ok :: "integration \<Rightarrow> bool" where
  "rule_ok r \<longleftrightarrow>
     (ig_kind r \<noteq> IK_TELEGRAM \<longrightarrow> validate_host (ig_host r) = Inr (ig_host r)) \<and>
     (ig_kind r = IK_SSH \<longrightarrow> validate_name (ig_name r) = Inr (ig_name r) \<and> ig_user r \<noteq> [] \<and> resolve_user (ig_user r) [] = Inr (ig_user r))"

lemma rule_plain:
  assumes "rule_ok r" "ig_kind r = IK_SSH"
  shows "plain_word (ig_name r)" "plain_word (ig_host r)" "plain_word (ig_user r)" "plain_word (managed r)"
proof -
  show "plain_word (ig_name r)"
    using assms by (auto simp: rule_ok_def validate_name_def intro!: name_plain split: if_splits)
  show "plain_word (ig_host r)" "plain_word (ig_user r)"
    using assms by (auto simp: rule_ok_def validate_host_def resolve_user_def Let_def intro!: host_plain split: if_splits)
  show "plain_word (managed r)" unfolding managed_def int_plain by simp
qed

definition host_entry :: "integration \<Rightarrow> string list \<times> string list list" where
  "host_entry r = ([ig_name r], block_settings (ig_host r) (ig_user r) (managed r))"

lemma managed_lines:
  assumes "rule_ok r" "ig_kind r = IK_SSH"
  shows "split_on CHR 0x0A (managed_block r) = block_lines (ig_name r) (ig_host r) (ig_user r) (managed r) @ [[]]"
proof -
  note p = rule_plain [OF assms, unfolded plain_word_def]
  have l: "split_on CHR 0x0A (x @ NL @ y) = x # split_on CHR 0x0A y" if "CHR 0x0A \<notin> set x" for x y
    using that by (simp add: NL_def split_on_append)
  have e: "managed_block r = (''Host '' @ ig_name r) @ NL @ (''    HostName '' @ ig_host r) @ NL @ (''    User '' @ ig_user r) @ NL
     @ (''    IdentityFile ~/.ssh/'' @ managed r) @ NL @ ''    IdentitiesOnly yes'' @ NL @ ''    StrictHostKeyChecking accept-new'' @ NL @ []"
    by (simp add: managed_block_def)
  show ?thesis unfolding e by (subst l, use p in simp)+ (simp add: block_lines_def)
qed

lemma split_join_lines: "ps \<noteq> [] \<Longrightarrow> split_on c (join_with [c] ps) = concat (map (split_on c) ps)"
  by (induction "[c]" ps rule: join_with.induct) (auto simp: split_on_at)

lemma read_managed:
  assumes "\<forall>r \<in> set rs. rule_ok r \<and> ig_kind r = IK_SSH"
  shows "read_blocks (concat (map (\<lambda>r. split_on CHR 0x0A (managed_block r)) rs)) = map host_entry rs
    \<and> settings_of (concat (map (\<lambda>r. split_on CHR 0x0A (managed_block r)) rs)) = []"
  using assms
proof (induction rs)
  case (Cons r rs)
  then have r: "rule_ok r" "ig_kind r = IK_SSH" by simp_all
  let ?rest = "[] # concat (map (\<lambda>r. split_on CHR 0x0A (managed_block r)) rs)"
  note p = rule_plain [OF r]
  have "settings_of ?rest = []" "read_blocks ?rest = map host_entry rs" using Cons by (simp_all add: words_of_def)
  with read_block [OF p(2,3,4), of "ig_name r" ?rest] words_one [OF p(1)] show ?case
    by (simp add: managed_lines [OF r] host_entry_def)
qed simp

lemma read_config_managed:
  assumes "\<forall>r \<in> set rs. rule_ok r \<and> ig_kind r = IK_SSH"
  shows "read_config (join_with NL (map managed_block rs)) = map host_entry rs"
proof (cases "rs = []")
  case True
  then show ?thesis by (simp add: read_config_def words_of_def)
next
  case False
  then have "split_on CHR 0x0A (join_with NL (map managed_block rs)) = concat (map (\<lambda>r. split_on CHR 0x0A (managed_block r)) rs)"
    using split_join_lines [of "map managed_block rs" "CHR 0x0A"] by (simp add: NL_def comp_def)
  with read_managed [OF assms] show ?thesis by (simp add: read_config_def)
qed

section \<open>Credentials\<close>

lemma hex_value_digit: "n < 16 \<Longrightarrow> hex_value (hex_digit n) = n"
  by (auto simp: hex_value_def hex_digit_def Let_def)

lemma utf8_small: "n < 256 \<Longrightarrow> 192 + n div 64 < (256 :: nat) \<and> 128 + n mod 64 < (256 :: nat)"
  using less_mult_imp_div_less [of n 4 64] mod_less_divisor [of 64 n] by linarith

lemma unquote_byte: "n < 256 \<Longrightarrow> unquote (quote_byte n @ t) = n # unquote t"
  by (simp add: quote_byte_def hex_value_digit)

lemma unquote_plain: "c \<noteq> CHR ''%'' \<Longrightarrow> unquote (c # t) = of_char c # unquote t"
  by (auto split: list.splits)

lemma unquote_quote: "unquote (quote s) = utf8 s"
proof (induction s)
  case (Cons c s)
  let ?n = "of_char c :: nat"
  have n: "?n < 256" by simp
  have "unquote (quote_char c @ quote s) = (if ?n < 128 then [?n] else [192 + ?n div 64, 128 + ?n mod 64]) @ unquote (quote s)"
  proof (cases "is_unreserved c")
    case True
    then have "c \<noteq> CHR ''%'' \<and> ?n < 128" by (auto simp: is_unreserved_def is_ascii_alnum_def in_range_def)
    with True show ?thesis by (simp add: quote_char_def unquote_plain del: unquote.simps)
  next
    case False
    have b: "192 + ?n div 64 < 256" "128 + ?n mod 64 < 256" using utf8_small [OF n] by simp_all
    show ?thesis
    proof (cases "?n < 128")
      case True
      with False have "quote_char c = quote_byte ?n" by (simp add: quote_char_def Let_def)
      with True unquote_byte [OF n] show ?thesis by (simp del: unquote.simps)
    next
      case big: False
      with False have "quote_char c = quote_byte (192 + ?n div 64) @ quote_byte (128 + ?n mod 64)" by (simp add: quote_char_def Let_def)
      with big unquote_byte [OF b(1)] unquote_byte [OF b(2)] show ?thesis by (simp del: unquote.simps)
    qed
  qed
  with Cons show ?case by (simp add: quote_def utf8_def Let_def del: unquote.simps)
qed (simp add: quote_def utf8_def)

lemma quote_chars: "c \<in> set (quote s) \<Longrightarrow> is_unreserved c \<or> c = CHR ''%''"
proof -
  have "is_ascii_alnum (hex_digit n)" if "n < 16" for n
    using that by (simp add: hex_digit_def is_ascii_alnum_def in_range_def)
  then have "is_unreserved (hex_digit n)" if "n < 16" for n using that by (simp add: is_unreserved_def)
  then have b: "c \<in> set (quote_byte n) \<Longrightarrow> is_unreserved c \<or> c = CHR ''%''" if "n < 256" for n
    using that by (auto simp: quote_byte_def)
  have n: "(of_char d :: nat) < 256" for d :: char by simp
  have "c \<in> set (quote_char d) \<Longrightarrow> is_unreserved c \<or> c = CHR ''%''" for d
    using utf8_small [OF n, of d] b [OF n, of d] b [of "192 + of_char d div 64"] b [of "128 + of_char d mod 64"]
    unfolding quote_char_def Let_def by (auto split: if_splits)
  then show "c \<in> set (quote s) \<Longrightarrow> is_unreserved c \<or> c = CHR ''%''" by (auto simp: quote_def)
qed

lemma quote_clean: "CHR ''@'' \<notin> set (quote s)" "CHR '':'' \<notin> set (quote s)" "CHR 0x0A \<notin> set (quote s)"
  using quote_chars [of _ s] by (force simp: is_unreserved_def is_ascii_alnum_def in_range_def)+

lemma takeWhile_to: "c \<notin> set a \<Longrightarrow> takeWhile (\<lambda>x. x \<noteq> c) (a @ c # b) = a"
  by (induction a) auto

lemma read_credential_line: "read_credential (credential_line u t h) = (utf8 u, utf8 t, h)"
proof -
  have d: "drop 8 (credential_line u t h) = (quote u @ '':'' @ quote t) @ CHR ''@'' # h" by (simp add: credential_line_def)
  have i: "takeWhile (\<lambda>c. c \<noteq> CHR ''@'') ((quote u @ '':'' @ quote t) @ CHR ''@'' # h) = quote u @ CHR '':'' # quote t"
    using takeWhile_to [of "CHR ''@''" "quote u @ '':'' @ quote t" h] quote_clean by simp
  have u: "takeWhile (\<lambda>c. c \<noteq> CHR '':'') (quote u @ CHR '':'' # quote t) = quote u" by (rule takeWhile_to) (rule quote_clean)
  show ?thesis unfolding read_credential_def Let_def d i u by (simp add: unquote_quote)
qed

lemma credential_one_line: "CHR 0x0A \<notin> set h \<Longrightarrow> CHR 0x0A \<notin> set (credential_line u t h)"
  using quote_clean(3) by (simp add: credential_line_def)

section \<open>The folder after a refresh\<close>

lemma write_all_get: "write_all xs fs n = (case map_of (rev xs) n of Some b \<Rightarrow> Some b | None \<Rightarrow> fs n)"
  by (induction xs arbitrary: fs) (auto simp: write_all_def write_secret_def map_add_def split: option.splits)

lemma map_of_rev_keys: "distinct (map fst xs) \<Longrightarrow> map_of (rev xs) = map_of xs"
  by (subst map_of_inject_set) (simp_all add: rev_map [symmetric])

lemma decode_all_some: "decode_all E rs = Some xs \<longleftrightarrow>
    (\<forall>r \<in> set rs. ve_unseal E (ig_secret r) \<noteq> None) \<and> xs = map (\<lambda>r. (r, the (ve_unseal E (ig_secret r)))) rs"
  by (induction rs arbitrary: xs) (auto simp: unseal_def split: option.splits)

lemma managed_inj [simp]: "managed r = managed s \<longleftrightarrow> ig_id r = ig_id s"
  by (simp add: managed_def)

lemma managed_names: "managed r \<noteq> ''config''" "managed r \<noteq> ''git-credentials''" "managed r \<noteq> ''cli-tokens.json''" "prefix ''managed_'' (managed r)"
  by (simp_all add: managed_def)

abbreviation secret_of :: "vault_env \<Rightarrow> integration \<Rightarrow> string" where
  "secret_of E r \<equiv> the (ve_unseal E (ig_secret r))"

lemma materialize_broken:
  assumes "materialize E dumps rows fs = (False, fs')"
  shows "fs' ''config'' = Some []" "fs' ''git-credentials'' = Some []" "prefix ''managed_'' n \<Longrightarrow> fs' n = None"
  using assms by (auto simp: materialize_def Let_def sweep_def write_all_get split: option.splits)

lemma materialize_files:
  assumes "materialize E dumps rows fs = (True, fs')" "distinct (map ig_id rows)"
  defines "ssh \<equiv> filter (\<lambda>r. ig_enabled r \<and> ig_kind r = IK_SSH) rows"
    and "git \<equiv> filter (\<lambda>r. ig_enabled r \<and> ig_kind r \<noteq> IK_TELEGRAM \<and> ig_kind r \<noteq> IK_SSH) rows"
  shows "fs' ''config'' = Some (join_with NL (map managed_block ssh))"
    and "fs' ''git-credentials'' = Some (join_with NL (map (\<lambda>r. credential_line (git_user r) (secret_of E r) (ig_host r)) git) @ NL)"
    and "prefix ''managed_'' n \<Longrightarrow> fs' n = (if \<exists>r \<in> set ssh. n = managed r
           then Some (secret_of E (the (find (\<lambda>r. n = managed r) ssh)) @ NL) else None)"
proof -
  let ?act = "filter (\<lambda>r. ig_enabled r \<and> ig_kind r \<noteq> IK_TELEGRAM) rows"
  let ?keys = "map (\<lambda>r. (managed r, secret_of E r @ NL)) ssh"
  have k: "filter (\<lambda>p. ig_kind (fst p) = IK_SSH) (map (\<lambda>r. (r, secret_of E r)) ?act) = map (\<lambda>r. (r, secret_of E r)) ssh"
    "filter (\<lambda>p. ig_kind (fst p) \<noteq> IK_SSH) (map (\<lambda>r. (r, secret_of E r)) ?act) = map (\<lambda>r. (r, secret_of E r)) git"
    unfolding ssh_def git_def by (induction rows) auto
  from assms(1) obtain xs where xs: "decode_all E ?act = Some xs" by (auto simp: materialize_def split: option.splits)
  then have x: "xs = map (\<lambda>r. (r, secret_of E r)) ?act" by (simp only: decode_all_some)
  have fs': "fs' = sweep (set (map managed ssh)) (write_all (?keys @ [(''config'', join_with NL (map managed_block ssh)),
      (''git-credentials'', join_with NL (map (\<lambda>r. credential_line (git_user r) (secret_of E r) (ig_host r)) git) @ NL),
      (''cli-tokens.json'', dumps (map (\<lambda>r. (kind_value (ig_kind r), ig_host r, secret_of E r)) git))]) fs)"
    using assms(1) xs unfolding x materialize_def Let_def by (simp add: k comp_def)
  show "fs' ''config'' = Some (join_with NL (map managed_block ssh))"
    "fs' ''git-credentials'' = Some (join_with NL (map (\<lambda>r. credential_line (git_user r) (secret_of E r) (ig_host r)) git) @ NL)"
    unfolding fs' sweep_def write_all_get by simp_all
  have d: "distinct (map managed ssh)"
    using assms(2) unfolding ssh_def by (induction rows) (auto simp: managed_def)
  show "fs' n = (if \<exists>r \<in> set ssh. n = managed r then Some (secret_of E (the (find (\<lambda>r. n = managed r) ssh)) @ NL) else None)"
    if n: "prefix ''managed_'' n" for n
  proof -
    have m: "map_of (rev ?keys) = map_of ?keys" by (rule map_of_rev_keys) (use d in \<open>simp add: comp_def\<close>)
    have f: "map_of (map (\<lambda>r. (managed r, secret_of E r @ NL)) rs) n = (if \<exists>r \<in> set rs. n = managed r
           then Some (secret_of E (the (find (\<lambda>r. n = managed r) rs)) @ NL) else None)" for rs
      by (induction rs) auto
    from n have "n \<noteq> ''config''" "n \<noteq> ''git-credentials''" "n \<noteq> ''cli-tokens.json''" by auto
    moreover have "n \<in> set (map managed ssh) \<longleftrightarrow> (\<exists>r \<in> set ssh. n = managed r)" by auto
    ultimately show ?thesis using n f [of ssh] unfolding fs' sweep_def write_all_get by (simp add: map_add_def m)
  qed
qed

section \<open>Saving under the rules\<close>

definition names_unique :: "(int \<Rightarrow> integration option) \<Rightarrow> bool" where
  "names_unique m \<longleftrightarrow> (\<forall>k l r s. m k = Some r \<longrightarrow> m l = Some s \<longrightarrow> ig_name r = ig_name s \<longrightarrow> k = l)"

definition exclusive :: "integration \<Rightarrow> integration \<Rightarrow> bool" where
  "exclusive r s \<longleftrightarrow> (ig_kind r = IK_TELEGRAM \<and> ig_kind s = IK_TELEGRAM)
     \<or> ((ig_kind r = IK_GITHUB \<or> ig_kind r = IK_GITLAB) \<and> ig_kind s = ig_kind r \<and> ig_host s = ig_host r)"

definition rules_hold :: "(integration, 'd) table \<Rightarrow> 'd \<Rightarrow> bool" where
  "rules_hold T d \<longleftrightarrow> (\<forall>k r. tb_view T d k = Some r \<longrightarrow> rule_ok r) \<and>
     (\<forall>k l r s. tb_view T d k = Some r \<longrightarrow> tb_view T d l = Some s \<longrightarrow> k \<noteq> l \<longrightarrow> \<not> exclusive r s)"

lemma check_fields_ok:
  assumes "check_fields existing data entry row = Inr (name, host, user)"
  shows "\<And>x. x \<in> set existing \<Longrightarrow> Some (ig_id x) \<noteq> entry \<Longrightarrow> ig_name x \<noteq> name"
    and "\<And>r. ig_kind r = ii_kind data \<Longrightarrow> ig_host r = host \<Longrightarrow> ig_name r = name \<Longrightarrow> ig_user r = user \<Longrightarrow> rule_ok r"
    and "\<And>x r. x \<in> set existing \<Longrightarrow> Some (ig_id x) \<noteq> entry \<Longrightarrow> ig_kind r = ii_kind data \<Longrightarrow> ig_host r = host \<Longrightarrow> \<not> exclusive r x \<and> \<not> exclusive x r"
    and "\<And>r. row = Some r \<Longrightarrow> ig_kind r = ii_kind data"
  using assms
  by (auto simp: check_fields_def Let_def exclusive_def rule_ok_def validate_host_def validate_name_def resolve_user_def
      split: if_splits sum.splits option.splits)

lemma stamp_fields [simp]:
  "ig_id (stamp t r x) = ig_id x" "ig_kind (stamp t r x) = ig_kind x" "ig_name (stamp t r x) = ig_name x"
  "ig_host (stamp t r x) = ig_host x" "ig_user (stamp t r x) = ig_user x"
  by (auto simp: stamp_def)

locale integration_db = table_laws T ig_id names_unique ok
  for T :: "(integration, 'd) table" and ok :: "'d \<Rightarrow> bool"
begin

definition sound :: "'d \<Rightarrow> bool" where
  "sound d \<longleftrightarrow> ok d \<and> rules_hold T d"

lemma listed: "ok d \<Longrightarrow> x \<in> set (integration_list T d) \<longleftrightarrow> tb_view T d (ig_id x) = Some x"
  using select_set [of d "\<lambda>_. True"] pk_view [of d] by (auto simp: integration_list_def)

text \<open>Putting a row that follows the rules beside others it does not clash with.\<close>

lemma sound_put:
  assumes "sound d" "ok d'" "tb_view T d' = (tb_view T d)(k \<mapsto> r)" "rule_ok r"
    and "\<And>l x. tb_view T d l = Some x \<Longrightarrow> l \<noteq> k \<Longrightarrow> \<not> exclusive r x \<and> \<not> exclusive x r"
  shows "sound d'"
  using assms(1,2,4,5) unfolding sound_def rules_hold_def assms(3) by (auto split: if_splits)

lemma sound_save:
  assumes "sound d" "save_integration E T data entry d = (res, d')"
  shows "sound d'"
proof (cases "d' = d")
  case False
  let ?row = "Option.bind entry (tb_view T d)"
  have okd: "ok d" using assms(1) by (simp add: sound_def)
  from assms(2) False obtain name host user vl botname opts sealed where
    f: "check_fields (integration_list T d) data entry ?row = Inr (name, host, user)"
    and v: "check_value E data ?row = Inr (vl, botname)" "check_options E data ?row vl botname = Inr opts"
      "(case vl of Some v \<Rightarrow> seal E v | None \<Rightarrow> Inr (case ?row of Some r \<Rightarrow> ig_secret r | None \<Rightarrow> [])) = Inr sealed"
      "entry \<noteq> None \<longrightarrow> ?row \<noteq> None"
    by (auto simp: save_integration_def Let_def split: if_splits sum.splits)
  define fill where "fill = (\<lambda>r. stamp (ve_now E) r (r\<lparr>ig_name := name, ig_host := host, ig_user := user, ig_enabled := ii_enabled data,
    ig_options := opts, ig_secret := sealed\<rparr>))"
  have fill: "ig_id (fill r) = ig_id r" "ig_kind (fill r) = ig_kind r" "ig_name (fill r) = name" "ig_host (fill r) = host" "ig_user (fill r) = user" for r
    by (simp_all add: fill_def)
  note c = check_fields_ok [OF f]
  have apart: "ig_name x \<noteq> name" "ig_kind r = ii_kind data \<Longrightarrow> ig_host r = host \<Longrightarrow> \<not> exclusive r x \<and> \<not> exclusive x r"
    if "tb_view T d l = Some x" "Some l \<noteq> entry" for l x r
    using c(1,3) [of x] that listed [OF okd, of x] pk_view [OF okd that(1)] by auto
  show ?thesis
  proof (cases ?row)
    case None
    then have entry: "entry = None" using v(4) by blast
    define mk where "mk = (\<lambda>k. fill \<lparr>ig_id = k, ig_name = [], ig_kind = ii_kind data, ig_host = [], ig_user = [], ig_enabled = True,
      ig_secret = [], ig_options = no_options, ig_created = ve_now E, ig_updated = ve_now E\<rparr>)"
    from assms(2) False entry f v None obtain r where i: "tb_insert T mk d = Some (r, d')"
      by (auto simp: save_integration_def Let_def mk_def fill_def split: option.splits)
    from insert_some [OF okd _ i] have n: "ok d'" "r = mk (ig_id r)" "tb_view T d' = (tb_view T d)(ig_id r \<mapsto> r)"
      by (auto simp: mk_def fill)
    have r: "ig_kind r = ii_kind data" "ig_host r = host" "ig_name r = name" "ig_user r = user" using n(2) by (metis mk_def fill integration.select_convs(3))+
    show ?thesis by (rule sound_put [OF assms(1) n(1,3) c(2) [OF r]]) (use apart entry r in auto)
  next
    case (Some r)
    then obtain i where i: "entry = Some i" "tb_view T d i = Some r" by (cases entry) auto
    have id: "ig_id r = i" by (rule pk_view [OF okd i(2)])
    have d': "d' = snd (tb_update T (\<lambda>x. ig_id x = i \<and> True) fill d)"
      using assms(2) False i f v Some id by (cases vl) (auto simp: save_integration_def Let_def fill_def)
    have u: "upd_view (\<lambda>x. ig_id x = i \<and> True) fill (tb_view T d) = (tb_view T d)(i \<mapsto> fill r)"
      using keyed_upd [OF okd fill(1), of i "\<lambda>_. True"] i(2) by simp
    have uq: "names_unique (upd_view (\<lambda>x. ig_id x = i \<and> True) fill (tb_view T d))"
      unfolding u names_unique_def
    proof (intro allI impI)
      fix k l x y assume a: "((tb_view T d)(i \<mapsto> fill r)) k = Some x" "((tb_view T d)(i \<mapsto> fill r)) l = Some y" "ig_name x = ig_name y"
      have "k = i \<longleftrightarrow> l = i" using a apart(1) [of k x] apart(1) [of l y] i(1) fill(3) by (auto split: if_splits)
      with a uniq_view [OF okd, unfolded names_unique_def, rule_format, of k x l y] show "k = l" by (auto split: if_splits)
    qed
    note new = update_ok [OF okd fill(1) uq] update_view [OF okd fill(1) uq, unfolded u]
    have k: "ig_kind (fill r) = ii_kind data" using c(4) [OF Some] fill(2) by simp
    show ?thesis by (rule sound_put [OF assms(1) new [folded d'] c(2) [OF k fill(4,3,5)]]) (use apart i k fill(4) in auto)
  qed
qed (use assms in simp)

lemma sound_delete: "sound d \<Longrightarrow> sound (snd (tb_delete T p d))"
proof -
  assume s: "sound d"
  then have okd: "ok d" by (simp add: sound_def)
  have v: "del_view p (tb_view T d) k = Some r \<Longrightarrow> tb_view T d k = Some r" for k r by (auto simp: del_view_def split: option.splits if_splits)
  have u: "names_unique (del_view p (tb_view T d))" using uniq_view [OF okd] v unfolding names_unique_def by blast
  show "sound (snd (tb_delete T p d))"
    using s v delete_ok [OF okd u] delete_view [OF okd u] unfolding sound_def rules_hold_def by metis
qed

lemma sound_endpoint: "sound d \<Longrightarrow> sound (snd (settings_endpoint E get T c d))"
  by (cases c) (auto simp: settings_endpoint_def save_endpoint_def sound_delete dest: sound_save split: prod.splits sum.splits option.splits)

end

definition settings_run ::
  "(integration, 'd) table \<Rightarrow> (vault_env \<times> (string \<times> (string \<times> string) list \<Rightarrow> bool) \<times> settings_call) list \<Rightarrow> 'd \<Rightarrow> 'd" where
  "settings_run T calls d = foldl (\<lambda>d (E, get, c). snd (settings_endpoint E get T c d)) d calls"

context integration_db
begin

lemma sound_run: "sound d \<Longrightarrow> sound (settings_run T calls d)"
  unfolding settings_run_def by (induction calls arbitrary: d) (auto simp: sound_endpoint)

lemma listed_ids: "ok d \<Longrightarrow> distinct (map ig_id (integration_list T d))"
  using select_distinct [of d "\<lambda>_. True"] listed [of d] unfolding distinct_map integration_list_def
  by (auto simp: inj_on_def)

end

definition integration_mem :: "(integration, integration rows) table" where
  "integration_mem = mem_table (sorted_wrt (\<lambda>r s. ig_name r \<noteq> ig_name s))"

interpretation integration_mem: integration_db integration_mem "rows_ok ig_id (sorted_wrt (\<lambda>r s. ig_name r \<noteq> ig_name s))"
  unfolding integration_db_def integration_mem_def
  by (rule mem_table_laws) (subst pairwise_rows, auto simp: names_unique_def)

section \<open>Properties\<close>

text \<open>
  C29: whatever administrators save, change and delete, and whatever the cipher and the providers
  answer, every stored integration obeys the vault's rules, there is at most one Telegram bot and
  at most one connection for a provider and host.
\<close>

theorem integrations_keep_rules:
  assumes "integration_db T ok" "ok d" "rules_hold T d"
  shows "ok (settings_run T calls d) \<and> rules_hold T (settings_run T calls d)"
  using integration_db.sound_run [OF assms(1), of d calls] assms(2,3) by (simp add: integration_db.sound_def [OF assms(1)])

definition ssh_rows :: "integration list \<Rightarrow> integration list" where
  "ssh_rows rows = filter (\<lambda>r. ig_enabled r \<and> ig_kind r = IK_SSH) rows"

definition git_rows :: "integration list \<Rightarrow> integration list" where
  "git_rows rows = filter (\<lambda>r. ig_enabled r \<and> ig_kind r \<noteq> IK_TELEGRAM \<and> ig_kind r \<noteq> IK_SSH) rows"

text \<open>
  C30: the sidecar's files say exactly what the integrations say. After any run of the settings
  endpoints a refresh writes files from which a reader of the SSH configuration gets the enabled
  SSH integrations with their name, host, user and key file, and git's credential store gets
  the user, the token and the host of the others: no value of a field adds a line, a host or a
  directive. The key files are those of the enabled integrations with their secrets, and when a
  secret cannot be decrypted no key and no host is left.
\<close>

theorem vault_files_exact:
  assumes "integration_db T ok" "ok d" "rules_hold T d" "rows = integration_list T (settings_run T calls d)"
    and "materialize E dumps rows fs = (good, fs')"
  shows "(good \<longrightarrow> read_config (the (fs' ''config'')) = map host_entry (ssh_rows rows)
      \<and> map read_credential (filter (\<lambda>l. l \<noteq> []) (split_on CHR 0x0A (the (fs' ''git-credentials''))))
          = map (\<lambda>r. (utf8 (git_user r), utf8 (secret_of E r), ig_host r)) (git_rows rows)
      \<and> (\<forall>r \<in> set (ssh_rows rows). fs' (managed r) = Some (secret_of E r @ NL)))
    \<and> (\<not> good \<longrightarrow> fs' ''config'' = Some [] \<and> fs' ''git-credentials'' = Some [])
    \<and> (\<forall>n. prefix ''managed_'' n \<longrightarrow> fs' n \<noteq> None \<longrightarrow> good \<and> (\<exists>r \<in> set (ssh_rows rows). n = managed r))"
proof (cases good)
  case False
  with materialize_broken assms(5) show ?thesis by auto
next
  case True
  let ?d = "settings_run T calls d"
  have s: "ok ?d" "rules_hold T ?d" using integrations_keep_rules [OF assms(1-3)] by simp_all
  have rule: "rule_ok r" if "r \<in> set rows" for r
    using that s integration_db.listed [OF assms(1) s(1), of r] assms(4) by (auto simp: rules_hold_def)
  have ids: "distinct (map ig_id rows)" using integration_db.listed_ids [OF assms(1) s(1)] assms(4) by simp
  have t: "materialize E dumps rows fs = (True, fs')" using assms(5) True by simp
  note m = materialize_files [OF t ids, folded ssh_rows_def git_rows_def]
  have cfg: "read_config (the (fs' ''config'')) = map host_entry (ssh_rows rows)"
    unfolding m(1) option.sel by (rule read_config_managed) (use rule in \<open>auto simp: ssh_rows_def\<close>)
  let ?lines = "map (\<lambda>r. credential_line (git_user r) (secret_of E r) (ig_host r)) (git_rows rows)"
  have hosts: "CHR 0x0A \<notin> set l \<and> l \<noteq> []" if "l \<in> set ?lines" for l
  proof -
    from that obtain r where r: "r \<in> set (git_rows rows)" "l = credential_line (git_user r) (secret_of E r) (ig_host r)" by auto
    then have "validate_host (ig_host r) = Inr (ig_host r)" using rule by (auto simp: git_rows_def rule_ok_def)
    then have "plain_word (ig_host r)" by (intro host_plain) (auto simp: validate_host_def split: if_splits)
    with r(2) credential_one_line [of "ig_host r"] show ?thesis by (auto simp: plain_word_def credential_line_def)
  qed
  have "filter (\<lambda>l. l \<noteq> []) (split_on CHR 0x0A (join_with NL ?lines @ NL)) = ?lines"
  proof (cases "?lines = []")
    case False
    have "split_on CHR 0x0A (join_with NL ?lines @ NL) = ?lines @ [[]]"
      using split_join [OF False, of "CHR 0x0A"] hosts split_on_at [of "CHR 0x0A" "join_with NL ?lines" "[]"] by (simp add: NL_def)
    then show ?thesis using hosts by (simp add: filter_id_conv)
  qed (simp add: NL_def)
  then have cred: "map read_credential (filter (\<lambda>l. l \<noteq> []) (split_on CHR 0x0A (the (fs' ''git-credentials''))))
      = map (\<lambda>r. (utf8 (git_user r), utf8 (secret_of E r), ig_host r)) (git_rows rows)"
    unfolding m(2) option.sel by (simp add: read_credential_line)
  have key: "fs' (managed r) = Some (secret_of E r @ NL)" if r: "r \<in> set (ssh_rows rows)" for r
  proof -
    have same: "x = r" if "x \<in> set (ssh_rows rows)" "ig_id x = ig_id r" for x
      using ids r that unfolding ssh_rows_def distinct_map inj_on_def by auto
    obtain x where x: "find (\<lambda>x. managed r = managed x) (ssh_rows rows) = Some x"
      using r by (cases "find (\<lambda>x. managed r = managed x) (ssh_rows rows)") (auto simp: find_None_iff)
    then have "x = r" using same by (auto simp: find_Some_iff)
    with x m(3) [OF managed_names(4), of r] r show ?thesis by auto
  qed
  from cfg cred key True m(3) show ?thesis by (auto split: if_splits)
qed

definition demo_vault_env :: vault_env where
  "demo_vault_env = \<lparr>ve_seal = (\<lambda>v. Some (CHR ''#'' # v)), ve_unseal = (\<lambda>v. case v of CHR ''#'' # s \<Rightarrow> Some s | _ \<Rightarrow> None),
     ve_check = (\<lambda>_ _. Inr None), ve_fingerprint = id, ve_https = (\<lambda>_. True), ve_random = ''r'', ve_now = 5\<rparr>"

definition demo_ssh_input :: integration_input where
  "demo_ssh_input = \<lparr>ii_name = ''box'', ii_kind = IK_SSH, ii_host = ''h.org'', ii_user = [], ii_secret = Some ''KEY'', ii_enabled = True,
     ii_telegram = no_tg_options\<rparr>"

definition demo_git_input :: integration_input where
  "demo_git_input = \<lparr>ii_name = ''hub'', ii_kind = IK_GITHUB, ii_host = ''github.com'', ii_user = ''a@b'', ii_secret = Some ''t:k'', ii_enabled = True,
     ii_telegram = no_tg_options\<rparr>"

definition demo_settings_calls :: "(vault_env \<times> (string \<times> (string \<times> string) list \<Rightarrow> bool) \<times> settings_call) list" where
  "demo_settings_calls = [(demo_vault_env, \<lambda>_. True, ScCreate demo_ssh_input), (demo_vault_env, \<lambda>_. True, ScCreate demo_git_input),
     (demo_vault_env, \<lambda>_. True, ScCreate demo_ssh_input)]"

definition demo_rows :: "integration list" where
  "demo_rows = [
     \<lparr>ig_id = 1, ig_name = ''box'', ig_kind = IK_SSH, ig_host = ''h.org'', ig_user = ''git'', ig_enabled = True, ig_secret = ''#KEY'',
       ig_options = no_options\<lparr>io_fingerprint := Some ''KEY''\<rparr>, ig_created = 5, ig_updated = 5\<rparr>,
     \<lparr>ig_id = 2, ig_name = ''hub'', ig_kind = IK_GITHUB, ig_host = ''github.com'', ig_user = ''a@b'', ig_enabled = True, ig_secret = ''#t:k'',
       ig_options = no_options, ig_created = 5, ig_updated = 5\<rparr>]"

lemma demo_rows_listed: "integration_list integration_mem (settings_run integration_mem demo_settings_calls (1, [])) = demo_rows"
  by code_simp

lemma demo_table: "rows_ok ig_id (sorted_wrt (\<lambda>r s. ig_name r \<noteq> ig_name s)) (1, [])" "rules_hold integration_mem (1, [])"
  by (simp_all add: rows_ok_def rules_hold_def integration_mem_def mem_table_def rows_view_def)

theorem integrations_keep_rules_witness:
  "rules_hold integration_mem (settings_run integration_mem demo_settings_calls (1, []))"
  using integrations_keep_rules [OF integration_mem.integration_db_axioms demo_table] by blast

definition demo_folder :: folder where
  "demo_folder = snd (materialize demo_vault_env (\<lambda>_. ''[]'') demo_rows (\<lambda>_. None))"

lemma demo_decodes: "fst (materialize demo_vault_env (\<lambda>_. ''[]'') demo_rows (\<lambda>_. None)) = True"
  by code_simp

lemma demo_made: "materialize demo_vault_env (\<lambda>_. ''[]'') demo_rows (\<lambda>_. None) = (True, demo_folder)"
  using demo_decodes by (simp only: demo_folder_def prod_eq_iff fst_conv snd_conv)

lemma demo_selected: "ssh_rows demo_rows = [hd demo_rows]" "git_rows demo_rows = [demo_rows ! 1]" "ig_name (hd demo_rows) = ''box''"
  "git_user (demo_rows ! 1) = ''a@b''" "secret_of demo_vault_env (demo_rows ! 1) = ''t:k''" "ig_host (demo_rows ! 1) = ''github.com''"
  by code_simp+

theorem vault_files_exact_witness:
  "map fst (read_config (the (demo_folder ''config''))) = [[''box'']]
   \<and> map read_credential (filter (\<lambda>l. l \<noteq> []) (split_on CHR 0x0A (the (demo_folder ''git-credentials'')))) = [(utf8 ''a@b'', utf8 ''t:k'', ''github.com'')]"
proof -
  note v = vault_files_exact [OF integration_mem.integration_db_axioms demo_table demo_rows_listed [symmetric] demo_made, THEN conjunct1, THEN mp, OF TrueI]
  have "map fst (read_config (the (demo_folder ''config''))) = [[''box'']]"
    unfolding v [THEN conjunct1] demo_selected(1) by (simp add: host_entry_def demo_selected(3))
  moreover have "map read_credential (filter (\<lambda>l. l \<noteq> []) (split_on CHR 0x0A (the (demo_folder ''git-credentials'')))) = [(utf8 ''a@b'', utf8 ''t:k'', ''github.com'')]"
    unfolding v [THEN conjunct2, THEN conjunct1] demo_selected(2) by (simp only: list.map demo_selected(4-6))
  ultimately show ?thesis by (rule conjI)
qed

text \<open>
  The rules are needed: a name with a line end, which the rules refuse, would add a host.
\<close>

lemma rules_needed:
  "map fst (read_config (managed_block ((hd demo_rows)\<lparr>ig_name := ''x'' @ NL @ ''Host *''\<rparr>))) = [[''x''], [''*'']]"
  by code_simp

end
