(* ===== verification/Keyed_Rows.thy ===== *)
theory Keyed_Rows
  imports Accounts
begin

text \<open>
  Tables whose uniqueness constraint is one key of the row, and the statement the code writes
  them with: \<open>INSERT .. ON CONFLICT (key) DO UPDATE SET ..\<close>. The contract of such a table is a
  locale over the laws of a table; \<open>upsert_cases\<close> says all there is to know about the statement.
\<close>

definition keyed_unique :: "('r \<Rightarrow> 'k) \<Rightarrow> (int \<Rightarrow> 'r option) \<Rightarrow> bool" where
  "keyed_unique key m \<longleftrightarrow> (\<forall>i j r s. m i = Some r \<longrightarrow> m j = Some s \<longrightarrow> key r = key s \<longrightarrow> i = j)"

definition upsert_row :: "('r, 'd) table \<Rightarrow> (int \<Rightarrow> 'r) \<Rightarrow> ('r \<Rightarrow> bool) \<Rightarrow> ('r \<Rightarrow> 'r) \<Rightarrow> 'd \<Rightarrow> 'd" where
  "upsert_row T mk p f d =
     (case tb_insert T mk d of Some (_, d') \<Rightarrow> d' | None \<Rightarrow> snd (tb_update T p f d))"

locale keyed_table = table_laws T pk "keyed_unique key" ok
  for T :: "('r, 'd) table" and pk :: "'r \<Rightarrow> int" and key :: "'r \<Rightarrow> 'k" and ok :: "'d \<Rightarrow> bool"
begin

lemma one_row:
  assumes "ok d" "tb_view T d i = Some r" "tb_view T d j = Some s" "key r = key s"
  shows "j = i \<and> s = r"
proof -
  have "i = j" using uniq_view [OF assms(1)] assms(2-4) unfolding keyed_unique_def by blast
  with assms(2,3) show ?thesis by simp
qed

lemma upd_unique:
  assumes "ok d" "\<And>r. key (f r) = key r"
  shows "keyed_unique key (upd_view p f (tb_view T d))"
  using uniq_view [OF assms(1)] assms(2) unfolding keyed_unique_def upd_view_def by (auto split: if_splits)

text \<open>An update that keeps the keys.\<close>

lemma update_rows:
  assumes "ok d" "\<And>r. pk (f r) = pk r" "\<And>r. key (f r) = key r"
  shows "ok (snd (tb_update T p f d))" "tb_view T (snd (tb_update T p f d)) = upd_view p f (tb_view T d)"
  using update_ok [OF assms(1,2)] update_view [OF assms(1,2)] upd_unique [OF assms(1,3)] by auto

lemma update_one:
  assumes "ok d" "\<And>r. pk (f r) = pk r" "\<And>r. key (f r) = key r" "tb_view T d i = Some r"
  shows "tb_view T (snd (tb_update T (\<lambda>x. pk x = i) f d)) = (tb_view T d)(i \<mapsto> f r)"
  using update_rows(2) [OF assms(1-3)] keyed_upd [OF assms(1,2), of i "\<lambda>_. True"] assms(4) by simp

lemma new_row_unique:
  assumes "ok d" "\<And>i r. tb_view T d i = Some r \<Longrightarrow> key r \<noteq> key n"
  shows "keyed_unique key ((tb_view T d)(k \<mapsto> n))"
  unfolding keyed_unique_def
proof (intro allI impI)
  fix i j r s
  assume rs: "((tb_view T d)(k \<mapsto> n)) i = Some r" "((tb_view T d)(k \<mapsto> n)) j = Some s" "key r = key s"
  consider "i = k" "j = k" | "i = k" "j \<noteq> k" | "i \<noteq> k" "j = k" | "i \<noteq> k" "j \<noteq> k" by blast
  then show "i = j"
  proof cases
    case 2
    with rs assms(2) [of j s] show ?thesis by auto
  next
    case 3
    with rs assms(2) [of i r] show ?thesis by auto
  next
    case 4
    with rs have "tb_view T d i = Some r" "tb_view T d j = Some s" by simp_all
    with rs(3) uniq_view [OF assms(1)] show ?thesis unfolding keyed_unique_def by blast
  qed simp
qed

text \<open>Either the key is new and one row is added, or its row is updated; nothing else changes.\<close>

lemma upsert_cases:
  assumes "ok d" "\<And>k. pk (mk k) = k" "\<And>k. key (mk k) = K" "\<And>r. pk (f r) = pk r" "\<And>r. key (f r) = key r"
    and "\<And>r. p r \<longleftrightarrow> key r = K"
  obtains i where "ok (upsert_row T mk p f d)" "tb_view T d i = None" "\<And>j s. tb_view T d j = Some s \<Longrightarrow> key s \<noteq> K"
      "tb_view T (upsert_row T mk p f d) = (tb_view T d)(i \<mapsto> mk i)"
  | i r where "ok (upsert_row T mk p f d)" "tb_view T d i = Some r" "key r = K"
      "tb_view T (upsert_row T mk p f d) = (tb_view T d)(i \<mapsto> f r)"
proof (cases "tb_insert T mk d")
  case (Some x)
  obtain n d1 where x: "x = (n, d1)" by (cases x)
  from insert_some [OF assms(1,2) Some [unfolded x]] have n: "ok d1" "tb_view T d (pk n) = None" "n = mk (pk n)"
    "tb_view T d1 = (tb_view T d)(pk n \<mapsto> n)" by auto
  have "key s \<noteq> K" if "tb_view T d j = Some s" for j s
  proof
    assume "key s = K"
    moreover have "tb_view T d1 j = Some s" "tb_view T d1 (pk n) = Some n" "j \<noteq> pk n" using n that by auto
    ultimately show False using one_row [OF n(1)] n(3) assms(3) by metis
  qed
  with n Some x that(1) [of "pk n"] show ?thesis by (auto simp: upsert_row_def)
next
  case None
  from insert_none [OF assms(1,2) None] obtain k where "\<not> keyed_unique key ((tb_view T d)(k \<mapsto> mk k))" by blast
  have "\<exists>i r. tb_view T d i = Some r \<and> key r = K"
  proof (rule ccontr)
    assume "\<nexists>i r. tb_view T d i = Some r \<and> key r = K"
    then have "\<And>i r. tb_view T d i = Some r \<Longrightarrow> key r \<noteq> key (mk k)" by (simp add: assms(3))
    from new_row_unique [OF assms(1) this] \<open>\<not> keyed_unique key ((tb_view T d)(k \<mapsto> mk k))\<close> show False by simp
  qed
  then obtain i r where r: "tb_view T d i = Some r" "key r = K" by (elim exE conjE)
  have "upd_view p f (tb_view T d) j = ((tb_view T d)(i \<mapsto> f r)) j" for j
  proof (cases "tb_view T d j")
    case None
    with r(1) show ?thesis by (auto simp: upd_view_def)
  next
    case (Some s)
    show ?thesis
    proof (cases "key s = K")
      case True
      with one_row [OF assms(1) r(1) Some] r(2) have "j = i" "s = r" by simp_all
      with Some True show ?thesis by (simp add: upd_view_def assms(6))
    next
      case False
      with Some r have "j \<noteq> i" by auto
      with Some False show ?thesis by (simp add: upd_view_def assms(6))
    qed
  qed
  then have "upd_view p f (tb_view T d) = (tb_view T d)(i \<mapsto> f r)" by (rule ext)
  moreover have "upsert_row T mk p f d = snd (tb_update T p f d)" using None by (simp add: upsert_row_def)
  ultimately show ?thesis using update_rows [OF assms(1,4,5), of p] that(2) [OF _ r] by simp
qed

end

text \<open>Such a table in memory.\<close>

definition keyed_mem :: "('r \<Rightarrow> 'k) \<Rightarrow> ('r, 'r rows) table" where
  "keyed_mem key = mem_table (sorted_wrt (\<lambda>r s. \<not> key r = key s))"

lemma keyed_mem_laws: "keyed_table (keyed_mem key) pk key (rows_ok pk (sorted_wrt (\<lambda>r s. \<not> key r = key s)))"
  unfolding keyed_table_def keyed_mem_def
  by (rule mem_table_laws) (subst pairwise_rows, auto simp: keyed_unique_def)

interpretation keyed_mem: keyed_table "keyed_mem key" pk key "rows_ok pk (sorted_wrt (\<lambda>r s. \<not> key r = key s))" for pk key
  by (rule keyed_mem_laws)

end
