(* ===== verification/Tg_Polling.thy ===== *)
theory Tg_Polling
  imports Turn_Locks
begin

text \<open>
  Long polling for the Telegram bot (\<open>app/tg/polling.py\<close>). Telegram refuses a second poller
  of the same token, so the workers elect one through a Redis lock of 60 seconds: its holder
  renews it every 20 seconds, the others try to acquire it as often. A worker's tasks are the
  flags of its record; the fleet is a list of workers over one Redis, and a run is a list of
  what happens to them, in any order and with any failing calls.
\<close>

section \<open>The lock and one worker\<close>

definition POLLING_KEY :: string where
  "POLLING_KEY = ''tg:polling:lock''"

definition POLLING_TTL_S :: nat where
  "POLLING_TTL_S = 60"

definition RENEW_INTERVAL_S :: nat where
  "RENEW_INTERVAL_S = POLLING_TTL_S div 3"

text \<open>
  The token while the worker owns the lock, its three tasks, and, as a history variable, the
  seconds since Redis last granted or renewed its lock.
\<close>

record poller =
  po_token :: "string option"
  po_polling :: bool
  po_renewing :: bool
  po_waiting :: bool
  po_age :: nat

definition idle_poller :: poller where
  "idle_poller = \<lparr>po_token = None, po_polling = False, po_renewing = False, po_waiting = False, po_age = 0\<rparr>"

definition is_owner :: "poller \<Rightarrow> bool" where
  "is_owner p \<longleftrightarrow> po_token p \<noteq> None"

text \<open>\<open>_acquire_lock\<close> with a fresh token, \<open>_RENEW_SCRIPT\<close> and \<open>_RELEASE_SCRIPT\<close>.\<close>

definition polling_acquire :: "('s, 'x) redis_scheme \<Rightarrow> fault \<Rightarrow> string \<Rightarrow> 's \<Rightarrow> bool \<times> 's" where
  "polling_acquire R f token s =
     (let (r, s') = call f (rd_set_nx R POLLING_KEY token POLLING_TTL_S) s in (r = Some True, s'))"

definition polling_renew :: "('s, 'x) redis_scheme \<Rightarrow> fault \<Rightarrow> string \<Rightarrow> 's \<Rightarrow> bool \<times> 's" where
  "polling_renew R f token s =
     (let (r, s') = call f (\<lambda>s0. let (v, s1) = rd_get R POLLING_KEY s0
                                in if v = Some token then rd_expire R POLLING_KEY POLLING_TTL_S s1 else (False, s1)) s
      in (r = Some True, s'))"

definition polling_release :: "('s, 'x) redis_scheme \<Rightarrow> fault \<Rightarrow> string \<Rightarrow> 's \<Rightarrow> bool \<times> 's" where
  "polling_release R f token s =
     (let (r, s') = call f (\<lambda>s0. let (v, s1) = rd_get R POLLING_KEY s0
                                in if v = Some token then rd_del R POLLING_KEY s1 else (False, s1)) s
      in (r = Some True, s'))"

definition polling_launch :: "poller \<Rightarrow> poller" where
  "polling_launch p = p\<lparr>po_polling := True, po_renewing := True\<rparr>"

definition owning :: "string \<Rightarrow> poller \<Rightarrow> poller" where
  "owning token p = p\<lparr>po_token := Some token, po_age := 0\<rparr>"

definition polling_start :: "('s, 'x) redis_scheme \<Rightarrow> fault \<Rightarrow> string \<Rightarrow> poller \<times> 's \<Rightarrow> poller \<times> 's" where
  "polling_start R f token W =
     (case polling_acquire R f token (snd W) of
        (True, s) \<Rightarrow> (polling_launch (owning token (fst W)), s)
      | (False, s) \<Rightarrow> ((fst W)\<lparr>po_waiting := True\<rparr>, s))"

text \<open>One round of \<open>_wait_for_lock\<close> and of \<open>_renew_lock\<close>, after its sleep.\<close>

definition wait_for_lock :: "('s, 'x) redis_scheme \<Rightarrow> fault \<Rightarrow> string \<Rightarrow> poller \<times> 's \<Rightarrow> poller \<times> 's" where
  "wait_for_lock R f token W =
     (case polling_acquire R f token (snd W) of
        (True, s) \<Rightarrow> (polling_launch (owning token ((fst W)\<lparr>po_waiting := False\<rparr>)), s)
      | (False, s) \<Rightarrow> (fst W, s))"

definition handle_lock_lost :: "poller \<Rightarrow> poller" where
  "handle_lock_lost p = p\<lparr>po_token := None, po_polling := False, po_renewing := False, po_waiting := True\<rparr>"

definition renew_lock :: "('s, 'x) redis_scheme \<Rightarrow> fault \<Rightarrow> poller \<times> 's \<Rightarrow> poller \<times> 's" where
  "renew_lock R f W =
     (case po_token (fst W) of
        None \<Rightarrow> ((fst W)\<lparr>po_renewing := False\<rparr>, snd W)
      | Some token \<Rightarrow>
          (case polling_renew R f token (snd W) of
             (True, s) \<Rightarrow> ((fst W)\<lparr>po_age := 0\<rparr>, s)
           | (False, s) \<Rightarrow> (handle_lock_lost (fst W), s)))"

text \<open>\<open>_on_polling_done\<close> only logs why the polling task has ended.\<close>

definition on_polling_done :: "poller \<Rightarrow> poller" where
  "on_polling_done p = p\<lparr>po_polling := False\<rparr>"

definition polling_stop :: "('s, 'x) redis_scheme \<Rightarrow> fault \<Rightarrow> poller \<times> 's \<Rightarrow> poller \<times> 's" where
  "polling_stop R f W =
     (let p = (fst W)\<lparr>po_waiting := False, po_renewing := False, po_polling := False, po_token := None\<rparr> in
      case po_token (fst W) of
        None \<Rightarrow> (p, snd W)
      | Some token \<Rightarrow> (p, snd (polling_release R f token (snd W))))"

section \<open>The fleet\<close>

datatype polling_event =
    PoStart nat fault string
  | PoWake nat fault string
  | PoRenew nat fault
  | PoDone nat
  | PoStop nat fault
  | PoElapse nat

type_synonym 's fleet = "poller list \<times> 's"

text \<open>A task acts when it is running; an event of a worker that does not exist is none.\<close>

definition on_worker :: "nat \<Rightarrow> (poller \<Rightarrow> bool) \<Rightarrow> (poller \<times> 's \<Rightarrow> poller \<times> 's) \<Rightarrow> 's fleet \<Rightarrow> 's fleet" where
  "on_worker i runs g F =
     (if i < length (fst F) \<and> runs (fst F ! i)
      then (case g (fst F ! i, snd F) of (p, s) \<Rightarrow> ((fst F)[i := p], s)) else F)"

definition at_rest :: "poller \<Rightarrow> bool" where
  "at_rest p \<longleftrightarrow> \<not> po_polling p \<and> \<not> po_renewing p \<and> \<not> po_waiting p"

fun fleet_step :: "('s, 'x) redis_scheme \<Rightarrow> polling_event \<Rightarrow> 's fleet \<Rightarrow> 's fleet" where
  "fleet_step R (PoStart i f token) F = on_worker i at_rest (polling_start R f token) F"
| "fleet_step R (PoWake i f token) F = on_worker i po_waiting (wait_for_lock R f token) F"
| "fleet_step R (PoRenew i f) F = on_worker i po_renewing (renew_lock R f) F"
| "fleet_step R (PoDone i) F = on_worker i po_polling (\<lambda>(p, s). (on_polling_done p, s)) F"
| "fleet_step R (PoStop i f) F = on_worker i (\<lambda>_. True) (polling_stop R f) F"
| "fleet_step R (PoElapse n) F = (map (\<lambda>p. p\<lparr>po_age := po_age p + n\<rparr>) (fst F), rd_elapse R n (snd F))"

definition fleet_run :: "('s, 'x) redis_scheme \<Rightarrow> polling_event list \<Rightarrow> 's fleet \<Rightarrow> 's fleet" where
  "fleet_run R evs F = fold (fleet_step R) evs F"

lemma fleet_run_simps [simp]:
  "fleet_run R [] F = F"
  "fleet_run R (x # xs) F = fleet_run R xs (fleet_step R x F)"
  "fleet_run R (xs @ ys) F = fleet_run R ys (fleet_run R xs F)"
  by (simp_all add: fleet_run_def)

text \<open>The tokens are UUIDs: the ones a worker draws are its own.\<close>

definition draws_own :: "(string \<Rightarrow> nat) \<Rightarrow> polling_event \<Rightarrow> bool" where
  "draws_own ow e = (case e of PoStart i f t \<Rightarrow> ow t = i | PoWake i f t \<Rightarrow> ow t = i | _ \<Rightarrow> True)"

section \<open>At most one poller\<close>

text \<open>
  What a worker knows: its tasks agree with its token, and while its last grant is younger
  than the time to live, Redis still holds its token, for at least the time that remains.
\<close>

definition poller_fits :: "(string \<Rightarrow> nat) \<Rightarrow> nat \<Rightarrow> entry option \<Rightarrow> poller \<Rightarrow> bool" where
  "poller_fits ow i e p \<longleftrightarrow>
     (po_polling p \<longrightarrow> po_renewing p) \<and> (po_renewing p \<longrightarrow> po_token p \<noteq> None) \<and>
     (po_waiting p \<or> at_rest p \<longrightarrow> po_token p = None) \<and>
     (\<forall>token. po_token p = Some token \<longrightarrow> ow token = i \<and>
        (po_age p < POLLING_TTL_S \<longrightarrow> (\<exists>t. e = Some (token, Some t) \<and> POLLING_TTL_S \<le> t + po_age p)))"

definition fleet_fits :: "('s, 'x) redis_scheme \<Rightarrow> (string \<Rightarrow> nat) \<Rightarrow> 's fleet \<Rightarrow> bool" where
  "fleet_fits R ow F \<longleftrightarrow> (\<forall>i < length (fst F). poller_fits ow i (rd_view R (snd F) POLLING_KEY) (fst F ! i))"

lemma fits_idle: "poller_fits ow i e idle_poller"
  by (simp add: poller_fits_def idle_poller_def)

text \<open>The key as one worker's step leaves it.\<close>

definition key_moves :: "(string \<Rightarrow> nat) \<Rightarrow> nat \<Rightarrow> entry option \<Rightarrow> entry option \<Rightarrow> bool" where
  "key_moves ow i e e' \<longleftrightarrow> e' = e \<or> e = None \<or> (\<exists>token t. e = Some (token, t) \<and> ow token = i)"

lemma fits_other: "key_moves ow i e e' \<Longrightarrow> j \<noteq> i \<Longrightarrow> poller_fits ow j e p \<Longrightarrow> poller_fits ow j e' p"
  by (auto simp: poller_fits_def key_moves_def)

lemma on_worker_fits:
  assumes "fleet_fits R ow F"
    and "\<And>p. poller_fits ow i (rd_view R (snd F) POLLING_KEY) p \<Longrightarrow> runs p \<Longrightarrow>
       poller_fits ow i (rd_view R (snd (g (p, snd F))) POLLING_KEY) (fst (g (p, snd F))) \<and>
       key_moves ow i (rd_view R (snd F) POLLING_KEY) (rd_view R (snd (g (p, snd F))) POLLING_KEY)"
  shows "fleet_fits R ow (on_worker i runs g F)"
proof (cases "i < length (fst F) \<and> runs (fst F ! i)")
  case True
  obtain p s where g: "g (fst F ! i, snd F) = (p, s)" by (metis surj_pair)
  have i: "poller_fits ow i (rd_view R (snd F) POLLING_KEY) (fst F ! i)"
    using assms(1) True by (simp add: fleet_fits_def)
  from assms(2) [OF i] True g have "poller_fits ow i (rd_view R s POLLING_KEY) p"
    "key_moves ow i (rd_view R (snd F) POLLING_KEY) (rd_view R s POLLING_KEY)" by auto
  with assms(1) True g show ?thesis
    by (auto simp: fleet_fits_def on_worker_def nth_list_update intro: fits_other)
qed (use assms(1) in \<open>auto simp: on_worker_def\<close>)

context redis_laws
begin

lemma polling_acquire_true:
  "fst (polling_acquire R f token s) \<Longrightarrow>
     rd_view R s POLLING_KEY = None \<and> rd_view R (snd (polling_acquire R f token s)) POLLING_KEY = Some (token, Some POLLING_TTL_S)"
  by (auto simp: polling_acquire_def split_beta call_Some_True call_view replies views)

lemma polling_acquire_any:
  "rd_view R s POLLING_KEY \<noteq> None \<Longrightarrow> rd_view R (snd (polling_acquire R f token s)) POLLING_KEY = rd_view R s POLLING_KEY"
  by (auto simp: polling_acquire_def split_beta call_view views)

lemma polling_renew_view:
  "fst (polling_renew R f token s) \<longleftrightarrow> f = Fine \<and> map_option fst (rd_view R s POLLING_KEY) = Some token"
  "rd_view R (snd (polling_renew R f token s)) POLLING_KEY =
     (if f \<noteq> FailBefore \<and> map_option fst (rd_view R s POLLING_KEY) = Some token then Some (token, Some POLLING_TTL_S)
      else rd_view R s POLLING_KEY)"
  by (auto simp: polling_renew_def split_beta call_Some_True call_view replies views)

lemma polling_release_reply:
  "fst (polling_release R f token s) \<longleftrightarrow> f = Fine \<and> map_option fst (rd_view R s POLLING_KEY) = Some token"
  by (auto simp: polling_release_def split_beta call_Some_True replies views)

lemma polling_release_view:
  "rd_view R (snd (polling_release R f token s)) POLLING_KEY =
     (if f \<noteq> FailBefore \<and> map_option fst (rd_view R s POLLING_KEY) = Some token then None
      else rd_view R s POLLING_KEY)"
  by (auto simp: polling_release_def split_beta call_view replies views)

end

text \<open>The contract of the lock, on any lawful Redis.\<close>

locale polling_lock = redis_laws R
  for R :: "('s, 'x) redis_scheme"

sublocale polling_lock \<subseteq> poll: ttl_lock
  "polling_acquire R" "polling_renew R" "polling_release R" "rd_elapse R" "\<lambda>s. rd_view R s POLLING_KEY"
  "\<lambda>token. token" POLLING_TTL_S
  by unfold_locales
    (auto simp: polling_acquire_def polling_renew_view polling_release_view polling_release_reply split_beta
      call_Some_True call_view replies views)

context polling_lock
begin

lemma start_fits:
  assumes "poller_fits ow i (rd_view R s POLLING_KEY) p" "at_rest p" "ow token = i"
  shows "poller_fits ow i (rd_view R (snd (polling_start R f token (p, s))) POLLING_KEY) (fst (polling_start R f token (p, s))) \<and>
    key_moves ow i (rd_view R s POLLING_KEY) (rd_view R (snd (polling_start R f token (p, s))) POLLING_KEY)"
proof (cases "polling_acquire R f token s")
  case (Pair b s1)
  with assms poll.acq_true [of f token s] poll.acq_any [of s f token] show ?thesis
    by (cases b) (auto simp: polling_start_def poller_fits_def key_moves_def polling_launch_def owning_def at_rest_def)
qed

lemma wait_fits:
  assumes "poller_fits ow i (rd_view R s POLLING_KEY) p" "po_waiting p" "ow token = i"
  shows "poller_fits ow i (rd_view R (snd (wait_for_lock R f token (p, s))) POLLING_KEY) (fst (wait_for_lock R f token (p, s))) \<and>
    key_moves ow i (rd_view R s POLLING_KEY) (rd_view R (snd (wait_for_lock R f token (p, s))) POLLING_KEY)"
proof (cases "polling_acquire R f token s")
  case (Pair b s1)
  with assms poll.acq_true [of f token s] poll.acq_any [of s f token] show ?thesis
    by (cases b) (auto simp: wait_for_lock_def poller_fits_def key_moves_def polling_launch_def owning_def at_rest_def)
qed

lemma renew_fits:
  assumes "poller_fits ow i (rd_view R s POLLING_KEY) p" "po_renewing p"
  shows "poller_fits ow i (rd_view R (snd (renew_lock R f (p, s))) POLLING_KEY) (fst (renew_lock R f (p, s))) \<and>
    key_moves ow i (rd_view R s POLLING_KEY) (rd_view R (snd (renew_lock R f (p, s))) POLLING_KEY)"
proof -
  obtain token where t: "po_token p = Some token" "ow token = i"
    using assms by (auto simp: poller_fits_def)
  obtain b s1 where r: "polling_renew R f token s = (b, s1)" by (metis surj_pair)
  show ?thesis
    using assms t r polling_renew_view [of f token s]
    by (cases b) (auto simp: renew_lock_def poller_fits_def key_moves_def handle_lock_lost_def at_rest_def)
qed

lemma stop_fits:
  assumes "poller_fits ow i (rd_view R s POLLING_KEY) p"
  shows "poller_fits ow i (rd_view R (snd (polling_stop R f (p, s))) POLLING_KEY) (fst (polling_stop R f (p, s))) \<and>
    key_moves ow i (rd_view R s POLLING_KEY) (rd_view R (snd (polling_stop R f (p, s))) POLLING_KEY)"
  using assms
  by (cases "po_token p")
    (auto simp: polling_stop_def poller_fits_def key_moves_def at_rest_def polling_release_view)

lemma elapse_fits:
  assumes "poller_fits ow i (rd_view R s POLLING_KEY) p"
  shows "poller_fits ow i (rd_view R (rd_elapse R n s) POLLING_KEY) (p\<lparr>po_age := po_age p + n\<rparr>)"
proof -
  have "\<exists>t. rd_view R (rd_elapse R n s) POLLING_KEY = Some (token, Some t) \<and> POLLING_TTL_S \<le> t + (po_age p + n)"
    if tok: "po_token p = Some token" and age: "po_age p + n < POLLING_TTL_S" for token
  proof -
    from assms tok age obtain t where "rd_view R s POLLING_KEY = Some (token, Some t)" "POLLING_TTL_S \<le> t + po_age p"
      by (auto simp: poller_fits_def)
    with age show ?thesis by (auto simp: view_elapse)
  qed
  with assms show ?thesis by (simp add: poller_fits_def at_rest_def)
qed

lemma step_fits:
  assumes "fleet_fits R ow F" "draws_own ow x"
  shows "fleet_fits R ow (fleet_step R x F)"
proof (cases x)
  case (PoStart i f token)
  with assms show ?thesis by (auto simp: draws_own_def intro!: on_worker_fits start_fits [THEN conjunct1] start_fits [THEN conjunct2])
next
  case (PoWake i f token)
  with assms show ?thesis by (auto simp: draws_own_def intro!: on_worker_fits wait_fits [THEN conjunct1] wait_fits [THEN conjunct2])
next
  case (PoRenew i f)
  with assms show ?thesis by (auto intro!: on_worker_fits renew_fits [THEN conjunct1] renew_fits [THEN conjunct2])
next
  case (PoDone i)
  with assms(1) show ?thesis
    by (auto simp: on_polling_done_def poller_fits_def key_moves_def at_rest_def intro!: on_worker_fits)
next
  case (PoStop i f)
  with assms(1) show ?thesis by (auto intro!: on_worker_fits stop_fits [THEN conjunct1] stop_fits [THEN conjunct2])
next
  case (PoElapse n)
  with assms(1) elapse_fits show ?thesis by (simp add: fleet_fits_def)
qed

lemma run_fits:
  "fleet_fits R ow F \<Longrightarrow> \<forall>x \<in> set evs. draws_own ow x \<Longrightarrow> fleet_fits R ow (fleet_run R evs F)"
  by (induction evs arbitrary: F) (simp_all add: step_fits)

end

interpretation mem_polling: polling_lock mem_redis
  by (simp add: polling_lock_def mem.redis_laws_axioms)

lemma fits_exclusive:
  assumes "poller_fits ow v e p" "poller_fits ow w e q" "po_polling p" "po_polling q"
    and "po_age p < POLLING_TTL_S" "po_age q < POLLING_TTL_S"
  shows "v = w"
  using assms by (auto simp: poller_fits_def)

text \<open>
  C31: at most one worker polls Telegram. Start any number of workers, let them acquire, renew,
  lose, stop and fail in any order, with any Redis calls failing before or after the server
  has executed them: two workers that poll at the same time are the same worker, unless one
  of them has not been able to run its renewal for the whole time to live of the lock.
\<close>

theorem polling_single:
  fixes s :: 's and n :: nat
  assumes "redis_laws R" "\<forall>x \<in> set evs. draws_own ow x"
  defines "F \<equiv> fleet_run R evs (replicate n idle_poller, s)"
  assumes "v < n" "w < n" "po_polling (fst F ! v)" "po_polling (fst F ! w)"
    and "po_age (fst F ! v) < POLLING_TTL_S" "po_age (fst F ! w) < POLLING_TTL_S"
  shows "v = w"
proof -
  have L: "polling_lock R" using assms(1) by (simp add: polling_lock_def)
  have "fleet_fits R ow (replicate n idle_poller, s)" by (simp add: fleet_fits_def fits_idle)
  from polling_lock.run_fits [OF L this assms(2)] have F: "fleet_fits R ow F" by (simp add: F_def)
  have len: "length (fst (fleet_run R xs G)) = length (fst G)" for xs and G :: "'s fleet"
  proof (induction xs arbitrary: G)
    case (Cons x xs)
    then show ?case by (cases x) (auto simp: on_worker_def split: prod.split)
  qed simp
  have "poller_fits ow v (rd_view R (snd F) POLLING_KEY) (fst F ! v)"
    "poller_fits ow w (rd_view R (snd F) POLLING_KEY) (fst F ! w)"
    using F assms(4,5) len [of evs] by (simp_all add: fleet_fits_def F_def)
  from fits_exclusive [OF this assms(6-9)] show ?thesis .
qed

definition demo_polling :: "polling_event list" where
  "demo_polling = [PoStart 0 Fine ''a'', PoStart 1 Fine ''b'', PoElapse 20, PoWake 1 FailAfter ''b2'', PoRenew 0 Fine,
     PoElapse 20, PoWake 1 Fine ''b3'']"

theorem polling_single_witness:
  "po_polling (fst (fleet_run mem_redis demo_polling (replicate 2 idle_poller, Map.empty)) ! 0) \<and>
   \<not> po_polling (fst (fleet_run mem_redis demo_polling (replicate 2 idle_poller, Map.empty)) ! 1)"
proof -
  let ?F = "fleet_run mem_redis demo_polling (replicate 2 idle_poller, Map.empty)"
  have demo: "po_polling (fst ?F ! 0)" "po_age (fst ?F ! 0) < POLLING_TTL_S" "po_age (fst ?F ! 1) < POLLING_TTL_S"
    by code_simp+
  have "\<forall>x \<in> set demo_polling. draws_own (\<lambda>t. if t = ''a'' then 0 else 1) x"
    by (simp add: demo_polling_def draws_own_def)
  from polling_single [OF mem.redis_laws_axioms this, of 1 2 0 Map.empty] demo show ?thesis by auto
qed

section \<open>When the polling task fails\<close>

text \<open>
  The polling task of the owner has ended by itself: its renewal goes on, so the lock stays
  taken, the workers that wait never get it, and nobody polls any more.
\<close>

definition polls_nobody :: "nat \<Rightarrow> string \<Rightarrow> ('s, 'x) redis_scheme \<Rightarrow> 's fleet \<Rightarrow> bool" where
  "polls_nobody i token R F \<longleftrightarrow> i < length (fst F) \<and> po_renewing (fst F ! i) \<and> \<not> po_waiting (fst F ! i) \<and>
     po_token (fst F ! i) = Some token \<and> (\<forall>p \<in> set (fst F). \<not> po_polling p) \<and>
     (\<exists>t > RENEW_INTERVAL_S. rd_view R (snd F) POLLING_KEY = Some (token, Some t))"

fun is_wake :: "polling_event \<Rightarrow> bool" where
  "is_wake (PoWake i f token) \<longleftrightarrow> True"
| "is_wake _ \<longleftrightarrow> False"

context polling_lock
begin

lemma wake_refused:
  assumes "polls_nobody i token R F"
  shows "polls_nobody i token R (fleet_step R (PoWake j f mine) F)"
proof -
  obtain t where t: "rd_view R (snd F) POLLING_KEY = Some (token, Some t)" "RENEW_INTERVAL_S < t"
    using assms by (auto simp: polls_nobody_def)
  obtain b s where a: "polling_acquire R f mine (snd F) = (b, s)" by (metis surj_pair)
  from t a polling_acquire_true [of f mine "snd F"] polling_acquire_any [of "snd F" f mine]
  have b: "\<not> b" "rd_view R s POLLING_KEY = Some (token, Some t)" by auto
  then have "on_worker j po_waiting (wait_for_lock R f mine) F \<in> {F, (fst F, s)}"
    using a by (simp add: on_worker_def wait_for_lock_def)
  with assms b(2) t show ?thesis by (auto simp: polls_nobody_def)
qed

lemma renewal_goes_on:
  assumes "polls_nobody i token R F"
  shows "polls_nobody i token R (fleet_run R [PoElapse RENEW_INTERVAL_S, PoRenew i Fine] F)"
proof -
  let ?F = "fleet_step R (PoElapse RENEW_INTERVAL_S) F"
  have i: "i < length (fst ?F)" "po_renewing (fst ?F ! i)" "po_token (fst ?F ! i) = Some token"
    "\<not> po_waiting (fst ?F ! i)" "\<forall>p \<in> set (fst ?F). \<not> po_polling p"
    using assms by (auto simp: polls_nobody_def)
  have v: "map_option fst (rd_view R (snd ?F) POLLING_KEY) = Some token"
    using assms by (auto simp: polls_nobody_def view_elapse)
  obtain b s where r: "polling_renew R Fine token (snd ?F) = (b, s)" by (metis surj_pair)
  from r v polling_renew_view [of Fine token "snd ?F"]
  have "b" "rd_view R s POLLING_KEY = Some (token, Some POLLING_TTL_S)" by auto
  moreover have "fleet_step R (PoRenew i Fine) ?F = ((fst ?F)[i := (fst ?F ! i)\<lparr>po_age := 0\<rparr>], s)"
    using i r \<open>b\<close> by (simp add: on_worker_def renew_lock_def)
  moreover have "set ((fst ?F)[i := (fst ?F ! i)\<lparr>po_age := 0\<rparr>]) \<subseteq> insert ((fst ?F ! i)\<lparr>po_age := 0\<rparr>) (set (fst ?F))"
    by (rule set_update_subset_insert)
  ultimately show ?thesis
    using i by (auto simp: polls_nobody_def POLLING_TTL_S_def RENEW_INTERVAL_S_def nth_mem simp del: fleet_step.simps)
qed

lemma wakes_refused:
  "polls_nobody i token R F \<Longrightarrow> list_all is_wake evs \<Longrightarrow> polls_nobody i token R (fleet_run R evs F)"
proof (induction evs arbitrary: F)
  case (Cons x xs)
  then show ?case by (cases x) (use wake_refused in \<open>auto simp del: fleet_step.simps\<close>)
qed simp

lemma failure_unnoticed:
  assumes "polls_nobody i token R F" "\<forall>wakes \<in> set rounds. list_all is_wake wakes"
  shows "polls_nobody i token R
    (fleet_run R (concat (map (\<lambda>wakes. PoElapse RENEW_INTERVAL_S # PoRenew i Fine # wakes) rounds)) F)"
  using assms
proof (induction rounds arbitrary: F)
  case (Cons wakes rounds)
  have "list_all is_wake wakes" using Cons.prems(2) by simp
  from wakes_refused [OF renewal_goes_on [OF Cons.prems(1)] this]
  have "polls_nobody i token R (fleet_run R ([PoElapse RENEW_INTERVAL_S, PoRenew i Fine] @ wakes) F)"
    unfolding fleet_run_simps(3) .
  from Cons.IH [OF this] Cons.prems(2) show ?case by simp
qed simp

end

text \<open>With two workers, of which the first fails: it takes the lock down with it.\<close>

lemma demo_polling_failure:
  "polls_nobody 0 ''a'' mem_redis
     (fleet_run mem_redis (demo_polling @ [PoDone 0]) (replicate 2 idle_poller, Map.empty))"
proof -
  let ?F = "fleet_run mem_redis (demo_polling @ [PoDone 0]) (replicate 2 idle_poller, Map.empty)"
  have "rd_view mem_redis (snd ?F) POLLING_KEY = Some (''a'', Some 40)" "RENEW_INTERVAL_S < 40"
    "length (fst ?F) = 2" "po_renewing (fst ?F ! 0)" "\<not> po_waiting (fst ?F ! 0)" "po_token (fst ?F ! 0) = Some ''a''"
    "list_all (\<lambda>p. \<not> po_polling p) (fst ?F)"
    by code_simp+
  then show ?thesis by (auto simp: polls_nobody_def list_all_iff)
qed

section \<open>Taking over\<close>

text \<open>
  When the owner of the lock is gone, a worker that waits polls as soon as its next attempt
  after the time to live is served.
\<close>

lemma polling_takeover:
  assumes "redis_laws R" "i < length (fst F)" "po_waiting (fst F ! i)"
    and "rd_view R (snd F) POLLING_KEY = Some (gone, Some t)" "t \<le> n"
  shows "po_polling (fst (fleet_run R [PoElapse n, PoWake i Fine token] F) ! i)"
proof -
  have "rd_view R (rd_elapse R n (snd F)) POLLING_KEY = None"
    using redis_laws.view_elapse [OF assms(1)] assms(4,5) by simp
  then have "fst (polling_acquire R Fine token (rd_elapse R n (snd F)))"
    using redis_laws.set_nx_reply [OF assms(1)] by (simp add: polling_acquire_def split_beta)
  then show ?thesis
    using assms(2,3)
    by (auto simp: on_worker_def wait_for_lock_def polling_launch_def split_beta split: bool.splits prod.splits)
qed

end
