(* ===== verification/Tg_Registry.thy ===== *)
theory Tg_Registry
  imports Keyed_Rows
begin

text \<open>
  The register of the chats the bot has seen: the middleware in front of every message and
  membership update (\<open>app/tg/registry.py\<close>), the table \<open>telegram_chats\<close>
  (\<open>models/integration.py\<close>) and the endpoints by which an administrator lists the chats and
  turns the replies to one on and off (\<open>api/settings/router.py\<close>).
\<close>

section \<open>Rows and updates\<close>

record tg_chat_row =
  tc_id :: int
  tc_bot :: int
  tc_chat :: int
  tc_title :: string
  tc_kind :: string
  tc_membership :: string
  tc_replies :: bool
  tc_updated :: int

record chat_info =
  ci_bot :: int
  ci_chat :: int
  ci_title :: "string option"
  ci_full :: string
  ci_kind :: string

record sender_info =
  si_id :: int
  si_username :: "string option"
  si_full :: string

datatype tg_update =
    UpMessage chat_info "sender_info option"
  | UpMember chat_info "sender_info option" string
  | UpOther

fun update_chat_info :: "tg_update \<Rightarrow> chat_info option" where
  "update_chat_info (UpMessage ci _) = Some ci"
| "update_chat_info (UpMember ci _ _) = Some ci"
| "update_chat_info UpOther = None"

fun update_sender :: "tg_update \<Rightarrow> sender_info option" where
  "update_sender (UpMessage _ sender) = sender"
| "update_sender (UpMember _ sender _) = sender"
| "update_sender UpOther = None"

fun new_membership :: "tg_update \<Rightarrow> string option" where
  "new_membership (UpMember _ _ status) = Some status"
| "new_membership _ = None"

fun is_message :: "tg_update \<Rightarrow> bool" where
  "is_message (UpMessage _ _) \<longleftrightarrow> True"
| "is_message _ \<longleftrightarrow> False"

text \<open>\<open>uq_telegram_bot_chat\<close>\<close>

definition chat_of :: "tg_chat_row \<Rightarrow> int \<times> int" where
  "chat_of r = (tc_bot r, tc_chat r)"

definition same_chat :: "int \<Rightarrow> int \<Rightarrow> tg_chat_row \<Rightarrow> bool" where
  "same_chat b c r \<longleftrightarrow> chat_of r = (b, c)"

section \<open>The middleware\<close>

definition shown_title :: "chat_info \<Rightarrow> string" where
  "shown_title ci = (case ci_title ci of Some (c # cs) \<Rightarrow> c # cs | _ \<Rightarrow> ci_full ci)"

definition seen_chat :: "int \<Rightarrow> chat_info \<Rightarrow> string option \<Rightarrow> int \<Rightarrow> tg_chat_row" where
  "seen_chat now ci member k =
     \<lparr>tc_id = k, tc_bot = ci_bot ci, tc_chat = ci_chat ci, tc_title = shown_title ci, tc_kind = ci_kind ci,
      tc_membership = (case member of None \<Rightarrow> ''unknown'' | Some m \<Rightarrow> m), tc_replies = True, tc_updated = now\<rparr>"

definition refreshed_chat :: "int \<Rightarrow> chat_info \<Rightarrow> string option \<Rightarrow> tg_chat_row \<Rightarrow> tg_chat_row" where
  "refreshed_chat now ci member r =
     r\<lparr>tc_title := shown_title ci, tc_kind := ci_kind ci, tc_updated := now,
       tc_membership := (case member of None \<Rightarrow> tc_membership r | Some m \<Rightarrow> m)\<rparr>"

text \<open>\<open>INSERT .. ON CONFLICT (bot_id, chat_id) DO UPDATE\<close>, one statement of the server.\<close>

definition upsert_chat :: "(tg_chat_row, 'd) table \<Rightarrow> int \<Rightarrow> chat_info \<Rightarrow> string option \<Rightarrow> 'd \<Rightarrow> 'd" where
  "upsert_chat T now ci member d =
     upsert_row T (seen_chat now ci member) (same_chat (ci_bot ci) (ci_chat ci)) (refreshed_chat now ci member) d"

definition touch_sender :: "(user_row, 'u) table \<Rightarrow> sender_info option \<Rightarrow> 'u \<Rightarrow> 'u" where
  "touch_sender U sender d =
     (case sender of
        None \<Rightarrow> d
      | Some s \<Rightarrow> snd (tb_update U (\<lambda>r. u_tg r = Some (si_id s))
            (\<lambda>r. r\<lparr>u_tgname := si_username s, u_name := Some (si_full s)\<rparr>) d))"

definition touch_username :: "(user_row, 'u) table \<Rightarrow> sender_info option \<Rightarrow> 'u \<Rightarrow> 'u" where
  "touch_username U sender d =
     (case sender of
        None \<Rightarrow> d
      | Some s \<Rightarrow> snd (tb_update U (\<lambda>r. u_tg r = Some (si_id s)) (\<lambda>r. r\<lparr>u_tgname := si_username s\<rparr>) d))"

definition replies_enabled :: "(tg_chat_row, 'd) table \<Rightarrow> chat_info \<Rightarrow> 'd \<Rightarrow> bool option" where
  "replies_enabled T ci d =
     (case tb_select T (same_chat (ci_bot ci) (ci_chat ci)) d of [] \<Rightarrow> None | r # _ \<Rightarrow> Some (tc_replies r))"

text \<open>
  One update. The handler acts on the users and on the rest of the program; it answers whether
  it returned, an exception leaving the middleware at once. The first component tells whether
  the update was handed on.
\<close>

type_synonym ('d, 'u, 'w) registry_world = "'d \<times> 'u \<times> 'w"

definition registry_call ::
  "(tg_chat_row, 'd) table \<Rightarrow> (user_row, 'u) table \<Rightarrow> (tg_update \<Rightarrow> 'u \<times> 'w \<Rightarrow> bool \<times> 'u \<times> 'w) \<Rightarrow> int \<Rightarrow> tg_update \<Rightarrow>
     ('d, 'u, 'w) registry_world \<Rightarrow> bool \<times> ('d, 'u, 'w) registry_world" where
  "registry_call T U handler now x W =
     (case W of (d, u, w) \<Rightarrow>
       (case update_chat_info x of
          None \<Rightarrow> (case handler x (u, w) of (_, u1, w1) \<Rightarrow> (True, d, u1, w1))
        | Some ci \<Rightarrow>
            let d1 = upsert_chat T now ci (new_membership x) d; u1 = touch_sender U (update_sender x) u
            in if is_message x \<and> replies_enabled T ci d1 \<noteq> Some True then (False, d1, u1, w)
               else (case handler x (u1, w) of
                       (False, u2, w2) \<Rightarrow> (True, d1, u2, w2)
                     | (True, u2, w2) \<Rightarrow> (True, d1, touch_username U (update_sender x) u2, w2))))"

section \<open>The administrator's endpoints\<close>

definition telegram_chats :: "(tg_chat_row, 'd) table \<Rightarrow> 'd \<Rightarrow> tg_chat_row list" where
  "telegram_chats T d = sort_key (\<lambda>r. - tc_updated r) (tb_select T (\<lambda>_. True) d)"

text \<open>The mapper writes a row, and stamps it, only when the value has changed.\<close>

definition update_chat :: "(tg_chat_row, 'd) table \<Rightarrow> int \<Rightarrow> int \<Rightarrow> bool \<Rightarrow> 'd \<Rightarrow> (nat + unit) \<times> 'd" where
  "update_chat T now entry enabled d =
     (case tb_view T d entry of
        None \<Rightarrow> (Inl 404, d)
      | Some row \<Rightarrow> (Inr (), if tc_replies row = enabled then d
            else snd (tb_update T (\<lambda>r. tc_id r = entry) (\<lambda>r. r\<lparr>tc_replies := enabled, tc_updated := now\<rparr>) d)))"

datatype registry_op = RgUpdate int tg_update | RgSet int int bool

text \<open>A run of updates and of the administrator's calls: the updates that reached a handler.\<close>

fun registry_run ::
  "(tg_chat_row, 'd) table \<Rightarrow> (user_row, 'u) table \<Rightarrow> (tg_update \<Rightarrow> 'u \<times> 'w \<Rightarrow> bool \<times> 'u \<times> 'w) \<Rightarrow> registry_op list \<Rightarrow>
     ('d, 'u, 'w) registry_world \<Rightarrow> tg_update list \<times> ('d, 'u, 'w) registry_world" where
  "registry_run T U handler [] W = ([], W)"
| "registry_run T U handler (RgUpdate now x # ops) W =
     (case registry_call T U handler now x W of
        (handed, W1) \<Rightarrow> (case registry_run T U handler ops W1 of (xs, W2) \<Rightarrow> ((if handed then x # xs else xs), W2)))"
| "registry_run T U handler (RgSet now entry enabled # ops) W =
     registry_run T U handler ops (snd (update_chat T now entry enabled (fst W)), snd W)"

section \<open>A muted chat\<close>

definition muted :: "(tg_chat_row, 'd) table \<Rightarrow> int \<Rightarrow> int \<Rightarrow> int \<Rightarrow> 'd \<Rightarrow> bool" where
  "muted T i b c d \<longleftrightarrow> (\<exists>r. tb_view T d i = Some r \<and> same_chat b c r \<and> \<not> tc_replies r)"

locale chat_register = keyed_table T tc_id chat_of ok
  for T :: "(tg_chat_row, 'd) table" and ok :: "'d \<Rightarrow> bool"
begin

lemma chat_fields [simp]:
  "tc_id (refreshed_chat now ci m r) = tc_id r" "chat_of (refreshed_chat now ci m r) = chat_of r"
  "tc_replies (refreshed_chat now ci m r) = tc_replies r" "tc_id (seen_chat now ci m k) = k"
  "chat_of (seen_chat now ci m k) = (ci_bot ci, ci_chat ci)" "tc_replies (seen_chat now ci m k)"
  by (simp_all add: refreshed_chat_def seen_chat_def chat_of_def)

lemmas chat_cases = upsert_cases [where mk = "seen_chat now ci m" and K = "(ci_bot ci, ci_chat ci)" and
  f = "refreshed_chat now ci m" and p = "same_chat (ci_bot ci) (ci_chat ci)" for now ci m,
  OF _ chat_fields(4,5,1,2) same_chat_def, folded upsert_chat_def]

text \<open>An upsert keeps every row's chat and its switch, and leaves exactly one row for its chat.\<close>

lemma upsert_ok: "ok d \<Longrightarrow> ok (upsert_chat T now ci m d)"
  by (rule chat_cases)

lemma upsert_keeps:
  assumes "ok d" "tb_view T d i = Some r"
  shows "\<exists>r'. tb_view T (upsert_chat T now ci m d) i = Some r' \<and> chat_of r' = chat_of r \<and> tc_replies r' = tc_replies r"
  by (rule chat_cases [OF assms(1), of now ci m]) (use assms(2) in auto)

lemma upsert_row_of_chat:
  assumes "ok d"
  shows "\<exists>i r. tb_view T (upsert_chat T now ci m d) i = Some r \<and> same_chat (ci_bot ci) (ci_chat ci) r \<and>
    (tc_replies r \<longleftrightarrow> (\<forall>j s. tb_view T d j = Some s \<longrightarrow> same_chat (ci_bot ci) (ci_chat ci) s \<longrightarrow> tc_replies s))"
proof (rule chat_cases [OF assms, of now ci m])
  fix i
  assume "\<And>j s. tb_view T d j = Some s \<Longrightarrow> chat_of s \<noteq> (ci_bot ci, ci_chat ci)"
    "tb_view T (upsert_chat T now ci m d) = (tb_view T d)(i \<mapsto> seen_chat now ci m i)"
  then show ?thesis by (intro exI [of _ i] exI [of _ "seen_chat now ci m i"]) (auto simp: same_chat_def)
next
  fix i r
  assume r: "tb_view T d i = Some r" "chat_of r = (ci_bot ci, ci_chat ci)"
    "tb_view T (upsert_chat T now ci m d) = (tb_view T d)(i \<mapsto> refreshed_chat now ci m r)"
  have "(\<forall>j s. tb_view T d j = Some s \<longrightarrow> same_chat (ci_bot ci) (ci_chat ci) s \<longrightarrow> tc_replies s) \<longleftrightarrow> tc_replies r"
  proof
    assume "tc_replies r"
    show "\<forall>j s. tb_view T d j = Some s \<longrightarrow> same_chat (ci_bot ci) (ci_chat ci) s \<longrightarrow> tc_replies s"
    proof (intro allI impI)
      fix j s
      assume "tb_view T d j = Some s" "same_chat (ci_bot ci) (ci_chat ci) s"
      with one_row [OF assms r(1), of j s] r(2) \<open>tc_replies r\<close> show "tc_replies s" by (simp add: same_chat_def)
    qed
  qed (use r(1,2) in \<open>auto simp: same_chat_def\<close>)
  with r(2,3) show ?thesis by (intro exI [of _ i] exI [of _ "refreshed_chat now ci m r"]) (simp add: same_chat_def)
qed

lemma replies_enabled_row:
  assumes "ok d" "tb_view T d i = Some r" "same_chat (ci_bot ci) (ci_chat ci) r"
  shows "replies_enabled T ci d = Some (tc_replies r)"
proof -
  have "x = r" if "x \<in> set (tb_select T (same_chat (ci_bot ci) (ci_chat ci)) d)" for x
  proof -
    from that select_set [OF assms(1)] obtain k where "tb_view T d k = Some x" "same_chat (ci_bot ci) (ci_chat ci) x" by auto
    from one_row [OF assms(1,2) this(1)] assms(3) this(2) show ?thesis by (simp add: same_chat_def)
  qed
  note only = this
  have "r \<in> set (tb_select T (same_chat (ci_bot ci) (ci_chat ci)) d)"
    using assms select_set [OF assms(1)] by auto
  then obtain y ys where ys: "tb_select T (same_chat (ci_bot ci) (ci_chat ci)) d = y # ys" by (metis list.set_cases)
  with only [of y] show ?thesis by (simp add: replies_enabled_def)
qed

text \<open>Whether an update is handed on depends on the rows of its chat alone.\<close>

lemma registry_gate:
  assumes "ok d" "update_chat_info x = Some ci"
  shows "fst (registry_call T U handler now x (d, u, w)) \<longleftrightarrow>
    \<not> is_message x \<or> (\<forall>j s. tb_view T d j = Some s \<longrightarrow> same_chat (ci_bot ci) (ci_chat ci) s \<longrightarrow> tc_replies s)"
proof -
  from upsert_row_of_chat [OF assms(1)] obtain i r where r: "tb_view T (upsert_chat T now ci (new_membership x) d) i = Some r"
    "same_chat (ci_bot ci) (ci_chat ci) r"
    "tc_replies r \<longleftrightarrow> (\<forall>j s. tb_view T d j = Some s \<longrightarrow> same_chat (ci_bot ci) (ci_chat ci) s \<longrightarrow> tc_replies s)"
    by metis
  from replies_enabled_row [OF upsert_ok [OF assms(1)] r(1,2)] r(3) assms(2) show ?thesis
    by (simp add: registry_call_def Let_def split: prod.split bool.split)
qed

lemma registry_call_chats:
  "fst (snd (registry_call T U handler now x (d, u, w))) =
     (case update_chat_info x of None \<Rightarrow> d | Some ci \<Rightarrow> upsert_chat T now ci (new_membership x) d)"
  by (simp add: registry_call_def Let_def split: option.split prod.split bool.split)

lemma switch_fields [simp]:
  "tc_id (r\<lparr>tc_replies := e, tc_updated := t\<rparr>) = tc_id r" "chat_of (r\<lparr>tc_replies := e, tc_updated := t\<rparr>) = chat_of r"
  by (simp_all add: chat_of_def)

lemma update_chat_ok: "ok d \<Longrightarrow> ok (snd (update_chat T now j enabled d))"
  by (auto simp: update_chat_def update_rows split: option.split)

lemma update_chat_row:
  assumes "ok d" "tb_view T d i = Some r"
  shows "\<exists>r'. tb_view T (snd (update_chat T now j enabled d)) i = Some r' \<and> chat_of r' = chat_of r \<and>
    tc_replies r' = (if i = j then enabled else tc_replies r)"
proof (cases "tb_view T d j")
  case (Some row)
  then show ?thesis
    using assms update_one [OF assms(1), of "\<lambda>r. r\<lparr>tc_replies := enabled, tc_updated := now\<rparr>", OF _ _ Some]
    by (auto simp: update_chat_def)
qed (use assms in \<open>auto simp: update_chat_def\<close>)

lemma update_chat_keeps_muted:
  assumes "ok d" "muted T i b c d" "j \<noteq> i \<or> \<not> enabled"
  shows "muted T i b c (snd (update_chat T now j enabled d))"
proof -
  obtain r where r: "tb_view T d i = Some r" "same_chat b c r" "\<not> tc_replies r" using assms(2) by (auto simp: muted_def)
  from update_chat_row [OF assms(1) r(1), of now j enabled] r(2,3) assms(3) show ?thesis
    by (auto simp: muted_def same_chat_def split: if_splits)
qed

lemma update_chat_mutes:
  assumes "ok d" "tb_view T d i = Some r"
  shows "muted T i (tc_bot r) (tc_chat r) (snd (update_chat T now i False d))"
  using update_chat_row [OF assms, of now i False] by (auto simp: muted_def same_chat_def chat_of_def)

lemma muted_run:
  assumes "ok (fst W)" "muted T i b c (fst W)" "\<forall>now. RgSet now i True \<notin> set ops"
  shows "(\<forall>x \<in> set (fst (registry_run T U handler ops W)). is_message x \<longrightarrow>
      (\<forall>ci. update_chat_info x = Some ci \<longrightarrow> \<not> (ci_bot ci = b \<and> ci_chat ci = c))) \<and>
    muted T i b c (fst (snd (registry_run T U handler ops W)))"
  using assms
proof (induction ops arbitrary: W)
  case (Cons a ops)
  obtain d u w where W: "W = (d, u, w)" by (cases W)
  show ?case
  proof (cases a)
    case (RgUpdate now x)
    obtain handed W1 where call: "registry_call T U handler now x W = (handed, W1)" by (metis surj_pair)
    have d1: "fst W1 = (case update_chat_info x of None \<Rightarrow> d | Some ci \<Rightarrow> upsert_chat T now ci (new_membership x) d)"
      using registry_call_chats [of U handler now x d u w] call W by simp
    have m1: "muted T i b c (fst W1)" "ok (fst W1)"
      using Cons.prems(1,2) d1 W upsert_keeps [of d i] upsert_ok
      by (auto simp: muted_def same_chat_def split: option.split) metis+
    have "\<not> (ci_bot ci = b \<and> ci_chat ci = c)" if "handed" "is_message x" "update_chat_info x = Some ci" for ci
      using registry_gate [of d x ci U handler now u w] Cons.prems(1,2) that call W
      by (auto simp: muted_def same_chat_def)
    with Cons.IH [OF m1(2,1)] Cons.prems(3) RgUpdate call show ?thesis by (auto split: prod.splits)
  next
    case (RgSet now j enabled)
    with Cons.prems(3) have "j \<noteq> i \<or> \<not> enabled" by (cases enabled) auto
    from update_chat_keeps_muted [OF Cons.prems(1,2) this, of now] update_chat_ok [OF Cons.prems(1), of now j enabled]
    have "ok (fst (snd (update_chat T now j enabled (fst W)), snd W))"
      "muted T i b c (fst (snd (update_chat T now j enabled (fst W)), snd W))" by simp_all
    from Cons.IH [OF this] Cons.prems(3) RgSet show ?thesis by simp
  qed
qed auto

end

interpretation chat_mem: chat_register "keyed_mem chat_of" "rows_ok tc_id (sorted_wrt (\<lambda>r s. \<not> chat_of r = chat_of s))"
  by (simp add: chat_register_def keyed_mem_laws)

section \<open>Properties\<close>

text \<open>
  C32: a muted chat stays silent. Once an administrator has turned the replies to a chat off,
  and until one turns them on for that row again, no message of the chat reaches a handler,
  whatever updates arrive, from whatever chats, and whatever the handlers do; changes of the
  chat's title, of its kind and of the bot's membership do not turn it on.
\<close>

theorem muted_chat_silent:
  assumes "chat_register T ok" "ok d" "update_chat T now entry False d = (Inr (), d1)"
    and "tb_view T d entry = Some row" "\<forall>t. RgSet t entry True \<notin> set ops"
    and "x \<in> set (fst (registry_run T U handler ops (d1, u, w)))" "update_chat_info x = Some ci" "is_message x"
  shows "\<not> (ci_bot ci = tc_bot row \<and> ci_chat ci = tc_chat row)"
proof -
  have d1: "d1 = snd (update_chat T now entry False d)" using assms(3) by simp
  have "ok d1" unfolding d1 by (rule chat_register.update_chat_ok [OF assms(1,2)])
  moreover have "muted T entry (tc_bot row) (tc_chat row) d1"
    unfolding d1 by (rule chat_register.update_chat_mutes [OF assms(1,2,4)])
  ultimately show ?thesis
    using chat_register.muted_run [OF assms(1), of "(d1, u, w)"] assms(5-8) by auto
qed

definition demo_group :: chat_info where
  "demo_group = \<lparr>ci_bot = 7, ci_chat = - 100, ci_title = Some ''ops'', ci_full = ''ops'', ci_kind = ''group''\<rparr>"

definition demo_private :: chat_info where
  "demo_private = \<lparr>ci_bot = 7, ci_chat = 55, ci_title = None, ci_full = ''Ann'', ci_kind = ''private''\<rparr>"

definition demo_chats :: "tg_chat_row rows" where
  "demo_chats = (2, [(1, seen_chat 3 demo_group None 1)])"

definition demo_updates :: "registry_op list" where
  "demo_updates = [RgUpdate 5 (UpMessage demo_group None), RgUpdate 6 (UpMember demo_group None ''administrator''),
     RgUpdate 7 (UpMessage demo_private (Some \<lparr>si_id = 9, si_username = None, si_full = ''Ann''\<rparr>)), RgSet 8 2 False,
     RgUpdate 9 (UpMessage demo_private None), RgUpdate 10 (UpMessage demo_group None)]"

theorem muted_chat_silent_witness:
  "fst (registry_run (keyed_mem chat_of) user_mem (\<lambda>_ W. (True, W)) demo_updates (snd (update_chat (keyed_mem chat_of) 4 1 False demo_chats), (1, []), ()))
     = [UpMember demo_group None ''administrator'', UpMessage demo_private (Some \<lparr>si_id = 9, si_username = None, si_full = ''Ann''\<rparr>)] \<and>
   \<not> (ci_bot demo_private = tc_bot (seen_chat 3 demo_group None 1) \<and> ci_chat demo_private = tc_chat (seen_chat 3 demo_group None 1))"
proof -
  let ?d = "snd (update_chat (keyed_mem chat_of) 4 1 False demo_chats)"
  let ?x = "UpMessage demo_private (Some \<lparr>si_id = 9, si_username = None, si_full = ''Ann''\<rparr>)"
  have handed: "fst (registry_run (keyed_mem chat_of) user_mem (\<lambda>_ W. (True, W)) demo_updates (?d, (1, []), ()))
     = [UpMember demo_group None ''administrator'', ?x]"
    by code_simp
  have "rows_ok tc_id (sorted_wrt (\<lambda>r s. \<not> chat_of r = chat_of s)) demo_chats"
    "update_chat (keyed_mem chat_of) 4 1 False demo_chats = (Inr (), ?d)" "tb_view (keyed_mem chat_of) demo_chats 1 = Some (seen_chat 3 demo_group None 1)"
    by code_simp+
  note start = this
  have quiet: "\<forall>t. RgSet t 1 True \<notin> set demo_updates" by (simp add: demo_updates_def)
  have "?x \<in> set (fst (registry_run (keyed_mem chat_of) user_mem (\<lambda>_ W. (True, W)) demo_updates (?d, (1, []), ())))"
    unfolding handed by simp
  from muted_chat_silent [OF chat_mem.chat_register_axioms start quiet this, of demo_private] handed
  show ?thesis by simp
qed

end
