(* ===== verification/Tg_Service.thy ===== *)
theory Tg_Service
  imports Tg_Polling Sessions Vault_Files
begin

text \<open>
  The life of the Telegram bot in one worker (\<open>app/tg/service.py\<close>) and the webhook endpoint
  (\<open>api/tg_webhook.py\<close>). Every few seconds the worker reads the integrations; when those of
  the command line tools have changed it writes their files, and when the Telegram row has
  changed it stops the connection and starts the one the row asks for, by webhook or by long
  polling. Telegram itself is what it has been told: the address and the secret of the webhook.
\<close>

section \<open>State\<close>

record tg_settings =
  st_token :: string
  st_secret :: string
  st_url :: string
  st_admins :: "int list"

definition no_settings :: tg_settings where
  "no_settings = \<lparr>st_token = [], st_secret = [], st_url = [], st_admins = []\<rparr>"

datatype bot_mode = BotOff | BotWebhook | BotPolling

datatype revision = RevOff | RevRow int int

record bot_service =
  bs_bot :: bool
  bs_dispatcher :: bool
  bs_polling :: "poller option"
  bs_mode :: bot_mode
  bs_revision :: "revision option"
  bs_runtime :: "(int \<times> int) list option"
  bs_settings :: tg_settings
  bs_sessions :: "tg_key session_store"

definition fresh_service :: bot_service where
  "fresh_service = \<lparr>bs_bot = False, bs_dispatcher = False, bs_polling = None, bs_mode = BotOff, bs_revision = None,
     bs_runtime = None, bs_settings = no_settings, bs_sessions = empty_store\<rparr>"

text \<open>The worker, the users, the folder of the secrets, Telegram's webhook, Redis, and the rest.\<close>

record ('u, 's, 'w) bot_world =
  bw_service :: bot_service
  bw_users :: 'u
  bw_folder :: folder
  bw_hook :: "(string \<times> string) option"
  bw_redis :: 's
  bw_rest :: 'w

text \<open>
  What happens during one refresh: the cipher and the JSON encoder, which tokens Telegram
  knows, the faults of the calls, the token drawn for the polling lock, and how the turns of
  the sessions end and are journaled.
\<close>

record 'w bot_env =
  be_vault :: vault_env
  be_dumps :: "(string \<times> string \<times> string) list \<Rightarrow> string"
  be_get_me :: "string \<Rightarrow> bool"
  be_set_hook :: fault
  be_delete_hook :: fault
  be_lock :: fault
  be_release :: fault
  be_token :: string
  be_finish :: "nat \<Rightarrow> tg_key session_store \<times> 'w \<Rightarrow> tg_key session_store \<times> 'w"
  be_journal :: "chat_session \<Rightarrow> 'w \<Rightarrow> 'w"

section \<open>Stopping and starting the connection\<close>

definition delete_hook :: "fault \<Rightarrow> (string \<times> string) option \<Rightarrow> (string \<times> string) option" where
  "delete_hook f h = snd (call f (\<lambda>_. ((), None)) h)"

definition stop_connection ::
  "('s, 'x) redis_scheme \<Rightarrow> 'w bot_env \<Rightarrow> ('u, 's, 'w) bot_world \<Rightarrow> ('u, 's, 'w) bot_world" where
  "stop_connection R E W =
     (let sv = bw_service W in
      W\<lparr>bw_hook := (if bs_mode sv = BotWebhook \<and> bs_bot sv then delete_hook (be_delete_hook E) (bw_hook W) else bw_hook W),
        bw_redis := (case bs_polling sv of None \<Rightarrow> bw_redis W | Some p \<Rightarrow> snd (polling_stop R (be_release E) (p, bw_redis W))),
        bw_service := sv\<lparr>bs_polling := None, bs_bot := False, bs_dispatcher := False, bs_mode := BotOff\<rparr>\<rparr>)"

definition start_webhook :: "'w bot_env \<Rightarrow> ('u, 's, 'w) bot_world \<Rightarrow> ('u, 's, 'w) bot_world" where
  "start_webhook E W =
     (let sv = bw_service W; st = bs_settings sv in
      case call (be_set_hook E) (\<lambda>_. ((), Some (st_url st, st_secret st))) (bw_hook W) of
        (None, h) \<Rightarrow> W\<lparr>bw_hook := h, bw_service := sv\<lparr>bs_bot := False, bs_dispatcher := False\<rparr>\<rparr>
      | (Some _, h) \<Rightarrow> W\<lparr>bw_hook := h, bw_service := sv\<lparr>bs_mode := BotWebhook\<rparr>\<rparr>)"

definition start_polling ::
  "('s, 'x) redis_scheme \<Rightarrow> 'w bot_env \<Rightarrow> ('u, 's, 'w) bot_world \<Rightarrow> ('u, 's, 'w) bot_world" where
  "start_polling R E W =
     (case polling_start R (be_lock E) (be_token E) (idle_poller, bw_redis W) of
        (p, s) \<Rightarrow> W\<lparr>bw_hook := delete_hook (be_delete_hook E) (bw_hook W), bw_redis := s,
                    bw_service := (bw_service W)\<lparr>bs_polling := Some p, bs_mode := BotPolling\<rparr>\<rparr>)"

definition start_configured ::
  "('s, 'x) redis_scheme \<Rightarrow> 'w bot_env \<Rightarrow> ('u, 's, 'w) bot_world \<Rightarrow> ('u, 's, 'w) bot_world" where
  "start_configured R E W =
     (let st = bs_settings (bw_service W) in
      if st_token st = [] \<or> prefix ''123456:'' (st_token st) then W
      else if \<not> be_get_me E (st_token st) then W
      else let W1 = W\<lparr>bw_service := (bw_service W)\<lparr>bs_bot := True, bs_dispatcher := True\<rparr>\<rparr> in
        if st_url st \<noteq> [] \<and> st_secret st \<noteq> [] then start_webhook E W1 else start_polling R E W1)"

section \<open>Refreshing\<close>

definition runtime_revision :: "integration list \<Rightarrow> (int \<times> int) list" where
  "runtime_revision rows = map (\<lambda>r. (ig_id r, ig_updated r)) (filter (\<lambda>r. ig_kind r \<noteq> IK_TELEGRAM) rows)"

definition telegram_row :: "integration list \<Rightarrow> integration option" where
  "telegram_row rows = find (\<lambda>r. ig_kind r = IK_TELEGRAM) rows"

definition row_revision :: "integration option \<Rightarrow> revision" where
  "row_revision row = (case row of None \<Rightarrow> RevOff | Some r \<Rightarrow> RevRow (ig_id r) (ig_updated r))"

definition row_options :: "integration \<Rightarrow> tg_options" where
  "row_options r = (case io_telegram (ig_options r) of None \<Rightarrow> no_tg_options | Some t \<Rightarrow> t)"

datatype refresh_outcome = RfUnchanged | RfApplied | RfRetry | RfFailed string | RfHangs

text \<open>\<open>materialize\<close>, when the revision of the other rows is new; a failure is its ValueError.\<close>

definition refresh_files :: "'w bot_env \<Rightarrow> integration list \<Rightarrow> ('u, 's, 'w) bot_world \<Rightarrow> bool \<times> ('u, 's, 'w) bot_world" where
  "refresh_files E rows W =
     (if Some (runtime_revision rows) = bs_runtime (bw_service W) then (True, W)
      else (case materialize (be_vault E) (be_dumps E) rows (bw_folder W) of
              (False, fs) \<Rightarrow> (False, W\<lparr>bw_folder := fs\<rparr>)
            | (True, fs) \<Rightarrow> (True, W\<lparr>bw_folder := fs,
                  bw_service := (bw_service W)\<lparr>bs_runtime := Some (runtime_revision rows)\<rparr>\<rparr>)))"

definition on_settings :: "(tg_settings \<Rightarrow> tg_settings) \<Rightarrow> ('u, 's, 'w) bot_world \<Rightarrow> ('u, 's, 'w) bot_world" where
  "on_settings f W = W\<lparr>bw_service := (bw_service W)\<lparr>bs_settings := f (bs_settings (bw_service W))\<rparr>\<rparr>"

text \<open>An enabled row: the settings one by one, the administrators' roles, the connection.\<close>

definition apply_row ::
  "('s, 'x) redis_scheme \<Rightarrow> (user_row, 'u) table \<Rightarrow> 'w bot_env \<Rightarrow> integration \<Rightarrow> ('u, 's, 'w) bot_world \<Rightarrow>
     refresh_outcome \<times> ('u, 's, 'w) bot_world" where
  "apply_row R U E r W =
     (case unseal (be_vault E) (ig_secret r) of
        Inl e \<Rightarrow> (RfFailed e, W)
      | Inr token \<Rightarrow>
          let W1 = on_settings (\<lambda>s. s\<lparr>st_token := token\<rparr>) W in
          (case io_secret (ig_options r) of
             None \<Rightarrow> (RfFailed ''KeyError'', W1)
           | Some sealed \<Rightarrow>
               (case unseal (be_vault E) sealed of
                  Inl e \<Rightarrow> (RfFailed e, W1)
                | Inr wsecret \<Rightarrow>
                    let W2 = on_settings (\<lambda>s. s\<lparr>st_secret := wsecret, st_url := to_url (row_options r),
                                st_admins := to_admins (row_options r)\<rparr>) W1;
                        W3 = W2\<lparr>bw_users := snd (sync_admin_roles U (to_admins (row_options r)) (bw_users W2))\<rparr>;
                        W4 = start_configured R E W3
                    in (if bs_bot (bw_service W4) then RfApplied else RfRetry, W4))))"

text \<open>A new revision: the turns are interrupted, the connection stopped, the settings cleared.\<close>

definition apply_revision ::
  "('s, 'x) redis_scheme \<Rightarrow> (user_row, 'u) table \<Rightarrow> 'w bot_env \<Rightarrow> integration option \<Rightarrow> ('u, 's, 'w) bot_world \<Rightarrow>
     refresh_outcome \<times> ('u, 's, 'w) bot_world" where
  "apply_revision R U E row W =
     (case interrupt_all_turns (be_finish E) (be_journal E) (bs_sessions (bw_service W), bw_rest W) of
        (None, S, w) \<Rightarrow> (RfHangs, W\<lparr>bw_service := (bw_service W)\<lparr>bs_sessions := S\<rparr>, bw_rest := w\<rparr>)
      | (Some _, S, w) \<Rightarrow>
          let W1 = stop_connection R E (W\<lparr>bw_rest := w\<rparr>);
              W2 = W1\<lparr>bw_service := (bw_service W1)\<lparr>bs_sessions := empty_store, bs_settings := no_settings\<rparr>\<rparr>
          in case row of
               None \<Rightarrow> (RfApplied, W2)
             | Some r \<Rightarrow> if ig_enabled r then apply_row R U E r W2 else (RfApplied, W2))"

definition refresh_settings ::
  "('s, 'x) redis_scheme \<Rightarrow> (user_row, 'u) table \<Rightarrow> (integration, 'd) table \<Rightarrow> 'w bot_env \<Rightarrow> 'd \<Rightarrow> ('u, 's, 'w) bot_world \<Rightarrow>
     refresh_outcome \<times> ('u, 's, 'w) bot_world" where
  "refresh_settings R U T E d W =
     (let rows = integration_list T d in
      case refresh_files E rows W of
        (False, W1) \<Rightarrow> (RfFailed ''Cannot decrypt integration with the configured master key'', W1)
      | (True, W1) \<Rightarrow>
          let row = telegram_row rows; rev = row_revision row in
          if Some rev = bs_revision (bw_service W1) then (RfUnchanged, W1)
          else (case apply_revision R U E row W1 of
                  (RfApplied, W2) \<Rightarrow> (RfApplied, W2\<lparr>bw_service := (bw_service W2)\<lparr>bs_revision := Some rev\<rparr>\<rparr>)
                | (out, W2) \<Rightarrow> (out, W2)))"

section \<open>The webhook endpoint\<close>

text \<open>The update that is dispatched, if any; otherwise the update is dropped or refused.\<close>

definition feed_update :: "'p \<Rightarrow> bot_service \<Rightarrow> 'p option" where
  "feed_update x sv = (if bs_mode sv \<noteq> BotWebhook \<or> \<not> bs_bot sv \<or> \<not> bs_dispatcher sv then None else Some x)"

definition is_ascii :: "string \<Rightarrow> bool" where
  "is_ascii s \<longleftrightarrow> (\<forall>c \<in> set s. of_char c < (128 :: nat))"

text \<open>\<open>compare_digest\<close> on strings raises a TypeError unless both are ASCII; an exception is a 500.\<close>

definition telegram_webhook :: "('b \<Rightarrow> 'p option) \<Rightarrow> string option \<Rightarrow> 'b \<Rightarrow> bot_service \<Rightarrow> nat + 'p option" where
  "telegram_webhook parse header body sv =
     (let expected = st_secret (bs_settings sv); presented = (case header of None \<Rightarrow> [] | Some h \<Rightarrow> h) in
      if expected = [] then Inl 503
      else if \<not> (is_ascii presented \<and> is_ascii expected) then Inl 500
      else if presented \<noteq> expected then Inl 403
      else case parse body of None \<Rightarrow> Inl 500 | Some x \<Rightarrow> Inr (feed_update x sv))"

text \<open>\<open>/telegram/status\<close>\<close>

definition telegram_status :: "bot_service \<Rightarrow> bot_mode \<times> bool" where
  "telegram_status sv = (bs_mode sv, bs_bot sv)"

section \<open>Runs of a worker\<close>

text \<open>
  Refreshes with any tables, and the stop of the worker; a refresh that hangs is the last step.
  The polling tasks of the worker (\<open>Tg_Polling\<close>) change its poller and Redis in between.
\<close>

datatype ('d, 'w) service_op = SvRefresh "'w bot_env" 'd | SvStop "'w bot_env" | SvPoll "polling_event"

definition poll_event :: "('s, 'x) redis_scheme \<Rightarrow> polling_event \<Rightarrow> ('u, 's, 'w) bot_world \<Rightarrow> ('u, 's, 'w) bot_world" where
  "poll_event R x W =
     (case bs_polling (bw_service W) of
        None \<Rightarrow> W
      | Some p \<Rightarrow> (case fleet_step R x ([p], bw_redis W) of
            (ps, s) \<Rightarrow> W\<lparr>bw_redis := s, bw_service := (bw_service W)\<lparr>bs_polling := Some (hd ps)\<rparr>\<rparr>))"

fun service_step ::
  "('s, 'x) redis_scheme \<Rightarrow> (user_row, 'u) table \<Rightarrow> (integration, 'd) table \<Rightarrow> ('d, 'w) service_op \<Rightarrow>
     ('u, 's, 'w) bot_world \<Rightarrow> ('u, 's, 'w) bot_world" where
  "service_step R U T (SvRefresh E d) W = snd (refresh_settings R U T E d W)"
| "service_step R U T (SvStop E) W = stop_connection R E W"
| "service_step R U T (SvPoll x) W = poll_event R x W"

definition service_run ::
  "('s, 'x) redis_scheme \<Rightarrow> (user_row, 'u) table \<Rightarrow> (integration, 'd) table \<Rightarrow> ('d, 'w) service_op list \<Rightarrow>
     ('u, 's, 'w) bot_world \<Rightarrow> ('u, 's, 'w) bot_world" where
  "service_run R U T ops W = fold (service_step R U T) ops W"

section \<open>What every step keeps\<close>

definition conn_ok :: "bot_service \<Rightarrow> bool" where
  "conn_ok sv \<longleftrightarrow> (bs_bot sv \<longleftrightarrow> bs_mode sv \<noteq> BotOff) \<and> (bs_dispatcher sv \<longleftrightarrow> bs_bot sv) \<and>
     (bs_polling sv \<noteq> None \<longleftrightarrow> bs_mode sv = BotPolling) \<and>
     (bs_mode sv = BotWebhook \<longrightarrow> st_url (bs_settings sv) \<noteq> [] \<and> st_secret (bs_settings sv) \<noteq> [])"

definition stopped :: "bot_service \<Rightarrow> bool" where
  "stopped sv \<longleftrightarrow> \<not> bs_bot sv \<and> \<not> bs_dispatcher sv \<and> bs_polling sv = None \<and> bs_mode sv = BotOff"

lemma stopped_ok: "stopped sv \<Longrightarrow> conn_ok sv"
  by (simp add: stopped_def conn_ok_def)

lemma stop_connection_service:
  "bw_service (stop_connection R E W) = (bw_service W)\<lparr>bs_polling := None, bs_bot := False, bs_dispatcher := False, bs_mode := BotOff\<rparr>"
  by (simp add: stop_connection_def Let_def)

lemma start_webhook_service:
  "bw_service (start_webhook E W) = (if be_set_hook E = Fine then (bw_service W)\<lparr>bs_mode := BotWebhook\<rparr>
     else (bw_service W)\<lparr>bs_bot := False, bs_dispatcher := False\<rparr>)"
  by (cases "be_set_hook E") (simp_all add: start_webhook_def Let_def)

lemma start_polling_service:
  "\<exists>p. bw_service (start_polling R E W) = (bw_service W)\<lparr>bs_polling := Some p, bs_mode := BotPolling\<rparr>"
  by (cases "polling_start R (be_lock E) (be_token E) (idle_poller, bw_redis W)")
    (auto simp: start_polling_def intro!: exI)

text \<open>The service that \<open>start_configured\<close> leaves, from one that is stopped.\<close>

lemma start_configured_service:
  assumes "stopped (bw_service W)"
  shows "conn_ok (bw_service (start_configured R E W)) \<and>
    bs_settings (bw_service (start_configured R E W)) = bs_settings (bw_service W) \<and>
    bs_revision (bw_service (start_configured R E W)) = bs_revision (bw_service W) \<and>
    bs_runtime (bw_service (start_configured R E W)) = bs_runtime (bw_service W)"
proof -
  let ?st = "bs_settings (bw_service W)"
  let ?W1 = "W\<lparr>bw_service := (bw_service W)\<lparr>bs_bot := True, bs_dispatcher := True\<rparr>\<rparr>"
  consider "st_token ?st = [] \<or> prefix ''123456:'' (st_token ?st) \<or> \<not> be_get_me E (st_token ?st)"
    | "start_configured R E W = start_webhook E ?W1" "st_url ?st \<noteq> []" "st_secret ?st \<noteq> []"
    | "start_configured R E W = start_polling R E ?W1"
  proof (cases "st_token ?st = [] \<or> prefix ''123456:'' (st_token ?st) \<or> \<not> be_get_me E (st_token ?st)")
    case False
    then have "start_configured R E W =
        (if st_url ?st \<noteq> [] \<and> st_secret ?st \<noteq> [] then start_webhook E ?W1 else start_polling R E ?W1)"
      unfolding start_configured_def Let_def by simp
    with that(2,3) show ?thesis by presburger
  qed (rule that(1))
  then show ?thesis
  proof cases
    case 1
    then show ?thesis using stopped_ok [OF assms] by (auto simp: start_configured_def Let_def)
  next
    case 2
    with assms show ?thesis by (simp add: start_webhook_service conn_ok_def stopped_def)
  next
    case 3
    from start_polling_service [of R E ?W1] obtain p where
      "bw_service (start_polling R E ?W1) = (bw_service ?W1)\<lparr>bs_polling := Some p, bs_mode := BotPolling\<rparr>" by blast
    with 3 assms show ?thesis by (simp add: conn_ok_def stopped_def)
  qed
qed

lemma refresh_files_service:
  "refresh_files E rows W = (b, W1) \<Longrightarrow>
     bw_service W1 = (bw_service W)\<lparr>bs_runtime := bs_runtime (bw_service W1)\<rparr> \<and>
     bw_users W1 = bw_users W \<and> bw_hook W1 = bw_hook W \<and> bw_redis W1 = bw_redis W \<and> bw_rest W1 = bw_rest W \<and>
     (b \<longrightarrow> bs_runtime (bw_service W1) = Some (runtime_revision rows))"
  by (auto simp: refresh_files_def split: if_splits prod.splits bool.splits)

text \<open>Where the secret of the webhook comes from.\<close>

definition row_secret :: "vault_env \<Rightarrow> integration \<Rightarrow> string \<Rightarrow> bool" where
  "row_secret V r wsecret \<longleftrightarrow> ig_kind r = IK_TELEGRAM \<and> ig_enabled r \<and>
     (\<exists>sealed. io_secret (ig_options r) = Some sealed \<and> unseal V sealed = Inr wsecret)"

definition vouched :: "(integration, 'd) table \<Rightarrow> ('d, 'w) service_op set \<Rightarrow> string \<Rightarrow> bool" where
  "vouched T ops wsecret \<longleftrightarrow>
     (\<exists>E d r. SvRefresh E d \<in> ops \<and> r \<in> set (integration_list T d) \<and> row_secret (be_vault E) r wsecret)"

definition secret_ok :: "(string \<Rightarrow> bool) \<Rightarrow> bot_service \<Rightarrow> bool" where
  "secret_ok P sv \<longleftrightarrow> (st_secret (bs_settings sv) \<noteq> [] \<longrightarrow> P (st_secret (bs_settings sv)))"

lemma apply_row_keeps:
  assumes "stopped (bw_service W)" "bs_settings (bw_service W) = no_settings"
    and "\<And>x. row_secret (be_vault E) r x \<Longrightarrow> P x" "ig_kind r = IK_TELEGRAM" "ig_enabled r"
    and "apply_row R U E r W = (out, W')"
  shows "conn_ok (bw_service W') \<and> secret_ok P (bw_service W')"
proof (cases "unseal (be_vault E) (ig_secret r)")
  case (Inl e)
  with assms stopped_ok [OF assms(1)] show ?thesis by (auto simp: apply_row_def secret_ok_def no_settings_def)
next
  case (Inr token)
  define W1 where "W1 = on_settings (\<lambda>s. s\<lparr>st_token := token\<rparr>) W"
  have W1: "stopped (bw_service W1)" "st_secret (bs_settings (bw_service W1)) = []"
    using assms(1,2) by (simp_all add: W1_def on_settings_def stopped_def no_settings_def)
  show ?thesis
  proof (cases "\<exists>sealed wsecret. io_secret (ig_options r) = Some sealed \<and> unseal (be_vault E) sealed = Inr wsecret")
    case False
    then have "bw_service W' = bw_service W1"
      using assms(6) Inr by (auto simp: apply_row_def W1_def Let_def split: option.splits sum.splits)
    with W1 stopped_ok [OF W1(1)] show ?thesis by (simp add: secret_ok_def)
  next
    case True
    then obtain sealed wsecret where s: "io_secret (ig_options r) = Some sealed" "unseal (be_vault E) sealed = Inr wsecret"
      by blast
    define W3 where "W3 = (on_settings (\<lambda>s. s\<lparr>st_secret := wsecret, st_url := to_url (row_options r), st_admins := to_admins (row_options r)\<rparr>) W1)
      \<lparr>bw_users := snd (sync_admin_roles U (to_admins (row_options r)) (bw_users W1))\<rparr>"
    have W': "W' = start_configured R E W3"
      using assms(6) Inr s by (simp add: apply_row_def W1_def W3_def on_settings_def Let_def)
    have "stopped (bw_service W3)" "st_secret (bs_settings (bw_service W3)) = wsecret"
      using W1(1) by (simp_all add: W3_def on_settings_def stopped_def)
    moreover have "P wsecret" using s assms(3-5) by (auto simp: row_secret_def)
    ultimately show ?thesis using start_configured_service [of W3 R E] W' by (simp add: secret_ok_def)
  qed
qed

lemma find_kind: "telegram_row rows = Some r \<Longrightarrow> r \<in> set rows \<and> ig_kind r = IK_TELEGRAM"
  by (auto simp: telegram_row_def find_Some_iff)

lemma apply_revision_keeps:
  assumes "conn_ok (bw_service W)" "secret_ok P (bw_service W)" "apply_revision R U E row W = (out, W')"
    and "\<And>r x. row = Some r \<Longrightarrow> row_secret (be_vault E) r x \<Longrightarrow> P x" "\<And>r. row = Some r \<Longrightarrow> ig_kind r = IK_TELEGRAM"
  shows "conn_ok (bw_service W') \<and> secret_ok P (bw_service W')"
proof -
  obtain n S w where int: "interrupt_all_turns (be_finish E) (be_journal E) (bs_sessions (bw_service W), bw_rest W) = (n, S, w)"
    by (metis surj_pair)
  show ?thesis
  proof (cases n)
    case None
    with int assms(1-3) show ?thesis by (auto simp: apply_revision_def conn_ok_def secret_ok_def)
  next
    case (Some k)
    define W1 where "W1 = stop_connection R E (W\<lparr>bw_rest := w\<rparr>)"
    define W2 where "W2 = W1\<lparr>bw_service := (bw_service W1)\<lparr>bs_sessions := empty_store, bs_settings := no_settings\<rparr>\<rparr>"
    have W2: "stopped (bw_service W2)" "bs_settings (bw_service W2) = no_settings"
      by (simp_all add: W2_def W1_def stop_connection_service stopped_def)
    have res: "apply_revision R U E row W = (case row of None \<Rightarrow> (RfApplied, W2)
        | Some r \<Rightarrow> if ig_enabled r then apply_row R U E r W2 else (RfApplied, W2))"
      using int Some unfolding W2_def W1_def apply_revision_def Let_def by simp
    have off: "conn_ok (bw_service W2) \<and> secret_ok P (bw_service W2)"
      using W2 stopped_ok by (simp add: secret_ok_def no_settings_def)
    show ?thesis
    proof (cases "\<exists>r. row = Some r \<and> ig_enabled r")
      case True
      then obtain r where r: "row = Some r" "ig_enabled r" by blast
      with res assms(3) have "apply_row R U E r W2 = (out, W')" by simp
      from apply_row_keeps [OF W2 _ assms(5) [OF r(1)] r(2) this] assms(4) [OF r(1)] show ?thesis by blast
    next
      case False
      with res assms(3) have "W' = W2" by (auto split: option.splits if_splits)
      with off show ?thesis by simp
    qed
  qed
qed

lemma refresh_keeps:
  assumes "conn_ok (bw_service W)" "secret_ok P (bw_service W)"
    and "\<And>r x. r \<in> set (integration_list T d) \<Longrightarrow> row_secret (be_vault E) r x \<Longrightarrow> P x"
  shows "conn_ok (bw_service (snd (refresh_settings R U T E d W))) \<and> secret_ok P (bw_service (snd (refresh_settings R U T E d W)))"
proof -
  let ?rows = "integration_list T d"
  obtain b W1 where f: "refresh_files E ?rows W = (b, W1)" by (metis surj_pair)
  from refresh_files_service [OF f] obtain rt where "bw_service W1 = (bw_service W)\<lparr>bs_runtime := rt\<rparr>" by metis
  with assms(1,2) have W1: "conn_ok (bw_service W1)" "secret_ok P (bw_service W1)"
    by (simp_all add: conn_ok_def secret_ok_def)
  show ?thesis
  proof (cases "b \<and> Some (row_revision (telegram_row ?rows)) \<noteq> bs_revision (bw_service W1)")
    case False
    with f W1 show ?thesis by (cases b) (auto simp: refresh_settings_def Let_def)
  next
    case True
    obtain out W2 where a: "apply_revision R U E (telegram_row ?rows) W1 = (out, W2)" by (metis surj_pair)
    have "bw_service (snd (refresh_settings R U T E d W)) =
        (if out = RfApplied then (bw_service W2)\<lparr>bs_revision := Some (row_revision (telegram_row ?rows))\<rparr> else bw_service W2)"
      using True f a by (cases out) (simp_all add: refresh_settings_def Let_def)
    moreover have "conn_ok (bw_service W2) \<and> secret_ok P (bw_service W2)"
      by (rule apply_revision_keeps [OF W1 a]) (use assms(3) find_kind in blast)+
    ultimately show ?thesis by (simp add: conn_ok_def secret_ok_def)
  qed
qed

lemma step_keeps:
  assumes "conn_ok (bw_service W)" "secret_ok P (bw_service W)"
    and "\<And>E d r x. op = SvRefresh E d \<Longrightarrow> r \<in> set (integration_list T d) \<Longrightarrow> row_secret (be_vault E) r x \<Longrightarrow> P x"
  shows "conn_ok (bw_service (service_step R U T op W)) \<and> secret_ok P (bw_service (service_step R U T op W))"
proof (cases op)
  case (SvRefresh E d)
  with refresh_keeps [OF assms(1,2), of T d E R U] assms(3) show ?thesis by simp
next
  case (SvStop E)
  with assms(1,2) show ?thesis by (simp add: stop_connection_service conn_ok_def secret_ok_def)
next
  case (SvPoll x)
  with assms(1,2) show ?thesis by (auto simp: poll_event_def conn_ok_def secret_ok_def split: option.splits prod.splits)
qed

lemma run_keeps:
  assumes "conn_ok (bw_service W)" "secret_ok P (bw_service W)" "\<And>x. vouched T (set ops) x \<Longrightarrow> P x"
  shows "conn_ok (bw_service (service_run R U T ops W)) \<and> secret_ok P (bw_service (service_run R U T ops W))"
  using assms
proof (induction ops arbitrary: W)
  case (Cons op ops)
  have "\<And>x. vouched T (set ops) x \<Longrightarrow> P x" using Cons.prems(3) by (force simp: vouched_def)
  moreover have "conn_ok (bw_service (service_step R U T op W)) \<and> secret_ok P (bw_service (service_step R U T op W))"
    by (rule step_keeps [OF Cons.prems(1,2)]) (use Cons.prems(3) in \<open>force simp: vouched_def\<close>)
  ultimately show ?case using Cons.IH by (simp add: service_run_def)
qed (simp add: service_run_def)

section \<open>A refresh in which everything works\<close>

lemma files_written:
  assumes "decode_all (be_vault E) (filter (\<lambda>r. ig_enabled r \<and> ig_kind r \<noteq> IK_TELEGRAM) rows) \<noteq> None"
  obtains W1 where "refresh_files E rows W = (True, W1)"
proof -
  from assms have "fst (materialize (be_vault E) (be_dumps E) rows (bw_folder W))"
    by (auto simp: materialize_def Let_def)
  then have "fst (refresh_files E rows W)"
    by (cases "materialize (be_vault E) (be_dumps E) rows (bw_folder W)") (auto simp: refresh_files_def)
  with that show ?thesis by (cases "refresh_files E rows W") auto
qed

text \<open>Once a revision is applied, a refresh with the same table does nothing.\<close>

lemma refresh_again:
  assumes "bs_runtime (bw_service W) = Some (runtime_revision (integration_list T d))"
    and "bs_revision (bw_service W) = Some (row_revision (telegram_row (integration_list T d)))"
  shows "refresh_settings R U T E d W = (RfUnchanged, W)"
  using assms by (simp add: refresh_settings_def refresh_files_def Let_def)

lemma apply_row_works:
  fixes R :: "('s, 'x) redis_scheme" and U :: "(user_row, 'u) table"
  assumes "stopped (bw_service W)" "bs_settings (bw_service W) = no_settings"
    and "unseal (be_vault E) (ig_secret r) = Inr token" "token \<noteq> []" "\<not> prefix ''123456:'' token" "be_get_me E token"
    and "io_secret (ig_options r) = Some sealed" "unseal (be_vault E) sealed = Inr wsecret" "be_set_hook E = Fine"
  defines "res \<equiv> apply_row R U E r W"
  shows "fst res = RfApplied" "bs_runtime (bw_service (snd res)) = bs_runtime (bw_service W)"
    and "bs_settings (bw_service (snd res)) =
      \<lparr>st_token = token, st_secret = wsecret, st_url = to_url (row_options r), st_admins = to_admins (row_options r)\<rparr>"
    and "bs_mode (bw_service (snd res)) = (if to_url (row_options r) \<noteq> [] \<and> wsecret \<noteq> [] then BotWebhook else BotPolling)"
    and "bs_mode (bw_service (snd res)) = BotWebhook \<longrightarrow> bw_hook (snd res) = Some (to_url (row_options r), wsecret)"
proof -
  define W3 where "W3 = (on_settings (\<lambda>s. s\<lparr>st_secret := wsecret, st_url := to_url (row_options r), st_admins := to_admins (row_options r)\<rparr>)
      (on_settings (\<lambda>s. s\<lparr>st_token := token\<rparr>) W))
      \<lparr>bw_users := snd (sync_admin_roles U (to_admins (row_options r)) (bw_users W))\<rparr>"
  define W4 where "W4 = W3\<lparr>bw_service := (bw_service W3)\<lparr>bs_bot := True, bs_dispatcher := True\<rparr>\<rparr>"
  have st: "bs_settings (bw_service W3) =
      \<lparr>st_token = token, st_secret = wsecret, st_url = to_url (row_options r), st_admins = to_admins (row_options r)\<rparr>"
    using assms(2) by (simp add: W3_def on_settings_def no_settings_def)
  have W5: "start_configured R E W3 = (if to_url (row_options r) \<noteq> [] \<and> wsecret \<noteq> [] then start_webhook E W4 else start_polling R E W4)"
    using assms(4-6) unfolding start_configured_def Let_def st W4_def by simp
  have res: "res = (if bs_bot (bw_service (start_configured R E W3)) then RfApplied else RfRetry, start_configured R E W3)"
    unfolding res_def apply_row_def W3_def using assms(3,7,8) by (simp add: Let_def on_settings_def)
  have hook: "start_webhook E W4 = W4\<lparr>bw_hook := Some (to_url (row_options r), wsecret), bw_service := (bw_service W4)\<lparr>bs_mode := BotWebhook\<rparr>\<rparr>"
    using assms(9) st by (simp add: start_webhook_def W4_def)
  obtain p where poll: "bw_service (start_polling R E W4) = (bw_service W4)\<lparr>bs_polling := Some p, bs_mode := BotPolling\<rparr>"
    using start_polling_service [of R E W4] by blast
  have rt: "bs_runtime (bw_service W4) = bs_runtime (bw_service W)" "bs_bot (bw_service W4)"
    by (simp_all add: W4_def W3_def on_settings_def)
  have st4: "bs_settings (bw_service W4) = bs_settings (bw_service W3)" by (simp add: W4_def)
  show "fst res = RfApplied" "bs_runtime (bw_service (snd res)) = bs_runtime (bw_service W)"
    "bs_settings (bw_service (snd res)) =
      \<lparr>st_token = token, st_secret = wsecret, st_url = to_url (row_options r), st_admins = to_admins (row_options r)\<rparr>"
    "bs_mode (bw_service (snd res)) = (if to_url (row_options r) \<noteq> [] \<and> wsecret \<noteq> [] then BotWebhook else BotPolling)"
    "bs_mode (bw_service (snd res)) = BotWebhook \<longrightarrow> bw_hook (snd res) = Some (to_url (row_options r), wsecret)"
    using st st4 rt by (simp_all add: res W5 hook poll)
qed

text \<open>The connection that a table asks for: of its Telegram row, when that is enabled.\<close>

definition wanted :: "vault_env \<Rightarrow> integration option \<Rightarrow> (tg_settings \<times> bot_mode) option" where
  "wanted V row =
     (case row of
        None \<Rightarrow> Some (no_settings, BotOff)
      | Some r \<Rightarrow>
          if \<not> ig_enabled r then Some (no_settings, BotOff)
          else (case (unseal V (ig_secret r), map_option (unseal V) (io_secret (ig_options r))) of
                  (Inr token, Some (Inr wsecret)) \<Rightarrow>
                    if token = [] \<or> prefix ''123456:'' token then None
                    else Some (\<lparr>st_token = token, st_secret = wsecret, st_url = to_url (row_options r), st_admins = to_admins (row_options r)\<rparr>,
                               if to_url (row_options r) \<noteq> [] \<and> wsecret \<noteq> [] then BotWebhook else BotPolling)
                | _ \<Rightarrow> None))"

lemma apply_revision_works:
  assumes "fst (interrupt_all_turns (be_finish E) (be_journal E) (bs_sessions (bw_service W), bw_rest W)) \<noteq> None"
    and "wanted (be_vault E) row = Some (st, m)" "m = BotOff \<or> be_get_me E (st_token st)" "be_set_hook E = Fine"
  shows "\<exists>W'. apply_revision R U E row W = (RfApplied, W') \<and> bs_runtime (bw_service W') = bs_runtime (bw_service W) \<and>
    bs_settings (bw_service W') = st \<and> bs_mode (bw_service W') = m \<and>
    (m = BotWebhook \<longrightarrow> bw_hook W' = Some (st_url st, st_secret st))"
proof -
  obtain n S w where int: "interrupt_all_turns (be_finish E) (be_journal E) (bs_sessions (bw_service W), bw_rest W) = (Some n, S, w)"
    using assms(1) by (metis fst_conv not_None_eq surj_pair)
  define W1 where "W1 = stop_connection R E (W\<lparr>bw_rest := w\<rparr>)"
  define W2 where "W2 = W1\<lparr>bw_service := (bw_service W1)\<lparr>bs_sessions := empty_store, bs_settings := no_settings\<rparr>\<rparr>"
  have W2: "stopped (bw_service W2)" "bs_settings (bw_service W2) = no_settings" "bs_runtime (bw_service W2) = bs_runtime (bw_service W)"
    by (simp_all add: W2_def W1_def stop_connection_service stopped_def)
  have res: "apply_revision R U E row W = (case row of None \<Rightarrow> (RfApplied, W2)
      | Some r \<Rightarrow> if ig_enabled r then apply_row R U E r W2 else (RfApplied, W2))"
    using int unfolding W2_def W1_def apply_revision_def Let_def by simp
  show ?thesis
  proof (cases "\<exists>r. row = Some r \<and> ig_enabled r")
    case False
    with assms(2) have "m = BotOff" "st = no_settings" by (auto simp: wanted_def split: option.splits)
    with False W2 res show ?thesis by (auto simp: stopped_def split: option.splits)
  next
    case True
    then obtain r where r: "row = Some r" "ig_enabled r" by blast
    from assms(2) r obtain token sealed wsecret where s: "unseal (be_vault E) (ig_secret r) = Inr token" "token \<noteq> []"
      "\<not> prefix ''123456:'' token" "io_secret (ig_options r) = Some sealed" "unseal (be_vault E) sealed = Inr wsecret"
      and st: "st = \<lparr>st_token = token, st_secret = wsecret, st_url = to_url (row_options r), st_admins = to_admins (row_options r)\<rparr>"
      and m: "m = (if to_url (row_options r) \<noteq> [] \<and> wsecret \<noteq> [] then BotWebhook else BotPolling)"
      by (auto simp: wanted_def split: sum.splits option.splits if_splits)
    have "be_get_me E token" using assms(3) st m by (auto split: if_splits)
    from apply_row_works [OF W2(1,2) s(1-3) this s(4,5) assms(4), of R U] W2(3) res r st m show ?thesis
      by (cases "apply_row R U E r W2") auto
  qed
qed

section \<open>Properties\<close>

text \<open>
  C33: an update is dispatched only to a caller who knows the secret. Whatever tables a worker
  has read, whatever has failed on the way, when it hands a request of the webhook endpoint to
  the dispatcher then the request carries, in its header, a secret that is not empty and that
  was decrypted from an enabled Telegram row of a table the worker has read.
\<close>

theorem webhook_needs_secret:
  assumes "bw_service W = fresh_service"
    and "telegram_webhook parse header body (bw_service (service_run R U T ops W)) = Inr (Some x)"
  shows "\<exists>s. header = Some s \<and> s \<noteq> [] \<and> vouched T (set ops) s \<and> parse body = Some x"
proof -
  have "conn_ok (bw_service W)" "secret_ok (vouched T (set ops)) (bw_service W)"
    using assms(1) by (simp_all add: fresh_service_def no_settings_def conn_ok_def secret_ok_def)
  from run_keeps [OF this, where R = R and U = U] have k: "secret_ok (vouched T (set ops)) (bw_service (service_run R U T ops W))" by blast
  from assms(2) show ?thesis
    using k by (cases header) (auto simp: telegram_webhook_def secret_ok_def feed_update_def Let_def split: if_splits option.splits)
qed


definition demo_tg_row :: "string \<Rightarrow> integration" where
  "demo_tg_row url = \<lparr>ig_id = 3, ig_name = ''tg'', ig_kind = IK_TELEGRAM, ig_host = [], ig_user = [], ig_enabled = True, ig_secret = ''#77:t'',
     ig_options = no_options\<lparr>io_telegram := Some \<lparr>to_admins = [9], to_url = url\<rparr>, io_secret := Some ''#s3''\<rparr>, ig_created = 5, ig_updated = 6\<rparr>"

definition demo_table_of :: "string \<Rightarrow> integration rows" where
  "demo_table_of url = (4, (3, demo_tg_row url) # map (\<lambda>r. (ig_id r, r)) demo_rows)"

definition demo_bot_env :: "unit bot_env" where
  "demo_bot_env = \<lparr>be_vault = demo_vault_env, be_dumps = (\<lambda>_. ''[]''), be_get_me = (\<lambda>_. True), be_set_hook = Fine, be_delete_hook = Fine,
     be_lock = Fine, be_release = Fine, be_token = ''w1'', be_finish = (\<lambda>_ W. W), be_journal = (\<lambda>_ w. w)\<rparr>"

definition demo_bot_world :: "(user_row rows, mem, unit) bot_world" where
  "demo_bot_world = \<lparr>bw_service = fresh_service, bw_users = (1, []), bw_folder = (\<lambda>_. None), bw_hook = None, bw_redis = Map.empty, bw_rest = ()\<rparr>"

theorem webhook_needs_secret_witness:
  "vouched integration_mem {SvRefresh demo_bot_env (demo_table_of ''https://b'')} ''s3'' \<and>
   telegram_webhook Some (Some ''s2'') ''x'' (bw_service (service_run mem_redis user_mem integration_mem
     [SvRefresh demo_bot_env (demo_table_of ''https://b'')] demo_bot_world)) = Inl 403"
proof -
  let ?sv = "bw_service (service_run mem_redis user_mem integration_mem [SvRefresh demo_bot_env (demo_table_of ''https://b'')] demo_bot_world)"
  have "telegram_webhook Some (Some ''s3'') ''x'' ?sv = Inr (Some ''x'')" "telegram_webhook Some (Some ''s2'') ''x'' ?sv = Inl 403"
    "bw_service demo_bot_world = fresh_service"
    by code_simp+
  with webhook_needs_secret [of demo_bot_world Some "Some ''s3''" "''x''" mem_redis user_mem integration_mem
      "[SvRefresh demo_bot_env (demo_table_of ''https://b'')]" "''x''"]
  show ?thesis by simp
qed


section \<open>Where the service falls short\<close>

text \<open>
  One integration that does not decrypt, of whatever kind, stops every refresh before it looks
  at the Telegram row: the bot can be neither changed nor switched off.
\<close>

lemma undecryptable_blocks:
  assumes "\<forall>E \<in> set Es. decode_all (be_vault E) (filter (\<lambda>r. ig_enabled r \<and> ig_kind r \<noteq> IK_TELEGRAM) (integration_list T d)) = None"
    and "Some (runtime_revision (integration_list T d)) \<noteq> bs_runtime (bw_service W)"
  shows "bw_service (service_run R U T (map (\<lambda>E. SvRefresh E d) Es) W) = bw_service W"
  using assms
proof (induction Es arbitrary: W)
  case (Cons E Es)
  have "bw_service (snd (refresh_settings R U T E d W)) = bw_service W"
    using Cons.prems by (simp add: refresh_settings_def refresh_files_def materialize_def Let_def)
  with Cons.IH [of "snd (refresh_settings R U T E d W)"] Cons.prems show ?case by (simp add: service_run_def)
qed (simp add: service_run_def)

text \<open>
  A worker that stops after its successor has started deletes the successor's webhook, and
  the refreshes of the successor do not set it again.
\<close>

lemma rolling_restart_loses_webhook:
  fixes W :: "('u, 's, 'w) bot_world" and R :: "('s, 'x) redis_scheme"
  assumes "bs_mode old = BotWebhook" "bs_bot old" "be_delete_hook E = Fine"
    and "bs_runtime new = Some (runtime_revision (integration_list T d))"
    and "bs_revision new = Some (row_revision (telegram_row (integration_list T d)))"
  defines "after \<equiv> (stop_connection R E (W\<lparr>bw_service := old\<rparr>))\<lparr>bw_service := new\<rparr>"
  shows "bw_hook after = None \<and> bw_hook (service_run R U T (map (\<lambda>E'. SvRefresh E' d) Es) after) = None"
proof -
  have "bw_hook after = None" using assms(1-3) by (simp add: after_def stop_connection_def delete_hook_def Let_def)
  moreover have "bw_service after = new" by (simp add: after_def)
  then have "refresh_settings R U T E' d after = (RfUnchanged, after)" for E'
    using assms(4,5) by (intro refresh_again) simp_all
  then have "service_run R U T (map (\<lambda>E'. SvRefresh E' d) Es) after = after"
    by (induction Es) (simp_all add: service_run_def)
  ultimately show ?thesis by simp
qed

text \<open>
  When the row is removed after a start of it that failed, the settings of that start stay.
\<close>

lemma failed_start_leaves_settings:
  assumes "bs_revision (bw_service W) = Some RevOff" "telegram_row (integration_list T d) = None"
  shows "bs_settings (bw_service (snd (refresh_settings R U T E d W))) = bs_settings (bw_service W)"
proof -
  obtain b W1 where f: "refresh_files E (integration_list T d) W = (b, W1)" by (metis surj_pair)
  from refresh_files_service [OF f] obtain rt where "bw_service W1 = (bw_service W)\<lparr>bs_runtime := rt\<rparr>" by metis
  with f assms show ?thesis by (cases b) (simp_all add: refresh_settings_def row_revision_def Let_def)
qed

text \<open>A header that is not ASCII is answered with 500 instead of 403.\<close>

lemma webhook_non_ascii:
  "st_secret (bs_settings sv) \<noteq> [] \<Longrightarrow> \<not> is_ascii h \<Longrightarrow> telegram_webhook parse (Some h) body sv = Inl 500"
  by (simp add: telegram_webhook_def Let_def)

end
