(* ===== verification/Codex_Prefs.thy ===== *)
theory Codex_Prefs
  imports Keyed_Rows Rate_Limit
begin

text \<open>
  Which model and which reasoning effort a user's turns run with: the sidecar's catalog behind
  its cache in Redis (\<open>services/codex_prefs/catalog.py\<close>, \<open>schemas.py\<close>), the stored preferences
  (\<open>services/codex_prefs/service.py\<close>, \<open>models/codex_preference.py\<close>) and the handlers of
  \<open>rpc/codex.py\<close>. The sidecar, the JSON encoder and the coercion that the validation library
  applies to a Boolean field are parameters.
\<close>

section \<open>The catalog\<close>

record effort_option =
  eo_value :: string
  eo_description :: string

record codex_model =
  md_id :: string
  md_name :: string
  md_description :: string
  md_default :: bool
  md_default_effort :: string
  md_efforts :: "effort_option list"

record prefs_codec =
  pc_dumps :: "json \<Rightarrow> string"
  pc_loads :: "string \<Rightarrow> json option"
  pc_bool :: "json \<Rightarrow> bool option"

definition bool_field :: "prefs_codec \<Rightarrow> json \<Rightarrow> bool py" where
  "bool_field C j = (case pc_bool C j of None \<Rightarrow> Inl (ValidationError ''bool_parsing'') | Some b \<Rightarrow> Inr b)"

definition with_default :: "(json \<Rightarrow> 'a py) \<Rightarrow> 'a \<Rightarrow> (string \<times> json) list \<Rightarrow> string \<Rightarrow> 'a py" where
  "with_default field dflt kv k = (case jget kv k of None \<Rightarrow> Inr dflt | Some j \<Rightarrow> field j)"

definition list_field :: "(json \<Rightarrow> 'a py) \<Rightarrow> json \<Rightarrow> 'a list py" where
  "list_field item j = (case j of JList xs \<Rightarrow> map_py item xs | _ \<Rightarrow> Inl (ValidationError ''list_type''))"

definition obj_field :: "json \<Rightarrow> (string \<times> json) list py" where
  "obj_field j = (case as_obj j of None \<Rightarrow> Inl (ValidationError ''model_type'') | Some kv \<Rightarrow> Inr kv)"

text \<open>\<open>ReasoningEffortOptionIn\<close> and \<open>CodexModelIn.to_domain\<close>, the flag being \<open>hidden\<close>.\<close>

definition effort_in :: "json \<Rightarrow> effort_option py" where
  "effort_in j =
     bind_py (obj_field j) (\<lambda>kv. bind_py (required kv ''reasoningEffort'') (\<lambda>v. bind_py (str_field v) (\<lambda>value.
     bind_py (with_default str_field [] kv ''description'') (\<lambda>d. Inr \<lparr>eo_value = value, eo_description = d\<rparr>))))"

definition model_in :: "prefs_codec \<Rightarrow> json \<Rightarrow> (bool \<times> codex_model) py" where
  "model_in C j =
     bind_py (obj_field j) (\<lambda>kv. bind_py (required kv ''id'') (\<lambda>i. bind_py (str_field i) (\<lambda>ident.
     bind_py (required kv ''displayName'') (\<lambda>n. bind_py (str_field n) (\<lambda>name.
     bind_py (with_default str_field [] kv ''description'') (\<lambda>descr.
     bind_py (with_default (bool_field C) False kv ''hidden'') (\<lambda>hidden.
     bind_py (with_default (bool_field C) False kv ''isDefault'') (\<lambda>dflt.
     bind_py (with_default str_field [] kv ''defaultReasoningEffort'') (\<lambda>effort.
     bind_py (with_default (list_field effort_in) [] kv ''supportedReasoningEfforts'') (\<lambda>efforts.
     Inr (hidden, \<lparr>md_id = ident, md_name = name, md_description = descr, md_default = dflt, md_default_effort = effort,
                   md_efforts = efforts\<rparr>)))))))))))"

text \<open>\<open>_parse\<close>: an item that does not validate is logged and left out, a hidden one left out.\<close>

fun parse_models :: "prefs_codec \<Rightarrow> json list \<Rightarrow> codex_model list" where
  "parse_models C [] = []"
| "parse_models C (j # js) =
     (case model_in C j of
        Inr (False, m) \<Rightarrow> m # parse_models C js
      | _ \<Rightarrow> parse_models C js)"

text \<open>What is cached: \<open>model_dump\<close>, and \<open>CodexModel.model_validate\<close> on the way back.\<close>

definition effort_dump :: "effort_option \<Rightarrow> json" where
  "effort_dump o' = JObj [(''value'', JStr (eo_value o')), (''description'', JStr (eo_description o'))]"

definition prefs_model_dump :: "codex_model \<Rightarrow> json" where
  "prefs_model_dump m = JObj [(''id'', JStr (md_id m)), (''display_name'', JStr (md_name m)), (''description'', JStr (md_description m)),
     (''is_default'', JBool (md_default m)), (''default_reasoning_effort'', JStr (md_default_effort m)),
     (''supported_reasoning_efforts'', JList (map effort_dump (md_efforts m)))]"

definition effort_load :: "json \<Rightarrow> effort_option py" where
  "effort_load j =
     bind_py (obj_field j) (\<lambda>kv. bind_py (required kv ''value'') (\<lambda>v. bind_py (str_field v) (\<lambda>value.
     bind_py (required kv ''description'') (\<lambda>d. bind_py (str_field d) (\<lambda>descr. Inr \<lparr>eo_value = value, eo_description = descr\<rparr>)))))"

definition model_load :: "prefs_codec \<Rightarrow> json \<Rightarrow> codex_model py" where
  "model_load C j =
     bind_py (obj_field j) (\<lambda>kv. bind_py (required kv ''id'') (\<lambda>i. bind_py (str_field i) (\<lambda>ident.
     bind_py (required kv ''display_name'') (\<lambda>n. bind_py (str_field n) (\<lambda>name.
     bind_py (required kv ''description'') (\<lambda>d. bind_py (str_field d) (\<lambda>descr.
     bind_py (required kv ''is_default'') (\<lambda>b. bind_py (bool_field C b) (\<lambda>dflt.
     bind_py (required kv ''default_reasoning_effort'') (\<lambda>e. bind_py (str_field e) (\<lambda>effort.
     bind_py (required kv ''supported_reasoning_efforts'') (\<lambda>l. bind_py (list_field effort_load l) (\<lambda>efforts.
     Inr \<lparr>md_id = ident, md_name = name, md_description = descr, md_default = dflt, md_default_effort = effort,
          md_efforts = efforts\<rparr>)))))))))))))"

lemma effort_round_trip: "effort_load (effort_dump x) = Inr x"
  by (simp add: effort_load_def effort_dump_def obj_field_def required_def)

lemma model_round_trip:
  assumes "\<And>b. pc_bool C (JBool b) = Some b"
  shows "model_load C (prefs_model_dump m) = Inr m"
proof -
  have "map_py effort_load (map effort_dump (md_efforts m)) = Inr (md_efforts m)"
    by (rule map_py_Inr) (rule effort_round_trip)
  then show ?thesis
    by (simp add: model_load_def prefs_model_dump_def obj_field_def required_def bool_field_def list_field_def assms)
qed

text \<open>
  What a call of the sidecar may raise: an error the handlers expect, or any other. The
  sidecar's answer may depend on, and change, the world \<open>'w\<close>.
\<close>

datatype fetch_error = SidecarDown string | OtherError string

type_synonym 'w fetcher = "sidecar_name \<Rightarrow> 'w \<Rightarrow> (fetch_error + json list) \<times> 'w"

definition CATALOG_TTL_S :: nat where
  "CATALOG_TTL_S = 600"

definition catalog_key :: "sidecar_name \<Rightarrow> string" where
  "catalog_key sc = ''codex:models:'' @ sidecar_value sc"

text \<open>\<open>None\<close> is a miss; iterating a value that is no collection raises a TypeError.\<close>

definition read_catalog :: "('s, 'x) redisz_scheme \<Rightarrow> prefs_codec \<Rightarrow> fault \<Rightarrow> sidecar_name \<Rightarrow> 's \<Rightarrow> (fetch_error + codex_model list option) \<times> 's" where
  "read_catalog R C f sc s =
     (case call f (rd_get R (catalog_key sc)) s of
        (Some (Some raw), s1) \<Rightarrow>
          (case pc_loads C raw of
             None \<Rightarrow> (Inr None, s1)
           | Some j \<Rightarrow>
               (case iter_json j of
                  Inl _ \<Rightarrow> (Inl (OtherError ''TypeError''), s1)
                | Inr xs \<Rightarrow> (Inr (case map_py (model_load C) xs of Inl _ \<Rightarrow> None | Inr ms \<Rightarrow> Some ms), s1)))
      | (_, s1) \<Rightarrow> (Inr None, s1))"

definition write_catalog :: "('s, 'x) redisz_scheme \<Rightarrow> prefs_codec \<Rightarrow> fault \<Rightarrow> sidecar_name \<Rightarrow> codex_model list \<Rightarrow> 's \<Rightarrow> 's" where
  "write_catalog R C f sc ms s = snd (call f (rx_set R (catalog_key sc) (pc_dumps C (JList (map prefs_model_dump ms))) CATALOG_TTL_S) s)"

text \<open>What the calls of one operation meet.\<close>

record 'w prefs_env =
  pe_codec :: prefs_codec
  pe_fetch :: "'w fetcher"
  pe_get :: fault
  pe_set :: fault
  pe_fallback :: string

definition catalog_list ::
  "('s, 'x) redisz_scheme \<Rightarrow> 'w prefs_env \<Rightarrow> sidecar_name \<Rightarrow> 's \<times> 'w \<Rightarrow> (fetch_error + codex_model list) \<times> 's \<times> 'w" where
  "catalog_list R E sc W =
     (case read_catalog R (pe_codec E) (pe_get E) sc (fst W) of
        (Inl e, s) \<Rightarrow> (Inl e, s, snd W)
      | (Inr (Some ms), s) \<Rightarrow> (Inr ms, s, snd W)
      | (Inr None, s) \<Rightarrow>
          (case pe_fetch E sc (snd W) of
             (Inl e, w) \<Rightarrow> (Inl e, s, w)
           | (Inr raw, w) \<Rightarrow>
               let ms = parse_models (pe_codec E) raw in (Inr ms, write_catalog R (pe_codec E) (pe_set E) sc ms s, w)))"

section \<open>Preferences\<close>

record codex_prefs =
  pf_model :: "string option"
  pf_effort :: "string option"

record prefs_row = codex_prefs +
  pr_id :: int
  pr_user :: int

definition no_prefs :: codex_prefs where
  "no_prefs = \<lparr>pf_model = None, pf_effort = None\<rparr>"

datatype prefs_error = UnknownModel string | UnsupportedEffort string string | Fetch fetch_error

definition get_prefs :: "(prefs_row, 'd) table \<Rightarrow> int \<Rightarrow> 'd \<Rightarrow> codex_prefs" where
  "get_prefs T user d =
     (case tb_select T (\<lambda>r. pr_user r = user) d of
        [] \<Rightarrow> no_prefs
      | r # _ \<Rightarrow> \<lparr>pf_model = pf_model r, pf_effort = pf_effort r\<rparr>)"

definition supports :: "codex_model \<Rightarrow> string \<Rightarrow> bool" where
  "supports m effort \<longleftrightarrow> md_efforts m = [] \<or> effort \<in> set (map eo_value (md_efforts m))"

definition chosen_model :: "codex_model list \<Rightarrow> string option \<Rightarrow> codex_model option" where
  "chosen_model ms ident =
     (case ident of Some i \<Rightarrow> find (\<lambda>m. md_id m = i) ms | None \<Rightarrow> find md_default ms)"

definition effective_model ::
  "('s, 'x) redisz_scheme \<Rightarrow> 'w prefs_env \<Rightarrow> sidecar_name \<Rightarrow> string option \<Rightarrow> 's \<times> 'w \<Rightarrow> (fetch_error + codex_model option) \<times> 's \<times> 'w" where
  "effective_model R E sc ident W =
     (case catalog_list R E sc W of
        (Inl e, W1) \<Rightarrow> (Inl e, W1)
      | (Inr ms, W1) \<Rightarrow> (Inr (chosen_model ms ident), W1))"

definition validate_prefs ::
  "('s, 'x) redisz_scheme \<Rightarrow> 'w prefs_env \<Rightarrow> sidecar_name \<Rightarrow> codex_prefs \<Rightarrow> 's \<times> 'w \<Rightarrow> (prefs_error + unit) \<times> 's \<times> 'w" where
  "validate_prefs R E sc p W =
     (case effective_model R E sc (pf_model p) W of
        (Inl e, W1) \<Rightarrow> (Inl (Fetch e), W1)
      | (Inr model, W1) \<Rightarrow>
          ((case (pf_model p, model, pf_effort p) of
              (Some i, None, _) \<Rightarrow> Inl (UnknownModel i)
            | (_, None, _) \<Rightarrow> Inr ()
            | (_, Some m, None) \<Rightarrow> Inr ()
            | (_, Some m, Some effort) \<Rightarrow> if supports m effort then Inr () else Inl (UnsupportedEffort (md_id m) effort)), W1))"

definition set_prefs :: "codex_prefs \<Rightarrow> prefs_row \<Rightarrow> prefs_row" where
  "set_prefs p r = r\<lparr>pf_model := pf_model p, pf_effort := pf_effort p\<rparr>"

definition new_prefs :: "int \<Rightarrow> codex_prefs \<Rightarrow> int \<Rightarrow> prefs_row" where
  "new_prefs user p k = \<lparr>pf_model = pf_model p, pf_effort = pf_effort p, pr_id = k, pr_user = user\<rparr>"

definition store_prefs :: "(prefs_row, 'd) table \<Rightarrow> int \<Rightarrow> codex_prefs \<Rightarrow> 'd \<Rightarrow> 'd" where
  "store_prefs T user p d = upsert_row T (new_prefs user p) (\<lambda>r. pr_user r = user) (set_prefs p) d"

definition update_prefs ::
  "('s, 'x) redisz_scheme \<Rightarrow> (prefs_row, 'd) table \<Rightarrow> 'w prefs_env \<Rightarrow> int \<Rightarrow> sidecar_name \<Rightarrow> codex_prefs \<Rightarrow> 'd \<times> 's \<times> 'w \<Rightarrow>
     (prefs_error + codex_prefs) \<times> 'd \<times> 's \<times> 'w" where
  "update_prefs R T E user sc p W =
     (case validate_prefs R E sc p (snd W) of
        (Inl e, W1) \<Rightarrow> (Inl e, fst W, W1)
      | (Inr _, W1) \<Rightarrow> (Inr p, store_prefs T user p (fst W), W1))"

definition fallback_effort :: "'w prefs_env \<Rightarrow> string option" where
  "fallback_effort E = (if pe_fallback E = [] then None else Some (pe_fallback E))"

text \<open>\<open>resolve_turn_options\<close>: the model and the effort that go into \<open>turn/start\<close>.\<close>

definition turn_options :: "codex_prefs \<Rightarrow> string option \<Rightarrow> codex_model \<Rightarrow> codex_prefs" where
  "turn_options p fallback m =
     \<lparr>pf_model = Some (md_id m),
      pf_effort = (case pf_effort p of
                     Some e \<Rightarrow> Some e
                   | None \<Rightarrow> (case fallback of None \<Rightarrow> None | Some e \<Rightarrow> if supports m e then Some e else None))\<rparr>"

definition resolve_turn_options ::
  "('s, 'x) redisz_scheme \<Rightarrow> (prefs_row, 'd) table \<Rightarrow> 'w prefs_env \<Rightarrow> int \<Rightarrow> sidecar_name \<Rightarrow> 'd \<times> 's \<times> 'w \<Rightarrow>
     (prefs_error + codex_prefs) \<times> 'd \<times> 's \<times> 'w" where
  "resolve_turn_options R T E user sc W =
     (let p = get_prefs T user (fst W) in
      case effective_model R E sc (pf_model p) (snd W) of
        (Inl e, W1) \<Rightarrow> (Inl (Fetch e), fst W, W1)
      | (Inr None, W1) \<Rightarrow> (Inl (UnknownModel (case pf_model p of Some (c # cs) \<Rightarrow> c # cs | _ \<Rightarrow> ''default'')), fst W, W1)
      | (Inr (Some m), W1) \<Rightarrow> (Inr (turn_options p (fallback_effort E) m), fst W, W1))"

section \<open>The handlers\<close>

definition sidecar_for :: "user_role \<Rightarrow> sidecar_name" where
  "sidecar_for r = (if r = ROLE_ADMIN then AdminSidecar else GuestSidecar)"

fun fetch_code :: "fetch_error \<Rightarrow> rpc_code" where
  "fetch_code (SidecarDown _) = RPC_UNAVAILABLE"
| "fetch_code (OtherError _) = RPC_INTERNAL"

fun prefs_code :: "prefs_error \<Rightarrow> rpc_code" where
  "prefs_code (UnknownModel _) = INVALID_ARGUMENT"
| "prefs_code (UnsupportedEffort _ _) = INVALID_ARGUMENT"
| "prefs_code (Fetch e) = fetch_code e"

definition list_models_rpc ::
  "('s, 'x) redisz_scheme \<Rightarrow> 'w prefs_env \<Rightarrow> user_row \<Rightarrow> 's \<times> 'w \<Rightarrow> (rpc_code + codex_model list \<times> string) \<times> 's \<times> 'w" where
  "list_models_rpc R E user W =
     (case catalog_list R E (sidecar_for (u_role user)) W of
        (Inl e, W1) \<Rightarrow> (Inl (fetch_code e), W1)
      | (Inr ms, W1) \<Rightarrow> (Inr (ms, case fallback_effort E of None \<Rightarrow> [] | Some e \<Rightarrow> e), W1))"

definition get_preferences_rpc :: "(prefs_row, 'd) table \<Rightarrow> user_row \<Rightarrow> 'd \<Rightarrow> codex_prefs" where
  "get_preferences_rpc T user d = get_prefs T (u_id user) d"

definition clean_field :: "string option \<Rightarrow> string option" where
  "clean_field v = (case v of None \<Rightarrow> None | Some s \<Rightarrow> if py_strip s = [] then None else Some (py_strip s))"

definition update_preferences_rpc ::
  "('s, 'x) redisz_scheme \<Rightarrow> (prefs_row, 'd) table \<Rightarrow> 'w prefs_env \<Rightarrow> user_row \<Rightarrow> string option \<Rightarrow> string option \<Rightarrow> 'd \<times> 's \<times> 'w \<Rightarrow>
     (rpc_code + codex_prefs) \<times> 'd \<times> 's \<times> 'w" where
  "update_preferences_rpc R T E user model effort W =
     (case update_prefs R T E (u_id user) (sidecar_for (u_role user)) \<lparr>pf_model = clean_field model, pf_effort = clean_field effort\<rparr> W of
        (Inl e, W1) \<Rightarrow> (Inl (prefs_code e), W1)
      | (Inr p, W1) \<Rightarrow> (Inr p, W1))"

section \<open>The tables\<close>

lemma prefs_fields [simp]:
  "pr_id (new_prefs user p k) = k" "pr_user (new_prefs user p k) = user" "pf_model (new_prefs user p k) = pf_model p"
  "pf_effort (new_prefs user p k) = pf_effort p" "pr_id (set_prefs p r) = pr_id r" "pr_user (set_prefs p r) = pr_user r"
  "pf_model (set_prefs p r) = pf_model p" "pf_effort (set_prefs p r) = pf_effort p"
  by (simp_all add: new_prefs_def set_prefs_def)

locale prefs_table = keyed_table T pr_id pr_user ok
  for T :: "(prefs_row, 'd) table" and ok :: "'d \<Rightarrow> bool"
begin

lemmas store_cases = upsert_cases [where mk = "new_prefs user p" and K = user and f = "set_prefs p" and p = "\<lambda>r. pr_user r = user"
  for user p, OF _ prefs_fields(1,2,5,6), folded store_prefs_def]

lemma get_prefs_row:
  assumes "ok d" "tb_view T d i = Some r" "pr_user r = user"
  shows "get_prefs T user d = \<lparr>pf_model = pf_model r, pf_effort = pf_effort r\<rparr>"
proof -
  have "r \<in> set (tb_select T (\<lambda>r. pr_user r = user) d)" using assms select_set [OF assms(1)] by auto
  then obtain y ys where ys: "tb_select T (\<lambda>r. pr_user r = user) d = y # ys" by (metis list.set_cases)
  then have "y \<in> set (tb_select T (\<lambda>r. pr_user r = user) d)" by simp
  then obtain k where "tb_view T d k = Some y" "pr_user y = user" using select_set [OF assms(1)] by auto
  with one_row [OF assms(1,2) this(1)] assms(3) have "y = r" by simp
  with ys show ?thesis by (simp add: get_prefs_def)
qed

lemma get_prefs_none:
  assumes "ok d" "\<And>i r. tb_view T d i = Some r \<Longrightarrow> pr_user r \<noteq> user"
  shows "get_prefs T user d = no_prefs"
proof -
  have "set (tb_select T (\<lambda>r. pr_user r = user) d) = {}" using select_set [OF assms(1)] assms(2) by auto
  then show ?thesis by (simp add: get_prefs_def)
qed

text \<open>What is stored is read back, and nobody else's preferences change.\<close>

lemma store_prefs_get:
  assumes "ok d"
  shows "ok (store_prefs T user p d) \<and>
    get_prefs T other (store_prefs T user p d) =
      (if other = user then \<lparr>pf_model = pf_model p, pf_effort = pf_effort p\<rparr> else get_prefs T other d)"
proof -
  have "\<exists>i r. ok (store_prefs T user p d) \<and> pr_user r = user \<and> pf_model r = pf_model p \<and> pf_effort r = pf_effort p \<and>
    (\<forall>s. tb_view T d i = Some s \<longrightarrow> pr_user s = user) \<and> tb_view T (store_prefs T user p d) = (tb_view T d)(i \<mapsto> r)"
    by (rule store_cases [OF assms refl, of user p]) (metis prefs_fields option.distinct(1) option.inject)+
  then obtain i r where ok': "ok (store_prefs T user p d)"
    and r: "pr_user r = user" "pf_model r = pf_model p" "pf_effort r = pf_effort p" "\<forall>s. tb_view T d i = Some s \<longrightarrow> pr_user s = user"
      "tb_view T (store_prefs T user p d) = (tb_view T d)(i \<mapsto> r)" by blast
  show ?thesis
  proof (cases "other = user")
    case True
    with get_prefs_row [OF ok', of i r] r ok' show ?thesis by simp
  next
    case False
    show ?thesis
    proof (cases "\<exists>j s. tb_view T d j = Some s \<and> pr_user s = other")
      case True
      then obtain j s where s: "tb_view T d j = Some s" "pr_user s = other" by blast
      with r False have "tb_view T (store_prefs T user p d) j = Some s" by (auto simp: fun_upd_def)
      with get_prefs_row [OF ok' this s(2)] get_prefs_row [OF assms s] False ok' show ?thesis by simp
    next
      case no: False
      then have "get_prefs T other d = no_prefs" by (intro get_prefs_none [OF assms]) blast
      moreover have "get_prefs T other (store_prefs T user p d) = no_prefs"
        by (rule get_prefs_none [OF ok']) (use no r False in \<open>auto split: if_splits\<close>)
      ultimately show ?thesis using False ok' by simp
    qed
  qed
qed

end

interpretation prefs_mem: prefs_table "keyed_mem pr_user" "rows_ok pr_id (sorted_wrt (\<lambda>r s. \<not> pr_user r = pr_user s))"
  by (simp add: prefs_table_def keyed_mem_laws)

lemma chosen_props:
  "chosen_model ms ident = Some m \<Longrightarrow> m \<in> set ms \<and> (\<forall>i. ident = Some i \<longrightarrow> md_id m = i)"
  "chosen_model ms None = None \<Longrightarrow> m \<in> set ms \<Longrightarrow> \<not> md_default m"
  by (auto simp: chosen_model_def find_Some_iff find_None_iff split: option.splits)

lemma validate_ok:
  assumes "validate_prefs R E sc p W = (Inr u, W1)" "catalog_list R E sc W = (Inr ms, W2)"
  shows "(\<forall>m e. chosen_model ms (pf_model p) = Some m \<longrightarrow> pf_effort p = Some e \<longrightarrow> supports m e) \<and>
    (chosen_model ms (pf_model p) = None \<longrightarrow> pf_model p = None)"
  using assms by (auto simp: validate_prefs_def effective_model_def split: option.splits if_splits)

section \<open>Properties\<close>

text \<open>
  C35: preferences that were accepted can be used. When an update is accepted and the user's
  next turn sees the same catalog, the turn starts with a model of the catalog, the one that
  was chosen if one was, and with the effort that was chosen or a fallback, in either case one
  that the model supports; the only other outcome is that no model was chosen and the catalog
  has no default.
\<close>

theorem saved_prefs_usable:
  assumes "prefs_table T ok" "ok d" "update_prefs R T E user sc p (d, s, w) = (Inr p', d', W')"
    and "catalog_list R E sc (s, w) = (Inr ms, W1)" "catalog_list R E2 sc (s2, w2) = (Inr ms, W2)"
  shows "(\<exists>m e. m \<in> set ms \<and> fst (resolve_turn_options R T E2 user sc (d', s2, w2)) = Inr \<lparr>pf_model = Some (md_id m), pf_effort = e\<rparr> \<and>
      (\<forall>i. pf_model p = Some i \<longrightarrow> md_id m = i) \<and> (\<forall>x. pf_effort p = Some x \<longrightarrow> e = Some x) \<and> (\<forall>x. e = Some x \<longrightarrow> supports m x))
    \<or> (pf_model p = None \<and> (\<forall>m \<in> set ms. \<not> md_default m) \<and>
       fst (resolve_turn_options R T E2 user sc (d', s2, w2)) = Inl (UnknownModel ''default''))"
proof -
  obtain u W3 where v: "validate_prefs R E sc p (s, w) = (Inr u, W3)" and d': "d' = store_prefs T user p d"
    using assms(3) by (auto simp: update_prefs_def split: prod.splits sum.splits)
  have get: "get_prefs T user d' = \<lparr>pf_model = pf_model p, pf_effort = pf_effort p\<rparr>"
    using prefs_table.store_prefs_get [OF assms(1,2), of user p user] by (simp add: d')
  note val = validate_ok [OF v assms(4)]
  show ?thesis
  proof (cases "chosen_model ms (pf_model p)")
    case None
    with val have "pf_model p = None" by simp
    with None get assms(5) chosen_props(2) show ?thesis
      by (auto simp: resolve_turn_options_def effective_model_def)
  next
    case (Some m)
    let ?o = "turn_options (get_prefs T user d') (fallback_effort E2) m"
    have "fst (resolve_turn_options R T E2 user sc (d', s2, w2)) = Inr ?o"
      using Some get assms(5) by (simp add: resolve_turn_options_def effective_model_def)
    moreover have "?o = \<lparr>pf_model = Some (md_id m), pf_effort = pf_effort ?o\<rparr>" by (simp add: turn_options_def)
    moreover have "\<forall>x. pf_effort p = Some x \<longrightarrow> pf_effort ?o = Some x" "\<forall>x. pf_effort ?o = Some x \<longrightarrow> supports m x"
      using val Some get by (auto simp: turn_options_def split: option.splits if_splits)
    ultimately show ?thesis using chosen_props(1) [OF Some] by metis
  qed
qed

text \<open>
  The catalog is read back from the cache as it was fetched. After a miss, whose answer was
  written to Redis, every list of the same sidecar within the ten minutes of the cache's life
  gives the same models, and does not ask the sidecar.
\<close>

theorem catalog_cached:
  assumes "zset_laws R" "read_catalog R (pe_codec E) (pe_get E) sc s = (Inr None, s0)" "pe_set E = Fine"
    and "catalog_list R E sc (s, w) = (Inr ms, s1, w1)" "pe_codec E2 = pe_codec E" "pe_get E2 = Fine" "n < CATALOG_TTL_S"
    and "\<And>b. pc_bool (pe_codec E) (JBool b) = Some b"
    and "pc_loads (pe_codec E) (pc_dumps (pe_codec E) (JList (map prefs_model_dump ms))) = Some (JList (map prefs_model_dump ms))"
  shows "\<exists>s2. catalog_list R E2 sc (rd_elapse R n s1, w2) = (Inr ms, s2, w2)"
proof -
  have L: "redis_laws R" using assms(1) by (simp add: zset_laws_def)
  have s1: "s1 = write_catalog R (pe_codec E) Fine sc ms s0"
    using assms(2-4) by (auto simp: catalog_list_def Let_def split: sum.splits prod.splits)
  have "rd_view R s1 (catalog_key sc) = Some (pc_dumps (pe_codec E) (JList (map prefs_model_dump ms)), Some CATALOG_TTL_S)"
    using zset_laws.x_set(1) [OF assms(1)] by (simp add: s1 write_catalog_def split_beta)
  then have "map_option fst (rd_view R (rd_elapse R n s1) (catalog_key sc)) = Some (pc_dumps (pe_codec E) (JList (map prefs_model_dump ms)))"
    using redis_laws.view_elapse [OF L] assms(7) by simp
  then have get: "fst (rd_get R (catalog_key sc) (rd_elapse R n s1)) = Some (pc_dumps (pe_codec E) (JList (map prefs_model_dump ms)))"
    using redis_laws.get_reply [OF L] by simp
  have "map_py (model_load (pe_codec E)) (map prefs_model_dump ms) = Inr ms"
    by (rule map_py_Inr) (rule model_round_trip [OF assms(8)])
  with get assms(5,6,9) show ?thesis
    by (cases "rd_get R (catalog_key sc) (rd_elapse R n s1)") (simp add: catalog_list_def read_catalog_def)
qed

definition demo_model :: codex_model where
  "demo_model = \<lparr>md_id = ''m1'', md_name = ''One'', md_description = [], md_default = True, md_default_effort = ''low'',
     md_efforts = [\<lparr>eo_value = ''low'', eo_description = []\<rparr>]\<rparr>"

definition demo_model_json :: json where
  "demo_model_json = JObj [(''id'', JStr ''m1''), (''displayName'', JStr ''One''), (''isDefault'', JBool True), (''extra'', JInt 1),
     (''defaultReasoningEffort'', JStr ''low''), (''supportedReasoningEfforts'', JList [JObj [(''reasoningEffort'', JStr ''low'')]])]"

definition demo_prefs_env :: "nat prefs_env" where
  "demo_prefs_env = \<lparr>pe_codec = \<lparr>pc_dumps = (\<lambda>_. ''j''), pc_loads = (\<lambda>_. Some (JList [prefs_model_dump demo_model])),
       pc_bool = (\<lambda>j. case j of JBool b \<Rightarrow> Some b | _ \<Rightarrow> None)\<rparr>,
     pe_fetch = (\<lambda>_ n. (Inr [demo_model_json, JStr ''bad'', JObj [(''id'', JStr ''m2'')]], Suc n)),
     pe_get = Fine, pe_set = Fine, pe_fallback = ''high''\<rparr>"

definition demo_redisz :: memz where
  "demo_redisz = (Map.empty, \<lambda>_. ([], None))"

lemma demo_catalog:
  "fst (catalog_list mem_redisz demo_prefs_env GuestSidecar (demo_redisz, 0)) = Inr [demo_model]"
  "snd (snd (catalog_list mem_redisz demo_prefs_env GuestSidecar (demo_redisz, 0))) = 1"
  "fst (read_catalog mem_redisz (pe_codec demo_prefs_env) (pe_get demo_prefs_env) GuestSidecar demo_redisz) = Inr None"
  by code_simp+

theorem saved_prefs_usable_witness:
  "fst (resolve_turn_options mem_redisz (keyed_mem pr_user) demo_prefs_env 7 GuestSidecar
      (fst (snd (update_prefs mem_redisz (keyed_mem pr_user) demo_prefs_env 7 GuestSidecar \<lparr>pf_model = Some ''m1'', pf_effort = Some ''low''\<rparr>
        ((1, []), demo_redisz, 0))), demo_redisz, 0)) = Inr \<lparr>pf_model = Some ''m1'', pf_effort = Some ''low''\<rparr> \<and> supports demo_model ''low''"
proof -
  let ?p = "\<lparr>pf_model = Some ''m1'', pf_effort = Some ''low''\<rparr>"
  let ?u = "update_prefs mem_redisz (keyed_mem pr_user) demo_prefs_env 7 GuestSidecar ?p ((1, []), demo_redisz, 0)"
  have "fst ?u = Inr ?p" by code_simp
  then have u: "?u = (Inr ?p, fst (snd ?u), snd (snd ?u))" by (metis prod.collapse)
  have ok: "rows_ok pr_id (sorted_wrt (\<lambda>r s. \<not> pr_user r = pr_user s)) (1, [])" by (simp add: rows_ok_def)
  have c: "catalog_list mem_redisz demo_prefs_env GuestSidecar (demo_redisz, 0) =
      (Inr [demo_model], snd (catalog_list mem_redisz demo_prefs_env GuestSidecar (demo_redisz, 0)))"
    by (metis demo_catalog(1) prod.collapse)
  from saved_prefs_usable [OF prefs_mem.prefs_table_axioms ok u c c] show ?thesis by auto
qed

theorem catalog_cached_witness:
  "\<exists>s1 s2. catalog_list mem_redisz demo_prefs_env GuestSidecar (demo_redisz, 0) = (Inr [demo_model], s1, 1) \<and>
     catalog_list mem_redisz demo_prefs_env GuestSidecar (rd_elapse mem_redisz 599 s1, 1) = (Inr [demo_model], s2, 1)"
proof -
  obtain s1 where c: "catalog_list mem_redisz demo_prefs_env GuestSidecar (demo_redisz, 0) = (Inr [demo_model], s1, 1)"
    by (metis demo_catalog(1,2) prod.collapse)
  obtain s0 where r: "read_catalog mem_redisz (pe_codec demo_prefs_env) (pe_get demo_prefs_env) GuestSidecar demo_redisz = (Inr None, s0)"
    by (metis demo_catalog(3) prod.collapse)
  have e: "pe_set demo_prefs_env = Fine" "pe_get demo_prefs_env = Fine" "599 < CATALOG_TTL_S"
    by (simp_all add: demo_prefs_env_def CATALOG_TTL_S_def)
  have b: "pc_bool (pe_codec demo_prefs_env) (JBool x) = Some x" for x by (simp add: demo_prefs_env_def)
  have j: "pc_loads (pe_codec demo_prefs_env) (pc_dumps (pe_codec demo_prefs_env) (JList (map prefs_model_dump [demo_model])))
    = Some (JList (map prefs_model_dump [demo_model]))" by (simp add: demo_prefs_env_def)
  from catalog_cached [OF memz.zset_laws_axioms r e(1) c refl e(2,3) b j, of 1] c show ?thesis by blast
qed

section \<open>Where the preferences fall short\<close>

text \<open>
  The effort that is stored is not looked at again: when the catalog has changed since, a turn
  is started with an effort its model does not support, although the fallback is checked.
\<close>

lemma stale_effort_sent:
  assumes "get_prefs T user d = p" "pf_effort p = Some e" "catalog_list R E sc W = (Inr ms, W1)"
    and "chosen_model ms (pf_model p) = Some m"
  shows "fst (resolve_turn_options R T E user sc (d, W)) = Inr \<lparr>pf_model = Some (md_id m), pf_effort = Some e\<rparr>"
  using assms by (simp add: resolve_turn_options_def effective_model_def turn_options_def)

text \<open>
  A user who has chosen nothing, and for whom \<open>None\<close> is to mean the sidecar's default, cannot
  start a turn when the catalog marks no model as the default, or cannot be fetched.
\<close>

lemma defaults_need_catalog:
  assumes "get_prefs T user d = no_prefs" "catalog_list R E sc W = (res, W1)" "\<forall>ms. res = Inr ms \<longrightarrow> find md_default ms = None"
  shows "\<exists>e. fst (resolve_turn_options R T E user sc (d, W)) = Inl e"
  using assms by (cases res) (auto simp: resolve_turn_options_def effective_model_def chosen_model_def no_prefs_def)

end
