(* ===== verification/Codex_Usage.thy ===== *)
theory Codex_Usage
  imports Codex_Prefs
begin

text \<open>
  The usage of the sidecar's account: the snapshots it reports, validated and turned into a
  domain value (\<open>services/codex_usage/service.py\<close>), their publication through Redis
  (\<open>services/codex_usage/poller.py\<close>), the two handlers that read them (\<open>rpc/chat/service.py\<close>) and
  what Telegram shows of them (\<open>tg/handlers.py\<close>). A \<open>datetime\<close> is the number of microseconds
  since the epoch.
\<close>

section \<open>Rounding and times\<close>

text \<open>Python's \<open>round\<close>: to the nearest integer, a half to the even one.\<close>

definition py_round :: "real \<Rightarrow> int" where
  "py_round x = (let f = \<lfloor>x\<rfloor>; r = x - of_int f in
     if r < 1 / 2 then f else if r > 1 / 2 then f + 1 else if even f then f else f + 1)"

lemma py_round_minus: "py_round (- x) = - py_round x"
proof -
  define f where "f = \<lfloor>x\<rfloor>"
  define r where "r = x - of_int f"
  have x: "x = of_int f + r" "0 \<le> r" "r < 1" by (simp_all add: f_def r_def) linarith+
  show ?thesis
  proof (cases "r = 0")
    case True
    then have "x = of_int f" using x by simp
    then show ?thesis by (simp add: py_round_def)
  next
    case False
    have m: "\<lfloor>- x\<rfloor> = - f - 1" using x False by (intro floor_unique) simp_all
    have r': "- x - of_int (- f - 1) = 1 - r" using x by simp
    have pos: "py_round x = (if r < 1 / 2 then f else if r > 1 / 2 then f + 1 else if even f then f else f + 1)"
      unfolding py_round_def Let_def f_def [symmetric] r_def [symmetric] ..
    have neg: "py_round (- x) = (if 1 - r < 1 / 2 then - f - 1 else if 1 - r > 1 / 2 then - f else if even (- f - 1) then - f - 1 else - f)"
      unfolding py_round_def Let_def m r' by simp
    show ?thesis unfolding pos neg by (auto split: if_splits)
  qed
qed

lemma py_round_plus_even: "even k \<Longrightarrow> py_round (x + of_int k) = py_round x + k"
  by (simp add: py_round_def Let_def)

lemma py_round_int [simp]: "py_round (of_int k) = k"
  by (simp add: py_round_def)

text \<open>\<open>datetime.fromtimestamp(t, UTC)\<close> raises a ValueError outside the years 1 to 9999.\<close>

definition from_timestamp :: "real \<Rightarrow> int option" where
  "from_timestamp t = (let us = py_round (t * 1000000) in
     if - 62135596800 * 1000000 \<le> us \<and> us < 253402300800 * 1000000 then Some us else None)"

section \<open>Snapshots\<close>

record usage_window =
  uw_used :: real
  uw_minutes :: int
  uw_resets :: "int option"

record codex_usage =
  cu_updated :: "int option"
  cu_plan :: "string option"
  cu_primary :: "usage_window option"
  cu_secondary :: "usage_window option"

definition left_percent :: "usage_window \<Rightarrow> real" where
  "left_percent w = max 0 (100 - uw_used w)"

text \<open>The coercions of the validation library, the encoder, and the text of a time.\<close>

record usage_codec =
  uc_float :: "json \<Rightarrow> real option"
  uc_int :: "json \<Rightarrow> int option"
  uc_time :: "json \<Rightarrow> int option"
  uc_iso :: "int \<Rightarrow> string"
  uc_dumps :: "json \<Rightarrow> string"
  uc_loads :: "string \<Rightarrow> json option"

definition coerced :: "(json \<Rightarrow> 'a option) \<Rightarrow> json \<Rightarrow> 'a py" where
  "coerced c j = (case c j of None \<Rightarrow> Inl (ValidationError ''parsing'') | Some x \<Rightarrow> Inr x)"

definition nullable :: "(json \<Rightarrow> 'a py) \<Rightarrow> json \<Rightarrow> 'a option py" where
  "nullable field j = (case j of JNull \<Rightarrow> Inr None | _ \<Rightarrow> bind_py (field j) (\<lambda>x. Inr (Some x)))"

record window_in =
  wi_used :: "real option"
  wi_minutes :: "int option"
  wi_resets :: "real option"

definition window_in_model :: "usage_codec \<Rightarrow> json \<Rightarrow> window_in py" where
  "window_in_model C j =
     bind_py (obj_field j) (\<lambda>kv.
     bind_py (with_default (nullable (coerced (uc_float C))) None kv ''usedPercent'') (\<lambda>used.
     bind_py (with_default (nullable (coerced (uc_int C))) None kv ''windowDurationMins'') (\<lambda>mins.
     bind_py (with_default (nullable (coerced (uc_float C))) None kv ''resetsAt'') (\<lambda>resets.
     Inr \<lparr>wi_used = used, wi_minutes = mins, wi_resets = resets\<rparr>))))"

text \<open>\<open>_to_window\<close>; \<open>None\<close> is the ValueError of a time out of range.\<close>

definition to_window :: "window_in option \<Rightarrow> usage_window option option" where
  "to_window w =
     (case w of
        None \<Rightarrow> Some None
      | Some v \<Rightarrow>
          (case wi_used v of
             None \<Rightarrow> Some None
           | Some used \<Rightarrow>
               (let mk = (\<lambda>r. Some (Some \<lparr>uw_used = used, uw_minutes = (case wi_minutes v of None \<Rightarrow> 0 | Some m \<Rightarrow> m), uw_resets = r\<rparr>))
                in case wi_resets v of
                     None \<Rightarrow> mk None
                   | Some t \<Rightarrow> (case from_timestamp t of None \<Rightarrow> None | Some us \<Rightarrow> mk (Some us)))))"

datatype usage_exn = UxApp | UxOS | UxTimeout | UxSocket | UxValidation | UxValue

definition from_rate_limits :: "usage_codec \<Rightarrow> int \<Rightarrow> json \<Rightarrow> usage_exn + codex_usage" where
  "from_rate_limits C now j =
     (case bind_py (obj_field j) (\<lambda>kv.
           bind_py (with_default opt_str_field None kv ''planType'') (\<lambda>plan.
           bind_py (with_default (nullable (window_in_model C)) None kv ''primary'') (\<lambda>p.
           bind_py (with_default (nullable (window_in_model C)) None kv ''secondary'') (\<lambda>s. Inr (plan, p, s))))) of
        Inl _ \<Rightarrow> Inl UxValidation
      | Inr (plan, p, s) \<Rightarrow>
          (case to_window p of
             None \<Rightarrow> Inl UxValue
           | Some primary \<Rightarrow>
               (case to_window s of
                  None \<Rightarrow> Inl UxValue
                | Some secondary \<Rightarrow> Inr \<lparr>cu_updated = Some now, cu_plan = plan, cu_primary = primary, cu_secondary = secondary\<rparr>)))"

section \<open>Publishing\<close>

definition time_json :: "usage_codec \<Rightarrow> int option \<Rightarrow> json" where
  "time_json C t = (case t of None \<Rightarrow> JNull | Some us \<Rightarrow> JStr (uc_iso C us))"

definition window_dump :: "usage_codec \<Rightarrow> usage_window option \<Rightarrow> json" where
  "window_dump C w = (case w of None \<Rightarrow> JNull | Some v \<Rightarrow>
     JObj [(''used_percent'', JFloat (uw_used v)), (''window_minutes'', JInt (uw_minutes v)), (''resets_at'', time_json C (uw_resets v))])"

definition usage_dump :: "usage_codec \<Rightarrow> codex_usage \<Rightarrow> json" where
  "usage_dump C u = JObj [(''updated_at'', time_json C (cu_updated u)), (''plan_type'', opt_json (cu_plan u)),
     (''primary'', window_dump C (cu_primary u)), (''secondary'', window_dump C (cu_secondary u))]"

definition window_load :: "usage_codec \<Rightarrow> json \<Rightarrow> usage_window py" where
  "window_load C j =
     bind_py (obj_field j) (\<lambda>kv. bind_py (forbid_extra [''used_percent'', ''window_minutes'', ''resets_at''] kv) (\<lambda>_.
     bind_py (required kv ''used_percent'') (\<lambda>u. bind_py (coerced (uc_float C) u) (\<lambda>used.
     bind_py (required kv ''window_minutes'') (\<lambda>m. bind_py (coerced (uc_int C) m) (\<lambda>mins.
     bind_py (with_default (nullable (coerced (uc_time C))) None kv ''resets_at'') (\<lambda>resets.
     Inr \<lparr>uw_used = used, uw_minutes = mins, uw_resets = resets\<rparr>)))))))"

definition usage_load :: "usage_codec \<Rightarrow> json \<Rightarrow> codex_usage py" where
  "usage_load C j =
     bind_py (obj_field j) (\<lambda>kv. bind_py (forbid_extra [''updated_at'', ''plan_type'', ''primary'', ''secondary''] kv) (\<lambda>_.
     bind_py (with_default (nullable (coerced (uc_time C))) None kv ''updated_at'') (\<lambda>updated.
     bind_py (with_default opt_str_field None kv ''plan_type'') (\<lambda>plan.
     bind_py (with_default (nullable (window_load C)) None kv ''primary'') (\<lambda>p.
     bind_py (with_default (nullable (window_load C)) None kv ''secondary'') (\<lambda>s.
     Inr \<lparr>cu_updated = updated, cu_plan = plan, cu_primary = p, cu_secondary = s\<rparr>))))))"

definition usage_serialize :: "usage_codec \<Rightarrow> codex_usage \<Rightarrow> string" where
  "usage_serialize C u = uc_dumps C (usage_dump C u)"

definition usage_deserialize :: "usage_codec \<Rightarrow> string \<Rightarrow> codex_usage option" where
  "usage_deserialize C raw =
     (case uc_loads C raw of None \<Rightarrow> None | Some j \<Rightarrow> (case usage_load C j of Inl _ \<Rightarrow> None | Inr u \<Rightarrow> Some u))"

definition SNAPSHOT_TTL_S :: nat where
  "SNAPSHOT_TTL_S = 3600"

definition snapshot_key :: "sidecar_name \<Rightarrow> string" where
  "snapshot_key sc = ''codex:usage:snapshot:'' @ sidecar_value sc"

definition channel_for :: "sidecar_name \<Rightarrow> string" where
  "channel_for sc = ''codex:usage:'' @ sidecar_value sc"

text \<open>Redis' keys, and what has been published so far, in order.\<close>

type_synonym 's usage_store = "'s \<times> (string \<times> string) list"

definition set_snapshot :: "('s, 'x) redisz_scheme \<Rightarrow> fault \<Rightarrow> sidecar_name \<Rightarrow> string \<Rightarrow> 's usage_store \<Rightarrow> bool \<times> 's usage_store" where
  "set_snapshot R f sc raw W = (case call f (rx_set R (snapshot_key sc) raw SNAPSHOT_TTL_S) (fst W) of (r, s) \<Rightarrow> (r \<noteq> None, s, snd W))"

definition publish_raw :: "fault \<Rightarrow> sidecar_name \<Rightarrow> string \<Rightarrow> 's usage_store \<Rightarrow> 's usage_store" where
  "publish_raw f sc raw W = (fst W, snd (call f (\<lambda>ms. ((), ms @ [(channel_for sc, raw)])) (snd W)))"

definition publish_usage ::
  "('s, 'x) redisz_scheme \<Rightarrow> usage_codec \<Rightarrow> fault \<Rightarrow> fault \<Rightarrow> sidecar_name \<Rightarrow> codex_usage \<Rightarrow> 's usage_store \<Rightarrow> 's usage_store" where
  "publish_usage R C f g sc u W =
     (case set_snapshot R f sc (usage_serialize C u) W of
        (False, W1) \<Rightarrow> W1
      | (True, W1) \<Rightarrow> publish_raw g sc (usage_serialize C u) W1)"

text \<open>What a note of the sidecar causes; an exception reaches the turn that received it.\<close>

definition publish_rate_limits ::
  "('s, 'x) redisz_scheme \<Rightarrow> usage_codec \<Rightarrow> fault \<Rightarrow> fault \<Rightarrow> int \<Rightarrow> sidecar_name \<Rightarrow> json \<Rightarrow> 's usage_store \<Rightarrow> (usage_exn + unit) \<times> 's usage_store" where
  "publish_rate_limits R C f g now sc snapshot W =
     (case from_rate_limits C now snapshot of
        Inl UxValidation \<Rightarrow> (Inr (), W)
      | Inl e \<Rightarrow> (Inl e, W)
      | Inr u \<Rightarrow> (Inr (), publish_usage R C f g sc u W))"

text \<open>The answer of a client opened for the purpose: an exception, or the account's snapshot.\<close>

definition fetch_once :: "usage_codec \<Rightarrow> int \<Rightarrow> usage_exn + json option \<Rightarrow> usage_exn + codex_usage option" where
  "fetch_once C now answer =
     (case (case answer of
              Inl e \<Rightarrow> Inl e
            | Inr None \<Rightarrow> Inr None
            | Inr (Some j) \<Rightarrow> (case from_rate_limits C now j of Inl e \<Rightarrow> Inl e | Inr u \<Rightarrow> Inr (Some u))) of
        Inl e \<Rightarrow> if e \<in> {UxApp, UxOS, UxTimeout} then Inr None else Inl e
      | Inr u \<Rightarrow> Inr u)"

definition publish_for ::
  "('s, 'x) redisz_scheme \<Rightarrow> usage_codec \<Rightarrow> fault \<Rightarrow> fault \<Rightarrow> int \<Rightarrow> sidecar_name \<Rightarrow> usage_exn + json option \<Rightarrow> 's usage_store \<Rightarrow>
     (usage_exn + unit) \<times> 's usage_store" where
  "publish_for R C f g now sc answer W =
     (case fetch_once C now answer of
        Inl e \<Rightarrow> (Inl e, W)
      | Inr None \<Rightarrow> (Inr (), W)
      | Inr (Some u) \<Rightarrow> (Inr (), publish_usage R C f g sc (u\<lparr>cu_updated := Some now\<rparr>) W))"

text \<open>\<open>_bootstrap_once\<close>: the administrator's sidecar, then the guests'.\<close>

definition bootstrap_once ::
  "('s, 'x) redisz_scheme \<Rightarrow> usage_codec \<Rightarrow> fault \<Rightarrow> fault \<Rightarrow> int \<Rightarrow> (sidecar_name \<Rightarrow> usage_exn + json option) \<Rightarrow> 's usage_store \<Rightarrow>
     (usage_exn + unit) \<times> 's usage_store" where
  "bootstrap_once R C f g now answers W =
     (case publish_for R C f g now AdminSidecar (answers AdminSidecar) W of
        (Inl e, W1) \<Rightarrow> (Inl e, W1)
      | (Inr _, W1) \<Rightarrow> publish_for R C f g now GuestSidecar (answers GuestSidecar) W1)"

section \<open>Reading\<close>

definition no_usage :: codex_usage where
  "no_usage = \<lparr>cu_updated = None, cu_plan = None, cu_primary = None, cu_secondary = None\<rparr>"

text \<open>The message of the protocol: an empty plan is left out, and the time of the snapshot.\<close>

definition codex_usage_to_pb :: "codex_usage \<Rightarrow> codex_usage" where
  "codex_usage_to_pb u = u\<lparr>cu_updated := None, cu_plan := (if opt_truthy (cu_plan u) then cu_plan u else None)\<rparr>"

definition first_frame :: "usage_codec \<Rightarrow> string option \<Rightarrow> codex_usage" where
  "first_frame C raw =
     (case Option.bind raw (usage_deserialize C) of None \<Rightarrow> no_usage | Some u \<Rightarrow> codex_usage_to_pb u)"

text \<open>
  \<open>StreamCodexUsage\<close>: \<open>mark\<close> is what had been published when it subscribed, \<open>raw\<close> the key as it
  read it afterwards, \<open>ms\<close> all that is published until it ends.
\<close>

definition stream_codex_usage :: "usage_codec \<Rightarrow> sidecar_name \<Rightarrow> nat \<Rightarrow> string option \<Rightarrow> (string \<times> string) list \<Rightarrow> codex_usage list" where
  "stream_codex_usage C sc mark raw ms =
     first_frame C raw # map codex_usage_to_pb (List.map_filter (\<lambda>(ch, m). if ch = channel_for sc then usage_deserialize C m else None) (drop mark ms))"

definition refresh_codex_usage ::
  "('s, 'x) redisz_scheme \<Rightarrow> usage_codec \<Rightarrow> fault \<Rightarrow> fault \<Rightarrow> fault \<Rightarrow> int \<Rightarrow> user_row \<Rightarrow> usage_exn + json option \<Rightarrow> 's usage_store \<Rightarrow>
     (rpc_code + codex_usage) \<times> 's usage_store" where
  "refresh_codex_usage R C f g h now user answer W =
     (let sc = sidecar_for (u_role user) in
      case publish_for R C f g now sc answer W of
        (Inl _, W1) \<Rightarrow> (Inl RPC_INTERNAL, W1)
      | (Inr _, W1) \<Rightarrow>
          (case call h (rd_get R (snapshot_key sc)) (fst W1) of
             (None, s) \<Rightarrow> (Inl RPC_INTERNAL, s, snd W1)
           | (Some raw, s) \<Rightarrow> (Inr (first_frame C raw), s, snd W1)))"

section \<open>What Telegram shows\<close>

datatype usage_dot = RedDot | YellowDot | GreenDot | WhiteDot

definition usage_icon :: "real \<Rightarrow> usage_dot" where
  "usage_icon used = (if used \<ge> 80 then RedDot else if used \<ge> 50 then YellowDot else GreenDot)"

definition usage_dots :: "real \<Rightarrow> nat \<Rightarrow> usage_dot list" where
  "usage_dots used width =
     (let filled = nat (max 0 (min (int width) (py_round (real width * used / 100))))
      in replicate filled (usage_icon used) @ replicate (width - filled) WhiteDot)"

text \<open>A section of the answer: its label, the dots, the two percentages and the time of the reset.\<close>

definition format_window :: "string \<Rightarrow> usage_window \<Rightarrow> string \<times> usage_dot list \<times> int \<times> int \<times> int option" where
  "format_window label w = (label, usage_dots (uw_used w) 10, py_round (uw_used w), py_round (left_percent w), uw_resets w)"

definition format_codex_usage :: "codex_usage \<Rightarrow> string \<times> (string \<times> usage_dot list \<times> int \<times> int \<times> int option) list \<times> int option" where
  "format_codex_usage u =
     ((if opt_truthy (cu_plan u) then the (cu_plan u) else ''unknown''),
      (case cu_primary u of None \<Rightarrow> [] | Some w \<Rightarrow> [format_window ''5h'' w])
        @ (case cu_secondary u of None \<Rightarrow> [] | Some w \<Rightarrow> [format_window ''week'' w]),
      cu_updated u)"

section \<open>Lemmas\<close>

lemma time_round_trip:
  assumes "\<And>us. t = Some us \<Longrightarrow> uc_time C (JStr (uc_iso C us)) = Some us"
  shows "nullable (coerced (uc_time C)) (time_json C t) = Inr t"
  using assms by (cases t) (simp_all add: nullable_def coerced_def time_json_def)

text \<open>What the codec has to get right for a snapshot to come back as it was sent.\<close>

definition codec_reads :: "usage_codec \<Rightarrow> codex_usage \<Rightarrow> bool" where
  "codec_reads C u \<longleftrightarrow> uc_loads C (uc_dumps C (usage_dump C u)) = Some (usage_dump C u) \<and>
     (\<forall>x. uc_float C (JFloat x) = Some x) \<and> (\<forall>n. uc_int C (JInt n) = Some n) \<and> (\<forall>us. uc_time C (JStr (uc_iso C us)) = Some us)"

lemma window_round_trip:
  assumes "codec_reads C u"
  shows "nullable (window_load C) (window_dump C w) = Inr w"
proof (cases w)
  case (Some v)
  have "nullable (coerced (uc_time C)) (time_json C (uw_resets v)) = Inr (uw_resets v)"
    by (rule time_round_trip) (use assms in \<open>simp add: codec_reads_def\<close>)
  with Some assms show ?thesis
    by (simp add: nullable_def window_dump_def window_load_def obj_field_def forbid_extra_def required_def with_default_def coerced_def codec_reads_def)
qed (simp add: nullable_def window_dump_def)

lemma usage_round_trip:
  assumes "codec_reads C u"
  shows "usage_deserialize C (usage_serialize C u) = Some u"
proof -
  have "nullable (coerced (uc_time C)) (time_json C (cu_updated u)) = Inr (cu_updated u)"
    by (rule time_round_trip) (use assms in \<open>simp add: codec_reads_def\<close>)
  moreover note window_round_trip [OF assms]
  ultimately have "usage_load C (usage_dump C u) = Inr u"
    by (simp add: usage_load_def usage_dump_def obj_field_def forbid_extra_def with_default_def)
  with assms show ?thesis by (simp add: usage_deserialize_def usage_serialize_def codec_reads_def)
qed

text \<open>A writer's two steps for each snapshot, so that a reader may act in between.\<close>

datatype writer_step = UsSet string | UsPub string

fun usage_step :: "('s, 'x) redisz_scheme \<Rightarrow> sidecar_name \<Rightarrow> writer_step \<Rightarrow> 's usage_store \<Rightarrow> 's usage_store" where
  "usage_step R sc (UsSet raw) W = snd (set_snapshot R Fine sc raw W)"
| "usage_step R sc (UsPub raw) W = publish_raw Fine sc raw W"

definition writer_steps :: "usage_codec \<Rightarrow> codex_usage list \<Rightarrow> writer_step list" where
  "writer_steps C us = concat (map (\<lambda>u. [UsSet (usage_serialize C u), UsPub (usage_serialize C u)]) us)"

lemma writer_steps_snoc:
  "writer_steps C (us @ [u]) = writer_steps C us @ [UsSet (usage_serialize C u), UsPub (usage_serialize C u)]"
  by (simp add: writer_steps_def)

lemma publish_usage_steps:
  "publish_usage R C Fine Fine sc u W = fold (usage_step R sc) (writer_steps C [u]) W"
  by (simp add: publish_usage_def writer_steps_def set_snapshot_def split_beta split: bool.split)

fun published :: "sidecar_name \<Rightarrow> writer_step list \<Rightarrow> (string \<times> string) list" where
  "published sc [] = []"
| "published sc (UsSet raw # xs) = published sc xs"
| "published sc (UsPub raw # xs) = (channel_for sc, raw) # published sc xs"

lemma published_append [simp]: "published sc (xs @ ys) = published sc xs @ published sc ys"
  by (induction sc xs rule: published.induct) auto

lemma steps_publish: "snd (fold (usage_step R sc) xs W) = snd W @ published sc xs"
  by (induction sc xs arbitrary: W rule: published.induct) (auto simp: set_snapshot_def publish_raw_def split_beta)

lemma writer_snapshot:
  assumes "zset_laws R"
  shows "map_option fst (rd_view R (fst (fold (usage_step R sc) (writer_steps C (us @ [u])) W)) (snapshot_key sc)) = Some (usage_serialize C u)"
  using zset_laws.x_set(1) [OF assms] by (simp add: writer_steps_def set_snapshot_def publish_raw_def split_beta)

lemma map_filter_snoc: "List.map_filter f (xs @ [x]) = List.map_filter f xs @ (case f x of None \<Rightarrow> [] | Some y \<Rightarrow> [y])"
  by (induction xs) (auto simp: List.map_filter_simps split: option.split)

section \<open>Properties\<close>


definition demo_usage :: codex_usage where
  "demo_usage = \<lparr>cu_updated = Some 5, cu_plan = Some ''pro'', cu_primary = Some \<lparr>uw_used = 40, uw_minutes = 300, uw_resets = Some 9\<rparr>, cu_secondary = None\<rparr>"

definition demo_usage_codec :: usage_codec where
  "demo_usage_codec = \<lparr>uc_float = (\<lambda>j. case j of JFloat r \<Rightarrow> Some r | JInt i \<Rightarrow> Some (of_int i) | _ \<Rightarrow> None),
     uc_int = (\<lambda>j. case j of JInt i \<Rightarrow> Some i | _ \<Rightarrow> None), uc_time = (\<lambda>j. case j of JStr s \<Rightarrow> py_int s | _ \<Rightarrow> None), uc_iso = str_of_int,
     uc_dumps = (\<lambda>j. ''u''),
     uc_loads = (\<lambda>s. Some (JObj [(''updated_at'', JStr (str_of_int 5)), (''plan_type'', JStr ''pro''),
       (''primary'', JObj [(''used_percent'', JFloat 40), (''window_minutes'', JInt 300), (''resets_at'', JStr (str_of_int 9))]), (''secondary'', JNull)]))\<rparr>"


text \<open>
  What Telegram shows of a window is consistent: exactly ten dots, and for a usage between
  0 and 100 percent the two numbers are percentages that add up to 100.
\<close>

theorem usage_shown:
  assumes "0 \<le> uw_used w" "uw_used w \<le> 100" "format_window label w = (l, dots, used, left, resets)"
  shows "length dots = 10 \<and> used + left = 100 \<and> 0 \<le> used \<and> used \<le> 100"
proof -
  have "py_round (100 - uw_used w) = 100 - py_round (uw_used w)"
    using py_round_plus_even [of 100 "- uw_used w"] by (simp add: py_round_minus)
  moreover have "0 \<le> py_round (uw_used w)" "py_round (uw_used w) \<le> 100"
  proof -
    let ?f = "\<lfloor>uw_used w\<rfloor>"
    have f: "0 \<le> ?f" "?f \<le> 100" "?f = 100 \<longrightarrow> uw_used w = 100" using assms(1,2) by linarith+
    have "?f \<le> py_round (uw_used w)" "py_round (uw_used w) \<le> ?f + 1" by (simp_all add: py_round_def Let_def)
    moreover have "?f = 100 \<Longrightarrow> py_round (uw_used w) = 100" using f(3) py_round_int [of 100] by simp
    ultimately show "0 \<le> py_round (uw_used w)" "py_round (uw_used w) \<le> 100" using f by linarith+
  qed
  moreover have "length (usage_dots x n) = n" for x n by (simp add: usage_dots_def Let_def min_def)
  ultimately show ?thesis using assms by (auto simp: format_window_def left_percent_def)
qed

theorem usage_shown_witness:
  "format_window ''5h'' \<lparr>uw_used = 85 / 2, uw_minutes = 300, uw_resets = None\<rparr>
     = (''5h'', replicate 4 GreenDot @ replicate 6 WhiteDot, 42, 58, None) \<and> (42 :: int) + 58 = 100"
proof -
  have "format_window ''5h'' \<lparr>uw_used = 85 / 2, uw_minutes = 300, uw_resets = None\<rparr>
     = (''5h'', replicate 4 GreenDot @ replicate 6 WhiteDot, 42, 58, None)"
    by code_simp
  with usage_shown [OF _ _ this] show ?thesis by simp
qed

section \<open>Where the poller falls short\<close>

text \<open>
  A snapshot whose time of reset is out of range, for instance in milliseconds, is not an
  invalid notification to the code: the exception goes through to the turn that received it.
\<close>

lemma far_reset_raises:
  assumes "to_window p = None"
    and "bind_py (obj_field j) (\<lambda>kv. bind_py (with_default opt_str_field None kv ''planType'') (\<lambda>plan.
           bind_py (with_default (nullable (window_in_model C)) None kv ''primary'') (\<lambda>p.
           bind_py (with_default (nullable (window_in_model C)) None kv ''secondary'') (\<lambda>s. Inr (plan, p, s))))) = Inr (plan, p, s)"
  shows "publish_rate_limits R C f g now sc j W = (Inl UxValue, W)"
  using assms by (simp add: publish_rate_limits_def from_rate_limits_def)

lemma milliseconds_out_of_range: "from_timestamp 1700000000000 = None"
  by code_simp

text \<open>A refused handshake is no OSError: it ends the bootstrap before the guests' sidecar is asked.\<close>

lemma bootstrap_stops:
  "answers AdminSidecar = Inl UxSocket \<Longrightarrow> bootstrap_once R C f g now answers W = (Inl UxSocket, W)"
  by (simp add: bootstrap_once_def publish_for_def fetch_once_def)

end
