(* ===== verification/Tg_Handlers.thy ===== *)
theory Tg_Handlers
  imports Tg_Safety Codex_Usage
begin

text \<open>
  The handlers of the bot's commands and of its button (\<open>app/tg/handlers.py\<close>), and the order in
  which the dispatcher tries them (\<open>tg/service.py\<close>). They act on the world of a Telegram turn
  and on the worker's own sessions; the text of an answer that is outside ASCII is a parameter.
\<close>

section \<open>Answers\<close>

definition say_text :: "tg_env \<Rightarrow> string \<Rightarrow> (('s, 'd, 'c, 'm, 'u) tg_world, unit) action" where
  "say_text e s = answer_html e (tg_escape s)"

text \<open>A handler's end: it hangs, raises or returns; the world and the sessions it leaves.\<close>

type_synonym 'w handled = "(turn_exn + unit) option \<times> 'w \<times> tg_key session_store"

definition answered :: "tg_key session_store \<Rightarrow> (turn_exn + unit) \<times> 'w \<Rightarrow> 'w handled" where
  "answered so r = (Some (fst r), snd r, so)"

text \<open>\<open>_topic_key\<close>: only a message of a forum topic has its thread in the key.\<close>

definition topic_key :: "int \<Rightarrow> bool \<Rightarrow> int option \<Rightarrow> tg_key" where
  "topic_key chat is_topic thread = (chat, if is_topic then thread else None)"

section \<open>The commands\<close>

definition on_start :: "tg_env \<Rightarrow> string \<Rightarrow> tg_key session_store \<Rightarrow> ('s, 'd, 'c, 'm, 'u) tg_world \<Rightarrow> ('s, 'd, 'c, 'm, 'u) tg_world handled" where
  "on_start e greeting so w = answered so (say_text e greeting w)"

definition on_reset ::
  "('c, 'm, 'd) tables \<Rightarrow> tg_env \<Rightarrow> tg_key \<Rightarrow> tg_key session_store \<Rightarrow> ('s, 'd, 'c, 'm, 'u) tg_world \<Rightarrow> ('s, 'd, 'c, 'm, 'u) tg_world handled" where
  "on_reset T e k so w =
     (case reset_session (ta_chats T) k (so, wb_chats (gw_web w)) of
        (None, so1, dc) \<Rightarrow> (None, on_web (\<lambda>W. W\<lparr>wb_chats := dc\<rparr>) w, so1)
      | (Some existed, so1, dc) \<Rightarrow>
          answered so1 (say_text e (if existed then ''Session reset.'' else ''No active session.'') (on_web (\<lambda>W. W\<lparr>wb_chats := dc\<rparr>) w)))"

definition NEW_THREAD :: string where
  "NEW_THREAD = ''New thread will open with the next message.''"

definition forget_thread :: "('c, 'm, 'd) tables \<Rightarrow> tg_env \<Rightarrow> chat_session \<Rightarrow> (('s, 'd, 'c, 'm, 'u) tg_world, unit) action" where
  "forget_thread T e s =
     transact e (then_do (change (on_web (\<lambda>W. W\<lparr>wb_chats := set_codex_thread_id (ta_chats T) (cs_chat s) None (wb_chats W)\<rparr>)))
       (\<lambda>_. change (emit_row THREAD_RESET JNull)))"

definition on_new ::
  "('c, 'm, 'd) tables \<Rightarrow> tg_env \<Rightarrow> tg_key \<Rightarrow> tg_key session_store \<Rightarrow> ('s, 'd, 'c, 'm, 'u) tg_world \<Rightarrow> ('s, 'd, 'c, 'm, 'u) tg_world handled" where
  "on_new T e k so w =
     (case get_session k so of
        None \<Rightarrow> answered so (say_text e NEW_THREAD w)
      | Some (_, s) \<Rightarrow> answered so (then_do (forget_thread T e s) (\<lambda>_. say_text e NEW_THREAD) w))"

text \<open>\<open>running\<close> is the turn of the session's task, if it has one.\<close>

definition on_stop ::
  "('s, 'x) redisz_scheme \<Rightarrow> ('c, 'm, 'd) tables \<Rightarrow> tg_env \<Rightarrow> int \<Rightarrow> tg_key \<Rightarrow> tg_key session_store \<Rightarrow> ('s, 'd, 'c, 'm, 'u) tg_world \<Rightarrow>
     ('s, 'd, 'c, 'm, 'u) tg_world handled" where
  "on_stop R T e running k so w =
     (case get_session k so of
        None \<Rightarrow> answered so (say_text e ''No active turn to stop.'' w)
      | Some (_, s) \<Rightarrow> answered so (then_do (cancel_turn R T e s running)
          (\<lambda>cancelled. say_text e (if cancelled then ''Turn interrupted.'' else ''No active turn to stop.'')) w))"

section \<open>The button\<close>

definition CB_TURN_STOP :: string where
  "CB_TURN_STOP = ''turn:stop''"

datatype callback_answer = CbNothing | CbNoSession | CbStopped | CbNoTurn

text \<open>
  The key is None for a message that is no longer accessible. The answer to the query is a call
  of the bot, recorded here as the value.
\<close>

definition on_callback ::
  "('s, 'x) redisz_scheme \<Rightarrow> ('c, 'm, 'd) tables \<Rightarrow> tg_env \<Rightarrow> int \<Rightarrow> tg_key option \<Rightarrow> string \<Rightarrow> tg_key session_store \<Rightarrow>
     (('s, 'd, 'c, 'm, 'u) tg_world, callback_answer) action" where
  "on_callback R T e running k data so w =
     (case Option.bind k (\<lambda>k. get_session k so) of
        None \<Rightarrow> (Inr (if k = None then CbNothing else CbNoSession), w)
      | Some (_, s) \<Rightarrow>
          if data = CB_TURN_STOP
          then then_do (cancel_turn R T e s running) (\<lambda>cancelled. give (if cancelled then CbStopped else CbNoTurn)) w
          else (Inr CbNothing, w))"

section \<open>Usage\<close>

text \<open>
  Only a listed administrator is answered. Opening the session may fail or wait for ever; the
  snapshot is what the sidecar answers, None when it has no such request.
\<close>

datatype usage_answer = UaIgnored | UaUnsupported | UaShown "string \<times> (string \<times> usage_dot list \<times> int \<times> int \<times> int option) list \<times> int option"

definition on_codex_usage ::
  "(user_row, 'v) table \<Rightarrow> (chat_row, 'c) table \<Rightarrow> usage_codec \<Rightarrow> int list \<Rightarrow> int \<Rightarrow> tg_key \<Rightarrow> (int \<times> string option) option \<Rightarrow> usage_exn + json option \<Rightarrow>
     tg_key session_store \<times> 'v \<times> 'c \<Rightarrow> (string + usage_answer) option \<times> tg_key session_store \<times> 'v \<times> 'c" where
  "on_codex_usage U T C admins now k sender snap W =
     (case sender of
        None \<Rightarrow> (Some (Inr UaIgnored), W)
      | Some (i, name) \<Rightarrow>
          if i \<notin> set admins then (Some (Inr UaIgnored), W)
          else (case tg_get_or_open U T admins now k i name W of
                  (None, W1) \<Rightarrow> (None, W1)
                | (Some (Inl x), W1) \<Rightarrow> (Some (Inl x), W1)
                | (Some (Inr _), W1) \<Rightarrow>
                    (Some (case snap of
                             Inl _ \<Rightarrow> Inl ''sidecar''
                           | Inr None \<Rightarrow> Inr UaUnsupported
                           | Inr (Some j) \<Rightarrow> (case from_rate_limits C now j of Inl _ \<Rightarrow> Inl ''snapshot'' | Inr u \<Rightarrow> Inr (UaShown (format_codex_usage u)))), W1)))"

section \<open>Routing\<close>

datatype route = RStart | RNew | RReset | RStop | RUsage | RIncoming

text \<open>
  The handlers in the order they are registered; the command of a message is what the bot
  library reads from its text, and a message with none of the known contents is dropped.
\<close>

definition route_message :: "string option \<Rightarrow> bool \<Rightarrow> route option" where
  "route_message command has_content =
     (if command = Some ''start'' then Some RStart
      else if command = Some ''new'' then Some RNew
      else if command = Some ''reset'' then Some RReset
      else if command = Some ''stop'' then Some RStop
      else if command = Some ''codex_usage'' then Some RUsage
      else if has_content then Some RIncoming else None)"

section \<open>Lemmas\<close>

lemma say_text_keeps:
  "gw_web (snd (say_text e t w)) = gw_web w" "gw_task (snd (say_text e t w)) = gw_task w"
  by (auto simp: say_text_def answer_html_def with_bot_def split: prod.splits sum.splits)

definition tg_chats_unique :: "(int \<Rightarrow> chat_row option) \<Rightarrow> bool" where
  "tg_chats_unique m \<longleftrightarrow> (\<forall>i j r s. m i = Some r \<longrightarrow> m j = Some s \<longrightarrow> chat_clash r s \<longrightarrow> i = j)"

locale chat_db = table_laws T c_id tg_chats_unique ok
  for T :: "(chat_row, 'c) table" and ok :: "'c \<Rightarrow> bool"
begin

lemma thread_update:
  assumes "ok d" "tb_view T d i = Some c"
  shows "ok (set_codex_thread_id T i thread d)" "tb_view T (set_codex_thread_id T i thread d) = (tb_view T d)(i \<mapsto> c\<lparr>c_thread := thread\<rparr>)"
proof -
  let ?p = "\<lambda>c. c_id c = i" and ?f = "\<lambda>c. c\<lparr>c_thread := thread\<rparr>"
  have "upd_view ?p ?f (tb_view T d) = (tb_view T d)(i \<mapsto> ?f c)"
    using keyed_upd [OF assms(1), of ?f i "\<lambda>_. True"] assms(2) by simp
  moreover have "tg_chats_unique (upd_view ?p ?f (tb_view T d))"
    using uniq_view [OF assms(1)] unfolding tg_chats_unique_def upd_view_def chat_clash_def
    by (auto split: if_splits)
  ultimately show "ok (set_codex_thread_id T i thread d)"
    "tb_view T (set_codex_thread_id T i thread d) = (tb_view T d)(i \<mapsto> c\<lparr>c_thread := thread\<rparr>)"
    unfolding set_codex_thread_id_def using update_ok [OF assms(1), of ?f ?p] update_view [OF assms(1), of ?f ?p] by simp_all
qed

end

lemma chat_clash_sym: "chat_clash r s \<Longrightarrow> chat_clash s r"
  by (auto simp: chat_clash_def)

interpretation chat_db_mem: chat_db "mem_table (sorted_wrt (\<lambda>r s. \<not> chat_clash r s))" "rows_ok c_id (sorted_wrt (\<lambda>r s. \<not> chat_clash r s))"
  unfolding chat_db_def tg_chats_unique_def
  by (rule mem_table_laws, rule pairwise_rows [OF chat_clash_sym])

section \<open>Properties\<close>

text \<open>
  The command \<open>/new\<close> forgets the thread. In a chat whose session this worker holds, when the transaction
  commits, the chat's stored thread is gone, every other chat's is as it was, the journal has
  the event, and the session stays.
\<close>

theorem new_forgets_thread:
  assumes "chat_db (ta_chats T) ok" "ok (wb_chats (gw_web w))" "get_session k so = Some (f, s)"
    and "tb_view (ta_chats T) (wb_chats (gw_web w)) (cs_chat s) = Some c" "te_ok e (gw_tick w)"
    and "on_new T e k so w = (r, w', so')"
  shows "tb_view (ta_chats T) (wb_chats (gw_web w')) = (tb_view (ta_chats T) (wb_chats (gw_web w)))(cs_chat s \<mapsto> c\<lparr>c_thread := None\<rparr>) \<and>
    wb_events (gw_web w') = wb_events (gw_web w) @ [(THREAD_RESET, JNull)] \<and> so' = so"
proof -
  let ?w1 = "snd (forget_thread T e s w)"
  have f: "fst (forget_thread T e s w) = Inr ()"
    "wb_chats (gw_web ?w1) = set_codex_thread_id (ta_chats T) (cs_chat s) None (wb_chats (gw_web w))"
    "wb_events (gw_web ?w1) = wb_events (gw_web w) @ [(THREAD_RESET, JNull)]"
    using assms(5) by (simp_all add: forget_thread_def transact_def then_do_def change_def on_web_def emit_row_def Let_def)
  have "w' = snd (say_text e NEW_THREAD ?w1)" "so' = so"
    using assms(3,6) f(1) by (auto simp: on_new_def answered_def then_do_def split: prod.splits sum.splits)
  with f chat_db.thread_update(2) [OF assms(1,2,4), of None] show ?thesis by (simp add: say_text_keeps)
qed

definition demo_new_tables :: "(chat_row rows, msg_row rows, turn_row rows) tables" where
  "demo_new_tables = demo_tables\<lparr>ta_chats := mem_table (sorted_wrt (\<lambda>r s. \<not> chat_clash r s))\<rparr>"

definition demo_new_chat :: chat_row where
  "demo_new_chat = (new_chat 1 SRC_TELEGRAM (Some 9) None 10 1)\<lparr>c_thread := Some ''thr''\<rparr>"

definition demo_new_world :: "(memz, turn_row rows, chat_row rows, msg_row rows, upload_row rows) tg_world" where
  "demo_new_world = on_web (\<lambda>W. W\<lparr>wb_chats := (2, [(1, demo_new_chat)])\<rparr>) demo_tg_world"

definition demo_new_sessions :: "tg_key session_store" where
  "demo_new_sessions = \<lparr>so_map = [((9, None), 0)], so_futs = [FutResolved demo_tg_session], so_tasks = []\<rparr>"

theorem new_forgets_thread_witness:
  "tb_view (ta_chats demo_new_tables) (wb_chats (gw_web (fst (snd (on_new demo_new_tables (demo_tg_env demo_rpc_env) (9, None) demo_new_sessions demo_new_world))))) 1
     = Some (demo_new_chat\<lparr>c_thread := None\<rparr>)"
proof -
  let ?r = "on_new demo_new_tables (demo_tg_env demo_rpc_env) (9, None) demo_new_sessions demo_new_world"
  have "chat_db (ta_chats demo_new_tables) (rows_ok c_id (sorted_wrt (\<lambda>r s. \<not> chat_clash r s)))"
    using chat_db_mem.chat_db_axioms by (simp add: demo_new_tables_def)
  moreover have "rows_ok c_id (sorted_wrt (\<lambda>r s. \<not> chat_clash r s)) (wb_chats (gw_web demo_new_world))"
    by (simp add: demo_new_world_def on_web_def rows_ok_def demo_new_chat_def new_chat_def)
  moreover have "get_session (9, None) demo_new_sessions = Some (0, demo_tg_session)"
    by (simp add: demo_new_sessions_def get_session_def)
  moreover have "tb_view (ta_chats demo_new_tables) (wb_chats (gw_web demo_new_world)) (cs_chat demo_tg_session) = Some demo_new_chat"
    by (simp add: demo_new_tables_def demo_new_world_def on_web_def mem_table_def rows_view_def demo_tg_session_def)
  moreover have "te_ok (demo_tg_env demo_rpc_env) (gw_tick demo_new_world)" by (simp add: demo_tg_env_def)
  moreover obtain r w' so' where r: "?r = (r, w', so')" by (metis surj_pair)
  ultimately have "tb_view (ta_chats demo_new_tables) (wb_chats (gw_web w')) =
      (tb_view (ta_chats demo_new_tables) (wb_chats (gw_web demo_new_world)))(1 \<mapsto> demo_new_chat\<lparr>c_thread := None\<rparr>)"
    using new_forgets_thread [of demo_new_tables _ demo_new_world "(9, None)" demo_new_sessions 0 demo_tg_session demo_new_chat]
    by (simp add: demo_tg_session_def)
  with r show ?thesis by simp
qed

section \<open>Where the commands fall short\<close>

text \<open>
  The sessions are those of one worker's memory. Without one, after a restart or in another
  worker, \<open>/new\<close> answers that a new thread will open and changes nothing, so the next message
  resumes the old thread; \<open>/stop\<close> finds no turn although one may be running.
\<close>

lemma new_without_session:
  assumes "get_session k so = None"
  shows "on_new T e k so w = answered so (say_text e NEW_THREAD w) \<and> gw_web (fst (snd (on_new T e k so w))) = gw_web w"
  using assms by (simp add: on_new_def answered_def say_text_keeps)

lemma stop_without_session:
  assumes "get_session k so = None"
  shows "gw_web (fst (snd (on_stop R T e running k so w))) = gw_web w \<and> gw_task (fst (snd (on_stop R T e running k so w))) = gw_task w"
  using assms by (simp add: on_stop_def answered_def say_text_keeps)

end
