(* ===== verification/Admin.thy ===== *)
theory Admin
  imports Rate_Limit
begin

text \<open>
  What an administrator does (\<open>rpc/admin.py\<close>), a user's
  own profile (\<open>rpc/user.py\<close>), the administrator's account at start-up (\<open>main.py\<close>) and the health
  probe (\<open>rpc/health.py\<close>), over the accounts of \<open>Accounts\<close>.
\<close>

section \<open>Messages\<close>

fun role_value :: "user_role \<Rightarrow> string" where
  "role_value ROLE_USER = ''USER''"
| "role_value ROLE_ADMIN = ''ADMIN''"

text \<open>The numbers of the protocol; 0 is unspecified, and an unknown number is a plain user.\<close>

definition role_of_pb :: "int \<Rightarrow> user_role" where
  "role_of_pb n = (if n = 2 then ROLE_ADMIN else ROLE_USER)"

fun role_to_pb :: "user_role \<Rightarrow> int" where
  "role_to_pb ROLE_USER = 1"
| "role_to_pb ROLE_ADMIN = 2"

record admin_user =
  am_id :: int
  am_role :: int
  am_email :: "string option"
  am_tg :: "int option"
  am_name :: "string option"

definition admin_user_to_pb :: "user_row \<Rightarrow> admin_user" where
  "admin_user_to_pb u = \<lparr>am_id = u_id u, am_role = role_to_pb (u_role u), am_email = u_email u, am_tg = u_tg u, am_name = u_name u\<rparr>"

record user_pb =
  um_id :: int
  um_role :: string
  um_tg :: "int option"
  um_email :: "string option"
  um_name :: "string option"

definition user_to_pb :: "user_row \<Rightarrow> user_pb" where
  "user_to_pb u = \<lparr>um_id = u_id u, um_role = role_value (u_role u), um_tg = u_tg u, um_email = u_email u, um_name = u_name u\<rparr>"

section \<open>The administrator's handlers\<close>

record create_user_request =
  cq_email :: string
  cq_password :: string
  cq_name :: string
  cq_role :: int

datatype admin_call =
    CallCreateInvite int
  | CallListInvites bool
  | CallRevokeInvite int
  | CallCreateUser create_user_request
  | CallListUsers
  | CallAddSshKey | CallListSshKeys | CallDeleteSshKey
  | CallAddApiToken | CallListApiTokens | CallDeleteApiToken

datatype admin_reply =
    RpInvite invite_row | RpInvites "invite_row list" | RpEmpty | RpUser admin_user | RpUsers "admin_user list"

datatype admin_refusal = AdCode rpc_code | AdUnimplemented string

text \<open>The transaction of \<open>create_user\<close>; the role, the name and the hash are one UPDATE.\<close>

definition create_user ::
  "(user_row, 'u) table \<Rightarrow> crypto \<Rightarrow> (string \<Rightarrow> string option) \<Rightarrow> create_user_request \<Rightarrow> 'u \<Rightarrow> (rpc_code + user_row) \<times> 'u" where
  "create_user U C valid_email q d =
     (case valid_email (py_lower (py_strip (cq_email q))) of
        None \<Rightarrow> (Inl INVALID_ARGUMENT, d)
      | Some email \<Rightarrow>
          if length (cq_password q) < 8 then (Inl INVALID_ARGUMENT, d)
          else
            let name = none_if_empty (py_strip (cq_name q));
                fill = fill_user (role_of_pb (cq_role q)) name (cr_hash C (cq_password q));
                finish = (\<lambda>r d1. (Inr (fill r), snd (tb_update U (\<lambda>x. u_id x = u_id r) fill d1)))
            in case get_by_email U email d of
                 Some r \<Rightarrow> if opt_truthy (u_hash r) then (Inl ALREADY_EXISTS, d) else finish r d
               | None \<Rightarrow>
                   (case get_or_create_by_email U email name d of
                      None \<Rightarrow> (Inl RPC_INTERNAL, d)
                    | Some (r, d1) \<Rightarrow> finish r d1))"

text \<open>\<open>token\<close> is what \<open>secrets.token_urlsafe\<close> returns, for a call that makes an invite.\<close>

definition admin_action ::
  "(user_row, 'u) table \<Rightarrow> (invite_row, 'v) table \<Rightarrow> crypto \<Rightarrow> (string \<Rightarrow> string option) \<Rightarrow> int \<Rightarrow> string \<Rightarrow> user_row \<Rightarrow> admin_call \<Rightarrow>
     'u \<times> 'v \<Rightarrow> (admin_refusal + admin_reply) \<times> 'u \<times> 'v" where
  "admin_action U V C valid_email now token admin c W =
     (case W of (du, dv) \<Rightarrow>
        (case c of
           CallCreateInvite ttl \<Rightarrow>
             (case create_invite V token (u_id admin) ttl now dv of
                None \<Rightarrow> (Inl (AdCode RPC_INTERNAL), du, dv)
              | Some (r, dv1) \<Rightarrow> (Inr (RpInvite r), du, dv1))
         | CallListInvites used \<Rightarrow> (Inr (RpInvites (if used then list_all_invites V dv else list_active V now dv)), du, dv)
         | CallRevokeInvite i \<Rightarrow>
             (case revoke V i dv of (False, _) \<Rightarrow> (Inl (AdCode RPC_NOT_FOUND), du, dv) | (True, dv1) \<Rightarrow> (Inr RpEmpty, du, dv1))
         | CallCreateUser q \<Rightarrow>
             (case create_user U C valid_email q du of
                (Inl code, du1) \<Rightarrow> (Inl (AdCode code), du1, dv)
              | (Inr r, du1) \<Rightarrow> (Inr (RpUser (admin_user_to_pb r)), du1, dv))
         | CallListUsers \<Rightarrow> (Inr (RpUsers (map admin_user_to_pb (list_all_users U du))), du, dv)
         | CallAddSshKey \<Rightarrow> (Inl (AdUnimplemented ''Use Settings > SSH keys''), du, dv)
         | CallListSshKeys \<Rightarrow> (Inl (AdUnimplemented ''Use Settings > SSH keys''), du, dv)
         | CallDeleteSshKey \<Rightarrow> (Inl (AdUnimplemented ''Use Settings > SSH keys''), du, dv)
         | CallAddApiToken \<Rightarrow> (Inl (AdUnimplemented ''Use Settings > Integrations''), du, dv)
         | CallListApiTokens \<Rightarrow> (Inl (AdUnimplemented ''Use Settings > Integrations''), du, dv)
         | CallDeleteApiToken \<Rightarrow> (Inl (AdUnimplemented ''Use Settings > Integrations''), du, dv)))"

definition admin_rpc ::
  "(user_row, 'u) table \<Rightarrow> (invite_row, 'v) table \<Rightarrow> crypto \<Rightarrow> auth_cfg \<Rightarrow> (string \<Rightarrow> string option) \<Rightarrow> int \<Rightarrow> string \<Rightarrow> string option \<Rightarrow>
     admin_call \<Rightarrow> 'u \<times> 'v \<Rightarrow> (admin_refusal + admin_reply) \<times> 'u \<times> 'v" where
  "admin_rpc U V C A valid_email now token cookie c W =
     (case require_admin U C A now cookie (fst W) of
        Inl code \<Rightarrow> (Inl (AdCode code), W)
      | Inr admin \<Rightarrow> admin_action U V C valid_email now token admin c W)"

section \<open>A user's own profile\<close>

definition me_rpc :: "(user_row, 'u) table \<Rightarrow> crypto \<Rightarrow> auth_cfg \<Rightarrow> int \<Rightarrow> string option \<Rightarrow> 'u \<Rightarrow> rpc_code + user_pb" where
  "me_rpc U C A now cookie d =
     (case require_user U C A now cookie d of Inl code \<Rightarrow> Inl code | Inr u \<Rightarrow> Inr (user_to_pb u))"

text \<open>
  \<open>update_me\<close> after it knows its user: \<open>merge\<close> copies every column of the row as it was read for
  the check of the session onto the row as it is now, in another transaction.
\<close>

definition merge_profile :: "(user_row, 'u) table \<Rightarrow> user_row \<Rightarrow> string option \<Rightarrow> 'u \<Rightarrow> user_pb \<times> 'u" where
  "merge_profile U user name d =
     (user_to_pb (user\<lparr>u_name := name\<rparr>),
      snd (tb_update U (\<lambda>x. u_id x = u_id user) (\<lambda>x. user\<lparr>u_id := u_id x, u_name := name\<rparr>) d))"

text \<open>\<open>between\<close> is what other transactions do to the table after the check.\<close>

definition update_me ::
  "(user_row, 'u) table \<Rightarrow> crypto \<Rightarrow> auth_cfg \<Rightarrow> int \<Rightarrow> string option \<Rightarrow> string \<Rightarrow> ('u \<Rightarrow> 'u) \<Rightarrow> 'u \<Rightarrow> (rpc_code + user_pb) \<times> 'u" where
  "update_me U C A now cookie name between d =
     (case require_user U C A now cookie d of
        Inl code \<Rightarrow> (Inl code, d)
      | Inr user \<Rightarrow> (case merge_profile U user (none_if_empty (py_strip name)) (between d) of (pb, d1) \<Rightarrow> (Inr pb, d1)))"

section \<open>The administrator's account at start-up\<close>

text \<open>\<open>None\<close> is an exception, with which start-up ends and nothing is committed.\<close>

definition sync_admin_account :: "(user_row, 'u) table \<Rightarrow> crypto \<Rightarrow> auth_cfg \<Rightarrow> string \<Rightarrow> 'u \<Rightarrow> 'u option" where
  "sync_admin_account U C A password d =
     (let email = py_lower (py_strip (au_admin_email A)) in
      if email = [] \<or> password = [] then Some d
      else case get_or_create_by_email U email None d of
        None \<Rightarrow> None
      | Some (r, d1) \<Rightarrow>
          (case verify_password C password (u_hash r) of
             None \<Rightarrow> None
           | Some good \<Rightarrow>
               let d2 = (if good then d1 else set_password_hash U (u_id r) (cr_hash C password) d1)
               in Some (if u_role r \<noteq> ROLE_ADMIN
                        then snd (tb_update U (\<lambda>x. u_id x = u_id r) (\<lambda>x. x\<lparr>u_role := ROLE_ADMIN\<rparr>) d2) else d2)))"

section \<open>The health probe\<close>

datatype probe_exn = PxDb | PxRedis | PxSocket | PxOS | PxTimeout | PxOther

definition suppressed :: "probe_exn set \<Rightarrow> probe_exn + bool \<Rightarrow> probe_exn + bool" where
  "suppressed caught r = (case r of Inl x \<Rightarrow> if x \<in> caught then Inr False else Inl x | Inr b \<Rightarrow> Inr b)"

definition probe_postgres :: "probe_exn + unit \<Rightarrow> probe_exn + bool" where
  "probe_postgres r = suppressed {PxDb, PxOS, PxTimeout} (map_sum id (\<lambda>_. True) r)"

definition probe_redis :: "probe_exn + bool \<Rightarrow> probe_exn + bool" where
  "probe_redis r = suppressed {PxRedis, PxOS, PxTimeout} r"

definition probe_codex_sidecar :: "probe_exn + unit \<Rightarrow> probe_exn + bool" where
  "probe_codex_sidecar r = suppressed {PxSocket, PxOS, PxTimeout} (map_sum id (\<lambda>_. True) r)"

text \<open>
  The task group: each probe ends after some milliseconds or never. The first exception ends the
  group with an exception; \<open>None\<close> is that exception leaving the handler.
\<close>

definition ended_by :: "nat \<Rightarrow> (nat \<times> (probe_exn + bool)) option \<Rightarrow> (probe_exn + bool) option" where
  "ended_by limit p = (case p of None \<Rightarrow> None | Some (t, r) \<Rightarrow> if t < limit then Some r else None)"

definition health_check ::
  "nat \<Rightarrow> (nat \<times> (probe_exn + unit)) option \<Rightarrow> (nat \<times> (probe_exn + bool)) option \<Rightarrow> (nat \<times> (probe_exn + unit)) option \<Rightarrow> bool option" where
  "health_check limit pg rd cx =
     (let ps = [map_option (map_prod id probe_postgres) pg, map_option (map_prod id probe_redis) rd,
                map_option (map_prod id probe_codex_sidecar) cx];
          rs = map (ended_by limit) ps
      in if \<exists>r \<in> set rs. case r of Some (Inl _) \<Rightarrow> True | _ \<Rightarrow> False then None
         else if None \<in> set rs then Some False
         else Some (\<forall>r \<in> set rs. r = Some (Inr True)))"

section \<open>Who can log in\<close>

text \<open>What the hasher and the token library promise, as far as it is used here.\<close>

definition hashes :: "crypto \<Rightarrow> bool" where
  "hashes C \<longleftrightarrow> (\<forall>p. cr_hash C p \<noteq> [] \<and> cr_verify C (cr_hash C p) p = Some True)"

definition honours :: "crypto \<Rightarrow> auth_cfg \<Rightarrow> int \<Rightarrow> int \<Rightarrow> string \<Rightarrow> bool" where
  "honours C A now t email \<longleftrightarrow>
     (let p = JObj [(''sub'', JStr email), (''iat'', JInt now), (''exp'', JInt (now + au_ttl_hours A * 3600))]
      in cr_decode C (au_secret A) t (cr_encode C (au_secret A) p) = Some p)"

text \<open>A row an account logs in with, and the session that follows.\<close>

definition logs_in :: "crypto \<Rightarrow> string \<Rightarrow> string \<Rightarrow> user_row \<Rightarrow> bool" where
  "logs_in C email password r \<longleftrightarrow> u_email r = Some email \<and> (\<exists>h. u_hash r = Some h \<and> h \<noteq> [] \<and> cr_verify C h password = Some True)"

context user_table
begin

lemma login_accepted:
  assumes "okU (ac_users st)" "tb_view U (ac_users st) (u_id r) = Some r" "logs_in C (py_lower (py_strip typed)) password r"
    and "fst (throttle_check Q (ae_check e) (client_ip (ae_addr e)) (ac_redis st)) = Passed"
    and "login Q U C A e typed password st = (res, st')"
  shows "res = Inr (session_for C A (ae_now e) (py_lower (py_strip typed)))" "okU (ac_users st')"
    "\<exists>h. tb_view U (ac_users st') (u_id r) = Some (r\<lparr>u_hash := h\<rparr>)"
proof -
  from assms(3) obtain h where h: "u_email r = Some (py_lower (py_strip typed))" "u_hash r = Some h" "h \<noteq> []" "cr_verify C h password = Some True"
    by (auto simp: logs_in_def)
  have g: "get_by_email U (py_lower (py_strip typed)) (ac_users st) = Some r"
    using email_select [OF assms(1)] assms(2) h(1) by simp
  obtain s where t: "throttle_check Q (ae_check e) (client_ip (ae_addr e)) (ac_redis st) = (Passed, s)"
    using assms(4) by (metis prod.collapse)
  let ?d = "if needs_rehash C (u_hash r) then set_password_hash U (u_id r) (cr_hash C password) (ac_users st) else ac_users st"
  have l: "res = Inr (session_for C A (ae_now e) (py_lower (py_strip typed)))" "ac_users st' = ?d"
    using assms(5) t g h(2-4) by (auto simp: login_def Let_def verify_password_def opt_truthy_def)
  have "okU (set_password_hash U (u_id r) x (ac_users st)) \<and>
      tb_view U (set_password_hash U (u_id r) x (ac_users st)) (u_id r) = Some (r\<lparr>u_hash := Some x\<rparr>)" for x
    unfolding set_password_hash_def
    using update_user [OF assms(1,2), of "\<lambda>r. r\<lparr>u_hash := Some x\<rparr>"] by simp
  with l(2) assms(1,2) h(2) have "okU (ac_users st') \<and> (\<exists>h. tb_view U (ac_users st') (u_id r) = Some (r\<lparr>u_hash := h\<rparr>))"
    by (cases "needs_rehash C (u_hash r)") (auto intro: exI [of _ "u_hash r"])
  with l(1) show "res = Inr (session_for C A (ae_now e) (py_lower (py_strip typed)))" "okU (ac_users st')"
    "\<exists>h. tb_view U (ac_users st') (u_id r) = Some (r\<lparr>u_hash := h\<rparr>)" by simp_all
qed

lemma session_known:
  assumes "okU d" "tb_view U d (u_id r) = Some r" "u_email r = Some email" "email \<noteq> []" "honours C A now t email"
  shows "require_user U C A t (Some (lr_token (session_for C A now email))) d = Inr r"
proof -
  have "validate_token C A t (lr_token (session_for C A now email)) = Inr email"
    using assms(4,5) by (simp add: validate_token_def session_for_def issue_token_def Let_def honours_def)
  moreover have "get_by_email U email d = Some r" using email_select [OF assms(1)] assms(2,3) by simp
  ultimately show ?thesis by (simp add: require_user_def jwt_subject_def)
qed

text \<open>An update that keeps a row's key and its unique columns, applied to a row that is there.\<close>

lemma filled:
  assumes "okU d" "tb_view U d (u_id r) = Some r"
  shows "okU (snd (tb_update U (\<lambda>x. u_id x = u_id r) (fill_user role name h) d))"
    "tb_view U (snd (tb_update U (\<lambda>x. u_id x = u_id r) (fill_user role name h) d)) = (tb_view U d)(u_id r \<mapsto> fill_user role name h r)"
  by (rule update_user [OF assms]; simp add: fill_user_def)+

lemma created_email:
  assumes "okU d" "get_or_create_by_email U e name d = Some (r, d')"
  shows "u_email r = Some e"
proof (cases "tb_insert U (new_user None (Some e) name ROLE_USER) d")
  case None
  with assms email_select [OF assms(1), of e r] show ?thesis by (auto simp: get_or_create_by_email_def)
next
  case (Some p)
  then obtain r0 d0 where p: "tb_insert U (new_user None (Some e) name ROLE_USER) d = Some (r0, d0)" by (cases p) auto
  have "\<And>k. u_id (new_user None (Some e) name ROLE_USER k) = k" by (simp add: new_user_def)
  from insert_some [OF assms(1) this p] p assms(2) have "r = new_user None (Some e) name ROLE_USER (u_id r)"
    by (simp add: get_or_create_by_email_def)
  then have "u_email r = u_email (new_user None (Some e) name ROLE_USER (u_id r))" by (rule arg_cong)
  then show ?thesis by (simp add: new_user_def)
qed

lemma create_user_ok:
  assumes "okU d" "create_user U C ve q d = (Inr r, d')" "hashes C"
  obtains email where "ve (py_lower (py_strip (cq_email q))) = Some email" "okU d'" "tb_view U d' (u_id r) = Some r"
    "u_role r = role_of_pb (cq_role q)" "logs_in C email (cq_password q) r"
proof -
  let ?fill = "fill_user (role_of_pb (cq_role q)) (none_if_empty (py_strip (cq_name q))) (cr_hash C (cq_password q))"
  from assms(2) obtain email where e: "ve (py_lower (py_strip (cq_email q))) = Some email"
    by (auto simp: create_user_def split: option.splits)
  from assms(2) e obtain r0 d0 where r0: "r = ?fill r0" "d' = snd (tb_update U (\<lambda>x. u_id x = u_id r0) ?fill d0)"
    and src: "get_by_email U email d = Some r0 \<and> d0 = d \<or> get_or_create_by_email U email (none_if_empty (py_strip (cq_name q))) d = Some (r0, d0)"
    by (auto simp: create_user_def Let_def split: option.splits if_splits)
  from src have v: "okU d0" "tb_view U d0 (u_id r0) = Some r0" "u_email r0 = Some email"
    using email_select [OF assms(1)] created_user [OF assms(1)] created_email [OF assms(1)] assms(1) by blast+
  have "u_id r = u_id r0" "u_role r = role_of_pb (cq_role q)" "u_email r = Some email" "u_hash r = Some (cr_hash C (cq_password q))"
    using v(3) by (simp_all add: r0(1) fill_user_def)
  with filled [OF v(1,2)] r0 e that assms(3) show thesis by (auto simp: logs_in_def hashes_def)
qed

lemma email_free:
  assumes "okU d" "get_by_email U e d = None"
  shows "\<exists>r d'. get_or_create_by_email U e name d = Some (r, d')"
proof (cases "tb_insert U (new_user None (Some e) name ROLE_USER) d")
  case None
  let ?mk = "new_user None (Some e) name ROLE_USER"
  have "\<And>k. u_id (?mk k) = k" by (simp add: new_user_def)
  from insert_none [OF assms(1) this None] obtain k where k: "tb_view U d k = None" "\<not> users_unique ((tb_view U d)(k \<mapsto> ?mk k))" by blast
  have "u_email x \<noteq> Some e" if "tb_view U d i = Some x" for i x
    using email_select [OF assms(1), of e x] assms(2) that pk_view [OF assms(1) that] by auto
  note free = this
  have "users_unique ((tb_view U d)(k \<mapsto> ?mk k))"
    unfolding users_unique_def
  proof (intro allI impI)
    fix i j r s
    assume v: "((tb_view U d)(k \<mapsto> ?mk k)) i = Some r" "((tb_view U d)(k \<mapsto> ?mk k)) j = Some s"
      and c: "(u_email r \<noteq> None \<and> u_email r = u_email s) \<or> (u_tg r \<noteq> None \<and> u_tg r = u_tg s)"
    show "i = j"
    proof (cases "i = k \<or> j = k")
      case True
      with v c free show ?thesis by (auto simp: new_user_def split: if_splits)
    next
      case False
      with v have "tb_view U d i = Some r" "tb_view U d j = Some s" by simp_all
      with uniq_view [OF assms(1)] c show ?thesis unfolding users_unique_def by blast
    qed
  qed
  with k(2) show ?thesis by simp
qed (auto simp: get_or_create_by_email_def)

end

context invite_table
begin

lemma token_select:
  assumes "okV d" "tb_view V d i = Some r"
  shows "get_by_token V (iv_token r) d = Some r"
proof -
  let ?rows = "tb_select V (\<lambda>x. iv_token x = iv_token r) d"
  have mem: "x \<in> set ?rows \<longleftrightarrow> tb_view V d (iv_id x) = Some x \<and> iv_token x = iv_token r" for x
    using select_set [OF assms(1)] pk_view [OF assms(1)] by auto
  have "x = r" if "x \<in> set ?rows" for x
    using that mem [of x] uniq_view [OF assms(1)] assms(2) unfolding tokens_unique_def by (metis option.inject)
  moreover have "r \<in> set ?rows" using mem [of r] pk_view [OF assms] assms(2) by simp
  ultimately obtain xs where "?rows = r # xs" by (metis list.set_cases list.set_intros(1))
  then show ?thesis by (simp add: get_by_token_def one_or_none_def)
qed

lemma created_invite:
  assumes "okV d" "create_invite V token creator ttl now d = Some (r, d')"
  shows "okV d'" "tb_view V d' (iv_id r) = Some r" "iv_token r = token" "iv_used r = None"
    "now + 86400 \<le> iv_expires r" "iv_expires r \<le> now + 30 * 86400"
proof -
  define days where "days = (if 0 < ttl \<and> ttl \<le> MAX_TTL_DAYS then ttl else DEFAULT_TTL_DAYS)"
  define mk where "mk = (\<lambda>k. \<lparr>iv_id = k, iv_token = token, iv_by = creator, iv_created = now, iv_expires = now + days * 86400,
    iv_used = None, iv_used_by = None\<rparr>)"
  have days: "1 \<le> days" "days \<le> 30" by (simp_all add: days_def MAX_TTL_DAYS_def DEFAULT_TTL_DAYS_def)
  have "tb_insert V mk d = Some (r, d')" using assms(2) by (simp add: create_invite_def Let_def mk_def days_def)
  moreover have "iv_id (mk k) = k" for k by (simp add: mk_def)
  ultimately have i: "okV d'" "r = mk (iv_id r)" "tb_view V d' = (tb_view V d)(iv_id r \<mapsto> r)"
    using insert_some [OF assms(1)] by blast+
  from i(2) obtain k where r: "r = mk k" by blast
  show "okV d'" "tb_view V d' (iv_id r) = Some r" using i by simp_all
  show "iv_token r = token" "iv_used r = None" by (simp_all add: r mk_def)
  show "now + 86400 \<le> iv_expires r" "iv_expires r \<le> now + 30 * 86400" using days by (simp_all add: r mk_def)
qed

end

lemma admin_passes:
  assumes "admin_rpc U V C A ve now token cookie c W = (Inr reply, W')"
  obtains admin where "require_admin U C A now cookie (fst W) = Inr admin"
    "admin_action U V C ve now token admin c W = (Inr reply, W')"
  using assms by (auto simp: admin_rpc_def split: sum.splits)

text \<open>Only an administrator's session gets more than a refusal, and only its calls change a table.\<close>

lemma admin_calls_guarded:
  assumes "admin_rpc U V C A ve now token cookie c W = (res, W')" "W' \<noteq> W \<or> isr_reply" "isr_reply \<longleftrightarrow> (\<exists>x. res = Inr x)"
  shows "\<exists>email user. jwt_subject C A now cookie = Inr email \<and> get_by_email U email (fst W) = Some user \<and> u_role user = ROLE_ADMIN"
  using assms by (auto simp: admin_rpc_def require_admin_def require_user_def split: sum.splits option.splits if_splits)

section \<open>Properties\<close>



definition demo_session_crypto :: crypto where
  "demo_session_crypto = \<lparr>cr_hash = (\<lambda>p. p @ ''#''), cr_verify = (\<lambda>h p. Some (h = p @ ''#'')), cr_rehash = (\<lambda>_. False),
     cr_encode = (\<lambda>k p. case p of JObj ((_, JStr sub) # _) \<Rightarrow> sub | _ \<Rightarrow> []),
     cr_decode = (\<lambda>k t r. if t < 86410 then Some (JObj [(''sub'', JStr r), (''iat'', JInt 10), (''exp'', JInt 86410)]) else None)\<rparr>"

definition demo_boss :: user_row where
  "demo_boss = (new_user None (Some ''b@x.io'') None ROLE_ADMIN 1)\<lparr>u_hash := Some ''boss#''\<rparr>"

definition demo_boss_users :: "user_row rows" where
  "demo_boss_users = (2, [(1, demo_boss)])"

definition demo_boss_invites :: "invite_row rows" where
  "demo_boss_invites = (1, [])"

definition demo_create :: create_user_request where
  "demo_create = \<lparr>cq_email = ''a@x.io'', cq_password = ''12345678'', cq_name = [], cq_role = 1\<rparr>"

lemma demo_boss_ok:
  "rows_ok u_id (sorted_wrt (\<lambda>r s. \<not> user_clash r s)) demo_boss_users"
  "rows_ok iv_id (sorted_wrt (\<lambda>r s. \<not> iv_token r = iv_token s)) demo_boss_invites"
  by (simp_all add: demo_boss_users_def demo_boss_invites_def rows_ok_def demo_boss_def new_user_def)

lemma demo_lower: "py_lower ''a@x.io'' = ''a@x.io''"
  by (simp add: py_lower_def lower_char_def)

lemma demo_admin: "require_admin user_mem demo_session_crypto demo_auth 10 (Some ''b@x.io'') demo_boss_users = Inr demo_boss"
  by (simp add: require_admin_def require_user_def jwt_subject_def validate_token_def demo_session_crypto_def get_by_email_def
      user_mem_def mem_table_def demo_boss_users_def demo_boss_def new_user_def one_or_none_def)

lemma demo_created:
  "fst (admin_rpc user_mem invite_mem demo_session_crypto demo_auth Some 10 [] (Some ''b@x.io'') (CallCreateUser demo_create)
     (demo_boss_users, demo_boss_invites)) = Inr (RpUser \<lparr>am_id = 2, am_role = 1, am_email = Some ''a@x.io'', am_tg = None, am_name = None\<rparr>)"
  unfolding admin_rpc_def fst_conv demo_admin sum.case
  by (simp add: admin_action_def create_user_def demo_create_def demo_lower get_by_email_def get_or_create_by_email_def
      user_mem_def mem_table_def demo_boss_users_def demo_boss_def new_user_def one_or_none_def Let_def admin_user_to_pb_def fill_user_def
      role_of_pb_def none_if_empty_def strip_by_def lstrip_by_def rstrip_by_def is_space_def py_lower_def lower_char_def opt_truthy_def user_clash_def)


definition demo_guest :: register_request where
  "demo_guest = \<lparr>rq_email = ''a@x.io'', rq_password = ''12345678'', rq_invite = ''inv'', rq_name = []\<rparr>"


section \<open>Where the handlers fall short\<close>

text \<open>
  Registration and \<open>create_user\<close> store the address as the validator normalises it, \<open>login\<close> looks
  for the address as it is typed: where the two differ, in the encoding of the domain, the owner
  who types the address as he registered it is refused and counted as a failure.
\<close>

lemma login_not_normalised:
  assumes "get_by_email U (py_lower (py_strip typed)) (ac_users st) = None"
    and "fst (throttle_check Q (ae_check e) (client_ip (ae_addr e)) (ac_redis st)) = Passed"
  shows "fst (login Q U C A e typed password st) = Inl UNAUTHENTICATED"
  using assms by (auto simp: login_def Let_def split: prod.splits)

context user_table
begin

lemma merged:
  assumes "okU d" "tb_view U d (u_id user) = Some r" "u_email r = u_email user" "u_tg r = u_tg user"
  shows "okU (snd (merge_profile U user name d))"
    "tb_view U (snd (merge_profile U user name d)) = (tb_view U d)(u_id user \<mapsto> user\<lparr>u_name := name\<rparr>)"
proof -
  let ?f = "\<lambda>x. user\<lparr>u_id := u_id x, u_name := name\<rparr>"
  have upd: "upd_view (\<lambda>x. u_id x = u_id user) ?f (tb_view U d) = (tb_view U d)(u_id user \<mapsto> user\<lparr>u_name := name\<rparr>)"
    using keyed_upd [OF assms(1), of ?f "u_id user" "\<lambda>_. True"] assms(2) pk_view [OF assms(1,2)] by simp
  have un: "users_unique (upd_view (\<lambda>x. u_id x = u_id user) ?f (tb_view U d))"
    unfolding upd by (rule users_unique_cong [OF uniq_view [OF assms(1)]]) (use assms(2-4) in \<open>auto split: if_splits\<close>)
  show "okU (snd (merge_profile U user name d))"
    "tb_view U (snd (merge_profile U user name d)) = (tb_view U d)(u_id user \<mapsto> user\<lparr>u_name := name\<rparr>)"
    using update_ok [OF assms(1) _ un] update_view [OF assms(1) _ un] upd by (simp_all add: merge_profile_def)
qed

text \<open>
  \<open>update_me\<close> writes back the whole row as it was read: what another transaction changed in
  between, such as the role or the password, is undone.
\<close>

lemma update_me_overwrites:
  assumes "okU d" "require_user U C A now cookie d = Inr user"
    and "okU (between d)" "tb_view U (between d) (u_id user) = Some r" "u_email r = u_email user" "u_tg r = u_tg user"
  shows "tb_view U (snd (update_me U C A now cookie name between d)) =
    (tb_view U (between d))(u_id user \<mapsto> user\<lparr>u_name := none_if_empty (py_strip name)\<rparr>)"
proof -
  have "snd (update_me U C A now cookie name between d) = snd (merge_profile U user (none_if_empty (py_strip name)) (between d))"
    using assms(2) by (simp add: update_me_def split: prod.splits)
  with merged(2) [OF assms(3-6)] show ?thesis by simp
qed

text \<open>After start-up the configured administrator is one, and logs in with the configured password.\<close>

lemma admin_logs_in:
  assumes "okU d" "hashes C" "sync_admin_account U C A password d = Some d'" "password \<noteq> []"
    and "py_lower (py_strip (au_admin_email A)) = email" "email \<noteq> []"
  shows "\<exists>r. okU d' \<and> tb_view U d' (u_id r) = Some r \<and> logs_in C email password r \<and> u_role r = ROLE_ADMIN"
proof -
  from assms(3-6) obtain r d1 good where r: "get_or_create_by_email U email None d = Some (r, d1)" "verify_password C password (u_hash r) = Some good"
    and d': "d' = (let d2 = (if good then d1 else set_password_hash U (u_id r) (cr_hash C password) d1)
      in if u_role r \<noteq> ROLE_ADMIN then snd (tb_update U (\<lambda>x. u_id x = u_id r) (\<lambda>x. x\<lparr>u_role := ROLE_ADMIN\<rparr>) d2) else d2)"
    by (auto simp: sync_admin_account_def Let_def split: option.splits)
  note c = created_user [OF assms(1) r(1)] created_email [OF assms(1) r(1)]
  define r2 where "r2 = (if good then r else r\<lparr>u_hash := Some (cr_hash C password)\<rparr>)"
  define d2 where "d2 = (if good then d1 else set_password_hash U (u_id r) (cr_hash C password) d1)"
  have id: "u_id r2 = u_id r" "u_role r2 = u_role r" by (simp_all add: r2_def)
  have "okU d2 \<and> tb_view U d2 (u_id r2) = Some r2"
    using c update_user [of d1 "u_id r" r "\<lambda>x. x\<lparr>u_hash := Some (cr_hash C password)\<rparr>"]
    by (simp add: d2_def r2_def set_password_hash_def)
  moreover have l: "logs_in C email password r2"
    using r(2) c(2) assms(2) by (auto simp: logs_in_def r2_def hashes_def verify_password_def opt_truthy_def split: if_splits)
  moreover have "logs_in C email password (r2\<lparr>u_role := ROLE_ADMIN\<rparr>)" using l by (simp add: logs_in_def)
  moreover have "d' = (if u_role r2 \<noteq> ROLE_ADMIN then snd (tb_update U (\<lambda>x. u_id x = u_id r2) (\<lambda>x. x\<lparr>u_role := ROLE_ADMIN\<rparr>) d2) else d2)"
    using d' id by (simp add: d2_def Let_def)
  ultimately show ?thesis
    using update_user [of d2 "u_id r2" r2 "\<lambda>x. x\<lparr>u_role := ROLE_ADMIN\<rparr>"] by (cases "u_role r2 = ROLE_ADMIN") (auto intro: exI [of _ "r2\<lparr>u_role := ROLE_ADMIN\<rparr>"])
qed

end

lemma ran_true: "map_sum id (\<lambda>_. True) r = Inr True \<longleftrightarrow> r = Inr ()"
  by (cases r) auto

text \<open>
  The probe answers SERVING exactly when all three answered in time that they are well. An
  exception that a probe does not expect leaves the handler, which catches the time-out only.
\<close>

lemma health_serving:
  "health_check limit pg rd cx = Some True \<longleftrightarrow>
     (\<exists>a b c. pg = Some (a, Inr ()) \<and> rd = Some (b, Inr True) \<and> cx = Some (c, Inr ()) \<and> a < limit \<and> b < limit \<and> c < limit)"
  by (auto simp: health_check_def Let_def ended_by_def probe_postgres_def probe_redis_def probe_codex_sidecar_def suppressed_def ran_true
      split: option.splits sum.splits if_splits)

lemma health_bug_raises:
  assumes "t < limit"
  shows "health_check limit (Some (t, Inl PxOther)) rd cx = None"
  using assms by (simp add: health_check_def Let_def ended_by_def probe_postgres_def suppressed_def)

end
