(* ===== verification/Settings_Api.thy ===== *)
theory Settings_Api
  imports Admin Vault Turn_Service
begin

text \<open>
  The endpoints of \<open>api/settings/router.py\<close> beside those of the integrations (\<open>Vault\<close>) and of the
  Telegram chats (\<open>Tg_Registry\<close>): the users with their last turn, and the limits.
\<close>

section \<open>The users\<close>

record dated_turn = turn_row +
  t_created :: int

record user_profile =
  pr_id :: string
  pr_tgname :: "string option"
  pr_active :: "int option"

definition last_turn :: "(dated_turn, 'd) table \<Rightarrow> int \<Rightarrow> 'd \<Rightarrow> int option" where
  "last_turn D user d =
     (case map t_created (tb_select D (\<lambda>t. t_user t = user) d) of [] \<Rightarrow> None | ts \<Rightarrow> Some (Max (set ts)))"

definition list_profiles :: "(user_row, 'u) table \<Rightarrow> (dated_turn, 'd) table \<Rightarrow> 'u \<Rightarrow> 'd \<Rightarrow> user_profile list" where
  "list_profiles U D du dt =
     map (\<lambda>u. \<lparr>pr_id = str_of_int (u_id u), pr_tgname = u_tgname u, pr_active = last_turn D (u_id u) dt\<rparr>) (list_all_users U du)"

section \<open>The endpoints\<close>

datatype limits_call = ScUsers | ScLimits | ScUpdateLimits runtime_settings

datatype limits_reply = SrUsers "user_profile list" | SrLimits runtime_settings

text \<open>
  The row of limits and this worker's memory of it; an answer that is no RuntimeSettings, a row
  with an impossible value, is a 500.
\<close>

definition limits_endpoint ::
  "(user_row, 'u) table \<Rightarrow> (dated_turn, 'd) table \<Rightarrow> crypto \<Rightarrow> auth_cfg \<Rightarrow> settings_row \<Rightarrow> int \<Rightarrow> int \<Rightarrow> string option \<Rightarrow> string option \<Rightarrow>
     'u \<Rightarrow> 'd \<Rightarrow> limits_call \<Rightarrow> settings_row option \<times> settings_cache \<Rightarrow> (nat + limits_reply) \<times> settings_row option \<times> settings_cache" where
  "limits_endpoint U D C A fresh ttl now header cookie du dt c W =
     (case admin_session C A U now (case c of ScUpdateLimits _ \<Rightarrow> False | _ \<Rightarrow> True) header cookie du of
        Inl status \<Rightarrow> (Inl status, W)
      | Inr _ \<Rightarrow>
          (case c of
             ScUsers \<Rightarrow> (Inr (SrUsers (list_profiles U D du dt)), W)
           | ScLimits \<Rightarrow> (case load_settings (fst W) of None \<Rightarrow> (Inl 500, W) | Some s \<Rightarrow> (Inr (SrLimits s), W))
           | ScUpdateLimits s \<Rightarrow> (Inr (SrLimits s), Some (save_settings fresh s (fst W)), remember ttl now s)))"

section \<open>What the limits endpoints do\<close>

definition valid_settings :: "runtime_settings \<Rightarrow> bool" where
  "valid_settings s \<longleftrightarrow> 0 \<le> tl_active (rs_web s) \<and> 0 \<le> tl_hourly (rs_web s) \<and> 0 \<le> tl_active (rs_guest s) \<and>
     0 \<le> tl_hourly (rs_guest s) \<and> 0 \<le> rs_upload_mb s \<and> rs_upload_mb s \<le> TG_BOT_API_DOWNLOAD_LIMIT_MB"

lemma saved_limits_load:
  assumes "valid_settings s"
  shows "load_settings (Some (save_settings fresh s row)) = Some s"
  using assms by (simp add: valid_settings_def load_settings_def save_settings_def apply_to_def from_row_def
      turn_limits_model_def settings_model_def split: option.splits)

text \<open>
  After an update every worker reads the new limits from the table, this one at once; another
  one, until its memory of the old ones has expired, goes on with those.
\<close>

lemma limits_updated:
  assumes "limits_endpoint U D C A fresh ttl now header cookie du dt (ScUpdateLimits s) (row, c) = (Inr reply, row', c')"
    and "valid_settings s" "0 < ttl"
  shows "header = Some ''1'' \<and> reply = SrLimits s \<and> load_settings row' = Some s \<and> fst (get_settings ttl now row' c') = Some s"
proof -
  from assms(1) have "header = Some ''1''" "reply = SrLimits s" "row' = Some (save_settings fresh s row)" "c' = remember ttl now s"
    by (auto simp: limits_endpoint_def admin_session_def split: sum.splits option.splits if_splits)
  with saved_limits_load [OF assms(2)] assms(3) show ?thesis by (simp add: get_settings_def remember_def)
qed

lemma other_worker_lags:
  assumes "ca_value c = Some old" "now < ca_expires c"
  shows "fst (get_settings ttl now row c) = Some old"
  using assms by (simp add: get_settings_def)

text \<open>The profile shows the newest turn of its user, whatever order the table returns them in.\<close>

lemma last_turn_newest:
  assumes "table_laws D t_id uniq ok" "ok dt"
  shows "case last_turn D user dt of
      None \<Rightarrow> \<forall>k t. tb_view D dt k = Some t \<longrightarrow> t_user t \<noteq> user
    | Some w \<Rightarrow> (\<exists>k t. tb_view D dt k = Some t \<and> t_user t = user \<and> t_created t = w) \<and>
        (\<forall>k t. tb_view D dt k = Some t \<longrightarrow> t_user t = user \<longrightarrow> t_created t \<le> w)"
proof -
  let ?rows = "tb_select D (\<lambda>t. t_user t = user) dt"
  have mem: "t \<in> set ?rows \<longleftrightarrow> (\<exists>k. tb_view D dt k = Some t) \<and> t_user t = user" for t
    using table_laws.select_set [OF assms] by auto
  show ?thesis
  proof (cases "?rows = []")
    case True
    with mem show ?thesis by (auto simp: last_turn_def)
  next
    case False
    then have l: "last_turn D user dt = Some (Max (t_created ` set ?rows))" by (auto simp: last_turn_def neq_Nil_conv)
    have "Max (t_created ` set ?rows) \<in> t_created ` set ?rows" using False by (intro Max_in) auto
    then obtain t where t: "t \<in> set ?rows" "t_created t = Max (t_created ` set ?rows)" by auto
    have le: "t_created s \<le> Max (t_created ` set ?rows)" if "tb_view D dt k = Some s" "t_user s = user" for k s
      using that mem [of s] by (intro Max_ge) auto
    from t(1) mem obtain k where k: "tb_view D dt k = Some t" "t_user t = user" by blast
    show ?thesis unfolding l option.case
    proof (intro conjI allI impI)
      show "\<exists>k t. tb_view D dt k = Some t \<and> t_user t = user \<and> t_created t = Max (t_created ` set ?rows)"
        using k t(2) by blast
    qed (rule le)
  qed
qed

end
