(* ===== verification/Mcp_Tools.thy ===== *)
theory Mcp_Tools
  imports Codex_Usage Notes Tg_Progress Py_Text
begin

text \<open>
  Who calls a tool, and what the tools beside those of the notes do: the identity a thread
  carries in a signed header (\<open>services/mcp_authz\<close>), its check (\<open>mcp/authz.py\<close>), and the tools of
  \<open>mcp/tools/show_image.py\<close> and \<open>mcp/tools/errors.py\<close>. The signature is that of \<open>crypto\<close>; the
  answers of the error tracker are parameters.
\<close>

section \<open>The identity of a thread\<close>

definition AUTHZ_HEADER :: string where
  "AUTHZ_HEADER = ''X-Codex-Authz''"

definition MCP_ISSUER :: string where
  "MCP_ISSUER = ''codex-server''"

record mcp_claims =
  cl_user :: int
  cl_chat :: int
  cl_sidecar :: sidecar_name
  cl_iat :: int

datatype mcp_role = McpAdmin | McpUser

record mcp_identity =
  mi_user :: int
  mi_chat :: int
  mi_role :: mcp_role

definition mcp_payload :: "int \<Rightarrow> int \<Rightarrow> int \<Rightarrow> sidecar_name \<Rightarrow> json" where
  "mcp_payload now user chat sc = JObj [(''iss'', JStr MCP_ISSUER), (''user_id'', JInt user), (''chat_id'', JInt chat),
     (''sidecar'', JStr (sidecar_value sc)), (''iat'', JInt now)]"

definition mcp_issue :: "crypto \<Rightarrow> string \<Rightarrow> int \<Rightarrow> int \<Rightarrow> int \<Rightarrow> sidecar_name \<Rightarrow> string" where
  "mcp_issue C secret now user chat sc = cr_encode C secret (mcp_payload now user chat sc)"

definition sidecar_field :: "json \<Rightarrow> sidecar_name py" where
  "sidecar_field j =
     (case Option.bind (as_str j) sidecar_of_value of None \<Rightarrow> Inl (ValidationError ''enum'') | Some sc \<Rightarrow> Inr sc)"

text \<open>\<open>McpAuthzClaims.model_validate\<close>; \<open>toint\<close> is the library's coercion to an integer.\<close>

definition claims_model :: "(json \<Rightarrow> int option) \<Rightarrow> (string \<times> json) list \<Rightarrow> mcp_claims py" where
  "claims_model toint kv =
     bind_py (forbid_extra [''user_id'', ''chat_id'', ''sidecar'', ''iat''] kv) (\<lambda>_.
     bind_py (required kv ''user_id'') (\<lambda>u. bind_py (coerced toint u) (\<lambda>user.
     bind_py (required kv ''chat_id'') (\<lambda>c. bind_py (coerced toint c) (\<lambda>chat.
     bind_py (required kv ''sidecar'') (\<lambda>s. bind_py (sidecar_field s) (\<lambda>sc.
     bind_py (required kv ''iat'') (\<lambda>i. bind_py (coerced toint i) (\<lambda>iat.
     Inr \<lparr>cl_user = user, cl_chat = chat, cl_sidecar = sc, cl_iat = iat\<rparr>)))))))))"

text \<open>\<open>jwt.decode\<close> also compares the issuer; an error is the message of the exception.\<close>

definition mcp_verify :: "crypto \<Rightarrow> (json \<Rightarrow> int option) \<Rightarrow> string \<Rightarrow> int \<Rightarrow> string \<Rightarrow> string + mcp_claims" where
  "mcp_verify C toint secret now token =
     (case cr_decode C secret now token of
        Some (JObj kv) \<Rightarrow>
          if jget kv ''iss'' \<noteq> Some (JStr MCP_ISSUER) then Inl ''invalid_authz''
          else (case claims_model toint (filter (\<lambda>p. fst p \<noteq> ''iss'') kv) of Inl _ \<Rightarrow> Inl ''malformed_claims'' | Inr c \<Rightarrow> Inr c)
      | _ \<Rightarrow> Inl ''invalid_authz'')"

definition mcp_resolve :: "(user_row, 'u) table \<Rightarrow> mcp_claims \<Rightarrow> 'u \<Rightarrow> string + mcp_identity" where
  "mcp_resolve U c d =
     (case get_user U (cl_user c) d of
        None \<Rightarrow> Inl ''unknown_user''
      | Some u \<Rightarrow> Inr \<lparr>mi_user = u_id u, mi_chat = cl_chat c,
          mi_role = (if u_role u = ROLE_ADMIN \<and> cl_sidecar c = AdminSidecar then McpAdmin else McpUser)\<rparr>)"

definition mcp_thread_config :: "string \<Rightarrow> json" where
  "mcp_thread_config token = JObj [(''mcp_servers.codex_app'', JObj [(''http_headers'', JObj [(AUTHZ_HEADER, JStr token)])])]"

text \<open>The headers of a request, whose names HTTP compares without case.\<close>

definition require_claims :: "crypto \<Rightarrow> (json \<Rightarrow> int option) \<Rightarrow> string \<Rightarrow> int \<Rightarrow> (string \<times> string) list \<Rightarrow> string + mcp_claims" where
  "require_claims C toint secret now headers =
     (case find (\<lambda>(k, v). py_lower k = py_lower AUTHZ_HEADER) headers of
        None \<Rightarrow> Inl ''header missing''
      | Some (k, token) \<Rightarrow> if token = [] then Inl ''header missing'' else mcp_verify C toint secret now token)"

definition require_identity ::
  "crypto \<Rightarrow> (json \<Rightarrow> int option) \<Rightarrow> string \<Rightarrow> (user_row, 'u) table \<Rightarrow> int \<Rightarrow> (string \<times> string) list \<Rightarrow> 'u \<Rightarrow> string + mcp_identity" where
  "require_identity C toint secret U now headers d =
     (case require_claims C toint secret now headers of Inl e \<Rightarrow> Inl e | Inr c \<Rightarrow> mcp_resolve U c d)"

section \<open>Tools\<close>

text \<open>An error the framework hands to the model, or another exception.\<close>

datatype tool_exn = ToolError string | ToolCrash string

record image_delivery =
  im_path :: string
  im_filename :: string
  im_caption :: "string option"
  im_delivered :: bool

text \<open>The framework refuses a caption of more than 500 characters before the tool runs.\<close>

definition show_image :: "file_system \<Rightarrow> string + mcp_identity \<Rightarrow> string \<Rightarrow> string option \<Rightarrow> tool_exn + image_delivery" where
  "show_image F caller path caption =
     (if caption \<noteq> None \<and> 500 < length (the caption) then Inl (ToolError ''caption'')
      else case caller of
        Inl e \<Rightarrow> Inl (ToolError e)
      | Inr _ \<Rightarrow>
          (case resolve_trusted_local_path F path of
             None \<Rightarrow> Inl (ToolError (''file_not_found_or_untrusted: '' @ path))
           | Some p \<Rightarrow> Inr \<lparr>im_path = p, im_filename = path_name p, im_caption = caption, im_delivered = True\<rparr>))"

section \<open>The error tracker\<close>

text \<open>Its answers: \<open>Inl\<close> is an \<open>HTTPError\<close>.\<close>

record tracker =
  bs_projects :: "string + json"
  bs_issues :: "int \<Rightarrow> string + json"
  bs_events :: "string \<Rightarrow> string + json"
  bs_event :: "json \<Rightarrow> string + json"
  bs_int :: "json \<Rightarrow> int option"
  bs_bool :: "json \<Rightarrow> bool option"

record issue_summary =
  es_id :: string
  es_type :: "string option"
  es_message :: "string option"
  es_events :: "int option"
  es_last_seen :: "string option"
  es_resolved :: "bool option"

definition issue_in :: "tracker \<Rightarrow> json \<Rightarrow> issue_summary py" where
  "issue_in B j =
     bind_py (obj_field j) (\<lambda>kv. bind_py (required kv ''id'') (\<lambda>i. bind_py (str_field i) (\<lambda>ident.
     bind_py (with_default opt_str_field None kv ''calculated_type'') (\<lambda>ty.
     bind_py (with_default opt_str_field None kv ''calculated_value'') (\<lambda>msg.
     bind_py (with_default (nullable (coerced (bs_int B))) None kv ''stored_event_count'') (\<lambda>events.
     bind_py (with_default opt_str_field None kv ''last_seen'') (\<lambda>seen.
     bind_py (with_default (nullable (coerced (bs_bool B))) None kv ''is_resolved'') (\<lambda>resolved.
     Inr \<lparr>es_id = ident, es_type = ty, es_message = msg, es_events = events, es_last_seen = seen, es_resolved = resolved\<rparr>))))))))"

text \<open>What a call with the framework's own exceptions makes of a Python one.\<close>

definition crash :: "'a py \<Rightarrow> tool_exn + 'a" where
  "crash m = (case m of Inl e \<Rightarrow> Inl (ToolCrash ''exception'') | Inr x \<Rightarrow> Inr x)"

definition bind_tool :: "tool_exn + 'a \<Rightarrow> ('a \<Rightarrow> tool_exn + 'b) \<Rightarrow> tool_exn + 'b" where
  "bind_tool m k = (case m of Inl e \<Rightarrow> Inl e | Inr x \<Rightarrow> k x)"

lemma bind_tool_Inr: "bind_tool m k = Inr y \<longleftrightarrow> (\<exists>x. m = Inr x \<and> k x = Inr y)"
  by (cases m) (simp_all add: bind_tool_def)

text \<open>\<open>int(v)\<close> on a value of JSON.\<close>

definition int_of_json :: "json \<Rightarrow> int py" where
  "int_of_json j =
     (case j of
        JInt i \<Rightarrow> Inr i
      | JBool b \<Rightarrow> Inr (if b then 1 else 0)
      | JFloat r \<Rightarrow> Inr (if 0 \<le> r then \<lfloor>r\<rfloor> else - \<lfloor>- r\<rfloor>)
      | JStr s \<Rightarrow> (case py_int s of None \<Rightarrow> Inl (ValidationError s) | Some i \<Rightarrow> Inr i)
      | _ \<Rightarrow> Inl (TypeError ''int''))"

fun find_project :: "string \<Rightarrow> json list \<Rightarrow> json option py" where
  "find_project slug [] = Inr None"
| "find_project slug (p # ps) =
     bind_py (get_none p ''slug'') (\<lambda>s. bind_py (get_none p ''name'') (\<lambda>n.
       if JStr slug \<in> {s, n} then Inr (Some p) else find_project slug ps))"

text \<open>\<open>_resolve_project_id\<close>, with the worker's cache of the ids it has found.\<close>

definition resolve_project_id :: "tracker \<Rightarrow> string option \<Rightarrow> (string option \<times> int) list \<Rightarrow> (tool_exn + int) \<times> (string option \<times> int) list" where
  "resolve_project_id B slug cache =
     (case map_of cache slug of
        Some i \<Rightarrow> (Inr i, cache)
      | None \<Rightarrow>
          (case bs_projects B of
             Inl e \<Rightarrow> (Inl (ToolError (''bugsink_api_error: '' @ e)), cache)
           | Inr body \<Rightarrow>
               (case bind_tool (crash (get_or body ''results'' (JList []))) (\<lambda>projects.
                       if \<not> truthy projects then Inl (ToolError ''no_bugsink_projects_configured'')
                       else bind_tool (crash (case projects of JList ps \<Rightarrow> Inr ps | _ \<Rightarrow> Inl (TypeError ''results''))) (\<lambda>ps.
                         case slug of
                           None \<Rightarrow> crash (bind_py (get_item (hd ps) ''id'') int_of_json)
                         | Some s \<Rightarrow> bind_tool (crash (find_project s ps)) (\<lambda>m.
                             case m of
                               None \<Rightarrow> Inl (ToolError (''project_not_found: '' @ s))
                             | Some p \<Rightarrow> crash (bind_py (get_item p ''id'') int_of_json)))) of
                  Inl e \<Rightarrow> (Inl e, cache)
                | Inr i \<Rightarrow> (Inr i, cache @ [(slug, i)]))))"

definition require_tool_admin :: "string + mcp_identity \<Rightarrow> tool_exn + unit" where
  "require_tool_admin caller =
     (case caller of
        Inl e \<Rightarrow> Inl (ToolError e)
      | Inr i \<Rightarrow> if mi_role i \<noteq> McpAdmin then Inl (ToolError ''error tools are available to the administrator only'') else Inr ())"

text \<open>The framework refuses a limit outside 1 to 100. A slice of a value that is no list raises.\<close>

definition list_errors ::
  "tracker \<Rightarrow> string + mcp_identity \<Rightarrow> string option \<Rightarrow> int \<Rightarrow> (string option \<times> int) list \<Rightarrow>
     (tool_exn + issue_summary list) \<times> (string option \<times> int) list" where
  "list_errors B caller slug limit cache =
     (if limit < 1 \<or> 100 < limit then (Inl (ToolError ''limit''), cache)
      else case require_tool_admin caller of
        Inl e \<Rightarrow> (Inl e, cache)
      | Inr _ \<Rightarrow>
          (case resolve_project_id B slug cache of
             (Inl e, cache1) \<Rightarrow> (Inl e, cache1)
           | (Inr project, cache1) \<Rightarrow>
               (case bs_issues B project of
                  Inl e \<Rightarrow> Inl (ToolError (''bugsink_api_error: '' @ e))
                | Inr body \<Rightarrow>
                    crash (bind_py (get_or body ''results'' (JList [])) (\<lambda>r.
                      bind_py (case r of JList xs \<Rightarrow> Inr (take (nat limit) xs) | _ \<Rightarrow> Inl (TypeError ''slice'')) (map_py (issue_in B)))), cache1)))"

record event_detail =
  ed_issue :: string
  ed_event :: string
  ed_timestamp :: "string option"
  ed_stacktrace :: string
  ed_platform :: "string option"
  ed_level :: "string option"
  ed_logger :: "string option"
  ed_environment :: "string option"
  ed_release :: "string option"
  ed_transaction :: "string option"
  ed_tags :: json

definition tags_field :: "json \<Rightarrow> json py" where
  "tags_field j = (case j of JNull \<Rightarrow> Inr JNull | JObj kv \<Rightarrow> Inr j | JList xs \<Rightarrow> Inr j | _ \<Rightarrow> Inl (ValidationError ''tags''))"

definition event_out :: "string \<Rightarrow> json \<Rightarrow> event_detail py" where
  "event_out issue detail =
     bind_py (get_none detail ''data'') (\<lambda>d0. let data = or_else d0 (JObj []) in
     bind_py (get_item detail ''id'') (\<lambda>i. bind_py (get_none detail ''timestamp'') (\<lambda>t.
     bind_py (get_or detail ''stacktrace_md'' (JStr [])) (\<lambda>st.
     bind_py (get_none data ''platform'') (\<lambda>p. bind_py (get_none data ''level'') (\<lambda>l. bind_py (get_none data ''logger'') (\<lambda>lg.
     bind_py (get_none data ''environment'') (\<lambda>e. bind_py (get_none data ''release'') (\<lambda>r. bind_py (get_none data ''transaction'') (\<lambda>tr.
     bind_py (get_none data ''tags'') (\<lambda>tg.
     bind_py (str_field i) (\<lambda>ident. bind_py (opt_str_field t) (\<lambda>ts. bind_py (str_field st) (\<lambda>stack.
     bind_py (opt_str_field p) (\<lambda>platform. bind_py (opt_str_field l) (\<lambda>level. bind_py (opt_str_field lg) (\<lambda>logger.
     bind_py (opt_str_field e) (\<lambda>env. bind_py (opt_str_field r) (\<lambda>release. bind_py (opt_str_field tr) (\<lambda>trans.
     bind_py (tags_field tg) (\<lambda>tags.
     Inr \<lparr>ed_issue = issue, ed_event = ident, ed_timestamp = ts, ed_stacktrace = stack, ed_platform = platform, ed_level = level,
          ed_logger = logger, ed_environment = env, ed_release = release, ed_transaction = trans, ed_tags = tags\<rparr>)))))))))))))))))))))"

text \<open>The second request is outside of the handler of \<open>HTTPError\<close>.\<close>

definition get_error :: "tracker \<Rightarrow> string + mcp_identity \<Rightarrow> string \<Rightarrow> tool_exn + event_detail" where
  "get_error B caller issue =
     (case require_tool_admin caller of
        Inl e \<Rightarrow> Inl e
      | Inr _ \<Rightarrow>
          (case bs_events B issue of
             Inl e \<Rightarrow> Inl (ToolError (''bugsink_api_error: '' @ e))
           | Inr events \<Rightarrow>
               bind_tool (crash (get_or events ''results'' (JList []))) (\<lambda>results.
                 if \<not> truthy results then Inl (ToolError (''no_events_for_issue: '' @ issue))
                 else bind_tool (crash (case results of JList (x # xs) \<Rightarrow> get_item x ''id'' | _ \<Rightarrow> Inl (TypeError ''results''))) (\<lambda>i.
                   case bs_event B i of
                     Inl e \<Rightarrow> Inl (ToolCrash e)
                   | Inr detail \<Rightarrow> crash (event_out issue detail)))))"

section \<open>Lemmas\<close>

lemma sidecar_round_trip [simp]: "sidecar_field (JStr (sidecar_value sc)) = Inr sc"
  by (cases sc) (simp_all add: sidecar_field_def sidecar_of_value_def)

lemma verify_issued:
  assumes "cr_decode C secret t (mcp_issue C secret now user chat sc) = Some (mcp_payload now user chat sc)" "\<And>n. toint (JInt n) = Some n"
  shows "mcp_verify C toint secret t (mcp_issue C secret now user chat sc) = Inr \<lparr>cl_user = user, cl_chat = chat, cl_sidecar = sc, cl_iat = now\<rparr>"
  using assms by (simp add: mcp_verify_def mcp_payload_def claims_model_def forbid_extra_def required_def coerced_def)

text \<open>The headers the sidecar adds to the requests of a thread with this configuration.\<close>

definition thread_headers :: "json \<Rightarrow> (string \<times> string) list" where
  "thread_headers config =
     (case bind_py (get_item config ''mcp_servers.codex_app'') (\<lambda>m. get_item m ''http_headers'') of
        Inr (JObj kv) \<Rightarrow> List.map_filter (\<lambda>(k, v). map_option (Pair k) (as_str v)) kv
      | _ \<Rightarrow> [])"

lemma headers_of_config [simp]: "thread_headers (mcp_thread_config token) = [(AUTHZ_HEADER, token)]"
  by (simp add: thread_headers_def mcp_thread_config_def map_filter_simps)

text \<open>
  A call made in the thread of a turn is a call of the turn's user in the turn's chat, and an
  administrator's only if the table says so now and the thread is the administrator's sidecar's.
\<close>

lemma thread_identity:
  assumes "cr_decode C secret t (mcp_issue C secret now user chat sc) = Some (mcp_payload now user chat sc)"
    and "mcp_issue C secret now user chat sc \<noteq> []" "\<And>n. toint (JInt n) = Some n" "get_user U user d = Some u"
  shows "require_identity C toint secret U t (thread_headers (mcp_thread_config (mcp_issue C secret now user chat sc))) d =
    Inr \<lparr>mi_user = u_id u, mi_chat = chat, mi_role = (if u_role u = ROLE_ADMIN \<and> sc = AdminSidecar then McpAdmin else McpUser)\<rparr>"
  using assms verify_issued [OF assms(1,3)] by (simp add: require_identity_def require_claims_def mcp_resolve_def)

lemma admin_identity:
  assumes "require_tool_admin (require_identity C toint secret U t headers d) = Inr ()"
  shows "\<exists>c u. require_claims C toint secret t headers = Inr c \<and> get_user U (cl_user c) d = Some u \<and> u_role u = ROLE_ADMIN \<and>
    cl_sidecar c = AdminSidecar"
  using assms by (auto simp: require_tool_admin_def require_identity_def mcp_resolve_def split: sum.splits option.splits if_splits)

lemma error_tools_admin_only:
  assumes "fst (list_errors B caller slug limit cache) = Inr xs \<or> get_error B caller issue = Inr detail"
  shows "require_tool_admin caller = Inr ()"
  using assms by (auto simp: list_errors_def get_error_def split: if_splits sum.splits)

text \<open>What the second request of \<open>get_error\<close> meets is not handed to the model as a tool's error.\<close>

lemma event_failure_escapes:
  assumes "require_tool_admin caller = Inr ()" "bs_events B issue = Inr (JObj [(''results'', JList [JObj [(''id'', i)]])])" "bs_event B i = Inl e"
  shows "get_error B caller issue = Inl (ToolCrash e)"
  using assms by (simp add: get_error_def bind_tool_def crash_def)

text \<open>Only a file below a trusted root is shown, whoever calls, and the caller is known.\<close>

lemma shown_is_trusted:
  assumes "show_image F caller path caption = Inr x"
  shows "is_inside_trusted_root F (im_path x) \<and> fs_is_file F (im_path x) \<and> (\<exists>i. caller = Inr i)"
  using assms by (auto simp: show_image_def resolve_trusted_local_path_def Let_def split: option.splits sum.splits if_splits)

end
