(* ===== verification/Codex_Open.thy ===== *)
theory Codex_Open
  imports Mcp_Tools Tg_Handlers
begin

text \<open>
  Opening a client of the sidecar for one turn: \<open>services/codex/client.py\<close>, \<open>runner.py\<close> and
  \<open>jwt.py\<close>, and the one-shot client of \<open>codex_remote.py\<close>. The parts it composes are those of
  \<open>Rpc_Client\<close>, \<open>Codex_Session\<close>, \<open>Codex_Prefs\<close>, \<open>Chats\<close> and \<open>Mcp_Tools\<close>.
\<close>

section \<open>The token of the handshake\<close>

record ws_cfg =
  ws_secret_admin :: string
  ws_secret_guest :: string
  ws_audience_admin :: string
  ws_audience_guest :: string
  ws_issuer :: string

definition WS_TOKEN_TTL_S :: int where
  "WS_TOKEN_TTL_S = 60"

definition make_ws_token :: "crypto \<Rightarrow> ws_cfg \<Rightarrow> int \<Rightarrow> sidecar_name \<Rightarrow> string" where
  "make_ws_token C cfg now sc =
     (let (secret, audience) = (case sc of AdminSidecar \<Rightarrow> (ws_secret_admin cfg, ws_audience_admin cfg)
            | GuestSidecar \<Rightarrow> (ws_secret_guest cfg, ws_audience_guest cfg))
      in cr_encode C secret (JObj [(''iss'', JStr (ws_issuer cfg)), (''aud'', JStr audience), (''iat'', JInt now), (''exp'', JInt (now + WS_TOKEN_TTL_S))]))"

section \<open>The client\<close>

definition CLIENT_INFO :: json where
  "CLIENT_INFO = JObj [(''name'', JStr ''codex-api''), (''version'', JStr ''0.1.0'')]"

text \<open>What the sidecar's servers are answered when they ask the user something.\<close>

definition handle_mcp_elicitation :: "json \<Rightarrow> json" where
  "handle_mcp_elicitation params = JObj [(''action'', JStr ''accept''), (''content'', JObj []), (''_meta'', JNull)]"

text \<open>\<open>ntf\<close>, the notification, may fail to send; what the log line reads of the answer may raise.\<close>

definition handshake :: "'p peer \<Rightarrow> ('p \<Rightarrow> rpc_exn option \<times> 'p) \<Rightarrow> 'p \<Rightarrow> rpc_exn option \<times> 'p" where
  "handshake req ntf p =
     (case req ''initialize'' (JObj [(''clientInfo'', CLIENT_INFO), (''capabilities'', JObj [])]) p of
        (Inl e, p1) \<Rightarrow> (Some e, p1)
      | (Inr r, p1) \<Rightarrow>
          (case ntf p1 of
             (Some e, p2) \<Rightarrow> (Some e, p2)
           | (None, p2) \<Rightarrow> (if is_obj (or_else r (JObj [])) then None else Some (PyError (AttributeError ''get'')), p2)))"

record codex_client =
  cc_admin :: bool
  cc_token :: string
  cc_setup :: thread_setup
  cc_turn :: turn_setup
  cc_thread :: thread_session

section \<open>The world of an opening\<close>

record ('s, 'd, 'w, 'c, 'm, 'p) open_world =
  ow_redis :: 's
  ow_prefs :: 'd
  ow_fetch :: 'w
  ow_chats :: 'c
  ow_msgs :: 'm
  ow_peer :: 'p

record ('d, 'w, 'c, 'm, 'p) open_parts =
  op_prefs :: "(prefs_row, 'd) table"
  op_chats :: "(chat_row, 'c) table"
  op_msgs :: "(msg_row, 'm) table"
  op_env :: "'w prefs_env"
  op_codec :: codec
  op_crypto :: crypto
  op_ws :: ws_cfg
  op_secret :: string
  op_setup :: thread_setup
  op_req :: "'p peer"
  op_notify :: "'p \<Rightarrow> rpc_exn option \<times> 'p"

text \<open>
  What an opening meets: whether threads are reused, the clock, the read of the quarantine, the
  commit of a changed thread (its exceptions are swallowed), the attempts to connect.
\<close>

record open_env =
  oe_reuse :: bool
  oe_now :: int
  oe_get :: fault
  oe_persist :: fault
  oe_dial :: "bool list"

datatype open_exn = OxRedis | OxOptions prefs_error | OxConnect | OxRpc rpc_exn

text \<open>
  The client; or an exception, after which the connection is not there, was closed, or is left
  as it is.
\<close>

datatype 'a opened = Opened 'a | NotConnected open_exn | RaisedClosed open_exn | RaisedUnclosed open_exn

definition HISTORY_REPLAY_LIMIT :: nat where
  "HISTORY_REPLAY_LIMIT = 20"

definition load_stored_thread_id :: "(chat_row, 'c) table \<Rightarrow> int \<Rightarrow> 'c \<Rightarrow> string option" where
  "load_stored_thread_id TC chat d = Option.bind (get_chat TC chat d) c_thread"

definition initial_thread ::
  "('s, 'x) redisz_scheme \<Rightarrow> open_env \<Rightarrow> string option \<Rightarrow> 's \<Rightarrow> (open_exn + string option) \<times> 's" where
  "initial_thread R e stored s =
     (case if oe_reuse e then stored else None of
        None \<Rightarrow> (Inr None, s)
      | Some t \<Rightarrow>
          (case call (oe_get e) (rd_get R (quarantine_key t)) s of
             (None, s1) \<Rightarrow> (Inl OxRedis, s1)
           | (Some v, s1) \<Rightarrow> (Inr (if opt_truthy v then None else Some t), s1)))"

text \<open>The callback: an identifier that is no string does not fit the column.\<close>

definition thread_change :: "(chat_row, 'c) table \<Rightarrow> fault \<Rightarrow> int \<Rightarrow> json \<Rightarrow> 'c \<Rightarrow> 'c" where
  "thread_change TC f chat t d =
     (case t of
        JNull \<Rightarrow> snd (call f (\<lambda>d. ((), set_codex_thread_id TC chat None d)) d)
      | JStr s \<Rightarrow> snd (call f (\<lambda>d. ((), set_codex_thread_id TC chat (Some s) d)) d)
      | _ \<Rightarrow> d)"

definition seed_items :: "(msg_row, 'm) table \<Rightarrow> int \<Rightarrow> 'm \<Rightarrow> json list" where
  "seed_items TM chat d =
     (let recent = list_recent TM chat HISTORY_REPLAY_LIMIT d
      in messages_to_history_items (if recent \<noteq> [] \<and> mg_role (last recent) = MSG_USER then butlast recent else recent))"

definition seed_history :: "'p peer \<Rightarrow> json list \<Rightarrow> thread_session \<Rightarrow> 'p \<Rightarrow> rpc_exn option \<times> 'p" where
  "seed_history req items th p = (if items = [] then (None, p) else inject_history req items th p)"

definition new_client ::
  "('d, 'w, 'c, 'm, 'p) open_parts \<Rightarrow> open_env \<Rightarrow> int \<Rightarrow> int \<Rightarrow> bool \<Rightarrow> string option \<Rightarrow> codex_prefs \<Rightarrow> codex_client" where
  "new_client P e chat user is_admin initial opts =
     (let sc = (if is_admin then AdminSidecar else GuestSidecar) in
      \<lparr>cc_admin = is_admin, cc_token = make_ws_token (op_crypto P) (op_ws P) (oe_now e) sc,
       cc_setup = (op_setup P)\<lparr>tc_config := mcp_thread_config (mcp_issue (op_crypto P) (op_secret P) (oe_now e) user chat sc)\<rparr>,
       cc_turn = \<lparr>tu_model = pf_model opts, tu_effort = pf_effort opts\<rparr>,
       cc_thread = \<lparr>th_id = opt_json initial, th_ready = False, th_changes = []\<rparr>\<rparr>)"

text \<open>\<open>connect\<close>: the transport, then the handshake.\<close>

definition connect_client ::
  "open_env \<Rightarrow> 'p peer \<Rightarrow> ('p \<Rightarrow> rpc_exn option \<times> 'p) \<Rightarrow> 'p \<Rightarrow> unit opened \<times> 'p" where
  "connect_client e req ntf p =
     (if \<not> fst (connect_attempts 1 (oe_dial e) []) then (NotConnected OxConnect, p)
      else case handshake req ntf p of
        (Some x, p1) \<Rightarrow> (RaisedUnclosed (OxRpc x), p1)
      | (None, p1) \<Rightarrow> (Opened (), p1))"

text \<open>The part under \<open>try\<close>, before the client is handed out.\<close>

definition prepare_thread ::
  "('d, 'w, 'c, 'm, 'p) open_parts \<Rightarrow> open_env \<Rightarrow> int \<Rightarrow> string option \<Rightarrow> codex_client \<Rightarrow> ('s, 'd, 'w, 'c, 'm, 'p) open_world \<Rightarrow>
     codex_client opened \<times> ('s, 'd, 'w, 'c, 'm, 'p) open_world" where
  "prepare_thread P e chat stored cl W =
     (case ensure_thread (op_codec P) (cc_setup cl) (op_req P) (cc_thread cl) (ow_peer W) of
        (r, th, p1) \<Rightarrow>
          let W1 = W\<lparr>ow_peer := p1, ow_chats := fold (thread_change (op_chats P) (oe_persist e) chat) (th_changes th) (ow_chats W)\<rparr>;
              cl1 = cl\<lparr>cc_thread := th\<rparr>
          in (case r of
                Inl x \<Rightarrow> (RaisedClosed (OxRpc x), W1)
              | Inr _ \<Rightarrow>
                  if th_id th = opt_json stored then (Opened cl1, W1)
                  else (case seed_history (op_req P) (seed_items (op_msgs P) chat (ow_msgs W1)) th p1 of
                          (Some x, p2) \<Rightarrow> (RaisedClosed (OxRpc x), W1\<lparr>ow_peer := p2\<rparr>)
                        | (None, p2) \<Rightarrow> (Opened cl1, W1\<lparr>ow_peer := p2\<rparr>))))"

definition open_codex_turn ::
  "('s, 'x) redisz_scheme \<Rightarrow> ('d, 'w, 'c, 'm, 'p) open_parts \<Rightarrow> open_env \<Rightarrow> int \<Rightarrow> int \<Rightarrow> bool \<Rightarrow> bool \<Rightarrow> ('s, 'd, 'w, 'c, 'm, 'p) open_world \<Rightarrow>
     codex_client opened \<times> ('s, 'd, 'w, 'c, 'm, 'p) open_world" where
  "open_codex_turn R P e chat user is_admin seed W =
     (let stored = load_stored_thread_id (op_chats P) chat (ow_chats W); sc = (if is_admin then AdminSidecar else GuestSidecar) in
      case initial_thread R e stored (ow_redis W) of
        (Inl x, s1) \<Rightarrow> (NotConnected x, W\<lparr>ow_redis := s1\<rparr>)
      | (Inr initial, s1) \<Rightarrow>
          (case resolve_turn_options R (op_prefs P) (op_env P) user sc (ow_prefs W, s1, ow_fetch W) of
             (r, d2, s2, w2) \<Rightarrow>
               let W2 = W\<lparr>ow_redis := s2, ow_prefs := d2, ow_fetch := w2\<rparr> in
               (case r of
                  Inl x \<Rightarrow> (NotConnected (OxOptions x), W2)
                | Inr opts \<Rightarrow>
                    let cl = new_client P e chat user is_admin initial opts in
                    (case connect_client e (op_req P) (op_notify P) (ow_peer W2) of
                       (Opened _, p3) \<Rightarrow>
                         if seed then prepare_thread P e chat stored cl (W2\<lparr>ow_peer := p3\<rparr>)
                         else (Opened cl, W2\<lparr>ow_peer := p3\<rparr>)
                     | (NotConnected x, p3) \<Rightarrow> (NotConnected x, W2\<lparr>ow_peer := p3\<rparr>)
                     | (RaisedClosed x, p3) \<Rightarrow> (RaisedClosed x, W2\<lparr>ow_peer := p3\<rparr>)
                     | (RaisedUnclosed x, p3) \<Rightarrow> (RaisedUnclosed x, W2\<lparr>ow_peer := p3\<rparr>)))))"

text \<open>
  \<open>one_shot_client\<close> and what is sent through it: an answer, or what the connection or the call
  raises.
\<close>

definition one_shot ::
  "open_env \<Rightarrow> 'p peer \<Rightarrow> ('p \<Rightarrow> rpc_exn option \<times> 'p) \<Rightarrow> ('p \<Rightarrow> control \<times> 'p) \<Rightarrow> 'p \<Rightarrow> control opened \<times> 'p" where
  "one_shot e req ntf job p =
     (case connect_client e req ntf p of
        (Opened _, p1) \<Rightarrow> (case job p1 of (r, p2) \<Rightarrow> (Opened r, p2))
      | (NotConnected x, p1) \<Rightarrow> (NotConnected x, p1)
      | (RaisedClosed x, p1) \<Rightarrow> (RaisedClosed x, p1)
      | (RaisedUnclosed x, p1) \<Rightarrow> (RaisedUnclosed x, p1))"

definition send_interrupt_turn_id ::
  "codec \<Rightarrow> open_env \<Rightarrow> 'p peer \<Rightarrow> ('p \<Rightarrow> rpc_exn option \<times> 'p) \<Rightarrow> string option \<Rightarrow> string \<Rightarrow> 'p \<Rightarrow> control opened \<times> 'p" where
  "send_interrupt_turn_id C e req ntf thread turn p =
     (case thread of
        None \<Rightarrow> (Opened Declined, p)
      | Some t \<Rightarrow> one_shot e req ntf (interrupt C req (JStr t) (JStr turn)) p)"

definition send_steer_by_ids ::
  "('s, 'x) redisz_scheme \<Rightarrow> fault \<Rightarrow> nat \<Rightarrow> codec \<Rightarrow> open_env \<Rightarrow> 'p peer \<Rightarrow> ('p \<Rightarrow> rpc_exn option \<times> 'p) \<Rightarrow> int \<Rightarrow> string option \<Rightarrow>
     string \<Rightarrow> string \<Rightarrow> 's \<times> 'p \<Rightarrow> control opened \<times> 's \<times> 'p" where
  "send_steer_by_ids R f ttl C e req ntf chat thread turn txt W =
     (case one_shot e req ntf (steer C req txt (JStr turn) (opt_json thread) JNull \<lparr>th_id = JNull, th_ready = False, th_changes = []\<rparr>) (snd W) of
        (r, p1) \<Rightarrow> (r, (if r = Opened Accepted then note_steer R f ttl chat turn (fst W) else fst W), p1))"

section \<open>The requests of an opening\<close>

text \<open>A peer that also records what it was asked for, and the requests that inject a history.\<close>

definition recording :: "'s peer \<Rightarrow> ((string \<times> json) list \<times> 's) peer" where
  "recording req m params s = (let (r, s') = req m params (snd s) in (r, fst s @ [(m, params)], s'))"

definition injections :: "(string \<times> json) list \<Rightarrow> (string \<times> json) list" where
  "injections = filter (\<lambda>x. fst x = ''thread/inject_items'')"

lemma injections_append [simp]: "injections (a @ b) = injections a @ injections b"
  by (simp add: injections_def)

lemma recording_step:
  assumes "recording req m params s = (r, s')"
  shows "injections (fst s') = injections (fst s) @ (if m = ''thread/inject_items'' then [(m, params)] else [])"
  using assms by (auto simp: recording_def injections_def split: prod.splits)

lemma resume_quiet:
  assumes "try_resume C T (recording req) t s = (r, s')"
  shows "injections (fst s') = injections (fst s)"
  using assms by (auto simp: try_resume_def dest!: recording_step split: prod.splits sum.splits if_splits)

lemma start_quiet:
  assumes "open_new_thread T (recording req) th s = (r, th', s')"
  shows "injections (fst s') = injections (fst s)"
  using assms by (auto simp: open_new_thread_def dest!: recording_step split: prod.splits sum.splits)

lemma start_changes:
  assumes "open_new_thread T req th s = (Inr t, th', s')"
  shows "th_id th' = t \<and> th_changes th' = th_changes th @ [t]"
  using assms by (auto simp: open_new_thread_def emit_thread_change_def split: prod.splits sum.splits)

lemma ensure_quiet:
  assumes "ensure_thread C T (recording req) th s = (r, th', s')"
  shows "injections (fst s') = injections (fst s)"
proof (cases "th_id th \<noteq> JNull \<and> \<not> th_ready th")
  case True
  obtain x s1 where x: "try_resume C T (recording req) (th_id th) s = (x, s1)" by (metis surj_pair)
  with True assms resume_quiet [OF x] show ?thesis
    by (auto simp: ensure_thread_def dest!: start_quiet split: sum.splits bool.splits)
next
  case False
  with assms show ?thesis by (auto simp: ensure_thread_def dest!: start_quiet split: if_splits)
qed

lemma ensure_changes:
  assumes "ensure_thread C T req th s = (Inr t, th', s')" "th_changes th = []"
  shows "th_id th' = t" "th_changes th' = [] \<and> t = th_id th \<and> t \<noteq> JNull \<or> th_changes th' = [t] \<or> th_changes th' = [JNull, t]"
proof -
  have *: "th_id th' = t \<and> (th_changes th' = [] \<and> t = th_id th \<and> t \<noteq> JNull \<or> th_changes th' = [t] \<or> th_changes th' = [JNull, t])"
  proof (cases "th_id th \<noteq> JNull \<and> \<not> th_ready th")
    case True
    obtain x s1 where x: "try_resume C T req (th_id th) s = (x, s1)" by (metis surj_pair)
    with True assms show ?thesis
      by (auto simp: ensure_thread_def reset_thread_def emit_thread_change_def dest!: start_changes split: sum.splits bool.splits)
  next
    case False
    with assms show ?thesis by (auto simp: ensure_thread_def dest!: start_changes split: if_splits)
  qed
  then show "th_id th' = t" "th_changes th' = [] \<and> t = th_id th \<and> t \<noteq> JNull \<or> th_changes th' = [t] \<or> th_changes th' = [JNull, t]"
    by blast+
qed

lemma handshake_quiet:
  assumes "handshake (recording req) ntf p = (r, p')" "\<And>q. injections (fst (snd (ntf q))) = injections (fst q)"
  shows "injections (fst p') = injections (fst p)"
proof -
  obtain x p1 where x: "recording req ''initialize'' (JObj [(''clientInfo'', CLIENT_INFO), (''capabilities'', JObj [])]) p = (x, p1)"
    by (metis surj_pair)
  have p1: "injections (fst p1) = injections (fst p)" using recording_step [OF x] by simp
  show ?thesis
  proof (cases x)
    case (Inr y)
    obtain z p2 where n: "ntf p1 = (z, p2)" by (metis surj_pair)
    then have "injections (fst p2) = injections (fst p1)" using assms(2) [of p1] by simp
    with assms(1) x Inr n p1 show ?thesis by (auto simp: handshake_def split: option.splits)
  qed (use assms(1) x p1 in \<open>auto simp: handshake_def\<close>)
qed

text \<open>What the callback leaves in the chats.\<close>

context chat_db
begin

lemma changes_stored:
  assumes "ok d" "tb_view T d chat = Some c" "ts = [] \<and> c_thread c = Some t \<or> ts = [JStr t] \<or> ts = [JNull, JStr t]"
  shows "tb_view T (fold (thread_change T Fine chat) ts d) = (tb_view T d)(chat \<mapsto> c\<lparr>c_thread := Some t\<rparr>)"
proof -
  have c: "c\<lparr>c_thread := Some t\<rparr> = c" if "c_thread c = Some t" using that by (cases c) simp
  note u = thread_update [OF assms(1,2)]
  let ?d = "set_codex_thread_id T chat None d"
  have "tb_view T ?d chat = Some (c\<lparr>c_thread := None\<rparr>)" by (simp add: u)
  from thread_update(2) [OF u(1) this, of "Some t"] u(2) [of None]
  have "tb_view T (set_codex_thread_id T chat (Some t) ?d) = (tb_view T d)(chat \<mapsto> c\<lparr>c_thread := Some t\<rparr>)" by simp
  with assms(2,3) c u(2) show ?thesis by (auto simp: thread_change_def fun_upd_idem)
qed

end

text \<open>Whoever opens with seeding: the part after the connection.\<close>

lemma prepared:
  assumes "chat_db (op_chats P) ok" "ok (ow_chats W)" "tb_view (op_chats P) (ow_chats W) chat = Some c"
    and "op_req P = recording req" "oe_persist e = Fine" "stored = c_thread c"
    and "prepare_thread P e chat stored cl W = (Opened cl', W')" "th_changes (cc_thread cl) = []"
    and "th_id (cc_thread cl) = JNull \<or> th_id (cc_thread cl) = opt_json stored" "th_id (cc_thread cl') = JStr t" "t \<noteq> []"
  shows "tb_view (op_chats P) (ow_chats W') = (tb_view (op_chats P) (ow_chats W))(chat \<mapsto> c\<lparr>c_thread := Some t\<rparr>)"
    "injections (fst (ow_peer W')) = injections (fst (ow_peer W)) @
       (if stored = Some t \<or> seed_items (op_msgs P) chat (ow_msgs W) = [] then []
        else [(''thread/inject_items'', JObj [(''threadId'', JStr t), (''items'', JList (seed_items (op_msgs P) chat (ow_msgs W)))])])"
proof -
  obtain r th p1 where en: "ensure_thread (op_codec P) (cc_setup cl) (op_req P) (cc_thread cl) (ow_peer W) = (r, th, p1)"
    by (metis surj_pair)
  then obtain x where r: "r = Inr x" using assms(7) by (cases r) (auto simp: prepare_thread_def Let_def)
  have th: "th = cc_thread cl'" and ch: "ow_chats W' = fold (thread_change (op_chats P) Fine chat) (th_changes th) (ow_chats W)"
    using assms(5,7) en r by (auto simp: prepare_thread_def Let_def split: if_splits prod.splits option.splits)
  note e = ensure_changes [OF en [unfolded r] assms(8)]
  have x: "x = JStr t" using e(1) th assms(10) by simp
  have st: "th_id th = opt_json stored \<longleftrightarrow> stored = Some t" using e(1) x by (cases stored) (auto simp: opt_json_def)
  have "th_changes th = [] \<and> c_thread c = Some t \<or> th_changes th = [JStr t] \<or> th_changes th = [JNull, JStr t]"
    using e(2) x assms(6,9) st th assms(10) by auto
  then show "tb_view (op_chats P) (ow_chats W') = (tb_view (op_chats P) (ow_chats W))(chat \<mapsto> c\<lparr>c_thread := Some t\<rparr>)"
    unfolding ch by (rule chat_db.changes_stored [OF assms(1-3)])
  have q: "injections (fst p1) = injections (fst (ow_peer W))" by (rule ensure_quiet [OF en [unfolded assms(4)]])
  let ?items = "seed_items (op_msgs P) chat (ow_msgs W)"
  show "injections (fst (ow_peer W')) = injections (fst (ow_peer W)) @
       (if stored = Some t \<or> ?items = [] then []
        else [(''thread/inject_items'', JObj [(''threadId'', JStr t), (''items'', JList ?items)])])"
  proof (cases "stored = Some t")
    case True
    with assms(7) en r st q show ?thesis by (auto simp: prepare_thread_def Let_def)
  next
    case False
    obtain z p2 where s: "seed_history (op_req P) ?items th p1 = (z, p2)" by (metis surj_pair)
    have W': "ow_peer W' = p2" using assms(7) en r s st False by (auto simp: prepare_thread_def Let_def split: option.splits)
    have "th_id th = JStr t" using e(1) x by simp
    with s q False show ?thesis unfolding W' assms(4)
      by (auto simp: seed_history_def inject_history_def assms(11) split: prod.splits sum.splits rpc_exn.splits if_splits dest!: recording_step)
  qed
qed

lemma prepared_client:
  assumes "prepare_thread P e chat stored cl W = (Opened cl', W')"
  shows "cl' = cl\<lparr>cc_thread := cc_thread cl'\<rparr>"
  using assms by (auto simp: prepare_thread_def Let_def split: prod.splits sum.splits if_splits option.splits)

lemma initial_cases:
  assumes "initial_thread R e stored s = (Inr initial, s1)"
  shows "initial = None \<or> initial = stored"
  using assms by (auto simp: initial_thread_def split: option.splits if_splits prod.splits)

lemma opened_cases:
  assumes "open_codex_turn R P e chat user is_admin seed W = (Opened cl, W')"
  obtains initial opts p3 s2 d2 w2 where "initial = None \<or> initial = load_stored_thread_id (op_chats P) chat (ow_chats W)"
    "connect_client e (op_req P) (op_notify P) (ow_peer W) = (Opened (), p3)"
    "if seed then prepare_thread P e chat (load_stored_thread_id (op_chats P) chat (ow_chats W)) (new_client P e chat user is_admin initial opts)
        (W\<lparr>ow_redis := s2, ow_prefs := d2, ow_fetch := w2, ow_peer := p3\<rparr>) = (Opened cl, W')
     else cl = new_client P e chat user is_admin initial opts"
proof -
  obtain x s1 where i: "initial_thread R e (load_stored_thread_id (op_chats P) chat (ow_chats W)) (ow_redis W) = (x, s1)" by (metis surj_pair)
  with assms obtain initial where x: "x = Inr initial" by (cases x) (auto simp: open_codex_turn_def Let_def)
  let ?sc = "if is_admin then AdminSidecar else GuestSidecar"
  obtain r d2 s2 w2 where o: "resolve_turn_options R (op_prefs P) (op_env P) user ?sc (ow_prefs W, s1, ow_fetch W) = (r, d2, s2, w2)"
    by (metis surj_pair)
  with assms i x obtain opts where r: "r = Inr opts" by (cases r) (auto simp: open_codex_turn_def Let_def)
  obtain k p3 where c: "connect_client e (op_req P) (op_notify P) (ow_peer W) = (k, p3)" by (metis surj_pair)
  with assms i x o r have k: "k = Opened ()" by (cases k) (auto simp: open_codex_turn_def Let_def)
  have st: "if seed then prepare_thread P e chat (load_stored_thread_id (op_chats P) chat (ow_chats W)) (new_client P e chat user is_admin initial opts)
        (W\<lparr>ow_redis := s2, ow_prefs := d2, ow_fetch := w2, ow_peer := p3\<rparr>) = (Opened cl, W')
     else cl = new_client P e chat user is_admin initial opts"
    using assms i x o r c k by (cases seed) (simp_all add: open_codex_turn_def Let_def)
  show thesis
    by (rule that [OF initial_cases [OF i [unfolded x]] c [unfolded k] st])
qed

lemma opened_client:
  assumes "open_codex_turn R P e chat user is_admin seed W = (Opened cl, W')"
  obtains initial opts where "cl = (new_client P e chat user is_admin initial opts)\<lparr>cc_thread := cc_thread cl\<rparr>"
proof -
  from assms obtain initial opts p3 s2 d2 w2 where st: "if seed
     then prepare_thread P e chat (load_stored_thread_id (op_chats P) chat (ow_chats W)) (new_client P e chat user is_admin initial opts)
        (W\<lparr>ow_redis := s2, ow_prefs := d2, ow_fetch := w2, ow_peer := p3\<rparr>) = (Opened cl, W')
     else cl = new_client P e chat user is_admin initial opts"
    by (rule opened_cases)
  show thesis
  proof (rule that [of initial opts])
    show "cl = (new_client P e chat user is_admin initial opts)\<lparr>cc_thread := cc_thread cl\<rparr>"
    proof (cases seed)
      case True
      with st have "prepare_thread P e chat (load_stored_thread_id (op_chats P) chat (ow_chats W)) (new_client P e chat user is_admin initial opts)
        (W\<lparr>ow_redis := s2, ow_prefs := d2, ow_fetch := w2, ow_peer := p3\<rparr>) = (Opened cl, W')" by simp
      then show ?thesis by (rule prepared_client)
    qed (use st in simp)
  qed
qed

section \<open>Properties\<close>



section \<open>An opening\<close>

definition demo_open_crypto :: crypto where
  "demo_open_crypto = \<lparr>cr_hash = (\<lambda>p. p), cr_verify = (\<lambda>h p. Some (h = p)), cr_rehash = (\<lambda>_. False),
     cr_encode = (\<lambda>k p. case p of JObj [_, _, _, (_, JStr s), _] \<Rightarrow> s | _ \<Rightarrow> ''x''),
     cr_decode = (\<lambda>k t r. Some (mcp_payload 0 7 1 (if r = ''admin'' then AdminSidecar else GuestSidecar)))\<rparr>"

definition demo_thread_peer :: "((string \<times> json) list \<times> nat) peer" where
  "demo_thread_peer = recording (\<lambda>m params n. (Inr (if m = ''thread/start'' then JObj [(''thread'', JObj [(''id'', JStr ''new'')])] else JNull), n + 1))"

definition demo_msg :: "int \<Rightarrow> message_role \<Rightarrow> string \<Rightarrow> msg_row" where
  "demo_msg i role t = \<lparr>mg_id = i, mg_chat = 1, mg_role = role, mg_text = t, mg_meta = None\<rparr>"

definition demo_parts :: "(prefs_row rows, nat, chat_row rows, msg_row rows, (string \<times> json) list \<times> nat) open_parts" where
  "demo_parts = \<lparr>op_prefs = keyed_mem pr_user, op_chats = mem_table (sorted_wrt (\<lambda>r s. \<not> chat_clash r s)), op_msgs = mem_table (\<lambda>_. True),
     op_env = demo_prefs_env, op_codec = demo_codec, op_crypto = demo_open_crypto,
     op_ws = \<lparr>ws_secret_admin = ''a'', ws_secret_guest = ''g'', ws_audience_admin = ''a'', ws_audience_guest = ''g'', ws_issuer = ''i''\<rparr>,
     op_secret = ''k'', op_setup = demo_setup, op_req = demo_thread_peer, op_notify = (\<lambda>p. (None, p))\<rparr>"

definition demo_open_env :: open_env where
  "demo_open_env = \<lparr>oe_reuse = True, oe_now = 0, oe_get = Fine, oe_persist = Fine, oe_dial = [False, True]\<rparr>"

definition demo_open_chat :: chat_row where
  "demo_open_chat = new_chat 7 SRC_WEB None None 10 1"

definition demo_open_world :: "(memz, prefs_row rows, nat, chat_row rows, msg_row rows, (string \<times> json) list \<times> nat) open_world" where
  "demo_open_world = \<lparr>ow_redis = demo_redisz, ow_prefs = (1, []), ow_fetch = 0, ow_chats = (2, [(1, demo_open_chat)]),
     ow_msgs = (4, [(1, demo_msg 1 MSG_USER ''hi''), (2, demo_msg 2 MSG_ASSISTANT ''hello''), (3, demo_msg 3 MSG_USER ''more'')]),
     ow_peer = ([], 0)\<rparr>"

definition demo_opening :: "codex_client opened \<times> (memz, prefs_row rows, nat, chat_row rows, msg_row rows, (string \<times> json) list \<times> nat) open_world" where
  "demo_opening = open_codex_turn mem_redisz demo_parts demo_open_env 1 7 True True demo_open_world"

lemma demo_opening_thread: "case fst demo_opening of Opened cl \<Rightarrow> th_id (cc_thread cl) = JStr ''new'' | _ \<Rightarrow> False"
  by code_simp

lemma demo_opened: "\<exists>cl W'. demo_opening = (Opened cl, W') \<and> th_id (cc_thread cl) = JStr ''new''"
proof (cases "fst demo_opening")
  case (Opened cl)
  then have "demo_opening = (Opened cl, snd demo_opening)" by (metis prod.collapse)
  moreover have "th_id (cc_thread cl) = JStr ''new''" using demo_opening_thread Opened by simp
  ultimately show ?thesis by blast
qed (use demo_opening_thread in simp_all)

lemma demo_seed: "seed_items (op_msgs demo_parts) 1 (ow_msgs demo_open_world) =
    messages_to_history_items [demo_msg 1 MSG_USER ''hi'', demo_msg 2 MSG_ASSISTANT ''hello'']"
  by (simp add: seed_items_def list_recent_def demo_parts_def demo_open_world_def mem_table_def demo_msg_def HISTORY_REPLAY_LIMIT_def sort_key_def)


definition demo_admin_users :: "user_row rows" where
  "demo_admin_users = (8, [(7, new_user (Some 5) None None ROLE_ADMIN 7)])"


section \<open>Where an opening falls short\<close>

text \<open>A handshake that fails leaves the connection open: \<open>connect\<close> stands before the \<open>try\<close>.\<close>

lemma failed_handshake_unclosed:
  assumes "fst (connect_attempts 1 (oe_dial e) [])" "handshake req ntf p = (Some x, p')"
  shows "connect_client e req ntf p = (RaisedUnclosed (OxRpc x), p')"
  using assms by (simp add: connect_client_def)

text \<open>
  An error of Redis while the quarantine is read fails the turn, although every other read of
  Redis around a turn is best effort.
\<close>

lemma quarantine_read_fails_turn:
  assumes "load_stored_thread_id (op_chats P) chat (ow_chats W) = Some t" "oe_reuse e" "oe_get e = FailBefore"
  shows "fst (open_codex_turn R P e chat user is_admin seed W) = NotConnected OxRedis"
  using assms by (simp add: open_codex_turn_def initial_thread_def)

text \<open>
  The new thread is stored before it is seeded. When the injection times out the turn fails, the
  row names the thread, and the next turn resumes it and gives it nothing.
\<close>

lemma failed_seed_is_forgotten:
  assumes "chat_db (op_chats P) ok" "ok (ow_chats W)" "tb_view (op_chats P) (ow_chats W) chat = Some c" "oe_persist e = Fine"
    and "ensure_thread (op_codec P) (cc_setup cl) (op_req P) (cc_thread cl) (ow_peer W) = (Inr (JStr t), th, p1)"
    and "th_changes (cc_thread cl) = []" "th_id (cc_thread cl) = JNull" "c_thread c \<noteq> Some t"
    and "seed_history (op_req P) (seed_items (op_msgs P) chat (ow_msgs W)) th p1 = (Some RequestTimeout, p2)"
    and "prepare_thread P e chat (c_thread c) cl W = (res, W')"
  shows "res = RaisedClosed (OxRpc RequestTimeout) \<and> load_stored_thread_id (op_chats P) chat (ow_chats W') = Some t"
proof -
  note e = ensure_changes [OF assms(5,6)]
  have ne: "JStr t \<noteq> opt_json (c_thread c)" using assms(8) by (cases "c_thread c") (auto simp: opt_json_def)
  have r: "res = RaisedClosed (OxRpc RequestTimeout)" "ow_chats W' = fold (thread_change (op_chats P) Fine chat) (th_changes th) (ow_chats W)"
    using assms(4,5,9,10) e(1) ne by (auto simp: prepare_thread_def Let_def)
  have "th_changes th = [] \<and> c_thread c = Some t \<or> th_changes th = [JStr t] \<or> th_changes th = [JNull, JStr t]"
    using e(2) assms(7) by auto
  from chat_db.changes_stored [OF assms(1-3) this] r show ?thesis by (simp add: load_stored_thread_id_def get_chat_def)
qed

end
