(* ===== verification/Support.thy ===== *)
theory Support
  imports Accounts Py_Text
begin

text \<open>
  The small services around the core: what is removed from an error report
  (\<open>services/errors/scrub.py\<close>), the checks of the configuration (\<open>config.py\<close>), speech
  (\<open>services/tts\<close>, \<open>services/stt\<close>), the event bus (\<open>services/bus/bus.py\<close>) and the dispatch of
  requests to services (\<open>rpc/router.py\<close>). The providers' answers are parameters.
\<close>

section \<open>Error reports\<close>

definition REDACTED :: json where
  "REDACTED = JStr ''[redacted]''"

definition sensitive_headers :: "string list" where
  "sensitive_headers = [''authorization'', ''cookie'', ''set-cookie'', ''x-api-key'', ''x-auth-token'', ''proxy-authorization'']"

definition DROP_LOG_PATTERNS :: "string list" where
  "DROP_LOG_PATTERNS = [''Failed to fetch updates'']"

definition scrub_headers :: "json \<Rightarrow> json" where
  "scrub_headers payload =
     (case payload of
        JObj kv \<Rightarrow> JObj (map (\<lambda>(k, v). (k, if py_lower k \<in> set sensitive_headers then REDACTED else v)) kv)
      | _ \<Rightarrow> payload)"

text \<open>An entry of a dictionary changed in place, if it is there.\<close>

definition change_entry :: "string \<Rightarrow> (json \<Rightarrow> json) \<Rightarrow> (string \<times> json) list \<Rightarrow> (string \<times> json) list" where
  "change_entry k f kv = map (\<lambda>(k', v). (k', if k' = k then f v else v)) kv"

definition on_obj :: "((string \<times> json) list \<Rightarrow> (string \<times> json) list) \<Rightarrow> json \<Rightarrow> json" where
  "on_obj f j = (case j of JObj kv \<Rightarrow> JObj (f kv) | _ \<Rightarrow> j)"

definition scrub_request :: "json \<Rightarrow> json" where
  "scrub_request = on_obj (\<lambda>r. change_entry ''env'' scrub_headers (change_entry ''data'' (\<lambda>_. REDACTED)
     (change_entry ''cookies'' scrub_headers (change_entry ''headers'' scrub_headers r))))"

definition scrub_breadcrumb :: "json \<Rightarrow> json" where
  "scrub_breadcrumb = on_obj (change_entry ''data'' scrub_headers)"

text \<open>The breadcrumbs are a dictionary with a list of values; a value that cannot be iterated raises.\<close>

definition scrub_values :: "json \<Rightarrow> json" where
  "scrub_values j = (case j of JList xs \<Rightarrow> JList (map scrub_breadcrumb xs) | _ \<Rightarrow> j)"

definition report_message :: "(string \<times> json) list \<Rightarrow> string" where
  "report_message ev =
     (let raw = (case jget ev ''logentry'' of Some (JObj l) \<Rightarrow> of_null (jget l ''message'') | _ \<Rightarrow> JNull);
          raw = (if truthy raw then raw else of_null (jget ev ''message''))
      in case raw of JStr m \<Rightarrow> m | _ \<Rightarrow> [])"

definition iterable_crumbs :: "(string \<times> json) list \<Rightarrow> bool" where
  "iterable_crumbs ev =
     (case jget ev ''breadcrumbs'' of
        Some (JObj b) \<Rightarrow> (case jget b ''values'' of None \<Rightarrow> True | Some v \<Rightarrow> \<not> truthy v \<or> (case iter_json v of Inl _ \<Rightarrow> False | Inr _ \<Rightarrow> True))
      | _ \<Rightarrow> True)"

definition scrub_event :: "(string \<times> json) list \<Rightarrow> (string \<times> json) list option py" where
  "scrub_event ev =
     (if \<exists>p \<in> set DROP_LOG_PATTERNS. sublist p (report_message ev) then Inr None
      else if \<not> iterable_crumbs ev then Inl (TypeError ''iter'')
      else Inr (Some (change_entry ''breadcrumbs'' (on_obj (change_entry ''values'' scrub_values)) (change_entry ''request'' scrub_request ev))))"

section \<open>Configuration\<close>

datatype raw_setting = RawInt int | RawStr string | RawOther

text \<open>\<open>None\<close> is the ValueError of a part that is no number; \<open>RawOther\<close> is passed on as it is.\<close>

definition split_user_ids :: "raw_setting \<Rightarrow> int set option option" where
  "split_user_ids v =
     (case v of
        RawInt i \<Rightarrow> Some (Some {i})
      | RawOther \<Rightarrow> Some None
      | RawStr s \<Rightarrow>
          (if py_strip s = [] then Some (Some {})
           else let parts = map py_int (filter (\<lambda>p. py_strip p \<noteq> []) (split_on CHR '','' (py_strip s)))
                in if None \<in> set parts then None else Some (Some (set (map the parts)))))"

definition split_origins :: "string \<Rightarrow> string list" where
  "split_origins s = map py_strip (filter (\<lambda>p. py_strip p \<noteq> []) (split_on CHR '','' s))"

definition JWT_SECRET_MIN_LEN :: nat where
  "JWT_SECRET_MIN_LEN = 32"

record secrets =
  se_jwt :: string
  se_ws_admin :: string
  se_ws_guest :: string
  se_mcp :: string

text \<open>The name of the first field that is too short, if any: start-up then ends.\<close>

definition validate_jwt_secret :: "secrets \<Rightarrow> string option" where
  "validate_jwt_secret s =
     map_option fst (find (\<lambda>(_, v). length (py_strip v) < JWT_SECRET_MIN_LEN)
       [(''JWT_SECRET'', se_jwt s), (''CODEX_WS_SECRET_ADMIN'', se_ws_admin s), (''CODEX_WS_SECRET_GUEST'', se_ws_guest s),
        (''MCP_AUTHZ_SECRET'', se_mcp s)])"

section \<open>Speech\<close>

definition voice_for_language :: "string \<Rightarrow> string option" where
  "voice_for_language code =
     map_of [(''uk-UA'', ''uk-UA-Chirp3-HD-Kore''), (''ru-RU'', ''ru-RU-Chirp3-HD-Kore''), (''en-US'', ''en-US-Chirp3-HD-Kore'')] code"

definition DEFAULT_LANGUAGE_CODE :: string where
  "DEFAULT_LANGUAGE_CODE = ''uk-UA''"

text \<open>\<open>classify\<close> is the language identifier: a code and a confidence.\<close>

definition detect_language_code :: "(string \<Rightarrow> string \<times> real) \<Rightarrow> string \<Rightarrow> string" where
  "detect_language_code classify s =
     (let sample = take 500 (py_strip s) in
      if sample = [] then DEFAULT_LANGUAGE_CODE
      else case classify sample of
        (code, confidence) \<Rightarrow>
          if confidence < 0.55 then DEFAULT_LANGUAGE_CODE
          else (case map_of [(''uk'', ''uk-UA''), (''ru'', ''ru-RU''), (''en'', ''en-US'')] code of
                  None \<Rightarrow> DEFAULT_LANGUAGE_CODE | Some c \<Rightarrow> c))"

record tts_cfg =
  tts_key :: string
  tts_encoding :: string

definition tts_enabled :: "tts_cfg \<Rightarrow> bool" where
  "tts_enabled g \<longleftrightarrow> py_strip (tts_key g) \<noteq> []"

definition default_encoding :: "tts_cfg \<Rightarrow> string" where
  "default_encoding g = (if py_strip (tts_encoding g) = [] then ''MP3'' else py_strip (tts_encoding g))"

definition tts_payload :: "(string \<Rightarrow> string \<times> real) \<Rightarrow> tts_cfg \<Rightarrow> string \<Rightarrow> string option \<Rightarrow> string option \<Rightarrow> json" where
  "tts_payload classify g txt language encoding =
     (let code = (if opt_truthy language then the language else detect_language_code classify txt);
          enc = py_strip (if opt_truthy encoding then the encoding else default_encoding g)
      in JObj [(''input'', JObj [(''text'', JStr txt)]),
               (''voice'', JObj ((''languageCode'', JStr code) # (case voice_for_language code of None \<Rightarrow> [] | Some v \<Rightarrow> [(''name'', JStr v)]))),
               (''audioConfig'', JObj [(''audioEncoding'', JStr (if enc = [] then ''MP3'' else enc))])])"

text \<open>
  \<open>post\<close> answers the request with a status and a body, or fails; \<open>unbase64\<close> decodes the audio.
  The result is an error of synthesis, another exception, or the bytes written.
\<close>

datatype tts_exn = SpeechSynthesisError string | TtsCrash

definition synthesize ::
  "(string \<Rightarrow> string \<times> real) \<Rightarrow> (json \<Rightarrow> string + nat \<times> json option) \<Rightarrow> (string \<Rightarrow> 'b option) \<Rightarrow> tts_cfg \<Rightarrow> string \<Rightarrow> string option \<Rightarrow> string option \<Rightarrow>
     tts_exn + 'b" where
  "synthesize classify post unbase64 g txt language encoding =
     (if \<not> tts_enabled g then Inl (SpeechSynthesisError ''GOOGLE_TTS_API_KEY is not set'')
      else if py_strip txt = [] then Inl (SpeechSynthesisError ''text is empty'')
      else case post (tts_payload classify g txt language encoding) of
        Inl e \<Rightarrow> Inl (SpeechSynthesisError (''Google TTS request failed: '' @ e))
      | Inr (status, body) \<Rightarrow>
          if status \<noteq> 200 then Inl (SpeechSynthesisError ''Google TTS HTTP'')
          else (case body of
                  Some (JObj kv) \<Rightarrow>
                    (let audio = of_null (jget kv ''audioContent'') in
                     if \<not> truthy audio then Inl (SpeechSynthesisError ''Google TTS returned no audioContent'')
                     else (case Option.bind (as_str audio) unbase64 of None \<Rightarrow> Inl TtsCrash | Some b \<Rightarrow> Inr b))
                | _ \<Rightarrow> Inl TtsCrash))"

record stt_cfg =
  stt_key :: string
  stt_language :: string
  stt_point :: string

definition is_no_speech :: "string \<Rightarrow> bool" where
  "is_no_speech msg \<longleftrightarrow> (\<exists>m \<in> {''no speech'', ''language identification''}. sublist m (py_lower msg))"

text \<open>What the two calls of the library end with: a text, a rejected job, a listed error, another one.\<close>

datatype stt_reply = SttText "string option" | SttJobError string | SttFailed string | SttOther

datatype stt_exn = AudioTranscriptionError string | SttCrash

text \<open>
  The file the library reads is made first; \<open>write\<close> says whether the bytes could be written and
  \<open>known\<close> which operating points the library has. The flag says whether the file is left behind.
\<close>

definition transcribe :: "(string \<Rightarrow> bool) \<Rightarrow> bool \<Rightarrow> (string \<Rightarrow> string \<Rightarrow> stt_reply) \<Rightarrow> stt_cfg \<Rightarrow> (stt_exn + string) \<times> bool" where
  "transcribe known write call_api g =
     (let point = (if py_strip (stt_point g) = [] then ''enhanced'' else py_strip (stt_point g));
          language = (if py_strip (stt_language g) = [] then ''auto'' else py_strip (stt_language g))
      in if py_strip (stt_key g) = [] then (Inr [], False)
         else if \<not> write \<or> \<not> known point then (Inl SttCrash, True)
         else (case call_api language point of
                 SttText t \<Rightarrow> Inr (case t of None \<Rightarrow> [] | Some s \<Rightarrow> py_strip s)
               | SttJobError e \<Rightarrow> if is_no_speech e then Inr [] else Inl (AudioTranscriptionError (''Speechmatics job failed: '' @ e))
               | SttFailed e \<Rightarrow> Inl (AudioTranscriptionError (''Speechmatics transcription failed: '' @ e))
               | SttOther \<Rightarrow> Inl SttCrash, False))"

section \<open>The event bus\<close>

definition bus_channel :: "int \<Rightarrow> string" where
  "bus_channel chat = ''chat:'' @ str_of_int chat @ '':events''"

text \<open>The messages published so far, in order; a failure of Redis is only logged.\<close>

definition bus_publish :: "('f \<Rightarrow> string) \<Rightarrow> (chat_event \<Rightarrow> 'f) \<Rightarrow> fault \<Rightarrow> int \<Rightarrow> chat_event \<Rightarrow> (string \<times> string) list \<Rightarrow> (string \<times> string) list" where
  "bus_publish dumps frame f chat ev ms = snd (call f (\<lambda>ms. ((), ms @ [(bus_channel chat, dumps (frame ev))])) ms)"

text \<open>\<open>bytes_to_event\<close>: \<open>orjson\<close> raises a ValueError on what is no JSON.\<close>

definition bytes_to_event :: "(string \<Rightarrow> json option) \<Rightarrow> string \<Rightarrow> chat_event py" where
  "bytes_to_event parse raw =
     (case parse raw of
        None \<Rightarrow> Inl (ValidationError ''json'')
      | Some (JObj kv) \<Rightarrow> frame_to_event kv
      | Some _ \<Rightarrow> Inl (TypeError ''frame''))"

text \<open>
  What a subscriber is given of the messages since it subscribed: a message that does not
  decode is skipped, another exception ends its iteration.
\<close>

fun bus_iter :: "(string \<Rightarrow> json option) \<Rightarrow> string list \<Rightarrow> chat_event list \<times> py_exn option" where
  "bus_iter parse [] = ([], None)"
| "bus_iter parse (m # ms) =
     (case bytes_to_event parse m of
        Inr ev \<Rightarrow> (case bus_iter parse ms of (evs, e) \<Rightarrow> (ev # evs, e))
      | Inl (KeyError k) \<Rightarrow> bus_iter parse ms
      | Inl (ValidationError v) \<Rightarrow> bus_iter parse ms
      | Inl e \<Rightarrow> ([], Some e))"

definition bus_subscriber :: "(string \<Rightarrow> json option) \<Rightarrow> int \<Rightarrow> nat \<Rightarrow> (string \<times> string) list \<Rightarrow> chat_event list \<times> py_exn option" where
  "bus_subscriber parse chat mark ms = bus_iter parse (map snd (filter (\<lambda>m. fst m = bus_channel chat) (drop mark ms)))"

section \<open>Dispatch\<close>

definition relative_path :: "string \<Rightarrow> string \<Rightarrow> string" where
  "relative_path rt path = (if rt \<noteq> [] \<and> prefix rt path then drop (length rt) path else path)"

text \<open>The service a request goes to, by its path; \<open>None\<close> is the answer 404.\<close>

definition dispatch :: "string list \<Rightarrow> string \<Rightarrow> string \<Rightarrow> string option" where
  "dispatch services rt path =
     (let p = relative_path rt path in find (\<lambda>s. p = s \<or> prefix (s @ ''/'') p) services)"

section \<open>Lemmas\<close>

lemma change_entry_get: "jget (change_entry k f kv) k' = (if k' = k then map_option f (jget kv k) else jget kv k')"
  by (induction kv) (auto simp: change_entry_def)

lemma change_entry_idem:
  assumes "\<And>v. f (f v) = f v"
  shows "change_entry k f (change_entry k f kv) = change_entry k f kv"
  using assms by (simp add: change_entry_def comp_def split_beta)

lemma change_entry_commute:
  assumes "k \<noteq> k'"
  shows "change_entry k f (change_entry k' g kv) = change_entry k' g (change_entry k f kv)"
  using assms by (auto simp: change_entry_def comp_def split_beta)

lemma scrub_headers_idem [simp]: "scrub_headers (scrub_headers j) = scrub_headers j"
  by (cases j) (simp_all add: scrub_headers_def comp_def split_beta)

text \<open>After the scrubbing, a listed header of a report's request is the mark, and so is its body.\<close>

lemma scrubbed_header:
  assumes "scrub_headers (JObj kv) = JObj kv'" "jget kv' k = Some v" "py_lower k \<in> set sensitive_headers"
  shows "v = REDACTED"
proof -
  have "kv' = map (\<lambda>(k, v). (k, if py_lower k \<in> set sensitive_headers then REDACTED else v)) kv"
    using assms(1) by (simp add: scrub_headers_def)
  with assms(2) have "(k, v) \<in> set (map (\<lambda>(k, v). (k, if py_lower k \<in> set sensitive_headers then REDACTED else v)) kv)"
    by (metis map_of_SomeD)
  with assms(3) show ?thesis by (auto split: if_splits)
qed

lemma scrubbed_request:
  assumes "scrub_event ev = Inr (Some ev')" "jget ev ''request'' = Some (JObj r)"
  shows "\<exists>r'. jget ev' ''request'' = Some (JObj r') \<and> jget r' ''headers'' = map_option scrub_headers (jget r ''headers'') \<and>
    jget r' ''cookies'' = map_option scrub_headers (jget r ''cookies'') \<and> jget r' ''data'' = map_option (\<lambda>_. REDACTED) (jget r ''data'')"
  using assms by (auto simp: scrub_event_def change_entry_get scrub_request_def on_obj_def split: if_splits)

text \<open>
  The list names headers of the web only. The header that carries a thread's identity, a token
  without an expiry, is kept; so are the session cookie among the parsed cookies, whose keys
  are the names of the cookies, and Telegram's secret.
\<close>

lemma thread_token_kept:
  "scrub_headers (JObj [(''X-Codex-Authz'', t), (''X-Telegram-Bot-Api-Secret-Token'', s), (''codex_jwt'', c)]) =
     JObj [(''X-Codex-Authz'', t), (''X-Telegram-Bot-Api-Secret-Token'', s), (''codex_jwt'', c)]"
  by (simp add: scrub_headers_def sensitive_headers_def py_lower_def lower_char_def)

text \<open>A configuration that is accepted has secrets of at least 32 characters.\<close>

lemma accepted_secrets:
  assumes "validate_jwt_secret s = None"
  shows "\<forall>v \<in> {se_jwt s, se_ws_admin s, se_ws_guest s, se_mcp s}. 32 \<le> length (py_strip v)"
  using assms by (auto simp: validate_jwt_secret_def JWT_SECRET_MIN_LEN_def split: if_splits)

text \<open>Whatever the identifier says, the language has a voice.\<close>

lemma detected_has_voice: "voice_for_language (detect_language_code classify s) \<noteq> None"
proof -
  have "detect_language_code classify s \<in> {''uk-UA'', ''ru-RU'', ''en-US''}"
    by (auto simp: detect_language_code_def DEFAULT_LANGUAGE_CODE_def Let_def split: prod.splits option.splits if_splits)
  then show ?thesis by (auto simp: voice_for_language_def)
qed

text \<open>
  The recording's file is removed on every way out of the calls, but it is made before the
  \<open>try\<close>: an operating point the library does not know leaves it behind, for every recording.
\<close>

lemma unknown_point_leaves_file:
  assumes "py_strip (stt_key g) \<noteq> []" "py_strip (stt_point g) \<noteq> []" "\<not> known (py_strip (stt_point g))"
  shows "transcribe known write call_api g = (Inl SttCrash, True)"
  using assms by (simp add: transcribe_def Let_def)

lemma called_leaves_nothing:
  assumes "transcribe known True call_api g = (r, left)" "\<And>p. known p"
  shows "\<not> left"
  using assms by (auto simp: transcribe_def Let_def split: if_splits)

text \<open>
  A subscriber gets every event published to its chat since it subscribed, in order; that an
  event reads back is the round trip of \<open>Codex_Events\<close> for the well-typed ones.
\<close>

lemma bus_delivers:
  assumes "\<And>ev. ev \<in> set evs \<Longrightarrow> frame_to_event (event_to_frame ev) = Inr ev" "\<And>j. parse (dumps j) = Some (JObj j)"
  shows "bus_subscriber parse chat (length ms) (fold (bus_publish dumps event_to_frame Fine chat) evs ms) = (evs, None)"
proof -
  have "fold (bus_publish dumps event_to_frame Fine chat) evs ms = ms @ map (\<lambda>ev. (bus_channel chat, dumps (event_to_frame ev))) evs" for ms
    by (induction evs arbitrary: ms) (simp_all add: bus_publish_def)
  moreover have "bus_iter parse (map (\<lambda>ev. dumps (event_to_frame ev)) evs) = (evs, None)"
    using assms(1) by (induction evs) (simp_all add: bytes_to_event_def assms(2))
  ultimately show ?thesis by (simp add: bus_subscriber_def comp_def)
qed

text \<open>
  The order in which the services are listed does not matter: with paths of which none lies
  below another, a request matches one at most.
\<close>

lemma dispatch_unique:
  assumes "\<And>s t. s \<in> set services \<Longrightarrow> t \<in> set services \<Longrightarrow> s \<noteq> t \<Longrightarrow> \<not> prefix (s @ ''/'') (t @ ''/'')"
    and "s \<in> set services" "relative_path rt path = s \<or> prefix (s @ ''/'') (relative_path rt path)"
  shows "dispatch services rt path = Some s"
proof -
  let ?m = "\<lambda>s. relative_path rt path = s \<or> prefix (s @ ''/'') (relative_path rt path)"
  have pre: "prefix (s @ ''/'') (relative_path rt path @ ''/'')" if "?m s" for s
    using that by (auto simp: prefix_def)
  have "t = s" if "t \<in> set services" "?m t" for t
  proof (rule ccontr)
    assume "t \<noteq> s"
    with prefix_same_cases [OF pre [OF assms(3)] pre [OF that(2)]] assms(1) [OF assms(2) that(1)] assms(1) [OF that(1) assms(2)]
    show False by auto
  qed
  moreover obtain t where t: "find ?m services = Some t"
    using assms(2,3) by (cases "find ?m services") (auto simp: find_None_iff)
  then have "t \<in> set services" "?m t" by (auto simp: find_Some_iff)
  ultimately have "t = s" by blast
  with t show ?thesis by (simp add: dispatch_def Let_def)
qed

end
