(* ===== verification/Lease_Listener.thy ===== *)
theory Lease_Listener
  imports Turn_Runner
begin

text \<open>
  The listener of \<open>services/turns/recovery.py\<close>, of which every worker runs one: the leader among
  them consumes Redis' announcements of expired keys and finalizes the turns whose lease has
  run out, while a task of its own refreshes the leadership.
\<close>

section \<open>A worker's listener\<close>

definition LEADER_NAME :: string where
  "LEADER_NAME = ''lease-expired-listener''"

definition LEADER_TTL_S :: nat where
  "LEADER_TTL_S = 30"

definition LEADER_REFRESH_INTERVAL_S :: nat where
  "LEADER_REFRESH_INTERVAL_S = 10"

text \<open>
  \<open>ln_consuming\<close>: it is the leader as far as it knows and is subscribed; \<open>ln_refreshing\<close>: the
  task that refreshes the leadership still runs.
\<close>

record listener =
  ln_consuming :: bool
  ln_refreshing :: bool
  ln_stopped :: bool
  ln_backoff :: nat

definition idle_listener :: listener where
  "idle_listener = \<lparr>ln_consuming = False, ln_refreshing = False, ln_stopped = False, ln_backoff = 1\<rparr>"

text \<open>The start of an iteration: to lead, or to wait and try again.\<close>

definition try_lead :: "('s, 'x) redis_scheme \<Rightarrow> fault \<Rightarrow> string \<Rightarrow> listener \<times> 's \<Rightarrow> listener \<times> 's" where
  "try_lead R f holder W =
     (if ln_stopped (fst W) \<or> ln_consuming (fst W) then W
      else case acquire_leader R f LEADER_NAME holder LEADER_TTL_S (snd W) of
        (led, s1) \<Rightarrow> ((fst W)\<lparr>ln_consuming := led, ln_refreshing := led\<rparr>, s1))"

text \<open>One round of \<open>_refresh_leadership\<close>, which ends for good at a stop or when a refresh fails.\<close>

definition refresh_leadership :: "('s, 'x) redis_scheme \<Rightarrow> fault \<Rightarrow> string \<Rightarrow> listener \<times> 's \<Rightarrow> listener \<times> 's" where
  "refresh_leadership R f holder W =
     (if \<not> ln_refreshing (fst W) then W
      else if ln_stopped (fst W) then ((fst W)\<lparr>ln_refreshing := False\<rparr>, snd W)
      else case refresh_leader R f LEADER_NAME holder LEADER_TTL_S (snd W) of
        (kept, s1) \<Rightarrow> ((fst W)\<lparr>ln_refreshing := kept\<rparr>, s1))"

text \<open>The end of an iteration, after the loop was left (\<open>True\<close>) or the connection broke.\<close>

definition leave :: "('s, 'x) redis_scheme \<Rightarrow> fault \<Rightarrow> bool \<Rightarrow> string \<Rightarrow> listener \<times> 's \<Rightarrow> listener \<times> 's" where
  "leave R f consumed holder W =
     ((fst W)\<lparr>ln_consuming := False, ln_refreshing := False, ln_backoff := next_backoff consumed (ln_backoff (fst W))\<rparr>,
      snd (release_leader R f LEADER_NAME holder (snd W)))"

section \<open>The workers\<close>

type_synonym ('s, 'd) listeners = "(string \<Rightarrow> listener) \<times> ('s, 'd) world"

definition on_server ::
  "string \<Rightarrow> (listener \<times> 's \<Rightarrow> listener \<times> 's) \<Rightarrow> ('s, 'd) listeners \<Rightarrow> ('s, 'd) listeners" where
  "on_server h step L =
     (case step (fst L h, l_srv (rw_lease (snd L))) of
        (n, s1) \<Rightarrow> ((fst L)(h := n), (snd L)\<lparr>rw_lease := (rw_lease (snd L))\<lparr>l_srv := s1\<rparr>\<rparr>))"

text \<open>
  A message reaches one worker. The check for a stop or an ended refresh comes first, so the
  message that wakes the loop then is not looked at.
\<close>

definition consume_message ::
  "('s, 'x) redis_scheme \<Rightarrow> (turn_row, 'd) table \<Rightarrow> (string \<Rightarrow> fault) \<Rightarrow> int \<Rightarrow> string option \<Rightarrow> string \<Rightarrow> ('s, 'd) listeners \<Rightarrow> ('s, 'd) listeners" where
  "consume_message R T fs now key h L =
     (if \<not> ln_consuming (fst L h) then L
      else if ln_stopped (fst L h) \<or> \<not> ln_refreshing (fst L h) then on_server h (leave R (fs h) True h) L
      else (fst L, on_expired_key R T (fs h) now key (snd L)))"

datatype listen_op =
    LnTry fault string
  | LnRefresh fault string
  | LnExpired "string \<Rightarrow> fault" int "string option" "string list"
  | LnBroken fault string
  | LnStop string
  | LnElapse nat

definition listen_step ::
  "('s, 'x) redis_scheme \<Rightarrow> (turn_row, 'd) table \<Rightarrow> listen_op \<Rightarrow> ('s, 'd) listeners \<Rightarrow> ('s, 'd) listeners" where
  "listen_step R T op L =
     (case op of
        LnTry f h \<Rightarrow> on_server h (try_lead R f h) L
      | LnRefresh f h \<Rightarrow> on_server h (refresh_leadership R f h) L
      | LnExpired fs now key hs \<Rightarrow> fold (consume_message R T fs now key) hs L
      | LnBroken f h \<Rightarrow> if ln_consuming (fst L h) then on_server h (leave R f False h) L else L
      | LnStop h \<Rightarrow> ((fst L)(h := (fst L h)\<lparr>ln_stopped := True\<rparr>), snd L)
      | LnElapse n \<Rightarrow> (fst L, (snd L)\<lparr>rw_lease := (rw_lease (snd L))\<lparr>l_srv := rd_elapse R n (l_srv (rw_lease (snd L)))\<rparr>\<rparr>))"

definition attentive :: "listener \<Rightarrow> bool" where
  "attentive n \<longleftrightarrow> ln_consuming n \<and> ln_refreshing n \<and> \<not> ln_stopped n"

section \<open>Lemmas\<close>

lemma on_server_simps [simp]:
  "rw_db (snd (on_server h step L)) = rw_db (snd L)" "rw_pub (snd (on_server h step L)) = rw_pub (snd L)"
  "h' \<noteq> h \<Longrightarrow> fst (on_server h step L) h' = fst L h'"
  by (simp_all add: on_server_def split: prod.splits)

lemma inattentive_quiet:
  assumes "\<not> attentive (fst L h)"
  shows "rw_db (snd (consume_message R T fs now key h L)) = rw_db (snd L)" "rw_pub (snd (consume_message R T fs now key h L)) = rw_pub (snd L)"
    "h' \<noteq> h \<Longrightarrow> fst (consume_message R T fs now key h L) h' = fst L h'"
  using assms by (auto simp: consume_message_def attentive_def)

lemma attentive_handles:
  assumes "attentive (fst L h)"
  shows "consume_message R T fs now (Some (lease_key i)) h L = (fst L, finalize_lease_expired R T (fs h) now i (snd L))"
  using assms by (simp add: consume_message_def attentive_def on_expired_key_def lease_key_round_trip)

context turn_db
begin

lemma expired_active:
  assumes "ok (rw_db w)" "tb_view T (rw_db w) i = Some r" "active (t_status r)"
  shows "tb_view T (rw_db (finalize_lease_expired R T f now i w)) i = Some (r\<lparr>t_status := FAILED, t_error_code := Some ''lease_expired'',
      t_error_detail := Some ''worker lease expired without release'', t_completed := Some now\<rparr>)"
    "rw_pub (finalize_lease_expired R T f now i w) = rw_pub w @ [TurnEnded (t_user r) (t_chat r) i]"
proof -
  have "t_id r = i" by (rule pk_view [OF assms(1,2)])
  with finalize_tx_row [OF assms, of FAILED] assms
  show "tb_view T (rw_db (finalize_lease_expired R T f now i w)) i = Some (r\<lparr>t_status := FAILED, t_error_code := Some ''lease_expired'',
      t_error_detail := Some ''worker lease expired without release'', t_completed := Some now\<rparr>)"
    "rw_pub (finalize_lease_expired R T f now i w) = rw_pub w @ [TurnEnded (t_user r) (t_chat r) i]"
    by (simp_all add: finalize_lease_expired_def get_by_id_def terminal_statuses_def)
qed

lemma expired_done:
  assumes "tb_view T (rw_db w) i = Some r" "\<not> active (t_status r)"
  shows "finalize_lease_expired R T f now i w = w"
  using assms by (simp add: finalize_lease_expired_def get_by_id_def)

text \<open>Once the row is terminal, whoever is told again changes neither table nor announcements.\<close>

lemma told_again:
  assumes "tb_view T (rw_db (snd L)) i = Some r" "\<not> active (t_status r)"
  shows "rw_db (snd (fold (consume_message R T fs now (Some (lease_key i))) hs L)) = rw_db (snd L) \<and>
    rw_pub (snd (fold (consume_message R T fs now (Some (lease_key i))) hs L)) = rw_pub (snd L)"
  using assms
proof (induction hs arbitrary: L)
  case (Cons h hs)
  let ?L = "consume_message R T fs now (Some (lease_key i)) h L"
  have "rw_db (snd ?L) = rw_db (snd L) \<and> rw_pub (snd ?L) = rw_pub (snd L)"
  proof (cases "attentive (fst L h)")
    case True
    show ?thesis by (simp only: attentive_handles [OF True] expired_done [OF Cons.prems] snd_conv simp_thms)
  next
    case False
    from inattentive_quiet(1,2) [OF this] show ?thesis by metis
  qed
  with Cons.IH [of ?L] Cons.prems show ?case by simp
qed simp

lemma told:
  assumes "ok (rw_db (snd L))" "tb_view T (rw_db (snd L)) i = Some r" "active (t_status r)" "h \<in> set hs" "attentive (fst L h)"
  shows "tb_view T (rw_db (snd (fold (consume_message R T fs now (Some (lease_key i))) hs L))) i =
      Some (r\<lparr>t_status := FAILED, t_error_code := Some ''lease_expired'', t_error_detail := Some ''worker lease expired without release'',
        t_completed := Some now\<rparr>) \<and>
    rw_pub (snd (fold (consume_message R T fs now (Some (lease_key i))) hs L)) = rw_pub (snd L) @ [TurnEnded (t_user r) (t_chat r) i]"
  using assms
proof (induction hs arbitrary: L)
  case (Cons g hs)
  let ?L = "consume_message R T fs now (Some (lease_key i)) g L"
  show ?case
  proof (cases "attentive (fst L g)")
    case True
    let ?r = "r\<lparr>t_status := FAILED, t_error_code := Some ''lease_expired'', t_error_detail := Some ''worker lease expired without release'',
      t_completed := Some now\<rparr>"
    from expired_active [OF Cons.prems(1-3), of R "fs g" now] attentive_handles [where R = R and T = T and fs = fs and now = now and i = i, OF True]
    have v: "tb_view T (rw_db (snd ?L)) i = Some ?r" "rw_pub (snd ?L) = rw_pub (snd L) @ [TurnEnded (t_user r) (t_chat r) i]" by simp_all
    have "\<not> active (t_status ?r)" by simp
    from told_again [OF v(1) this, of R fs now hs] v show ?thesis by simp
  next
    case False
    with Cons.prems(4,5) have "h \<in> set hs" "g \<noteq> h" by auto
    then show ?thesis
      using Cons.IH [of ?L] Cons.prems inattentive_quiet [where R = R and T = T and fs = fs and now = now and key = "Some (lease_key i)", OF False] by simp
  qed
qed simp

end

section \<open>Properties\<close>

text \<open>
  C15: an expired lease ends its turn once. When the announcement reaches the workers, in any
  order, and one of them leads and refreshes its leadership, the turn's row is FAILED with the
  reason, and its end is announced exactly once, however many believe that they lead.
\<close>

theorem expired_lease_ends_turn:
  assumes "turn_db T ok" "ok (rw_db w)" "tb_view T (rw_db w) i = Some r" "active (t_status r)"
    and "h \<in> set hs" "attentive (ls h)" "listen_step R T (LnExpired fs now (Some (lease_key i)) hs) (ls, w) = (ls', w')"
  shows "tb_view T (rw_db w') i = Some (r\<lparr>t_status := FAILED, t_error_code := Some ''lease_expired'',
      t_error_detail := Some ''worker lease expired without release'', t_completed := Some now\<rparr>) \<and>
    rw_pub w' = rw_pub w @ [TurnEnded (t_user r) (t_chat r) i]"
proof -
  have "w' = snd (fold (consume_message R T fs now (Some (lease_key i))) hs (ls, w))" using assms(7) by (simp add: listen_step_def)
  with turn_db.told [OF assms(1), of "(ls, w)" i r h hs R fs now] assms(2-6) show ?thesis by simp
qed

definition demo_listeners :: "string \<Rightarrow> listener" where
  "demo_listeners h = (if h = ''a'' then idle_listener\<lparr>ln_consuming := True\<rparr> else idle_listener\<lparr>ln_consuming := True, ln_refreshing := True\<rparr>)"

theorem expired_lease_ends_turn_witness:
  "rw_pub (snd (listen_step mem_redis turn_mem (LnExpired (\<lambda>_. Fine) 70 (Some (lease_key 5)) [''a'', ''b'', ''c'']) (demo_listeners, demo_world))) =
     [TurnEnded (t_user (starting_row demo_payload 0 5)) (t_chat (starting_row demo_payload 0 5)) 5]"
proof -
  obtain ls' w' where s: "listen_step mem_redis turn_mem (LnExpired (\<lambda>_. Fine) 70 (Some (lease_key 5)) [''a'', ''b'', ''c'']) (demo_listeners, demo_world) = (ls', w')"
    by (metis surj_pair)
  have "attentive (demo_listeners ''b'')" by (simp add: attentive_def demo_listeners_def idle_listener_def)
  from expired_lease_ends_turn [OF turn_mem_db.turn_db_axioms _ _ demo_row_active _ this s] demo_db_ok demo_db_view
  have "rw_pub w' = rw_pub demo_world @ [TurnEnded (t_user (starting_row demo_payload 0 5)) (t_chat (starting_row demo_payload 0 5)) 5]"
    by (simp add: demo_world_fields)
  with s show ?thesis by (simp add: demo_world_def)
qed

section \<open>What is lost\<close>

text \<open>
  A leader whose refresh has failed once stays subscribed, and the announcement that wakes it is
  dropped: when nobody else leads, the turn stays active until the next start-up.
\<close>

lemma announcement_dropped:
  assumes "\<forall>h \<in> set hs. \<not> attentive (ls h)" "distinct hs"
  shows "rw_db (snd (listen_step R T (LnExpired fs now key hs) (ls, w))) = rw_db w"
proof -
  have "rw_db (snd (fold (consume_message R T fs now key) hs L)) = rw_db (snd L)"
    if "\<forall>h \<in> set hs. \<not> attentive (fst L h)" "distinct hs" for L hs
    using that
  proof (induction hs arbitrary: L)
    case (Cons g gs)
    let ?L = "consume_message R T fs now key g L"
    have "\<not> attentive (fst ?L h)" if "h \<in> set gs" for h
      using that Cons.prems inattentive_quiet(3) [of L g h] by (metis distinct.simps(2) list.set_intros)
    with Cons.IH [of ?L] Cons.prems inattentive_quiet(1) [of L g] show ?case by simp
  qed simp
  from this [of hs "(ls, w)"] assms show ?thesis by (simp add: listen_step_def)
qed

text \<open>One error of Redis is enough for that, and meanwhile the key keeps everybody else out.\<close>

lemma failed_refresh_blinds:
  assumes "redis_laws R" "attentive n" "map_option fst (rd_view R s (leader_key LEADER_NAME)) = Some h"
    and "refresh_leadership R FailBefore h (n, s) = (n', s')"
  shows "\<not> attentive n' \<and> ln_consuming n' \<and> (\<not> ln_consuming m \<longrightarrow> \<not> ln_consuming (fst (try_lead R f g (m, s'))))"
proof -
  have n': "n' = n\<lparr>ln_refreshing := False\<rparr>" "s' = s"
    using assms(2,4) by (auto simp: refresh_leadership_def attentive_def refresh_leader_def)
  have "rd_view R s (leader_key LEADER_NAME) \<noteq> None" using assms(3) by auto
  then have "\<not> fst (rd_set_nx R (leader_key LEADER_NAME) g LEADER_TTL_S s)"
    using redis_laws.set_nx_reply [OF assms(1)] by simp
  then have "\<not> fst (acquire_leader R f LEADER_NAME g LEADER_TTL_S s)"
    using call_cases [of f "rd_set_nx R (leader_key LEADER_NAME) g LEADER_TTL_S" s] by (auto simp: acquire_leader_def split: prod.splits)
  then show ?thesis using n' assms(2) by (auto simp: try_lead_def attentive_def split: prod.splits)
qed

text \<open>The wait before a new attempt stays between one and thirty seconds.\<close>

lemma leave_backoff:
  assumes "1 \<le> ln_backoff (fst W)" "ln_backoff (fst W) \<le> 30"
  shows "1 \<le> ln_backoff (fst (leave R f b h W)) \<and> ln_backoff (fst (leave R f b h W)) \<le> 30"
  using assms by (simp add: leave_def next_backoff_def)

end
