(* ===== verification/Spec2Isabelle.thy ===== *)
theory Spec2Isabelle
  imports Prelude Interfaces Turn_Model Turn_Service Turn_Locks Json Codex_Events Codex_Translate
    Rpc_Client Codex_Session Codex_Turn Chat_Stream Turn_Runner Tg_Markdown Tg_Progress Accounts Rate_Limit
    Chats Chat_Rpc Sessions Py_Text Ownership Uploads Notes Tg_Turn Tg_Safety Tg_Media Vault Vault_Files
    Keyed_Rows Tg_Polling Tg_Registry Tg_Service Codex_Prefs Codex_Usage Tg_Handlers
    Admin Settings_Api Mcp_Tools Codex_Open Support Lease_Listener
begin

text \<open>
  \<^bold>\<open>The program.\<close> The repository is a server that lets its users talk to a coding agent (the
  ``sidecar'', a process with a JSON-RPC interface over a web socket) from a web page or from
  Telegram. One exchange, a \<^emph>\<open>turn\<close>, goes through these parts (paths are under
  \<open>src/app\<close>):

  \<^item> the handler \<open>rpc/chat/service.py\<close> checks the user and the rate limit, looks for a turn that
  still runs in the chat, writes the user's message and a row in STARTING, and queues the turn;
  \<^item> a worker executes it (\<open>services/turns/runner.py\<close>): it takes the chat's lock and a lease in
  Redis, opens a client of the sidecar, runs the stream and appends each event to the turn's
  stream in Redis, which the handler tails for the client;
  \<^item> the stream (\<open>rpc/chat/stream.py\<close>) reads typed events, coalesces tokens, keeps partial rows
  and writes the final message in one transaction;
  \<^item> the events come from the turn session (\<open>services/codex/turn.py\<close>) over the thread session
  (\<open>thread.py\<close>) and the JSON-RPC client (\<open>transport.py\<close>), through the translation of
  notifications (\<open>events/translate.py\<close>);
  \<^item> a turn whose worker died is finalized by the recovery (\<open>services/turns/recovery.py\<close>).

  All shared state is in Postgres and Redis. Every operation on a turn's row is one statement
  whose condition is evaluated by the database, and every operation on a lock is one Redis
  command or script: the atomic steps of the model are these.

  \<^bold>\<open>What is a parameter.\<close> Code outside the repository is an argument of the definitions that
  use it. A table is a record of operations with the laws of the locale \<open>table_laws\<close>
  (\<open>Interfaces\<close>), Redis a record with the laws of \<open>redis_laws\<close> and, for sorted sets,
  \<open>zset_laws\<close> (\<open>Rate_Limit\<close>); both are interpreted on in-memory stores, on which the witnesses
  compute. A call that goes over the network takes a \<open>fault\<close> (\<open>Prelude\<close>): it may raise before or
  after it had its effect. The sidecar is a function from requests to answers with a state of
  its own; \<open>orjson\<close>, the MIME table, the password hasher, the token library and the tokens of
  markdown-it are arguments without any assumption, except where a theorem names one.

  \<^bold>\<open>The theories\<close>, in the order of their imports:

  \<^descr> \<open>Prelude\<close>: named collections, Python's string operations, faults.
  \<^descr> \<open>Interfaces\<close>: the contracts of Redis and of a table, with their in-memory providers.
  \<^descr> \<open>Turn_Model\<close>: the enumerations, the row of a turn and its partial unique index.
  \<^descr> \<open>Turn_Service\<close> (\<open>services/turns/service.py\<close>): a session is a transaction's view, the
  committed table and the publishes that wait for the commit. Shown: over any interleaving of
  workers exactly one finalization wins and is published once; the status moves only forward;
  the fence of \<open>try_create_starting\<close>; the map of active turns.
  \<^descr> \<open>Turn_Locks\<close> (\<open>services/turns/locks.py\<close>, \<open>lease.py\<close>): the three kinds of lock share the
  locale \<open>ttl_lock\<close>, where exclusion and survival under heartbeats are proved once.
  \<^descr> \<open>Json\<close>, \<open>Codex_Events\<close>, \<open>Codex_Translate\<close> (\<open>services/codex/events\<close>, \<open>collector.py\<close>): JSON
  values with the exceptions of Python's accesses, the validated events with the round trip of
  their frames, and the translation: which notification ends a turn, and how a completed
  message is reconciled with what was streamed.
  \<^descr> \<open>Rpc_Client\<close> (\<open>transport.py\<close>): a state machine over requests, frames, time-outs, loss and
  closing. Shown: answers reach only their own request, no request waits without a reader,
  the queue is bounded, closing is final; and that closing leaves the socket open.
  \<^descr> \<open>Codex_Session\<close>, \<open>Codex_Turn\<close> (\<open>shared.py\<close>, \<open>thread.py\<close>, \<open>turn.py\<close>, \<open>idle.py\<close>,
  \<open>diagnostics.py\<close>): starting a turn with one retry, and the notification loop. Shown: the
  number of requests is bounded and the callback stays in step; the loop refines the plain
  translation of the notes of its own turn; the collector and the translation agree; the hard
  cap ends a silent turn; and that an extended idle deadline ends the stream.
  \<^descr> \<open>Chat_Stream\<close> (\<open>rpc/chat/mappers.py\<close>, \<open>stream.py\<close>): one terminal frame, no text lost by
  coalescing, the final row replaces the partial rows, an aborted turn keeps its text, error
  texts are redacted.
  \<^descr> \<open>Turn_Runner\<close> (\<open>services/turns/runner.py\<close>, \<open>recovery.py\<close>, \<open>probe.py\<close>, \<open>stream.py\<close>): every
  path of an execution finalizes the row, gives back the slot and the locks; the sweep of
  orphans is exact; a reader of the stream misses nothing.
  \<^descr> \<open>Lease_Listener\<close> (\<open>services/turns/recovery.py\<close>): the listeners of all workers, of which the
  leader finalizes the turns whose lease has run out. Shown: an announced expiry ends the turn
  exactly once; and a leader whose refresh failed once loses the announcement that wakes it.
  \<^descr> \<open>Tg_Markdown\<close> (\<open>tg/markdown.py\<close>): rendering yields Telegram's HTML only; splitting ends and
  respects the limit.
  \<^descr> \<open>Tg_Progress\<close> (\<open>tg/progress.py\<close>, \<open>tg/output.py\<close>, \<open>tg/turn/outcomes.py\<close>, \<open>utils/paths.py\<close>): the
  status and stream messages of a turn and the sending of its answer. Shown: the chat gets the
  whole answer once, the reporter leaves one message of its own; and that a streamed part
  whose HTML is too long is cut.
  \<^descr> \<open>Accounts\<close> (\<open>services/users\<close>, \<open>invites\<close>, \<open>auth\<close>, \<open>rpc/auth.py\<close>): an invite admits one account.
  \<^descr> \<open>Rate_Limit\<close> (\<open>services/runtime_settings\<close>, \<open>rate_limit\<close>): the hourly limit holds in every
  window of sixty minutes.
  \<^descr> \<open>Chats\<close> (\<open>services/chats\<close>, \<open>messages\<close>, \<open>codex/history.py\<close>, \<open>rpc/message.py\<close>): reading with
  cursors is complete.
  \<^descr> \<open>Chat_Rpc\<close> (\<open>rpc/chat/service.py\<close>, \<open>codex/codex_remote.py\<close>): the composition of the rate
  limit, the turn service, the locks and the stream in the handlers. Shown: the slot of the
  rate limit is balanced on every path; and what a failed lookup of a lease does.

  \<^descr> \<open>Sessions\<close> (\<open>services/sessions/store.py\<close>, \<open>tg/sessions.py\<close>): the map of session futures as
  interleaving steps. Shown: a session keeps who opened it; and that a cancelled bootstrap
  blocks its key.
  \<^descr> \<open>Ownership\<close>: the contract of an operation that runs for a user, with isolation over runs
  proved once; \<open>Notes\<close> and \<open>Uploads\<close> interpret it. \<open>Py_Text\<close>: paths and text of Python's library.
  \<^descr> \<open>Uploads\<close> (\<open>services/storage\<close>, \<open>uploads\<close>, \<open>rpc/upload.py\<close>, \<open>rpc/chat/tts.py\<close>): rows, objects
  and workspace copies. Shown: users are isolated, and the copy's path is safe.
  \<^descr> \<open>Notes\<close> (\<open>services/notes\<close>, \<open>rpc/note.py\<close>, \<open>mcp/tools/notes.py\<close>, \<open>services/events\<close>): isolation and
  the round trip of a note.
  \<^descr> \<open>Tg_Turn\<close>, \<open>Tg_Safety\<close> (\<open>tg/turn\<close>): a message from Telegram, from its reservation to the
  released slot, as actions that end in a value or an exception. Shown by a calculus of
  preservation: a turn leaves its row terminal and its lock and slot free; and what the stop
  button, the probe and a stale turn of the sidecar do.
  \<^descr> \<open>Tg_Media\<close> (\<open>tg/media.py\<close>): the text and the files of a message and of the one it answers.
  Shown: the rows a message adds are the ones it names; the size limit is decided first.
  \<^descr> \<open>Vault\<close>, \<open>Vault_Files\<close> (\<open>services/ssh_vault\<close>, \<open>services/integrations\<close>, \<open>api/settings/router.py\<close>):
  the rules of saved integrations and the files made of them for the sidecar, which a reader of
  their formats reads back exactly.

  \<^descr> \<open>Keyed_Rows\<close>: tables seen as a map from primary keys, for the theories that follow.
  \<^descr> \<open>Tg_Polling\<close> (\<open>tg/polling.py\<close>): workers that compete for the lock of the polling loop, as a
  fleet over one Redis. Shown: two workers never poll at once unless one has missed its
  renewals for longer than the lock lives.
  \<^descr> \<open>Tg_Registry\<close> (\<open>tg/registry.py\<close>, \<open>api/settings/router.py\<close>): the middleware that records the
  chats the bot meets. Shown: a chat whose replies are off stays silent.
  \<^descr> \<open>Tg_Service\<close> (\<open>tg/service.py\<close>, \<open>api/tg_webhook.py\<close>): a worker's connection follows the stored
  integration. Shown: a webhook request needs a secret the row has had; a refresh leaves the
  settings and the connection of the new row; and what a failure or a restart leaves behind.
  \<^descr> \<open>Codex_Prefs\<close> (\<open>services/codex_prefs\<close>, \<open>rpc/codex.py\<close>): the catalog of models with its cache,
  and the preferences. Shown: accepted preferences are usable in the next turn.
  \<^descr> \<open>Codex_Usage\<close> (\<open>services/codex_usage\<close>): snapshots, published and read. Shown: a stream of them
  ends with the newest, wherever it starts.
  \<^descr> \<open>Tg_Handlers\<close> (\<open>tg/handlers.py\<close>): the commands of the bot over the world of \<open>Tg_Turn\<close>.

  \<^descr> \<open>Admin\<close>, \<open>Settings_Api\<close> (\<open>rpc/admin.py\<close>, \<open>rpc/user.py\<close>, \<open>rpc/health.py\<close>, \<open>main.py\<close>,
  \<open>api/settings/router.py\<close>): what composes the accounts. Shown: a created account and an invited
  guest get their sessions; and that a profile update can undo a change of the role.
  \<^descr> \<open>Mcp_Tools\<close> (\<open>services/mcp_authz\<close>, \<open>mcp/authz.py\<close>, \<open>mcp/tools\<close>): the signed identity of a thread
  and the tools that read it.
  \<^descr> \<open>Codex_Open\<close> (\<open>services/codex/client.py\<close>, \<open>runner.py\<close>, \<open>jwt.py\<close>, \<open>codex_remote.py\<close>): opening a
  client for a turn. Shown: a new thread gets the chat's history once, and a tool called in the
  thread acts for the turn's user; and what a failed handshake or a failed seeding leaves behind.
  \<^descr> \<open>Support\<close> (\<open>services/errors/scrub.py\<close>, \<open>config.py\<close>, \<open>services/tts\<close>, \<open>services/stt\<close>,
  \<open>services/bus\<close>, \<open>rpc/router.py\<close>): the small services; what scrubbing removes and what it keeps.

  \<^bold>\<open>Bounds and fuel.\<close> Loops that wait for the outside world take the list of what they are woken
  by: \<open>run_turn\<close> one \<open>wake\<close> for each iteration, \<open>event_loop\<close> and \<open>run_items\<close> the events of the
  stream, \<open>tail_stream\<close> the batches the server returns; a theorem about them holds for every
  list, so no length has to be chosen. \<open>split_chunks\<close> is a \<open>partial_function\<close> whose termination
  is proved for limits of at least 25, the length of the tags that close and reopen a block,
  plus one; the program uses 4096. Python's integers are \<open>int\<close>; times are
  integers of microseconds or seconds as the definitions say.

  \<^bold>\<open>Not modelled.\<close> The speech providers, the object store behind \<open>aioboto3\<close>, Pub/Sub
  itself, the framework of the tool server, start-up code, migrations, the generated protocol
  code and the web client are input and output or belong to other tools; what the modelled
  parts use of them is an argument of the definitions. Log records, metrics and the rounded
  snapshot of \<open>diagnostics.py\<close> are left out of the modelled parts. Cancellation is an input at the points
  where a modelled loop waits, not at every await.
\<close>

end
